(* ===== verification/Prelude.thy ===== *)
theory Prelude
  imports
    Complex_Main
    "HOL-Library.Word"
    "HOL-Library.AList"
    "HOL-Library.Multiset"
    "HOL-Library.Sublist"
    "HOL-Library.List_Lexorder"
    "HOL-Library.Char_ord"
    "HOL-Library.Product_Lexorder"
begin

text \<open>
  Shared vocabulary of the development: the Python values the components exchange (bytes,
  code-point strings, insertion-ordered dictionaries, exceptions), Python's \<open>round\<close>, the
  generic reachability predicate and the two interface locales every stateful component
  is proved against: \<open>guarded_machine\<close> (operations that either raise and leave the state
  alone or succeed and keep an invariant) and \<open>fifo_store\<close> (operations that move a byte
  stream through a buffer without losing, duplicating or reordering it).
\<close>

section \<open>Proof collections\<close>

named_theorems inv_defs \<open>definitions of component invariants\<close>
named_theorems op_defs \<open>definitions of component operations\<close>

section \<open>Values\<close>

text \<open>A Python \<open>bytes\<close> object of little-endian signed 16-bit PCM.\<close>

type_synonym byte = "8 word"
type_synonym pcm = "byte list"

text \<open>
  A Python \<open>str\<close> is a sequence of code points; transcripts are multilingual, so they are
  kept as code-point lists. Identifiers (worker, session and job ids) are only compared and
  ordered and stay \<^typ>\<open>string\<close>. A literal of the source is written \<open>lit ''abc''\<close>.
\<close>

type_synonym ustr = "nat list"

definition lit :: "string \<Rightarrow> ustr" where
  "lit s = map of_char s"

text \<open>
  A Python float that the source only adds, subtracts, compares and rounds (seconds, clock
  readings, probabilities) is a rational: IEEE rounding of the sums is not modelled.
\<close>

type_synonym seconds = rat

text \<open>Insertion-ordered dictionaries: \<open>AList.update\<close> keeps the position of an existing key
  and appends a new one, as a Python \<open>dict\<close> does; \<open>AList.delete\<close> is \<open>pop\<close>.\<close>

type_synonym ('k, 'v) dict = "('k \<times> 'v) list"

section \<open>Exceptions\<close>

text \<open>One constructor per exception class the modelled code raises. The string is the message
  of the \<open>raise\<close> statement; \<open>CapacityBufferError\<close> carries its reason and safe fields.\<close>

datatype py_error =
    ValueError string
  | RuntimeError string
  | KeyError string
  | TypeError string
  | TimeoutError string
  | AssertionError
  | CapacityBufferError string int int int
  | StaleResultError string
  | ConfirmedPrefixConflict string
  | ASRNotReady string
  | ASRQueueFull string
  | ASRQueueTimeout string
  | ASRInferenceTimeout string
  | ASRSessionLimit string
  | ASRSessionPoisoned string
  | ASRSessionBusy string
  | ASRFileTranscriptionDisabled string
  | ASRBatchConflict string
  | OtherError string

text \<open>\<open>type(exc).__name__\<close>; an exception of another class carries its class name.\<close>

fun error_type_name :: "py_error \<Rightarrow> string" where
  "error_type_name (ValueError _) = ''ValueError''"
| "error_type_name (RuntimeError _) = ''RuntimeError''"
| "error_type_name (KeyError _) = ''KeyError''"
| "error_type_name (TypeError _) = ''TypeError''"
| "error_type_name (TimeoutError _) = ''TimeoutError''"
| "error_type_name AssertionError = ''AssertionError''"
| "error_type_name (CapacityBufferError _ _ _ _) = ''CapacityBufferError''"
| "error_type_name (StaleResultError _) = ''StaleResultError''"
| "error_type_name (ConfirmedPrefixConflict _) = ''ConfirmedPrefixConflict''"
| "error_type_name (ASRNotReady _) = ''ASRNotReady''"
| "error_type_name (ASRQueueFull _) = ''ASRQueueFull''"
| "error_type_name (ASRQueueTimeout _) = ''ASRQueueTimeout''"
| "error_type_name (ASRInferenceTimeout _) = ''ASRInferenceTimeout''"
| "error_type_name (ASRSessionLimit _) = ''ASRSessionLimit''"
| "error_type_name (ASRSessionPoisoned _) = ''ASRSessionPoisoned''"
| "error_type_name (ASRSessionBusy _) = ''ASRSessionBusy''"
| "error_type_name (ASRFileTranscriptionDisabled _) = ''ASRFileTranscriptionDisabled''"
| "error_type_name (ASRBatchConflict _) = ''ASRBatchConflict''"
| "error_type_name (OtherError n) = n"

type_synonym 'a result = "py_error + 'a"

definition bind_result :: "'a result \<Rightarrow> ('a \<Rightarrow> 'b result) \<Rightarrow> 'b result" where
  "bind_result r f = (case r of Inl e \<Rightarrow> Inl e | Inr x \<Rightarrow> f x)"

lemma bind_result_Inl [simp]: "bind_result (Inl e) f = Inl e"
  by (simp add: bind_result_def)

lemma bind_result_Inr [simp]: "bind_result (Inr x) f = f x"
  by (simp add: bind_result_def)

lemma bind_result_eq_Inr:
  "bind_result r f = Inr y \<longleftrightarrow> (\<exists>x. r = Inr x \<and> f x = Inr y)"
  by (auto simp: bind_result_def split: sum.splits)

definition isOk :: "'a result \<Rightarrow> bool" where
  "isOk r = (case r of Inl _ \<Rightarrow> False | Inr _ \<Rightarrow> True)"

lemma isOk_simps [simp]: "isOk (Inr x)" "\<not> isOk (Inl e)"
  by (simp_all add: isOk_def)

lemma isOk_iff: "isOk r \<longleftrightarrow> (\<exists>x. r = Inr x)"
  by (cases r) auto

section \<open>Python arithmetic\<close>

text \<open>\<open>round(x)\<close> with one argument: nearest integer, ties to even.\<close>

definition py_round :: "rat \<Rightarrow> int" where
  "py_round x =
     (let f = \<lfloor>x\<rfloor>; d = x - of_int f
      in if d < 1 / 2 then f else if 1 / 2 < d then f + 1
         else if even f then f else f + 1)"

lemma py_round_of_int [simp]: "py_round (of_int n) = n"
  by (simp add: py_round_def)

lemma py_round_nonneg: "0 \<le> x \<Longrightarrow> 0 \<le> py_round x"
  by (auto simp: py_round_def Let_def)

lemma py_round_close: "\<bar>x - of_int (py_round x)\<bar> \<le> 1 / 2"
proof -
  define f where "f = \<lfloor>x\<rfloor>"
  have lo: "of_int f \<le> x" and hi: "x < of_int f + 1"
    unfolding f_def using floor_correct [of x] by simp_all
  consider "py_round x = f" "x - of_int f \<le> 1 / 2"
    | "py_round x = f + 1" "1 / 2 \<le> x - of_int f"
    unfolding py_round_def Let_def f_def [symmetric] 
    by (cases "x - of_int f" "1 / 2 :: rat" rule: linorder_cases; cases "even f"; auto)
  then show ?thesis
    using lo hi by cases (auto simp: abs_if)
qed

lemma py_round_mono: "x \<le> y \<Longrightarrow> py_round x \<le> py_round y"
proof -
  assume le: "x \<le> y"
  show ?thesis
  proof (cases "\<lfloor>x\<rfloor> = \<lfloor>y\<rfloor>")
    case True
    with le show ?thesis by (auto simp: py_round_def Let_def)
  next
    case False
    with floor_mono [OF le] have "\<lfloor>x\<rfloor> + 1 \<le> \<lfloor>y\<rfloor>" by simp
    then show ?thesis by (auto simp: py_round_def Let_def)
  qed
qed

text \<open>Python truth value of an optional or empty-able value used as \<open>x or default\<close>.\<close>

definition py_or :: "int option \<Rightarrow> int \<Rightarrow> int" where
  "py_or x d = (case x of None \<Rightarrow> d | Some v \<Rightarrow> if v = 0 then d else v)"

section \<open>Python strings\<close>

text \<open>\<open>str.isspace\<close> of one code point (the whitespace table of CPython).\<close>

definition py_isspace :: "nat \<Rightarrow> bool" where
  "py_isspace c \<longleftrightarrow>
     9 \<le> c \<and> c \<le> 13 \<or> 28 \<le> c \<and> c \<le> 32 \<or> c = 133 \<or> c = 160 \<or> c = 5760 \<or>
     8192 \<le> c \<and> c \<le> 8202 \<or> c = 8232 \<or> c = 8233 \<or> c = 8239 \<or> c = 8287 \<or> c = 12288"

definition py_strip :: "ustr \<Rightarrow> ustr" where
  "py_strip s = rev (dropWhile py_isspace (rev (dropWhile py_isspace s)))"

text \<open>\<open>not s.strip()\<close>.\<close>

definition blank :: "string \<Rightarrow> bool" where
  "blank s = list_all (\<lambda>c. py_isspace (of_char c)) s"

lemma py_strip_empty_iff: "py_strip s = [] \<longleftrightarrow> list_all py_isspace s"
proof
  assume "py_strip s = []"
  then have "\<forall>x \<in> set (dropWhile py_isspace s). py_isspace x"
    by (simp add: py_strip_def)
  then have "dropWhile py_isspace s = []"
    by (metis hd_dropWhile hd_in_set)
  then show "list_all py_isspace s" by (simp add: list_all_iff)
qed (auto simp: py_strip_def list_all_iff dest: set_dropWhileD)

lemma py_strip_id: "s \<noteq> [] \<Longrightarrow> \<not> py_isspace (hd s) \<Longrightarrow> \<not> py_isspace (last s) \<Longrightarrow> py_strip s = s"
  by (simp add: py_strip_def dropWhile_eq_self_iff [THEN iffD2] hd_rev)

section \<open>Dictionary lemmas\<close>

definition keys :: "('k, 'v) dict \<Rightarrow> 'k list" where
  "keys d = map fst d"

definition wf_dict :: "('k, 'v) dict \<Rightarrow> bool" where
  "wf_dict d = distinct (map fst d)"

lemma wf_dict_Nil [simp]: "wf_dict []"
  by (simp add: wf_dict_def)

lemma wf_dict_update [simp]: "wf_dict d \<Longrightarrow> wf_dict (AList.update k v d)"
  by (simp add: wf_dict_def distinct_update)

lemma wf_dict_delete [simp]: "wf_dict d \<Longrightarrow> wf_dict (AList.delete k d)"
  by (simp add: wf_dict_def distinct_delete)

lemma map_of_update [simp]:
  "map_of (AList.update k v d) k' = (if k' = k then Some v else map_of d k')"
  by (simp add: update_conv')

lemma map_of_delete [simp]:
  "map_of (AList.delete k d) k' = (if k' = k then None else map_of d k')"
  by (simp add: delete_conv')

lemma delete_notin: "k \<notin> set (map fst d) \<Longrightarrow> AList.delete k d = d"
  by (induction d) auto

lemma sum_values_update:
  fixes f :: "'v \<Rightarrow> int"
  assumes "wf_dict d"
  shows "sum_list (map (f \<circ> snd) (AList.update k v d)) =
     sum_list (map (f \<circ> snd) d) - (case map_of d k of None \<Rightarrow> 0 | Some u \<Rightarrow> f u) + f v"
  using assms
proof (induction d)
  case Nil
  then show ?case by simp
next
  case (Cons p d)
  obtain a b where p: "p = (a, b)" by (cases p)
  show ?case
  proof (cases "a = k")
    case True
    with Cons.prems p have "map_of d k = None"
      by (auto simp: wf_dict_def map_of_eq_None_iff)
    with True p show ?thesis by simp
  next
    case False
    with Cons p show ?thesis by (simp add: wf_dict_def)
  qed
qed

lemma sum_values_delete:
  fixes f :: "'v \<Rightarrow> int"
  assumes "wf_dict d"
  shows "sum_list (map (f \<circ> snd) (AList.delete k d)) =
     sum_list (map (f \<circ> snd) d) - (case map_of d k of None \<Rightarrow> 0 | Some u \<Rightarrow> f u)"
  using assms
proof (induction d)
  case Nil
  then show ?case by simp
next
  case (Cons p d)
  obtain a b where p: "p = (a, b)" by (cases p)
  show ?case
  proof (cases "a = k")
    case True
    with Cons.prems p have "k \<notin> set (map fst d)"
      by (auto simp: wf_dict_def)
    with True p show ?thesis by (simp add: delete_notin map_of_eq_None_iff [THEN iffD2])
  next
    case False
    with Cons p show ?thesis by (simp add: wf_dict_def)
  qed
qed

section \<open>List lemmas\<close>

lemma sum_list_remove1:
  fixes f :: "'a \<Rightarrow> int"
  shows "x \<in> set xs \<Longrightarrow> sum_list (map f (remove1 x xs)) = sum_list (map f xs) - f x"
  by (simp add: sum_list_map_remove1)

lemma length_take_twice: "2 * n \<le> length xs \<Longrightarrow> length (take (2 * n) xs) = 2 * n"
  by simp

lemma shuffles_append_both:
  "\<lbrakk>u \<in> shuffles a d; v \<in> shuffles b e\<rbrakk> \<Longrightarrow> u @ v \<in> shuffles (a @ b) (d @ e)"
proof (induction a d arbitrary: u rule: shuffles.induct)
  case (1 ys)
  have "ys @ v \<in> shuffles b (ys @ e)"
    using "1.prems"(2) by (induction ys) (auto intro: Cons_in_shuffles_rightI)
  with "1.prems"(1) show ?case by simp
next
  case (2 xs)
  have "xs @ v \<in> shuffles (xs @ b) e"
    using "2.prems"(2) by (induction xs) (auto intro: Cons_in_shuffles_leftI)
  with "2.prems"(1) show ?case by simp
next
  case (3 x xs y ys)
  then show ?case by auto
qed

lemma subseq_set: "subseq xs ys \<Longrightarrow> set xs \<subseteq> set ys"
  by (induction rule: list_emb.induct) auto

lemma subseq_mset: "subseq xs ys \<Longrightarrow> mset xs \<subseteq># mset ys"
  by (induction rule: list_emb.induct) (auto intro: subset_mset.order_trans)

lemma subseq_sorted_wrt: "subseq xs ys \<Longrightarrow> sorted_wrt R ys \<Longrightarrow> sorted_wrt R xs"
  by (induction rule: list_emb.induct) (auto dest: subseq_set)

lemma mset_remove1_sub: "x \<in># mset ys \<Longrightarrow> mset xs \<subseteq># mset (remove1 x ys) \<Longrightarrow> mset (x # xs) \<subseteq># mset ys"
  by (simp add: insert_subset_eq_iff)

lemma mset_fold_remove1: "mset (fold remove1 xs ys) = mset ys - mset xs"
  by (induction xs arbitrary: ys) simp_all

lemma filter_split_mset: "mset ys - mset (filter P ys) = mset (filter (\<lambda>x. \<not> P x) ys)"
proof -
  have "mset ys = mset (filter P ys) + mset (filter (\<lambda>x. \<not> P x) ys)"
    by (simp add: multiset_partition)
  then show ?thesis by (metis add_diff_cancel_left')
qed

section \<open>Reachability\<close>

inductive reach_from :: "('s \<Rightarrow> bool) \<Rightarrow> ('s \<Rightarrow> 's \<Rightarrow> bool) \<Rightarrow> 's \<Rightarrow> bool"
  for init :: "'s \<Rightarrow> bool" and step :: "'s \<Rightarrow> 's \<Rightarrow> bool" where
  reach_init: "init s \<Longrightarrow> reach_from init step s"
| reach_step: "reach_from init step s \<Longrightarrow> step s t \<Longrightarrow> reach_from init step t"

text \<open>A transition system whose steps keep an invariant: the contract every \<open>inductive\<close>
  step relation of the development is shown to satisfy.\<close>

locale step_system =
  fixes init :: "'s \<Rightarrow> bool" and step :: "'s \<Rightarrow> 's \<Rightarrow> bool" and inv :: "'s \<Rightarrow> bool"
  assumes init_inv: "init s \<Longrightarrow> inv s"
    and step_inv: "inv s \<Longrightarrow> step s t \<Longrightarrow> inv t"
begin

lemma reach_inv: "reach_from init step s \<Longrightarrow> inv s"
  by (induction rule: reach_from.induct) (auto intro: init_inv step_inv)

end

section \<open>Guarded operations\<close>

text \<open>An operation that raises leaves the object as it was. \<open>attempt\<close> is the caller that
  catches the exception; \<open>attempts\<close> runs a whole sequence of calls.\<close>

definition attempt :: "('s \<Rightarrow> 'op \<Rightarrow> ('o \<times> 's) result) \<Rightarrow> 's \<Rightarrow> 'op \<Rightarrow> 's" where
  "attempt step s x = (case step s x of Inl _ \<Rightarrow> s | Inr (_, t) \<Rightarrow> t)"

fun attempts :: "('s \<Rightarrow> 'op \<Rightarrow> ('o \<times> 's) result) \<Rightarrow> 's \<Rightarrow> 'op list \<Rightarrow> 's" where
  "attempts step s [] = s"
| "attempts step s (x # xs) = attempts step (attempt step s x) xs"

fun outputs :: "('s \<Rightarrow> 'op \<Rightarrow> ('o \<times> 's) result) \<Rightarrow> 's \<Rightarrow> 'op list \<Rightarrow> 'o list" where
  "outputs step s [] = []"
| "outputs step s (x # xs) =
     (case step s x of Inl _ \<Rightarrow> [] | Inr (y, _) \<Rightarrow> [y]) @ outputs step (attempt step s x) xs"

fun granted :: "('s \<Rightarrow> 'op \<Rightarrow> ('o \<times> 's) result) \<Rightarrow> 's \<Rightarrow> 'op list \<Rightarrow> 'op list" where
  "granted step s [] = []"
| "granted step s (x # xs) =
     (if isOk (step s x) then [x] else []) @ granted step (attempt step s x) xs"

locale guarded_machine =
  fixes step :: "'s \<Rightarrow> 'op \<Rightarrow> ('o \<times> 's) result" and inv :: "'s \<Rightarrow> bool"
  assumes step_keeps: "inv s \<Longrightarrow> step s x = Inr (y, t) \<Longrightarrow> inv t"
begin

lemma attempt_keeps: "inv s \<Longrightarrow> inv (attempt step s x)"
  by (auto simp: attempt_def split: sum.splits intro: step_keeps)

lemma attempts_keep: "inv s \<Longrightarrow> inv (attempts step s xs)"
  by (induction xs arbitrary: s) (simp_all add: attempt_keeps)

end

text \<open>A store that moves a stream: what it held followed by what an operation brought in is
  what the operation handed out followed by what it holds afterwards.\<close>

locale fifo_store = guarded_machine step inv
  for step :: "'s \<Rightarrow> 'op \<Rightarrow> ('o \<times> 's) result" and inv :: "'s \<Rightarrow> bool" +
  fixes held :: "'s \<Rightarrow> 'x list" and brought :: "'op \<Rightarrow> 'x list" and handed :: "'o \<Rightarrow> 'x list"
  assumes step_moves:
    "inv s \<Longrightarrow> step s x = Inr (y, t) \<Longrightarrow> held s @ brought x = handed y @ held t"
begin

lemma run_moves:
  "inv s \<Longrightarrow> held s @ concat (map brought (granted step s xs)) =
     concat (map handed (outputs step s xs)) @ held (attempts step s xs)"
proof (induction xs arbitrary: s)
  case Nil
  then show ?case by simp
next
  case (Cons x xs)
  show ?case
  proof (cases "step s x")
    case (Inl e)
    with Cons show ?thesis by (simp add: attempt_def)
  next
    case (Inr p)
    obtain y t where p: "p = (y, t)" by (cases p)
    with Inr Cons.prems have t: "attempt step s x = t" and it: "inv t"
      and mv: "held s @ brought x = handed y @ held t"
      by (auto simp: attempt_def intro: step_keeps step_moves)
    have "held s @ concat (map brought (granted step s (x # xs))) =
        handed y @ held t @ concat (map brought (granted step t xs))"
      using Inr p t mv by (simp add: append_assoc [symmetric] del: append_assoc)
    also have "\<dots> = handed y @ concat (map handed (outputs step t xs)) @ held (attempts step t xs)"
      by (simp add: Cons.IH [OF it])
    also have "\<dots> = concat (map handed (outputs step s (x # xs))) @ held (attempts step s (x # xs))"
      using Inr p t by simp
    finally show ?thesis .
  qed
qed

end

text \<open>A ledger: what was accepted is what was settled plus what is still outstanding, and only the
  amounts the calls bring are ever accepted.\<close>

locale sample_ledger = guarded_machine step inv
  for step :: "'s \<Rightarrow> 'op \<Rightarrow> ('o \<times> 's) result" and inv :: "'s \<Rightarrow> bool" +
  fixes accepted :: "'s \<Rightarrow> int" and settled :: "'s \<Rightarrow> int" and outstanding :: "'s \<Rightarrow> int"
    and amount :: "'op \<Rightarrow> int"
  assumes balanced: "inv s \<Longrightarrow> accepted s = settled s + outstanding s"
    and outstanding_nonneg: "inv s \<Longrightarrow> 0 \<le> outstanding s"
    and step_accepts: "inv s \<Longrightarrow> step s x = Inr (y, t) \<Longrightarrow> accepted t = accepted s + amount x"
    and step_settles: "inv s \<Longrightarrow> step s x = Inr (y, t) \<Longrightarrow> settled s \<le> settled t"
begin

lemma run_accepts:
  "inv s \<Longrightarrow> accepted (attempts step s xs) = accepted s + sum_list (map amount (granted step s xs))"
proof (induction xs arbitrary: s)
  case Nil
  then show ?case by simp
next
  case (Cons x xs)
  then show ?case
    using attempt_keeps [OF Cons.prems, of x] step_accepts [OF Cons.prems, of x]
    by (cases "step s x") (auto simp: attempt_def split: prod.splits)
qed

lemma run_settles: "inv s \<Longrightarrow> settled s \<le> settled (attempts step s xs)"
proof (induction xs arbitrary: s)
  case Nil
  then show ?case by simp
next
  case (Cons x xs)
  have "settled s \<le> settled (attempt step s x)"
    using step_settles [OF Cons.prems, of x] by (auto simp: attempt_def split: sum.splits)
  also have "\<dots> \<le> settled (attempts step (attempt step s x) xs)"
    using Cons.IH [OF attempt_keeps [OF Cons.prems]] .
  finally show ?case by simp
qed

lemma run_balanced:
  assumes "inv s"
  shows "accepted s + sum_list (map amount (granted step s xs)) =
     settled (attempts step s xs) + outstanding (attempts step s xs)"
    and "0 \<le> outstanding (attempts step s xs)"
  using run_accepts [OF assms, of xs] balanced [OF attempts_keep [OF assms, of xs]]
    outstanding_nonneg [OF attempts_keep [OF assms, of xs]]
  by simp_all

end

section \<open>Methods that mutate and may raise\<close>

text \<open>A call whose effects before a \<open>raise\<close> persist: the outcome and the state after it. \<open>py_bind\<close> is
  statement sequencing, \<open>py_except\<close> is \<open>try/except Exception\<close>, \<open>py_finally\<close> is \<open>try/finally\<close>.\<close>

type_synonym ('s, 'a) py_method = "'s \<Rightarrow> 'a result \<times> 's"

definition py_return :: "'a \<Rightarrow> ('s, 'a) py_method" where
  "py_return x = (\<lambda>s. (Inr x, s))"

definition py_raise :: "py_error \<Rightarrow> ('s, 'a) py_method" where
  "py_raise e = (\<lambda>s. (Inl e, s))"

definition py_modify :: "('s \<Rightarrow> 's) \<Rightarrow> ('s, unit) py_method" where
  "py_modify f = (\<lambda>s. (Inr (), f s))"

definition py_read :: "('s \<Rightarrow> 'a) \<Rightarrow> ('s, 'a) py_method" where
  "py_read f = (\<lambda>s. (Inr (f s), s))"

definition py_bind :: "('s, 'a) py_method \<Rightarrow> ('a \<Rightarrow> ('s, 'b) py_method) \<Rightarrow> ('s, 'b) py_method" where
  "py_bind m f = (\<lambda>s. case m s of (Inl e, t) \<Rightarrow> (Inl e, t) | (Inr x, t) \<Rightarrow> f x t)"

definition py_seq :: "('s, 'a) py_method \<Rightarrow> ('s, 'b) py_method \<Rightarrow> ('s, 'b) py_method" where
  "py_seq m n = py_bind m (\<lambda>_. n)"

definition py_except :: "('s, 'a) py_method \<Rightarrow> (py_error \<Rightarrow> ('s, 'a) py_method) \<Rightarrow> ('s, 'a) py_method" where
  "py_except m h = (\<lambda>s. case m s of (Inl e, t) \<Rightarrow> h e t | (Inr x, t) \<Rightarrow> (Inr x, t))"

definition py_finally :: "('s, 'a) py_method \<Rightarrow> ('s, unit) py_method \<Rightarrow> ('s, 'a) py_method" where
  "py_finally m f = (\<lambda>s. case m s of (r, t) \<Rightarrow>
     (case f t of (Inl e, u) \<Rightarrow> (Inl e, u) | (Inr _, u) \<Rightarrow> (r, u)))"

text \<open>A \<open>try\<close> around one call whose handlers and continuation are told apart by its outcome.\<close>

definition py_outcome :: "('s, 'a) py_method \<Rightarrow> ('s, 'a result) py_method" where
  "py_outcome m = (\<lambda>s. case m s of (r, t) \<Rightarrow> (Inr r, t))"

fun py_for :: "'a list \<Rightarrow> ('a \<Rightarrow> ('s, unit) py_method) \<Rightarrow> ('s, unit) py_method" where
  "py_for [] f = py_return ()"
| "py_for (x # xs) f = py_seq (f x) (py_for xs f)"

lemmas method_defs =
  py_return_def py_raise_def py_modify_def py_read_def py_bind_def py_seq_def py_except_def
  py_finally_def py_outcome_def

lemma py_bind_Inr: "py_bind m f s = (Inr y, u) \<longleftrightarrow> (\<exists>x t. m s = (Inr x, t) \<and> f x t = (Inr y, u))"
  by (auto simp: py_bind_def split: prod.splits sum.splits)

lemma py_seq_Inr: "py_seq m n s = (Inr y, u) \<longleftrightarrow> (\<exists>x t. m s = (Inr x, t) \<and> n t = (Inr y, u))"
  by (simp add: py_seq_def py_bind_Inr)

text \<open>\<open>triple P m Q E\<close>: from a state satisfying \<open>P\<close> the call returns in a state satisfying \<open>Q\<close> of its
  result, or raises in a state satisfying \<open>E\<close>.\<close>

definition triple ::
  "('s \<Rightarrow> bool) \<Rightarrow> ('s, 'a) py_method \<Rightarrow> ('a \<Rightarrow> 's \<Rightarrow> bool) \<Rightarrow> ('s \<Rightarrow> bool) \<Rightarrow> bool" where
  "triple P m Q E \<longleftrightarrow> (\<forall>s. P s \<longrightarrow> (case m s of (Inl e, t) \<Rightarrow> E t | (Inr x, t) \<Rightarrow> Q x t))"

lemma tripleD: "triple P m Q E \<Longrightarrow> P s \<Longrightarrow> m s = (Inr x, t) \<Longrightarrow> Q x t"
  and tripleE: "triple P m Q E \<Longrightarrow> P s \<Longrightarrow> m s = (Inl e, t) \<Longrightarrow> E t"
  by (fastforce simp: triple_def)+

lemma triple_intro:
  "(\<And>s. P s \<Longrightarrow> case m s of (Inl e, t) \<Rightarrow> E t | (Inr x, t) \<Rightarrow> Q x t) \<Longrightarrow> triple P m Q E"
  by (simp add: triple_def)

lemma triple_pre: "(\<And>s. P s \<Longrightarrow> P' s) \<Longrightarrow> triple P' m Q E \<Longrightarrow> triple P m Q E"
  by (auto simp: triple_def)

lemma triple_conseq:
  "triple P' m Q' E' \<Longrightarrow> (\<And>s. P s \<Longrightarrow> P' s) \<Longrightarrow> (\<And>x s. Q' x s \<Longrightarrow> Q x s) \<Longrightarrow>
   (\<And>s. E' s \<Longrightarrow> E s) \<Longrightarrow> triple P m Q E"
  unfolding triple_def by (fastforce split: prod.splits sum.splits)

lemma triple_return [simp]: "triple P (py_return x) Q E \<longleftrightarrow> (\<forall>s. P s \<longrightarrow> Q x s)"
  by (simp add: triple_def py_return_def)

lemma triple_raise [simp]: "triple P (py_raise e) Q E \<longleftrightarrow> (\<forall>s. P s \<longrightarrow> E s)"
  by (simp add: triple_def py_raise_def)

lemma triple_modify [simp]: "triple P (py_modify f) Q E \<longleftrightarrow> (\<forall>s. P s \<longrightarrow> Q () (f s))"
  by (simp add: triple_def py_modify_def)

lemma triple_read [simp]: "triple P (py_read f) Q E \<longleftrightarrow> (\<forall>s. P s \<longrightarrow> Q (f s) s)"
  by (simp add: triple_def py_read_def)

lemma triple_bind:
  "triple P m R E \<Longrightarrow> (\<And>x. triple (R x) (f x) Q E) \<Longrightarrow> triple P (py_bind m f) Q E"
  unfolding triple_def py_bind_def by (fastforce split: prod.splits sum.splits)

lemma triple_bind_read:
  "(\<And>x. triple (\<lambda>s. P s \<and> g s = x) (f x) Q E) \<Longrightarrow> triple P (py_bind (py_read g) f) Q E"
  by (rule triple_bind [where R = "\<lambda>x s. P s \<and> g s = x"]) simp_all

lemma triple_seq:
  "triple P m (\<lambda>_. R) E \<Longrightarrow> triple R n Q E \<Longrightarrow> triple P (py_seq m n) Q E"
  unfolding py_seq_def by (rule triple_bind)

lemma triple_except:
  "triple P m Q R \<Longrightarrow> (\<And>e. triple R (h e) Q E) \<Longrightarrow> triple P (py_except m h) Q E"
  unfolding triple_def py_except_def by (fastforce split: prod.splits sum.splits)

lemma triple_finally:
  "triple P m R S \<Longrightarrow> (\<And>x. triple (R x) f (\<lambda>_. Q x) E) \<Longrightarrow> triple S f (\<lambda>_. E) E \<Longrightarrow>
   triple P (py_finally m f) Q E"
proof (rule triple_intro)
  fix s assume m: "triple P m R S" and q: "\<And>x. triple (R x) f (\<lambda>_. Q x) E"
    and e: "triple S f (\<lambda>_. E) E" and "P s"
  obtain r t where mt: "m s = (r, t)" by (cases "m s")
  obtain w u where fu: "f t = (w, u)" by (cases "f t")
  show "case py_finally m f s of (Inl e, t) \<Rightarrow> E t | (Inr x, t) \<Rightarrow> Q x t"
  proof (cases r)
    case (Inl x)
    with m mt \<open>P s\<close> have "S t" by (auto dest: tripleE)
    with e fu mt Inl show ?thesis
      by (cases w) (auto simp: py_finally_def dest: tripleD tripleE)
  next
    case (Inr x)
    with m mt \<open>P s\<close> have "R x t" by (auto dest: tripleD)
    with q [of x] fu mt Inr show ?thesis
      by (cases w) (auto simp: py_finally_def dest: tripleD tripleE)
  qed
qed

lemma triple_outcome:
  "triple P m (\<lambda>x. Q (Inr x)) R \<Longrightarrow> (\<And>e s. R s \<Longrightarrow> Q (Inl e) s) \<Longrightarrow> triple P (py_outcome m) Q E"
  unfolding triple_def py_outcome_def by (fastforce split: prod.splits sum.splits)

lemma triple_for:
  "(\<And>x. x \<in> set xs \<Longrightarrow> triple I (f x) (\<lambda>_. I) E) \<Longrightarrow> triple I (py_for xs f) (\<lambda>_. I) E"
  by (induction xs) (auto intro: triple_seq)

lemma triple_if:
  "(b \<Longrightarrow> triple P m Q E) \<Longrightarrow> (\<not> b \<Longrightarrow> triple P n Q E) \<Longrightarrow> triple P (if b then m else n) Q E"
  by simp

text \<open>A call that leaves a view of the state alone, whether it returns or raises.\<close>

definition keeps :: "('s \<Rightarrow> 'v) \<Rightarrow> ('s, 'a) py_method \<Rightarrow> bool" where
  "keeps view m \<longleftrightarrow> (\<forall>s. view (snd (m s)) = view s)"

lemma keepsD: "keeps view m \<Longrightarrow> m s = (r, t) \<Longrightarrow> view t = view s"
  unfolding keeps_def by (metis snd_conv)

lemma keeps_simps [simp]:
  "keeps view (py_return x)" "keeps view (py_raise e)" "keeps view (py_read f)"
  "keeps view (py_modify g) \<longleftrightarrow> (\<forall>s. view (g s) = view s)"
  by (simp_all add: keeps_def py_return_def py_raise_def py_read_def py_modify_def)

lemma keeps_bind: "keeps view m \<Longrightarrow> (\<And>x. keeps view (f x)) \<Longrightarrow> keeps view (py_bind m f)"
  unfolding keeps_def py_bind_def by (auto split: prod.split sum.split) (metis snd_conv)+

lemma keeps_seq: "keeps view m \<Longrightarrow> keeps view n \<Longrightarrow> keeps view (py_seq m n)"
  unfolding py_seq_def by (rule keeps_bind)

lemma keeps_except: "keeps view m \<Longrightarrow> (\<And>e. keeps view (h e)) \<Longrightarrow> keeps view (py_except m h)"
  unfolding keeps_def py_except_def by (auto split: prod.split sum.split) (metis snd_conv)+

lemma keeps_finally: "keeps view m \<Longrightarrow> keeps view f \<Longrightarrow> keeps view (py_finally m f)"
  unfolding keeps_def py_finally_def by (auto split: prod.split sum.split) (metis snd_conv)+

lemma keeps_for: "(\<And>x. x \<in> set xs \<Longrightarrow> keeps view (f x)) \<Longrightarrow> keeps view (py_for xs f)"
  by (induction xs) (simp_all add: keeps_seq)

lemma keeps_if: "keeps view m \<Longrightarrow> keeps view n \<Longrightarrow> keeps view (if b then m else n)"
  by simp

lemmas keeps_rules = keeps_bind keeps_seq keeps_except keeps_finally keeps_for keeps_if

text \<open>A part of a larger state: the caller's world is a component and its environment.\<close>

definition on_snd :: "('e, 'a) py_method \<Rightarrow> ('s \<times> 'e, 'a) py_method" where
  "on_snd m = (\<lambda>(s, e). case m e of (r, e') \<Rightarrow> (r, (s, e')))"

lemma triple_on_snd: "(\<And>s e e'. P (s, e) \<Longrightarrow> P (s, e')) \<Longrightarrow> triple P (on_snd m) (\<lambda>_. P) P"
  unfolding triple_def on_snd_def by (auto split: prod.splits sum.splits)

definition never_raises :: "('s, 'a) py_method \<Rightarrow> bool" where
  "never_raises m \<longleftrightarrow> (\<forall>s. isOk (fst (m s)))"

lemma triple_on_snd_ok:
  "never_raises m \<Longrightarrow> (\<And>s e e'. P (s, e) \<Longrightarrow> P (s, e')) \<Longrightarrow> triple P (on_snd m) (\<lambda>_. P) (\<lambda>_. False)"
  unfolding triple_def on_snd_def never_raises_def
  by (auto split: prod.splits sum.splits) (metis fst_conv isOk_simps(2))

end
