(* ===== verification/Observability.thy ===== *)
theory Observability
  imports Prelude
begin

text \<open>
  \<open>app/asr_observability.py\<close>: the capacity exception every bounded buffer raises, the
  length-framed batch identity, the run-length statistic, the bounded value window with its
  nearest-rank summary, and the event emitter's redaction guard. SHA-256 and the log sink are
  outside the repository: the digest is a parameter and \<open>emit\<close> returns the payload that
  would be logged.
\<close>

section \<open>Capacity errors\<close>

definition CAPACITY_REASONS :: "string set" where
  "CAPACITY_REASONS =
     {''session_pcm_limit'', ''scheduler_ready_job_limit'',
      ''scheduler_queued_audio_limit'', ''adapter_utterance_limit''}"

text \<open>The exception object that \<open>raise CapacityBufferError(...)\<close> really raises: the
  constructor itself rejects unknown reasons and negative fields.\<close>

definition capacity_buffer_error :: "string \<Rightarrow> int \<Rightarrow> int \<Rightarrow> int \<Rightarrow> py_error" where
  "capacity_buffer_error reason limit current incoming =
     (if reason \<notin> CAPACITY_REASONS then ValueError ''unsupported capacity rejection reason''
      else if limit < 0 then ValueError ''limit must be nonnegative''
      else if current < 0 then ValueError ''current must be nonnegative''
      else if incoming < 0 then ValueError ''incoming must be nonnegative''
      else CapacityBufferError reason limit current incoming)"

lemma capacity_buffer_error_ok:
  "\<lbrakk>reason \<in> CAPACITY_REASONS; 0 \<le> l; 0 \<le> c; 0 \<le> i\<rbrakk> \<Longrightarrow>
   capacity_buffer_error reason l c i = CapacityBufferError reason l c i"
  by (simp add: capacity_buffer_error_def)

section \<open>Batch identity\<close>

text \<open>UTF-8 of a code point below 256 (job ids are session hex, colons and digits).\<close>

definition utf8_char :: "char \<Rightarrow> byte list" where
  "utf8_char c =
     (let n = of_char c :: nat
      in if n < 128 then [of_nat n] else [of_nat (192 + n div 64), of_nat (128 + n mod 64)])"

definition utf8 :: "string \<Rightarrow> byte list" where
  "utf8 s = concat (map utf8_char s)"

text \<open>\<open>len(job_id).to_bytes(4, "big")\<close>.\<close>

definition be32 :: "nat \<Rightarrow> byte list" where
  "be32 n = [of_nat (n div 16777216), of_nat (n div 65536 mod 256),
             of_nat (n div 256 mod 256), of_nat (n mod 256)]"

fun batch_preimage :: "string list \<Rightarrow> (byte list) result" where
  "batch_preimage [] = Inr []"
| "batch_preimage (job_id # jobs) =
     (if job_id = [] then Inl (ValueError ''batch jobs require nonempty job_id'')
      else if length job_id \<ge> 2 ^ 32 then Inl (OtherError ''OverflowError'')
      else bind_result (batch_preimage jobs) (\<lambda>rest. Inr (be32 (length job_id) @ utf8 job_id @ rest)))"

definition stable_batch_id :: "(byte list \<Rightarrow> string) \<Rightarrow> string list \<Rightarrow> string result" where
  "stable_batch_id sha256_hex jobs =
     (if jobs = [] then Inl (ValueError ''batch identity requires at least one job'')
      else bind_result (batch_preimage jobs)
             (\<lambda>bytes. Inr (''batch-'' @ take 16 (sha256_hex bytes))))"

section \<open>Longest character run\<close>

fun maximum_character_run_loop :: "nat option \<Rightarrow> nat \<Rightarrow> nat \<Rightarrow> ustr \<Rightarrow> nat" where
  "maximum_character_run_loop previous current maximum [] = maximum"
| "maximum_character_run_loop previous current maximum (character # rest) =
     (let current' = (if Some character = previous then current + 1 else 1)
      in maximum_character_run_loop (Some character) current' (max maximum current') rest)"

definition maximum_character_run :: "ustr \<Rightarrow> nat" where
  "maximum_character_run value = maximum_character_run_loop None 0 0 value"

section \<open>Bounded values\<close>

datatype pyfloat = Finite rat | PosInf | NegInf | NaN

record BoundedValues =
  bv_maxlen :: nat
  bv_values :: "rat list"

definition bounded_values_init :: "int \<Rightarrow> BoundedValues result" where
  "bounded_values_init maxlen =
     (if maxlen \<le> 0 then Inl (ValueError ''maxlen must be positive'')
      else Inr \<lparr>bv_maxlen = nat maxlen, bv_values = []\<rparr>)"

text \<open>\<open>deque(maxlen).append\<close> drops from the left once full.\<close>

definition deque_append :: "nat \<Rightarrow> 'a list \<Rightarrow> 'a \<Rightarrow> 'a list" where
  "deque_append maxlen xs x = drop (length xs + 1 - maxlen) (xs @ [x])"

definition bounded_values_add :: "BoundedValues \<Rightarrow> pyfloat \<Rightarrow> BoundedValues result" where
  "bounded_values_add b v =
     (case v of
        Finite x \<Rightarrow>
          if x < 0 then Inl (ValueError ''observability values must be finite and nonnegative'')
          else Inr (b\<lparr>bv_values := deque_append (bv_maxlen b) (bv_values b) x\<rparr>)
      | _ \<Rightarrow> Inl (ValueError ''observability values must be finite and nonnegative''))"

record value_summary =
  vs_count :: nat
  vs_min :: rat
  vs_p50 :: rat
  vs_p95 :: rat
  vs_p99 :: rat
  vs_max :: rat

definition nearest_rank :: "rat list \<Rightarrow> rat \<Rightarrow> rat" where
  "nearest_rank ordered percentile =
     ordered ! nat (max 0 (\<lceil>percentile * of_nat (length ordered)\<rceil> - 1))"

text \<open>\<open>None\<close> is the dictionary holding only \<open>count: 0\<close>.\<close>

definition bounded_values_summary :: "BoundedValues \<Rightarrow> value_summary option" where
  "bounded_values_summary b =
     (if bv_values b = [] then None
      else let ordered = sort (bv_values b) in
        Some \<lparr>vs_count = length ordered, vs_min = ordered ! 0,
          vs_p50 = nearest_rank ordered (1 / 2), vs_p95 = nearest_rank ordered (95 / 100),
          vs_p99 = nearest_rank ordered (99 / 100), vs_max = ordered ! (length ordered - 1)\<rparr>)"

section \<open>Event emitter\<close>

definition SENSITIVE_FIELDS :: "string set" where
  "SENSITIVE_FIELDS =
     {''api_key'', ''secret'', ''token_text'', ''transcript'', ''text'', ''prompt'',
      ''pcm'', ''audio_path'', ''exception_message'', ''authorization''}"

definition ascii_lower_char :: "char \<Rightarrow> char" where
  "ascii_lower_char c =
     (let n = of_char c :: nat in if 65 \<le> n \<and> n \<le> 90 then char_of (n + 32) else c)"

definition ascii_lower :: "string \<Rightarrow> string" where
  "ascii_lower s = map ascii_lower_char s"

datatype field_value = FStr string | FInt int | FFloat rat | FBool bool | FNone

record EventEmitter =
  em_diagnostic_enabled :: bool
  em_process_id :: string
  em_slow_engine_seconds :: rat

definition event_emitter_init :: "bool \<Rightarrow> string \<Rightarrow> rat \<Rightarrow> EventEmitter result" where
  "event_emitter_init diagnostic_enabled process_id slow_engine_seconds =
     (if slow_engine_seconds \<le> 0 then Inl (ValueError ''slow_engine_seconds must be positive'')
      else Inr \<lparr>em_diagnostic_enabled = diagnostic_enabled, em_process_id = process_id,
                em_slow_engine_seconds = slow_engine_seconds\<rparr>)"

text \<open>The payload is a dictionary literal followed by \<open>**fields\<close>, so a field overrides an
  equally named entry. \<open>now\<close> is the timestamp callback's result.\<close>

definition emit ::
  "EventEmitter \<Rightarrow> string \<Rightarrow> string \<Rightarrow> string \<Rightarrow> bool \<Rightarrow> string \<Rightarrow> (string, field_value) dict
     \<Rightarrow> ((string, field_value) dict option) result" where
  "emit em event component level diagnostic now extras =
     (if diagnostic \<and> \<not> em_diagnostic_enabled em then Inr None
      else if event = [] \<or> component = [] then
        Inl (ValueError ''event and component must be nonempty'')
      else if list_ex (\<lambda>name. ascii_lower name \<in> SENSITIVE_FIELDS) (map fst extras) then
        Inl (ValueError ''sensitive observability field is forbidden'')
      else Inr (Some (fold (\<lambda>(k, v). AList.update k v) extras
        [(''schema_version'', FInt 1), (''timestamp'', FStr now), (''event'', FStr event),
         (''level'', FStr level), (''component'', FStr component),
         (''process_id'', FStr (em_process_id em))])))"

section \<open>Properties\<close>

subsection \<open>Framing\<close>

lemma utf8_char_nonempty: "utf8_char c \<noteq> []"
  by (simp add: utf8_char_def Let_def)

lemma of_nat_byte_inject:
  "\<lbrakk>m < 256; n < 256\<rbrakk> \<Longrightarrow> ((of_nat m :: byte) = of_nat n) = (m = n)"
  by (simp add: word_of_nat_eq_iff take_bit_nat_def)

lemma of_char_bound: "(of_char c :: nat) < 256"
  by (rule nat_of_char_less_256)

text \<open>UTF-8 of one code point is prefix-free: equal streams start with equal characters.\<close>

lemma utf8_char_append_inject:
  assumes "utf8_char c @ xs = utf8_char d @ ys"
  shows "c = d \<and> xs = ys"
proof -
  define m n where "m = (of_char c :: nat)" and "n = (of_char d :: nat)"
  have b: "m < 256" "n < 256" by (simp_all add: m_def n_def of_char_bound)
  have "m = n \<and> xs = ys"
  proof (cases "m < 128")
    case True
    with assms b show ?thesis
      by (auto simp: utf8_char_def Let_def m_def [symmetric] n_def [symmetric]
          of_nat_byte_inject simp del: of_nat_add split: if_splits)
  next
    case False
    with assms b have "192 + m div 64 = 192 + n div 64" "128 + m mod 64 = 128 + n mod 64"
      "xs = ys" "\<not> n < 128"
      by (auto simp: utf8_char_def Let_def m_def [symmetric] n_def [symmetric]
          of_nat_byte_inject simp del: of_nat_add split: if_splits)
    then show ?thesis by (metis add_left_cancel div_mult_mod_eq)
  qed
  then show ?thesis by (simp add: m_def n_def)
qed

lemma utf8_Cons: "utf8 (c # s) = utf8_char c @ utf8 s"
  by (simp add: utf8_def)

lemma utf8_append_inject:
  "\<lbrakk>utf8 s @ xs = utf8 t @ ys; length s = length t\<rbrakk> \<Longrightarrow> s = t \<and> xs = ys"
proof (induction s arbitrary: t)
  case Nil
  then show ?case by simp
next
  case (Cons c s)
  then obtain d t' where t: "t = d # t'" by (cases t) auto
  with Cons.prems have "utf8_char c @ (utf8 s @ xs) = utf8_char d @ (utf8 t' @ ys)"
    by (simp add: utf8_Cons)
  then have "c = d" and "utf8 s @ xs = utf8 t' @ ys"
    using utf8_char_append_inject by blast+
  with Cons t show ?case by simp
qed

lemma nat_eq_by_256: "\<lbrakk>x div 256 = y div 256; x mod 256 = y mod 256\<rbrakk> \<Longrightarrow> x = y"
  for x y :: nat
  by (metis div_mult_mod_eq)

lemma div_div_256:
  "x div 65536 div 256 = x div 16777216" "x div 256 div 256 = x div 65536" for x :: nat
proof -
  have "(65536 :: nat) * 256 = 16777216" "(256 :: nat) * 256 = 65536" by simp_all
  then show "x div 65536 div 256 = x div 16777216" "x div 256 div 256 = x div 65536"
    by (metis div_mult2_eq)+
qed

lemma four_bytes_inject:
  assumes "[of_nat a, of_nat b, of_nat c, of_nat d :: byte] = [of_nat a', of_nat b', of_nat c', of_nat d']"
    and "a < 256" "b < 256" "c < 256" "d < 256" "a' < 256" "b' < 256" "c' < 256" "d' < 256"
  shows "a = a'" "b = b'" "c = c'" "d = d'"
  using assms by (simp_all add: of_nat_byte_inject)

lemma be32_inject:
  assumes m: "m < 2 ^ 32" and n: "n < 2 ^ 32" and eq: "be32 m = be32 n"
  shows "m = n"
proof -
  have "m div 16777216 < 256" "n div 16777216 < 256"
    using m n by simp_all
  note d = four_bytes_inject [OF eq [unfolded be32_def] this(1) _ _ _ this(2), simplified]
  have d: "m div 16777216 = n div 16777216" "m div 65536 mod 256 = n div 65536 mod 256"
    "m div 256 mod 256 = n div 256 mod 256" "m mod 256 = n mod 256"
    by (fact d)+
  have e: "m div 65536 = n div 65536"
    by (rule nat_eq_by_256) (simp_all only: d div_div_256)
  have "m div 256 = n div 256"
    by (rule nat_eq_by_256) (simp_all only: d e div_div_256)
  then show "m = n"
    by (rule nat_eq_by_256) (rule d)
qed

lemma length_be32 [simp]: "length (be32 n) = 4"
  by (simp add: be32_def)

lemma batch_preimage_Cons_eq_Inr:
  "batch_preimage (j # js) = Inr bs \<longleftrightarrow>
     j \<noteq> [] \<and> length j < 2 ^ 32 \<and>
     (\<exists>rest. batch_preimage js = Inr rest \<and> bs = be32 (length j) @ utf8 j @ rest)"
  by (auto simp: bind_result_eq_Inr)

lemma batch_preimage_inject:
  "\<lbrakk>batch_preimage js = Inr bs; batch_preimage ks = Inr bs\<rbrakk> \<Longrightarrow> js = ks"
proof (induction js arbitrary: ks bs)
  case Nil
  then have "bs = []" by simp
  with Nil.prems(2) show ?case
    by (cases ks) (auto simp: batch_preimage_Cons_eq_Inr be32_def simp del: batch_preimage.simps(2))
next
  case (Cons j js)
  from Cons.prems(1) obtain r where r: "batch_preimage js = Inr r" "length j < 2 ^ 32"
    and bs: "bs = be32 (length j) @ utf8 j @ r"
    unfolding batch_preimage_Cons_eq_Inr by blast
  then obtain k ks' where ks: "ks = k # ks'"
    using Cons.prems(2) by (cases ks) (auto simp: be32_def)
  from Cons.prems(2)[unfolded ks batch_preimage_Cons_eq_Inr] obtain q
    where q: "batch_preimage ks' = Inr q" "length k < 2 ^ 32"
    and bs': "bs = be32 (length k) @ utf8 k @ q" by blast
  have be: "be32 (length j) = be32 (length k)" and tl: "utf8 j @ r = utf8 k @ q"
    using bs bs' by simp_all
  from be32_inject [OF r(2) q(2) be] have "length j = length k" .
  from utf8_append_inject [OF tl this] have "j = k" "r = q" by simp_all
  with Cons.IH [OF r(1)] q(1) ks show ?case by simp
qed

text \<open>Two batches get the same identity only if they list the same job ids in the same order,
  or the 16 hex digits of the digest collide: the length framing of \<open>stable_batch_id\<close> makes the
  hashed byte string an injective function of the job id sequence.\<close>

theorem stable_batch_id_framing:
  assumes "stable_batch_id sha js = Inr i" and "stable_batch_id sha ks = Inr i"
  shows "js = ks \<or> (\<exists>a b. a \<noteq> b \<and> take 16 (sha a) = take 16 (sha b))"
proof -
  from assms obtain a b where ab: "batch_preimage js = Inr a" "batch_preimage ks = Inr b"
    "take 16 (sha a) = take 16 (sha b)"
    by (auto simp: stable_batch_id_def bind_result_eq_Inr split: if_splits)
  show ?thesis
  proof (cases "a = b")
    case True
    with ab batch_preimage_inject show ?thesis by blast
  next
    case False
    with ab show ?thesis by blast
  qed
qed

theorem stable_batch_id_framing_witness:
  "stable_batch_id (\<lambda>_. ''00'') [''s:1:1''] = Inr ''batch-00'' \<and>
   (''s:1:1'' = ''s:1:1'' \<or>
    (\<exists>a b. a \<noteq> b \<and> take 16 ((\<lambda>_ :: byte list. ''00'') a) = take 16 ((\<lambda>_. ''00'') b)))"
proof -
  have h: "stable_batch_id (\<lambda>_. ''00'') [''s:1:1''] = Inr ''batch-00''"
    by (simp add: stable_batch_id_def)
  show ?thesis
    using stable_batch_id_framing [OF h h] h by blast
qed

subsection \<open>Longest run\<close>

lemma sublist_snoc_iff: "sublist xs (ys @ [y]) \<longleftrightarrow> suffix xs (ys @ [y]) \<or> sublist xs ys"
proof -
  have "sublist xs (ys @ [y]) \<longleftrightarrow> sublist (rev xs) (y # rev ys)"
    by (metis rev_append rev_singleton_conv append_Cons append_Nil rev.simps(2) rev_rev_ident
        sublist_rev)
  also have "\<dots> \<longleftrightarrow> prefix (rev xs) (y # rev ys) \<or> sublist (rev xs) (rev ys)"
    by (rule sublist_Cons_right)
  also have "\<dots> \<longleftrightarrow> suffix xs (ys @ [y]) \<or> sublist xs ys"
    by (simp add: suffix_to_prefix)
  finally show ?thesis .
qed

lemma suffix_replicate_snoc:
  "suffix (replicate m c) (p @ [x]) \<longleftrightarrow> m = 0 \<or> c = x \<and> suffix (replicate (m - 1) x) p"
proof (cases m)
  case 0
  then show ?thesis by simp
next
  case (Suc k)
  have "replicate (Suc k) c = replicate k c @ [c]"
    by (simp add: replicate_append_same)
  with Suc show ?thesis by auto
qed

definition run_inv :: "ustr \<Rightarrow> nat option \<Rightarrow> nat \<Rightarrow> nat \<Rightarrow> bool" where
  "run_inv p previous current maximum \<longleftrightarrow>
     (case previous of
        None \<Rightarrow> p = []
      | Some c \<Rightarrow> (\<forall>d m. suffix (replicate m d) p \<longleftrightarrow> m = 0 \<or> d = c \<and> m \<le> current)) \<and>
     (\<exists>c. sublist (replicate maximum c) p) \<and>
     (\<forall>m c. sublist (replicate m c) p \<longrightarrow> m \<le> maximum)"

lemma run_inv_step:
  assumes "run_inv p previous current maximum"
    and cur: "current' = (if Some x = previous then current + 1 else 1)"
  shows "run_inv (p @ [x]) (Some x) current' (max maximum current')"
proof -
  have sfx: "suffix (replicate m d) (p @ [x]) \<longleftrightarrow> m = 0 \<or> d = x \<and> m \<le> current'" for m d
  proof (cases previous)
    case None
    with assms suffix_replicate_snoc [of m d "[]" x] show ?thesis
      by (auto simp: run_inv_def)
  next
    case (Some c)
    then have "suffix (replicate m d) p \<longleftrightarrow> m = 0 \<or> d = c \<and> m \<le> current" for m d
      using assms(1) by (auto simp: run_inv_def)
    with Some cur show ?thesis
      unfolding suffix_replicate_snoc by (cases m) auto
  qed
  have "suffix (replicate current' x) (p @ [x])" unfolding sfx by simp
  then have "sublist (replicate current' x) (p @ [x])" by blast
  moreover obtain c where "sublist (replicate maximum c) (p @ [x])"
    using assms(1) by (auto simp: run_inv_def sublist_snoc_iff)
  ultimately have "\<exists>c. sublist (replicate (max maximum current') c) (p @ [x])"
    by (auto simp: max_def)
  moreover have "m \<le> max maximum current'" if "sublist (replicate m c) (p @ [x])" for m c
    using that assms(1) unfolding sublist_snoc_iff sfx
    by (auto simp: run_inv_def le_max_iff_disj)
  ultimately show ?thesis unfolding run_inv_def using sfx by auto
qed

lemma run_inv_loop:
  "run_inv p previous current maximum \<Longrightarrow>
   n = maximum_character_run_loop previous current maximum xs \<Longrightarrow>
   (\<exists>c. sublist (replicate n c) (p @ xs)) \<and> (\<forall>m c. sublist (replicate m c) (p @ xs) \<longrightarrow> m \<le> n)"
proof (induction xs arbitrary: p previous current maximum)
  case Nil
  then show ?case by (simp add: run_inv_def)
next
  case (Cons x xs)
  from Cons.IH [OF run_inv_step [OF Cons.prems(1) refl, of x]] Cons.prems(2)
  show ?case by (simp add: Let_def)
qed

text \<open>\<open>maximum_character_run\<close> is the length of the longest block of equal characters: such a
  block occurs in the text, and no block of equal characters of the text is longer.\<close>

theorem maximum_character_run_correct:
  "(\<exists>c. sublist (replicate (maximum_character_run s) c) s) \<and>
   \<not> (\<exists>m c. maximum_character_run s < m \<and> sublist (replicate m c) s)"
proof -
  have "run_inv [] None 0 0" by (simp add: run_inv_def)
  from run_inv_loop [OF this refl, of s] show ?thesis
    unfolding maximum_character_run_def by (metis append_Nil not_le)
qed

subsection \<open>Nearest-rank summary\<close>

lemma length_deque_append:
  "\<lbrakk>0 < n; length xs \<le> n\<rbrakk> \<Longrightarrow> length (deque_append n xs x) = min n (length xs + 1)"
  by (simp add: deque_append_def)

lemma set_deque_append: "set (deque_append n xs x) \<subseteq> insert x (set xs)"
  by (auto simp: deque_append_def dest: in_set_dropD)

definition bounded_values_inv :: "BoundedValues \<Rightarrow> bool" where
  "bounded_values_inv b \<longleftrightarrow>
     0 < bv_maxlen b \<and> length (bv_values b) \<le> bv_maxlen b \<and> (\<forall>x \<in> set (bv_values b). 0 \<le> x)"

lemma bounded_values_add_inv:
  assumes "bounded_values_inv b" and "bounded_values_add b v = Inr b'"
  shows "bounded_values_inv b'"
proof -
  from assms(2) obtain x where x: "v = Finite x" "0 \<le> x"
    and b': "b' = b\<lparr>bv_values := deque_append (bv_maxlen b) (bv_values b) x\<rparr>"
    by (auto simp: bounded_values_add_def split: pyfloat.splits if_splits)
  from assms(1) x show ?thesis
    using set_deque_append [of "bv_maxlen b" "bv_values b" x]
    by (auto simp: bounded_values_inv_def b' length_deque_append)
qed

lemma rank_index_bound:
  fixes p :: rat
  assumes "0 < n" and "p \<le> 1"
  shows "nat (max 0 (\<lceil>p * of_nat n\<rceil> - 1)) < n"
proof -
  have "p * of_nat n \<le> (of_nat n :: rat)"
    using mult_right_mono [OF assms(2), of "of_nat n"] by simp
  then have "\<lceil>p * of_nat n\<rceil> \<le> int n" by (simp add: ceiling_le_iff)
  with assms(1) show ?thesis by linarith
qed

lemma rank_index_mono:
  fixes p q :: rat
  assumes "p \<le> q"
  shows "nat (max 0 (\<lceil>p * of_nat n\<rceil> - 1)) \<le> nat (max 0 (\<lceil>q * of_nat n\<rceil> - 1))"
proof -
  have "p * of_nat n \<le> q * (of_nat n :: rat)"
    using mult_right_mono [OF assms, of "of_nat n"] by simp
  then have "\<lceil>p * of_nat n\<rceil> \<le> \<lceil>q * (of_nat n :: rat)\<rceil>" by (rule ceiling_mono)
  then show ?thesis by linarith
qed

lemma nearest_rank_mono:
  assumes "sorted xs" and "xs \<noteq> []" and "p \<le> q" and "q \<le> 1"
  shows "nearest_rank xs p \<le> nearest_rank xs q"
  using assms rank_index_mono [of p q "length xs"] rank_index_bound [of "length xs" q]
  by (auto simp: nearest_rank_def intro!: sorted_nth_mono)

lemma nearest_rank_mem: "xs \<noteq> [] \<Longrightarrow> p \<le> 1 \<Longrightarrow> nearest_rank xs p \<in> set xs"
  using rank_index_bound [of "length xs" p] by (simp add: nearest_rank_def)

text \<open>After any sequence of accepted additions the summary of a \<open>BoundedValues\<close> window counts
  at most \<open>maxlen\<close> nonnegative values, its percentiles are values of the window, and
  min \<open>\<le>\<close> p50 \<open>\<le>\<close> p95 \<open>\<le>\<close> p99 \<open>\<le>\<close> max.\<close>

theorem bounded_values_summary_ordered:
  assumes "bounded_values_inv b" and "bounded_values_summary b = Some v"
  shows "0 < vs_count v \<and> vs_count v \<le> bv_maxlen b \<and> 0 \<le> vs_min v \<and>
     vs_min v \<le> vs_p50 v \<and> vs_p50 v \<le> vs_p95 v \<and> vs_p95 v \<le> vs_p99 v \<and>
     vs_p99 v \<le> vs_max v \<and>
     {vs_min v, vs_p50 v, vs_p95 v, vs_p99 v, vs_max v} \<subseteq> set (bv_values b)"
proof -
  let ?o = "sort (bv_values b)"
  from assms(2) have ne: "bv_values b \<noteq> []" "?o \<noteq> []"
    by (auto simp: bounded_values_summary_def split: if_splits) (metis set_empty set_sort)
  from assms(2) ne have v: "v = \<lparr>vs_count = length ?o, vs_min = ?o ! 0,
      vs_p50 = nearest_rank ?o (1 / 2), vs_p95 = nearest_rank ?o (95 / 100),
      vs_p99 = nearest_rank ?o (99 / 100), vs_max = ?o ! (length ?o - 1)\<rparr>"
    by (simp add: bounded_values_summary_def Let_def)
  have rank: "nearest_rank ?o p \<in> set (bv_values b)" if "p \<le> 1" for p
    using nearest_rank_mem [OF ne(2) that] by simp
  have ends: "?o ! 0 \<in> set (bv_values b)" "?o ! (length ?o - 1) \<in> set (bv_values b)"
    using ne by (metis length_greater_0_conv nth_mem set_sort)
      (metis ne(2) One_nat_def Suc_pred length_greater_0_conv lessI nth_mem set_sort)
  have lo: "?o ! 0 \<le> nearest_rank ?o (1 / 2)"
    using rank_index_bound [of "length ?o" "1 / 2"] ne
    by (auto simp: nearest_rank_def intro!: sorted_nth_mono)
  have hi: "nearest_rank ?o (99 / 100) \<le> ?o ! (length ?o - 1)"
    using rank_index_bound [of "length ?o" "99 / 100"] ne
    unfolding nearest_rank_def by (intro sorted_nth_mono) auto
  have mid: "nearest_rank ?o (1 / 2) \<le> nearest_rank ?o (95 / 100)"
    "nearest_rank ?o (95 / 100) \<le> nearest_rank ?o (99 / 100)"
    using ne by (intro nearest_rank_mono; simp)+
  have "0 \<le> ?o ! 0" using assms(1) ends(1) by (auto simp: bounded_values_inv_def)
  moreover have "0 < length ?o" "length ?o \<le> bv_maxlen b"
    using assms(1) ne by (auto simp: bounded_values_inv_def)
  ultimately show ?thesis
    unfolding v value_summary.simps using lo hi mid ends by (intro conjI subsetI) (auto intro: rank)
qed

theorem bounded_values_summary_ordered_witness:
  "let b = \<lparr>bv_maxlen = 3, bv_values = [3, 1, 2]\<rparr> in
   bounded_values_inv b \<and> (\<exists>v. bounded_values_summary b = Some v \<and> vs_min v \<le> vs_p50 v)"
proof -
  let ?b = "\<lparr>bv_maxlen = 3, bv_values = [3, 1, 2]\<rparr>"
  have i: "bounded_values_inv ?b" by (simp add: bounded_values_inv_def)
  obtain v where v: "bounded_values_summary ?b = Some v"
    by (simp add: bounded_values_summary_def Let_def)
  from bounded_values_summary_ordered [OF i v] v i show ?thesis by (auto simp: Let_def)
qed

subsection \<open>Redaction\<close>

lemma keys_fold_update:
  "set (map fst (fold (\<lambda>(k, v). AList.update k v) kvs d)) = set (map fst kvs) \<union> set (map fst d)"
proof (induction kvs arbitrary: d)
  case (Cons kv kvs)
  have "fst ` set (AList.update (fst kv) (snd kv) d) = insert (fst kv) (fst ` set d)"
    by (simp add: dom_update)
  with Cons show ?case by (simp add: case_prod_beta)
qed simp

text \<open>No emitted observability payload has a key that, lower-cased, is one of the
  \<open>SENSITIVE_FIELDS\<close>: an event carrying such a field raises instead of being logged.\<close>

theorem emit_never_sensitive:
  assumes "emit em event component level diagnostic now extras = Inr (Some payload)"
  shows "\<not> (\<exists>k \<in> set (map fst payload). ascii_lower k \<in> SENSITIVE_FIELDS)"
proof -
  let ?base = "[(''schema_version'', FInt 1), (''timestamp'', FStr now), (''event'', FStr event),
    (''level'', FStr level), (''component'', FStr component), (''process_id'', FStr (em_process_id em))]"
  from assms have p: "payload = fold (\<lambda>(k, v). AList.update k v) extras ?base"
    and ok: "\<not> list_ex (\<lambda>name. ascii_lower name \<in> SENSITIVE_FIELDS) (map fst extras)"
    by (auto simp: emit_def split: if_splits)
  have base: "\<not> (\<exists>k \<in> set (map fst ?base). ascii_lower k \<in> SENSITIVE_FIELDS)"
    by (simp add: ascii_lower_def ascii_lower_char_def SENSITIVE_FIELDS_def)
  from ok base show ?thesis
    unfolding p keys_fold_update by (auto simp: list_ex_iff)
qed

theorem emit_never_sensitive_witness:
  "\<exists>payload. emit \<lparr>em_diagnostic_enabled = False, em_process_id = ''p'', em_slow_engine_seconds = 2\<rparr>
     ''asr_process_started'' ''gateway'' ''INFO'' False ''t'' [(''worker_count'', FInt 1)]
     = Inr (Some payload) \<and> \<not> (\<exists>k \<in> set (map fst payload). ascii_lower k \<in> SENSITIVE_FIELDS)"
proof -
  have "\<exists>payload. emit \<lparr>em_diagnostic_enabled = False, em_process_id = ''p'', em_slow_engine_seconds = 2\<rparr>
     ''asr_process_started'' ''gateway'' ''INFO'' False ''t'' [(''worker_count'', FInt 1)]
     = Inr (Some payload)"
    by (simp add: emit_def ascii_lower_def ascii_lower_char_def SENSITIVE_FIELDS_def)
  then show ?thesis using emit_never_sensitive by blast
qed

end
