(* ===== verification/Backends.thy ===== *)
theory Backends
  imports Prelude
begin

text \<open>
  \<open>app/asr_gateway_backends.py\<close>: what a worker advertises (\<open>BackendCapabilities\<close>), the
  registry that owns one snapshot per worker and hands out session leases
  (\<open>BackendRegistry\<close>, \<open>BackendLease\<close>), and the adapter's result value. Every registry
  method holds the registry lock for its whole body, so each is one atomic operation.
\<close>

section \<open>Enumerations\<close>

datatype StreamingMode = STATEFUL | CHUNKED | ROLLING | OFFLINE

datatype DispatchMode =
  SINGLE | FIXED_MICROBATCH | DYNAMIC_MICROBATCH | CONTINUOUS | STATEFUL_DYNAMIC

datatype VadMode = VAD_NONE | VAD_GATEWAY | VAD_WORKER | VAD_BOTH

datatype ResultMode = CUMULATIVE_SNAPSHOT | REPLACEABLE_SEGMENT | CONFIRMED_PLUS_TAIL

datatype WorkerLifecycle = STARTING | READY | DRAINING | FAILED

section \<open>Capabilities\<close>

record BackendCapabilities =
  protocol_version :: int
  worker_id :: string
  model_id :: ustr
  model_revision :: ustr
  gpu_id :: string
  languages :: "ustr list"
  tasks :: "ustr list"
  streaming_mode :: StreamingMode
  dispatch_mode :: DispatchMode
  vad_mode :: VadMode
  result_mode :: ResultMode
  preferred_chunk_samples :: int
  max_input_samples :: int
  max_segment_samples :: int
  max_batch_items :: int
  max_batch_samples :: int
  max_in_flight :: int
  session_capacity :: int
  retry_safe :: bool
  warmed :: bool
  sample_rate :: int
  sample_format :: string
  backend_id :: string

text \<open>\<open>__post_init__\<close>: the checks in the source's order; the value is the capabilities
  themselves when the dataclass can be constructed.\<close>

definition capabilities_post_init :: "BackendCapabilities \<Rightarrow> BackendCapabilities result" where
  "capabilities_post_init c =
     (if blank (worker_id c) then Inl (ValueError ''worker_id must not be empty'')
      else if py_strip (model_id c) = [] then Inl (ValueError ''model_id must not be empty'')
      else if py_strip (model_revision c) = [] then Inl (ValueError ''model_revision must not be empty'')
      else if blank (gpu_id c) then Inl (ValueError ''gpu_id must not be empty'')
      else if backend_id c \<noteq> [] \<and> blank (backend_id c) then
        Inl (ValueError ''backend_id must not be blank'')
      else if protocol_version c \<le> 0 then Inl (ValueError ''protocol_version must be positive'')
      else if preferred_chunk_samples c \<le> 0 then
        Inl (ValueError ''preferred_chunk_samples must be positive'')
      else if max_input_samples c \<le> 0 then Inl (ValueError ''max_input_samples must be positive'')
      else if max_segment_samples c \<le> 0 then
        Inl (ValueError ''max_segment_samples must be positive'')
      else if max_batch_items c \<le> 0 then Inl (ValueError ''max_batch_items must be positive'')
      else if max_batch_samples c \<le> 0 then Inl (ValueError ''max_batch_samples must be positive'')
      else if max_in_flight c \<le> 0 then Inl (ValueError ''max_in_flight must be positive'')
      else if session_capacity c \<le> 0 then Inl (ValueError ''session_capacity must be positive'')
      else if sample_rate c \<le> 0 then Inl (ValueError ''sample_rate must be positive'')
      else if languages c = [] then Inl (ValueError ''languages must not be empty'')
      else if tasks c = [] then Inl (ValueError ''tasks must not be empty'')
      else if dispatch_mode c = SINGLE \<and> max_batch_items c \<noteq> 1 then
        Inl (ValueError ''max_batch_items must be one for single dispatch'')
      else if vad_mode c = VAD_BOTH then
        Inl (ValueError ''vad_mode cannot enable gateway and worker ownership'')
      else if preferred_chunk_samples c > max_input_samples c then
        Inl (ValueError ''preferred_chunk_samples exceeds max_input_samples'')
      else if max_input_samples c > max_segment_samples c then
        Inl (ValueError ''max_input_samples exceeds max_segment_samples'')
      else Inr c)"

definition immutable_identity ::
  "BackendCapabilities \<Rightarrow> string \<times> ustr \<times> ustr \<times> string" where
  "immutable_identity c = (worker_id c, model_id c, model_revision c, gpu_id c)"

section \<open>Snapshots and the registry\<close>

record BackendSnapshot =
  capabilities :: BackendCapabilities
  lifecycle :: WorkerLifecycle
  active_leases :: int
  queued_jobs :: int
  in_flight :: int
  load_error :: "string option"

definition backend_snapshot :: "BackendCapabilities \<Rightarrow> BackendSnapshot" where
  "backend_snapshot c = \<lparr>capabilities = c, lifecycle = STARTING, active_leases = 0,
     queued_jobs = 0, in_flight = 0, load_error = None\<rparr>"

definition accepting :: "BackendSnapshot \<Rightarrow> bool" where
  "accepting w \<longleftrightarrow> lifecycle w = READY \<and> warmed (capabilities w) \<and>
     active_leases w < session_capacity (capabilities w) \<and>
     in_flight w < max_in_flight (capabilities w)"

type_synonym registry = "(string, BackendSnapshot) dict"

definition registry_worker :: "registry \<Rightarrow> string \<Rightarrow> BackendSnapshot result" where
  "registry_worker r w =
     (case map_of r w of None \<Rightarrow> Inl (KeyError ''unknown worker_id'') | Some s \<Rightarrow> Inr s)"

definition registry_register :: "registry \<Rightarrow> BackendCapabilities \<Rightarrow> registry result" where
  "registry_register r c =
     (case map_of r (worker_id c) of
        Some current \<Rightarrow>
          if immutable_identity (capabilities current) \<noteq> immutable_identity c then
            Inl (ValueError ''immutable model identity changed on re-registration'')
          else Inr (AList.update (worker_id c) (current\<lparr>capabilities := c\<rparr>) r)
      | None \<Rightarrow>
          if list_ex (\<lambda>w. gpu_id (capabilities w) = gpu_id c) (map snd r) then
            Inl (ValueError ''gpu_id already has model owner'')
          else Inr (AList.update (worker_id c) (backend_snapshot c) r))"

definition registry_mark_ready ::
  "registry \<Rightarrow> string \<Rightarrow> bool \<Rightarrow> string option \<Rightarrow> registry result" where
  "registry_mark_ready r w ready error =
     bind_result (registry_worker r w) (\<lambda>s.
       Inr (AList.update w
         (s\<lparr>lifecycle := if ready then READY else FAILED, load_error := error\<rparr>) r))"

record route =
  preferred_worker_id :: "string option"
  route_backend_id :: "string option"
  route_language :: "ustr option"
  route_task :: "ustr option"
  route_streaming_mode :: "StreamingMode option"
  result_modes :: "ResultMode list option"
  route_model_id :: "ustr option"
  route_model_revision :: "ustr option"

text \<open>The chain of list comprehensions of \<open>acquire\<close>, one conjunct per filter.\<close>

definition route_matches :: "route \<Rightarrow> BackendSnapshot \<Rightarrow> bool" where
  "route_matches q w \<longleftrightarrow>
     (let c = capabilities w in
      accepting w \<and>
      (case preferred_worker_id q of None \<Rightarrow> True | Some p \<Rightarrow> worker_id c = p) \<and>
      (case route_backend_id q of None \<Rightarrow> True
       | Some b \<Rightarrow> (if backend_id c = [] then worker_id c else backend_id c) = b) \<and>
      (case route_language q of None \<Rightarrow> True
       | Some l \<Rightarrow> l = lit ''auto'' \<or> l \<in> set (languages c) \<or> lit ''auto'' \<in> set (languages c)) \<and>
      (case route_task q of None \<Rightarrow> True | Some t \<Rightarrow> t \<in> set (tasks c)) \<and>
      (case route_streaming_mode q of None \<Rightarrow> True | Some m \<Rightarrow> streaming_mode c = m) \<and>
      (case result_modes q of None \<Rightarrow> True | Some ms \<Rightarrow> result_mode c \<in> set ms) \<and>
      (case route_model_id q of None \<Rightarrow> True | Some m \<Rightarrow> model_id c = m) \<and>
      (case route_model_revision q of None \<Rightarrow> True | Some m \<Rightarrow> model_revision c = m))"

definition lease_key :: "BackendSnapshot \<Rightarrow> int \<times> int \<times> string" where
  "lease_key w = (active_leases w, in_flight w, worker_id (capabilities w))"

definition registry_acquire :: "registry \<Rightarrow> route \<Rightarrow> (string \<times> registry) result" where
  "registry_acquire r q =
     (let candidates = filter (\<lambda>(k, w). route_matches q w) r in
      if candidates = [] then
        Inl (RuntimeError ''unsupported backend route or no ready capacity'')
      else let (k, selected) = arg_min_list (\<lambda>(k, w). lease_key w) candidates in
        Inr (worker_id (capabilities selected),
             AList.update k (selected\<lparr>active_leases := active_leases selected + 1\<rparr>) r))"

definition registry_release :: "registry \<Rightarrow> string \<Rightarrow> registry result" where
  "registry_release r w =
     bind_result (registry_worker r w) (\<lambda>s.
       if active_leases s \<le> 0 then Inl (RuntimeError ''active lease accounting underflow'')
       else Inr (AList.update w (s\<lparr>active_leases := active_leases s - 1\<rparr>) r))"

definition registry_begin_drain :: "registry \<Rightarrow> string \<Rightarrow> registry result" where
  "registry_begin_drain r w =
     bind_result (registry_worker r w) (\<lambda>s. Inr (AList.update w (s\<lparr>lifecycle := DRAINING\<rparr>) r))"

definition registry_remove :: "registry \<Rightarrow> string \<Rightarrow> registry result" where
  "registry_remove r w =
     bind_result (registry_worker r w) (\<lambda>s.
       if active_leases s \<noteq> 0 then Inl (RuntimeError ''cannot remove worker with active leases'')
       else Inr (AList.delete w r))"

text \<open>The \<open>ready\<close> entry of \<open>snapshot()\<close>, which \<open>gateway_readiness\<close> returns.\<close>

definition registry_ready :: "registry \<Rightarrow> bool" where
  "registry_ready r = list_ex (\<lambda>(k, w). accepting w) r"

section \<open>Leases\<close>

record BackendLease =
  lease_worker_id :: string
  released :: bool

text \<open>\<open>release\<close> sets the flag before it calls the registry, so a raising registry leaves the
  lease released; the second call is a no-op.\<close>

definition lease_release ::
  "registry \<Rightarrow> BackendLease \<Rightarrow> py_error option \<times> BackendLease \<times> registry" where
  "lease_release r l =
     (if released l then (None, l, r)
      else case registry_release r (lease_worker_id l) of
        Inl e \<Rightarrow> (Some e, l\<lparr>released := True\<rparr>, r)
      | Inr r' \<Rightarrow> (None, l\<lparr>released := True\<rparr>, r'))"

record AdapterResult =
  ar_backend_session_id :: string
  ar_text :: ustr
  ar_confirmed_text :: ustr
  ar_tail_text :: ustr
  ar_decoded_samples :: int
  ar_is_final :: bool
  ar_error :: "string option"
  ar_metadata :: "(string, string) dict option"

definition sanitize_error :: "string \<Rightarrow> string" where
  "sanitize_error type_name = type_name @ '': backend operation failed''"

section \<open>Invariants\<close>

definition registry_inv :: "registry \<Rightarrow> bool" where
  [inv_defs]: "registry_inv r \<longleftrightarrow>
     wf_dict r \<and> (\<forall>k w. map_of r k = Some w \<longrightarrow> worker_id (capabilities w) = k \<and> 0 \<le> active_leases w) \<and>
     (\<forall>k1 k2 w1 w2. map_of r k1 = Some w1 \<longrightarrow> map_of r k2 = Some w2 \<longrightarrow>
        gpu_id (capabilities w1) = gpu_id (capabilities w2) \<longrightarrow> k1 = k2)"

lemmas registry_op_defs =
  registry_register_def registry_mark_ready_def registry_release_def
  registry_begin_drain_def registry_remove_def registry_worker_def

lemma registry_inv_Nil: "registry_inv []"
  by (simp add: registry_inv_def)

text \<open>Replacing a snapshot by one with the same identity keeps the invariant.\<close>

lemma registry_inv_update:
  assumes "registry_inv r" and "map_of r k = Some w"
    and "worker_id (capabilities w') = k" and "gpu_id (capabilities w') = gpu_id (capabilities w)"
    and "0 \<le> active_leases w'"
  shows "registry_inv (AList.update k w' r)"
  using assms by (auto simp: registry_inv_def split: if_splits)

lemma registry_inv_delete: "registry_inv r \<Longrightarrow> registry_inv (AList.delete k r)"
  by (auto simp: registry_inv_def split: if_splits)

lemma registry_worker_Inr: "registry_worker r w = Inr s \<longleftrightarrow> map_of r w = Some s"
  by (auto simp: registry_worker_def split: option.splits)

lemma registry_register_inv:
  assumes inv: "registry_inv r" and ok: "registry_register r c = Inr r'"
  shows "registry_inv r'"
proof (cases "map_of r (worker_id c)")
  case None
  with ok have free: "\<forall>w \<in> set (map snd r). gpu_id (capabilities w) \<noteq> gpu_id c"
    and r': "r' = AList.update (worker_id c) (backend_snapshot c) r"
    by (auto simp: registry_register_def list_ex_iff split: if_splits)
  have "gpu_id (capabilities w) \<noteq> gpu_id c" if "map_of r k = Some w" for k w
    using free map_of_SomeD [OF that] by force
  with inv show ?thesis
    by (auto simp: r' registry_inv_def backend_snapshot_def split: if_splits) metis+
next
  case (Some current)
  with ok have "immutable_identity (capabilities current) = immutable_identity c"
    and r': "r' = AList.update (worker_id c) (current\<lparr>capabilities := c\<rparr>) r"
    by (auto simp: registry_register_def split: if_splits)
  with inv Some show ?thesis
    by (auto simp: r' immutable_identity_def registry_inv_def intro!: registry_inv_update)
qed

lemma arg_min_list_filter_mem: "filter P xs \<noteq> [] \<Longrightarrow> arg_min_list f (filter P xs) \<in> set xs \<and> P (arg_min_list f (filter P xs))"
  using arg_min_list_in [of "filter P xs" f] by auto

text \<open>What a granted lease is: the selected worker matches the route, is minimal among the
  matching workers, and only its lease count changes.\<close>

lemma registry_acquire_cases:
  assumes "registry_inv r" and "registry_acquire r q = Inr (wid, r')"
  obtains w where "map_of r wid = Some w" "route_matches q w"
    "\<And>k v. map_of r k = Some v \<Longrightarrow> route_matches q v \<Longrightarrow> lease_key w \<le> lease_key v"
    "r' = AList.update wid (w\<lparr>active_leases := active_leases w + 1\<rparr>) r"
proof -
  let ?c = "filter (\<lambda>(k, w). route_matches q w) r"
  obtain k w where sel: "arg_min_list (\<lambda>(k, w). lease_key w) ?c = (k, w)" by fastforce
  from assms(2) have ne: "?c \<noteq> []"
    by (auto simp: registry_acquire_def Let_def split: if_splits)
  from assms(2) sel ne have wid: "wid = worker_id (capabilities w)"
    and r': "r' = AList.update k (w\<lparr>active_leases := active_leases w + 1\<rparr>) r"
    by (auto simp: registry_acquire_def Let_def)
  from arg_min_list_filter_mem [OF ne, of "\<lambda>(k, w). lease_key w"] sel
  have mem: "(k, w) \<in> set r" "route_matches q w" by auto
  then have m: "map_of r k = Some w"
    using assms(1) by (simp add: registry_inv_def wf_dict_def)
  with assms(1) wid have "k = wid" by (auto simp: registry_inv_def)
  moreover have "lease_key w \<le> lease_key v" if "map_of r j = Some v" "route_matches q v" for j v
  proof -
    have "(j, v) \<in> set ?c" using that map_of_SomeD [OF that(1)] by simp
    then have "(\<lambda>(k, w). lease_key w) (arg_min_list (\<lambda>(k, w). lease_key w) ?c)
        \<le> (\<lambda>(k, w). lease_key w) (j, v)"
      using f_arg_min_list_f [OF ne, of "\<lambda>(k, w). lease_key w"] by (auto intro: Min_le)
    with sel show ?thesis by simp
  qed
  ultimately show thesis using that m mem(2) r' by blast
qed

lemma registry_acquire_inv:
  assumes "registry_inv r" and "registry_acquire r q = Inr (wid, r')"
  shows "registry_inv r'"
proof -
  obtain w where "map_of r wid = Some w"
    "r' = AList.update wid (w\<lparr>active_leases := active_leases w + 1\<rparr>) r"
    using assms by (rule registry_acquire_cases)
  moreover from this(1) assms(1) have "worker_id (capabilities w) = wid" "0 \<le> active_leases w"
    by (auto simp: registry_inv_def)
  ultimately show ?thesis
    using registry_inv_update [OF assms(1), of wid w "w\<lparr>active_leases := active_leases w + 1\<rparr>"]
    by simp
qed

lemma registry_same_identity_inv:
  assumes "registry_inv r" and "map_of r k = Some w"
    and "capabilities w' = capabilities w" and "0 \<le> active_leases w'"
  shows "registry_inv (AList.update k w' r)"
  using assms by (intro registry_inv_update) (auto simp: registry_inv_def)

lemma registry_mark_ready_inv:
  "registry_inv r \<Longrightarrow> registry_mark_ready r w b e = Inr r' \<Longrightarrow> registry_inv r'"
  by (auto simp: registry_mark_ready_def bind_result_eq_Inr registry_worker_Inr
      intro!: registry_same_identity_inv) (auto simp: registry_inv_def)

lemma registry_begin_drain_inv:
  "registry_inv r \<Longrightarrow> registry_begin_drain r w = Inr r' \<Longrightarrow> registry_inv r'"
  by (auto simp: registry_begin_drain_def bind_result_eq_Inr registry_worker_Inr
      intro!: registry_same_identity_inv) (auto simp: registry_inv_def)

lemma registry_release_inv:
  "registry_inv r \<Longrightarrow> registry_release r w = Inr r' \<Longrightarrow> registry_inv r'"
  by (auto simp: registry_release_def bind_result_eq_Inr registry_worker_Inr
      intro!: registry_same_identity_inv split: if_splits)

lemma registry_remove_inv:
  "registry_inv r \<Longrightarrow> registry_remove r w = Inr r' \<Longrightarrow> registry_inv r'"
  by (auto simp: registry_remove_def bind_result_eq_Inr intro: registry_inv_delete split: if_splits)

section \<open>Lease accounting\<close>

text \<open>The registry together with the leases its clients hold. One rule per registry method;
  \<open>lease_back\<close> is \<open>BackendLease.release\<close> on the lease at index \<open>i\<close>.\<close>

type_synonym lease_system = "registry \<times> BackendLease list"

inductive lease_step :: "lease_system \<Rightarrow> lease_system \<Rightarrow> bool" where
  ls_register: "registry_register r c = Inr r' \<Longrightarrow> lease_step (r, ls) (r', ls)"
| ls_mark_ready: "registry_mark_ready r w b e = Inr r' \<Longrightarrow> lease_step (r, ls) (r', ls)"
| ls_drain: "registry_begin_drain r w = Inr r' \<Longrightarrow> lease_step (r, ls) (r', ls)"
| ls_remove: "registry_remove r w = Inr r' \<Longrightarrow> lease_step (r, ls) (r', ls)"
| ls_acquire: "registry_acquire r q = Inr (wid, r') \<Longrightarrow>
    lease_step (r, ls) (r', ls @ [\<lparr>lease_worker_id = wid, released = False\<rparr>])"
| ls_release: "i < length ls \<Longrightarrow> lease_release r (ls ! i) = (e, l', r') \<Longrightarrow>
    lease_step (r, ls) (r', ls[i := l'])"

inductive_cases lease_step_cases: "lease_step (r, ls) s"

definition held_leases :: "BackendLease list \<Rightarrow> string \<Rightarrow> int" where
  "held_leases ls w = int (length (filter (\<lambda>l. lease_worker_id l = w \<and> \<not> released l) ls))"

definition lease_count :: "registry \<Rightarrow> string \<Rightarrow> int" where
  "lease_count r w = (case map_of r w of None \<Rightarrow> 0 | Some v \<Rightarrow> active_leases v)"

definition lease_init :: "lease_system \<Rightarrow> bool" where
  "lease_init s \<longleftrightarrow> s = ([], [])"

definition lease_inv :: "lease_system \<Rightarrow> bool" where
  [inv_defs]: "lease_inv s \<longleftrightarrow> (case s of (r, ls) \<Rightarrow>
     registry_inv r \<and> lease_count r = held_leases ls)"

lemma held_leases_snoc:
  "held_leases (ls @ [\<lparr>lease_worker_id = w, released = False\<rparr>]) v =
     held_leases ls v + (if v = w then 1 else 0)"
  by (simp add: held_leases_def)

lemma held_leases_nonneg: "0 \<le> held_leases ls w"
  by (simp add: held_leases_def)

lemma held_leases_list_update:
  assumes "i < length ls" and "\<not> released (ls ! i)"
  shows "held_leases (ls[i := (ls ! i)\<lparr>released := True\<rparr>]) v =
     held_leases ls v - (if v = lease_worker_id (ls ! i) then 1 else 0)"
proof -
  have ls: "ls = take i ls @ ls ! i # drop (Suc i) ls"
    using assms(1) by (rule id_take_nth_drop)
  have up: "ls[i := x] = take i ls @ x # drop (Suc i) ls" for x
    using assms(1) by (rule upd_conv_take_nth_drop)
  let ?P = "\<lambda>l. lease_worker_id l = v \<and> \<not> released l"
  have "length (filter ?P ls) = length (filter ?P (take i ls @ ls ! i # drop (Suc i) ls))"
    using ls by simp
  then show ?thesis
    using assms(2) unfolding held_leases_def up by (simp split: if_splits)
qed

lemma lease_release_ok:
  assumes inv: "lease_inv (r, ls)" and i: "i < length ls" and opn: "\<not> released (ls ! i)"
  shows "\<exists>v. map_of r (lease_worker_id (ls ! i)) = Some v \<and> 0 < active_leases v \<and>
     registry_release r (lease_worker_id (ls ! i)) =
       Inr (AList.update (lease_worker_id (ls ! i)) (v\<lparr>active_leases := active_leases v - 1\<rparr>) r)"
proof -
  let ?w = "lease_worker_id (ls ! i)"
  have "ls ! i \<in> set (filter (\<lambda>l. lease_worker_id l = ?w \<and> \<not> released l) ls)"
    using i opn by simp
  then have "0 < held_leases ls ?w"
    unfolding held_leases_def by (metis length_pos_if_in_set of_nat_0_less_iff)
  moreover have "lease_count r ?w = held_leases ls ?w"
    using inv by (simp add: lease_inv_def)
  ultimately obtain v where "map_of r ?w = Some v" "0 < active_leases v"
    by (auto simp: lease_count_def split: option.splits)
  then show ?thesis
    by (simp add: registry_release_def registry_worker_def)
qed

lemma lease_count_update [simp]:
  "lease_count (AList.update k w r) = (lease_count r)(k := active_leases w)"
  by (auto simp: lease_count_def)

lemma lease_count_delete [simp]: "lease_count (AList.delete k r) = (lease_count r)(k := 0)"
  by (auto simp: lease_count_def)

lemma lease_count_Some: "map_of r k = Some w \<Longrightarrow> lease_count r k = active_leases w"
  by (simp add: lease_count_def)

lemma lease_count_None: "map_of r k = None \<Longrightarrow> lease_count r k = 0"
  by (simp add: lease_count_def)

lemmas lease_count_lookup = lease_count_Some lease_count_None

lemma registry_register_count:
  assumes "registry_register r c = Inr r'"
  shows "lease_count r' = lease_count r"
proof (cases "map_of r (worker_id c)")
  case None
  with assms show ?thesis
    by (auto simp: registry_register_def backend_snapshot_def lease_count_None [OF None]
        fun_upd_idem_iff split: if_splits)
next
  case (Some v)
  with assms show ?thesis
    by (auto simp: registry_register_def lease_count_Some [OF Some] fun_upd_idem_iff split: if_splits)
qed

lemma registry_mark_ready_count: "registry_mark_ready r w b e = Inr r' \<Longrightarrow> lease_count r' = lease_count r"
  by (auto simp: registry_mark_ready_def bind_result_eq_Inr registry_worker_Inr
      lease_count_lookup fun_upd_idem_iff)

lemma registry_begin_drain_count: "registry_begin_drain r w = Inr r' \<Longrightarrow> lease_count r' = lease_count r"
  by (auto simp: registry_begin_drain_def bind_result_eq_Inr registry_worker_Inr
      lease_count_lookup fun_upd_idem_iff)

lemma registry_remove_count: "registry_remove r w = Inr r' \<Longrightarrow> lease_count r' = lease_count r"
  by (auto simp: registry_remove_def bind_result_eq_Inr registry_worker_Inr
      lease_count_lookup fun_upd_idem_iff split: if_splits)

lemma lease_step_inv:
  assumes inv: "lease_inv s" and st: "lease_step s t"
  shows "lease_inv t"
  using st inv
proof cases
  case (ls_register r c r' ls)
  with inv show ?thesis
    by (simp add: lease_inv_def registry_register_inv [of r] registry_register_count [of r])
next
  case (ls_mark_ready r w b e r' ls)
  with inv show ?thesis
    by (simp add: lease_inv_def registry_mark_ready_inv [of r] registry_mark_ready_count [of r])
next
  case (ls_drain r w r' ls)
  with inv show ?thesis
    by (simp add: lease_inv_def registry_begin_drain_inv [of r] registry_begin_drain_count [of r])
next
  case (ls_remove r w r' ls)
  with inv show ?thesis
    by (simp add: lease_inv_def registry_remove_inv [of r] registry_remove_count [of r])
next
  case (ls_acquire r q wid r' ls)
  then have ri: "registry_inv r" using inv by (simp add: lease_inv_def)
  obtain w where w: "map_of r wid = Some w"
    "r' = AList.update wid (w\<lparr>active_leases := active_leases w + 1\<rparr>) r"
    using ri ls_acquire(3) by (rule registry_acquire_cases)
  with ls_acquire inv registry_acquire_inv [OF ri ls_acquire(3)] lease_count_Some [OF w(1)]
  show ?thesis
    by (auto simp: lease_inv_def held_leases_snoc fun_eq_iff)
next
  case (ls_release i ls r e l' r')
  show ?thesis
  proof (cases "released (ls ! i)")
    case True
    with ls_release inv show ?thesis by (auto simp: lease_release_def)
  next
    case False
    have li: "lease_inv (r, ls)" using inv ls_release by simp
    from lease_release_ok [OF li ls_release(3) False] obtain v
      where v: "map_of r (lease_worker_id (ls ! i)) = Some v"
        and rel: "registry_release r (lease_worker_id (ls ! i)) =
          Inr (AList.update (lease_worker_id (ls ! i)) (v\<lparr>active_leases := active_leases v - 1\<rparr>) r)"
      by blast
    from li have ri: "registry_inv r" by (simp add: lease_inv_def)
    from ls_release(4) False rel have l': "l' = (ls ! i)\<lparr>released := True\<rparr>"
      and r': "r' = AList.update (lease_worker_id (ls ! i)) (v\<lparr>active_leases := active_leases v - 1\<rparr>) r"
      by (auto simp: lease_release_def)
    from registry_release_inv [OF ri rel] li lease_count_Some [OF v] show ?thesis
      unfolding ls_release(2) l' r'
      by (auto simp: lease_inv_def held_leases_list_update [OF ls_release(3) False] fun_eq_iff)
  qed
qed

interpretation leases: step_system lease_init lease_step lease_inv
proof unfold_locales
  show "lease_init s \<Longrightarrow> lease_inv s" for s
    by (auto simp: lease_init_def lease_inv_def registry_inv_Nil held_leases_def lease_count_def)
  show "lease_inv s \<Longrightarrow> lease_step s t \<Longrightarrow> lease_inv t" for s t
    by (rule lease_step_inv)
qed


definition example_caps :: BackendCapabilities where
  "example_caps = \<lparr>protocol_version = 1, worker_id = ''local'', model_id = lit ''m'',
     model_revision = lit ''r'', gpu_id = ''cuda:0'', languages = [lit ''auto''],
     tasks = [lit ''transcribe''], streaming_mode = STATEFUL, dispatch_mode = SINGLE,
     vad_mode = VAD_GATEWAY, result_mode = REPLACEABLE_SEGMENT, preferred_chunk_samples = 2,
     max_input_samples = 4, max_segment_samples = 8, max_batch_items = 1, max_batch_samples = 4,
     max_in_flight = 1, session_capacity = 2, retry_safe = False, warmed = True,
     sample_rate = 16000, sample_format = ''pcm_s16le'', backend_id = ''local''\<rparr>"

definition any_route :: route where
  "any_route = \<lparr>preferred_worker_id = None, route_backend_id = None, route_language = None,
     route_task = None, route_streaming_mode = None, result_modes = None,
     route_model_id = None, route_model_revision = None\<rparr>"

lemmas lease_reach_step = reach_step [where init = lease_init and step = lease_step]

lemma example_lease_reachable:
  "reach_from lease_init lease_step
     ([(''local'', (backend_snapshot example_caps)\<lparr>lifecycle := READY, active_leases := 1\<rparr>)],
      [\<lparr>lease_worker_id = ''local'', released = False\<rparr>])"
proof -
  let ?s = "backend_snapshot example_caps"
  have 0: "reach_from lease_init lease_step ([], [])"
    by (rule reach_init) (simp add: lease_init_def)
  have "registry_register [] example_caps = Inr [(''local'', ?s)]"
    by (simp add: registry_register_def example_caps_def)
  from lease_reach_step [OF 0 ls_register [OF this]]
  have 1: "reach_from lease_init lease_step ([(''local'', ?s)], [])" .
  have "registry_mark_ready [(''local'', ?s)] ''local'' True None = Inr [(''local'', ?s\<lparr>lifecycle := READY\<rparr>)]"
    by (simp add: registry_mark_ready_def registry_worker_def backend_snapshot_def)
  from lease_reach_step [OF 1 ls_mark_ready [OF this]]
  have 2: "reach_from lease_init lease_step ([(''local'', ?s\<lparr>lifecycle := READY\<rparr>)], [])" .
  have "registry_acquire [(''local'', ?s\<lparr>lifecycle := READY\<rparr>)] any_route =
      Inr (''local'', [(''local'', ?s\<lparr>lifecycle := READY, active_leases := 1\<rparr>)])"
    by (simp add: registry_acquire_def route_matches_def accepting_def any_route_def
        backend_snapshot_def example_caps_def)
  from lease_reach_step [OF 2 ls_acquire [OF this]] show ?thesis by simp
qed


text \<open>A granted lease goes to a registered worker that is accepting, satisfies every part of the
  route and has the least (leases, in-flight, id) key among the workers that do; the grant never
  exceeds the worker's advertised session capacity and keeps one model owner per GPU.\<close>

theorem acquire_selects_least_loaded:
  assumes "registry_inv r" and "registry_acquire r q = Inr (wid, r')"
  shows "registry_inv r' \<and> (\<exists>w. map_of r wid = Some w \<and> route_matches q w \<and>
     map_of r' wid = Some (w\<lparr>active_leases := active_leases w + 1\<rparr>) \<and>
     active_leases w + 1 \<le> session_capacity (capabilities w) \<and>
     (\<forall>k v. map_of r k = Some v \<and> route_matches q v \<longrightarrow> lease_key w \<le> lease_key v))"
proof -
  obtain w where w: "map_of r wid = Some w" "route_matches q w"
    "\<And>k v. map_of r k = Some v \<Longrightarrow> route_matches q v \<Longrightarrow> lease_key w \<le> lease_key v"
    "r' = AList.update wid (w\<lparr>active_leases := active_leases w + 1\<rparr>) r"
    by (rule registry_acquire_cases [OF assms]) blast
  moreover from w(2) have "active_leases w + 1 \<le> session_capacity (capabilities w)"
    by (simp add: route_matches_def Let_def accepting_def)
  ultimately show ?thesis
    using registry_acquire_inv [OF assms] by auto
qed

theorem acquire_selects_least_loaded_witness:
  "let r = [(''local'', (backend_snapshot example_caps)\<lparr>lifecycle := READY\<rparr>)] in
   registry_inv r \<and> (\<exists>wid r'. registry_acquire r any_route = Inr (wid, r') \<and> registry_inv r')"
proof -
  let ?r = "[(''local'', (backend_snapshot example_caps)\<lparr>lifecycle := READY\<rparr>)]"
  have i: "registry_inv ?r"
    by (simp add: registry_inv_def backend_snapshot_def example_caps_def wf_dict_def)
  obtain wid r' where a: "registry_acquire ?r any_route = Inr (wid, r')"
    by (simp add: registry_acquire_def route_matches_def accepting_def any_route_def
        backend_snapshot_def example_caps_def)
  from acquire_selects_least_loaded [OF i a] i a show ?thesis by (auto simp: Let_def)
qed

end
