(* ===== verification/Chunking.thy ===== *)
theory Chunking
  imports Observability Backends
begin

text \<open>
  \<open>app/asr_gateway_chunking.py\<close>: the per-session PCM ring buffer with absolute sample
  cursors and one reservation (\<open>PcmRingBuffer\<close>), and the chunk size policy
  (\<open>ChunkPolicy\<close>). Every method checks before it mutates, so a raising call leaves the
  buffer as it was.
\<close>

section \<open>The ring buffer\<close>

record ReadyChunk =
  rc_start :: int
  rc_end :: int
  rc_pcm :: pcm
  rc_final :: bool

definition rc_sample_count :: "ReadyChunk \<Rightarrow> int" where
  "rc_sample_count c = rc_end c - rc_start c"

record PcmRingBuffer =
  rb_max_samples :: int
  rb_data :: pcm
  rb_base_sample :: int
  rb_accepted :: int
  rb_acknowledged :: int
  rb_discarded :: int
  rb_reservation :: "ReadyChunk option"

definition rb_init :: "int \<Rightarrow> PcmRingBuffer result" where
  "rb_init max_samples =
     (if max_samples \<le> 0 then Inl (ValueError ''max_samples must be positive'')
      else Inr \<lparr>rb_max_samples = max_samples, rb_data = [], rb_base_sample = 0, rb_accepted = 0,
                rb_acknowledged = 0, rb_discarded = 0, rb_reservation = None\<rparr>)"

text \<open>\<open>len(self._data) // 2\<close>.\<close>

definition rb_held_samples :: "PcmRingBuffer \<Rightarrow> int" where
  "rb_held_samples b = int (length (rb_data b)) div 2"

definition rb_reserved_samples :: "PcmRingBuffer \<Rightarrow> int" where
  "rb_reserved_samples b =
     (case rb_reservation b of None \<Rightarrow> 0 | Some c \<Rightarrow> rc_sample_count c)"

definition rb_buffered_samples :: "PcmRingBuffer \<Rightarrow> int" where
  "rb_buffered_samples b = rb_held_samples b - rb_reserved_samples b"

definition rb_next_unreserved_sample :: "PcmRingBuffer \<Rightarrow> int" where
  "rb_next_unreserved_sample b = rb_base_sample b + rb_reserved_samples b"

definition rb_append :: "PcmRingBuffer \<Rightarrow> pcm \<Rightarrow> ((int \<times> int) \<times> PcmRingBuffer) result" where
  "rb_append b pcm =
     (if odd (length pcm) then Inl (ValueError ''pcm_s16le bytes must be sample-aligned'')
      else let samples = int (length pcm) div 2; current = rb_held_samples b in
        if current + samples > rb_max_samples b then
          Inl (capacity_buffer_error ''session_pcm_limit'' (rb_max_samples b) current samples)
        else Inr ((rb_accepted b, rb_accepted b + samples),
          b\<lparr>rb_data := rb_data b @ pcm, rb_accepted := rb_accepted b + samples\<rparr>))"

definition rb_reserve_range ::
  "PcmRingBuffer \<Rightarrow> int \<Rightarrow> bool \<Rightarrow> (ReadyChunk \<times> PcmRingBuffer) result" where
  "rb_reserve_range b samples final =
     (if rb_reservation b \<noteq> None then
        Inl (RuntimeError ''one in-flight reservation is already active'')
      else if samples \<le> 0 \<or> samples > rb_buffered_samples b then
        Inl (ValueError ''reservation sample count is outside buffered range'')
      else let start = rb_base_sample b;
               chunk = \<lparr>rc_start = start, rc_end = start + samples,
                        rc_pcm = take (nat (samples * 2)) (rb_data b), rc_final = final\<rparr>
           in Inr (chunk, b\<lparr>rb_reservation := Some chunk\<rparr>))"

definition rb_require_reservation :: "PcmRingBuffer \<Rightarrow> int \<Rightarrow> int \<Rightarrow> ReadyChunk result" where
  "rb_require_reservation b start end =
     (case rb_reservation b of
        None \<Rightarrow> Inl (RuntimeError ''reservation range does not match active reservation'')
      | Some c \<Rightarrow>
          if (rc_start c, rc_end c) \<noteq> (start, end) then
            Inl (RuntimeError ''reservation range does not match active reservation'')
          else Inr c)"

definition rb_acknowledge :: "PcmRingBuffer \<Rightarrow> int \<Rightarrow> int \<Rightarrow> PcmRingBuffer result" where
  "rb_acknowledge b start end =
     bind_result (rb_require_reservation b start end) (\<lambda>reservation.
       let samples = rc_sample_count reservation in
       Inr (b\<lparr>rb_data := drop (nat (samples * 2)) (rb_data b), rb_base_sample := rc_end reservation,
              rb_acknowledged := rb_acknowledged b + samples, rb_reservation := None\<rparr>))"

definition rb_rollback :: "PcmRingBuffer \<Rightarrow> int \<Rightarrow> int \<Rightarrow> PcmRingBuffer result" where
  "rb_rollback b start end =
     bind_result (rb_require_reservation b start end) (\<lambda>_. Inr (b\<lparr>rb_reservation := None\<rparr>))"

definition rb_discard :: "PcmRingBuffer \<Rightarrow> int \<Rightarrow> PcmRingBuffer result" where
  "rb_discard b samples =
     (if rb_reservation b \<noteq> None then
        Inl (RuntimeError ''cannot discard while a reservation is in-flight'')
      else if samples < 0 \<or> samples > rb_buffered_samples b then
        Inl (ValueError ''discard sample count is outside buffered range'')
      else Inr (b\<lparr>rb_data := drop (nat (samples * 2)) (rb_data b),
                  rb_base_sample := rb_base_sample b + samples,
                  rb_discarded := rb_discarded b + samples\<rparr>))"

lemmas rb_op_defs [op_defs] =
  rb_append_def rb_reserve_range_def rb_acknowledge_def rb_rollback_def rb_discard_def
  rb_require_reservation_def

section \<open>The chunk policy\<close>

record ChunkPolicy =
  cp_sample_rate :: int
  cp_preferred_seconds :: seconds
  cp_max_seconds :: seconds
  cp_vad_mode :: VadMode
  cp_minimum_seconds :: seconds
  cp_overlap_seconds :: seconds

definition chunk_policy_post_init :: "ChunkPolicy \<Rightarrow> ChunkPolicy result" where
  "chunk_policy_post_init p =
     (if cp_sample_rate p \<le> 0 then Inl (ValueError ''sample_rate must be positive'')
      else if cp_preferred_seconds p \<le> 0 \<or> cp_max_seconds p \<le> 0 then
        Inl (ValueError ''chunk durations must be positive'')
      else if cp_preferred_seconds p > cp_max_seconds p then
        Inl (ValueError ''preferred duration exceeds maximum'')
      else if cp_vad_mode p = VAD_BOTH then
        Inl (ValueError ''VAD ownership cannot be both gateway and worker'')
      else Inr p)"

definition cp_preferred_samples :: "ChunkPolicy \<Rightarrow> int" where
  "cp_preferred_samples p = py_round (cp_preferred_seconds p * of_int (cp_sample_rate p))"

definition cp_maximum_samples :: "ChunkPolicy \<Rightarrow> int" where
  "cp_maximum_samples p = py_round (cp_max_seconds p * of_int (cp_sample_rate p))"

definition cp_minimum_samples :: "ChunkPolicy \<Rightarrow> int" where
  "cp_minimum_samples p = py_round (cp_minimum_seconds p * of_int (cp_sample_rate p))"

definition next_chunk_samples :: "ChunkPolicy \<Rightarrow> int \<Rightarrow> bool \<Rightarrow> int" where
  "next_chunk_samples p buffered_samples force =
     (if buffered_samples \<ge> cp_maximum_samples p then cp_maximum_samples p
      else if buffered_samples \<ge> cp_preferred_samples p then cp_preferred_samples p
      else if force \<and> buffered_samples \<ge> cp_minimum_samples p then buffered_samples
      else 0)"

section \<open>Invariant\<close>

text \<open>The cursors partition the accepted samples; a reservation is the front of the data.\<close>

definition rb_inv :: "PcmRingBuffer \<Rightarrow> bool" where
  [inv_defs]: "rb_inv b \<longleftrightarrow>
     0 < rb_max_samples b \<and> even (length (rb_data b)) \<and> rb_held_samples b \<le> rb_max_samples b \<and>
     0 \<le> rb_acknowledged b \<and> 0 \<le> rb_discarded b \<and>
     rb_base_sample b = rb_acknowledged b + rb_discarded b \<and>
     rb_accepted b = rb_base_sample b + rb_held_samples b \<and>
     (case rb_reservation b of None \<Rightarrow> True
      | Some c \<Rightarrow> rc_start c = rb_base_sample b \<and> 0 < rc_sample_count c \<and>
          rc_sample_count c \<le> rb_held_samples b \<and>
          rc_pcm c = take (nat (rc_sample_count c * 2)) (rb_data b))"

lemma rb_init_inv: "rb_init m = Inr b \<Longrightarrow> rb_inv b"
  by (auto simp: rb_init_def rb_inv_def rb_held_samples_def split: if_splits)

lemma rb_held_nonneg [simp]: "0 \<le> rb_held_samples b"
  by (simp add: rb_held_samples_def)

lemma rb_held_even: "even (length (rb_data b)) \<Longrightarrow> int (length (rb_data b)) = 2 * rb_held_samples b"
  by (auto simp: rb_held_samples_def)

lemma rb_inv_buffered_nonneg: "rb_inv b \<Longrightarrow> 0 \<le> rb_buffered_samples b"
  by (auto simp: rb_inv_def rb_buffered_samples_def rb_reserved_samples_def split: option.splits)

lemma rb_inv_reserved_nonneg: "rb_inv b \<Longrightarrow> 0 \<le> rb_reserved_samples b"
  by (auto simp: rb_inv_def rb_reserved_samples_def split: option.splits)

lemma rb_append_inv:
  assumes "rb_inv b" and "rb_append b p = Inr (r, b')"
  shows "rb_inv b'"
proof -
  from assms(2) have ev: "even (length p)"
    and fit: "rb_held_samples b + int (length p) div 2 \<le> rb_max_samples b"
    and b': "b' = b\<lparr>rb_data := rb_data b @ p, rb_accepted := rb_accepted b + int (length p) div 2\<rparr>"
    by (auto simp: rb_append_def Let_def split: if_splits)
  have eb: "even (length (rb_data b))" using assms(1) by (simp add: rb_inv_def)
  have held: "rb_held_samples b' = rb_held_samples b + int (length p) div 2"
    using ev eb by (auto simp: b' rb_held_samples_def elim!: evenE)
  have "take (nat (rc_sample_count c * 2)) (rb_data b @ p) = take (nat (rc_sample_count c * 2)) (rb_data b)"
    if "rb_reservation b = Some c" for c
    using assms(1) that rb_held_even [OF eb] by (auto simp: rb_inv_def)
  with assms(1) ev eb held fit show ?thesis
    unfolding rb_inv_def by (auto simp: b' split: option.splits)
qed

lemma rb_drop_inv:
  assumes "rb_inv b" and "0 \<le> n" and "n \<le> rb_held_samples b"
    and "n = a + d" and "0 \<le> a" and "0 \<le> d"
  shows "rb_inv (b\<lparr>rb_data := drop (nat (n * 2)) (rb_data b), rb_base_sample := rb_base_sample b + n,
     rb_acknowledged := rb_acknowledged b + a, rb_discarded := rb_discarded b + d,
     rb_reservation := None\<rparr>)"
proof -
  have eb: "even (length (rb_data b))" using assms(1) by (simp add: rb_inv_def)
  have le: "nat (n * 2) \<le> length (rb_data b)"
    using rb_held_even [OF eb] assms(2,3) by linarith
  have "int (length (rb_data b)) - n * 2 = 2 * (rb_held_samples b - n)"
    using rb_held_even [OF eb] by simp
  then have "int (length (rb_data b) - nat (n * 2)) = 2 * (rb_held_samples b - n)"
    using le assms(2) by (simp add: of_nat_diff)
  moreover from this have "even (length (rb_data b) - nat (n * 2))"
    by (metis dvd_triv_left even_of_nat)
  ultimately show ?thesis
    using assms by (auto simp: rb_inv_def rb_held_samples_def)
qed

lemma rb_reserve_range_inv:
  "rb_inv b \<Longrightarrow> rb_reserve_range b n f = Inr (c, b') \<Longrightarrow> rb_inv b'"
  by (auto simp: rb_reserve_range_def rb_inv_def rc_sample_count_def Let_def rb_buffered_samples_def
      rb_reserved_samples_def rb_held_samples_def split: if_splits)

lemma rb_require_Inr:
  "rb_require_reservation b s e = Inr c \<longleftrightarrow> rb_reservation b = Some c \<and> rc_start c = s \<and> rc_end c = e"
  by (auto simp: rb_require_reservation_def split: option.splits if_splits)

lemma rb_acknowledge_inv:
  assumes "rb_inv b" and "rb_acknowledge b s e = Inr b'"
  shows "rb_inv b'"
proof -
  from assms(2) obtain c where c: "rb_reservation b = Some c"
    and b': "b' = b\<lparr>rb_data := drop (nat (rc_sample_count c * 2)) (rb_data b),
      rb_base_sample := rc_end c, rb_acknowledged := rb_acknowledged b + rc_sample_count c,
      rb_reservation := None\<rparr>"
    by (auto simp: rb_acknowledge_def bind_result_eq_Inr rb_require_Inr Let_def)
  from assms(1) c have "rc_end c = rb_base_sample b + rc_sample_count c"
    "0 \<le> rc_sample_count c" "rc_sample_count c \<le> rb_held_samples b"
    by (auto simp: rb_inv_def rc_sample_count_def)
  with rb_drop_inv [OF assms(1), of "rc_sample_count c" "rc_sample_count c" 0] show ?thesis
    by (simp add: b')
qed

lemma rb_rollback_inv: "rb_inv b \<Longrightarrow> rb_rollback b s e = Inr b' \<Longrightarrow> rb_inv b'"
  by (auto simp: rb_rollback_def bind_result_eq_Inr rb_inv_def rb_held_samples_def)

lemma rb_discard_inv:
  assumes "rb_inv b" and "rb_discard b n = Inr b'"
  shows "rb_inv b'"
proof -
  from assms have "0 \<le> n" "n \<le> rb_held_samples b" and none: "rb_reservation b = None"
    and b': "b' = b\<lparr>rb_data := drop (nat (n * 2)) (rb_data b),
      rb_base_sample := rb_base_sample b + n, rb_discarded := rb_discarded b + n\<rparr>"
    by (auto simp: rb_discard_def rb_buffered_samples_def rb_reserved_samples_def split: if_splits)
  then show ?thesis
    using rb_drop_inv [OF assms(1), of n 0 n] by (simp add: rb_inv_def rb_held_samples_def)
qed

section \<open>The buffer as a store of a byte stream\<close>

datatype rb_op =
    Append pcm
  | Reserve int bool
  | Acknowledge int int
  | Rollback int int
  | Discard int

text \<open>A call and the bytes it removes from the front: an acknowledgement hands out the
  reserved chunk, a discard hands out what it drops.\<close>

fun rb_step :: "PcmRingBuffer \<Rightarrow> rb_op \<Rightarrow> (pcm \<times> PcmRingBuffer) result" where
  "rb_step b (Append p) = bind_result (rb_append b p) (\<lambda>(_, b'). Inr ([], b'))"
| "rb_step b (Reserve n f) = bind_result (rb_reserve_range b n f) (\<lambda>(_, b'). Inr ([], b'))"
| "rb_step b (Acknowledge s e) =
     bind_result (rb_acknowledge b s e) (\<lambda>b'.
       Inr (case rb_reservation b of None \<Rightarrow> [] | Some c \<Rightarrow> rc_pcm c, b'))"
| "rb_step b (Rollback s e) = bind_result (rb_rollback b s e) (\<lambda>b'. Inr ([], b'))"
| "rb_step b (Discard n) =
     bind_result (rb_discard b n) (\<lambda>b'. Inr (take (nat (n * 2)) (rb_data b), b'))"

fun rb_brought :: "rb_op \<Rightarrow> pcm" where
  "rb_brought (Append p) = p"
| "rb_brought _ = []"

lemma rb_step_inv: "rb_inv b \<Longrightarrow> rb_step b x = Inr (y, b') \<Longrightarrow> rb_inv b'"
  by (cases x) (auto simp: bind_result_eq_Inr intro: rb_append_inv rb_reserve_range_inv
      rb_acknowledge_inv rb_rollback_inv rb_discard_inv)

lemma rb_step_moves:
  assumes "rb_inv b" and "rb_step b x = Inr (y, b')"
  shows "rb_data b @ rb_brought x = y @ rb_data b'"
proof (cases x)
  case (Acknowledge s e)
  with assms show ?thesis
    by (auto simp: bind_result_eq_Inr rb_acknowledge_def rb_require_Inr rb_inv_def Let_def)
qed (use assms in \<open>auto simp: bind_result_eq_Inr rb_append_def rb_reserve_range_def
      rb_rollback_def rb_discard_def Let_def split: if_splits\<close>)

interpretation ring: fifo_store rb_step rb_inv rb_data rb_brought id
  by unfold_locales (auto intro: rb_step_inv simp: rb_step_moves)

lemma rb_inv_balance: "rb_inv b \<Longrightarrow> rb_accepted b = rb_base_sample b + rb_held_samples b"
  by (simp add: rb_inv_def)

fun rb_amount :: "rb_op \<Rightarrow> int" where
  "rb_amount (Append p) = int (length p) div 2"
| "rb_amount _ = 0"

lemma rb_step_counts:
  assumes "rb_inv b" and "rb_step b x = Inr (y, b')"
  shows "rb_accepted b' = rb_accepted b + rb_amount x" and "rb_base_sample b \<le> rb_base_sample b'"
proof -
  have "rb_accepted b' = rb_accepted b + rb_amount x \<and> rb_base_sample b \<le> rb_base_sample b'"
  proof (cases x)
    case (Acknowledge s e)
    with assms show ?thesis
      by (auto simp: bind_result_eq_Inr rb_acknowledge_def rb_require_Inr rb_inv_def Let_def
          rc_sample_count_def)
  qed (use assms in \<open>auto simp: bind_result_eq_Inr rb_append_def rb_reserve_range_def
        rb_rollback_def rb_discard_def Let_def split: if_splits\<close>)
  then show "rb_accepted b' = rb_accepted b + rb_amount x" "rb_base_sample b \<le> rb_base_sample b'"
    by simp_all
qed

interpretation ring_ledger: sample_ledger rb_step rb_inv rb_accepted rb_base_sample rb_held_samples rb_amount
  by unfold_locales (simp_all add: rb_step_counts rb_inv_balance)

section \<open>Properties\<close>

text \<open>C17: the ring buffer is a loss-free FIFO over any sequence of calls, raising ones included: the
  bytes of the accepted appends, in order, are the bytes handed out by acknowledgements and
  discards, in order, followed by the bytes still held; and the cursor invariant (accepted =
  acknowledged + discarded + held, reservation = front of the data, capacity respected) holds.\<close>

theorem ring_buffer_fifo:
  assumes "rb_init max_samples = Inr b"
  shows "rb_inv (attempts rb_step b ops) \<and>
     concat (map rb_brought (granted rb_step b ops)) =
       concat (outputs rb_step b ops) @ rb_data (attempts rb_step b ops)"
proof -
  have inv: "rb_inv b" using assms by (rule rb_init_inv)
  moreover have "rb_data b = []" using assms by (auto simp: rb_init_def split: if_splits)
  ultimately show ?thesis
    using ring.attempts_keep [OF inv] ring.run_moves [OF inv, of ops] by simp
qed

theorem ring_buffer_fifo_witness:
  "\<exists>b. rb_init 4 = Inr b \<and>
     concat (map rb_brought (granted rb_step b [Append [1, 0, 2, 0], Reserve 1 False, Acknowledge 0 1])) =
       concat (outputs rb_step b [Append [1, 0, 2, 0], Reserve 1 False, Acknowledge 0 1]) @
       rb_data (attempts rb_step b [Append [1, 0, 2, 0], Reserve 1 False, Acknowledge 0 1])"
proof -
  obtain b where b: "rb_init 4 = Inr b" by (simp add: rb_init_def)
  from ring_buffer_fifo [OF b] b show ?thesis by blast
qed

text \<open>Acknowledging the active reservation removes exactly its samples and advances the base
  cursor to its end; rolling it back instead restores the unreserved buffer exactly, so a
  failed job's audio is offered again.\<close>

theorem reserve_rollback_roundtrip:
  assumes "rb_reserve_range b samples final = Inr (chunk, b1)"
  shows "rb_rollback b1 (rc_start chunk) (rc_end chunk) = Inr b \<and>
     (\<exists>b2. rb_acknowledge b1 (rc_start chunk) (rc_end chunk) = Inr b2 \<and>
        rb_base_sample b2 = rb_base_sample b + samples \<and>
        rb_buffered_samples b2 = rb_buffered_samples b - samples \<and>
        rc_pcm chunk @ rb_data b2 = rb_data b)"
proof -
  from assms have none: "rb_reservation b = None" and n: "0 < samples" "samples \<le> rb_buffered_samples b"
    and c: "chunk = \<lparr>rc_start = rb_base_sample b, rc_end = rb_base_sample b + samples,
        rc_pcm = take (nat (samples * 2)) (rb_data b), rc_final = final\<rparr>"
    and b1: "b1 = b\<lparr>rb_reservation := Some chunk\<rparr>"
    by (auto simp: rb_reserve_range_def Let_def split: if_splits)
  have le: "nat (samples * 2) \<le> length (rb_data b)"
    using n none by (simp add: rb_buffered_samples_def rb_reserved_samples_def rb_held_samples_def)
  have "int (length (rb_data b) - nat (samples * 2)) = int (length (rb_data b)) - samples * 2"
    using le n by (simp add: of_nat_diff)
  then have "int (length (rb_data b) - nat (samples * 2)) div 2 = int (length (rb_data b)) div 2 - samples"
    by simp
  moreover have "b = b\<lparr>rb_reservation := None\<rparr>" using none by (cases b) simp
  ultimately show ?thesis
    using none by (auto simp: b1 c rb_rollback_def rb_acknowledge_def rb_require_reservation_def
        rc_sample_count_def rb_buffered_samples_def rb_held_samples_def rb_reserved_samples_def)
qed

theorem reserve_rollback_roundtrip_witness:
  "let b = \<lparr>rb_max_samples = 4, rb_data = [1, 0, 2, 0], rb_base_sample = 0, rb_accepted = 2,
        rb_acknowledged = 0, rb_discarded = 0, rb_reservation = None\<rparr> in
   \<exists>c b1. rb_reserve_range b 1 False = Inr (c, b1) \<and> rb_rollback b1 (rc_start c) (rc_end c) = Inr b"
proof -
  let ?b = "\<lparr>rb_max_samples = 4, rb_data = [1, 0, 2, 0], rb_base_sample = 0, rb_accepted = 2,
        rb_acknowledged = 0, rb_discarded = 0, rb_reservation = None\<rparr>"
  obtain c b1 where r: "rb_reserve_range ?b 1 False = Inr (c, b1)"
    by (simp add: rb_reserve_range_def Let_def rb_buffered_samples_def rb_held_samples_def
        rb_reserved_samples_def)
  from reserve_rollback_roundtrip [OF r] r show ?thesis by (auto simp: Let_def)
qed

text \<open>A valid policy never asks for more than is buffered nor for more than its maximum, its
  preferred size is at most its maximum, and it always asks for a chunk once the preferred
  amount is buffered.\<close>

theorem next_chunk_samples_bounds:
  assumes "chunk_policy_post_init p = Inr p" and "0 \<le> buffered"
  shows "next_chunk_samples p buffered force \<le> buffered \<and>
     next_chunk_samples p buffered force \<le> cp_maximum_samples p \<and>
     cp_preferred_samples p \<le> cp_maximum_samples p \<and>
     (cp_preferred_samples p \<le> buffered \<longrightarrow>
        cp_preferred_samples p \<le> next_chunk_samples p buffered force)"
proof -
  from assms(1) have "0 < cp_sample_rate p" "cp_preferred_seconds p \<le> cp_max_seconds p"
    "0 < cp_max_seconds p"
    by (auto simp: chunk_policy_post_init_def split: if_splits)
  then have "cp_preferred_samples p \<le> cp_maximum_samples p" "0 \<le> cp_maximum_samples p"
    by (auto simp: cp_preferred_samples_def cp_maximum_samples_def
        intro!: py_round_mono mult_right_mono py_round_nonneg)
  with assms(2) show ?thesis by (auto simp: next_chunk_samples_def)
qed

theorem next_chunk_samples_bounds_witness:
  "let p = \<lparr>cp_sample_rate = 16000, cp_preferred_seconds = 1, cp_max_seconds = 2,
       cp_vad_mode = VAD_NONE, cp_minimum_seconds = 0, cp_overlap_seconds = 0\<rparr> in
   chunk_policy_post_init p = Inr p \<and> next_chunk_samples p 20000 False \<le> 20000"
proof -
  let ?p = "\<lparr>cp_sample_rate = 16000, cp_preferred_seconds = 1, cp_max_seconds = 2,
       cp_vad_mode = VAD_NONE, cp_minimum_seconds = 0, cp_overlap_seconds = 0\<rparr>"
  have p: "chunk_policy_post_init ?p = Inr ?p" by (simp add: chunk_policy_post_init_def)
  from next_chunk_samples_bounds [OF p, of 20000 False] p show ?thesis by (simp add: Let_def)
qed

end
