(* ===== verification/Sentences.thy ===== *)
theory Sentences
  imports Prelude
begin

text \<open>
  The text and audio helpers of \<open>app/asr_streaming.py\<close>: sentence segmentation
  (\<open>split_committed_sentences\<close>, \<open>first_punctuation_candidate\<close> and what they call), the
  RMS of a PCM frame and the RMS-based \<open>SilenceEndpointDetector\<close>. Python's Unicode
  database (\<open>isdigit\<close>, \<open>isalpha\<close>, \<open>isalnum\<close>, \<open>isupper\<close>, \<open>lower\<close>) is a value of type
  \<open>chardb\<close> that every definition using it takes as an argument; the theorems hold for any.
\<close>

record chardb =
  cd_isdigit :: "nat \<Rightarrow> bool"
  cd_isalpha :: "nat \<Rightarrow> bool"
  cd_isalnum :: "nat \<Rightarrow> bool"
  cd_isupper :: "nat \<Rightarrow> bool"
  cd_lower :: "ustr \<Rightarrow> ustr"

text \<open>The ASCII part of the database, for concrete evaluations.\<close>

definition ascii_db :: chardb where
  "ascii_db = \<lparr>cd_isdigit = (\<lambda>c. 48 \<le> c \<and> c \<le> 57),
     cd_isalpha = (\<lambda>c. 65 \<le> c \<and> c \<le> 90 \<or> 97 \<le> c \<and> c \<le> 122),
     cd_isalnum = (\<lambda>c. 48 \<le> c \<and> c \<le> 57 \<or> 65 \<le> c \<and> c \<le> 90 \<or> 97 \<le> c \<and> c \<le> 122),
     cd_isupper = (\<lambda>c. 65 \<le> c \<and> c \<le> 90),
     cd_lower = map (\<lambda>c. if 65 \<le> c \<and> c \<le> 90 then c + 32 else c)\<rparr>"

section \<open>Sentence segmentation\<close>

definition SENTENCE_TERMINATORS :: "nat list" where
  "SENTENCE_TERMINATORS =
     [12290, 65311, 65281, 65377, 63, 33, 1567, 1748, 2404, 2405, 4171, 46]"

definition SENTENCE_CLOSERS :: "nat list" where
  "SENTENCE_CLOSERS =
     [34, 39, 8221, 8217, 12301, 12303, 65289, 41, 12305, 93, 12299, 12297]"

definition DOT_ABBREVIATIONS :: "ustr list" where
  "DOT_ABBREVIATIONS = map lit
     [''dr.'', ''mr.'', ''mrs.'', ''ms.'', ''prof.'', ''e.g.'', ''i.e.'', ''etc.'', ''vs.'',
      ''st.'', ''jr.'', ''sr.'', ''ph.d.'']"

text \<open>The backward scan of \<open>_dot_token\<close>: where the token around the dot starts.\<close>

fun dot_token_start :: "chardb \<Rightarrow> ustr \<Rightarrow> nat \<Rightarrow> nat" where
  "dot_token_start db text 0 = 0"
| "dot_token_start db text (Suc n) =
     (if cd_isalpha db (text ! n) \<or> text ! n = 46 then dot_token_start db text n else Suc n)"

definition dot_token :: "chardb \<Rightarrow> ustr \<Rightarrow> nat \<Rightarrow> ustr" where
  "dot_token db text index =
     (let start = dot_token_start db text index in drop start (take (index + 1) text))"

text \<open>\<open>token.split(".")\<close>.\<close>

fun split_dots :: "ustr \<Rightarrow> ustr list" where
  "split_dots [] = [[]]"
| "split_dots (c # cs) =
     (if c = 46 then [] # split_dots cs
      else case split_dots cs of [] \<Rightarrow> [[c]] | p # ps \<Rightarrow> (c # p) # ps)"

definition is_dotted_initialism :: "chardb \<Rightarrow> ustr \<Rightarrow> bool" where
  "is_dotted_initialism db token =
     (let initials = filter (\<lambda>part. part \<noteq> []) (split_dots token)
      in length initials \<ge> 2 \<and>
         list_all (\<lambda>part. length part = 1 \<and> cd_isupper db (part ! 0)) initials)"

definition is_sentence_end :: "chardb \<Rightarrow> ustr \<Rightarrow> nat \<Rightarrow> bool" where
  "is_sentence_end db text index =
     (if text ! index \<noteq> 46 then True
      else let previous_char = (if index > 0 then Some (text ! (index - 1)) else None);
               next_char = (if index + 1 < length text then Some (text ! (index + 1)) else None);
               holds = (\<lambda>p c. case c of None \<Rightarrow> False | Some x \<Rightarrow> p x);
               token = dot_token db text index
           in if holds (cd_isdigit db) previous_char \<and> holds (cd_isdigit db) next_char then False
              else if holds (cd_isalnum db) previous_char \<and> holds (cd_isalnum db) next_char then False
              else if cd_lower db token \<in> set DOT_ABBREVIATIONS then False
              else if length token = 2 \<and> cd_isupper db (token ! 0) then False
              else \<not> is_dotted_initialism db token)"

text \<open>\<open>_sentence_boundary_end\<close>: the terminator at \<open>index\<close> and the terminators and closers
  directly after it.\<close>

definition sentence_boundary_end :: "ustr \<Rightarrow> nat \<Rightarrow> nat" where
  "sentence_boundary_end text index =
     index + 1 + length (takeWhile (\<lambda>c. c \<in> set SENTENCE_TERMINATORS \<or> c \<in> set SENTENCE_CLOSERS)
       (drop (index + 1) text))"

text \<open>\<open>while sentence_start < len(text) and text[sentence_start].isspace()\<close>.\<close>

definition skip_space :: "ustr \<Rightarrow> nat \<Rightarrow> nat" where
  "skip_space text start = start + length (takeWhile py_isspace (drop start text))"

lemma sentence_boundary_end_gt: "index < sentence_boundary_end text index"
  by (simp add: sentence_boundary_end_def)

lemma skip_space_ge: "start \<le> skip_space text start"
  by (simp add: skip_space_def)

function split_loop :: "chardb \<Rightarrow> ustr \<Rightarrow> ustr list \<Rightarrow> nat \<Rightarrow> nat \<Rightarrow> ustr list \<times> nat" where
  "split_loop db text committed sentence_start index =
     (if index < length text then
        if text ! index \<in> set SENTENCE_TERMINATORS \<and> is_sentence_end db text index then
          let sentence_end = sentence_boundary_end text index;
              sentence = py_strip (drop sentence_start (take sentence_end text));
              committed' = (if sentence \<noteq> [] then committed @ [sentence] else committed);
              start' = skip_space text sentence_end
          in split_loop db text committed' start' start'
        else split_loop db text committed sentence_start (index + 1)
      else (committed, sentence_start))"
  by pat_completeness auto
termination
proof (relation "measure (\<lambda>(db, text, committed, start, index). length text - index)",
    goal_cases)
  case (2 db str committed sentence_start index)
  have "index < skip_space str (sentence_boundary_end str index)"
    using sentence_boundary_end_gt [of index str]
      skip_space_ge [of "sentence_boundary_end str index" str] by linarith
  with 2 show ?case by (auto simp: diff_less_mono2)
qed auto

declare split_loop.simps [simp del]

definition split_committed_sentences :: "chardb \<Rightarrow> ustr \<Rightarrow> ustr list \<times> ustr" where
  "split_committed_sentences db text =
     (let (committed, sentence_start) = split_loop db text [] 0 0
      in (committed, drop sentence_start text))"

text \<open>\<open>len("".join(candidate.split()))\<close>.\<close>

definition nonspace_length :: "ustr \<Rightarrow> nat" where
  "nonspace_length s = length (filter (\<lambda>c. \<not> py_isspace c) s)"

function candidate_loop :: "chardb \<Rightarrow> ustr \<Rightarrow> int \<Rightarrow> nat \<Rightarrow> ustr" where
  "candidate_loop db text min_chars index =
     (if index < length text then
        if text ! index \<in> set SENTENCE_TERMINATORS \<and> is_sentence_end db text index then
          let sentence_end = sentence_boundary_end text index;
              candidate = take sentence_end text
          in if int (nonspace_length candidate) \<ge> min_chars then candidate
             else candidate_loop db text min_chars sentence_end
        else candidate_loop db text min_chars (index + 1)
      else [])"
  by pat_completeness auto
termination
proof (relation "measure (\<lambda>(db, text, m, index). length text - index)", goal_cases)
  case (2 db str m index)
  then show ?case using sentence_boundary_end_gt [of index str] by (auto simp: diff_less_mono2)
qed auto

declare candidate_loop.simps [simp del]

definition first_punctuation_candidate :: "chardb \<Rightarrow> ustr \<Rightarrow> int \<Rightarrow> ustr" where
  "first_punctuation_candidate db text min_chars = candidate_loop db text min_chars 0"

section \<open>PCM energy and silence\<close>

text \<open>\<open>int.from_bytes(two bytes, "little", signed=True)\<close>.\<close>

definition sample_value :: "byte \<Rightarrow> byte \<Rightarrow> int" where
  "sample_value lo hi =
     (let u = uint lo + 256 * uint hi in if u \<ge> 32768 then u - 65536 else u)"

fun pcm_samples :: "pcm \<Rightarrow> int list" where
  "pcm_samples (lo # hi # rest) = sample_value lo hi # pcm_samples rest"
| "pcm_samples _ = []"

definition total_square :: "pcm \<Rightarrow> int" where
  "total_square p = sum_list (map (\<lambda>s. s * s) (pcm_samples p))"

text \<open>\<open>int(x ** 0.5)\<close> of a nonnegative rational: the integer square root of its floor.\<close>

fun isqrt :: "nat \<Rightarrow> nat" where
  "isqrt 0 = 0"
| "isqrt (Suc n) = (let r = isqrt n in if (r + 1) * (r + 1) \<le> Suc n then r + 1 else r)"

definition pcm_s16le_rms :: "pcm \<Rightarrow> int" where
  "pcm_s16le_rms p =
     (let sample_count = length p div 2
      in if sample_count = 0 then 0 else int (isqrt (nat (total_square p div int sample_count))))"

definition pcm_s16le_duration_seconds :: "pcm \<Rightarrow> int \<Rightarrow> seconds" where
  "pcm_s16le_duration_seconds p rate =
     (if rate \<le> 0 then 0 else of_nat (length p div 2) / of_int rate)"

record SilenceEndpointDetector =
  sd_silence_seconds :: seconds
  sd_rms_threshold :: int
  sd_current_silence_seconds :: seconds
  sd_committed_for_current_silence :: bool

definition sd_reset :: "SilenceEndpointDetector \<Rightarrow> SilenceEndpointDetector" where
  "sd_reset d = d\<lparr>sd_current_silence_seconds := 0, sd_committed_for_current_silence := False\<rparr>"

definition sd_add_audio ::
  "SilenceEndpointDetector \<Rightarrow> pcm \<Rightarrow> int \<Rightarrow> bool \<times> SilenceEndpointDetector" where
  "sd_add_audio d p rate =
     (if p = [] then (False, d)
      else if pcm_s16le_rms p > sd_rms_threshold d then
        (False, d\<lparr>sd_current_silence_seconds := 0, sd_committed_for_current_silence := False\<rparr>)
      else let d' = d\<lparr>sd_current_silence_seconds :=
                       sd_current_silence_seconds d + pcm_s16le_duration_seconds p rate\<rparr>
           in if sd_current_silence_seconds d' < sd_silence_seconds d' \<or>
                 sd_committed_for_current_silence d' then (False, d')
              else (True, d'\<lparr>sd_committed_for_current_silence := True\<rparr>))"

section \<open>Segmentation facts\<close>

lemma candidate_loop_prefix: "\<exists>n. candidate_loop db str m index = take n str"
proof (induction db str m index rule: candidate_loop.induct)
  case (1 db str m index)
  show ?case
  proof (cases "index < length str")
    case False
    then have "candidate_loop db str m index = take 0 str"
      by (subst candidate_loop.simps) simp
    then show ?thesis ..
  next
    case True
    then show ?thesis
      using 1 by (subst candidate_loop.simps) (auto simp: Let_def)
  qed
qed

lemma first_punctuation_candidate_prefix: "prefix (first_punctuation_candidate db str m) str"
  using candidate_loop_prefix [of db str m 0]
  by (auto simp: first_punctuation_candidate_def take_is_prefix)

lemma candidate_loop_chars:
  "candidate_loop db str m index \<noteq> [] \<Longrightarrow> m \<le> int (nonspace_length (candidate_loop db str m index))"
proof (induction db str m index rule: candidate_loop.induct)
  case (1 db str m index)
  show ?case
    using 1 by (subst (asm) (2) candidate_loop.simps, subst candidate_loop.simps)
      (auto simp: Let_def split: if_splits)
qed

text \<open>Every committed sentence is a nonempty stripped piece, and the loop never moves the
  start of the tail backwards.\<close>

lemma split_loop_nonempty:
  "\<lbrakk>\<forall>s \<in> set committed. s \<noteq> []; split_loop db str committed start index = (cs, n)\<rbrakk>
   \<Longrightarrow> \<forall>s \<in> set cs. s \<noteq> []"
proof (induction db str committed start index rule: split_loop.induct)
  case (1 db str committed start index)
  let ?hit = "str ! index \<in> set SENTENCE_TERMINATORS \<and> is_sentence_end db str index"
  note unfold = split_loop.simps [of db str committed start index]
  consider "\<not> index < length str" | "index < length str" "\<not> ?hit" | "index < length str" ?hit
    by blast
  then show ?case
  proof cases
    case 1
    with "1.prems" show ?thesis by (simp add: unfold)
  next
    case 2
    then have "split_loop db str committed start (index + 1) = (cs, n)"
      using "1.prems"(2) by (subst (asm) unfold) (simp only: if_False if_True simp_thms)
    with 2 "1.IH"(2) "1.prems"(1) show ?thesis by blast
  next
    case 3
    let ?stop = "sentence_boundary_end str index"
    let ?sentence = "py_strip (drop start (take ?stop str))"
    let ?committed = "if ?sentence \<noteq> [] then committed @ [?sentence] else committed"
    from 3 have "split_loop db str ?committed (skip_space str ?stop) (skip_space str ?stop) = (cs, n)"
      using "1.prems"(2) by (subst (asm) unfold) (simp only: Let_def if_True simp_thms)
    moreover have "\<forall>s \<in> set ?committed. s \<noteq> []" using "1.prems"(1) by auto
    ultimately show ?thesis
      using "1.IH"(1) [OF 3 refl refl refl refl] by blast
  qed
qed

lemma isqrt_bounds: "isqrt n * isqrt n \<le> n \<and> n < (isqrt n + 1) * (isqrt n + 1)"
proof (induction n)
  case 0
  then show ?case by simp
next
  case (Suc n)
  then show ?case by (auto simp: Let_def algebra_simps)
qed

lemma sample_value_range: "- 32768 \<le> sample_value lo hi \<and> sample_value lo hi \<le> 32767"
proof -
  define a b where "a = uint lo" and "b = uint hi"
  have "0 \<le> a" "a < 256" "0 \<le> b" "b < 256"
    using uint_lt2p [of lo] uint_lt2p [of hi] by (simp_all add: a_def b_def)
  then show ?thesis
    unfolding sample_value_def Let_def a_def [symmetric] b_def [symmetric] by auto
qed

lemma length_pcm_samples: "length (pcm_samples p) = length p div 2"
  by (induction p rule: pcm_samples.induct) auto

lemma square_le:
  assumes "- 32768 \<le> s" and "s \<le> (32768 :: int)"
  shows "s * s \<le> 1073741824"
proof -
  have "\<bar>s\<bar> * \<bar>s\<bar> \<le> 32768 * 32768"
    using assms by (intro mult_mono) auto
  then show ?thesis by simp
qed

lemma total_square_bounds:
  "0 \<le> total_square p \<and> total_square p \<le> 1073741824 * int (length p div 2)"
proof (induction p rule: pcm_samples.induct)
  case (1 lo hi rest)
  have "sample_value lo hi * sample_value lo hi \<le> 1073741824"
    using sample_value_range [of lo hi] by (intro square_le) auto
  with 1 show ?case by (auto simp: total_square_def)
qed (simp_all add: total_square_def)

section \<open>Properties\<close>

subsection \<open>Segmentation loses no visible character\<close>

abbreviation visible :: "ustr \<Rightarrow> ustr" where
  "visible s \<equiv> filter (\<lambda>c. \<not> py_isspace c) s"

lemma visible_dropWhile: "visible (dropWhile py_isspace s) = visible s"
  by (induction s) auto

lemma visible_strip: "visible (py_strip s) = visible s"
  unfolding py_strip_def rev_filter [symmetric] visible_dropWhile by simp

lemma drop_skip_space: "drop (skip_space s n) s = dropWhile py_isspace (drop n s)"
proof -
  have "drop (skip_space s n) s = drop (length (takeWhile py_isspace (drop n s))) (drop n s)"
    by (simp add: skip_space_def add.commute)
  then show ?thesis by (simp add: dropWhile_eq_drop)
qed

lemma drop_take_split: "a \<le> e \<Longrightarrow> drop a s = drop a (take e s) @ drop e s"
  by (metis append_take_drop_id drop_append drop_drop drop_take le_add_diff_inverse2)

lemma split_loop_visible:
  "\<lbrakk>start \<le> index; split_loop db str committed start index = (cs, n)\<rbrakk> \<Longrightarrow>
   visible (concat cs) @ visible (drop n str) =
     visible (concat committed) @ visible (drop start str)"
proof (induction db str committed start index rule: split_loop.induct)
  case (1 db str committed start index)
  let ?hit = "str ! index \<in> set SENTENCE_TERMINATORS \<and> is_sentence_end db str index"
  note unfold = split_loop.simps [of db str committed start index]
  consider "\<not> index < length str" | "index < length str" "\<not> ?hit" | "index < length str" ?hit
    by blast
  then show ?case
  proof cases
    case 1
    with "1.prems" show ?thesis by (simp add: unfold)
  next
    case 2
    then have "split_loop db str committed start (index + 1) = (cs, n)"
      using "1.prems"(2) by (subst (asm) unfold) (simp only: if_False if_True simp_thms)
    with 2 "1.IH"(2) "1.prems"(1) show ?thesis by simp
  next
    case 3
    let ?stop = "sentence_boundary_end str index"
    let ?sentence = "py_strip (drop start (take ?stop str))"
    let ?committed = "if ?sentence \<noteq> [] then committed @ [?sentence] else committed"
    from 3 have rec: "split_loop db str ?committed (skip_space str ?stop) (skip_space str ?stop) = (cs, n)"
      using "1.prems"(2) by (subst (asm) unfold) (simp only: Let_def if_True simp_thms)
    have "start \<le> ?stop"
      using "1.prems"(1) sentence_boundary_end_gt [of index str] by linarith
    then have "visible (drop start str) = visible ?sentence @ visible (drop ?stop str)"
      by (metis drop_take_split filter_append visible_strip)
    moreover have "visible (concat ?committed) = visible (concat committed) @ visible ?sentence"
      by simp
    ultimately show ?thesis
      using "1.IH"(1) [OF 3 refl refl refl refl order_refl rec]
      unfolding drop_skip_space visible_dropWhile by simp
  qed
qed

text \<open>Sentence segmentation loses, invents and reorders no visible character: the non-space
  characters of the committed sentences followed by those of the tail are the non-space
  characters of the text, and every committed sentence is nonempty.\<close>

theorem split_committed_sentences_conserves:
  "(case split_committed_sentences db s of (committed, tail) \<Rightarrow>
     visible (concat committed) @ visible tail = visible s \<and> [] \<notin> set committed \<and> suffix tail s)"
proof -
  obtain cs n where r: "split_loop db s [] 0 0 = (cs, n)" by fastforce
  from split_loop_visible [OF order_refl r] split_loop_nonempty [OF _ r]
  show ?thesis by (auto simp: split_committed_sentences_def r suffix_drop)
qed

subsection \<open>Energy and silence\<close>

text \<open>The RMS of a PCM frame is the integer square root of the mean square of its samples, and
  lies between 0 and 32768.\<close>

theorem pcm_s16le_rms_correct:
  assumes "2 \<le> length p"
  shows "0 \<le> pcm_s16le_rms p \<and> pcm_s16le_rms p \<le> 32768 \<and>
     pcm_s16le_rms p * pcm_s16le_rms p \<le> total_square p div int (length p div 2) \<and>
     total_square p div int (length p div 2) < (pcm_s16le_rms p + 1) * (pcm_s16le_rms p + 1)"
proof -
  let ?n = "int (length p div 2)" and ?m = "nat (total_square p div int (length p div 2))"
  have n: "0 < ?n" using assms by simp
  have ts: "0 \<le> total_square p div ?n"
    using total_square_bounds [of p] pos_imp_zdiv_nonneg_iff [OF n, of "total_square p"] by blast
  have "total_square p div ?n \<le> (1073741824 * ?n) div ?n"
    using total_square_bounds [of p] n by (intro zdiv_mono1) auto
  then have le: "total_square p div ?n \<le> 1073741824" using n by simp
  have r: "pcm_s16le_rms p = int (isqrt ?m)"
    using n by (simp add: pcm_s16le_rms_def Let_def)
  have "int (isqrt ?m * isqrt ?m) \<le> int ?m" "int ?m < int ((isqrt ?m + 1) * (isqrt ?m + 1))"
    unfolding of_nat_le_iff of_nat_less_iff using isqrt_bounds by blast+
  moreover have "int ?m = total_square p div ?n" using ts by (rule int_nat_eq [THEN trans, OF if_P])
  ultimately have b: "int (isqrt ?m) * int (isqrt ?m) \<le> total_square p div ?n"
    "total_square p div ?n < (int (isqrt ?m) + 1) * (int (isqrt ?m) + 1)"
    unfolding of_nat_mult of_nat_add of_nat_1 by metis+
  from b(1) le
  have sq: "int (isqrt ?m) * int (isqrt ?m) \<le> 32768 * 32768" by linarith
  have "int (isqrt ?m) \<le> 32768"
  proof (rule ccontr)
    assume "\<not> int (isqrt ?m) \<le> 32768"
    then have "32769 * 32769 \<le> int (isqrt ?m) * int (isqrt ?m)" by (intro mult_mono) auto
    with sq show False by simp
  qed
  with b show ?thesis unfolding r by simp
qed

theorem pcm_s16le_rms_correct_witness:
  "2 \<le> length [4 :: byte, 0] \<and> pcm_s16le_rms [4, 0] \<le> 32768"
proof -
  have "2 \<le> length [4 :: byte, 0]" by simp
  from pcm_s16le_rms_correct [OF this] show ?thesis by simp
qed

text \<open>A loud frame: the only input, apart from \<open>reset\<close>, that rearms the detector.\<close>

definition loud :: "SilenceEndpointDetector \<Rightarrow> pcm \<Rightarrow> bool" where
  "loud d p \<longleftrightarrow> p \<noteq> [] \<and> pcm_s16le_rms p > sd_rms_threshold d"

fun sd_run :: "SilenceEndpointDetector \<Rightarrow> pcm list \<Rightarrow> int \<Rightarrow> bool list \<times> SilenceEndpointDetector" where
  "sd_run d [] rate = ([], d)"
| "sd_run d (p # ps) rate =
     (let (b, d') = sd_add_audio d p rate; (bs, d'') = sd_run d' ps rate in (b # bs, d''))"

lemma sd_committed_stays:
  "\<lbrakk>sd_committed_for_current_silence d; list_all (\<lambda>p. \<not> loud d p) ps\<rbrakk> \<Longrightarrow>
   fst (sd_run d ps rate) = replicate (length ps) False"
proof (induction ps arbitrary: d)
  case (Cons p ps)
  obtain b d' where s: "sd_add_audio d p rate = (b, d')" by fastforce
  with Cons.prems have "\<not> b" "sd_committed_for_current_silence d'"
    "sd_rms_threshold d' = sd_rms_threshold d"
    by (auto simp: sd_add_audio_def loud_def Let_def split: if_splits)
  then have "fst (sd_run d' ps rate) = replicate (length ps) False"
    using Cons.prems(2) by (intro Cons.IH) (simp_all add: loud_def)
  with \<open>\<not> b\<close> s show ?case by (simp add: case_prod_beta)
qed simp

text \<open>The silence detector reports an endpoint at most once per silence: after a report no quiet
  or empty frame reports again, whatever its length, until a loud frame (or a reset).\<close>

theorem silence_endpoint_once:
  assumes "sd_add_audio d p rate = (True, d')" and "list_all (\<lambda>q. \<not> loud d q) ps"
  shows "fst (sd_run d' ps rate) = replicate (length ps) False \<and>
     sd_silence_seconds d \<le> sd_current_silence_seconds d'"
proof -
  from assms(1) have "sd_committed_for_current_silence d'" "sd_rms_threshold d' = sd_rms_threshold d"
    "sd_silence_seconds d \<le> sd_current_silence_seconds d'"
    by (auto simp: sd_add_audio_def Let_def split: if_splits)
  with assms(2) sd_committed_stays [of d' ps rate] show ?thesis by (simp add: loud_def)
qed

theorem silence_endpoint_once_witness:
  "let d = \<lparr>sd_silence_seconds = 1, sd_rms_threshold = 10, sd_current_silence_seconds = 0,
       sd_committed_for_current_silence = False\<rparr> in
   \<exists>d'. sd_add_audio d [0, 0] 1 = (True, d') \<and> fst (sd_run d' [[0, 0], [1, 0]] 1) = [False, False]"
proof -
  let ?d = "\<lparr>sd_silence_seconds = 1, sd_rms_threshold = 10, sd_current_silence_seconds = 0,
       sd_committed_for_current_silence = False\<rparr>"
  obtain d' where a: "sd_add_audio ?d [0, 0] 1 = (True, d')"
    by (simp add: sd_add_audio_def pcm_s16le_rms_def pcm_s16le_duration_seconds_def
        total_square_def sample_value_def)
  have q: "list_all (\<lambda>q. \<not> loud ?d q) [[0, 0], [1, 0]]"
    by (simp add: loud_def pcm_s16le_rms_def total_square_def sample_value_def)
  from silence_endpoint_once [OF a q] a show ?thesis by (simp add: numeral_2_eq_2)
qed

end
