(* ===== verification/Streaming.thy ===== *)
theory Streaming
  imports Sentences
begin

text \<open>
  \<open>StreamingTranscriptState\<close> and \<open>StablePunctuationTracker\<close> of
  \<open>app/asr_streaming.py\<close>: the confirmed and the replaceable part of a transcript and the
  numbered events a client applies. A method may mutate and then raise
  (\<open>apply_model_update\<close> counts samples before it finds a conflict), so a method is a function
  to a result and the state it leaves behind in either case.
\<close>

section \<open>Events and state\<close>

record TranscriptEvent =
  te_type :: string
  te_text :: ustr
  te_sequence :: int

record StablePunctuationTracker =
  st_enabled :: bool
  st_stable_seconds :: seconds
  st_min_chars :: int
  st_min_updates :: int
  st_candidate :: ustr
  st_candidate_audio_time :: seconds
  st_candidate_updates :: int

definition tracker_init :: "bool \<Rightarrow> seconds \<Rightarrow> int \<Rightarrow> int \<Rightarrow> StablePunctuationTracker" where
  "tracker_init enabled stable_seconds min_chars min_updates =
     \<lparr>st_enabled = enabled, st_stable_seconds = stable_seconds, st_min_chars = min_chars,
      st_min_updates = min_updates, st_candidate = [], st_candidate_audio_time = 0,
      st_candidate_updates = 0\<rparr>"

definition tracker_reset :: "StablePunctuationTracker \<Rightarrow> StablePunctuationTracker" where
  "tracker_reset t =
     t\<lparr>st_candidate := [], st_candidate_audio_time := 0, st_candidate_updates := 0\<rparr>"

definition tracker_observe ::
  "chardb \<Rightarrow> StablePunctuationTracker \<Rightarrow> ustr \<Rightarrow> seconds \<Rightarrow> ustr option \<times> StablePunctuationTracker" where
  "tracker_observe db t text audio_time =
     (let next_candidate =
        (if st_enabled t then first_punctuation_candidate db text (st_min_chars t) else [])
      in if next_candidate = [] then (None, tracker_reset t)
         else if next_candidate \<noteq> st_candidate t then
           (None, t\<lparr>st_candidate := next_candidate, st_candidate_audio_time := audio_time,
                    st_candidate_updates := 1\<rparr>)
         else let t' = t\<lparr>st_candidate_updates := st_candidate_updates t + 1\<rparr>
           in if st_candidate_updates t' < st_min_updates t' then (None, t')
              else if audio_time - st_candidate_audio_time t' < st_stable_seconds t' then (None, t')
              else (Some (st_candidate t'), tracker_reset t'))"

record StreamingTranscriptState =
  ts_sample_rate :: int
  ts_confirmed :: ustr
  ts_partial :: ustr
  ts_processed_samples :: int
  ts_sequence :: int
  ts_segment_local :: bool
  ts_active_segment_id :: "int option"
  ts_immediate_commit :: bool
  ts_stable :: StablePunctuationTracker

definition ts_init ::
  "int \<Rightarrow> bool \<Rightarrow> seconds \<Rightarrow> int \<Rightarrow> int \<Rightarrow> bool \<Rightarrow> bool \<Rightarrow> StreamingTranscriptState" where
  "ts_init rate stable_enabled stable_seconds min_chars min_updates immediate segment_local =
     \<lparr>ts_sample_rate = rate, ts_confirmed = [], ts_partial = [], ts_processed_samples = 0,
      ts_sequence = 0, ts_segment_local = segment_local, ts_active_segment_id = None,
      ts_immediate_commit = (immediate \<and> \<not> segment_local),
      ts_stable = tracker_init (stable_enabled \<and> \<not> segment_local) stable_seconds min_chars min_updates\<rparr>"

section \<open>Methods\<close>

type_synonym 'a tmethod = "StreamingTranscriptState \<Rightarrow> 'a result \<times> StreamingTranscriptState"

definition ts_event :: "string \<Rightarrow> ustr \<Rightarrow> StreamingTranscriptState \<Rightarrow>
    TranscriptEvent \<times> StreamingTranscriptState" where
  "ts_event event_type text s =
     (let n = ts_sequence s + 1
      in (\<lparr>te_type = event_type, te_text = text, te_sequence = n\<rparr>, s\<lparr>ts_sequence := n\<rparr>))"

text \<open>A list display of consecutive \<open>self._event(...)\<close> calls, evaluated left to right.\<close>

fun ts_events :: "(string \<times> ustr) list \<Rightarrow> StreamingTranscriptState \<Rightarrow>
    TranscriptEvent list \<times> StreamingTranscriptState" where
  "ts_events [] s = ([], s)"
| "ts_events ((ty, tx) # rest) s =
     (let (e, s') = ts_event ty tx s; (es, s'') = ts_events rest s' in (e # es, s''))"

definition ts_unconfirmed_tail :: "StreamingTranscriptState \<Rightarrow> ustr \<Rightarrow> ustr result" where
  "ts_unconfirmed_tail s text =
     (if ts_confirmed s = [] then Inr text
      else if prefix (ts_confirmed s) text then Inr (drop (length (ts_confirmed s)) text)
      else Inl (ConfirmedPrefixConflict ''model text conflicts with confirmed transcript prefix''))"

definition ts_commit_prefix :: "ustr \<Rightarrow> StreamingTranscriptState \<Rightarrow>
    TranscriptEvent list \<times> StreamingTranscriptState" where
  "ts_commit_prefix pre s =
     (if pre = [] \<or> \<not> prefix pre (ts_partial s) then ([], s)
      else let s' = s\<lparr>ts_confirmed := ts_confirmed s @ pre,
                     ts_partial := drop (length pre) (ts_partial s),
                     ts_stable := tracker_reset (ts_stable s)\<rparr>
           in ts_events [(''sentence_final'', pre), (''partial'', ts_partial s')] s')"

text \<open>The loop of \<open>_commit_all_complete_sentences\<close> over \<open>range(len(committed))\<close>: \<open>n\<close>
  iterations remain; \<open>None\<close> is its early \<open>return []\<close>.\<close>

fun exact_sentences :: "chardb \<Rightarrow> nat \<Rightarrow> ustr \<Rightarrow> ustr list option" where
  "exact_sentences db 0 remaining = Some []"
| "exact_sentences db (Suc n) remaining =
     (let exact = (if n = 0 then remaining else first_punctuation_candidate db remaining 1)
      in if exact = [] then None
         else map_option ((#) exact) (exact_sentences db n (drop (length exact) remaining)))"

definition ts_commit_all_complete_sentences :: "chardb \<Rightarrow> StreamingTranscriptState \<Rightarrow>
    TranscriptEvent list \<times> StreamingTranscriptState" where
  "ts_commit_all_complete_sentences db s =
     (let (committed, tail) = split_committed_sentences db (ts_partial s)
      in if committed = [] then ([], s)
         else let confirmed_length = length (ts_partial s) - length tail;
                  confirmed_prefix = take confirmed_length (ts_partial s)
              in case exact_sentences db (length committed) confirmed_prefix of
                   None \<Rightarrow> ([], s)
                 | Some exact \<Rightarrow>
                     ts_events (map (Pair ''sentence_final'') exact @ [(''partial'', tail)])
                       (s\<lparr>ts_confirmed := ts_confirmed s @ confirmed_prefix, ts_partial := tail,
                          ts_stable := tracker_reset (ts_stable s)\<rparr>))"

definition ts_apply_segment_snapshot :: "int \<Rightarrow> ustr \<Rightarrow> int \<Rightarrow> TranscriptEvent list tmethod" where
  "ts_apply_segment_snapshot segment_id segment_text decoded_samples_delta s =
     (if \<not> ts_segment_local s then
        (Inl (RuntimeError ''segment snapshots require segment_local_snapshots mode''), s)
      else if ts_active_segment_id s \<noteq> None \<and> ts_active_segment_id s \<noteq> Some segment_id \<and>
              ts_partial s \<noteq> [] then
        (Inl (ConfirmedPrefixConflict
           ''new model segment arrived before the active segment was finalized''), s)
      else let s' = s\<lparr>ts_active_segment_id := Some segment_id,
                     ts_processed_samples := ts_processed_samples s + decoded_samples_delta,
                     ts_partial := segment_text\<rparr>
           in if segment_text \<noteq> ts_partial s then
                apfst Inr (ts_events [(''partial'', segment_text)] s')
              else (Inr [], s'))"

definition ts_apply_model_update :: "chardb \<Rightarrow> ustr \<Rightarrow> int \<Rightarrow> TranscriptEvent list tmethod" where
  "ts_apply_model_update db text processed_samples s =
     (let s1 = s\<lparr>ts_processed_samples := ts_processed_samples s + processed_samples\<rparr>
      in case ts_unconfirmed_tail s1 text of
           Inl e \<Rightarrow> (Inl e, s1)
         | Inr tail \<Rightarrow>
             let s2 = s1\<lparr>ts_partial := tail\<rparr>
             in if ts_sample_rate s2 = 0 then (Inl (OtherError ''ZeroDivisionError''), s2)
                else let (stable_prefix, t) = tracker_observe db (ts_stable s2) (ts_partial s2)
                           (of_int (ts_processed_samples s2) / of_int (ts_sample_rate s2));
                         s3 = s2\<lparr>ts_stable := t\<rparr>
                     in case stable_prefix of
                          Some (c # cs) \<Rightarrow> apfst Inr (ts_commit_prefix (c # cs) s3)
                        | _ \<Rightarrow>
                            let (immediate_events, s4) =
                              (if ts_immediate_commit s3 then ts_commit_all_complete_sentences db s3
                               else ([], s3))
                            in if immediate_events \<noteq> [] then (Inr immediate_events, s4)
                               else if ts_partial s4 \<noteq> ts_partial s then
                                 apfst Inr (ts_events [(''partial'', ts_partial s4)] s4)
                               else (Inr [], s4))"

definition ts_commit_pending :: "StreamingTranscriptState \<Rightarrow>
    TranscriptEvent list \<times> StreamingTranscriptState" where
  "ts_commit_pending s =
     (let s' = s\<lparr>ts_partial := [], ts_stable := tracker_reset (ts_stable s),
                ts_active_segment_id := None\<rparr>
      in if ts_partial s = [] then ([], s')
         else if list_all py_isspace (ts_partial s) then ts_events [(''partial'', [])] s'
         else ts_events [(''sentence_final'', ts_partial s), (''partial'', [])]
                (s'\<lparr>ts_confirmed := ts_confirmed s @ ts_partial s\<rparr>))"

definition ts_append_independent_segment :: "chardb \<Rightarrow> ustr \<Rightarrow> StreamingTranscriptState \<Rightarrow>
    TranscriptEvent list \<times> StreamingTranscriptState" where
  "ts_append_independent_segment db text s =
     (if text = [] then ([], s)
      else let s1 = s\<lparr>ts_partial := ts_partial s @ text\<rparr>;
               (immediate_events, s2) =
                 (if ts_immediate_commit s1 then ts_commit_all_complete_sentences db s1 else ([], s1))
           in if immediate_events \<noteq> [] then (immediate_events, s2)
              else ts_events [(''partial'', ts_partial s2)] s2)"

definition ts_final_event :: "StreamingTranscriptState \<Rightarrow> TranscriptEvent \<times> StreamingTranscriptState" where
  "ts_final_event s = ts_event ''final'' (ts_partial s) s"

definition ts_finish :: "chardb \<Rightarrow> ustr \<Rightarrow> TranscriptEvent list tmethod" where
  "ts_finish db text s =
     (case ts_apply_model_update db text 0 s of
        (Inl e, s') \<Rightarrow> (Inl e, s')
      | (Inr events, s') \<Rightarrow> (let (e, s'') = ts_final_event s' in (Inr (events @ [e]), s'')))"

definition ts_reset_segment :: "StreamingTranscriptState \<Rightarrow> StreamingTranscriptState" where
  "ts_reset_segment s = s\<lparr>ts_stable := tracker_reset (ts_stable s), ts_active_segment_id := None\<rparr>"

definition ts_new_event :: "string \<Rightarrow> ustr \<Rightarrow> StreamingTranscriptState \<Rightarrow>
    TranscriptEvent \<times> StreamingTranscriptState" where
  "ts_new_event event_type text s = ts_event event_type text s"

section \<open>What a client displays\<close>

text \<open>The contract of the README: append every \<open>sentence_final\<close> text permanently and replace
  the displayed tail by the text of every \<open>partial\<close> or \<open>final\<close>; other events change nothing.\<close>

type_synonym client_view = "ustr \<times> ustr"

definition client_apply :: "client_view \<Rightarrow> TranscriptEvent \<Rightarrow> client_view" where
  "client_apply v e =
     (if te_type e = ''sentence_final'' then (fst v @ te_text e, snd v)
      else if te_type e = ''partial'' \<or> te_type e = ''final'' then (fst v, te_text e)
      else v)"

definition client_run :: "client_view \<Rightarrow> TranscriptEvent list \<Rightarrow> client_view" where
  "client_run v es = foldl client_apply v es"

definition ts_view :: "StreamingTranscriptState \<Rightarrow> client_view" where
  "ts_view s = (ts_confirmed s, ts_partial s)"

lemma client_run_simps [simp]:
  "client_run v [] = v" "client_run v (e # es) = client_run (client_apply v e) es"
  "client_run v (es @ fs) = client_run (client_run v es) fs"
  by (simp_all add: client_run_def)

section \<open>The event source contract\<close>

text \<open>What a transcript source promises its clients: a call that raises changes neither the
  view nor the sequence; a call that returns numbers its events strictly upwards past every
  number it gave before, and applying the events to a client that was in step brings it in step.\<close>

type_synonym ('s, 'op) event_step = "'s \<Rightarrow> 'op \<Rightarrow> TranscriptEvent list result \<times> 's"

fun emitted :: "('s, 'op) event_step \<Rightarrow> 's \<Rightarrow> 'op list \<Rightarrow> TranscriptEvent list" where
  "emitted step s [] = []"
| "emitted step s (x # xs) =
     (case fst (step s x) of Inl _ \<Rightarrow> [] | Inr es \<Rightarrow> es) @ emitted step (snd (step s x)) xs"

fun state_after :: "('s, 'op) event_step \<Rightarrow> 's \<Rightarrow> 'op list \<Rightarrow> 's" where
  "state_after step s [] = s"
| "state_after step s (x # xs) = state_after step (snd (step s x)) xs"

locale event_source =
  fixes step :: "('s, 'op) event_step"
    and inv :: "'s \<Rightarrow> bool" and seqno :: "'s \<Rightarrow> int" and view :: "'s \<Rightarrow> client_view"
  assumes step_inv: "inv s \<Longrightarrow> inv (snd (step s x))"
    and step_raise: "inv s \<Longrightarrow> step s x = (Inl e, t) \<Longrightarrow> view t = view s \<and> seqno s \<le> seqno t"
    and step_view: "inv s \<Longrightarrow> step s x = (Inr es, t) \<Longrightarrow> client_run (view s) es = view t"
    and step_seq: "inv s \<Longrightarrow> step s x = (Inr es, t) \<Longrightarrow>
      sorted_wrt (<) (seqno s # map te_sequence es) \<and>
      seqno s \<le> seqno t \<and> (\<forall>e \<in> set es. te_sequence e \<le> seqno t)"
begin

lemma run_inv: "inv s \<Longrightarrow> inv (state_after step s xs)"
  by (induction xs arbitrary: s) (simp_all add: step_inv)

lemma run_view: "inv s \<Longrightarrow> client_run (view s) (emitted step s xs) = view (state_after step s xs)"
proof (induction xs arbitrary: s)
  case (Cons x xs)
  obtain r t where st: "step s x = (r, t)" by fastforce
  have "inv t" using step_inv [OF Cons.prems, of x] st by simp
  moreover have "client_run (view s) (case r of Inl _ \<Rightarrow> [] | Inr es \<Rightarrow> es) = view t"
    using step_raise [OF Cons.prems] step_view [OF Cons.prems] st by (cases r) auto
  ultimately show ?case using Cons.IH [of t] st by simp
qed simp

lemma run_seq: "inv s \<Longrightarrow> sorted_wrt (<) (seqno s # map te_sequence (emitted step s xs))"
proof (induction xs arbitrary: s)
  case (Cons x xs)
  obtain r t where st: "step s x = (r, t)" by fastforce
  have it: "inv t" using step_inv [OF Cons.prems, of x] st by simp
  note IH = Cons.IH [OF it]
  show ?case
  proof (cases r)
    case (Inl e)
    with step_raise [OF Cons.prems] st IH show ?thesis by fastforce
  next
    case (Inr es)
    with step_seq [OF Cons.prems] st have q: "sorted_wrt (<) (seqno s # map te_sequence es)"
      "seqno s \<le> seqno t" "\<forall>e \<in> set es. te_sequence e \<le> seqno t" by auto
    with IH st Inr show ?thesis
      by (auto simp: sorted_wrt_append) (meson order.strict_trans1 order.strict_trans2)+
  qed
qed simp

end

section \<open>The transcript state is an event source\<close>

text \<open>The public methods; \<open>new_event\<close> is called with \<open>ready\<close>, \<open>error\<close> or the current
  partial as \<open>final\<close> only (the last is the constructor \<open>FinalEvent\<close>).\<close>

datatype ts_op =
    SegmentSnapshot int ustr int
  | ModelUpdate ustr int
  | CommitPending
  | AppendIndependent ustr
  | Finish ustr
  | FinalEvent
  | ResetSegment
  | ReadyEvent
  | ErrorEvent

fun ts_step :: "chardb \<Rightarrow> (StreamingTranscriptState, ts_op) event_step" where
  "ts_step db s (SegmentSnapshot i t n) = ts_apply_segment_snapshot i t n s"
| "ts_step db s (ModelUpdate t n) = ts_apply_model_update db t n s"
| "ts_step db s CommitPending = apfst Inr (ts_commit_pending s)"
| "ts_step db s (AppendIndependent t) = apfst Inr (ts_append_independent_segment db t s)"
| "ts_step db s (Finish t) = ts_finish db t s"
| "ts_step db s FinalEvent = apfst (\<lambda>e. Inr [e]) (ts_final_event s)"
| "ts_step db s ResetSegment = (Inr [], ts_reset_segment s)"
| "ts_step db s ReadyEvent = apfst (\<lambda>e. Inr [e]) (ts_new_event ''ready'' [] s)"
| "ts_step db s ErrorEvent = apfst (\<lambda>e. Inr [e]) (ts_new_event ''error'' [] s)"

definition ts_inv :: "StreamingTranscriptState \<Rightarrow> bool" where
  [inv_defs]: "ts_inv s \<longleftrightarrow> ts_sample_rate s \<noteq> 0"

text \<open>\<open>es\<close> are numbered consecutively from after \<open>a\<close> up to \<open>b\<close>.\<close>

fun consecutive :: "int \<Rightarrow> TranscriptEvent list \<Rightarrow> int \<Rightarrow> bool" where
  "consecutive a [] b = (a = b)"
| "consecutive a (e # es) b = (te_sequence e = a + 1 \<and> consecutive (a + 1) es b)"

lemma consecutive_append:
  "consecutive a (es @ fs) c \<longleftrightarrow> (\<exists>b. consecutive a es b \<and> consecutive b fs c)"
  by (induction es arbitrary: a) auto

lemma consecutive_bounds:
  "consecutive a es b \<Longrightarrow> a \<le> b \<and> (\<forall>e \<in> set es. a < te_sequence e \<and> te_sequence e \<le> b)"
  by (induction es arbitrary: a) force+

lemma consecutive_sorted: "consecutive a es b \<Longrightarrow> sorted_wrt (<) (a # map te_sequence es)"
  by (induction es arbitrary: a) (force dest: consecutive_bounds)+

text \<open>What every successful method guarantees about the events it returns.\<close>

definition ts_promise :: "StreamingTranscriptState \<Rightarrow> TranscriptEvent list \<Rightarrow>
    StreamingTranscriptState \<Rightarrow> bool" where
  "ts_promise s es t \<longleftrightarrow>
     consecutive (ts_sequence s) es (ts_sequence t) \<and> client_run (ts_view s) es = ts_view t \<and>
     ts_sample_rate t = ts_sample_rate s"

lemma ts_promise_Nil:
  "ts_promise s [] t \<longleftrightarrow> ts_sequence t = ts_sequence s \<and> ts_view t = ts_view s \<and>
     ts_sample_rate t = ts_sample_rate s"
  by (auto simp: ts_promise_def)

lemma ts_promise_append:
  "\<lbrakk>ts_promise s es t; ts_promise t fs u\<rbrakk> \<Longrightarrow> ts_promise s (es @ fs) u"
  by (auto simp: ts_promise_def consecutive_append)

lemma ts_events_result:
  assumes "ts_events kvs s = (es, t)"
  shows "t = s\<lparr>ts_sequence := ts_sequence s + int (length kvs)\<rparr> \<and>
     map (\<lambda>e. (te_type e, te_text e)) es = kvs \<and> consecutive (ts_sequence s) es (ts_sequence t)"
  using assms
proof (induction kvs arbitrary: s es t)
  case Nil
  then show ?case by simp
next
  case (Cons kv kvs)
  obtain ty tx where kv: "kv = (ty, tx)" by fastforce
  define s' where "s' = s\<lparr>ts_sequence := ts_sequence s + 1\<rparr>"
  obtain fs u where r: "ts_events kvs s' = (fs, u)" by fastforce
  from Cons.prems kv r have
    es: "es = \<lparr>te_type = ty, te_text = tx, te_sequence = ts_sequence s + 1\<rparr> # fs" "t = u"
    by (auto simp: ts_event_def s'_def Let_def)
  from Cons.IH [OF r] es kv show ?case by (auto simp: s'_def)
qed

text \<open>The client's reaction depends only on the kinds and texts of the events.\<close>

definition client_kv :: "client_view \<Rightarrow> string \<times> ustr \<Rightarrow> client_view" where
  "client_kv v kv = client_apply v \<lparr>te_type = fst kv, te_text = snd kv, te_sequence = 0\<rparr>"

lemma client_run_kvs:
  "map (\<lambda>e. (te_type e, te_text e)) es = kvs \<Longrightarrow> client_run v es = foldl client_kv v kvs"
  by (induction es arbitrary: v kvs) (auto simp: client_kv_def client_apply_def)

lemma client_kv_simps [simp]:
  "client_kv v (''sentence_final'', x) = (fst v @ x, snd v)"
  "client_kv v (''partial'', x) = (fst v, x)"
  "client_kv v (''final'', x) = (fst v, x)"
  "client_kv v (''ready'', x) = v"
  "client_kv v (''error'', x) = v"
  by (simp_all add: client_kv_def client_apply_def)

lemma foldl_sentence_finals:
  "foldl client_kv v (map (Pair ''sentence_final'') ss) = (fst v @ concat ss, snd v)"
  by (induction ss arbitrary: v) auto

lemma ts_events_promise:
  assumes "ts_events kvs s1 = (es, t)" and "ts_sequence s1 = ts_sequence s"
    and "ts_sample_rate s1 = ts_sample_rate s"
    and "foldl client_kv (ts_view s) kvs = ts_view s1"
  shows "ts_promise s es t"
  using ts_events_result [OF assms(1)] assms(2-4) client_run_kvs [of es kvs "ts_view s"]
  by (auto simp: ts_promise_def ts_view_def)

lemma ts_event_events: "ts_events [(ty, tx)] s = apfst (\<lambda>e. [e]) (ts_event ty tx s)"
  by (simp add: ts_event_def Let_def)

lemma ts_commit_prefix_promise:
  assumes "ts_commit_prefix pre s1 = (es, t)" and "prefix pre (ts_partial s1)" and "pre \<noteq> []"
    and "ts_sequence s1 = ts_sequence s" and "ts_sample_rate s1 = ts_sample_rate s"
    and "ts_confirmed s1 = ts_confirmed s"
  shows "ts_promise s es t"
proof (rule ts_events_promise)
  show "ts_events [(''sentence_final'', pre), (''partial'', drop (length pre) (ts_partial s1))]
      (s1\<lparr>ts_confirmed := ts_confirmed s1 @ pre, ts_partial := drop (length pre) (ts_partial s1),
          ts_stable := tracker_reset (ts_stable s1)\<rparr>) = (es, t)"
    using assms(1-3) by (simp add: ts_commit_prefix_def Let_def)
qed (use assms in \<open>simp_all add: ts_view_def\<close>)

lemma prefix_append_drop: "prefix c p \<Longrightarrow> c @ drop (length c) p = p"
  by (auto simp: prefix_def)

lemma exact_sentences_concat:
  "0 < n \<Longrightarrow> exact_sentences db n p = Some ss \<Longrightarrow> concat ss = p"
proof (induction n arbitrary: p ss)
  case 0
  then show ?case by simp
next
  case (Suc n)
  show ?case
  proof (cases "n = 0")
    case True
    with Suc.prems show ?thesis by (auto simp: Let_def split: if_splits)
  next
    case False
    let ?c = "first_punctuation_candidate db p 1"
    from Suc.prems False obtain rest where "ss = ?c # rest"
      "exact_sentences db n (drop (length ?c) p) = Some rest"
      by (auto simp: Let_def split: if_splits)
    moreover from this have "concat rest = drop (length ?c) p" using Suc.IH False by simp
    moreover have "?c @ drop (length ?c) p = p"
      by (rule prefix_append_drop) (rule first_punctuation_candidate_prefix)
    ultimately show ?thesis by simp
  qed
qed

lemma ts_commit_all_cases:
  assumes "ts_commit_all_complete_sentences db s1 = (es, t)"
  shows "es = [] \<and> t = s1 \<or>
     (ts_sequence s1 = ts_sequence s \<longrightarrow> ts_sample_rate s1 = ts_sample_rate s \<longrightarrow>
      ts_confirmed s1 = ts_confirmed s \<longrightarrow> es \<noteq> [] \<and> ts_promise s es t)"
proof -
  obtain committed tail where sp: "split_committed_sentences db (ts_partial s1) = (committed, tail)"
    by fastforce
  let ?p = "take (length (ts_partial s1) - length tail) (ts_partial s1)"
  show ?thesis
  proof (cases "committed = [] \<or> exact_sentences db (length committed) ?p = None")
    case True
    with assms sp have "(es, t) = ([], s1)"
      by (auto simp: ts_commit_all_complete_sentences_def Let_def split: if_splits)
    then show ?thesis by simp
  next
    case False
    then obtain ss where ss: "exact_sentences db (length committed) ?p = Some ss" "committed \<noteq> []"
      by auto
    let ?kvs = "map (Pair ''sentence_final'') ss @ [(''partial'', tail)]"
    let ?s = "s1\<lparr>ts_confirmed := ts_confirmed s1 @ ?p, ts_partial := tail,
      ts_stable := tracker_reset (ts_stable s1)\<rparr>"
    have ev: "ts_events ?kvs ?s = (es, t)"
      using assms sp ss by (simp add: ts_commit_all_complete_sentences_def Let_def)
    have "map (\<lambda>e. (te_type e, te_text e)) es = ?kvs" using ts_events_result [OF ev] by blast
    then have "es \<noteq> []" by auto
    moreover have "ts_promise s es t" if "ts_sequence s1 = ts_sequence s"
      "ts_sample_rate s1 = ts_sample_rate s" "ts_confirmed s1 = ts_confirmed s"
      using exact_sentences_concat [OF _ ss(1)] ss(2) that
      by (intro ts_events_promise [OF ev]) (simp_all add: ts_view_def foldl_sentence_finals)
    ultimately show ?thesis by blast
  qed
qed

lemma tracker_observe_prefix:
  "tracker_observe db t str time = (Some c, t') \<Longrightarrow> prefix c str"
  using first_punctuation_candidate_prefix [of db str "st_min_chars t"]
  by (auto simp: tracker_observe_def Let_def split: if_splits)

lemma ts_unconfirmed_tail_view:
  "ts_unconfirmed_tail s str = Inr tail \<Longrightarrow> str = ts_confirmed s @ tail"
  by (auto simp: ts_unconfirmed_tail_def prefix_def split: if_splits)

text \<open>The common end of a method: the immediate commit if there is one, else a \<open>partial\<close>
  event when the tail differs from the one the client shows.\<close>

lemma ts_immediate_or_partial:
  assumes "(if ts_immediate_commit s1 then ts_commit_all_complete_sentences db s1 else ([], s1)) = (ie, s2)"
    and same: "ts_sequence s1 = ts_sequence s" "ts_sample_rate s1 = ts_sample_rate s"
      "ts_confirmed s1 = ts_confirmed s"
    and res: "(if ie \<noteq> [] then (ie, s2)
        else if ts_partial s2 \<noteq> old then ts_events [(''partial'', ts_partial s2)] s2 else ([], s2)) = (es, t)"
    and old: "ts_partial s1 = old \<Longrightarrow> ts_partial s = old"
  shows "ts_promise s es t"
proof (cases "ie = []")
  case True
  then have s2: "s2 = s1"
    using assms(1) ts_commit_all_cases [of db s1 ie s2 s] same by (auto split: if_splits)
  show ?thesis
  proof (cases "ts_partial s1 = old")
    case True
    with res \<open>ie = []\<close> s2 have "es = []" "t = s1" by auto
    with same old [OF True] True show ?thesis by (simp add: ts_promise_Nil ts_view_def)
  next
    case False
    with res \<open>ie = []\<close> s2 have ev: "ts_events [(''partial'', ts_partial s1)] s1 = (es, t)" by simp
    show ?thesis
      using same by (intro ts_events_promise [OF ev]) (simp_all add: ts_view_def)
  qed
next
  case False
  with res have "es = ie" "t = s2" by auto
  with assms(1) False same ts_commit_all_cases [of db s1 ie s2 s] show ?thesis
    by (auto split: if_splits)
qed

lemma ts_apply_model_update_raise:
  assumes "ts_apply_model_update db str n s = (Inl e, t)" and "ts_inv s"
  shows "ts_view t = ts_view s \<and> ts_sequence t = ts_sequence s \<and> ts_sample_rate t = ts_sample_rate s"
  using assms by (auto simp: ts_apply_model_update_def ts_inv_def Let_def ts_view_def apfst_def map_prod_def
      split: sum.splits prod.splits option.splits list.splits if_splits)

lemma ts_apply_model_update_promise:
  assumes "ts_apply_model_update db str n s = (Inr es, t)" and inv: "ts_inv s"
  shows "ts_promise s es t"
proof -
  let ?s1 = "s\<lparr>ts_processed_samples := ts_processed_samples s + n\<rparr>"
  obtain tail where tail: "ts_unconfirmed_tail ?s1 str = Inr tail"
    using assms(1) by (auto simp: ts_apply_model_update_def Let_def split: sum.splits)
  let ?s2 = "?s1\<lparr>ts_partial := tail\<rparr>"
  obtain sp tr where ob: "tracker_observe db (ts_stable s) tail
      (of_int (ts_processed_samples s + n) / of_int (ts_sample_rate s)) = (sp, tr)" by fastforce
  let ?s3 = "?s2\<lparr>ts_stable := tr\<rparr>"
  show ?thesis
  proof (cases "sp = None \<or> sp = Some []")
    case False
    then obtain c cs where sp: "sp = Some (c # cs)" by (cases sp) (auto simp: neq_Nil_conv)
    with assms(1) inv tail ob have "ts_commit_prefix (c # cs) ?s3 = (es, t)"
      by (auto simp: ts_apply_model_update_def ts_inv_def Let_def apfst_def map_prod_def
          split: prod.splits)
    then show ?thesis
      by (rule ts_commit_prefix_promise) (use tracker_observe_prefix ob sp in auto)
  next
    case True
    obtain ie s4 where ie: "(if ts_immediate_commit ?s3 then
        ts_commit_all_complete_sentences db ?s3 else ([], ?s3)) = (ie, s4)" by fastforce
    show ?thesis
    proof (rule ts_immediate_or_partial [OF ie])
      show "(if ie \<noteq> [] then (ie, s4) else if ts_partial s4 \<noteq> ts_partial s
          then ts_events [(''partial'', ts_partial s4)] s4 else ([], s4)) = (es, t)"
        using assms(1) inv tail ob ie True
        by (auto simp: ts_apply_model_update_def ts_inv_def Let_def apfst_def map_prod_def
            split: prod.splits if_splits)
    qed simp_all
  qed
qed

lemma ts_segment_snapshot_promise:
  assumes "ts_apply_segment_snapshot i str n s = (Inr es, t)"
  shows "ts_promise s es t"
proof -
  let ?s = "s\<lparr>ts_active_segment_id := Some i, ts_processed_samples := ts_processed_samples s + n,
    ts_partial := str\<rparr>"
  show ?thesis
  proof (cases "str = ts_partial s")
    case True
    with assms show ?thesis
      by (auto simp: ts_apply_segment_snapshot_def Let_def ts_promise_Nil ts_view_def split: if_splits)
  next
    case False
    with assms have ev: "ts_events [(''partial'', str)] ?s = (es, t)"
      by (auto simp: ts_apply_segment_snapshot_def Let_def apfst_def map_prod_def
          split: if_splits prod.splits)
    show ?thesis
      by (rule ts_events_promise [OF ev]) (simp_all add: ts_view_def)
  qed
qed

lemma ts_segment_snapshot_raise:
  "ts_apply_segment_snapshot i str n s = (Inl e, t) \<Longrightarrow> t = s"
  by (auto simp: ts_apply_segment_snapshot_def Let_def apfst_def map_prod_def
      split: if_splits prod.splits)

lemma ts_commit_pending_promise:
  assumes "ts_commit_pending s = (es, t)"
  shows "ts_promise s es t"
proof -
  let ?s = "s\<lparr>ts_partial := [], ts_stable := tracker_reset (ts_stable s), ts_active_segment_id := None\<rparr>"
  consider "ts_partial s = []" | "ts_partial s \<noteq> []" "list_all py_isspace (ts_partial s)"
    | "ts_partial s \<noteq> []" "\<not> list_all py_isspace (ts_partial s)" by blast
  then show ?thesis
  proof cases
    case 1
    with assms show ?thesis by (auto simp: ts_commit_pending_def ts_promise_Nil ts_view_def)
  next
    case 2
    with assms have ev: "ts_events [(''partial'', [])] ?s = (es, t)"
      by (simp add: ts_commit_pending_def Let_def)
    show ?thesis by (rule ts_events_promise [OF ev]) (simp_all add: ts_view_def)
  next
    case 3
    with assms have ev: "ts_events [(''sentence_final'', ts_partial s), (''partial'', [])]
        (?s\<lparr>ts_confirmed := ts_confirmed s @ ts_partial s\<rparr>) = (es, t)"
      by (simp add: ts_commit_pending_def Let_def)
    show ?thesis by (rule ts_events_promise [OF ev]) (simp_all add: ts_view_def)
  qed
qed

lemma ts_append_independent_promise:
  assumes "ts_append_independent_segment db str s = (es, t)"
  shows "ts_promise s es t"
proof (cases "str = []")
  case True
  with assms show ?thesis by (simp add: ts_append_independent_segment_def ts_promise_Nil)
next
  case False
  let ?s = "s\<lparr>ts_partial := ts_partial s @ str\<rparr>"
  obtain ie s2 where ie: "(if ts_immediate_commit ?s then
      ts_commit_all_complete_sentences db ?s else ([], ?s)) = (ie, s2)" by fastforce
  have s2: "s2 = ?s" if "ie = []"
    using ie that ts_commit_all_cases [of db ?s ie s2 s] by (auto split: if_splits)
  show ?thesis
  proof (rule ts_immediate_or_partial [OF ie])
    show "(if ie \<noteq> [] then (ie, s2) else if ts_partial s2 \<noteq> ts_partial s
        then ts_events [(''partial'', ts_partial s2)] s2 else ([], s2)) = (es, t)"
      using assms False ie s2
      by (auto simp: ts_append_independent_segment_def Let_def split: prod.splits if_splits)
  qed simp_all
qed

lemma ts_event_promise:
  assumes "ts_event ty tx s = (e, t)" and "foldl client_kv (ts_view s) [(ty, tx)] = ts_view s"
  shows "ts_promise s [e] t"
proof -
  have ev: "ts_events [(ty, tx)] s = ([e], t)"
    using assms(1) by (simp add: ts_event_events)
  show ?thesis using assms(2) by (intro ts_events_promise [OF ev]) simp_all
qed

lemma ts_final_event_promise: "ts_final_event s = (e, t) \<Longrightarrow> ts_promise s [e] t"
  by (rule ts_event_promise) (auto simp: ts_final_event_def ts_view_def)

lemma ts_finish_promise:
  assumes "ts_finish db str s = (Inr es, t)" and "ts_inv s"
  shows "ts_promise s es t"
proof -
  from assms(1) obtain fs u e where u: "ts_apply_model_update db str 0 s = (Inr fs, u)"
    "ts_final_event u = (e, t)" "es = fs @ [e]"
    by (auto simp: ts_finish_def split: prod.splits sum.splits)
  with ts_apply_model_update_promise [OF u(1) assms(2)] ts_final_event_promise [OF u(2)]
  show ?thesis by (auto intro: ts_promise_append)
qed

lemma ts_step_promise:
  assumes "ts_step db s x = (Inr es, t)" and "ts_inv s"
  shows "ts_promise s es t"
proof (cases x)
  case (ModelUpdate str n)
  with assms ts_apply_model_update_promise show ?thesis by auto
next
  case (Finish str)
  with assms ts_finish_promise show ?thesis by auto
next
  case ReadyEvent
  with assms obtain e where "ts_event ''ready'' [] s = (e, t)" "es = [e]"
    by (auto simp: ts_new_event_def apfst_def map_prod_def split: prod.splits)
  with ts_event_promise show ?thesis by auto
next
  case ErrorEvent
  with assms obtain e where "ts_event ''error'' [] s = (e, t)" "es = [e]"
    by (auto simp: ts_new_event_def apfst_def map_prod_def split: prod.splits)
  with ts_event_promise show ?thesis by auto
qed (use assms in \<open>auto simp: apfst_def map_prod_def ts_promise_Nil ts_view_def ts_reset_segment_def
    split: prod.splits intro: ts_segment_snapshot_promise ts_commit_pending_promise
    ts_append_independent_promise ts_final_event_promise\<close>)

lemma ts_step_raise:
  assumes "ts_step db s x = (Inl e, t)" and "ts_inv s"
  shows "ts_view t = ts_view s \<and> ts_sequence t = ts_sequence s \<and> ts_sample_rate t = ts_sample_rate s"
  using assms
  by (cases x) (auto simp: apfst_def map_prod_def ts_finish_def split: prod.splits sum.splits
      dest: ts_apply_model_update_raise ts_segment_snapshot_raise)

interpretation transcript: event_source "ts_step db" ts_inv ts_sequence ts_view for db
proof unfold_locales
  show "ts_inv (snd (ts_step db s x))" if "ts_inv s" for s x
  proof -
    obtain r t where st: "ts_step db s x = (r, t)" by fastforce
    have "ts_sample_rate t = ts_sample_rate s"
    proof (cases r)
      case (Inl e)
      with st that show ?thesis by (blast dest: ts_step_raise)
    next
      case (Inr es)
      with st ts_step_promise [of db s x es t] that show ?thesis by (simp add: ts_promise_def)
    qed
    with st that show ?thesis by (simp add: ts_inv_def)
  qed
  show "ts_view t = ts_view s \<and> ts_sequence s \<le> ts_sequence t"
    if "ts_inv s" and "ts_step db s x = (Inl e, t)" for s x e t
    using ts_step_raise [OF that(2,1)] by simp
  show "client_run (ts_view s) es = ts_view t"
    if "ts_inv s" and "ts_step db s x = (Inr es, t)" for s x es t
    using ts_step_promise [OF that(2,1)] by (simp add: ts_promise_def)
  show "sorted_wrt (<) (ts_sequence s # map te_sequence es) \<and> ts_sequence s \<le> ts_sequence t \<and>
      (\<forall>e\<in>set es. te_sequence e \<le> ts_sequence t)"
    if "ts_inv s" and "ts_step db s x = (Inr es, t)" for s x es t
  proof -
    have "consecutive (ts_sequence s) es (ts_sequence t)"
      using ts_step_promise [OF that(2,1)] by (simp add: ts_promise_def)
    from consecutive_sorted [OF this] consecutive_bounds [OF this] show ?thesis by blast
  qed
qed

section \<open>Properties\<close>

text \<open>C12: a client that appends every \<open>sentence_final\<close> and replaces its tail with every
  \<open>partial\<close> or \<open>final\<close> shows exactly the confirmed and the partial text of the server after any
  sequence of calls on the transcript, raising calls included, and the event numbers it sees
  are strictly increasing.\<close>

theorem transcript_client_in_step:
  assumes "rate \<noteq> 0" and "s = ts_init rate en sec chars upd imm loc"
  shows "client_run ([], []) (emitted (ts_step db) s ops) = ts_view (state_after (ts_step db) s ops) \<and>
     sorted_wrt (<) (0 # map te_sequence (emitted (ts_step db) s ops))"
proof -
  have inv: "ts_inv s" and v: "ts_view s = ([], [])" and q: "ts_sequence s = 0"
    using assms by (simp_all add: ts_inv_def ts_init_def ts_view_def)
  from transcript.run_view [OF inv] transcript.run_seq [OF inv] v q show ?thesis by metis
qed

theorem transcript_client_in_step_witness:
  "(16000 :: int) \<noteq> 0 \<and>
   client_run ([], []) (emitted (ts_step ascii_db) (ts_init 16000 False 1 1 1 True False)
      [ModelUpdate (lit ''Hi. yo'') 5, CommitPending]) =
     ts_view (state_after (ts_step ascii_db) (ts_init 16000 False 1 1 1 True False)
      [ModelUpdate (lit ''Hi. yo'') 5, CommitPending])"
  using transcript_client_in_step [of 16000 _ False 1 1 1 True False ascii_db
    "[ModelUpdate (lit ''Hi. yo'') 5, CommitPending]", OF _ refl] by simp

lemma ts_promise_confirmed_prefix:
  "ts_promise s es t \<Longrightarrow> prefix (ts_confirmed s) (ts_confirmed t)"
proof -
  have "prefix (fst v) (fst (client_run v fs))" for v fs
  proof (induction fs arbitrary: v)
    case (Cons e fs)
    have "prefix (fst v) (fst (client_apply v e))" by (simp add: client_apply_def)
    with Cons [of "client_apply v e"] show ?case by (auto intro: prefix_order.trans)
  qed simp
  then show "ts_promise s es t \<Longrightarrow> ?thesis" by (metis ts_promise_def ts_view_def fst_conv)
qed

text \<open>C27: confirmed text is frozen: whatever call comes next, returning or raising, the confirmed
  text afterwards extends the confirmed text before, and a model update whose text contradicts the
  confirmed prefix raises a conflict instead of rewriting it.\<close>

theorem confirmed_text_frozen:
  assumes "ts_sample_rate s \<noteq> 0"
  shows "prefix (ts_confirmed s) (ts_confirmed (snd (ts_step db s x))) \<and>
     (\<not> prefix (ts_confirmed s) str \<longrightarrow>
        (\<exists>m. fst (ts_apply_model_update db str n s) = Inl (ConfirmedPrefixConflict m)))"
proof -
  have inv: "ts_inv s" using assms by (simp add: ts_inv_def)
  obtain r t where st: "ts_step db s x = (r, t)" by fastforce
  have "prefix (ts_confirmed s) (ts_confirmed t)"
  proof (cases r)
    case (Inl e)
    with st ts_step_raise [of db s x e t] inv show ?thesis by (simp add: ts_view_def)
  next
    case (Inr es)
    with st inv show ?thesis by (blast intro: ts_promise_confirmed_prefix ts_step_promise)
  qed
  moreover have "ts_unconfirmed_tail (s\<lparr>ts_processed_samples := ts_processed_samples s + n\<rparr>) str =
      Inl (ConfirmedPrefixConflict ''model text conflicts with confirmed transcript prefix'')"
    if "\<not> prefix (ts_confirmed s) str"
    using that by (auto simp: ts_unconfirmed_tail_def)
  ultimately show ?thesis
    using st by (auto simp: ts_apply_model_update_def Let_def)
qed

theorem confirmed_text_frozen_witness:
  "let s = (ts_init 16000 False 1 1 1 False False)\<lparr>ts_confirmed := lit ''ab''\<rparr> in
   ts_sample_rate s \<noteq> 0 \<and> prefix (ts_confirmed s) (ts_confirmed (snd (ts_step ascii_db s CommitPending)))"
proof -
  let ?s = "(ts_init 16000 False 1 1 1 False False)\<lparr>ts_confirmed := lit ''ab''\<rparr>"
  have "ts_sample_rate ?s \<noteq> 0" by (simp add: ts_init_def)
  from this confirmed_text_frozen [OF this, of ascii_db CommitPending] show ?thesis
    by (simp only: Let_def) blast
qed

end
