(* ===== verification/Protocol.thy ===== *)
theory Protocol
  imports Streaming Backends
begin

text \<open>
  \<open>app/asr_gateway_protocol.py\<close>: parsing of client commands and the \<open>ProtocolSession\<close>
  that turns backend results into the numbered wire events of one WebSocket session. The
  session wraps a transcript state with both commit heuristics switched off and adds the
  terminal flag.
\<close>

section \<open>Client commands\<close>

text \<open>Decoded JSON. \<open>str(x)\<close> of a value that is not a string is a parameter of the parser.\<close>

datatype json =
    JNull
  | JBool bool
  | JInt int
  | JFloat rat
  | JStr ustr
  | JList "json list"
  | JObj "(ustr \<times> json) list"

record StartCommand =
  sc_format :: string
  sc_sample_rate :: int
  sc_channels :: int
  sc_language :: ustr
  sc_options :: "(ustr \<times> json) list"

datatype command = Start StartCommand | Control string

text \<open>Python's \<open>==\<close> between a JSON value and an integer: floats and booleans compare by
  value.\<close>

fun json_eq_int :: "json \<Rightarrow> int \<Rightarrow> bool" where
  "json_eq_int (JInt n) k = (n = k)"
| "json_eq_int (JFloat r) k = (r = of_int k)"
| "json_eq_int (JBool b) k = ((if b then 1 else 0) = k)"
| "json_eq_int _ k = False"

definition json_get :: "(ustr \<times> json) list \<Rightarrow> string \<Rightarrow> json \<Rightarrow> json" where
  "json_get obj k d = (case map_of obj (lit k) of None \<Rightarrow> d | Some v \<Rightarrow> v)"

definition json_str :: "(json \<Rightarrow> ustr) \<Rightarrow> json \<Rightarrow> ustr" where
  "json_str str_of v = (case v of JStr s \<Rightarrow> s | _ \<Rightarrow> str_of v)"

definition hashable :: "json \<Rightarrow> bool" where
  "hashable v = (case v of JList _ \<Rightarrow> False | JObj _ \<Rightarrow> False | _ \<Rightarrow> True)"

definition ALLOWED_OPTIONS :: "ustr set" where
  "ALLOWED_OPTIONS = {lit ''timestamps'', lit ''task'', lit ''prompt'', lit ''hotwords''}"

definition parse_start ::
  "chardb \<Rightarrow> (json \<Rightarrow> ustr) \<Rightarrow> (ustr \<times> json) list \<Rightarrow> StartCommand result" where
  "parse_start db str_of payload =
     (if json_get payload ''format'' (JStr (lit ''pcm_s16le'')) \<noteq> JStr (lit ''pcm_s16le'') then
        Inl (ValueError ''format must be pcm_s16le'')
      else if \<not> json_eq_int (json_get payload ''sample_rate'' (JInt 16000)) 16000 then
        Inl (ValueError ''sample_rate must be 16000'')
      else if \<not> json_eq_int (json_get payload ''channels'' (JInt 1)) 1 then
        Inl (ValueError ''channels must be one'')
      else let language = cd_lower db (py_strip (json_str str_of
                 (json_get payload ''language'' (JStr (lit ''auto'')))))
           in if language = [] \<or> length language > 32 then Inl (ValueError ''language is invalid'')
              else case json_get payload ''options'' (JObj []) of
                JObj options \<Rightarrow>
                  if \<not> set (map fst options) \<subseteq> ALLOWED_OPTIONS then
                    Inl (ValueError ''options contain unsupported fields'')
                  else Inr \<lparr>sc_format = ''pcm_s16le'', sc_sample_rate = 16000, sc_channels = 1,
                            sc_language = language, sc_options = options\<rparr>
              | _ \<Rightarrow> Inl (ValueError ''options must be an object''))"

text \<open>The membership test against a set literal hashes the value: an unhashable type field
  raises \<open>TypeError\<close>, not \<open>ValueError\<close>.\<close>

definition parse_client_command :: "chardb \<Rightarrow> (json \<Rightarrow> ustr) \<Rightarrow> json \<Rightarrow> command result" where
  "parse_client_command db str_of payload =
     (case payload of
        JObj obj \<Rightarrow>
          let command_type = json_get obj ''type'' JNull in
          if command_type = JStr (lit ''start'') then
            bind_result (parse_start db str_of obj) (\<lambda>c. Inr (Start c))
          else if \<not> hashable command_type then Inl (TypeError ''unhashable type'')
          else if command_type = JStr (lit ''segment'') then Inr (Control ''segment'')
          else if command_type = JStr (lit ''finish'') then Inr (Control ''finish'')
          else if command_type = JStr (lit ''abort'') then Inr (Control ''abort'')
          else Inl (ValueError ''unsupported command type'')
      | _ \<Rightarrow> Inl (ValueError ''command must be an object''))"

section \<open>The protocol session\<close>

type_synonym metadata = "(string, string) dict"

datatype wire_value = WStr string | WMeta metadata

text \<open>\<open>_serialize\<close>: the event and the extra keys of the JSON object.\<close>

type_synonym wire_event = "TranscriptEvent \<times> (string, wire_value) dict"

record ProtocolSession =
  ps_state :: StreamingTranscriptState
  ps_terminal :: bool

definition ps_init :: "int \<Rightarrow> bool \<Rightarrow> ProtocolSession" where
  "ps_init rate segment_local =
     \<lparr>ps_state = ts_init rate False 1 1 1 False segment_local, ps_terminal = False\<rparr>"

definition ps_require_open :: "ProtocolSession \<Rightarrow> unit result" where
  "ps_require_open p =
     (if ps_terminal p then Inl (RuntimeError ''protocol session is terminal'') else Inr ())"

definition serialize :: "TranscriptEvent \<Rightarrow> (string, wire_value) dict \<Rightarrow> wire_event" where
  "serialize e extra = (e, extra)"

definition meta_extra :: "metadata option \<Rightarrow> (string, wire_value) dict" where
  "meta_extra m = (case m of None \<Rightarrow> [] | Some d \<Rightarrow> [(''metadata'', WMeta d)])"

definition ps_ready :: "(string, wire_value) dict \<Rightarrow> ProtocolSession \<Rightarrow>
    wire_event result \<times> ProtocolSession" where
  "ps_ready extra p =
     (case ps_require_open p of
        Inl e \<Rightarrow> (Inl e, p)
      | Inr _ \<Rightarrow> let (e, s) = ts_new_event ''ready'' [] (ps_state p)
                in (Inr (serialize e extra), p\<lparr>ps_state := s\<rparr>))"

text \<open>The \<open>CONFIRMED_PLUS_TAIL\<close> branch: the events of the first update are dropped, then the
  confirmed text is committed, then the tail is applied.\<close>

definition ps_confirmed_plus_tail ::
  "chardb \<Rightarrow> ustr \<Rightarrow> ustr \<Rightarrow> int \<Rightarrow> TranscriptEvent list tmethod" where
  "ps_confirmed_plus_tail db confirmed_text tail_text decoded_samples s =
     (let (r1, decoded, s1) =
        (if confirmed_text \<noteq> [] then
           case ts_apply_model_update db (ts_confirmed s @ confirmed_text) decoded_samples s of
             (Inl e, s') \<Rightarrow> (Inl e, decoded_samples, s')
           | (Inr _, s') \<Rightarrow> let (es, s'') = ts_commit_pending s' in (Inr es, 0, s'')
         else (Inr [], decoded_samples, s))
      in case r1 of
           Inl e \<Rightarrow> (Inl e, s1)
         | Inr es \<Rightarrow>
             case ts_apply_model_update db (ts_confirmed s1 @ tail_text) decoded s1 of
               (Inl e, s2) \<Rightarrow> (Inl e, s2)
             | (Inr fs, s2) \<Rightarrow> (Inr (es @ fs), s2))"

definition ps_apply_result ::
  "chardb \<Rightarrow> ResultMode \<Rightarrow> ustr \<Rightarrow> ustr \<Rightarrow> ustr \<Rightarrow> int \<Rightarrow> int \<Rightarrow> metadata option \<Rightarrow>
   ProtocolSession \<Rightarrow> wire_event list result \<times> ProtocolSession" where
  "ps_apply_result db mode text confirmed_text tail_text decoded_samples segment_id metadata p =
     (case ps_require_open p of
        Inl e \<Rightarrow> (Inl e, p)
      | Inr _ \<Rightarrow>
          let (r, s) = (case mode of
              CUMULATIVE_SNAPSHOT \<Rightarrow> ts_apply_model_update db text decoded_samples (ps_state p)
            | REPLACEABLE_SEGMENT \<Rightarrow>
                ts_apply_segment_snapshot segment_id text decoded_samples (ps_state p)
            | CONFIRMED_PLUS_TAIL \<Rightarrow>
                ps_confirmed_plus_tail db confirmed_text tail_text decoded_samples (ps_state p))
          in (map_sum id (map (\<lambda>e. serialize e (meta_extra metadata))) r, p\<lparr>ps_state := s\<rparr>))"

definition ps_segment :: "metadata option \<Rightarrow> ProtocolSession \<Rightarrow>
    wire_event list result \<times> ProtocolSession" where
  "ps_segment metadata p =
     (case ps_require_open p of
        Inl e \<Rightarrow> (Inl e, p)
      | Inr _ \<Rightarrow> let (es, s) = ts_commit_pending (ps_state p)
                in (Inr (map (\<lambda>e. serialize e (meta_extra metadata)) es), p\<lparr>ps_state := s\<rparr>))"

definition ps_final :: "chardb \<Rightarrow> ustr option \<Rightarrow> metadata option \<Rightarrow> ProtocolSession \<Rightarrow>
    wire_event result \<times> ProtocolSession" where
  "ps_final db tail_text metadata p =
     (case ps_require_open p of
        Inl e \<Rightarrow> (Inl e, p)
      | Inr _ \<Rightarrow>
          let (r, s) = (case tail_text of
              None \<Rightarrow> (Inr [], ps_state p)
            | Some t \<Rightarrow> ts_apply_model_update db (ts_confirmed (ps_state p) @ t) 0 (ps_state p))
          in case r of
               Inl e \<Rightarrow> (Inl e, p\<lparr>ps_state := s\<rparr>)
             | Inr _ \<Rightarrow> let (e, s') = ts_final_event s
                       in (Inr (serialize e (meta_extra metadata)),
                           p\<lparr>ps_state := s', ps_terminal := True\<rparr>))"

definition ps_error :: "py_error \<Rightarrow> string \<Rightarrow> ProtocolSession \<Rightarrow>
    wire_event result \<times> ProtocolSession" where
  "ps_error exc code p =
     (case ps_require_open p of
        Inl e \<Rightarrow> (Inl e, p)
      | Inr _ \<Rightarrow> let (e, s) = ts_new_event ''error'' [] (ps_state p)
                in (Inr (serialize e [(''code'', WStr code),
                      (''message'', WStr (error_type_name exc @ '': operation failed''))]),
                    p\<lparr>ps_state := s, ps_terminal := True\<rparr>))"

section \<open>The protocol session as an event source\<close>

datatype ps_op =
    PReady "(string, wire_value) dict"
  | PResult ResultMode ustr ustr ustr int int "metadata option"
  | PSegment "metadata option"
  | PFinal "ustr option" "metadata option"
  | PError py_error string

fun ps_call :: "chardb \<Rightarrow> ProtocolSession \<Rightarrow> ps_op \<Rightarrow> wire_event list result \<times> ProtocolSession" where
  "ps_call db p (PReady x) = apfst (map_sum id (\<lambda>e. [e])) (ps_ready x p)"
| "ps_call db p (PResult m t c l d i x) = ps_apply_result db m t c l d i x p"
| "ps_call db p (PSegment x) = ps_segment x p"
| "ps_call db p (PFinal t x) = apfst (map_sum id (\<lambda>e. [e])) (ps_final db t x p)"
| "ps_call db p (PError e c) = apfst (map_sum id (\<lambda>e. [e])) (ps_error e c p)"

text \<open>The events without their extra keys.\<close>

definition ps_step :: "chardb \<Rightarrow> (ProtocolSession, ps_op) event_step" where
  "ps_step db p x = apfst (map_sum id (map fst)) (ps_call db p x)"

text \<open>Both commit heuristics are off, as the constructor leaves them.\<close>

definition plain :: "StreamingTranscriptState \<Rightarrow> bool" where
  "plain s \<longleftrightarrow> ts_sample_rate s \<noteq> 0 \<and> \<not> st_enabled (ts_stable s) \<and> \<not> ts_immediate_commit s"

definition ps_inv :: "ProtocolSession \<Rightarrow> bool" where
  [inv_defs]: "ps_inv p \<longleftrightarrow> plain (ps_state p)"

lemma ps_init_inv: "rate \<noteq> 0 \<Longrightarrow> ps_inv (ps_init rate loc)"
  by (simp add: ps_inv_def ps_init_def plain_def ts_init_def tracker_init_def)

lemma plain_ts_inv: "plain s \<Longrightarrow> ts_inv s"
  by (simp add: plain_def ts_inv_def)

lemma plain_simps [simp]:
  "plain (s\<lparr>ts_processed_samples := n\<rparr>) = plain s" "plain (s\<lparr>ts_partial := x\<rparr>) = plain s"
  "plain (s\<lparr>ts_confirmed := x\<rparr>) = plain s" "plain (s\<lparr>ts_sequence := k\<rparr>) = plain s"
  "plain (s\<lparr>ts_active_segment_id := i\<rparr>) = plain s"
  "plain (s\<lparr>ts_stable := tracker_reset (ts_stable s)\<rparr>) = plain s"
  by (simp_all add: plain_def tracker_reset_def)

text \<open>With the heuristics off a model update that extends the confirmed text only replaces the
  tail: at most one \<open>partial\<close> event, nothing committed, no exception.\<close>

lemma plain_model_update:
  assumes "plain s"
  shows "ts_apply_model_update db (ts_confirmed s @ x) n s =
    (let s' = s\<lparr>ts_processed_samples := ts_processed_samples s + n, ts_partial := x,
               ts_stable := tracker_reset (ts_stable s)\<rparr>
     in if x \<noteq> ts_partial s then apfst Inr (ts_events [(''partial'', x)] s') else (Inr [], s'))"
proof -
  have "tracker_observe db (ts_stable s) y a = (None, tracker_reset (ts_stable s))" for y a
    using assms by (simp add: tracker_observe_def plain_def)
  with assms show ?thesis
    by (simp add: ts_apply_model_update_def ts_unconfirmed_tail_def plain_def Let_def)
qed

lemma ts_events_plain: "ts_events kvs s = (es, t) \<Longrightarrow> plain t = plain s"
  using ts_events_result by fastforce

lemma ts_event_plain: "ts_event ty tx s = (e, t) \<Longrightarrow> plain t = plain s"
  by (auto simp: ts_event_def Let_def)

lemma ts_apply_model_update_plain:
  assumes "plain s" and "ts_apply_model_update db str n s = (r, t)"
  shows "plain t"
proof (cases "prefix (ts_confirmed s) str")
  case True
  then obtain x where "str = ts_confirmed s @ x" by (auto simp: prefix_def)
  with assms plain_model_update [OF assms(1), of db x n] show ?thesis
    by (auto simp: Let_def plain_def tracker_reset_def ts_event_def split: if_splits)
next
  case False
  with assms show ?thesis
    by (auto simp: ts_apply_model_update_def ts_unconfirmed_tail_def Let_def split: if_splits)
qed

lemma plain_update_ok:
  assumes "plain s"
  obtains es t where "ts_apply_model_update db (ts_confirmed s @ x) n s = (Inr es, t)"
    "ts_confirmed t = ts_confirmed s" "ts_partial t = x" "ts_sequence s \<le> ts_sequence t" "plain t"
proof (cases "x = ts_partial s")
  case True
  with plain_model_update [OF assms, of db x n] assms that show thesis
    by (simp add: Let_def plain_def tracker_reset_def)
next
  case False
  with plain_model_update [OF assms, of db x n] assms that show thesis
    by (simp add: Let_def plain_def tracker_reset_def ts_event_def)
qed

lemma ts_commit_pending_plain: "ts_commit_pending s = (es, t) \<Longrightarrow> plain t = plain s"
  by (auto simp: ts_commit_pending_def Let_def plain_def tracker_reset_def ts_event_def
      split: if_splits)

lemma ts_segment_snapshot_plain: "ts_apply_segment_snapshot i x n s = (r, t) \<Longrightarrow> plain t = plain s"
  by (auto simp: ts_apply_segment_snapshot_def Let_def plain_def ts_event_def split: if_splits)

text \<open>A transcript step that overwrites the tail brings any client with the right confirmed text
  in step, whatever tail it showed.\<close>

lemma commit_pending_overwrites:
  assumes "ts_commit_pending s = (es, t)" and "ts_partial s \<noteq> []"
  shows "client_run (ts_confirmed s, old) es = ts_view t"
  using assms by (auto simp: ts_commit_pending_def Let_def ts_event_def ts_view_def client_apply_def
      split: if_splits)

lemma final_event_overwrites:
  "ts_final_event s = (e, t) \<Longrightarrow> client_apply (ts_confirmed s, old) e = ts_view t"
  by (auto simp: ts_final_event_def ts_event_def Let_def ts_view_def client_apply_def)

text \<open>The protocol's promise: the transcript's, with gaps allowed in the numbering.\<close>

definition ps_promise :: "StreamingTranscriptState \<Rightarrow> TranscriptEvent list \<Rightarrow>
    StreamingTranscriptState \<Rightarrow> bool" where
  "ps_promise s es t \<longleftrightarrow>
     sorted_wrt (<) (ts_sequence s # map te_sequence es) \<and> ts_sequence s \<le> ts_sequence t \<and>
     (\<forall>e \<in> set es. te_sequence e \<le> ts_sequence t) \<and>
     client_run (ts_view s) es = ts_view t \<and> plain t"

lemma ps_promise_of_ts: "ts_promise s es t \<Longrightarrow> plain t \<Longrightarrow> ps_promise s es t"
  by (auto simp: ps_promise_def ts_promise_def dest: consecutive_bounds consecutive_sorted)

lemma sorted_wrt_gap:
  fixes a b :: int
  shows "a \<le> b \<Longrightarrow> sorted_wrt (<) (b # xs) \<Longrightarrow> sorted_wrt (<) (a # xs)"
  by auto

lemma ps_confirmed_plus_tail_promise:
  assumes "plain s" and "ps_confirmed_plus_tail db c x n s = (r, t)"
  shows "\<exists>es. r = Inr es \<and> ps_promise s es t"
proof (cases "c = []")
  case True
  obtain es t' where u': "ts_apply_model_update db (ts_confirmed s @ x) n s = (Inr es, t')"
    using plain_update_ok [OF assms(1)] by blast
  with True assms(2) have "r = Inr es"
    and u: "ts_apply_model_update db (ts_confirmed s @ x) n s = (Inr es, t)"
    by (simp_all add: ps_confirmed_plus_tail_def)
  moreover have "ps_promise s es t"
    using ts_apply_model_update_promise [OF u plain_ts_inv [OF assms(1)]]
      ts_apply_model_update_plain [OF assms(1) u] by (rule ps_promise_of_ts)
  ultimately show ?thesis by blast
next
  case False
  obtain es0 s1 where u1: "ts_apply_model_update db (ts_confirmed s @ c) n s = (Inr es0, s1)"
    and s1: "ts_confirmed s1 = ts_confirmed s" "ts_partial s1 = c" "ts_sequence s \<le> ts_sequence s1"
    and p1: "plain s1" using plain_update_ok [OF assms(1)] by metis
  obtain es1 s2 where u2: "ts_commit_pending s1 = (es1, s2)" by fastforce
  have p2: "plain s2" using ts_commit_pending_plain [OF u2] p1 by simp
  obtain es2 s3 where u3: "ts_apply_model_update db (ts_confirmed s2 @ x) 0 s2 = (Inr es2, s3)"
    using plain_update_ok [OF p2] by metis
  have rt: "r = Inr (es1 @ es2)" "t = s3"
    using assms(2) False u1 u2 u3 by (simp_all add: ps_confirmed_plus_tail_def)
  have "ts_promise s1 (es1 @ es2) s3"
    using ts_commit_pending_promise [OF u2]
      ts_apply_model_update_promise [OF u3 plain_ts_inv [OF p2]] by (rule ts_promise_append)
  then have q: "consecutive (ts_sequence s1) (es1 @ es2) (ts_sequence s3)"
    by (simp add: ts_promise_def)
  have "client_run (ts_view s) es1 = ts_view s2"
    using commit_pending_overwrites [OF u2] s1 False by (simp add: ts_view_def)
  moreover have "client_run (ts_view s2) es2 = ts_view s3"
    using ts_apply_model_update_promise [OF u3 plain_ts_inv [OF p2]] by (simp add: ts_promise_def)
  ultimately have "ps_promise s (es1 @ es2) s3"
    using consecutive_bounds [OF q] sorted_wrt_gap [OF s1(3) consecutive_sorted [OF q]] s1(3)
      ts_apply_model_update_plain [OF p2 u3]
    unfolding ps_promise_def by auto
  with rt show ?thesis by blast
qed

lemma ps_final_promise:
  assumes "plain (ps_state p)" and "ps_final db t m p = (r, q)" and "\<not> ps_terminal p"
  shows "\<exists>e x. r = Inr (e, x) \<and> ps_promise (ps_state p) [e] (ps_state q) \<and> ps_terminal q"
proof -
  let ?s = "ps_state p"
  obtain es s1 where u: "(case t of None \<Rightarrow> (Inr [], ?s)
      | Some x \<Rightarrow> ts_apply_model_update db (ts_confirmed ?s @ x) 0 ?s) = (Inr es, s1)"
    and s1: "ts_confirmed s1 = ts_confirmed ?s" "ts_sequence ?s \<le> ts_sequence s1" "plain s1"
  proof (cases t)
    case None
    with assms(1) that [of "[]" ?s] show thesis by simp
  next
    case (Some x)
    with assms(1) that show thesis by (auto elim: plain_update_ok [of ?s db x 0])
  qed
  obtain e s2 where e: "ts_final_event s1 = (e, s2)" by fastforce
  have rq: "r = Inr (serialize e (meta_extra m))" "q = p\<lparr>ps_state := s2, ps_terminal := True\<rparr>"
    using assms(2,3) u e by (auto simp: ps_final_def ps_require_open_def Let_def)
  have "te_sequence e = ts_sequence s1 + 1" "ts_sequence s2 = ts_sequence s1 + 1" "plain s2"
    using e s1(3) by (auto simp: ts_final_event_def ts_event_def Let_def)
  moreover have "client_apply (ts_view ?s) e = ts_view s2"
    using final_event_overwrites [OF e] s1(1) by (simp add: ts_view_def)
  ultimately have "ps_promise ?s [e] s2" using s1(2) by (simp add: ps_promise_def)
  with rq show ?thesis by (auto simp: serialize_def)
qed

lemma ps_call_terminal:
  "ps_terminal p \<Longrightarrow> ps_call db p x = (Inl (RuntimeError ''protocol session is terminal''), p)"
  by (cases x) (simp_all add: ps_ready_def ps_apply_result_def ps_segment_def ps_final_def
      ps_error_def ps_require_open_def)

text \<open>What one protocol call leaves behind, on the transcript underneath.\<close>

definition ps_outcome :: "ProtocolSession \<Rightarrow> TranscriptEvent list result \<Rightarrow> ProtocolSession \<Rightarrow> bool" where
  "ps_outcome p r q \<longleftrightarrow>
     (case r of
        Inl _ \<Rightarrow> ts_view (ps_state q) = ts_view (ps_state p) \<and>
          ts_sequence (ps_state p) \<le> ts_sequence (ps_state q) \<and> plain (ps_state q)
      | Inr es \<Rightarrow> ps_promise (ps_state p) es (ps_state q))"

lemma ps_event_outcome:
  assumes "ts_event ty [] (ps_state p) = (e, s)" and "ty = ''ready'' \<or> ty = ''error''"
    and "plain (ps_state p)" and "ps_state q = s"
  shows "ps_outcome p (Inr [e]) q"
proof -
  have "ts_promise (ps_state p) [e] s"
    using assms(2) by (intro ts_event_promise [OF assms(1)]) auto
  with ts_event_plain [OF assms(1)] assms(3,4) show ?thesis
    by (simp add: ps_outcome_def ps_promise_of_ts)
qed

lemma map_fst_serialize: "map fst (map (\<lambda>e. serialize e x) es) = es"
  by (simp add: serialize_def comp_def)

lemma ps_apply_result_outcome:
  assumes "plain (ps_state p)" and "\<not> ps_terminal p"
    and "ps_apply_result db m t c l d i x p = (r, q)"
  shows "ps_outcome p (map_sum id (map fst) r) q"
proof -
  let ?s = "ps_state p"
  obtain r0 s where u: "(case m of
        CUMULATIVE_SNAPSHOT \<Rightarrow> ts_apply_model_update db t d ?s
      | REPLACEABLE_SEGMENT \<Rightarrow> ts_apply_segment_snapshot i t d ?s
      | CONFIRMED_PLUS_TAIL \<Rightarrow> ps_confirmed_plus_tail db c l d ?s) = (r0, s)" by fastforce
  have rq: "r = map_sum id (map (\<lambda>e. serialize e (meta_extra x))) r0" "q = p\<lparr>ps_state := s\<rparr>"
    using assms(2,3) u by (simp_all add: ps_apply_result_def ps_require_open_def)
  have "ps_outcome p r0 (p\<lparr>ps_state := s\<rparr>)"
  proof (cases m)
    case CUMULATIVE_SNAPSHOT
    with u have u': "ts_apply_model_update db t d ?s = (r0, s)" by simp
    note pl = ts_apply_model_update_plain [OF assms(1) u']
    show ?thesis
    proof (cases r0)
      case (Inl e)
      with u' ts_apply_model_update_raise [of db t d ?s e s] plain_ts_inv [OF assms(1)] pl
      show ?thesis by (simp add: ps_outcome_def)
    next
      case (Inr es)
      with u' ts_apply_model_update_promise [of db t d ?s es s] plain_ts_inv [OF assms(1)] pl
      show ?thesis by (simp add: ps_outcome_def ps_promise_of_ts)
    qed
  next
    case REPLACEABLE_SEGMENT
    with u have u': "ts_apply_segment_snapshot i t d ?s = (r0, s)" by simp
    note pl = ts_segment_snapshot_plain [OF u']
    show ?thesis
    proof (cases r0)
      case (Inl e)
      with u' ts_segment_snapshot_raise [of i t d ?s e s] assms(1)
      show ?thesis by (simp add: ps_outcome_def)
    next
      case (Inr es)
      with u' ts_segment_snapshot_promise [of i t d ?s es s] assms(1) pl
      show ?thesis by (simp add: ps_outcome_def ps_promise_of_ts)
    qed
  next
    case CONFIRMED_PLUS_TAIL
    with u ps_confirmed_plus_tail_promise [OF assms(1), of db c l d r0 s]
    show ?thesis by (auto simp: ps_outcome_def)
  qed
  then show ?thesis
    unfolding rq by (cases r0) (simp_all add: ps_outcome_def map_fst_serialize del: map_map)
qed

lemma ps_step_outcome:
  assumes inv: "ps_inv p" and st: "ps_step db p x = (r, q)"
  shows "ps_outcome p r q"
proof (cases "ps_terminal p")
  case True
  with st ps_call_terminal [of p db x] inv show ?thesis
    by (auto simp: ps_step_def ps_outcome_def ps_inv_def)
next
  case False
  have pl: "plain (ps_state p)" using inv by (simp add: ps_inv_def)
  show ?thesis
  proof (cases x)
    case (PReady m)
    obtain e s where "ts_event ''ready'' [] (ps_state p) = (e, s)" by fastforce
    with st PReady False pl show ?thesis
      by (auto simp: ps_step_def ps_ready_def ps_require_open_def ts_new_event_def serialize_def
          intro!: ps_event_outcome)
  next
    case (PResult m t c l d i y)
    obtain r0 where "ps_apply_result db m t c l d i y p = (r0, q)" "r = map_sum id (map fst) r0"
      using st PResult by (auto simp: ps_step_def apfst_def map_prod_def split: prod.splits)
    with ps_apply_result_outcome [OF pl False] show ?thesis by auto
  next
    case (PSegment y)
    obtain es s where u: "ts_commit_pending (ps_state p) = (es, s)" by fastforce
    with st PSegment False have "r = Inr (map fst (map (\<lambda>e. serialize e (meta_extra y)) es))"
      "q = p\<lparr>ps_state := s\<rparr>"
      by (simp_all add: ps_step_def ps_segment_def ps_require_open_def)
    with ps_promise_of_ts [OF ts_commit_pending_promise [OF u]] ts_commit_pending_plain [OF u] pl
    show ?thesis by (simp add: ps_outcome_def map_fst_serialize del: map_map)
  next
    case (PFinal t y)
    obtain r0 where u: "ps_final db t y p = (r0, q)" and r: "r = map_sum id (map fst) (map_sum id (\<lambda>e. [e]) r0)"
      using st PFinal by (auto simp: ps_step_def apfst_def map_prod_def split: prod.splits)
    from ps_final_promise [OF pl u False] r show ?thesis by (auto simp: ps_outcome_def)
  next
    case (PError e c)
    obtain ev s where "ts_event ''error'' [] (ps_state p) = (ev, s)" by fastforce
    with st PError False pl show ?thesis
      by (auto simp: ps_step_def ps_error_def ps_require_open_def ts_new_event_def serialize_def
          intro!: ps_event_outcome)
  qed
qed

interpretation protocol: event_source "ps_step db" ps_inv
    "\<lambda>p. ts_sequence (ps_state p)" "\<lambda>p. ts_view (ps_state p)" for db
proof unfold_locales
  show "ps_inv (snd (ps_step db p x))" if "ps_inv p" for p x
  proof -
    obtain r q where "ps_step db p x = (r, q)" by fastforce
    with ps_step_outcome [OF that this] show ?thesis
      by (cases r) (auto simp: ps_outcome_def ps_inv_def ps_promise_def)
  qed
  show "ts_view (ps_state q) = ts_view (ps_state p) \<and>
      ts_sequence (ps_state p) \<le> ts_sequence (ps_state q)"
    if "ps_inv p" and "ps_step db p x = (Inl e, q)" for p x e q
    using ps_step_outcome [OF that] by (simp add: ps_outcome_def)
  show "client_run (ts_view (ps_state p)) es = ts_view (ps_state q)"
    if "ps_inv p" and "ps_step db p x = (Inr es, q)" for p x es q
    using ps_step_outcome [OF that] by (simp add: ps_outcome_def ps_promise_def)
  show "sorted_wrt (<) (ts_sequence (ps_state p) # map te_sequence es) \<and>
      ts_sequence (ps_state p) \<le> ts_sequence (ps_state q) \<and>
      (\<forall>e\<in>set es. te_sequence e \<le> ts_sequence (ps_state q))"
    if "ps_inv p" and "ps_step db p x = (Inr es, q)" for p x es q
    using ps_step_outcome [OF that] by (simp add: ps_outcome_def ps_promise_def)
qed

section \<open>Properties\<close>

text \<open>C13: over any sequence of calls on a protocol session, whatever result modes the backend
  mixes and whichever calls raise, the wire events carry strictly increasing sequence numbers and
  a client that follows the display rule shows exactly the server's confirmed and partial text.\<close>

theorem protocol_client_in_step:
  assumes "rate \<noteq> 0"
  shows "client_run ([], []) (emitted (ps_step db) (ps_init rate loc) ops) =
       ts_view (ps_state (state_after (ps_step db) (ps_init rate loc) ops)) \<and>
     sorted_wrt (<) (0 # map te_sequence (emitted (ps_step db) (ps_init rate loc) ops))"
proof -
  have inv: "ps_inv (ps_init rate loc)" using assms by (rule ps_init_inv)
  have v: "ts_view (ps_state (ps_init rate loc)) = ([], [])"
    "ts_sequence (ps_state (ps_init rate loc)) = 0"
    by (simp_all add: ps_init_def ts_init_def ts_view_def)
  from protocol.run_view [OF inv, of db ops] protocol.run_seq [OF inv, of db ops] show ?thesis
    unfolding v by blast
qed

theorem protocol_client_in_step_witness:
  "(16000 :: int) \<noteq> 0 \<and>
   client_run ([], []) (emitted (ps_step ascii_db) (ps_init 16000 False)
     [PResult CONFIRMED_PLUS_TAIL [] (lit ''ab'') (lit ''c'') 4 0 None, PFinal None None]) =
   ts_view (ps_state (state_after (ps_step ascii_db) (ps_init 16000 False)
     [PResult CONFIRMED_PLUS_TAIL [] (lit ''ab'') (lit ''c'') 4 0 None, PFinal None None]))"
  using protocol_client_in_step [of 16000 ascii_db False
    "[PResult CONFIRMED_PLUS_TAIL [] (lit ''ab'') (lit ''c'') 4 0 None, PFinal None None]"] by simp

lemma state_after_terminal:
  "ps_terminal p \<Longrightarrow> emitted (ps_step db) p ops = [] \<and> state_after (ps_step db) p ops = p"
  by (induction ops) (simp_all add: ps_step_def ps_call_terminal)

lemma ps_terminal_event:
  assumes "ps_step db p x = (Inr es, q)" and "e \<in> set es" and "te_type e = ''final'' \<or> te_type e = ''error''"
  shows "ps_terminal q \<or> (\<exists>m t c l d i y. x = PResult m t c l d i y) \<or> (\<exists>y. x = PSegment y)"
  using assms by (cases x)
    (auto simp: ps_step_def ps_ready_def ps_final_def ps_error_def ps_require_open_def
      ts_new_event_def ts_event_def serialize_def Let_def apfst_def map_prod_def
      split: prod.splits sum.splits option.splits if_splits)



text \<open>A start command the parser accepts asks for 16 kHz mono \<open>pcm_s16le\<close>, has a nonempty
  language of at most 32 characters and only known options; everything else is rejected with an
  exception, and the control commands are exactly segment, finish and abort.\<close>

theorem parse_client_command_sound:
  assumes "parse_client_command db str_of payload = Inr cmd"
  shows "(\<exists>obj. payload = JObj obj \<and>
     (case cmd of
        Start c \<Rightarrow> sc_language c \<noteq> [] \<and> length (sc_language c) \<le> 32 \<and>
          set (map fst (sc_options c)) \<subseteq> ALLOWED_OPTIONS \<and>
          sc_sample_rate c = 16000 \<and> sc_channels c = 1 \<and>
          json_eq_int (json_get obj ''sample_rate'' (JInt 16000)) 16000 \<and>
          json_eq_int (json_get obj ''channels'' (JInt 1)) 1
      | Control t \<Rightarrow> t \<in> {''segment'', ''finish'', ''abort''} \<and> json_get obj ''type'' JNull = JStr (lit t)))"
proof -
  obtain obj where obj: "payload = JObj obj"
    using assms by (cases payload) (auto simp: parse_client_command_def)
  show ?thesis
  proof (cases "json_get obj ''type'' JNull = JStr (lit ''start'')")
    case True
    with assms obj obtain c where "parse_start db str_of obj = Inr c" "cmd = Start c"
      by (auto simp: parse_client_command_def bind_result_eq_Inr)
    with obj show ?thesis
      by (auto simp: parse_start_def Let_def image_subset_iff split: if_splits json.splits)
  next
    case False
    with assms obj show ?thesis
      by (auto simp: parse_client_command_def Let_def split: if_splits)
  qed
qed

theorem parse_client_command_sound_witness:
  "\<exists>c. parse_client_command ascii_db (\<lambda>_. []) (JObj [(lit ''type'', JStr (lit ''start''))]) = Inr (Start c)
     \<and> length (sc_language c) \<le> 32"
proof -
  obtain c where c: "parse_client_command ascii_db (\<lambda>_. []) (JObj [(lit ''type'', JStr (lit ''start''))]) = Inr (Start c)"
    by (simp add: parse_client_command_def parse_start_def json_get_def json_str_def lit_def
        py_strip_def py_isspace_def ascii_db_def ALLOWED_OPTIONS_def)
  from parse_client_command_sound [OF c] c show ?thesis by auto
qed

text \<open>The parser's documented failure is \<open>ValueError\<close>, but a command whose type field is a list
  or an object raises \<open>TypeError\<close>, which neither handler of the WebSocket endpoint catches as an
  invalid command.\<close>

theorem parse_unhashable_type:
  assumes "map_of obj (lit ''type'') = Some (JList xs)"
  shows "parse_client_command db str_of (JObj obj) = Inl (TypeError ''unhashable type'')"
  using assms by (simp add: parse_client_command_def json_get_def hashable_def)

theorem parse_unhashable_type_witness:
  "map_of [(lit ''type'', JList [])] (lit ''type'') = Some (JList []) \<and>
   parse_client_command ascii_db (\<lambda>_. []) (JObj [(lit ''type'', JList [])]) = Inl (TypeError ''unhashable type'')"
  using parse_unhashable_type [of "[(lit ''type'', JList [])]" "[]"] by simp

end
