(* ===== verification/Vad.thy ===== *)
theory Vad
  imports Sentences
begin

text \<open>
  The streaming voice-activity endpoint detector of \<open>src/app/asr_vad.py\<close>: the five-state machine,
  its pre-roll, candidate and trailing buffers, the frame loop and the deterministic energy
  backend. The recurrent ONNX backend is a parameter: a backend is a pair of functions on its
  own state, and computing a probability may raise. The lemmas show that the detector accounts
  for every byte, follows the documented state machine and always returns.
\<close>

section \<open>States, decisions and backends\<close>

datatype VADEndpointState =
    WAITING_FOR_SPEECH | SPEECH_CANDIDATE | IN_SPEECH | TRAILING_SILENCE | FINALIZING

type_synonym vad_transition = "VADEndpointState \<times> VADEndpointState"

record VADDecision =
  audio_to_model :: pcm
  endpoint :: bool
  discarded_samples :: nat
  transitions :: "vad_transition list"

definition vad_decision_default :: VADDecision where
  "vad_decision_default =
     \<lparr>audio_to_model = [], endpoint = False, discarded_samples = 0, transitions = []\<rparr>"

record 'v VADBackend =
  speech_probability :: "'v \<Rightarrow> pcm \<Rightarrow> rat result \<times> 'v"
  backend_reset :: "'v \<Rightarrow> 'v"

text \<open>\<open>EnergyVADBackend\<close>: the root mean square exceeds the threshold. The comparison of the square
  root with the integer threshold is made exactly, on the squares.\<close>

definition energy_speech_probability :: "int \<Rightarrow> pcm \<Rightarrow> rat" where
  "energy_speech_probability rms_threshold p =
     (let sample_count = length p div 2
      in if sample_count = 0 then 0
         else if rms_threshold < 0 \<or>
                 rms_threshold * rms_threshold * int sample_count < total_square p then 1
         else 0)"

definition EnergyVADBackend :: "int VADBackend" where
  "EnergyVADBackend =
     \<lparr>speech_probability = (\<lambda>thr p. (Inr (energy_speech_probability thr p), thr)),
      backend_reset = (\<lambda>thr. thr)\<rparr>"

section \<open>The detector\<close>

record 'v StreamingVADEndpointDetector =
  vd_backend :: 'v
  vd_frame_samples :: nat
  vd_onset_threshold :: rat
  vd_offset_threshold :: rat
  vd_min_speech_samples :: nat
  vd_min_silence_samples :: nat
  vd_hangover_samples :: nat
  vd_pre_roll_samples :: nat
  vd_state :: VADEndpointState
  vd_input_buffer :: pcm
  vd_pre_roll :: pcm
  vd_candidate :: pcm
  vd_candidate_speech_samples :: nat
  vd_trailing :: pcm

definition vd_frame_bytes :: "'v StreamingVADEndpointDetector \<Rightarrow> nat" where
  "vd_frame_bytes d = vd_frame_samples d * 2"

definition milliseconds_to_samples :: "int \<Rightarrow> int \<Rightarrow> nat" where
  "milliseconds_to_samples sample_rate milliseconds =
     nat (max 1 (py_round (of_int (sample_rate * milliseconds) / 1000)))"

definition vd_init ::
  "'v \<Rightarrow> int \<Rightarrow> nat \<Rightarrow> rat \<Rightarrow> rat \<Rightarrow> int \<Rightarrow> int \<Rightarrow> int \<Rightarrow> int \<Rightarrow> 'v StreamingVADEndpointDetector" where
  "vd_init backend sample_rate frame_samples onset offset min_speech_ms min_silence_ms hangover_ms
     pre_roll_ms =
     \<lparr>vd_backend = backend, vd_frame_samples = frame_samples,
      vd_onset_threshold = onset, vd_offset_threshold = offset,
      vd_min_speech_samples = milliseconds_to_samples sample_rate min_speech_ms,
      vd_min_silence_samples = milliseconds_to_samples sample_rate min_silence_ms,
      vd_hangover_samples = milliseconds_to_samples sample_rate hangover_ms,
      vd_pre_roll_samples = milliseconds_to_samples sample_rate pre_roll_ms,
      vd_state = WAITING_FOR_SPEECH, vd_input_buffer = [], vd_pre_roll = [], vd_candidate = [],
      vd_candidate_speech_samples = 0, vd_trailing = []\<rparr>"

definition vd_transition ::
  "'v StreamingVADEndpointDetector \<Rightarrow> VADEndpointState \<Rightarrow>
   vad_transition \<times> 'v StreamingVADEndpointDetector" where
  "vd_transition d target = ((vd_state d, target), d\<lparr>vd_state := target\<rparr>)"

definition vd_append_pre_roll ::
  "'v StreamingVADEndpointDetector \<Rightarrow> pcm \<Rightarrow> nat \<times> 'v StreamingVADEndpointDetector" where
  "vd_append_pre_roll d audio =
     (let roll = vd_pre_roll d @ audio;
          max_bytes = vd_pre_roll_samples d * 2;
          discarded_bytes = length roll - max_bytes
      in (discarded_bytes div 2, d\<lparr>vd_pre_roll := drop discarded_bytes roll\<rparr>))"

type_synonym frame_outcome = "pcm \<times> bool \<times> nat \<times> vad_transition list"

text \<open>The end of \<open>_process_frame\<close>, reached from the speech and the trailing state: enough trailing
  silence closes the segment.\<close>

definition vd_close_trailing ::
  "'v StreamingVADEndpointDetector \<Rightarrow> vad_transition list \<Rightarrow>
   frame_outcome \<times> 'v StreamingVADEndpointDetector" where
  "vd_close_trailing d ts =
     (if length (vd_trailing d) div 2 < vd_min_silence_samples d then (([], False, 0, ts), d)
      else let trailing = vd_trailing d;
               keep_bytes = min (length trailing) (vd_hangover_samples d * 2);
               audio = take keep_bytes trailing;
               (discarded, d1) = vd_append_pre_roll (d\<lparr>vd_pre_roll := []\<rparr>) (drop keep_bytes trailing);
               (t, d2) = vd_transition (d1\<lparr>vd_trailing := []\<rparr>) FINALIZING
           in ((audio, True, discarded, ts @ [t]), d2))"

text \<open>A confirmed candidate goes to the model as a whole.\<close>

definition vd_promote_candidate ::
  "'v StreamingVADEndpointDetector \<Rightarrow> vad_transition list \<Rightarrow>
   frame_outcome \<times> 'v StreamingVADEndpointDetector" where
  "vd_promote_candidate d ts =
     (if vd_min_speech_samples d \<le> vd_candidate_speech_samples d then
        let (t, d1) = vd_transition d IN_SPEECH
        in ((vd_candidate d1, False, 0, ts @ [t]),
            d1\<lparr>vd_candidate := [], vd_candidate_speech_samples := 0\<rparr>)
      else (([], False, 0, ts), d))"

definition vd_process_frame ::
  "'v StreamingVADEndpointDetector \<Rightarrow> pcm \<Rightarrow> rat \<Rightarrow>
   frame_outcome \<times> 'v StreamingVADEndpointDetector" where
  "vd_process_frame d frame probability =
     (case vd_state d of
        WAITING_FOR_SPEECH \<Rightarrow>
          if vd_onset_threshold d \<le> probability then
            let (t, d1) = vd_transition (d\<lparr>vd_candidate := vd_pre_roll d @ frame, vd_pre_roll := [],
                            vd_candidate_speech_samples := vd_frame_samples d\<rparr>) SPEECH_CANDIDATE
            in vd_promote_candidate d1 [t]
          else let (discarded, d1) = vd_append_pre_roll d frame
               in (([], False, discarded, []), d1)
      | SPEECH_CANDIDATE \<Rightarrow>
          if vd_offset_threshold d \<le> probability then
            vd_promote_candidate (d\<lparr>vd_candidate := vd_candidate d @ frame,
              vd_candidate_speech_samples := vd_candidate_speech_samples d + vd_frame_samples d\<rparr>) []
          else let (discarded, d1) = vd_append_pre_roll d (vd_candidate d @ frame);
                   (t, d2) = vd_transition (d1\<lparr>vd_candidate := [],
                               vd_candidate_speech_samples := 0\<rparr>) WAITING_FOR_SPEECH
               in (([], False, discarded, [t]), d2)
      | IN_SPEECH \<Rightarrow>
          if vd_offset_threshold d \<le> probability then ((frame, False, 0, []), d)
          else let (t, d1) = vd_transition (d\<lparr>vd_trailing := frame\<rparr>) TRAILING_SILENCE
               in vd_close_trailing d1 [t]
      | TRAILING_SILENCE \<Rightarrow>
          if vd_offset_threshold d \<le> probability then
            let (t, d1) = vd_transition (d\<lparr>vd_trailing := []\<rparr>) IN_SPEECH
            in ((vd_trailing d @ frame, False, 0, [t]), d1)
          else vd_close_trailing (d\<lparr>vd_trailing := vd_trailing d @ frame\<rparr>) []
      | FINALIZING \<Rightarrow> vd_close_trailing d [])"

text \<open>The frame loop. A frame is taken off the input buffer before the backend sees it, so a raising
  backend has consumed it. With an empty frame the loop would not end: not returning is \<open>None\<close>.\<close>

partial_function (option) vd_drain_loop ::
  "'v VADBackend \<Rightarrow> 'v StreamingVADEndpointDetector \<Rightarrow> pcm \<Rightarrow> nat \<Rightarrow> vad_transition list \<Rightarrow>
   (VADDecision result \<times> 'v StreamingVADEndpointDetector) option" where
  "vd_drain_loop B d audio discarded ts =
     (if vd_state d = FINALIZING \<or> length (vd_input_buffer d) < vd_frame_bytes d then
        Some (Inr \<lparr>audio_to_model = audio, endpoint = False, discarded_samples = discarded,
                  transitions = ts\<rparr>, d)
      else let frame = take (vd_frame_bytes d) (vd_input_buffer d);
               d1 = d\<lparr>vd_input_buffer := drop (vd_frame_bytes d) (vd_input_buffer d)\<rparr>;
               p = speech_probability B (vd_backend d1) frame;
               d2 = d1\<lparr>vd_backend := snd p\<rparr>
           in case fst p of
                Inl e \<Rightarrow> Some (Inl e, d2)
              | Inr probability \<Rightarrow>
                  let r = vd_process_frame d2 frame probability;
                      audio' = audio @ fst (fst r);
                      discarded' = discarded + fst (snd (snd (fst r)));
                      ts' = ts @ snd (snd (snd (fst r)))
                  in if fst (snd (fst r)) then
                       Some (Inr \<lparr>audio_to_model = audio', endpoint = True,
                                 discarded_samples = discarded', transitions = ts'\<rparr>, snd r)
                     else vd_drain_loop B (snd r) audio' discarded' ts')"

definition vd_drain_complete_frames ::
  "'v VADBackend \<Rightarrow> 'v StreamingVADEndpointDetector \<Rightarrow> vad_transition list \<Rightarrow>
   (VADDecision result \<times> 'v StreamingVADEndpointDetector) option" where
  "vd_drain_complete_frames B d initial_transitions = vd_drain_loop B d [] 0 initial_transitions"

section \<open>Public operations\<close>

definition vd_add_audio ::
  "'v VADBackend \<Rightarrow> 'v StreamingVADEndpointDetector \<Rightarrow> pcm \<Rightarrow>
   (VADDecision result \<times> 'v StreamingVADEndpointDetector) option" where
  "vd_add_audio B d p =
     (if odd (length p) then Some (Inl (ValueError ''VAD audio must be aligned pcm_s16le''), d)
      else vd_drain_complete_frames B (d\<lparr>vd_input_buffer := vd_input_buffer d @ p\<rparr>) [])"

definition vd_endpoint_finalized ::
  "'v VADBackend \<Rightarrow> 'v StreamingVADEndpointDetector \<Rightarrow>
   (VADDecision result \<times> 'v StreamingVADEndpointDetector) option" where
  "vd_endpoint_finalized B d =
     (if vd_state d \<noteq> FINALIZING then Some (Inr vad_decision_default, d)
      else let (t, d1) = vd_transition d WAITING_FOR_SPEECH
           in vd_drain_complete_frames B (d1\<lparr>vd_backend := backend_reset B (vd_backend d1)\<rparr>) [t])"

definition vd_reset ::
  "'v VADBackend \<Rightarrow> 'v StreamingVADEndpointDetector \<Rightarrow> 'v StreamingVADEndpointDetector" where
  "vd_reset B d = d\<lparr>vd_state := WAITING_FOR_SPEECH, vd_input_buffer := [], vd_pre_roll := [],
     vd_candidate := [], vd_candidate_speech_samples := 0, vd_trailing := [],
     vd_backend := backend_reset B (vd_backend d)\<rparr>"

text \<open>\<open>finish_input\<close> after its drain: what is left is handed to the model or discarded by state.\<close>

definition vd_flush ::
  "'v StreamingVADEndpointDetector \<Rightarrow> VADDecision \<Rightarrow>
   VADDecision \<times> 'v StreamingVADEndpointDetector" where
  "vd_flush d decision =
     (let audio = audio_to_model decision;
          (audio', discarded, ts, d1) =
            (case vd_state d of
               IN_SPEECH \<Rightarrow> (audio @ vd_input_buffer d, discarded_samples decision, transitions decision, d)
             | TRAILING_SILENCE \<Rightarrow>
                 let remaining_hangover = vd_hangover_samples d - length audio div 2;
                     keep_bytes = min (length (vd_trailing d)) (remaining_hangover * 2)
                 in (audio @ take keep_bytes (vd_trailing d),
                     discarded_samples decision + (length (vd_trailing d) - keep_bytes) div 2
                       + length (vd_input_buffer d) div 2, transitions decision, d)
             | SPEECH_CANDIDATE \<Rightarrow>
                 let (t, d') = vd_transition d WAITING_FOR_SPEECH
                 in (audio, discarded_samples decision + length (vd_input_buffer d) div 2
                       + length (vd_candidate d) div 2, transitions decision @ [t], d')
             | _ \<Rightarrow> (audio, discarded_samples decision + length (vd_input_buffer d) div 2,
                     transitions decision, d))
      in (\<lparr>audio_to_model = audio', endpoint = False,
           discarded_samples = discarded + length (vd_pre_roll d) div 2, transitions = ts\<rparr>,
          d1\<lparr>vd_input_buffer := [], vd_pre_roll := [], vd_candidate := [],
             vd_candidate_speech_samples := 0, vd_trailing := []\<rparr>))"

definition vd_finish_input ::
  "'v VADBackend \<Rightarrow> 'v StreamingVADEndpointDetector \<Rightarrow>
   (VADDecision result \<times> 'v StreamingVADEndpointDetector) option" where
  "vd_finish_input B d =
     (case vd_drain_complete_frames B d [] of
        None \<Rightarrow> None
      | Some (Inl e, d1) \<Rightarrow> Some (Inl e, d1)
      | Some (Inr decision, d1) \<Rightarrow>
          (case vd_flush d1 decision of (r, d2) \<Rightarrow> Some (Inr r, d2)))"

section \<open>Invariant and accounting\<close>

definition vd_buffers :: "'v StreamingVADEndpointDetector \<Rightarrow> pcm" where
  "vd_buffers d = vd_pre_roll d @ vd_candidate d @ vd_trailing d"

definition vd_held :: "'v StreamingVADEndpointDetector \<Rightarrow> pcm" where
  "vd_held d = vd_buffers d @ vd_input_buffer d"

definition vd_inv :: "'v StreamingVADEndpointDetector \<Rightarrow> bool" where
  "vd_inv d \<longleftrightarrow>
     even (length (vd_input_buffer d)) \<and> even (length (vd_pre_roll d)) \<and>
     even (length (vd_candidate d)) \<and> even (length (vd_trailing d)) \<and>
     length (vd_pre_roll d) \<le> 2 * vd_pre_roll_samples d \<and>
     length (vd_candidate d) \<le> 2 * (vd_pre_roll_samples d + vd_candidate_speech_samples d) \<and>
     vd_candidate_speech_samples d < vd_min_speech_samples d \<and>
     length (vd_trailing d) div 2 < vd_min_silence_samples d \<and>
     (vd_state d \<in> {WAITING_FOR_SPEECH, FINALIZING} \<or> vd_pre_roll d = []) \<and>
     (vd_state d = SPEECH_CANDIDATE \<or> vd_candidate d = [] \<and> vd_candidate_speech_samples d = 0) \<and>
     (vd_state d = TRAILING_SILENCE \<or> vd_trailing d = [])"

text \<open>The edges of the state machine, and a reported transition sequence as a path along them.\<close>

definition vad_edges :: "vad_transition list" where
  "vad_edges =
     [(WAITING_FOR_SPEECH, SPEECH_CANDIDATE), (SPEECH_CANDIDATE, IN_SPEECH),
      (SPEECH_CANDIDATE, WAITING_FOR_SPEECH), (IN_SPEECH, TRAILING_SILENCE),
      (TRAILING_SILENCE, IN_SPEECH), (TRAILING_SILENCE, FINALIZING),
      (FINALIZING, WAITING_FOR_SPEECH)]"

fun vad_path :: "VADEndpointState \<Rightarrow> vad_transition list \<Rightarrow> VADEndpointState \<Rightarrow> bool" where
  "vad_path s [] t \<longleftrightarrow> s = t"
| "vad_path s ((a, b) # ts) t \<longleftrightarrow> a = s \<and> (a, b) \<in> set vad_edges \<and> vad_path b ts t"

lemma vad_path_append:
  "vad_path s (ts @ us) t \<longleftrightarrow> (\<exists>m. vad_path s ts m \<and> vad_path m us t)"
  by (induction s ts t rule: vad_path.induct) auto

definition same_limits ::
  "'v StreamingVADEndpointDetector \<Rightarrow> 'v StreamingVADEndpointDetector \<Rightarrow> bool" where
  "same_limits d d' \<longleftrightarrow>
     vd_frame_samples d' = vd_frame_samples d \<and> vd_pre_roll_samples d' = vd_pre_roll_samples d \<and>
     vd_min_speech_samples d' = vd_min_speech_samples d \<and>
     vd_min_silence_samples d' = vd_min_silence_samples d"

lemma same_limits_refl [simp]: "same_limits d d"
  by (simp add: same_limits_def)

lemma same_limits_trans: "same_limits d e \<Longrightarrow> same_limits e f \<Longrightarrow> same_limits d f"
  by (simp add: same_limits_def)

text \<open>\<open>moved a n old new\<close>: the bytes \<open>old\<close> became \<open>new\<close> by taking off the front an interleaving of
  the bytes \<open>a\<close> handed to the model and of \<open>n\<close> discarded samples.\<close>

definition moved :: "pcm \<Rightarrow> nat \<Rightarrow> pcm \<Rightarrow> pcm \<Rightarrow> bool" where
  "moved a n old new \<longleftrightarrow>
     (\<exists>w dis. old = w @ new \<and> w \<in> shuffles a dis \<and> length dis = 2 * n)"

lemma movedI: "old = w @ new \<Longrightarrow> w \<in> shuffles a dis \<Longrightarrow> length dis = 2 * n \<Longrightarrow> moved a n old new"
  unfolding moved_def by blast

lemma moved_refl [simp]: "moved [] 0 old old"
  by (rule movedI [of _ "[]" _ _ "[]"]) simp_all

lemma moved_all: "moved a 0 (a @ new) new"
  by (rule movedI [of _ a _ _ "[]"]) simp_all

lemma moved_discard: "length dis = 2 * n \<Longrightarrow> moved [] n (dis @ new) new"
  by (rule movedI [of _ dis _ _ dis]) simp_all

lemma moved_trans:
  assumes "moved a n x y" and "moved b m y z"
  shows "moved (a @ b) (n + m) x z"
proof -
  from assms obtain w dis v dis' where
    "x = w @ y" "w \<in> shuffles a dis" "length dis = 2 * n"
    "y = v @ z" "v \<in> shuffles b dis'" "length dis' = 2 * m"
    unfolding moved_def by blast
  then show ?thesis
    by (intro movedI [of _ "w @ v" _ _ "dis @ dis'"]) (simp_all add: shuffles_append_both)
qed

lemma moved_append: "moved a n x y \<Longrightarrow> moved a n (x @ z) (y @ z)"
  unfolding moved_def by (auto simp: append_assoc [symmetric] simp del: append_assoc)

lemma append_pre_roll_moved:
  assumes "even (length (vd_pre_roll d))" and "even (length p)"
    and "vd_append_pre_roll d p = (n, d')"
  shows "moved [] n (vd_pre_roll d @ p) (vd_pre_roll d')"
    and "even (length (vd_pre_roll d'))" and "length (vd_pre_roll d') \<le> 2 * vd_pre_roll_samples d"
    and "d' = d\<lparr>vd_pre_roll := vd_pre_roll d'\<rparr>"
proof -
  let ?k = "length (vd_pre_roll d @ p) - vd_pre_roll_samples d * 2"
  from assms(3) have n: "n = ?k div 2" and d': "d' = d\<lparr>vd_pre_roll := drop ?k (vd_pre_roll d @ p)\<rparr>"
    unfolding vd_append_pre_roll_def Let_def prod.inject by blast+
  have ev: "even ?k" using assms(1,2) by simp
  have "moved [] n (take ?k (vd_pre_roll d @ p) @ drop ?k (vd_pre_roll d @ p)) (drop ?k (vd_pre_roll d @ p))"
    by (rule moved_discard) (use n ev in \<open>simp only: length_take; simp\<close>)
  then show "moved [] n (vd_pre_roll d @ p) (vd_pre_roll d')"
    unfolding append_take_drop_id d' by simp
  show "even (length (vd_pre_roll d'))" using ev assms(1,2) unfolding d' by simp
  show "length (vd_pre_roll d') \<le> 2 * vd_pre_roll_samples d" unfolding d' by simp
  show "d' = d\<lparr>vd_pre_roll := vd_pre_roll d'\<rparr>" unfolding d' by simp
qed

text \<open>The contract of one frame: the bytes the buffers held followed by the frame are what went out
  followed by what the buffers hold now, along edges of the state machine.\<close>

definition frame_ok ::
  "'v StreamingVADEndpointDetector \<Rightarrow> VADEndpointState \<Rightarrow> pcm \<Rightarrow>
   frame_outcome \<times> 'v StreamingVADEndpointDetector \<Rightarrow> bool" where
  "frame_ok d s0 old r \<longleftrightarrow>
     (case r of ((audio, ep, n, ts), d') \<Rightarrow>
        vd_inv d' \<and> moved audio n old (vd_buffers d') \<and> vd_input_buffer d' = vd_input_buffer d \<and>
        vad_path s0 ts (vd_state d') \<and> (ep \<longleftrightarrow> vd_state d' = FINALIZING) \<and> same_limits d d')"

lemma close_trailing_ok:
  assumes st: "vd_state d = TRAILING_SILENCE" "vd_pre_roll d = []" "vd_candidate d = []"
    "vd_candidate_speech_samples d = 0" "0 < vd_min_speech_samples d" "0 < vd_min_silence_samples d"
    and ev: "even (length (vd_trailing d))" "even (length (vd_input_buffer d))"
    and path: "vad_path s0 ts TRAILING_SILENCE"
  shows "frame_ok d s0 (vd_trailing d) (vd_close_trailing d ts)"
proof (cases "length (vd_trailing d) div 2 < vd_min_silence_samples d")
  case True
  with assms show ?thesis
    by (simp add: frame_ok_def vd_close_trailing_def vd_inv_def vd_buffers_def)
next
  case False
  let ?k = "min (length (vd_trailing d)) (vd_hangover_samples d * 2)"
  obtain n d1 where d1: "vd_append_pre_roll (d\<lparr>vd_pre_roll := []\<rparr>) (drop ?k (vd_trailing d)) = (n, d1)"
    by (cases "vd_append_pre_roll (d\<lparr>vd_pre_roll := []\<rparr>) (drop ?k (vd_trailing d))")
  have evk: "even ?k" using ev(1) by (simp add: min_def)
  note roll = append_pre_roll_moved [OF _ _ d1]
  have mv: "moved [] n (drop ?k (vd_trailing d)) (vd_pre_roll d1)"
    and r: "even (length (vd_pre_roll d1))" "length (vd_pre_roll d1) \<le> 2 * vd_pre_roll_samples d"
    and eq: "d1 = d\<lparr>vd_pre_roll := vd_pre_roll d1\<rparr>"
    using roll ev(1) evk by (simp_all add: min_def)
  have tk: "moved (take ?k (vd_trailing d)) 0 (vd_trailing d) (drop ?k (vd_trailing d))"
    using moved_all [of "take ?k (vd_trailing d)" "drop ?k (vd_trailing d)"]
    by (simp only: append_take_drop_id)
  have all: "moved (take ?k (vd_trailing d)) n (vd_trailing d) (vd_pre_roll d1)"
    using moved_trans [OF tk mv] by simp
  have s1: "vd_state d1 = TRAILING_SILENCE" by (subst eq) (simp add: st(1))
  have "vd_close_trailing d ts =
      ((take ?k (vd_trailing d), True, n, ts @ [(TRAILING_SILENCE, FINALIZING)]),
       d1\<lparr>vd_trailing := [], vd_state := FINALIZING\<rparr>)"
    using False d1 s1 by (simp add: vd_close_trailing_def vd_transition_def Let_def)
  moreover have "d1\<lparr>vd_trailing := [], vd_state := FINALIZING\<rparr> =
      d\<lparr>vd_pre_roll := vd_pre_roll d1, vd_trailing := [], vd_state := FINALIZING\<rparr>"
    by (subst eq) simp
  ultimately show ?thesis
    using all r assms
    by (auto simp: frame_ok_def vd_inv_def vd_buffers_def vad_path_append vad_edges_def same_limits_def)
qed

lemma promote_candidate_ok:
  assumes st: "vd_state d = SPEECH_CANDIDATE" "vd_pre_roll d = []" "vd_trailing d = []"
    "0 < vd_min_speech_samples d" "0 < vd_min_silence_samples d"
    "length (vd_candidate d) \<le> 2 * (vd_pre_roll_samples d + vd_candidate_speech_samples d)"
    and ev: "even (length (vd_candidate d))" "even (length (vd_input_buffer d))"
    and path: "vad_path s0 ts SPEECH_CANDIDATE"
  shows "frame_ok d s0 (vd_candidate d) (vd_promote_candidate d ts)"
proof (cases "vd_min_speech_samples d \<le> vd_candidate_speech_samples d")
  case True
  have "moved (vd_candidate d) 0 (vd_candidate d) []"
    using moved_all [of "vd_candidate d" "[]"] by simp
  with True assms show ?thesis
    by (auto simp: frame_ok_def vd_promote_candidate_def vd_transition_def vd_inv_def vd_buffers_def
        vad_path_append vad_edges_def same_limits_def)
next
  case False
  with assms show ?thesis
    by (simp add: frame_ok_def vd_promote_candidate_def vd_inv_def vd_buffers_def)
qed

text \<open>A pre-roll append that returns to (or stays in) the waiting state.\<close>

lemma pre_roll_ok:
  assumes inv: "vd_inv d" and ev: "even (length p)"
    and old: "old = vd_pre_roll d @ p" and trail: "vd_trailing d = []"
    and path: "vad_path s0 ts WAITING_FOR_SPEECH"
    and d1: "vd_append_pre_roll d p = (n, d1)"
  shows "frame_ok d s0 old (([], False, n, ts),
     d1\<lparr>vd_candidate := [], vd_candidate_speech_samples := 0, vd_state := WAITING_FOR_SPEECH\<rparr>)"
proof -
  have pe: "even (length (vd_pre_roll d))" using inv by (simp add: vd_inv_def)
  note roll = append_pre_roll_moved [OF pe ev d1]
  have "d1\<lparr>vd_candidate := [], vd_candidate_speech_samples := 0, vd_state := WAITING_FOR_SPEECH\<rparr> =
      d\<lparr>vd_pre_roll := vd_pre_roll d1, vd_candidate := [], vd_candidate_speech_samples := 0,
        vd_state := WAITING_FOR_SPEECH\<rparr>"
    by (subst roll(4)) simp
  with roll(1-3) inv old trail path show ?thesis
    by (auto simp: frame_ok_def vd_inv_def vd_buffers_def same_limits_def)
qed

text \<open>One lemma per state for a frame of the detector's frame size.\<close>

lemma waiting_frame_ok:
  assumes inv: "vd_inv d" and st: "vd_state d = WAITING_FOR_SPEECH"
    and fr: "length frame = vd_frame_bytes d"
  shows "frame_ok d WAITING_FOR_SPEECH (vd_buffers d @ frame) (vd_process_frame d frame probability)"
proof (cases "vd_onset_threshold d \<le> probability")
  case True
  let ?d1 = "d\<lparr>vd_candidate := vd_pre_roll d @ frame, vd_pre_roll := [],
    vd_candidate_speech_samples := vd_frame_samples d, vd_state := SPEECH_CANDIDATE\<rparr>"
  have "frame_ok ?d1 WAITING_FOR_SPEECH (vd_candidate ?d1)
      (vd_promote_candidate ?d1 [(WAITING_FOR_SPEECH, SPEECH_CANDIDATE)])"
    by (rule promote_candidate_ok)
      (use inv fr st in \<open>auto simp: vd_inv_def vad_edges_def vd_frame_bytes_def\<close>)
  with True inv st show ?thesis
    by (auto simp: frame_ok_def vd_process_frame_def vd_transition_def vd_buffers_def vd_inv_def
        same_limits_def)
next
  case False
  have ev: "even (length frame)" using fr by (simp add: vd_frame_bytes_def)
  obtain n d1 where d1: "vd_append_pre_roll d frame = (n, d1)"
    by (cases "vd_append_pre_roll d frame")
  have "d1 = d1\<lparr>vd_candidate := [], vd_candidate_speech_samples := 0, vd_state := WAITING_FOR_SPEECH\<rparr>"
    using d1 inv st by (auto simp: vd_append_pre_roll_def Let_def vd_inv_def)
  with False inv st d1 pre_roll_ok [OF inv ev refl _ _ d1, of WAITING_FOR_SPEECH "[]"] show ?thesis
    by (simp add: vd_process_frame_def vd_buffers_def vd_inv_def)
qed

lemma candidate_frame_ok:
  assumes inv: "vd_inv d" and st: "vd_state d = SPEECH_CANDIDATE"
    and fr: "length frame = vd_frame_bytes d"
  shows "frame_ok d SPEECH_CANDIDATE (vd_buffers d @ frame) (vd_process_frame d frame probability)"
proof (cases "vd_offset_threshold d \<le> probability")
  case True
  let ?d1 = "d\<lparr>vd_candidate := vd_candidate d @ frame,
    vd_candidate_speech_samples := vd_candidate_speech_samples d + vd_frame_samples d\<rparr>"
  have "frame_ok ?d1 SPEECH_CANDIDATE (vd_candidate ?d1) (vd_promote_candidate ?d1 [])"
    by (rule promote_candidate_ok) (use inv fr st in \<open>auto simp: vd_inv_def vd_frame_bytes_def\<close>)
  with True inv st show ?thesis
    by (auto simp: frame_ok_def vd_process_frame_def vd_buffers_def vd_inv_def same_limits_def)
next
  case False
  obtain n d1 where d1: "vd_append_pre_roll d (vd_candidate d @ frame) = (n, d1)"
    by (cases "vd_append_pre_roll d (vd_candidate d @ frame)")
  have "vd_state d1 = SPEECH_CANDIDATE"
    using d1 st by (auto simp: vd_append_pre_roll_def Let_def)
  moreover have "even (length (vd_candidate d @ frame))"
    using inv fr by (simp add: vd_inv_def vd_frame_bytes_def)
  ultimately show ?thesis
    using False inv st d1
      pre_roll_ok [OF inv _ refl _ _ d1, of SPEECH_CANDIDATE "[(SPEECH_CANDIDATE, WAITING_FOR_SPEECH)]"]
    by (simp add: vd_process_frame_def vd_buffers_def vd_inv_def vd_transition_def vad_edges_def)
qed

lemma speech_frame_ok:
  assumes inv: "vd_inv d" and st: "vd_state d = IN_SPEECH" and fr: "length frame = vd_frame_bytes d"
  shows "frame_ok d IN_SPEECH (vd_buffers d @ frame) (vd_process_frame d frame probability)"
proof -
  let ?d1 = "d\<lparr>vd_trailing := frame, vd_state := TRAILING_SILENCE\<rparr>"
  have "frame_ok ?d1 IN_SPEECH (vd_trailing ?d1)
      (vd_close_trailing ?d1 [(IN_SPEECH, TRAILING_SILENCE)])"
    by (rule close_trailing_ok)
      (use inv fr st in \<open>auto simp: vd_inv_def vad_edges_def vd_frame_bytes_def\<close>)
  moreover have "moved frame 0 frame []" using moved_all [of frame "[]"] by simp
  ultimately show ?thesis
    using inv st
    by (auto simp: frame_ok_def vd_process_frame_def vd_transition_def vd_buffers_def vd_inv_def
        same_limits_def)
qed

lemma trailing_frame_ok:
  assumes inv: "vd_inv d" and st: "vd_state d = TRAILING_SILENCE"
    and fr: "length frame = vd_frame_bytes d"
  shows "frame_ok d TRAILING_SILENCE (vd_buffers d @ frame) (vd_process_frame d frame probability)"
proof -
  let ?d1 = "d\<lparr>vd_trailing := vd_trailing d @ frame\<rparr>"
  have "frame_ok ?d1 TRAILING_SILENCE (vd_trailing ?d1) (vd_close_trailing ?d1 [])"
    by (rule close_trailing_ok)
      (use inv fr st in \<open>auto simp: vd_inv_def vad_edges_def vd_frame_bytes_def\<close>)
  moreover have "moved (vd_trailing d @ frame) 0 (vd_trailing d @ frame) []"
    using moved_all [of "vd_trailing d @ frame" "[]"] by simp
  ultimately show ?thesis
    using inv st
    by (auto simp: frame_ok_def vd_process_frame_def vd_transition_def vd_buffers_def vd_inv_def
        same_limits_def vad_edges_def)
qed

lemma process_frame_ok:
  assumes "vd_inv d" and "vd_state d \<noteq> FINALIZING" and "length frame = vd_frame_bytes d"
  shows "frame_ok d (vd_state d) (vd_buffers d @ frame) (vd_process_frame d frame probability)"
  using assms waiting_frame_ok candidate_frame_ok speech_frame_ok trailing_frame_ok
  by (cases "vd_state d") simp_all

section \<open>The frame loop\<close>

text \<open>What a drain promises: it keeps the invariant, and when it returns a decision the held bytes
  went to the model, to the discard count or are still held, the reported transitions are a path,
  and no complete frame waits unless an endpoint is pending.\<close>

definition drained ::
  "'v StreamingVADEndpointDetector \<Rightarrow> pcm \<Rightarrow> nat \<Rightarrow> vad_transition list \<Rightarrow>
   VADDecision result \<times> 'v StreamingVADEndpointDetector \<Rightarrow> bool" where
  "drained d audio n ts r \<longleftrightarrow>
     (case r of (res, d') \<Rightarrow> vd_inv d' \<and> same_limits d d' \<and>
        (case res of Inl e \<Rightarrow> True
         | Inr dec \<Rightarrow> (\<exists>a m us. audio_to_model dec = audio @ a \<and> discarded_samples dec = n + m \<and>
             transitions dec = ts @ us \<and> moved a m (vd_held d) (vd_held d') \<and>
             vad_path (vd_state d) us (vd_state d')) \<and>
             (endpoint dec \<longleftrightarrow> vd_state d \<noteq> FINALIZING \<and> vd_state d' = FINALIZING) \<and>
             (vd_state d' = FINALIZING \<or> length (vd_input_buffer d') < vd_frame_bytes d')))"

lemma drained_after_frame:
  assumes "vd_held d = vd_buffers d2 @ frame @ vd_input_buffer d2"
    and fo: "frame_ok d2 (vd_state d) (vd_buffers d2 @ frame) ((a, ep, m, us), d3)"
    and "same_limits d d2" and st: "vd_state d \<noteq> FINALIZING" "vd_state d3 \<noteq> FINALIZING"
    and dr: "drained d3 (audio @ a) (n + m) (ts @ us) r"
  shows "drained d audio n ts r"
proof -
  obtain res d' where r: "r = (res, d')" by (cases r)
  have mv: "moved a m (vd_held d) (vd_held d3)"
    using assms(1) fo moved_append [of a m "vd_buffers d2 @ frame" "vd_buffers d3" "vd_input_buffer d2"]
    by (auto simp: frame_ok_def vd_held_def)
  have p: "vad_path (vd_state d) us (vd_state d3)" and sl: "same_limits d d3"
    using fo same_limits_trans [OF assms(3)] by (auto simp: frame_ok_def)
  show ?thesis
  proof (cases res)
    case (Inl e)
    with dr r sl show ?thesis by (auto simp: drained_def intro: same_limits_trans)
  next
    case (Inr dec)
    with dr r obtain b k vs where b: "audio_to_model dec = (audio @ a) @ b"
      "discarded_samples dec = (n + m) + k" "transitions dec = (ts @ us) @ vs"
      "moved b k (vd_held d3) (vd_held d')" "vad_path (vd_state d3) vs (vd_state d')"
      unfolding drained_def by auto
    have "moved (a @ b) (m + k) (vd_held d) (vd_held d')" by (rule moved_trans [OF mv b(4)])
    moreover have "vad_path (vd_state d) (us @ vs) (vd_state d')"
      using p b(5) by (auto simp: vad_path_append)
    ultimately show ?thesis
      using dr r Inr b(1-3) st same_limits_trans [OF sl]
      by (auto simp: drained_def intro!: exI [of _ "a @ b"] exI [of _ "m + k"] exI [of _ "us @ vs"])
  qed
qed

lemma drain_loop_drained:
  assumes "vd_inv d" and "0 < vd_frame_samples d"
  shows "\<exists>r. vd_drain_loop B d audio n ts = Some r \<and> drained d audio n ts r"
  using assms
proof (induction "length (vd_input_buffer d)" arbitrary: d audio n ts rule: less_induct)
  case less
  note unfold = vd_drain_loop.simps [of B d audio n ts]
  show ?case
  proof (cases "vd_state d = FINALIZING \<or> length (vd_input_buffer d) < vd_frame_bytes d")
    case True
    then show ?thesis
      using less.prems by (subst unfold) (auto simp: drained_def)
  next
    case False
    define frame where "frame = take (vd_frame_bytes d) (vd_input_buffer d)"
    define d1 where "d1 = d\<lparr>vd_input_buffer := drop (vd_frame_bytes d) (vd_input_buffer d)\<rparr>"
    obtain res v where pr: "speech_probability B (vd_backend d1) frame = (res, v)"
      by (cases "speech_probability B (vd_backend d1) frame")
    define d2 where "d2 = d1\<lparr>vd_backend := v\<rparr>"
    have inv2: "vd_inv d2" and sl: "same_limits d d2" and st2: "vd_state d2 = vd_state d"
      and len: "length frame = vd_frame_bytes d2" and inp: "vd_input_buffer d2 = drop (vd_frame_bytes d) (vd_input_buffer d)"
      and held: "vd_held d = vd_buffers d2 @ frame @ vd_input_buffer d2"
      using less.prems(1) False
      by (simp_all add: vd_inv_def same_limits_def d2_def d1_def frame_def vd_frame_bytes_def
          vd_held_def vd_buffers_def)
    show ?thesis
    proof (cases res)
      case (Inl e)
      have "vd_drain_loop B d audio n ts = Some (Inl e, d2)"
        using False pr Inl by (subst unfold) (simp add: Let_def d1_def d2_def frame_def)
      then show ?thesis using inv2 sl by (simp add: drained_def)
    next
      case (Inr probability)
      obtain a ep m us d3 where pf: "vd_process_frame d2 frame probability = ((a, ep, m, us), d3)"
        by (metis prod_cases5 prod.exhaust)
      have fo: "frame_ok d2 (vd_state d) (vd_buffers d2 @ frame) ((a, ep, m, us), d3)"
        using process_frame_ok [OF inv2 _ len, of probability] False st2 pf by simp
      have step: "vd_drain_loop B d audio n ts =
          (if ep then Some (Inr \<lparr>audio_to_model = audio @ a, endpoint = True,
              discarded_samples = n + m, transitions = ts @ us\<rparr>, d3)
           else vd_drain_loop B d3 (audio @ a) (n + m) (ts @ us))"
        using False pr Inr pf by (subst unfold) (simp add: Let_def d1_def [symmetric] d2_def frame_def)
      show ?thesis
      proof (cases ep)
        case True
        have "moved a m (vd_held d) (vd_held d3)"
          using held fo moved_append [of a m "vd_buffers d2 @ frame" "vd_buffers d3" "vd_input_buffer d2"]
          by (auto simp: frame_ok_def vd_held_def)
        then show ?thesis
          using step True fo sl False
          by (auto simp: drained_def frame_ok_def intro: same_limits_trans)
      next
        case ne: False
        have "length (vd_input_buffer d3) < length (vd_input_buffer d)"
          using fo inp False less.prems(2) by (auto simp: frame_ok_def vd_frame_bytes_def)
        moreover have "vd_inv d3" "0 < vd_frame_samples d3"
          using fo sl less.prems(2) by (auto simp: frame_ok_def same_limits_def)
        ultimately obtain r where "vd_drain_loop B d3 (audio @ a) (n + m) (ts @ us) = Some r"
          "drained d3 (audio @ a) (n + m) (ts @ us) r"
          using less.hyps by blast
        moreover have "vd_state d3 \<noteq> FINALIZING" using fo ne by (simp add: frame_ok_def)
        ultimately show ?thesis
          using step ne drained_after_frame [OF held fo sl] False by auto
      qed
    qed
  qed
qed

section \<open>Public operations\<close>

datatype vd_op = AddAudio pcm | EndpointFinalized | FinishInput

fun vd_step ::
  "'v VADBackend \<Rightarrow> 'v StreamingVADEndpointDetector \<Rightarrow> vd_op \<Rightarrow>
   (VADDecision result \<times> 'v StreamingVADEndpointDetector) option" where
  "vd_step B d (AddAudio p) = vd_add_audio B d p"
| "vd_step B d EndpointFinalized = vd_endpoint_finalized B d"
| "vd_step B d FinishInput = vd_finish_input B d"

fun vd_brought :: "vd_op \<Rightarrow> pcm" where
  "vd_brought (AddAudio p) = p"
| "vd_brought _ = []"

lemma vd_init_inv:
  "vd_inv (vd_init b rate fs on off sp si ha pre)"
  by (simp add: vd_inv_def vd_init_def milliseconds_to_samples_def less_max_iff_disj)

lemma vd_reset_inv: "vd_inv d \<Longrightarrow> vd_inv (vd_reset B d)"
  by (auto simp: vd_inv_def vd_reset_def)

lemma drainedE:
  assumes "drained d [] 0 ts (Inr dec, d')"
  obtains us where "vd_inv d'" "same_limits d d'" "transitions dec = ts @ us"
    "moved (audio_to_model dec) (discarded_samples dec) (vd_held d) (vd_held d')"
    "vad_path (vd_state d) us (vd_state d')"
    "endpoint dec \<longleftrightarrow> vd_state d \<noteq> FINALIZING \<and> vd_state d' = FINALIZING"
    "vd_state d' = FINALIZING \<or> length (vd_input_buffer d') < vd_frame_bytes d'"
  using assms by (auto simp: drained_def)

lemma drained_Nil:
  "drained d [] 0 [] (Inr dec, d') \<longleftrightarrow> vd_inv d' \<and> same_limits d d' \<and>
     moved (audio_to_model dec) (discarded_samples dec) (vd_held d) (vd_held d') \<and>
     vad_path (vd_state d) (transitions dec) (vd_state d') \<and>
     (endpoint dec \<longleftrightarrow> vd_state d \<noteq> FINALIZING \<and> vd_state d' = FINALIZING) \<and>
     (vd_state d' = FINALIZING \<or> length (vd_input_buffer d') < vd_frame_bytes d')"
  by (auto simp: drained_def)

text \<open>The last part of \<open>finish_input\<close> empties every buffer and accounts for each byte of it.\<close>

lemma even_double_div: "even n \<Longrightarrow> 2 * (n div 2) = (n::nat)"
  by simp

definition flushed ::
  "'v StreamingVADEndpointDetector \<Rightarrow> VADDecision \<Rightarrow> VADDecision \<Rightarrow> 'v StreamingVADEndpointDetector \<Rightarrow>
   pcm \<Rightarrow> nat \<Rightarrow> vad_transition list \<Rightarrow> bool" where
  "flushed d dec r d' a m us \<longleftrightarrow>
     audio_to_model r = audio_to_model dec @ a \<and> discarded_samples r = discarded_samples dec + m \<and>
     transitions r = transitions dec @ us \<and> moved a m (vd_held d) [] \<and>
     vad_path (vd_state d) us (vd_state d')"

lemma flush_empties:
  assumes "vd_inv d" and "vd_flush d dec = (r, d')"
  shows "vd_inv d' \<and> vd_held d' = [] \<and> \<not> endpoint r \<and> same_limits d d'"
proof -
  from assms(2) have eqs: "r = fst (vd_flush d dec)" "d' = snd (vd_flush d dec)" by simp_all
  from assms(1) show ?thesis
    unfolding eqs vd_inv_def
    by (cases "vd_state d") (simp_all add: vd_flush_def vd_held_def vd_buffers_def
        vd_transition_def same_limits_def Let_def)
qed

lemma moved_drop_all: "even (length x) \<Longrightarrow> moved [] (length x div 2) x []"
  using moved_discard [of x "length x div 2" "[]"] by simp

lemma flush_accounts:
  assumes inv: "vd_inv d" and fl: "vd_flush d dec = (r, d')"
  shows "\<exists>a m us. flushed d dec r d' a m us"
proof -
  let ?i = "vd_input_buffer d"
  from fl have eqs: "r = fst (vd_flush d dec)" "d' = snd (vd_flush d dec)" by simp_all
  have ev: "even (length ?i)" "even (length (vd_pre_roll d))" "even (length (vd_candidate d))"
    "even (length (vd_trailing d))"
    using inv by (simp_all add: vd_inv_def)
  have two: "moved [] (length ?i div 2 + length x div 2) (x @ ?i) []" if "even (length x)" for x
    using moved_drop_all [of "x @ ?i"] ev(1) that
    by (simp add: div_plus_div_distrib_dvd_left add.commute)
  have heldv: "vd_held d = vd_pre_roll d @ vd_candidate d @ vd_trailing d @ ?i"
    by (simp add: vd_held_def vd_buffers_def)
  show ?thesis
  proof (cases "vd_state d")
    case WAITING_FOR_SPEECH
    with inv two [OF ev(2)] have "flushed d dec r d' [] (length ?i div 2 + length (vd_pre_roll d) div 2) []"
      unfolding eqs by (simp add: flushed_def vd_flush_def heldv vd_inv_def)
    then show ?thesis by blast
  next
    case FINALIZING
    with inv two [OF ev(2)] have "flushed d dec r d' [] (length ?i div 2 + length (vd_pre_roll d) div 2) []"
      unfolding eqs by (simp add: flushed_def vd_flush_def heldv vd_inv_def)
    then show ?thesis by blast
  next
    case SPEECH_CANDIDATE
    with inv two [OF ev(3)] have "flushed d dec r d' [] (length ?i div 2 + length (vd_candidate d) div 2)
        [(SPEECH_CANDIDATE, WAITING_FOR_SPEECH)]"
      unfolding eqs by (simp add: flushed_def vd_flush_def heldv vd_inv_def vd_transition_def vad_edges_def)
    then show ?thesis by blast
  next
    case IN_SPEECH
    with inv moved_all [of ?i "[]"] have "flushed d dec r d' ?i 0 []"
      unfolding eqs by (simp add: flushed_def vd_flush_def heldv vd_inv_def)
    then show ?thesis by blast
  next
    case TRAILING_SILENCE
    define k where "k = min (length (vd_trailing d))
      ((vd_hangover_samples d - length (audio_to_model dec) div 2) * 2)"
    have evk: "even k" using ev by (simp add: k_def min_def)
    let ?rest = "drop k (vd_trailing d) @ ?i"
      and ?m = "(length (vd_trailing d) - k) div 2 + length ?i div 2"
    have rest: "moved [] ?m ?rest []"
      using moved_drop_all [of ?rest] ev evk by (simp add: div_plus_div_distrib_dvd_left)
    have "moved (take k (vd_trailing d)) 0 (vd_trailing d @ ?i) ?rest"
      using moved_all [of "take k (vd_trailing d)" ?rest]
      by (simp only: append_assoc [symmetric] append_take_drop_id)
    from moved_trans [OF this rest] inv TRAILING_SILENCE
    have "flushed d dec r d' (take k (vd_trailing d)) ?m []"
      unfolding eqs by (simp add: flushed_def vd_flush_def heldv vd_inv_def k_def [symmetric] Let_def)
    then show ?thesis by blast
  qed
qed

text \<open>What any public call promises.\<close>

definition vd_outcome ::
  "'v StreamingVADEndpointDetector \<Rightarrow> vd_op \<Rightarrow> VADDecision result \<times> 'v StreamingVADEndpointDetector \<Rightarrow> bool" where
  "vd_outcome d x r \<longleftrightarrow>
     (case r of (res, d') \<Rightarrow> vd_inv d' \<and> same_limits d d' \<and>
        (case res of Inl e \<Rightarrow> True
         | Inr dec \<Rightarrow>
             moved (audio_to_model dec) (discarded_samples dec) (vd_held d @ vd_brought x) (vd_held d') \<and>
             vad_path (vd_state d) (transitions dec) (vd_state d') \<and>
             (x \<noteq> FinishInput \<longrightarrow>
                (endpoint dec \<longleftrightarrow> vd_state d' = FINALIZING \<and> transitions dec \<noteq> []))))"

lemma add_audio_outcome:
  assumes inv: "vd_inv d" and fs: "0 < vd_frame_samples d"
  shows "\<exists>r. vd_add_audio B d p = Some r \<and> vd_outcome d (AddAudio p) r"
proof (cases "odd (length p)")
  case True
  with inv show ?thesis by (simp add: vd_add_audio_def vd_outcome_def)
next
  case False
  let ?d1 = "d\<lparr>vd_input_buffer := vd_input_buffer d @ p\<rparr>"
  have d1: "vd_inv ?d1" "0 < vd_frame_samples ?d1" "vd_held ?d1 = vd_held d @ p"
    using inv fs False by (simp_all add: vd_inv_def vd_held_def vd_buffers_def)
  obtain res d' where r: "vd_drain_loop B ?d1 [] 0 [] = Some (res, d')" "drained ?d1 [] 0 [] (res, d')"
    using drain_loop_drained [OF d1(1,2), of B "[]" 0 "[]"] by (metis surj_pair)
  have "vd_outcome d (AddAudio p) (res, d')"
  proof (cases res)
    case (Inl e)
    with r(2) show ?thesis by (simp add: drained_def vd_outcome_def same_limits_def)
  next
    case (Inr dec)
    with r(2) have us: "vd_inv d'" "same_limits ?d1 d'"
      "moved (audio_to_model dec) (discarded_samples dec) (vd_held d @ p) (vd_held d')"
      "vad_path (vd_state d) (transitions dec) (vd_state d')"
      "endpoint dec \<longleftrightarrow> vd_state d \<noteq> FINALIZING \<and> vd_state d' = FINALIZING"
      by (simp_all add: drained_Nil d1(3))
    have "transitions dec \<noteq> []" if "vd_state d \<noteq> vd_state d'" using us(4) that by auto
    moreover have "transitions dec = []" if "vd_state d = FINALIZING"
    proof -
      from that r(1) Inr have "dec = \<lparr>audio_to_model = [], endpoint = False,
          discarded_samples = 0, transitions = []\<rparr>"
        by (subst (asm) vd_drain_loop.simps) simp
      then show ?thesis by simp
    qed
    ultimately show ?thesis
      using us Inr by (auto simp: vd_outcome_def same_limits_def)
  qed
  with r(1) False show ?thesis by (simp add: vd_add_audio_def vd_drain_complete_frames_def)
qed

lemma endpoint_finalized_outcome:
  assumes inv: "vd_inv d" and fs: "0 < vd_frame_samples d"
  shows "\<exists>r. vd_endpoint_finalized B d = Some r \<and> vd_outcome d EndpointFinalized r"
proof (cases "vd_state d = FINALIZING")
  case False
  with inv show ?thesis
    by (simp add: vd_endpoint_finalized_def vd_outcome_def vad_decision_default_def)
next
  case True
  let ?d1 = "d\<lparr>vd_state := WAITING_FOR_SPEECH, vd_backend := backend_reset B (vd_backend d)\<rparr>"
    and ?ts = "[(FINALIZING, WAITING_FOR_SPEECH)]"
  have d1: "vd_inv ?d1" "0 < vd_frame_samples ?d1" "vd_held ?d1 = vd_held d"
    using inv fs True by (simp_all add: vd_inv_def vd_held_def vd_buffers_def)
  obtain res d' where r: "vd_drain_loop B ?d1 [] 0 ?ts = Some (res, d')" "drained ?d1 [] 0 ?ts (res, d')"
    using drain_loop_drained [OF d1(1,2), of B "[]" 0 ?ts] by (metis surj_pair)
  have "vd_outcome d EndpointFinalized (res, d')"
  proof (cases res)
    case (Inl e)
    with r(2) show ?thesis by (simp add: drained_def vd_outcome_def same_limits_def)
  next
    case (Inr dec)
    with r(2) True show ?thesis
      by (auto simp: vd_outcome_def same_limits_def d1(3) vad_edges_def elim!: drainedE)
  qed
  with r(1) True show ?thesis
    by (simp add: vd_endpoint_finalized_def vd_drain_complete_frames_def vd_transition_def)
qed

lemma finish_input_outcome:
  assumes inv: "vd_inv d" and fs: "0 < vd_frame_samples d"
  shows "\<exists>r. vd_finish_input B d = Some r \<and> vd_outcome d FinishInput r"
proof -
  obtain res d1 where r: "vd_drain_loop B d [] 0 [] = Some (res, d1)" "drained d [] 0 [] (res, d1)"
    using drain_loop_drained [OF assms, of B "[]" 0 "[]"] by (metis surj_pair)
  show ?thesis
  proof (cases res)
    case (Inl e)
    with r show ?thesis
      by (simp add: vd_finish_input_def vd_drain_complete_frames_def drained_def vd_outcome_def)
  next
    case (Inr dec)
    obtain q d2 where fl: "vd_flush d1 dec = (q, d2)" by (cases "vd_flush d1 dec")
    from r(2) Inr have us: "vd_inv d1" "same_limits d d1"
      "moved (audio_to_model dec) (discarded_samples dec) (vd_held d) (vd_held d1)"
      "vad_path (vd_state d) (transitions dec) (vd_state d1)"
      by (simp_all add: drained_Nil)
    from flush_accounts [OF us(1) fl] obtain a m vs where f: "flushed d1 dec q d2 a m vs" by blast
    have "moved (audio_to_model q) (discarded_samples q) (vd_held d) []"
      "vad_path (vd_state d) (transitions q) (vd_state d2)"
      using f us moved_trans [OF us(3)] by (auto simp: flushed_def vad_path_append)
    with flush_empties [OF us(1) fl] us(2) have "vd_outcome d FinishInput (Inr q, d2)"
      by (auto simp: vd_outcome_def intro: same_limits_trans)
    with r(1) Inr fl show ?thesis
      by (simp add: vd_finish_input_def vd_drain_complete_frames_def)
  qed
qed

lemma vd_step_outcome:
  assumes "vd_inv d" and "0 < vd_frame_samples d"
  shows "\<exists>r. vd_step B d x = Some r \<and> vd_outcome d x r"
  using add_audio_outcome [OF assms] endpoint_finalized_outcome [OF assms]
    finish_input_outcome [OF assms]
  by (cases x) simp_all

section \<open>Backends that do not raise\<close>

text \<open>The contract of a backend whose probability is always defined: with it no aligned call raises.\<close>

locale total_vad_backend =
  fixes B :: "'v VADBackend"
  assumes probability_defined: "isOk (fst (speech_probability B v frame))"
begin

lemma drain_never_raises:
  assumes "vd_inv d" and "0 < vd_frame_samples d"
  shows "\<exists>dec d'. vd_drain_loop B d audio n ts = Some (Inr dec, d')"
  using assms
proof (induction "length (vd_input_buffer d)" arbitrary: d audio n ts rule: less_induct)
  case less
  note unfold = vd_drain_loop.simps [of B d audio n ts]
  show ?case
  proof (cases "vd_state d = FINALIZING \<or> length (vd_input_buffer d) < vd_frame_bytes d")
    case True
    then show ?thesis by (subst unfold) auto
  next
    case False
    define frame where "frame = take (vd_frame_bytes d) (vd_input_buffer d)"
    define d1 where "d1 = d\<lparr>vd_input_buffer := drop (vd_frame_bytes d) (vd_input_buffer d)\<rparr>"
    obtain probability v where pr: "speech_probability B (vd_backend d1) frame = (Inr probability, v)"
      using probability_defined [of "vd_backend d1" frame] by (metis isOk_iff prod.collapse)
    define d2 where "d2 = d1\<lparr>vd_backend := v\<rparr>"
    obtain a ep m us d3 where pf: "vd_process_frame d2 frame probability = ((a, ep, m, us), d3)"
      by (metis prod_cases5 prod.exhaust)
    have inv2: "vd_inv d2" and st2: "vd_state d2 \<noteq> FINALIZING" and len: "length frame = vd_frame_bytes d2"
      using less.prems(1) False
      by (simp_all add: vd_inv_def d2_def d1_def frame_def vd_frame_bytes_def)
    from process_frame_ok [OF inv2 st2 len, of probability] pf
    have "vd_inv d3" "vd_frame_samples d3 = vd_frame_samples d"
      "length (vd_input_buffer d3) < length (vd_input_buffer d)"
      using less.prems(2) False
      by (auto simp: frame_ok_def same_limits_def d2_def d1_def vd_frame_bytes_def)
    then have "\<exists>dec d'. vd_drain_loop B d3 (audio @ a) (n + m) (ts @ us) = Some (Inr dec, d')"
      using less by auto
    with False pr pf show ?thesis
      by (subst unfold) (auto simp: Let_def d1_def [symmetric] d2_def frame_def)
  qed
qed

lemma step_never_raises:
  assumes "vd_inv d" and "0 < vd_frame_samples d" and "even (length (vd_brought x))"
  shows "\<exists>dec d'. vd_step B d x = Some (Inr dec, d')"
proof (cases x)
  case (AddAudio p)
  have "vd_inv (d\<lparr>vd_input_buffer := vd_input_buffer d @ p\<rparr>)"
    using assms AddAudio by (simp add: vd_inv_def)
  from drain_never_raises [OF this, of "[]" 0 "[]"] assms AddAudio show ?thesis
    by (simp add: vd_add_audio_def vd_drain_complete_frames_def)
next
  case EndpointFinalized
  have "vd_inv (d\<lparr>vd_state := WAITING_FOR_SPEECH, vd_backend := backend_reset B (vd_backend d)\<rparr>)"
    if "vd_state d = FINALIZING"
    using assms(1) that by (simp add: vd_inv_def)
  with drain_never_raises [of _ "[]" 0 "[(FINALIZING, WAITING_FOR_SPEECH)]"] assms(2) EndpointFinalized
  show ?thesis
    by (auto simp: vd_endpoint_finalized_def vd_drain_complete_frames_def vd_transition_def)
next
  case FinishInput
  with drain_never_raises [OF assms(1,2), of "[]" 0 "[]"] show ?thesis
    by (auto simp: vd_finish_input_def vd_drain_complete_frames_def split: prod.splits)
qed

end

interpretation energy_vad: total_vad_backend EnergyVADBackend
  by unfold_locales (simp add: EnergyVADBackend_def)

fun vd_run ::
  "'v VADBackend \<Rightarrow> 'v StreamingVADEndpointDetector \<Rightarrow> vd_op list \<Rightarrow>
   'v StreamingVADEndpointDetector option" where
  "vd_run B d [] = Some d"
| "vd_run B d (x # xs) = (case vd_step B d x of None \<Rightarrow> None | Some (_, d') \<Rightarrow> vd_run B d' xs)"

lemma vd_run_inv:
  assumes "vd_inv d" and "0 < vd_frame_samples d"
  shows "\<exists>d'. vd_run B d xs = Some d' \<and> vd_inv d' \<and> same_limits d d'"
  using assms
proof (induction xs arbitrary: d)
  case Nil
  then show ?case by simp
next
  case (Cons x xs)
  from vd_step_outcome [OF Cons.prems, of B x] obtain res d1
    where st: "vd_step B d x = Some (res, d1)" and out: "vd_inv d1" "same_limits d d1"
    by (auto simp: vd_outcome_def)
  moreover have "0 < vd_frame_samples d1" using out(2) Cons.prems(2) by (simp add: same_limits_def)
  ultimately show ?case using Cons.IH [of d1] by (auto intro: same_limits_trans)
qed

section \<open>Properties\<close>

text \<open>C21: the VAD detector accounts for every byte: what it held before a call followed by the audio
  the call brought is, in order, an interleaving of the audio handed to the model and of the
  counted discarded samples, followed by what it still holds. Nothing is lost, invented,
  duplicated or reordered, for any backend and in any state.\<close>

theorem vad_conserves_audio:
  assumes "vd_inv d" and "0 < vd_frame_samples d" and "vd_step B d x = Some (Inr dec, d')"
  shows "\<exists>w discarded. vd_held d @ vd_brought x = w @ vd_held d' \<and>
     w \<in> shuffles (audio_to_model dec) discarded \<and> length discarded = 2 * discarded_samples dec"
  using vd_step_outcome [OF assms(1,2), of B x] assms(3) by (simp add: vd_outcome_def moved_def)

definition example_detector :: "int StreamingVADEndpointDetector" where
  "example_detector = vd_init 100 16000 512 (65 / 100) (35 / 100) 250 800 160 200"

lemma example_detector_ok: "vd_inv example_detector" "0 < vd_frame_samples example_detector"
  unfolding example_detector_def by (rule vd_init_inv) (simp add: vd_init_def)

theorem vad_conserves_audio_witness:
  "\<exists>dec d' w discarded. vd_step EnergyVADBackend example_detector (AddAudio (replicate 4096 1)) = Some (Inr dec, d') \<and>
     vd_held example_detector @ replicate 4096 1 = w @ vd_held d' \<and>
     w \<in> shuffles (audio_to_model dec) discarded \<and> length discarded = 2 * discarded_samples dec"
proof -
  obtain dec d' where st: "vd_step EnergyVADBackend example_detector (AddAudio (replicate 4096 1)) = Some (Inr dec, d')"
    using energy_vad.step_never_raises [OF example_detector_ok, of "AddAudio (replicate 4096 1)"] by auto
  from vad_conserves_audio [OF example_detector_ok st] st show ?thesis by auto
qed

text \<open>The transitions a decision reports are a path of the endpoint state machine from the state
  before the call to the state after it, and a call reports an endpoint exactly when it moved the
  detector to \<open>FINALIZING\<close> (\<open>finish_input\<close> reports none).\<close>

theorem vad_follows_state_machine:
  assumes "vd_inv d" and "0 < vd_frame_samples d" and "vd_step B d x = Some (Inr dec, d')"
  shows "vad_path (vd_state d) (transitions dec) (vd_state d') \<and>
     (x \<noteq> FinishInput \<longrightarrow> (endpoint dec \<longleftrightarrow> vd_state d' = FINALIZING \<and> transitions dec \<noteq> []))"
  using vd_step_outcome [OF assms(1,2), of B x] assms(3) by (simp add: vd_outcome_def)

theorem vad_follows_state_machine_witness:
  "\<exists>dec d'. vd_step EnergyVADBackend example_detector FinishInput = Some (Inr dec, d') \<and>
     vad_path WAITING_FOR_SPEECH (transitions dec) (vd_state d')"
proof -
  obtain dec d' where st: "vd_step EnergyVADBackend example_detector FinishInput = Some (Inr dec, d')"
    using energy_vad.step_never_raises [OF example_detector_ok, of FinishInput] by auto
  have "vd_state example_detector = WAITING_FOR_SPEECH" by (simp add: example_detector_def vd_init_def)
  with vad_follows_state_machine [OF example_detector_ok st] st show ?thesis by auto
qed



end
