(* ===== verification/Sessions.thy ===== *)
theory Sessions
  imports Chunking Protocol
begin

text \<open>
  \<open>app/asr_gateway_sessions.py\<close>: the gateway's per-connection session (one ring buffer, one
  in-flight reservation, a generation counter, terminal states and the sample accounting that
  includes audio still inside the VAD detector) and the capacity-limited session table. The
  \<open>asyncio.Event\<close> that wakes waiters is the flag \<open>gs_reservation_released\<close>.
\<close>

section \<open>Sessions\<close>

datatype TerminalState = OPEN | FINISHING | SUCCEEDED | FAILED_STATE | ABORTED

record SessionReservation =
  sr_job_sequence :: int
  sr_generation :: int
  sr_chunk :: ReadyChunk

record GatewaySession =
  gs_session_id :: string
  gs_selected_worker_id :: string
  gs_backend_session_id :: string
  gs_sample_rate :: int
  gs_language :: ustr
  gs_options :: "(ustr, json) dict"
  gs_generation :: int
  gs_terminal_state :: TerminalState
  gs_buffer :: PcmRingBuffer
  gs_next_job_sequence :: int
  gs_reservation :: "SessionReservation option"
  gs_reservation_released :: bool
  gs_finish_requested :: bool
  gs_accepted_samples :: int
  gs_external_discarded_samples :: int
  gs_transcript :: StreamingTranscriptState

definition gs_init ::
  "string \<Rightarrow> string \<Rightarrow> string \<Rightarrow> int \<Rightarrow> int \<Rightarrow> ustr \<Rightarrow> (ustr, json) dict \<Rightarrow> GatewaySession result" where
  "gs_init session_id wid backend_session_id rate max_buffer_samples language options =
     bind_result (rb_init max_buffer_samples) (\<lambda>buffer.
       Inr \<lparr>gs_session_id = session_id, gs_selected_worker_id = wid,
            gs_backend_session_id = backend_session_id, gs_sample_rate = rate,
            gs_language = language, gs_options = options, gs_generation = 1,
            gs_terminal_state = OPEN, gs_buffer = buffer, gs_next_job_sequence = 1,
            gs_reservation = None, gs_reservation_released = True, gs_finish_requested = False,
            gs_accepted_samples = 0, gs_external_discarded_samples = 0,
            gs_transcript = ts_init rate False 1 1 1 False False\<rparr>)"

definition gs_in_flight :: "GatewaySession \<Rightarrow> bool" where
  "gs_in_flight s \<longleftrightarrow> gs_reservation s \<noteq> None"

record accounting =
  sa_accepted :: int
  sa_buffered :: int
  sa_reserved :: int
  sa_acknowledged :: int
  sa_discarded :: int
  sa_pending_vad :: int

definition sample_accounting :: "GatewaySession \<Rightarrow> accounting" where
  "sample_accounting s =
     \<lparr>sa_accepted = gs_accepted_samples s,
      sa_buffered = rb_buffered_samples (gs_buffer s),
      sa_reserved = rb_reserved_samples (gs_buffer s),
      sa_acknowledged = rb_acknowledged (gs_buffer s),
      sa_discarded = rb_discarded (gs_buffer s) + gs_external_discarded_samples s,
      sa_pending_vad = max 0 (gs_accepted_samples s - rb_accepted (gs_buffer s)
                              - gs_external_discarded_samples s)\<rparr>"

definition append_pcm :: "GatewaySession \<Rightarrow> pcm \<Rightarrow> bool \<Rightarrow> ((int \<times> int) \<times> GatewaySession) result" where
  "append_pcm s pcm count_accepted =
     (if gs_terminal_state s \<notin> {OPEN, FINISHING} then Inl (RuntimeError ''session is terminal'')
      else bind_result (rb_append (gs_buffer s) pcm) (\<lambda>(r, buffer).
        Inr (r, s\<lparr>gs_buffer := buffer, gs_accepted_samples := gs_accepted_samples s +
                   (if count_accepted then int (length pcm) div 2 else 0)\<rparr>)))"

definition accept_vad_input :: "GatewaySession \<Rightarrow> pcm \<Rightarrow> GatewaySession result" where
  "accept_vad_input s pcm =
     (if odd (length pcm) then Inl (ValueError ''pcm_s16le bytes must be sample-aligned'')
      else let samples = int (length pcm) div 2; a = sample_accounting s;
               current = sa_buffered a + sa_reserved a + sa_pending_vad a
           in if current + samples > rb_max_samples (gs_buffer s) then
                Inl (capacity_buffer_error ''session_pcm_limit'' (rb_max_samples (gs_buffer s)) current samples)
              else Inr (s\<lparr>gs_accepted_samples := gs_accepted_samples s + samples\<rparr>))"

definition record_discarded :: "GatewaySession \<Rightarrow> int \<Rightarrow> GatewaySession result" where
  "record_discarded s samples =
     (if samples < 0 \<or> samples > sa_pending_vad (sample_accounting s) then
        Inl (ValueError ''discarded VAD samples exceed pending input'')
      else Inr (s\<lparr>gs_external_discarded_samples := gs_external_discarded_samples s + samples\<rparr>))"

definition ready_samples :: "GatewaySession \<Rightarrow> int \<Rightarrow> int option \<Rightarrow> bool \<Rightarrow> int" where
  "ready_samples s preferred maximum force =
     (if gs_in_flight s then 0
      else let available = rb_buffered_samples (gs_buffer s);
               limit = py_or maximum available
           in if available \<ge> limit \<and> limit > 0 then limit
              else if available \<ge> preferred \<and> preferred > 0 then preferred
              else if force \<or> gs_finish_requested s then available
              else 0)"

definition reserve :: "GatewaySession \<Rightarrow> int \<Rightarrow> bool \<Rightarrow> (SessionReservation \<times> GatewaySession) result" where
  "reserve s samples final =
     (if gs_in_flight s then Inl (RuntimeError ''session already has an in-flight job'')
      else bind_result (rb_reserve_range (gs_buffer s) samples final) (\<lambda>(chunk, buffer).
        let reservation = \<lparr>sr_job_sequence = gs_next_job_sequence s,
                           sr_generation = gs_generation s, sr_chunk = chunk\<rparr>
        in Inr (reservation, s\<lparr>gs_buffer := buffer,
             gs_next_job_sequence := gs_next_job_sequence s + 1,
             gs_reservation := Some reservation, gs_reservation_released := False\<rparr>)))"

definition require_reservation :: "GatewaySession \<Rightarrow> int \<Rightarrow> SessionReservation result" where
  "require_reservation s job_sequence =
     (case gs_reservation s of
        None \<Rightarrow> Inl (RuntimeError ''result does not match in-flight reservation'')
      | Some r \<Rightarrow> if sr_job_sequence r \<noteq> job_sequence
                  then Inl (RuntimeError ''result does not match in-flight reservation'')
                  else Inr r)"

definition acknowledge :: "GatewaySession \<Rightarrow> int \<Rightarrow> int \<Rightarrow> (ReadyChunk \<times> GatewaySession) result" where
  "acknowledge s job_sequence generation =
     (if generation \<noteq> gs_generation s then Inl (RuntimeError ''stale generation result'')
      else bind_result (require_reservation s job_sequence) (\<lambda>r.
        bind_result (rb_acknowledge (gs_buffer s) (rc_start (sr_chunk r)) (rc_end (sr_chunk r))) (\<lambda>buffer.
          Inr (sr_chunk r, s\<lparr>gs_buffer := buffer, gs_reservation := None,
                             gs_reservation_released := True\<rparr>))))"

definition rollback :: "GatewaySession \<Rightarrow> int \<Rightarrow> (bool \<times> GatewaySession) result" where
  "rollback s job_sequence =
     (case gs_reservation s of
        None \<Rightarrow> Inr (False, s)
      | Some r \<Rightarrow>
          if sr_job_sequence r \<noteq> job_sequence then Inr (False, s)
          else bind_result (rb_rollback (gs_buffer s) (rc_start (sr_chunk r)) (rc_end (sr_chunk r))) (\<lambda>buffer.
            Inr (True, s\<lparr>gs_buffer := buffer, gs_reservation := None,
                         gs_reservation_released := True\<rparr>)))"

definition matches_reservation :: "GatewaySession \<Rightarrow> int \<Rightarrow> int \<Rightarrow> int \<Rightarrow> bool" where
  "matches_reservation s job_sequence start_sample end_sample =
     (case gs_reservation s of
        None \<Rightarrow> False
      | Some r \<Rightarrow> sr_job_sequence r = job_sequence \<and> sr_generation r = gs_generation s \<and>
          rc_start (sr_chunk r) = start_sample \<and> rc_end (sr_chunk r) = end_sample)"

definition request_finish :: "GatewaySession \<Rightarrow> GatewaySession" where
  "request_finish s =
     (if \<not> gs_finish_requested s then s\<lparr>gs_finish_requested := True, gs_terminal_state := FINISHING\<rparr>
      else s)"

text \<open>\<open>abort\<close> step by step: give the reservation back, drop what is buffered, write off what is in
  the VAD detector, invalidate outstanding results. Its buffer calls may in principle raise, so
  the state after a raise is part of the result.\<close>

definition abort_release :: "GatewaySession \<Rightarrow> GatewaySession result" where
  "abort_release s =
     (case gs_reservation s of
        None \<Rightarrow> Inr s
      | Some r \<Rightarrow>
          bind_result (rb_rollback (gs_buffer s) (rc_start (sr_chunk r)) (rc_end (sr_chunk r))) (\<lambda>buffer.
            Inr (s\<lparr>gs_buffer := buffer, gs_reservation := None, gs_reservation_released := True\<rparr>)))"

definition abort_discard :: "GatewaySession \<Rightarrow> GatewaySession result" where
  "abort_discard s =
     (if rb_buffered_samples (gs_buffer s) = 0 then Inr s
      else bind_result (rb_discard (gs_buffer s) (rb_buffered_samples (gs_buffer s))) (\<lambda>buffer.
        Inr (s\<lparr>gs_buffer := buffer\<rparr>)))"

definition abort :: "GatewaySession \<Rightarrow> unit result \<times> GatewaySession" where
  "abort s =
     (if gs_terminal_state s \<in> {ABORTED, FAILED_STATE} then (Inr (), s)
      else case abort_release s of
        Inl e \<Rightarrow> (Inl e, s)
      | Inr s1 \<Rightarrow>
          (case abort_discard s1 of
             Inl e \<Rightarrow> (Inl e, s1)
           | Inr s2 \<Rightarrow>
               (Inr (), s2\<lparr>gs_external_discarded_samples := gs_external_discarded_samples s2 +
                             sa_pending_vad (sample_accounting s2),
                           gs_generation := gs_generation s2 + 1,
                           gs_terminal_state := ABORTED\<rparr>)))"

definition fail :: "GatewaySession \<Rightarrow> unit result \<times> GatewaySession" where
  "fail s = (case abort s of
     (Inl e, s1) \<Rightarrow> (Inl e, s1)
   | (Inr _, s1) \<Rightarrow> (Inr (), s1\<lparr>gs_terminal_state := FAILED_STATE\<rparr>))"

definition succeed :: "GatewaySession \<Rightarrow> GatewaySession result" where
  "succeed s =
     (if rb_buffered_samples (gs_buffer s) \<noteq> 0 \<or> rb_reserved_samples (gs_buffer s) \<noteq> 0 then
        Inl (RuntimeError ''cannot succeed with unaccounted PCM'')
      else Inr (s\<lparr>gs_terminal_state := SUCCEEDED\<rparr>))"

section \<open>The session table\<close>

record SessionManager =
  sm_max_sessions :: int
  sm_sessions :: "(string, GatewaySession) dict"

definition sm_init :: "int \<Rightarrow> SessionManager result" where
  "sm_init max_sessions =
     (if max_sessions \<le> 0 then Inl (ValueError ''max_sessions must be positive'')
      else Inr \<lparr>sm_max_sessions = max_sessions, sm_sessions = []\<rparr>)"

text \<open>\<open>mk\<close> is the constructor call with the keyword arguments of the caller.\<close>

definition sm_create ::
  "SessionManager \<Rightarrow> string \<Rightarrow> GatewaySession result \<Rightarrow> (GatewaySession \<times> SessionManager) result" where
  "sm_create m session_id mk =
     (if map_of (sm_sessions m) session_id \<noteq> None then Inl (ValueError ''duplicate session_id'')
      else if int (length (sm_sessions m)) \<ge> sm_max_sessions m then
        Inl (RuntimeError ''session capacity exceeded'')
      else bind_result mk (\<lambda>session.
        Inr (session, m\<lparr>sm_sessions := AList.update session_id session (sm_sessions m)\<rparr>)))"

definition sm_get :: "SessionManager \<Rightarrow> string \<Rightarrow> GatewaySession result" where
  "sm_get m session_id =
     (case map_of (sm_sessions m) session_id of None \<Rightarrow> Inl (KeyError session_id) | Some s \<Rightarrow> Inr s)"

definition sm_close :: "SessionManager \<Rightarrow> string \<Rightarrow> GatewaySession option \<times> SessionManager" where
  "sm_close m session_id =
     (case map_of (sm_sessions m) session_id of
        None \<Rightarrow> (None, m)
      | Some session \<Rightarrow>
          (Some (if gs_terminal_state session \<notin> {ABORTED, FAILED_STATE}
                 then session\<lparr>gs_generation := gs_generation session + 1\<rparr> else session),
           m\<lparr>sm_sessions := AList.delete session_id (sm_sessions m)\<rparr>))"

definition sm_snapshot :: "SessionManager \<Rightarrow> nat \<times> string list" where
  "sm_snapshot m = (length (sm_sessions m), sort (map fst (sm_sessions m)))"

section \<open>Invariant\<close>

text \<open>The session's reservation is the buffer's reservation, taken in the current generation under
  an already used job number; the released flag mirrors it; and the audio given to the buffer or
  written off by the VAD was accepted first.\<close>

definition gs_inv :: "GatewaySession \<Rightarrow> bool" where
  [inv_defs]: "gs_inv s \<longleftrightarrow>
     rb_inv (gs_buffer s) \<and>
     rb_reservation (gs_buffer s) = map_option sr_chunk (gs_reservation s) \<and>
     (gs_reservation_released s \<longleftrightarrow> gs_reservation s = None) \<and>
     (case gs_reservation s of None \<Rightarrow> True
      | Some r \<Rightarrow> sr_generation r = gs_generation s \<and> sr_job_sequence r < gs_next_job_sequence s) \<and>
     0 \<le> gs_external_discarded_samples s \<and>
     rb_accepted (gs_buffer s) + gs_external_discarded_samples s \<le> gs_accepted_samples s"

lemma gs_init_inv: "gs_init i w bs rate mx la opts = Inr s \<Longrightarrow> gs_inv s"
  by (auto simp: gs_init_def bind_result_eq_Inr gs_inv_def rb_init_inv)
    (auto simp: rb_init_def split: if_splits)

lemma pending_vad_eq:
  "gs_inv s \<Longrightarrow> sa_pending_vad (sample_accounting s) =
     gs_accepted_samples s - rb_accepted (gs_buffer s) - gs_external_discarded_samples s"
  by (simp add: gs_inv_def sample_accounting_def)

lemma rb_rollback_own:
  "rb_reservation b = Some c \<Longrightarrow> rb_rollback b (rc_start c) (rc_end c) = Inr (b\<lparr>rb_reservation := None\<rparr>)"
  by (simp add: rb_rollback_def rb_require_reservation_def)

lemma rb_unreserve_inv: "rb_inv b \<Longrightarrow> rb_inv (b\<lparr>rb_reservation := None\<rparr>)"
  by (simp add: rb_inv_def rb_held_samples_def)

lemma rb_append_fields:
  "rb_append b p = Inr (r, b') \<Longrightarrow> rb_reservation b' = rb_reservation b \<and>
     rb_accepted b' = rb_accepted b + int (length p) div 2 \<and> rb_base_sample b' = rb_base_sample b"
  by (auto simp: rb_append_def Let_def split: if_splits)

lemma append_pcm_inv:
  assumes "gs_inv s" and "append_pcm s p counted = Inr (r, s')"
    and "counted \<or> int (length p) div 2 \<le> sa_pending_vad (sample_accounting s)"
  shows "gs_inv s'"
proof -
  from assms(2) obtain b where b: "rb_append (gs_buffer s) p = Inr (r, b)"
    and s': "s' = s\<lparr>gs_buffer := b, gs_accepted_samples := gs_accepted_samples s +
      (if counted then int (length p) div 2 else 0)\<rparr>"
    by (auto simp: append_pcm_def bind_result_eq_Inr split: if_splits)
  have "rb_inv b" using assms(1) b by (auto simp: gs_inv_def intro: rb_append_inv)
  with rb_append_fields [OF b] assms(1,3) pending_vad_eq [OF assms(1)] show ?thesis
    by (auto simp: gs_inv_def s')
qed

lemma accept_vad_input_inv: "gs_inv s \<Longrightarrow> accept_vad_input s p = Inr s' \<Longrightarrow> gs_inv s'"
  by (auto simp: accept_vad_input_def gs_inv_def Let_def split: if_splits)

lemma record_discarded_inv: "gs_inv s \<Longrightarrow> record_discarded s n = Inr s' \<Longrightarrow> gs_inv s'"
  using pending_vad_eq [of s] by (auto simp: record_discarded_def gs_inv_def split: if_splits)

lemma rb_reserve_fields:
  "rb_reserve_range b n f = Inr (c, b') \<Longrightarrow> b' = b\<lparr>rb_reservation := Some c\<rparr> \<and> rb_reservation b = None"
  by (auto simp: rb_reserve_range_def Let_def split: if_splits)

lemma reserve_inv:
  assumes "gs_inv s" and "reserve s n f = Inr (r, s')"
  shows "gs_inv s'"
proof -
  from assms(2) obtain c b where b: "rb_reserve_range (gs_buffer s) n f = Inr (c, b)"
    and r: "r = \<lparr>sr_job_sequence = gs_next_job_sequence s, sr_generation = gs_generation s, sr_chunk = c\<rparr>"
    and s': "s' = s\<lparr>gs_buffer := b, gs_next_job_sequence := gs_next_job_sequence s + 1,
      gs_reservation := Some r, gs_reservation_released := False\<rparr>"
    by (auto simp: reserve_def bind_result_eq_Inr Let_def split: if_splits)
  have "rb_inv b" using assms(1) b by (auto simp: gs_inv_def intro: rb_reserve_range_inv)
  with rb_reserve_fields [OF b] assms(1) show ?thesis by (auto simp: gs_inv_def s' r)
qed

lemma require_reservation_Inr:
  "require_reservation s k = Inr r \<longleftrightarrow> gs_reservation s = Some r \<and> sr_job_sequence r = k"
  by (auto simp: require_reservation_def split: option.splits)

lemma rb_acknowledge_fields:
  "rb_acknowledge b x y = Inr b' \<Longrightarrow> rb_reservation b' = None \<and> rb_accepted b' = rb_accepted b"
  by (auto simp: rb_acknowledge_def bind_result_eq_Inr Let_def)

lemma acknowledge_cases:
  assumes "acknowledge s k g = Inr (c, s')"
  obtains r b where "g = gs_generation s" "gs_reservation s = Some r" "sr_job_sequence r = k"
    "c = sr_chunk r" "rb_acknowledge (gs_buffer s) (rc_start c) (rc_end c) = Inr b"
    "s' = s\<lparr>gs_buffer := b, gs_reservation := None, gs_reservation_released := True\<rparr>"
  using assms
  by (auto simp: acknowledge_def bind_result_eq_Inr require_reservation_Inr split: if_splits)

lemma acknowledge_inv:
  assumes "gs_inv s" and "acknowledge s k g = Inr (c, s')"
  shows "gs_inv s'"
  using assms(2)
proof (rule acknowledge_cases)
  fix r b assume b: "rb_acknowledge (gs_buffer s) (rc_start c) (rc_end c) = Inr b"
    and s': "s' = s\<lparr>gs_buffer := b, gs_reservation := None, gs_reservation_released := True\<rparr>"
  have "rb_inv b" using assms(1) b by (auto simp: gs_inv_def intro: rb_acknowledge_inv)
  with rb_acknowledge_fields [OF b] assms(1) show ?thesis by (auto simp: gs_inv_def s')
qed

lemma gs_unreserve_inv:
  "gs_inv s \<Longrightarrow> gs_inv (s\<lparr>gs_buffer := gs_buffer s\<lparr>rb_reservation := None\<rparr>, gs_reservation := None,
     gs_reservation_released := True\<rparr>)"
  by (auto simp: gs_inv_def rb_unreserve_inv)

definition holds_job :: "GatewaySession \<Rightarrow> int \<Rightarrow> bool" where
  "holds_job s k = (case gs_reservation s of None \<Rightarrow> False | Some r \<Rightarrow> sr_job_sequence r = k)"

definition gs_unreserved :: "GatewaySession \<Rightarrow> GatewaySession" where
  "gs_unreserved s = s\<lparr>gs_buffer := gs_buffer s\<lparr>rb_reservation := None\<rparr>, gs_reservation := None,
     gs_reservation_released := True\<rparr>"

lemma rollback_ok:
  assumes "gs_inv s"
  shows "rollback s k = Inr (if holds_job s k then (True, gs_unreserved s) else (False, s))"
  using assms rb_rollback_own [of "gs_buffer s"]
  by (auto simp: rollback_def gs_inv_def holds_job_def gs_unreserved_def split: option.splits)

lemma gs_unreserved_inv: "gs_inv s \<Longrightarrow> gs_inv (gs_unreserved s)"
  by (simp add: gs_unreserved_def gs_unreserve_inv)

lemma abort_release_ok:
  assumes "gs_inv s"
  shows "abort_release s = Inr (gs_unreserved s)"
proof (cases "gs_reservation s")
  case None
  then have "gs_unreserved s = s"
    using assms by (simp add: gs_unreserved_def gs_inv_def)
  with None show ?thesis by (simp add: abort_release_def)
next
  case (Some r)
  with assms rb_rollback_own [of "gs_buffer s" "sr_chunk r"] show ?thesis
    by (simp add: abort_release_def gs_inv_def gs_unreserved_def)
qed

text \<open>What an abort leaves of a live session: every accepted sample is acknowledged or discarded.\<close>

lemma abort_discard_ok:
  assumes "gs_inv s" and "gs_reservation s = None"
  shows "\<exists>b. abort_discard s = Inr (s\<lparr>gs_buffer := b\<rparr>) \<and> rb_inv b \<and> rb_reservation b = None \<and>
     rb_held_samples b = 0 \<and> rb_accepted b = rb_accepted (gs_buffer s) \<and>
     rb_acknowledged b = rb_acknowledged (gs_buffer s) \<and> rb_discarded (gs_buffer s) \<le> rb_discarded b"
proof -
  let ?b = "gs_buffer s" and ?n = "rb_buffered_samples (gs_buffer s)"
  have inv: "rb_inv ?b" and none: "rb_reservation ?b = None" and n: "?n = rb_held_samples ?b"
    using assms by (auto simp: gs_inv_def rb_buffered_samples_def rb_reserved_samples_def)
  show ?thesis
  proof (cases "?n = 0")
    case True
    with inv none n show ?thesis by (intro exI [of _ ?b]) (simp add: abort_discard_def)
  next
    case False
    define b where "b = ?b\<lparr>rb_data := drop (nat (?n * 2)) (rb_data ?b),
      rb_base_sample := rb_base_sample ?b + ?n, rb_discarded := rb_discarded ?b + ?n\<rparr>"
    have d: "rb_discard ?b ?n = Inr b"
      using none rb_inv_buffered_nonneg [OF inv] by (simp add: rb_discard_def b_def)
    have "rb_held_samples b = 0"
      using rb_held_even [of ?b] inv n by (simp add: b_def rb_held_samples_def rb_inv_def)
    with False d none rb_discard_inv [OF inv d] rb_inv_buffered_nonneg [OF inv] show ?thesis
      by (intro exI [of _ b]) (simp add: abort_discard_def, simp add: b_def)
  qed
qed

definition settled_out :: "GatewaySession \<Rightarrow> bool" where
  "settled_out s \<longleftrightarrow> rb_held_samples (gs_buffer s) = 0 \<and> gs_reservation s = None \<and>
     rb_accepted (gs_buffer s) + gs_external_discarded_samples s = gs_accepted_samples s"

lemma abort_ok:
  assumes "gs_inv s" and "gs_terminal_state s \<notin> {ABORTED, FAILED_STATE}"
  shows "\<exists>s'. abort s = (Inr (), s') \<and> gs_inv s' \<and> settled_out s' \<and>
     gs_terminal_state s' = ABORTED \<and> gs_generation s' = gs_generation s + 1 \<and>
     gs_accepted_samples s' = gs_accepted_samples s \<and>
     gs_next_job_sequence s' = gs_next_job_sequence s \<and>
     rb_acknowledged (gs_buffer s') = rb_acknowledged (gs_buffer s) \<and>
     rb_discarded (gs_buffer s) \<le> rb_discarded (gs_buffer s') \<and>
     gs_external_discarded_samples s \<le> gs_external_discarded_samples s'"
proof -
  have r: "gs_inv (gs_unreserved s)" "gs_reservation (gs_unreserved s) = None"
    using gs_unreserved_inv [OF assms(1)] by (simp_all add: gs_unreserved_def)
  from abort_discard_ok [OF r] obtain b where
    ad: "abort_discard (gs_unreserved s) = Inr (gs_unreserved s\<lparr>gs_buffer := b\<rparr>)"
    and b: "rb_inv b" "rb_reservation b = None" "rb_held_samples b = 0"
      "rb_accepted b = rb_accepted (gs_buffer s)" "rb_acknowledged b = rb_acknowledged (gs_buffer s)"
      "rb_discarded (gs_buffer s) \<le> rb_discarded b"
    by (auto simp: gs_unreserved_def)
  let ?s2 = "gs_unreserved s\<lparr>gs_buffer := b\<rparr>"
  have "gs_inv ?s2" using r b assms(1) by (auto simp: gs_inv_def gs_unreserved_def)
  from pending_vad_eq [OF this] assms ad b r show ?thesis
    by (auto simp: abort_def abort_release_ok settled_out_def gs_inv_def gs_unreserved_def)
qed

section \<open>The session as a ledger\<close>

text \<open>The public calls. An uncounted append hands on audio that left the VAD detector: that it was
  accepted before and is still pending is the caller's obligation, written as the guard of
  \<open>ForwardVad\<close>.\<close>

datatype gs_op =
    AppendPcm pcm
  | AcceptVad pcm
  | ForwardVad pcm
  | RecordDiscarded int
  | ReserveChunk int bool
  | AcknowledgeJob int int
  | RollbackJob int
  | RequestFinish
  | AbortSession
  | FailSession
  | Succeed

fun gs_step :: "GatewaySession \<Rightarrow> gs_op \<Rightarrow> (unit \<times> GatewaySession) result" where
  "gs_step s (AppendPcm p) = bind_result (append_pcm s p True) (\<lambda>(_, t). Inr ((), t))"
| "gs_step s (AcceptVad p) = bind_result (accept_vad_input s p) (\<lambda>t. Inr ((), t))"
| "gs_step s (ForwardVad p) =
     (if int (length p) div 2 \<le> sa_pending_vad (sample_accounting s)
      then bind_result (append_pcm s p False) (\<lambda>(_, t). Inr ((), t)) else Inl AssertionError)"
| "gs_step s (RecordDiscarded n) = bind_result (record_discarded s n) (\<lambda>t. Inr ((), t))"
| "gs_step s (ReserveChunk n f) = bind_result (reserve s n f) (\<lambda>(_, t). Inr ((), t))"
| "gs_step s (AcknowledgeJob k g) = bind_result (acknowledge s k g) (\<lambda>(_, t). Inr ((), t))"
| "gs_step s (RollbackJob k) = bind_result (rollback s k) (\<lambda>(_, t). Inr ((), t))"
| "gs_step s RequestFinish = Inr ((), request_finish s)"
| "gs_step s AbortSession = (case abort s of (r, t) \<Rightarrow> bind_result r (\<lambda>_. Inr ((), t)))"
| "gs_step s FailSession = (case fail s of (r, t) \<Rightarrow> bind_result r (\<lambda>_. Inr ((), t)))"
| "gs_step s Succeed = bind_result (succeed s) (\<lambda>t. Inr ((), t))"

fun gs_amount :: "gs_op \<Rightarrow> int" where
  "gs_amount (AppendPcm p) = int (length p) div 2"
| "gs_amount (AcceptVad p) = int (length p) div 2"
| "gs_amount _ = 0"

definition gs_settled :: "GatewaySession \<Rightarrow> int" where
  "gs_settled s = sa_acknowledged (sample_accounting s) + sa_discarded (sample_accounting s)"

definition gs_outstanding :: "GatewaySession \<Rightarrow> int" where
  "gs_outstanding s = sa_buffered (sample_accounting s) + sa_reserved (sample_accounting s) +
     sa_pending_vad (sample_accounting s)"

text \<open>One step keeps the invariant, accepts what it brings and never takes back what it settled.\<close>

definition gs_moves :: "GatewaySession \<Rightarrow> int \<Rightarrow> GatewaySession \<Rightarrow> bool" where
  "gs_moves s n t \<longleftrightarrow> gs_inv t \<and> gs_accepted_samples t = gs_accepted_samples s + n \<and>
     gs_settled s \<le> gs_settled t"

lemma gs_settled_eq:
  "gs_settled s = rb_acknowledged (gs_buffer s) + rb_discarded (gs_buffer s) + gs_external_discarded_samples s"
  by (simp add: gs_settled_def sample_accounting_def)

lemma gs_settled_base:
  "gs_inv s \<Longrightarrow> gs_settled s = rb_base_sample (gs_buffer s) + gs_external_discarded_samples s"
  by (simp add: gs_settled_eq gs_inv_def rb_inv_def)

lemma terminal_inv [simp]:
  "gs_inv (s\<lparr>gs_terminal_state := x\<rparr>) = gs_inv s"
  "gs_inv (s\<lparr>gs_finish_requested := y\<rparr>) = gs_inv s"
  by (simp_all add: gs_inv_def cong: option.case_cong)

lemma terminal_settled [simp]:
  "gs_settled (s\<lparr>gs_terminal_state := x\<rparr>) = gs_settled s"
  "gs_settled (s\<lparr>gs_finish_requested := y\<rparr>) = gs_settled s"
  by (simp_all add: gs_settled_eq)

lemma append_pcm_moves:
  assumes "gs_inv s" and "append_pcm s p counted = Inr (r, s')"
    and "counted \<or> int (length p) div 2 \<le> sa_pending_vad (sample_accounting s)"
  shows "gs_moves s (if counted then int (length p) div 2 else 0) s'"
proof -
  note inv' = append_pcm_inv [OF assms]
  from assms(2) obtain b where b: "rb_append (gs_buffer s) p = Inr (r, b)"
    and s': "s' = s\<lparr>gs_buffer := b, gs_accepted_samples := gs_accepted_samples s +
      (if counted then int (length p) div 2 else 0)\<rparr>"
    by (auto simp: append_pcm_def bind_result_eq_Inr split: if_splits)
  with rb_append_fields [OF b] gs_settled_base [OF inv'] gs_settled_base [OF assms(1)] inv' show ?thesis
    by (simp add: gs_moves_def)
qed

lemma acknowledge_moves:
  assumes "gs_inv s" and "acknowledge s k g = Inr (c, s')"
  shows "gs_moves s 0 s'"
  using assms(2)
proof (rule acknowledge_cases)
  fix r b assume b: "rb_acknowledge (gs_buffer s) (rc_start c) (rc_end c) = Inr b"
    and s': "s' = s\<lparr>gs_buffer := b, gs_reservation := None, gs_reservation_released := True\<rparr>"
  have "rb_step (gs_buffer s) (Acknowledge (rc_start c) (rc_end c)) =
      Inr (case rb_reservation (gs_buffer s) of None \<Rightarrow> [] | Some c \<Rightarrow> rc_pcm c, b)"
    using b by simp
  from rb_step_counts(2) [OF _ this] have "rb_base_sample (gs_buffer s) \<le> rb_base_sample b"
    using assms(1) by (simp add: gs_inv_def)
  with acknowledge_inv [OF assms] gs_settled_base [OF assms(1)] gs_settled_base [OF acknowledge_inv [OF assms]]
  show ?thesis by (simp add: gs_moves_def s')
qed

lemma abort_moves:
  assumes "gs_inv s" and "abort s = (r, s')"
  shows "r = Inr () \<and> gs_moves s 0 s'"
proof (cases "gs_terminal_state s \<in> {ABORTED, FAILED_STATE}")
  case True
  with assms show ?thesis by (simp add: abort_def gs_moves_def)
next
  case False
  from abort_ok [OF assms(1) False] assms(2) show ?thesis
    by (auto simp: gs_moves_def gs_settled_eq)
qed

lemma fail_moves:
  assumes "gs_inv s" and "fail s = (r, s')"
  shows "r = Inr () \<and> gs_moves s 0 s'"
proof -
  obtain q s1 where ab: "abort s = (q, s1)" by (cases "abort s")
  with abort_moves [OF assms(1) ab] assms(2) show ?thesis
    by (auto simp: fail_def gs_moves_def)
qed

lemma gs_step_moves:
  assumes "gs_inv s" and "gs_step s x = Inr (y, t)"
  shows "gs_moves s (gs_amount x) t"
proof (cases x)
  case (AppendPcm p)
  with assms append_pcm_moves [OF assms(1), of p True] show ?thesis
    by (auto simp: bind_result_eq_Inr)
next
  case (AcceptVad p)
  with assms accept_vad_input_inv [OF assms(1), of p] show ?thesis
    by (auto simp: bind_result_eq_Inr gs_moves_def)
      (auto simp: accept_vad_input_def gs_settled_eq Let_def split: if_splits)
next
  case (ForwardVad p)
  with assms append_pcm_moves [OF assms(1), of p False] show ?thesis
    by (auto simp: bind_result_eq_Inr split: if_splits)
next
  case (RecordDiscarded n)
  with assms record_discarded_inv [OF assms(1), of n] show ?thesis
    by (auto simp: bind_result_eq_Inr gs_moves_def)
      (auto simp: record_discarded_def gs_settled_eq split: if_splits)
next
  case (ReserveChunk n f)
  with assms reserve_inv [OF assms(1), of n f] show ?thesis
    by (auto simp: bind_result_eq_Inr gs_moves_def)
      (auto simp: reserve_def bind_result_eq_Inr gs_settled_eq Let_def dest!: rb_reserve_fields split: if_splits)
next
  case (AcknowledgeJob k g)
  with assms acknowledge_moves [OF assms(1), of k g] show ?thesis
    by (auto simp: bind_result_eq_Inr)
next
  case (RollbackJob k)
  with assms gs_unreserved_inv [OF assms(1)] rollback_ok [OF assms(1), of k] show ?thesis
    by (auto simp: bind_result_eq_Inr gs_moves_def gs_settled_eq split: if_splits)
      (auto simp: gs_unreserved_def)
next
  case RequestFinish
  with assms show ?thesis by (auto simp: request_finish_def gs_moves_def)
next
  case AbortSession
  with assms abort_moves [OF assms(1)] show ?thesis by (auto split: prod.splits)
next
  case FailSession
  with assms fail_moves [OF assms(1)] show ?thesis by (auto split: prod.splits)
next
  case Succeed
  with assms show ?thesis by (auto simp: bind_result_eq_Inr succeed_def gs_moves_def split: if_splits)
qed

lemma gs_balance:
  assumes "gs_inv s"
  shows "gs_accepted_samples s = gs_settled s + gs_outstanding s" and "0 \<le> gs_outstanding s"
proof -
  have b: "rb_inv (gs_buffer s)" using assms by (simp add: gs_inv_def)
  show "gs_accepted_samples s = gs_settled s + gs_outstanding s"
    using pending_vad_eq [OF assms] rb_inv_balance [OF b] b
    by (simp add: gs_settled_eq gs_outstanding_def sample_accounting_def rb_buffered_samples_def rb_inv_def)
  show "0 \<le> gs_outstanding s"
    using rb_inv_buffered_nonneg [OF b] rb_inv_reserved_nonneg [OF b]
    by (simp add: gs_outstanding_def sample_accounting_def)
qed

interpretation session_ledger:
  sample_ledger gs_step gs_inv gs_accepted_samples gs_settled gs_outstanding gs_amount
  using gs_step_moves gs_balance by unfold_locales (auto simp: gs_moves_def)

lemma accounting_nonneg:
  assumes "gs_inv s"
  shows "0 \<le> sa_acknowledged (sample_accounting s)" "0 \<le> sa_discarded (sample_accounting s)"
    "0 \<le> sa_buffered (sample_accounting s)" "0 \<le> sa_reserved (sample_accounting s)"
    "0 \<le> sa_pending_vad (sample_accounting s)"
proof -
  have b: "rb_inv (gs_buffer s)" using assms by (simp add: gs_inv_def)
  show "0 \<le> sa_buffered (sample_accounting s)" "0 \<le> sa_reserved (sample_accounting s)"
    using rb_inv_buffered_nonneg [OF b] rb_inv_reserved_nonneg [OF b]
    by (simp_all add: sample_accounting_def)
  show "0 \<le> sa_acknowledged (sample_accounting s)" "0 \<le> sa_discarded (sample_accounting s)"
    "0 \<le> sa_pending_vad (sample_accounting s)"
    using assms b by (simp_all add: sample_accounting_def gs_inv_def rb_inv_def)
qed

section \<open>Properties\<close>


definition example_session :: "GatewaySession result" where
  "example_session = gs_init ''s'' ''w'' ''b'' 16000 100 [] []"


text \<open>No later reservation reuses a job number.\<close>

lemma abort_reservation:
  assumes "gs_inv s" and "abort s = (q, s1)"
  shows "gs_next_job_sequence s1 = gs_next_job_sequence s" and "gs_reservation s1 = None \<or> s1 = s"
proof -
  have "gs_next_job_sequence s1 = gs_next_job_sequence s \<and> (gs_reservation s1 = None \<or> s1 = s)"
  proof (cases "gs_terminal_state s \<in> {ABORTED, FAILED_STATE}")
    case True
    with assms(2) show ?thesis by (simp add: abort_def)
  next
    case False
    from abort_ok [OF assms(1) False] assms(2) show ?thesis by (auto simp: settled_out_def)
  qed
  then show "gs_next_job_sequence s1 = gs_next_job_sequence s" "gs_reservation s1 = None \<or> s1 = s"
    by simp_all
qed

definition past_job :: "GatewaySession \<Rightarrow> int \<Rightarrow> bool" where
  "past_job s k \<longleftrightarrow> k < gs_next_job_sequence s \<and> \<not> holds_job s k"

lemma past_job_same:
  "past_job s k \<Longrightarrow> gs_next_job_sequence t = gs_next_job_sequence s \<Longrightarrow>
   gs_reservation t = None \<or> gs_reservation t = gs_reservation s \<Longrightarrow> past_job t k"
  by (auto simp: past_job_def holds_job_def)

lemma gs_step_past_job:
  assumes "gs_inv s" and "gs_step s x = Inr (y, t)" and "past_job s k"
  shows "past_job t k"
proof (cases x)
  case (AppendPcm p)
  with assms show ?thesis
    by (auto simp: bind_result_eq_Inr append_pcm_def intro: past_job_same split: if_splits)
next
  case (ForwardVad p)
  with assms show ?thesis
    by (auto simp: bind_result_eq_Inr append_pcm_def intro: past_job_same split: if_splits)
next
  case (AcceptVad p)
  with assms show ?thesis
    by (auto simp: bind_result_eq_Inr accept_vad_input_def Let_def intro: past_job_same split: if_splits)
next
  case (RecordDiscarded n)
  with assms show ?thesis
    by (auto simp: bind_result_eq_Inr record_discarded_def intro: past_job_same split: if_splits)
next
  case (AcknowledgeJob j g)
  with assms show ?thesis
    by (auto simp: bind_result_eq_Inr elim!: acknowledge_cases intro: past_job_same)
next
  case (RollbackJob j)
  with assms rollback_ok [OF assms(1), of j] show ?thesis
    by (auto simp: gs_unreserved_def intro: past_job_same split: if_splits)
next
  case (ReserveChunk n f)
  with assms show ?thesis
    by (auto simp: bind_result_eq_Inr reserve_def past_job_def holds_job_def Let_def split: if_splits)
next
  case RequestFinish
  with assms show ?thesis by (auto simp: request_finish_def intro: past_job_same split: if_splits)
next
  case AbortSession
  obtain q s1 where ab: "abort s = (q, s1)" by (cases "abort s")
  with AbortSession assms(2) have "t = s1" by (auto simp: bind_result_eq_Inr)
  with abort_reservation [OF assms(1) ab] assms(3) show ?thesis by (auto intro: past_job_same)
next
  case FailSession
  obtain q s1 where ab: "abort s = (q, s1)" by (cases "abort s")
  with FailSession assms(2) have "t = s1\<lparr>gs_terminal_state := FAILED_STATE\<rparr>"
    by (auto simp: bind_result_eq_Inr fail_def split: sum.splits)
  with abort_reservation [OF assms(1) ab] assms(3) show ?thesis by (auto intro: past_job_same)
next
  case Succeed
  with assms show ?thesis
    by (auto simp: bind_result_eq_Inr succeed_def intro: past_job_same split: if_splits)
qed

lemma attempts_past_job:
  "gs_inv s \<Longrightarrow> past_job s k \<Longrightarrow> past_job (attempts gs_step s ops) k"
proof (induction ops arbitrary: s)
  case Nil
  then show ?case by simp
next
  case (Cons x ops)
  have "past_job (attempt gs_step s x) k"
    using gs_step_past_job [OF Cons.prems(1) _ Cons.prems(2), of x] Cons.prems(2)
    by (auto simp: attempt_def split: sum.splits)
  with Cons.IH session_ledger.attempt_keeps [OF Cons.prems(1), of x] show ?case by simp
qed

lemma past_job_rejected:
  "past_job s k \<Longrightarrow> \<not> matches_reservation s k a b \<and> \<not> isOk (acknowledge s k g)"
  by (auto simp: past_job_def holds_job_def matches_reservation_def acknowledge_def
      require_reservation_def split: option.splits)

text \<open>C22: a result is accepted only for the reservation it was computed for: once the job's
  reservation was acknowledged, rolled back or cancelled by an abort, a late result for it
  matches nothing and is refused, whatever calls came in between.\<close>

theorem late_result_refused:
  assumes "gs_inv s" and "reserve s n f = Inr (r, s1)" and "k = sr_job_sequence r"
    and "x \<in> {AcknowledgeJob k (sr_generation r), RollbackJob k} \<or>
         x = AbortSession \<and> gs_terminal_state s \<notin> {ABORTED, FAILED_STATE}"
    and "t = attempts gs_step (attempt gs_step s1 x) ops"
  shows "matches_reservation s1 k (rc_start (sr_chunk r)) (rc_end (sr_chunk r)) \<and>
     \<not> matches_reservation t k a b \<and> \<not> isOk (acknowledge t k g)"
proof -
  have inv1: "gs_inv s1" by (rule reserve_inv [OF assms(1,2)])
  from assms(2,3) obtain c b' where b': "rb_reserve_range (gs_buffer s) n f = Inr (c, b')"
    and r: "gs_reservation s1 = Some r" "sr_generation r = gs_generation s1" "sr_chunk r = c"
      "gs_buffer s1 = b'" "k < gs_next_job_sequence s1" "gs_terminal_state s1 = gs_terminal_state s"
    by (auto simp: reserve_def bind_result_eq_Inr Let_def split: if_splits)
  have m: "matches_reservation s1 k (rc_start (sr_chunk r)) (rc_end (sr_chunk r))"
    using r assms(3) by (simp add: matches_reservation_def)
  have "past_job (attempt gs_step s1 x) k"
  proof (cases x)
    case (AcknowledgeJob j g)
    moreover have "isOk (rb_acknowledge b' (rc_start c) (rc_end c))"
      using rb_reserve_fields [OF b'] by (simp add: rb_acknowledge_def rb_require_reservation_def Let_def)
    ultimately show ?thesis
      using assms(3,4) r
      by (auto simp: attempt_def acknowledge_def require_reservation_def isOk_iff past_job_def holds_job_def)
  next
    case (RollbackJob j)
    with assms(3,4) r rollback_ok [OF inv1, of j] show ?thesis
      by (auto simp: attempt_def gs_unreserved_def past_job_def holds_job_def)
  next
    case AbortSession
    with assms(4) r(6) abort_ok [OF inv1] r(5) show ?thesis
      by (auto simp: attempt_def settled_out_def past_job_def holds_job_def)
  qed (use assms(4) in auto)
  from attempts_past_job [OF session_ledger.attempt_keeps [OF inv1] this] assms(5)
  have "past_job t k" by simp
  with m past_job_rejected show ?thesis by blast
qed

definition example_loaded :: "GatewaySession result" where
  "example_loaded = bind_result example_session (\<lambda>s. bind_result (append_pcm s [1, 2, 3, 4] True) (\<lambda>(_, t). Inr t))"

lemma example_loaded_ok:
  "\<exists>s r t. example_loaded = Inr s \<and> gs_inv s \<and> gs_terminal_state s = OPEN \<and> reserve s 1 False = Inr (r, t)"
proof -
  obtain s where s: "example_loaded = Inr s"
    and f: "gs_terminal_state s = OPEN" "\<exists>r t. reserve s 1 False = Inr (r, t)"
    by (simp add: example_loaded_def example_session_def gs_init_def rb_init_def append_pcm_def rb_append_def
        rb_held_samples_def reserve_def gs_in_flight_def rb_reserve_range_def rb_buffered_samples_def
        rb_reserved_samples_def Let_def)
  from s have "gs_inv s"
    by (auto simp: example_loaded_def example_session_def bind_result_eq_Inr
        intro: append_pcm_inv [OF gs_init_inv])
  with s f show ?thesis by blast
qed

theorem late_result_refused_witness:
  "\<exists>s r t. example_loaded = Inr s \<and> reserve s 1 False = Inr (r, t) \<and>
     \<not> isOk (acknowledge (attempts gs_step (attempt gs_step t AbortSession) [RequestFinish]) (sr_job_sequence r) 2)"
proof -
  obtain s r t where s: "example_loaded = Inr s" "gs_inv s" "gs_terminal_state s = OPEN"
    and t: "reserve s 1 False = Inr (r, t)"
    using example_loaded_ok by blast
  have "AbortSession \<in> {AcknowledgeJob (sr_job_sequence r) (sr_generation r), RollbackJob (sr_job_sequence r)} \<or>
      AbortSession = AbortSession \<and> gs_terminal_state s \<notin> {ABORTED, FAILED_STATE}"
    using s(3) by simp
  from late_result_refused [OF s(2) t refl this refl, of "[RequestFinish]" 0 0 2] s t show ?thesis by blast
qed

text \<open>Aborting a live session never raises and settles every sample: nothing stays buffered,
  reserved or pending, what was acknowledged stays acknowledged, the rest is discarded, and the
  generation moves on.\<close>

theorem abort_settles_session:
  assumes "gs_inv s" and "gs_terminal_state s \<notin> {ABORTED, FAILED_STATE}"
  shows "\<exists>s'. abort s = (Inr (), s') \<and> gs_terminal_state s' = ABORTED \<and>
     gs_generation s' = gs_generation s + 1 \<and>
     sample_accounting s' = (sample_accounting s)\<lparr>sa_buffered := 0, sa_reserved := 0, sa_pending_vad := 0,
       sa_discarded := sa_accepted (sample_accounting s) - sa_acknowledged (sample_accounting s)\<rparr>"
proof -
  from abort_ok [OF assms] obtain s' where ab: "abort s = (Inr (), s')" "gs_inv s'" "settled_out s'"
    "gs_terminal_state s' = ABORTED" "gs_generation s' = gs_generation s + 1"
    "gs_accepted_samples s' = gs_accepted_samples s"
    "rb_acknowledged (gs_buffer s') = rb_acknowledged (gs_buffer s)" by blast
  have b: "rb_inv (gs_buffer s')" "rb_reservation (gs_buffer s') = None"
    using ab(2,3) by (simp_all add: gs_inv_def settled_out_def)
  have "rb_buffered_samples (gs_buffer s') = 0" "rb_reserved_samples (gs_buffer s') = 0"
    using b(2) ab(3) by (simp_all add: rb_buffered_samples_def rb_reserved_samples_def settled_out_def)
  moreover have "rb_discarded (gs_buffer s') + gs_external_discarded_samples s' =
      gs_accepted_samples s' - rb_acknowledged (gs_buffer s')"
    using b(1) ab(3) by (simp add: rb_inv_def settled_out_def)
  moreover have "gs_accepted_samples s' - rb_accepted (gs_buffer s') - gs_external_discarded_samples s' = 0"
    using ab(3) by (simp add: settled_out_def)
  ultimately have "sample_accounting s' = (sample_accounting s)\<lparr>sa_buffered := 0, sa_reserved := 0,
      sa_pending_vad := 0,
      sa_discarded := sa_accepted (sample_accounting s) - sa_acknowledged (sample_accounting s)\<rparr>"
    unfolding sample_accounting_def using ab(6,7) by simp
  with ab show ?thesis by blast
qed

theorem abort_settles_session_witness:
  "\<exists>s s'. example_loaded = Inr s \<and> abort s = (Inr (), s') \<and> sa_discarded (sample_accounting s') =
     sa_accepted (sample_accounting s) - sa_acknowledged (sample_accounting s)"
proof -
  obtain s where s: "example_loaded = Inr s" "gs_inv s" "gs_terminal_state s = OPEN"
    using example_loaded_ok by blast
  with abort_settles_session [OF s(2)] obtain s' where s': "abort s = (Inr (), s')"
    "sample_accounting s' = (sample_accounting s)\<lparr>sa_buffered := 0, sa_reserved := 0, sa_pending_vad := 0,
       sa_discarded := sa_accepted (sample_accounting s) - sa_acknowledged (sample_accounting s)\<rparr>"
    by auto
  show ?thesis by (intro exI conjI) (rule s(1), rule s'(1), simp add: s'(2))
qed

text \<open>A positive size proposed by \<open>ready_samples\<close> can be reserved, and respects a positive
  maximum.\<close>

theorem ready_samples_reservable:
  assumes "gs_inv s" and "0 < ready_samples s preferred maximum force"
  shows "isOk (reserve s (ready_samples s preferred maximum force) final) \<and>
     (\<forall>m. maximum = Some m \<longrightarrow> 0 < m \<longrightarrow> ready_samples s preferred maximum force \<le> m)"
proof -
  let ?n = "ready_samples s preferred maximum force"
  have nf: "gs_reservation s = None"
    using assms(2) by (auto simp: ready_samples_def gs_in_flight_def split: if_splits)
  have le: "?n \<le> rb_buffered_samples (gs_buffer s)"
    using rb_inv_buffered_nonneg [of "gs_buffer s"] assms(1)
    by (auto simp: ready_samples_def Let_def gs_inv_def)
  have "rb_reservation (gs_buffer s) = None" using nf assms(1) by (simp add: gs_inv_def)
  with nf le assms(2) have ok: "isOk (reserve s ?n final)"
    by (simp add: reserve_def gs_in_flight_def rb_reserve_range_def Let_def)
  have "?n \<le> m" if "maximum = Some m" "0 < m" for m
    using that nf by (auto simp: ready_samples_def Let_def py_or_def gs_in_flight_def)
  with ok show ?thesis by blast
qed

theorem ready_samples_reservable_witness:
  "\<exists>s. example_loaded = Inr s \<and> ready_samples s 1 (Some 1) False = 1 \<and> isOk (reserve s 1 False)"
proof -
  obtain s where s: "example_loaded = Inr s" "gs_inv s" using example_loaded_ok by blast
  have r: "ready_samples s 1 (Some 1) False = 1"
    using s(1) by (auto simp: example_loaded_def example_session_def gs_init_def rb_init_def append_pcm_def
        rb_append_def rb_held_samples_def ready_samples_def gs_in_flight_def rb_buffered_samples_def
        rb_reserved_samples_def py_or_def Let_def)
  from ready_samples_reservable [OF s(2), of 1 "Some 1" False False] r s(1) show ?thesis by auto
qed

text \<open>A maximum of zero (a segment with no room left) is not a limit: \<open>maximum or available\<close>
  reads it as "no maximum", so everything buffered is offered.\<close>

theorem ready_samples_zero_maximum_unlimited:
  "ready_samples s preferred (Some 0) force = ready_samples s preferred None force"
  by (simp add: ready_samples_def py_or_def)

section \<open>The session table\<close>

definition sm_inv :: "SessionManager \<Rightarrow> bool" where
  "sm_inv m \<longleftrightarrow> 0 < sm_max_sessions m \<and> wf_dict (sm_sessions m) \<and>
     int (length (sm_sessions m)) \<le> sm_max_sessions m \<and> list_all (gs_inv \<circ> snd) (sm_sessions m)"

datatype sm_op = CreateSession string string string int int ustr "(ustr, json) dict"
  | CloseSession string
  | OnSession string gs_op

text \<open>The table and the calls its clients make on the sessions they look up in it.\<close>

fun sm_step :: "SessionManager \<Rightarrow> sm_op \<Rightarrow> (unit \<times> SessionManager) result" where
  "sm_step m (CreateSession i w bs rate mx la opts) =
     bind_result (sm_create m i (gs_init i w bs rate mx la opts)) (\<lambda>(_, m'). Inr ((), m'))"
| "sm_step m (CloseSession i) = Inr ((), snd (sm_close m i))"
| "sm_step m (OnSession i x) =
     bind_result (sm_get m i) (\<lambda>s. bind_result (gs_step s x) (\<lambda>(_, t).
       Inr ((), m\<lparr>sm_sessions := AList.update i t (sm_sessions m)\<rparr>)))"

lemma length_update_new: "map_of d k = None \<Longrightarrow> length (AList.update k v d) = Suc (length d)"
  by (induction d) (auto split: if_splits)

lemma length_update_old: "map_of d k = Some u \<Longrightarrow> length (AList.update k v d) = length d"
  by (induction d) (auto split: if_splits)

lemma list_all_update: "list_all (P \<circ> snd) d \<Longrightarrow> P v \<Longrightarrow> list_all (P \<circ> snd) (AList.update k v d)"
  by (induction d) auto

lemma list_all_delete: "list_all (P \<circ> snd) d \<Longrightarrow> list_all (P \<circ> snd) (AList.delete k d)"
  by (induction d) auto

lemma list_all_lookup: "list_all (P \<circ> snd) d \<Longrightarrow> map_of d k = Some v \<Longrightarrow> P v"
  by (auto simp: list_all_iff dest!: map_of_SomeD)

lemma sm_step_inv:
  assumes "sm_inv m" and "sm_step m x = Inr (y, m')"
  shows "sm_inv m'"
proof (cases x)
  case (CreateSession i w bs rate mx la opts)
  with assms show ?thesis
    by (auto simp: sm_create_def bind_result_eq_Inr sm_inv_def length_update_new
        intro!: list_all_update dest: gs_init_inv split: if_splits)
next
  case (CloseSession i)
  with assms length_delete_le [of i "sm_sessions m"] show ?thesis
    by (auto simp: sm_close_def sm_inv_def intro: list_all_delete split: option.splits)
next
  case (OnSession i op)
  with assms obtain s t where s: "map_of (sm_sessions m) i = Some s" "gs_step s op = Inr ((), t)"
    "m' = m\<lparr>sm_sessions := AList.update i t (sm_sessions m)\<rparr>"
    by (auto simp: sm_get_def bind_result_eq_Inr split: option.splits)
  then have "gs_inv t"
    using session_ledger.step_keeps list_all_lookup [of gs_inv "sm_sessions m" i s] assms(1)
    by (auto simp: sm_inv_def)
  with assms(1) s show ?thesis
    by (auto simp: sm_inv_def length_update_old intro: list_all_update)
qed

interpretation session_table: guarded_machine sm_step sm_inv
  by unfold_locales (rule sm_step_inv)

text \<open>Through any sequence of creations, closes and session calls the table never holds more
  sessions than its capacity nor two sessions under one id, and every session in it satisfies the
  session invariant; a creation beyond the capacity or under a used id is refused.\<close>

theorem session_table_bounded:
  assumes "sm_init n = Inr m0" and "m = attempts sm_step m0 ops"
  shows "int (length (sm_sessions m)) \<le> sm_max_sessions m \<and> distinct (map fst (sm_sessions m)) \<and>
     list_all (gs_inv \<circ> snd) (sm_sessions m) \<and>
     (int (length (sm_sessions m)) = sm_max_sessions m \<or> map_of (sm_sessions m) i \<noteq> None \<longrightarrow>
        \<not> isOk (sm_create m i mk))"
proof -
  have "sm_inv m0" using assms(1) by (auto simp: sm_init_def sm_inv_def split: if_splits)
  from session_table.attempts_keep [OF this] assms(2) have "sm_inv m" by simp
  then show ?thesis by (auto simp: sm_inv_def wf_dict_def sm_create_def)
qed

theorem session_table_bounded_witness:
  "\<exists>m0. sm_init 1 = Inr m0 \<and>
     int (length (sm_sessions (attempts sm_step m0 [CreateSession ''a'' ''w'' ''b'' 16000 10 [] [], CloseSession ''a'']))) \<le>
       sm_max_sessions (attempts sm_step m0 [CreateSession ''a'' ''w'' ''b'' 16000 10 [] [], CloseSession ''a''])"
proof -
  obtain m0 where m0: "sm_init 1 = Inr m0" by (simp add: sm_init_def)
  from session_table_bounded [OF m0 refl] m0 show ?thesis by blast
qed

end
