(* ===== verification/Scheduler.thy ===== *)
theory Scheduler
  imports Observability Backends
begin

text \<open>
  \<open>app/asr_gateway_scheduler.py\<close>: bounded per-worker queues, earliest-deadline-first batch
  selection, dispatch, result settlement and failure draining. The hooks the runtime installs
  are a record of methods over the runtime's own state \<open>'e\<close>; the adapter's answer to a submitted
  batch is an argument. \<open>run_once\<close> is split at its one long suspension, the submission: what
  happens before it (\<open>run_once_begin\<close>) and after it (\<open>run_once_finish\<close>), so that enqueues,
  cancellations and other workers' batches may come in between. Clock readings are arguments.
  Stage hooks and the emitted event only observe and are left out.
\<close>

section \<open>Data\<close>

record BatchKey =
  bk_worker_id :: string
  bk_model_revision :: ustr
  bk_language :: ustr
  bk_task :: ustr
  bk_timestamps :: bool
  bk_prompt_identity :: string
  bk_decoding_identity :: string
  bk_sample_format :: string
  bk_length_bucket :: int

text \<open>\<open>queue_deadline\<close> defaults to infinity: \<open>None\<close>.\<close>

record InferenceJob =
  ij_job_id :: string
  ij_session_id :: string
  ij_generation :: int
  ij_job_sequence :: int
  ij_worker_id :: string
  ij_backend_session_id :: string
  ij_start_sample :: int
  ij_end_sample :: int
  ij_pcm :: pcm
  ij_deadline :: seconds
  ij_batch_key :: BatchKey
  ij_final :: bool
  ij_enqueued_at :: seconds
  ij_queue_deadline :: "seconds option"

definition ij_sample_count :: "InferenceJob \<Rightarrow> int" where
  "ij_sample_count j = ij_end_sample j - ij_start_sample j"

definition ij_owner :: "InferenceJob \<Rightarrow> string \<times> int" where
  "ij_owner j = (ij_session_id j, ij_generation j)"

record InferenceResult =
  ir_job_id :: string
  ir_session_id :: string
  ir_generation :: int
  ir_job_sequence :: int
  ir_worker_id :: string
  ir_start_sample :: int
  ir_end_sample :: int
  ir_segment_id :: int
  ir_text :: ustr
  ir_confirmed_text :: ustr
  ir_tail_text :: ustr
  ir_final :: bool
  ir_error :: "string option"
  ir_metadata :: "(string, string) dict option"

text \<open>\<open>InferenceResult.from_job(job, error=...)\<close>.\<close>

definition from_job :: "InferenceJob \<Rightarrow> string \<Rightarrow> InferenceResult" where
  "from_job job err =
     \<lparr>ir_job_id = ij_job_id job, ir_session_id = ij_session_id job, ir_generation = ij_generation job,
      ir_job_sequence = ij_job_sequence job, ir_worker_id = ij_worker_id job,
      ir_start_sample = ij_start_sample job, ir_end_sample = ij_end_sample job, ir_segment_id = 0,
      ir_text = [], ir_confirmed_text = [], ir_tail_text = [], ir_final = False, ir_error = Some err,
      ir_metadata = None\<rparr>"

text \<open>What an adapter may hand back for a job: a result, or an object of another class.\<close>

datatype raw_result = RawResult InferenceResult | RawMalformed

definition coerce_result :: "InferenceJob \<Rightarrow> raw_result \<Rightarrow> InferenceResult result" where
  "coerce_result job raw =
     (case raw of
        RawResult r \<Rightarrow>
          if (ir_job_id r, ir_session_id r, ir_worker_id r, ir_start_sample r, ir_end_sample r) \<noteq>
             (ij_job_id job, ij_session_id job, ij_worker_id job, ij_start_sample job, ij_end_sample job)
          then Inr (from_job job ''invalid adapter result identity'')
          else Inr r
      | RawMalformed \<Rightarrow> Inl (TypeError ''adapter returned malformed result''))"

record 'e SchedulerHooks =
  hk_cleanup :: "InferenceJob \<Rightarrow> ('e, unit) py_method"
  hk_publish :: "InferenceResult \<Rightarrow> ('e, unit) py_method"
  hk_worker_failed :: "string \<Rightarrow> string \<Rightarrow> ('e, unit) py_method"
  hk_reject :: "InferenceJob \<Rightarrow> ('e, unit) py_method"
  hk_discard :: "InferenceJob \<Rightarrow> ('e, unit) py_method"

text \<open>\<open>_noop\<close> and \<open>_noop_failure\<close>, the constructor's defaults.\<close>

definition noop_hooks :: "'e SchedulerHooks" where
  "noop_hooks = \<lparr>hk_cleanup = (\<lambda>_. py_return ()), hk_publish = (\<lambda>_. py_return ()),
     hk_worker_failed = (\<lambda>_ _. py_return ()), hk_reject = (\<lambda>_. py_return ()),
     hk_discard = (\<lambda>_. py_return ())\<rparr>"

text \<open>The scheduler object. \<open>sc_adapters\<close> maps a worker to its adapter's capabilities;
  \<open>sc_accepted\<close> lists the keys whose event is not set yet.\<close>

record GatewayScheduler =
  sc_adapters :: "(string, BackendCapabilities) dict"
  sc_max_wait_seconds :: seconds
  sc_max_ready_jobs :: int
  sc_max_queued_samples :: int
  sc_queues :: "(string, InferenceJob list) dict"
  sc_queued_samples :: int
  sc_fragmentation :: "(string, int) dict"
  sc_cancelled_generations :: "(string \<times> int) list"
  sc_accepted :: "(string \<times> int) list"
  sc_submit_failures :: "(string, string) dict"
  sc_wake :: bool
  sc_closed :: bool

definition scheduler_init ::
  "(string, BackendCapabilities) dict \<Rightarrow> seconds \<Rightarrow> int \<Rightarrow> int \<Rightarrow> GatewayScheduler result" where
  "scheduler_init adapters max_wait max_ready_jobs max_queued_samples =
     (if max_wait < 0 \<or> max_ready_jobs \<le> 0 \<or> max_queued_samples \<le> 0 then
        Inl (ValueError ''scheduler bounds must be non-negative and finite'')
      else Inr \<lparr>sc_adapters = adapters, sc_max_wait_seconds = max_wait,
                sc_max_ready_jobs = max_ready_jobs, sc_max_queued_samples = max_queued_samples,
                sc_queues = [], sc_queued_samples = 0, sc_fragmentation = [],
                sc_cancelled_generations = [], sc_accepted = [], sc_submit_failures = [],
                sc_wake = False, sc_closed = False\<rparr>)"

section \<open>Queueing\<close>

definition queue_of :: "GatewayScheduler \<Rightarrow> string \<Rightarrow> InferenceJob list" where
  "queue_of s w = (case map_of (sc_queues s) w of None \<Rightarrow> [] | Some q \<Rightarrow> q)"

definition set_queue :: "string \<Rightarrow> InferenceJob list \<Rightarrow> GatewayScheduler \<Rightarrow> GatewayScheduler" where
  "set_queue w q s = s\<lparr>sc_queues := AList.update w q (sc_queues s)\<rparr>"

definition total_jobs :: "GatewayScheduler \<Rightarrow> int" where
  "total_jobs s = sum_list (map (\<lambda>q. int (length (snd q))) (sc_queues s))"

definition enqueue :: "GatewayScheduler \<Rightarrow> seconds \<Rightarrow> InferenceJob \<Rightarrow> GatewayScheduler result" where
  "enqueue s now job =
     (if sc_closed s then Inl (RuntimeError ''scheduler is closed'')
      else if map_of (sc_adapters s) (ij_worker_id job) = None then Inl (KeyError (ij_worker_id job))
      else if map_of (sc_submit_failures s) (ij_worker_id job) \<noteq> None then
        Inl (RuntimeError ''worker is failed'')
      else if ij_sample_count job \<le> 0 \<or> int (length (ij_pcm job)) \<noteq> ij_sample_count job * 2 then
        Inl (ValueError ''job PCM range does not match pcm_s16le bytes'')
      else if total_jobs s \<ge> sc_max_ready_jobs s then
        Inl (capacity_buffer_error ''scheduler_ready_job_limit'' (sc_max_ready_jobs s) (total_jobs s) 1)
      else if sc_queued_samples s + ij_sample_count job > sc_max_queued_samples s then
        Inl (capacity_buffer_error ''scheduler_queued_audio_limit'' (sc_max_queued_samples s)
               (sc_queued_samples s) (ij_sample_count job))
      else let job' = (if ij_enqueued_at job = 0 then job\<lparr>ij_enqueued_at := now\<rparr> else job)
           in Inr ((set_queue (ij_worker_id job) (queue_of s (ij_worker_id job) @ [job']) s)
                   \<lparr>sc_queued_samples := sc_queued_samples s + ij_sample_count job, sc_wake := True\<rparr>))"

definition cancel_session :: "GatewayScheduler \<Rightarrow> string \<Rightarrow> int \<Rightarrow> GatewayScheduler" where
  "cancel_session s session_id generation =
     s\<lparr>sc_cancelled_generations := List.insert (session_id, generation) (sc_cancelled_generations s)\<rparr>"

text \<open>\<open>wait_session_safe\<close> returns at once exactly when no event is registered for the session.\<close>

definition session_safe :: "GatewayScheduler \<Rightarrow> string \<Rightarrow> int \<Rightarrow> bool" where
  "session_safe s session_id generation \<longleftrightarrow> (session_id, generation) \<notin> set (sc_accepted s)"

definition mark_safe :: "InferenceJob \<Rightarrow> GatewayScheduler \<Rightarrow> GatewayScheduler" where
  "mark_safe job s = s\<lparr>sc_accepted := removeAll (ij_owner job) (sc_accepted s)\<rparr>"

section \<open>Selection\<close>

definition edf_key :: "InferenceJob \<Rightarrow> seconds \<times> seconds \<times> string" where
  "edf_key j = (ij_deadline j, ij_enqueued_at j, ij_job_id j)"

definition due_at :: "seconds \<Rightarrow> InferenceJob \<Rightarrow> seconds" where
  "due_at max_wait j = min (ij_deadline j) (ij_enqueued_at j + max_wait)"

definition expired_at :: "seconds \<Rightarrow> InferenceJob \<Rightarrow> bool" where
  "expired_at now j = (case ij_queue_deadline j of None \<Rightarrow> False | Some d \<Rightarrow> d < now)"

definition first_job :: "seconds \<Rightarrow> seconds \<Rightarrow> InferenceJob list \<Rightarrow> InferenceJob" where
  "first_job max_wait now queue =
     (case filter (\<lambda>j. ij_final j \<and> due_at max_wait j \<le> now) queue of
        j # _ \<Rightarrow> j
      | [] \<Rightarrow> hd queue)"

definition batch_limit :: "BackendCapabilities \<Rightarrow> int" where
  "batch_limit caps = (if dispatch_mode caps = SINGLE then 1 else max_batch_items caps)"

definition compatible_jobs :: "InferenceJob \<Rightarrow> InferenceJob list \<Rightarrow> InferenceJob list" where
  "compatible_jobs first queue = filter (\<lambda>j. ij_batch_key j = ij_batch_key first) queue"

definition distinct_sessions :: "InferenceJob list \<Rightarrow> int" where
  "distinct_sessions js = int (length (remdups (map ij_session_id js)))"

text \<open>The selection loop: one job per session, until the item or the sample limit.\<close>

fun build_batch ::
  "int \<Rightarrow> int \<Rightarrow> InferenceJob list \<Rightarrow> string list \<Rightarrow> int \<Rightarrow> InferenceJob list \<Rightarrow> InferenceJob list" where
  "build_batch limit max_samples batch sessions cost [] = batch"
| "build_batch limit max_samples batch sessions cost (item # items) =
     (if ij_session_id item \<in> set sessions then
        build_batch limit max_samples batch sessions cost items
      else if int (length batch) \<ge> limit \<or> cost + ij_sample_count item > max_samples then batch
      else build_batch limit max_samples (batch @ [item]) (ij_session_id item # sessions)
             (cost + ij_sample_count item) items)"

record selection =
  sel_first :: InferenceJob
  sel_compatible :: "InferenceJob list"
  sel_due :: bool
  sel_full :: bool
  sel_batch :: "InferenceJob list"

definition select_batch ::
  "BackendCapabilities \<Rightarrow> seconds \<Rightarrow> seconds \<Rightarrow> bool \<Rightarrow> InferenceJob list \<Rightarrow> selection option" where
  "select_batch caps max_wait now force queue =
     (let first = first_job max_wait now queue;
          limit = batch_limit caps;
          compatible = compatible_jobs first queue;
          due = (due_at max_wait first \<le> now);
          full = (limit \<le> distinct_sessions compatible)
      in if \<not> (force \<or> due \<or> full) then None
         else let batch = build_batch limit (max_batch_samples caps) [] [] 0 compatible
              in if batch = [] then None
                 else Some \<lparr>sel_first = first, sel_compatible = compatible, sel_due = due,
                            sel_full = full, sel_batch = batch\<rparr>)"

section \<open>Fragmentation counters\<close>

definition bump :: "string \<Rightarrow> (string, int) dict \<Rightarrow> (string, int) dict" where
  "bump r d = AList.update r ((case map_of d r of None \<Rightarrow> 0 | Some n \<Rightarrow> n) + 1) d"

definition key_differences :: "BatchKey \<Rightarrow> BatchKey \<Rightarrow> string list" where
  "key_differences k f =
     (if bk_worker_id k \<noteq> bk_worker_id f then [''worker_id''] else []) @
     (if bk_model_revision k \<noteq> bk_model_revision f then [''model_revision''] else []) @
     (if bk_language k \<noteq> bk_language f then [''language''] else []) @
     (if bk_task k \<noteq> bk_task f then [''task''] else []) @
     (if bk_timestamps k \<noteq> bk_timestamps f then [''timestamps''] else []) @
     (if bk_prompt_identity k \<noteq> bk_prompt_identity f then [''prompt_identity''] else []) @
     (if bk_decoding_identity k \<noteq> bk_decoding_identity f then
        [if takeWhile ((\<noteq>) CHR '':'') (bk_decoding_identity k) \<noteq>
            takeWhile ((\<noteq>) CHR '':'') (bk_decoding_identity f)
         then ''partial_final_identity'' else ''decoding_identity''] else []) @
     (if bk_sample_format k \<noteq> bk_sample_format f then [''sample_format''] else []) @
     (if bk_length_bucket k \<noteq> bk_length_bucket f then [''length_bucket''] else [])"

definition fragmentation_reasons :: "InferenceJob \<Rightarrow> InferenceJob list \<Rightarrow> string list" where
  "fragmentation_reasons first queue =
     remdups (concat (map (\<lambda>j. key_differences (ij_batch_key j) (ij_batch_key first)) queue))"

definition count_fragmentation ::
  "BackendCapabilities \<Rightarrow> selection \<Rightarrow> InferenceJob list \<Rightarrow> (string, int) dict \<Rightarrow> (string, int) dict" where
  "count_fragmentation caps sel queue d =
     (let incompatible = filter (\<lambda>j. ij_batch_key j \<noteq> ij_batch_key (sel_first sel)) queue;
          d1 = (if incompatible = [] then d
                else fold bump (fragmentation_reasons (sel_first sel) queue) (bump ''batch_key'' d));
          d2 = (if distinct_sessions (sel_compatible sel) < int (length (sel_compatible sel))
                then bump ''session_uniqueness'' d1 else d1);
          d3 = (if sel_due sel \<and> \<not> sel_full sel then bump ''arrival_window'' d2 else d2)
      in if int (length (sel_batch sel)) <
            min (batch_limit caps) (distinct_sessions (sel_compatible sel))
         then bump ''sample_limit'' d3 else d3)"

section \<open>One iteration\<close>

type_synonym ('e, 'a) sched_method = "(GatewayScheduler \<times> 'e, 'a) py_method"

definition change :: "(GatewayScheduler \<Rightarrow> GatewayScheduler) \<Rightarrow> ('e, unit) sched_method" where
  "change f = py_modify (map_prod f id)"

definition look :: "(GatewayScheduler \<Rightarrow> 'a) \<Rightarrow> ('e, 'a) sched_method" where
  "look f = py_read (f \<circ> fst)"

definition uncount :: "int \<Rightarrow> GatewayScheduler \<Rightarrow> GatewayScheduler" where
  "uncount n s = s\<lparr>sc_queued_samples := sc_queued_samples s - n\<rparr>"

text \<open>\<open>queue.remove(item)\<close>, which raises when the item is gone.\<close>

definition queue_remove :: "string \<Rightarrow> InferenceJob \<Rightarrow> ('e, unit) sched_method" where
  "queue_remove w item =
     py_bind (look (\<lambda>s. queue_of s w)) (\<lambda>q.
       if item \<in> set q then change (set_queue w (remove1 item q))
       else py_raise (ValueError ''list.remove(x): x not in list''))"

definition queue_drop :: "string \<Rightarrow> InferenceJob \<Rightarrow> ('e, unit) sched_method" where
  "queue_drop w item = py_seq (queue_remove w item) (change (uncount (ij_sample_count item)))"

definition reject_expired :: "'e SchedulerHooks \<Rightarrow> string \<Rightarrow> InferenceJob \<Rightarrow> ('e, unit) sched_method" where
  "reject_expired H w item =
     py_seq (queue_drop w item)
       (py_seq (on_snd (hk_reject H item)) (on_snd (hk_publish H (from_job item ''queue_timeout''))))"

definition reject_cancelled :: "'e SchedulerHooks \<Rightarrow> string \<Rightarrow> InferenceJob \<Rightarrow> ('e, unit) sched_method" where
  "reject_cancelled H w item =
     py_seq (queue_drop w item) (py_except (on_snd (hk_reject H item)) (\<lambda>_. py_return ()))"

text \<open>The loop of \<open>_drain_failed_queue\<close>: reject every job; a cancelled or unrejectable one is
  discarded, the others get an error result.\<close>

fun drain_jobs ::
  "'e SchedulerHooks \<Rightarrow> string \<Rightarrow> InferenceJob list \<Rightarrow> ('e, InferenceResult list) sched_method" where
  "drain_jobs H w [] = py_return []"
| "drain_jobs H w (job # jobs) =
     py_bind (py_outcome (on_snd (hk_reject H job))) (\<lambda>rejected.
     py_bind (look (\<lambda>s. ij_owner job \<in> set (sc_cancelled_generations s))) (\<lambda>cancelled.
       if \<not> isOk rejected \<or> cancelled then
         py_seq (on_snd (hk_discard H job)) (drain_jobs H w jobs)
       else py_bind (look (\<lambda>s. map_of (sc_submit_failures s) w)) (\<lambda>failure.
              case failure of
                None \<Rightarrow> py_raise (KeyError w)
              | Some err \<Rightarrow> py_bind (drain_jobs H w jobs) (\<lambda>rs. py_return (from_job job err # rs)))))"

definition drain_failed_queue ::
  "'e SchedulerHooks \<Rightarrow> string \<Rightarrow> ('e, InferenceResult list) sched_method" where
  "drain_failed_queue H w =
     py_bind (look (\<lambda>s. queue_of s w)) (\<lambda>jobs.
       py_seq (change (\<lambda>s. uncount (sum_list (map ij_sample_count jobs)) (set_queue w [] s)))
         (drain_jobs H w jobs))"

definition publish_all :: "'e SchedulerHooks \<Rightarrow> InferenceResult list \<Rightarrow> ('e, unit) sched_method" where
  "publish_all H rs = py_for rs (\<lambda>r. on_snd (hk_publish H r))"

text \<open>Taking the batch off the queue registers an unset event per session and generation.\<close>

definition take_item :: "string \<Rightarrow> InferenceJob \<Rightarrow> ('e, unit) sched_method" where
  "take_item w item =
     py_seq (queue_remove w item)
       (change (\<lambda>s. s\<lparr>sc_accepted := List.insert (ij_owner item) (sc_accepted s)\<rparr>))"

datatype dispatch = NoDispatch | Dispatch "InferenceJob list"

text \<open>From a queue without expired and cancelled jobs to the submission. Computing the batch id
  raises when a job id is empty.\<close>

definition dispatch_batch ::
  "(byte list \<Rightarrow> string) \<Rightarrow> string \<Rightarrow> bool \<Rightarrow> seconds \<Rightarrow> ('e, dispatch) sched_method" where
  "dispatch_batch sha256_hex w force now =
     py_bind (look (\<lambda>s. map_of (sc_adapters s) w)) (\<lambda>adapter.
       case adapter of
         None \<Rightarrow> py_raise (KeyError w)
       | Some caps \<Rightarrow>
           py_seq (change (\<lambda>s. set_queue w (sort_key edf_key (queue_of s w)) s))
             (py_bind (look (\<lambda>s. (queue_of s w, sc_max_wait_seconds s))) (\<lambda>(queue, max_wait).
               case select_batch caps max_wait now force queue of
                 None \<Rightarrow> py_return NoDispatch
               | Some sel \<Rightarrow>
                   py_seq (change (\<lambda>s. s\<lparr>sc_fragmentation :=
                             count_fragmentation caps sel queue (sc_fragmentation s)\<rparr>))
                     (py_seq (py_for (sel_batch sel) (take_item w))
                       (case stable_batch_id sha256_hex (map ij_job_id (sel_batch sel)) of
                          Inl e \<Rightarrow> py_raise e
                        | Inr _ \<Rightarrow> py_return (Dispatch (sel_batch sel)))))))"

definition run_once_begin ::
  "'e SchedulerHooks \<Rightarrow> (byte list \<Rightarrow> string) \<Rightarrow> string \<Rightarrow> bool \<Rightarrow> seconds \<Rightarrow> seconds \<Rightarrow>
   ('e, dispatch) sched_method" where
  "run_once_begin H sha256_hex w force expiry_now now =
     py_seq (change (\<lambda>s. set_queue w (queue_of s w) s))
     (py_bind (look (\<lambda>s. map_of (sc_submit_failures s) w)) (\<lambda>failure.
       if failure \<noteq> None then
         py_bind (drain_failed_queue H w) (\<lambda>rs. py_seq (publish_all H rs) (py_return NoDispatch))
       else
         py_bind (look (\<lambda>s. filter (expired_at expiry_now) (queue_of s w))) (\<lambda>expired.
         py_seq (py_for expired (reject_expired H w))
         (py_bind (look (\<lambda>s. filter (\<lambda>j. ij_owner j \<in> set (sc_cancelled_generations s)) (queue_of s w)))
           (\<lambda>cancelled.
         py_seq (py_for cancelled (reject_cancelled H w))
         (py_bind (look (\<lambda>s. queue_of s w)) (\<lambda>queue.
           if queue = [] then py_return NoDispatch
           else dispatch_batch sha256_hex w force now)))))))"

text \<open>After the submission returned \<open>raw\<close> (or raised, or timed out): a failed submission fails the
  worker and drains its queue.\<close>

fun coerce_pairs :: "(InferenceJob \<times> raw_result) list \<Rightarrow> InferenceResult list result" where
  "coerce_pairs [] = Inr []"
| "coerce_pairs ((job, r) # ps) =
     bind_result (coerce_result job r) (\<lambda>x. bind_result (coerce_pairs ps) (\<lambda>xs. Inr (x # xs)))"

definition coerce_all :: "InferenceJob list \<Rightarrow> raw_result list result \<Rightarrow> InferenceResult list result" where
  "coerce_all batch raw =
     bind_result raw (\<lambda>rs.
       if length rs \<noteq> length batch then
         Inl (RuntimeError ''adapter result count does not match submitted batch'')
       else coerce_pairs (zip batch rs))"

definition submission_results ::
  "'e SchedulerHooks \<Rightarrow> string \<Rightarrow> InferenceJob list \<Rightarrow> raw_result list result \<Rightarrow>
   ('e, InferenceResult list \<times> InferenceResult list) sched_method" where
  "submission_results H w batch raw =
     (case coerce_all batch raw of
        Inr results \<Rightarrow> py_return (results, [])
      | Inl exc \<Rightarrow>
          let err = error_type_name exc @ '': batch failed'' in
          py_bind (look (\<lambda>s. map_of (sc_submit_failures s) w)) (\<lambda>failed.
          py_seq (if failed \<noteq> None then py_return ()
                  else py_seq (change (\<lambda>s. s\<lparr>sc_submit_failures := AList.update w err (sc_submit_failures s)\<rparr>))
                         (on_snd (hk_worker_failed H w ''submit_failed'')))
          (py_bind (drain_failed_queue H w) (\<lambda>queued_failures.
            py_return (map (\<lambda>job. from_job job err) batch, queued_failures)))))"

definition discard_safely :: "'e SchedulerHooks \<Rightarrow> InferenceJob \<Rightarrow> ('e, unit) sched_method" where
  "discard_safely H job = py_finally (on_snd (hk_discard H job)) (change (mark_safe job))"

text \<open>A cleanup failure poisons the result: an error is published instead.\<close>

definition settle_poisoned ::
  "'e SchedulerHooks \<Rightarrow> string \<Rightarrow> InferenceJob \<Rightarrow> ('e, unit) sched_method" where
  "settle_poisoned H w job =
     py_bind (look (\<lambda>s. map_of (sc_submit_failures s) w)) (\<lambda>failed.
     py_seq (if failed \<noteq> None then py_return () else on_snd (hk_worker_failed H w ''cleanup_failed''))
     (py_seq (on_snd (hk_publish H (from_job job ''cleanup_failed'')))
       (change (mark_safe job))))"

definition settle_cleaned ::
  "'e SchedulerHooks \<Rightarrow> InferenceJob \<Rightarrow> InferenceResult \<Rightarrow> ('e, unit) sched_method" where
  "settle_cleaned H job r =
     py_bind (look (\<lambda>s. ij_owner job \<in> set (sc_cancelled_generations s))) (\<lambda>cancelled.
       if cancelled then discard_safely H job
       else if ir_generation r \<noteq> ij_generation job \<or> ir_job_sequence r \<noteq> ij_job_sequence job
       then discard_safely H job
       else py_finally (on_snd (hk_publish H r)) (change (mark_safe job)))"

definition settle_job ::
  "'e SchedulerHooks \<Rightarrow> string \<Rightarrow> InferenceJob \<Rightarrow> InferenceResult \<Rightarrow> ('e, unit) sched_method" where
  "settle_job H w job r =
     py_bind (py_outcome (on_snd (hk_cleanup H job))) (\<lambda>cleaned.
       case cleaned of
         Inl (StaleResultError _) \<Rightarrow> discard_safely H job
       | Inl _ \<Rightarrow> settle_poisoned H w job
       | Inr _ \<Rightarrow> settle_cleaned H job r)"

definition run_once_finish ::
  "'e SchedulerHooks \<Rightarrow> string \<Rightarrow> InferenceJob list \<Rightarrow> raw_result list result \<Rightarrow>
   ('e, InferenceResult list) sched_method" where
  "run_once_finish H w batch raw =
     py_bind (submission_results H w batch raw) (\<lambda>(results, queued_failures).
     py_seq (change (uncount (sum_list (map ij_sample_count batch))))
     (py_seq (py_for (zip batch results) (\<lambda>(job, r). settle_job H w job r))
     (py_seq (publish_all H queued_failures) (py_return results))))"

section \<open>The background loop\<close>

definition scheduler_close :: "GatewayScheduler \<Rightarrow> GatewayScheduler" where
  "scheduler_close s = s\<lparr>sc_closed := True, sc_wake := True\<rparr>"

text \<open>How long \<open>_run\<close> sleeps when nothing was dispatched: \<open>None\<close> is until the next wake-up.\<close>

definition idle_timeout :: "GatewayScheduler \<Rightarrow> seconds \<Rightarrow> seconds option" where
  "idle_timeout s now =
     (case concat (map (map (due_at (sc_max_wait_seconds s)) \<circ> snd) (sc_queues s)) of
        [] \<Rightarrow> None
      | d # ds \<Rightarrow> Some (max 0 (fold min ds d - now)))"

record scheduler_snapshot =
  ss_ready_depth :: int
  ss_queued_samples :: int
  ss_workers :: "(string, int) dict"
  ss_fragmentation :: "(string, int) dict"

definition scheduler_snapshot :: "GatewayScheduler \<Rightarrow> scheduler_snapshot" where
  "scheduler_snapshot s =
     \<lparr>ss_ready_depth = total_jobs s, ss_queued_samples = sc_queued_samples s,
      ss_workers = map (\<lambda>(w, q). (w, int (length q))) (sc_queues s),
      ss_fragmentation = sort_key fst (sc_fragmentation s)\<rparr>"

section \<open>Selection lemmas\<close>

definition samples_of :: "InferenceJob list \<Rightarrow> int" where
  "samples_of js = sum_list (map ij_sample_count js)"

lemma samples_of_simps [simp]:
  "samples_of [] = 0" "samples_of (j # js) = ij_sample_count j + samples_of js"
  "samples_of (xs @ ys) = samples_of xs + samples_of ys"
  by (simp_all add: samples_of_def)

lemma build_batch_spec:
  "\<exists>xs. build_batch L M b ss c items = b @ xs \<and> subseq xs items \<and>
     distinct (map ij_session_id xs) \<and> set (map ij_session_id xs) \<inter> set ss = {} \<and>
     (xs \<noteq> [] \<longrightarrow> int (length (b @ xs)) \<le> L \<and> c + samples_of xs \<le> M)"
proof (induction L M b ss c items rule: build_batch.induct)
  case (1 L M b ss c)
  then show ?case by (intro exI [of _ "[]"]) simp
next
  case (2 L M b ss c item items)
  consider (skip) "ij_session_id item \<in> set ss"
    | (stop) "ij_session_id item \<notin> set ss" "int (length b) \<ge> L \<or> c + ij_sample_count item > M"
    | (take) "ij_session_id item \<notin> set ss" "\<not> (int (length b) \<ge> L \<or> c + ij_sample_count item > M)"
    by blast
  then show ?case
  proof cases
    case skip
    with "2.IH"(1) show ?thesis by (auto intro: subseq_Cons')
  next
    case stop
    then show ?thesis by (intro exI [of _ "[]"]) auto
  next
    case take
    with "2.IH"(2) obtain xs where
      xs: "build_batch L M (b @ [item]) (ij_session_id item # ss) (c + ij_sample_count item) items = (b @ [item]) @ xs"
      "subseq xs items" "distinct (map ij_session_id xs)"
      "set (map ij_session_id xs) \<inter> set (ij_session_id item # ss) = {}"
      "xs \<noteq> [] \<longrightarrow> int (length ((b @ [item]) @ xs)) \<le> L \<and> c + ij_sample_count item + samples_of xs \<le> M"
      by blast
    have "build_batch L M b ss c (item # items) = b @ (item # xs)" using take xs(1) by simp
    moreover have "distinct (map ij_session_id (item # xs))"
      "set (map ij_session_id (item # xs)) \<inter> set ss = {}"
      using xs(3,4) take(1) by auto
    moreover have "int (length (b @ (item # xs))) \<le> L \<and> c + samples_of (item # xs) \<le> M"
      using xs(5) take(2) by (cases "xs = []") auto
    ultimately show ?thesis using xs(2) by (intro exI [of _ "item # xs"]) simp
  qed
qed

lemma build_batch_takes_first:
  assumes "0 < L" and "ij_sample_count item \<le> M"
  shows "\<exists>xs. build_batch L M [] [] 0 (item # items) = item # xs"
  using build_batch_spec [of L M "[item]" "[ij_session_id item]" "ij_sample_count item" items] assms
  by auto

lemma first_job_mem: "queue \<noteq> [] \<Longrightarrow> first_job mw now queue \<in> set queue"
  by (auto simp: first_job_def split: list.splits dest!: filter_eq_ConsD)

text \<open>What the selection promises of a queue in deadline order.\<close>

lemma select_batch_spec:
  assumes "select_batch caps mw now force queue = Some sel"
  shows "sel_batch sel \<noteq> [] \<and> subseq (sel_batch sel) queue \<and> distinct (map ij_session_id (sel_batch sel)) \<and>
     (\<forall>j \<in> set (sel_batch sel). ij_batch_key j = ij_batch_key (sel_first sel)) \<and>
     int (length (sel_batch sel)) \<le> batch_limit caps \<and> samples_of (sel_batch sel) \<le> max_batch_samples caps \<and>
     sel_first sel = first_job mw now queue"
proof -
  let ?first = "first_job mw now queue"
  let ?c = "compatible_jobs ?first queue"
  let ?b = "build_batch (batch_limit caps) (max_batch_samples caps) [] [] 0 ?c"
  from assms have b: "sel_batch sel = ?b" "?b \<noteq> []" "sel_first sel = ?first"
    by (auto simp: select_batch_def Let_def split: if_splits)
  from build_batch_spec [of "batch_limit caps" "max_batch_samples caps" "[]" "[]" 0 ?c] b(2)
  have sp: "subseq ?b ?c" "distinct (map ij_session_id ?b)" "int (length ?b) \<le> batch_limit caps"
    "samples_of ?b \<le> max_batch_samples caps"
    by auto
  have "subseq ?c queue" by (simp add: compatible_jobs_def)
  moreover have "\<forall>j \<in> set ?c. ij_batch_key j = ij_batch_key ?first" by (simp add: compatible_jobs_def)
  ultimately show ?thesis
    using sp b subseq_set [OF sp(1)] subseq_order.trans [OF sp(1)] by auto
qed

section \<open>Accounting\<close>

definition queued_sum :: "GatewayScheduler \<Rightarrow> int" where
  "queued_sum s = sum_list (map (samples_of \<circ> snd) (sc_queues s))"

text \<open>Jobs as the runtime builds them: a nonempty sample range and a proper id.\<close>

definition job_ok :: "InferenceJob \<Rightarrow> bool" where
  "job_ok j \<longleftrightarrow> 0 < ij_sample_count j \<and> ij_job_id j \<noteq> [] \<and> length (ij_job_id j) < 2 ^ 32"

text \<open>\<open>balanced n\<close>: the sample counter is what is queued plus \<open>n\<close> samples out at the workers, within
  the two limits.\<close>

definition balanced :: "int \<Rightarrow> GatewayScheduler \<Rightarrow> bool" where
  "balanced n s \<longleftrightarrow> wf_dict (sc_queues s) \<and> sc_queued_samples s = queued_sum s + n \<and> 0 \<le> n \<and>
     list_all (list_all job_ok \<circ> snd) (sc_queues s) \<and>
     total_jobs s \<le> sc_max_ready_jobs s \<and> sc_queued_samples s \<le> sc_max_queued_samples s"

lemma queue_of_set_queue [simp]: "queue_of (set_queue w q s) v = (if v = w then q else queue_of s v)"
  by (simp add: queue_of_def set_queue_def)

lemma set_queue_other [simp]:
  "sc_queued_samples (set_queue w q s) = sc_queued_samples s"
  "sc_max_ready_jobs (set_queue w q s) = sc_max_ready_jobs s"
  "sc_max_queued_samples (set_queue w q s) = sc_max_queued_samples s"
  "sc_adapters (set_queue w q s) = sc_adapters s"
  "sc_max_wait_seconds (set_queue w q s) = sc_max_wait_seconds s"
  "sc_cancelled_generations (set_queue w q s) = sc_cancelled_generations s"
  "sc_accepted (set_queue w q s) = sc_accepted s"
  "sc_submit_failures (set_queue w q s) = sc_submit_failures s"
  "sc_fragmentation (set_queue w q s) = sc_fragmentation s"
  by (simp_all add: set_queue_def)

lemma uncount_other [simp]:
  "sc_queued_samples (uncount n s) = sc_queued_samples s - n"
  "sc_queues (uncount n s) = sc_queues s" "queue_of (uncount n s) v = queue_of s v"
  "sc_max_ready_jobs (uncount n s) = sc_max_ready_jobs s"
  "sc_max_queued_samples (uncount n s) = sc_max_queued_samples s"
  "sc_adapters (uncount n s) = sc_adapters s"
  "sc_max_wait_seconds (uncount n s) = sc_max_wait_seconds s"
  "sc_cancelled_generations (uncount n s) = sc_cancelled_generations s"
  "sc_accepted (uncount n s) = sc_accepted s"
  "sc_submit_failures (uncount n s) = sc_submit_failures s"
  by (simp_all add: uncount_def queue_of_def)

lemma queued_sum_set_queue:
  assumes "wf_dict (sc_queues s)"
  shows "queued_sum (set_queue w q s) = queued_sum s - samples_of (queue_of s w) + samples_of q"
  using sum_values_update [OF assms, of samples_of w q]
  by (simp add: queued_sum_def set_queue_def queue_of_def split: option.splits)

lemma total_jobs_set_queue:
  assumes "wf_dict (sc_queues s)"
  shows "total_jobs (set_queue w q s) = total_jobs s - int (length (queue_of s w)) + int (length q)"
  using sum_values_update [OF assms, of "\<lambda>q. int (length q)" w q]
  by (simp add: total_jobs_def set_queue_def queue_of_def comp_def split: option.splits)

lemma queue_of_ok:
  "list_all (list_all job_ok \<circ> snd) (sc_queues s) \<Longrightarrow> list_all job_ok (queue_of s w)"
  by (cases "map_of (sc_queues s) w") (auto simp: queue_of_def list_all_iff dest!: map_of_SomeD)

lemma list_all_set_queue:
  "list_all (list_all P \<circ> snd) d \<Longrightarrow> list_all P q \<Longrightarrow> list_all (list_all P \<circ> snd) (AList.update w q d)"
  by (induction d) auto

lemma samples_of_nonneg: "list_all job_ok q \<Longrightarrow> 0 \<le> samples_of q"
  by (induction q) (auto simp: job_ok_def)

lemma samples_of_mset: "mset xs = mset ys \<Longrightarrow> samples_of xs = samples_of ys"
  unfolding samples_of_def by (metis mset_map sum_mset_sum_list)

lemma samples_of_remove1: "j \<in> set q \<Longrightarrow> samples_of (remove1 j q) = samples_of q - ij_sample_count j"
  by (simp add: samples_of_def sum_list_remove1)

text \<open>Replacing a worker's queue by a part of it moves the difference out to the worker.\<close>

lemma balanced_set_queue:
  assumes "balanced n s" and "list_all job_ok q" and "length q \<le> length (queue_of s w)"
    and "samples_of q \<le> samples_of (queue_of s w)"
  shows "balanced (n + samples_of (queue_of s w) - samples_of q) (set_queue w q s)"
  using assms queued_sum_set_queue [of s w q] total_jobs_set_queue [of s w q]
  by (auto simp: balanced_def list_all_set_queue set_queue_def)

lemma balanced_uncount:
  "balanced n s \<Longrightarrow> 0 \<le> m \<Longrightarrow> m \<le> n \<Longrightarrow> balanced (n - m) (uncount m s)"
  by (simp add: balanced_def queued_sum_def total_jobs_def)

lemma balanced_remove1:
  assumes "balanced n s" and "j \<in> set (queue_of s w)"
  shows "balanced (n + ij_sample_count j) (set_queue w (remove1 j (queue_of s w)) s)"
proof -
  have ok: "list_all job_ok (queue_of s w)" using assms(1) by (simp add: balanced_def queue_of_ok)
  then have "list_all job_ok (remove1 j (queue_of s w))" "0 < ij_sample_count j"
    using assms(2) by (auto simp: list_all_iff job_ok_def dest: set_mp [OF set_remove1_subset])
  with balanced_set_queue [OF assms(1), of "remove1 j (queue_of s w)" w] assms(2) show ?thesis
    by (simp add: samples_of_remove1 length_remove1)
qed

lemma balanced_drop:
  assumes "balanced n s" and "j \<in> set (queue_of s w)"
  shows "balanced n (uncount (ij_sample_count j) (set_queue w (remove1 j (queue_of s w)) s))"
proof -
  have "0 < ij_sample_count j"
    using assms queue_of_ok [of s w] by (auto simp: balanced_def list_all_iff job_ok_def)
  with balanced_uncount [OF balanced_remove1 [OF assms], of "ij_sample_count j"] assms(1) show ?thesis
    by (simp add: balanced_def)
qed

lemma balanced_frame [simp]:
  "balanced n (s\<lparr>sc_accepted := a\<rparr>) = balanced n s"
  "balanced n (s\<lparr>sc_fragmentation := f\<rparr>) = balanced n s"
  "balanced n (s\<lparr>sc_submit_failures := d\<rparr>) = balanced n s"
  "balanced n (s\<lparr>sc_cancelled_generations := c\<rparr>) = balanced n s"
  "balanced n (mark_safe j s) = balanced n s"
  by (simp_all add: balanced_def queued_sum_def total_jobs_def mark_safe_def)

lemma enqueue_balanced:
  assumes "balanced n s" and "enqueue s now job = Inr s'" and "ij_job_id job \<noteq> []"
    and "length (ij_job_id job) < 2 ^ 32"
  shows "balanced n s'"
proof -
  define job' where "job' = (if ij_enqueued_at job = 0 then job\<lparr>ij_enqueued_at := now\<rparr> else job)"
  let ?w = "ij_worker_id job"
  let ?s1 = "set_queue ?w (queue_of s ?w @ [job']) s"
  from assms(2) have pos: "0 < ij_sample_count job" and jobs: "total_jobs s < sc_max_ready_jobs s"
    and fit: "sc_queued_samples s + ij_sample_count job \<le> sc_max_queued_samples s"
    and s': "s' = ?s1\<lparr>sc_queued_samples := sc_queued_samples s + ij_sample_count job, sc_wake := True\<rparr>"
    by (auto simp: enqueue_def Let_def job'_def split: if_splits)
  have same: "ij_sample_count job' = ij_sample_count job" "ij_job_id job' = ij_job_id job"
    by (simp_all add: job'_def ij_sample_count_def)
  have wf: "wf_dict (sc_queues s)" using assms(1) by (simp add: balanced_def)
  have "list_all (list_all job_ok \<circ> snd) (sc_queues ?s1)"
    using assms queue_of_ok [of s ?w] pos same
    by (auto simp: balanced_def set_queue_def job_ok_def intro!: list_all_set_queue)
  then show ?thesis
    using assms(1) queued_sum_set_queue [OF wf, of ?w "queue_of s ?w @ [job']"]
      total_jobs_set_queue [OF wf, of ?w "queue_of s ?w @ [job']"] jobs fit same
    by (simp add: s' balanced_def queued_sum_def total_jobs_def) (simp add: set_queue_def wf_dict_update)
qed

section \<open>Accounting through an iteration\<close>

abbreviation bal :: "int \<Rightarrow> GatewayScheduler \<times> 'e \<Rightarrow> bool" where
  "bal n \<equiv> \<lambda>p. balanced n (fst p)"

lemma triple_change [simp]:
  "triple P (change f) Q E \<longleftrightarrow> (\<forall>s e. P (s, e) \<longrightarrow> Q () (f s, e))"
  by (simp add: change_def)

lemma triple_look:
  "(\<And>x. triple (\<lambda>p. P p \<and> f (fst p) = x) (g x) Q E) \<Longrightarrow> triple P (py_bind (look f) g) Q E"
  unfolding look_def by (rule triple_bind_read) simp

lemma bal_hook: "triple (bal n) (on_snd m) (\<lambda>_. bal n) (bal n)"
  by (rule triple_on_snd) simp

lemma bal_hook_ok: "never_raises m \<Longrightarrow> triple (bal n) (on_snd m) (\<lambda>_. bal n) (\<lambda>_. False)"
  by (rule triple_on_snd_ok) simp_all

lemma queue_drop_bal: "triple (bal n) (queue_drop w j) (\<lambda>_. bal n) (bal n)"
  unfolding triple_def
  by (auto simp: queue_drop_def queue_remove_def method_defs look_def change_def balanced_drop)

lemma reject_expired_bal: "triple (bal n) (reject_expired H w j) (\<lambda>_. bal n) (bal n)"
  unfolding reject_expired_def
  by (rule triple_seq [OF queue_drop_bal triple_seq [OF bal_hook bal_hook]])

lemma reject_cancelled_bal: "triple (bal n) (reject_cancelled H w j) (\<lambda>_. bal n) (bal n)"
  unfolding reject_cancelled_def
  by (intro triple_seq [OF queue_drop_bal] triple_except [OF bal_hook]) simp

lemma publish_all_bal: "triple (bal n) (publish_all H rs) (\<lambda>_. bal n) (bal n)"
  unfolding publish_all_def by (intro triple_for bal_hook)

lemma drain_jobs_bal: "triple (bal n) (drain_jobs H w jobs) (\<lambda>_. bal n) (bal n)"
proof (induction jobs)
  case Nil
  then show ?case by simp
next
  case (Cons job jobs)
  have rest: "triple (\<lambda>p. bal n p \<and> X p) (drain_jobs H w jobs) (\<lambda>_. bal n) (bal n)" for X
    using Cons.IH by (rule triple_pre [rotated]) simp
  show ?case
    unfolding drain_jobs.simps
    apply (rule triple_bind [where R = "\<lambda>_. bal n"])
     apply (rule triple_outcome [OF bal_hook], assumption)
    apply (rule triple_look, rule triple_if)
     apply (rule triple_seq [OF triple_pre [OF _ bal_hook] Cons.IH], simp)
    apply (rule triple_look)
    apply (simp split: option.split)
    apply (intro conjI impI allI)
    apply (rule triple_bind [OF triple_pre [OF _ Cons.IH]], simp)
    apply simp
    done
qed

lemma balanced_drain:
  "balanced n s \<Longrightarrow> balanced n (uncount (samples_of (queue_of s w)) (set_queue w [] s))"
proof -
  assume b: "balanced n s"
  then have "0 \<le> samples_of (queue_of s w)" by (simp add: balanced_def queue_of_ok samples_of_nonneg)
  with balanced_uncount [OF balanced_set_queue [OF b, of "[]" w], of "samples_of (queue_of s w)"] b
  show ?thesis by (simp add: balanced_def)
qed

lemma drain_failed_queue_bal: "triple (bal n) (drain_failed_queue H w) (\<lambda>_. bal n) (bal n)"
  unfolding drain_failed_queue_def samples_of_def [symmetric]
  by (rule triple_look, rule triple_seq [OF _ drain_jobs_bal]) (auto intro: balanced_drain)

fun taken :: "string \<Rightarrow> InferenceJob list \<Rightarrow> GatewayScheduler \<Rightarrow> GatewayScheduler" where
  "taken w [] s = s"
| "taken w (j # js) s =
     taken w js ((set_queue w (remove1 j (queue_of s w)) s)\<lparr>sc_accepted := List.insert (ij_owner j) (sc_accepted s)\<rparr>)"

lemma queue_of_frame [simp]:
  "queue_of (s\<lparr>sc_accepted := a\<rparr>) w = queue_of s w"
  "queue_of (s\<lparr>sc_fragmentation := f\<rparr>) w = queue_of s w"
  by (simp_all add: queue_of_def)

lemma take_items_run:
  "mset js \<subseteq># mset (queue_of s w) \<Longrightarrow> py_for js (take_item w) (s, e) = (Inr (), (taken w js s, e))"
proof (induction js arbitrary: s)
  case Nil
  then show ?case by (simp add: py_return_def)
next
  case (Cons j js)
  have "j \<in> set (queue_of s w)" using Cons.prems mset_subset_eqD by force
  moreover have "mset js \<subseteq># mset (remove1 j (queue_of s w))"
    using Cons.prems by (simp add: insert_subset_eq_iff)
  ultimately show ?case
    using Cons.IH [of "(set_queue w (remove1 j (queue_of s w)) s)\<lparr>sc_accepted := List.insert (ij_owner j) (sc_accepted s)\<rparr>"]
    by (simp add: take_item_def queue_remove_def method_defs look_def change_def)
qed

lemma taken_balanced:
  "balanced n s \<Longrightarrow> mset js \<subseteq># mset (queue_of s w) \<Longrightarrow> balanced (n + samples_of js) (taken w js s)"
proof (induction js arbitrary: n s)
  case Nil
  then show ?case by simp
next
  case (Cons j js)
  have "j \<in> set (queue_of s w)" using Cons.prems mset_subset_eqD by force
  from balanced_remove1 [OF Cons.prems(1) this] Cons.prems(2)
  show ?case
    using Cons.IH [of "n + ij_sample_count j"
        "(set_queue w (remove1 j (queue_of s w)) s)\<lparr>sc_accepted := List.insert (ij_owner j) (sc_accepted s)\<rparr>"]
    by (simp add: insert_subset_eq_iff algebra_simps)
qed

lemma batch_preimage_ok:
  "(\<forall>i \<in> set ids. i \<noteq> [] \<and> length i < 2 ^ 32) \<Longrightarrow> isOk (batch_preimage ids)"
  by (induction ids) (auto simp: isOk_iff)

lemma stable_batch_id_ok:
  assumes "list_all job_ok js" and "js \<noteq> []"
  shows "\<exists>i. stable_batch_id sha (map ij_job_id js) = Inr i"
proof -
  have "isOk (batch_preimage (map ij_job_id js))"
    using assms(1) by (intro batch_preimage_ok) (auto simp: list_all_iff job_ok_def)
  with assms(2) show ?thesis by (auto simp: stable_batch_id_def isOk_iff)
qed

definition dispatched_bal :: "int \<Rightarrow> dispatch \<Rightarrow> GatewayScheduler \<times> 'e \<Rightarrow> bool" where
  "dispatched_bal n d p = (case d of NoDispatch \<Rightarrow> bal n p
     | Dispatch batch \<Rightarrow> bal (n + samples_of batch) p \<and> list_all job_ok batch)"

text \<open>The dispatch in closed form: sort, select, take.\<close>

definition sorted_queue :: "string \<Rightarrow> GatewayScheduler \<Rightarrow> GatewayScheduler" where
  "sorted_queue w s = set_queue w (sort_key edf_key (queue_of s w)) s"

lemma sorted_queue_balanced: "balanced n s \<Longrightarrow> balanced n (sorted_queue w s)"
proof -
  let ?q = "sort_key edf_key (queue_of s w)"
  assume b: "balanced n s"
  then have "list_all job_ok (queue_of s w)" by (simp add: balanced_def queue_of_ok)
  then have "list_all job_ok ?q" by (simp add: list_all_iff)
  with balanced_set_queue [OF b, of ?q w] samples_of_mset [of ?q "queue_of s w"] show ?thesis
    by (simp add: sorted_queue_def)
qed

lemma dispatch_batch_run:
  assumes caps: "map_of (sc_adapters s) w = Some caps"
    and sel: "select_batch caps (sc_max_wait_seconds s) now force (sort_key edf_key (queue_of s w)) = Some sel"
    and ok: "list_all job_ok (queue_of s w)"
  shows "\<exists>f. dispatch_batch sha w force now (s, e) =
    (Inr (Dispatch (sel_batch sel)), (taken w (sel_batch sel) (sorted_queue w s\<lparr>sc_fragmentation := f\<rparr>), e))"
proof -
  let ?q = "sort_key edf_key (queue_of s w)"
  let ?s1 = "sorted_queue w s\<lparr>sc_fragmentation := count_fragmentation caps sel ?q (sc_fragmentation s)\<rparr>"
  note sp = select_batch_spec [OF sel]
  have ss: "subseq (sel_batch sel) ?q" using sp by blast
  have sub: "mset (sel_batch sel) \<subseteq># mset (queue_of ?s1 w)"
    using subseq_mset [OF ss] by (simp add: sorted_queue_def)
  have "list_all job_ok (sel_batch sel)" using ok subseq_set [OF ss] by (auto simp: list_all_iff)
  from stable_batch_id_ok [OF this, of sha] sp obtain i
    where i: "stable_batch_id sha (map ij_job_id (sel_batch sel)) = Inr i" by blast
  have "dispatch_batch sha w force now (s, e) = (Inr (Dispatch (sel_batch sel)), (taken w (sel_batch sel) ?s1, e))"
    using caps sel i take_items_run [OF sub, of e]
    by (simp add: dispatch_batch_def py_seq_def py_bind_def py_return_def look_def change_def py_read_def
        py_modify_def sorted_queue_def)
  then show ?thesis by blast
qed

lemma dispatch_batch_cases:
  assumes "balanced n s"
  shows "(\<exists>x. dispatch_batch sha w force now (s, e) = (Inl x, (s, e))) \<or>
    dispatch_batch sha w force now (s, e) = (Inr NoDispatch, (sorted_queue w s, e)) \<or>
    (\<exists>caps sel f. map_of (sc_adapters s) w = Some caps \<and>
       select_batch caps (sc_max_wait_seconds s) now force (sort_key edf_key (queue_of s w)) = Some sel \<and>
       dispatch_batch sha w force now (s, e) =
         (Inr (Dispatch (sel_batch sel)), (taken w (sel_batch sel) (sorted_queue w s\<lparr>sc_fragmentation := f\<rparr>), e)))"
proof (cases "map_of (sc_adapters s) w")
  case None
  then show ?thesis by (simp add: dispatch_batch_def method_defs look_def)
next
  case (Some caps)
  show ?thesis
  proof (cases "select_batch caps (sc_max_wait_seconds s) now force (sort_key edf_key (queue_of s w))")
    case None
    with Some show ?thesis
      by (simp add: dispatch_batch_def method_defs look_def change_def sorted_queue_def)
  next
    case sel: (Some sel)
    have "list_all job_ok (queue_of s w)" using assms by (simp add: balanced_def queue_of_ok)
    from dispatch_batch_run [OF Some sel this, of sha e] obtain f where
      "dispatch_batch sha w force now (s, e) = (Inr (Dispatch (sel_batch sel)),
         (taken w (sel_batch sel) (sorted_queue w s\<lparr>sc_fragmentation := f\<rparr>), e))" ..
    then show ?thesis by (intro disjI2 exI conjI) (rule Some, rule sel, assumption)
  qed
qed

lemma dispatch_batch_bal: "triple (bal n) (dispatch_batch sha w force now) (dispatched_bal n) (bal n)"
proof (rule triple_intro)
  fix p :: "GatewayScheduler \<times> 'e"
  assume b: "bal n p"
  obtain s e where p: "p = (s, e)" by (cases p)
  with b have bs: "balanced n s" by simp
  from dispatch_batch_cases [OF bs, of sha w force now e]
  show "case dispatch_batch sha w force now p of (Inl x, t) \<Rightarrow> bal n t | (Inr d, t) \<Rightarrow> dispatched_bal n d t"
  proof (elim disjE exE conjE)
    fix caps sel f
    assume sel: "select_batch caps (sc_max_wait_seconds s) now force (sort_key edf_key (queue_of s w)) = Some sel"
      and eq: "dispatch_batch sha w force now (s, e) =
         (Inr (Dispatch (sel_batch sel)), (taken w (sel_batch sel) (sorted_queue w s\<lparr>sc_fragmentation := f\<rparr>), e))"
    let ?s1 = "sorted_queue w s\<lparr>sc_fragmentation := f\<rparr>"
    have ss: "subseq (sel_batch sel) (sort_key edf_key (queue_of s w))"
      using select_batch_spec [OF sel] by blast
    have "list_all job_ok (queue_of s w)" using bs by (simp add: balanced_def queue_of_ok)
    with subseq_set [OF ss] have ok: "list_all job_ok (sel_batch sel)" by (auto simp: list_all_iff)
    from subseq_mset [OF ss] have sub: "mset (sel_batch sel) \<subseteq># mset (queue_of ?s1 w)"
      by (simp add: sorted_queue_def)
    have "balanced n ?s1" using sorted_queue_balanced [OF bs] by simp
    from taken_balanced [OF this sub] ok show ?thesis
      by (simp add: p eq dispatched_bal_def)
  qed (use bs sorted_queue_balanced [OF bs] in \<open>auto simp: p dispatched_bal_def\<close>)
qed

lemma touch_queue_balanced: "balanced n s \<Longrightarrow> balanced n (set_queue w (queue_of s w) s)"
  using balanced_set_queue [of n s "queue_of s w" w] by (simp add: balanced_def queue_of_ok)

lemma run_once_begin_bal:
  "triple (bal n) (run_once_begin H sha w force t0 t1) (dispatched_bal n) (bal n)"
proof -
  have weak: "triple (\<lambda>p. bal n p \<and> X p) m Q E" if "triple (bal n) m Q E" for X m Q E
    using that by (rule triple_pre [rotated]) simp
  have drain: "triple (bal n) (py_bind (drain_failed_queue H w)
      (\<lambda>rs. py_seq (publish_all H rs) (py_return NoDispatch))) (dispatched_bal n) (bal n)"
    by (rule triple_bind [OF drain_failed_queue_bal triple_seq [OF publish_all_bal]])
      (simp add: dispatched_bal_def)
  have last: "triple (bal n) (py_bind (look (\<lambda>s. queue_of s w)) (\<lambda>queue.
      if queue = [] then py_return NoDispatch else dispatch_batch sha w force t1)) (dispatched_bal n) (bal n)"
    by (rule triple_look, rule triple_if)
      (simp add: dispatched_bal_def, rule weak [OF dispatch_batch_bal])
  have cancel: "triple (bal n) (py_bind (look (\<lambda>s. filter (\<lambda>j. ij_owner j \<in> set (sc_cancelled_generations s)) (queue_of s w)))
      (\<lambda>cancelled. py_seq (py_for cancelled (reject_cancelled H w))
        (py_bind (look (\<lambda>s. queue_of s w)) (\<lambda>queue.
           if queue = [] then py_return NoDispatch else dispatch_batch sha w force t1)))) (dispatched_bal n) (bal n)"
    by (rule triple_look, rule triple_seq [OF weak [OF triple_for [OF reject_cancelled_bal]] last])
  show ?thesis
    unfolding run_once_begin_def
    apply (rule triple_seq [where R = "bal n"])
     apply (simp add: touch_queue_balanced)
    apply (rule triple_look, rule triple_if, rule weak [OF drain])
    apply (rule triple_look, rule triple_seq [OF _ cancel])
    apply (rule triple_pre [OF _ triple_for [OF reject_expired_bal]], simp)
    done
qed

section \<open>Hook contract\<close>

text \<open>The scheduler gives a batch's samples back after the failure handling of the submission, so it
  relies on two hooks that do not raise: failing a worker and discarding a job.\<close>

locale scheduler_hooks =
  fixes H :: "'e SchedulerHooks"
  assumes worker_failed_total: "never_raises (hk_worker_failed H w reason)"
    and discard_total: "never_raises (hk_discard H job)"
begin

lemma drain_jobs_total:
  "triple (\<lambda>p. bal n p \<and> map_of (sc_submit_failures (fst p)) w \<noteq> None) (drain_jobs H w jobs)
     (\<lambda>_. bal n) (\<lambda>_. False)"
proof (induction jobs)
  case Nil
  then show ?case by simp
next
  case (Cons job jobs)
  let ?I = "\<lambda>p. bal n p \<and> map_of (sc_submit_failures (fst p)) w \<noteq> None"
  have rej: "triple ?I (on_snd (hk_reject H job)) (\<lambda>_. ?I) ?I"
    by (rule triple_on_snd) simp
  have dis: "triple ?I (on_snd (hk_discard H job)) (\<lambda>_. ?I) (\<lambda>_. False)"
    by (rule triple_on_snd_ok [OF discard_total]) simp
  show ?case
    unfolding drain_jobs.simps
    apply (rule triple_bind [where R = "\<lambda>_. ?I"])
     apply (rule triple_outcome [OF rej], assumption)
    apply (rule triple_look, rule triple_if)
     apply (rule triple_seq [OF triple_pre [OF _ dis] Cons.IH], simp)
    apply (rule triple_look)
    subgoal for rejected cancelled failure
      by (cases failure) (auto intro!: triple_bind [OF triple_pre [OF _ Cons.IH]])
    done
qed

lemma submission_results_total:
  "triple (bal n) (submission_results H w batch raw) (\<lambda>_. bal n) (\<lambda>_. False)"
proof (cases "coerce_all batch raw")
  case (Inr results)
  then show ?thesis by (simp add: submission_results_def)
next
  case (Inl exc)
  let ?err = "error_type_name exc @ '': batch failed''"
  let ?I = "\<lambda>p. bal n p \<and> map_of (sc_submit_failures (fst p)) w \<noteq> None"
  have fail: "triple ?I (on_snd (hk_worker_failed H w ''submit_failed'')) (\<lambda>_. ?I) (\<lambda>_. False)"
    by (rule triple_on_snd_ok [OF worker_failed_total]) simp
  have drain: "triple ?I (drain_failed_queue H w) (\<lambda>_. bal n) (\<lambda>_. False)"
    unfolding drain_failed_queue_def samples_of_def [symmetric]
    by (rule triple_look, rule triple_seq [OF _ drain_jobs_total]) (auto intro: balanced_drain)
  have "triple (\<lambda>p. bal n p \<and> map_of (sc_submit_failures (fst p)) w = failed)
      (if failed \<noteq> None then py_return ()
       else py_seq (change (\<lambda>s. s\<lparr>sc_submit_failures := AList.update w ?err (sc_submit_failures s)\<rparr>))
              (on_snd (hk_worker_failed H w ''submit_failed''))) (\<lambda>_. ?I) (\<lambda>_. False)" for failed
    by (rule triple_if, simp, rule triple_seq [OF _ fail], simp)
  then show ?thesis
    unfolding submission_results_def Inl sum.case Let_def
    by (intro triple_look) (rule triple_seq, assumption, rule triple_bind [OF drain], simp)
qed

lemma discard_safely_bal: "triple (bal n) (discard_safely H job) (\<lambda>_. bal n) (bal n)"
  unfolding discard_safely_def by (rule triple_finally [OF bal_hook]) simp_all

lemma settle_poisoned_bal: "triple (bal n) (settle_poisoned H w job) (\<lambda>_. bal n) (bal n)"
  unfolding settle_poisoned_def
  by (rule triple_look, rule triple_pre [of _ "bal n"], simp, rule triple_seq [of _ _ "bal n"],
      rule triple_if, simp, rule bal_hook, rule triple_seq [OF bal_hook], simp)

lemma settle_cleaned_bal: "triple (bal n) (settle_cleaned H job r) (\<lambda>_. bal n) (bal n)"
  unfolding settle_cleaned_def
  by (rule triple_look, rule triple_pre [of _ "bal n"], simp)
    (intro triple_if discard_safely_bal triple_finally [OF bal_hook], simp_all)

lemma settle_job_bal: "triple (bal n) (settle_job H w job r) (\<lambda>_. bal n) (bal n)"
  unfolding settle_job_def
  apply (rule triple_bind [where R = "\<lambda>_. bal n"])
   apply (rule triple_outcome [OF bal_hook], assumption)
  subgoal for cleaned
    using discard_safely_bal settle_poisoned_bal settle_cleaned_bal
    by (cases cleaned) (auto split: py_error.split)
  done

lemma run_once_finish_bal:
  assumes "0 \<le> samples_of batch"
  shows "triple (\<lambda>p. bal n p \<and> samples_of batch \<le> n) (run_once_finish H w batch raw)
     (\<lambda>_. bal (n - samples_of batch)) (bal (n - samples_of batch))"
proof -
  let ?m = "n - samples_of batch"
  have sub: "triple (\<lambda>p. bal n p \<and> samples_of batch \<le> n) (submission_results H w batch raw)
      (\<lambda>_ p. bal n p \<and> samples_of batch \<le> n) (bal ?m)"
  proof (cases "samples_of batch \<le> n")
    case True
    with submission_results_total [of n w batch raw] show ?thesis
      by (intro triple_conseq [OF submission_results_total]) auto
  qed (simp add: triple_def)
  have rest: "triple (\<lambda>p. bal n p \<and> samples_of batch \<le> n)
      (py_seq (change (uncount (sum_list (map ij_sample_count batch))))
        (py_seq (py_for (zip batch results) (\<lambda>(job, r). settle_job H w job r))
          (py_seq (publish_all H qf) (py_return results)))) (\<lambda>_. bal ?m) (bal ?m)" for results qf
    unfolding samples_of_def [symmetric]
    apply (rule triple_seq [where R = "bal ?m"])
     apply (use assms in \<open>simp add: balanced_uncount\<close>)
    apply (rule triple_seq [OF triple_for])
     apply (auto intro: settle_job_bal)[1]
    apply (rule triple_seq [OF publish_all_bal], simp)
    done
  show ?thesis
    unfolding run_once_finish_def by (rule triple_bind [OF sub]) (auto intro: rest)
qed

end

interpretation noop: scheduler_hooks noop_hooks
  by unfold_locales (simp_all add: noop_hooks_def never_raises_def py_return_def)

section \<open>Interleavings\<close>

text \<open>The scheduler with the batches out at the workers and the runtime's state. Between the start and
  the end of a worker's iteration anything else may happen: enqueues, cancellations, iterations of
  other workers, changes of the runtime.\<close>

type_synonym 'e sched_state = "GatewayScheduler \<times> 'e \<times> (string \<times> InferenceJob list) list"

definition without :: "nat \<Rightarrow> 'a list \<Rightarrow> 'a list" where
  "without i xs = take i xs @ drop (Suc i) xs"

inductive sched_step ::
  "'e SchedulerHooks \<Rightarrow> (byte list \<Rightarrow> string) \<Rightarrow> 'e sched_state \<Rightarrow> 'e sched_state \<Rightarrow> bool"
  for H :: "'e SchedulerHooks" and sha :: "byte list \<Rightarrow> string" where
  step_enqueue: "\<lbrakk>enqueue s now job = Inr s'; ij_job_id job \<noteq> []; length (ij_job_id job) < 2 ^ 32\<rbrakk> \<Longrightarrow>
    sched_step H sha (s, e, fl) (s', e, fl)"
| step_cancel: "sched_step H sha (s, e, fl) (cancel_session s i g, e, fl)"
| step_close: "sched_step H sha (s, e, fl) (scheduler_close s, e, fl)"
| step_idle: "run_once_begin H sha w force t0 t1 (s, e) = (Inr NoDispatch, (s', e')) \<Longrightarrow>
    sched_step H sha (s, e, fl) (s', e', fl)"
| step_raise: "run_once_begin H sha w force t0 t1 (s, e) = (Inl x, (s', e')) \<Longrightarrow>
    sched_step H sha (s, e, fl) (s', e', fl)"
| step_dispatch: "run_once_begin H sha w force t0 t1 (s, e) = (Inr (Dispatch batch), (s', e')) \<Longrightarrow>
    sched_step H sha (s, e, fl) (s', e', (w, batch) # fl)"
| step_finish: "\<lbrakk>i < length fl; fl ! i = (w, batch); run_once_finish H w batch raw (s, e) = (r, (s', e'))\<rbrakk> \<Longrightarrow>
    sched_step H sha (s, e, fl) (s', e', without i fl)"
| step_runtime: "sched_step H sha (s, e, fl) (s, e', fl)"

inductive_cases sched_step_cases: "sched_step H sha p q"

definition out_samples :: "(string \<times> InferenceJob list) list \<Rightarrow> int" where
  "out_samples fl = sum_list (map (samples_of \<circ> snd) fl)"

definition sched_init ::
  "(string, BackendCapabilities) dict \<Rightarrow> seconds \<Rightarrow> int \<Rightarrow> int \<Rightarrow> 'e sched_state \<Rightarrow> bool" where
  "sched_init adapters max_wait max_ready max_queued p \<longleftrightarrow>
     scheduler_init adapters max_wait max_ready max_queued = Inr (fst p) \<and> snd (snd p) = []"

definition sched_inv :: "'e sched_state \<Rightarrow> bool" where
  "sched_inv p \<longleftrightarrow> balanced (out_samples (snd (snd p))) (fst p) \<and>
     list_all (list_all job_ok \<circ> snd) (snd (snd p))"

lemma out_samples_without:
  assumes "i < length fl" and "fl ! i = (w, b)"
  shows "out_samples (without i fl) = out_samples fl - samples_of b"
proof -
  have "out_samples fl = out_samples (take i fl @ fl ! i # drop (Suc i) fl)"
    using assms(1) by (simp add: id_take_nth_drop [symmetric])
  with assms(2) show ?thesis by (simp add: out_samples_def without_def)
qed

lemma out_samples_Cons [simp]: "out_samples ((w, b) # fl) = out_samples fl + samples_of b"
  by (simp add: out_samples_def)

lemma out_samples_nonneg: "list_all (list_all job_ok \<circ> snd) fl \<Longrightarrow> 0 \<le> out_samples fl"
  by (induction fl) (auto simp: out_samples_def samples_of_nonneg)

lemma set_without: "set (without i xs) \<subseteq> set xs"
  by (auto simp: without_def dest: in_set_takeD in_set_dropD)

lemma sched_init_inv: "sched_init ad mw mr mq p \<Longrightarrow> sched_inv p"
  by (cases p) (auto simp: sched_init_def scheduler_init_def sched_inv_def balanced_def queued_sum_def
      total_jobs_def out_samples_def split: if_splits)

lemma begin_dispatch_inv:
  assumes "balanced n s" and "run_once_begin H sha w force t0 t1 (s, e) = (Inr d, (s', e'))"
  shows "dispatched_bal n d (s', e')"
  using tripleD [OF run_once_begin_bal _ assms(2)] assms(1) by simp

lemma balanced_control [simp]:
  "balanced n (cancel_session s i g) = balanced n s" "balanced n (scheduler_close s) = balanced n s"
  by (simp_all add: cancel_session_def scheduler_close_def balanced_def queued_sum_def total_jobs_def)

context scheduler_hooks
begin

lemma finish_inv:
  assumes "sched_inv (s, e, fl)" and "i < length fl" and "fl ! i = (w, b)"
    and "run_once_finish H w b raw (s, e) = (r, (s', e'))"
  shows "sched_inv (s', e', without i fl)"
proof -
  let ?n = "out_samples fl"
  have ok: "list_all job_ok b" and rest: "list_all (list_all job_ok \<circ> snd) (without i fl)"
    using assms(1-3) set_without [of i fl] nth_mem [OF assms(2)]
    by (fastforce simp: sched_inv_def list_all_iff)+
  have le: "samples_of b \<le> ?n"
    using out_samples_without [OF assms(2,3)] out_samples_nonneg [OF rest] by simp
  have pre: "bal ?n (s, e) \<and> samples_of b \<le> ?n" using assms(1) le by (simp add: sched_inv_def)
  note t = run_once_finish_bal [OF samples_of_nonneg [OF ok], of ?n w raw]
  have "balanced (?n - samples_of b) s'"
    using tripleD [OF t pre] tripleE [OF t pre] assms(4) by (cases r) auto
  with rest out_samples_without [OF assms(2,3)] show ?thesis by (simp add: sched_inv_def)
qed

lemma sched_step_inv:
  assumes "sched_inv p" and "sched_step H sha p q"
  shows "sched_inv q"
  using assms(2)
proof cases
  case (step_enqueue s now job s' e fl)
  with assms(1) show ?thesis by (auto simp: sched_inv_def intro: enqueue_balanced)
next
  case (step_idle w force t0 t1 s e s' e' fl)
  with assms(1) begin_dispatch_inv [OF _ step_idle(3)] show ?thesis
    by (simp add: sched_inv_def dispatched_bal_def)
next
  case (step_raise w force t0 t1 s e x s' e' fl)
  with assms(1) tripleE [OF run_once_begin_bal _ step_raise(3)] show ?thesis
    by (simp add: sched_inv_def)
next
  case (step_dispatch w force t0 t1 s e batch s' e' fl)
  with assms(1) begin_dispatch_inv [OF _ step_dispatch(3), of "out_samples fl"] show ?thesis
    by (simp add: sched_inv_def dispatched_bal_def)
next
  case (step_finish i fl w batch raw s e r s' e')
  with assms(1) show ?thesis by (auto intro: finish_inv)
qed (use assms(1) in \<open>simp_all add: sched_inv_def\<close>)

end

text \<open>Every installed hook record that satisfies the contract gives a transition system with this
  invariant.\<close>

locale scheduler_system = scheduler_hooks H
  for H :: "'e SchedulerHooks" +
  fixes ad :: "(string, BackendCapabilities) dict" and mw :: seconds and mr :: int and mq :: int
    and sha :: "byte list \<Rightarrow> string"

sublocale scheduler_system \<subseteq> step_system "sched_init ad mw mr mq" "sched_step H sha" sched_inv
  by unfold_locales (auto intro: sched_init_inv sched_step_inv)

context scheduler_system
begin

lemma reachable_inv: "reach_from (sched_init ad mw mr mq) (sched_step H sha) p \<Longrightarrow> sched_inv p"
  by (rule reach_inv)

end

interpretation noop_system: scheduler_system noop_hooks "[(''w'', example_caps)]" 1 4 100 "\<lambda>_. []"
  by unfold_locales

section \<open>What is dispatched\<close>

definition same_config :: "GatewayScheduler \<Rightarrow> GatewayScheduler \<Rightarrow> bool" where
  "same_config s t \<longleftrightarrow> sc_adapters t = sc_adapters s \<and> sc_max_wait_seconds t = sc_max_wait_seconds s \<and>
     sc_cancelled_generations t = sc_cancelled_generations s"

text \<open>A method that leaves the scheduler itself alone.\<close>

definition outside :: "('e, 'a) sched_method \<Rightarrow> bool" where
  "outside m \<longleftrightarrow> (\<forall>s e. fst (snd (m (s, e))) = s)"

lemma outside_on_snd [simp]: "outside (on_snd m)"
  by (auto simp: outside_def on_snd_def split: prod.splits)

lemma outside_seq: "outside m \<Longrightarrow> outside n \<Longrightarrow> outside (py_seq m n)"
  by (auto simp: outside_def py_seq_def py_bind_def split: prod.splits sum.splits) (metis fst_conv snd_conv)+

lemma outside_except: "outside m \<Longrightarrow> (\<And>x. outside (h x)) \<Longrightarrow> outside (py_except m h)"
  by (auto simp: outside_def py_except_def split: prod.splits sum.splits) (metis fst_conv snd_conv)+

lemma outside_return [simp]: "outside (py_return x)"
  by (simp add: outside_def py_return_def)

lemma queue_drop_run:
  assumes "py_seq (queue_drop w j) m (s, e) = (Inr x, (s', e'))" and "outside m"
  shows "j \<in> set (queue_of s w) \<and>
    s' = uncount (ij_sample_count j) (set_queue w (remove1 j (queue_of s w)) s)"
proof -
  let ?t = "uncount (ij_sample_count j) (set_queue w (remove1 j (queue_of s w)) s)"
  from assms(1) have j: "j \<in> set (queue_of s w)" and m: "m (?t, e) = (Inr x, (s', e'))"
    by (auto simp: queue_drop_def queue_remove_def method_defs look_def change_def split: if_splits)
  from assms(2) m have "s' = ?t" unfolding outside_def by (metis fst_conv snd_conv)
  with j show ?thesis by simp
qed

lemma drop_loop_run:
  assumes "py_for js (\<lambda>j. py_seq (queue_drop w j) (m j)) (s, e) = (Inr x, (s', e'))"
    and "\<And>j. outside (m j)"
  shows "mset (queue_of s' w) = mset (queue_of s w) - mset js \<and> same_config s s'"
  using assms(1)
proof (induction js arbitrary: s e)
  case Nil
  then show ?case by (simp add: py_return_def same_config_def)
next
  case (Cons j js)
  let ?loop = "\<lambda>js. py_for js (\<lambda>j. py_seq (queue_drop w j) (m j))"
  from Cons.prems obtain y u where u: "py_seq (queue_drop w j) (m j) (s, e) = (Inr y, u)"
    and loop: "?loop js u = (Inr x, (s', e'))"
    unfolding py_for.simps py_seq_Inr [of "py_seq (queue_drop w j) (m j)"] by blast
  obtain t e1 where te: "u = (t, e1)" by (cases u)
  have st: "py_seq (queue_drop w j) (m j) (s, e) = (Inr y, (t, e1))"
    and rest: "?loop js (t, e1) = (Inr x, (s', e'))"
    using u loop te by simp_all
  from queue_drop_run [OF st assms(2)] Cons.IH [OF rest] show ?case
    by (auto simp: same_config_def)
qed

lemma reject_expired_loop:
  assumes "py_for js (reject_expired H w) (s, e) = (Inr x, (s', e'))"
  shows "mset (queue_of s' w) = mset (queue_of s w) - mset js \<and> same_config s s'"
proof (rule drop_loop_run)
  show "py_for js (\<lambda>j. py_seq (queue_drop w j) (py_seq (on_snd (hk_reject H j))
      (on_snd (hk_publish H (from_job j ''queue_timeout''))))) (s, e) = (Inr x, (s', e'))"
    using assms by (simp add: reject_expired_def [abs_def])
qed (simp add: outside_seq)

lemma reject_cancelled_loop:
  assumes "py_for js (reject_cancelled H w) (s, e) = (Inr x, (s', e'))"
  shows "mset (queue_of s' w) = mset (queue_of s w) - mset js \<and> same_config s s'"
proof (rule drop_loop_run)
  show "py_for js (\<lambda>j. py_seq (queue_drop w j) (py_except (on_snd (hk_reject H j)) (\<lambda>_. py_return ())))
      (s, e) = (Inr x, (s', e'))"
    using assms by (simp add: reject_cancelled_def [abs_def])
qed (simp add: outside_except)

text \<open>The queue a dispatch selects from: the worker's jobs that are neither expired nor cancelled.\<close>

definition live_jobs :: "GatewayScheduler \<Rightarrow> string \<Rightarrow> seconds \<Rightarrow> InferenceJob list" where
  "live_jobs s w now = filter (\<lambda>j. \<not> expired_at now j \<and> ij_owner j \<notin> set (sc_cancelled_generations s)) (queue_of s w)"

lemma live_after_loops:
  assumes m1: "mset (queue_of s1 w) = mset (queue_of s w) - mset (filter (expired_at t0) (queue_of s w))"
    and c1: "sc_cancelled_generations s1 = sc_cancelled_generations s"
    and m2: "mset (queue_of s2 w) = mset (queue_of s1 w) -
      mset (filter (\<lambda>j. ij_owner j \<in> set (sc_cancelled_generations s1)) (queue_of s1 w))"
  shows "mset (queue_of s2 w) = mset (live_jobs s w t0)"
proof -
  let ?keep = "\<lambda>j. ij_owner j \<notin> set (sc_cancelled_generations s)"
  have "mset (queue_of s2 w) = filter_mset ?keep (mset (queue_of s1 w))"
    using m2 filter_split_mset [of "queue_of s1 w" "\<lambda>j. ij_owner j \<in> set (sc_cancelled_generations s1)"] c1 by simp
  also have "mset (queue_of s1 w) = mset (filter (\<lambda>j. \<not> expired_at t0 j) (queue_of s w))"
    using m1 filter_split_mset [of "queue_of s w" "expired_at t0"] by simp
  finally show ?thesis
    unfolding live_jobs_def by (simp add: filter_filter_mset conj_commute)
qed

lemma run_once_begin_dispatch:
  assumes "run_once_begin H sha w force t0 t1 (s, e) = (Inr (Dispatch batch), (s', e'))"
  obtains s2 e2 where "mset (queue_of s2 w) = mset (live_jobs s w t0)" "same_config s s2"
    "dispatch_batch sha w force t1 (s2, e2) = (Inr (Dispatch batch), (s', e'))"
proof -
  let ?s0 = "set_queue w (queue_of s w) s"
  let ?expired = "filter (expired_at t0) (queue_of s w)"
  have nf: "map_of (sc_submit_failures s) w = None"
    using assms
    by (auto simp: run_once_begin_def method_defs look_def change_def split: if_splits prod.splits sum.splits)
  then obtain y s1 e1 where ex: "py_for ?expired (reject_expired H w) (?s0, e) = (Inr y, (s1, e1))"
    and r1: "py_bind (look (\<lambda>s. filter (\<lambda>j. ij_owner j \<in> set (sc_cancelled_generations s)) (queue_of s w)))
      (\<lambda>cancelled. py_seq (py_for cancelled (reject_cancelled H w)) (py_bind (look (\<lambda>s. queue_of s w)) (\<lambda>queue.
        if queue = [] then py_return NoDispatch else dispatch_batch sha w force t1))) (s1, e1) = (Inr (Dispatch batch), (s', e'))"
    using assms
    unfolding run_once_begin_def py_seq_Inr py_bind_Inr
    by (auto simp: look_def change_def py_read_def py_modify_def py_seq_Inr py_bind_Inr)
  let ?cancelled = "filter (\<lambda>j. ij_owner j \<in> set (sc_cancelled_generations s1)) (queue_of s1 w)"
  from r1 obtain z s2 e2 where ca: "py_for ?cancelled (reject_cancelled H w) (s1, e1) = (Inr z, (s2, e2))"
    and r2: "dispatch_batch sha w force t1 (s2, e2) = (Inr (Dispatch batch), (s', e'))"
    by (auto simp: look_def py_read_def py_seq_Inr py_bind_Inr py_return_def split: if_splits)
  note q1 = reject_expired_loop [OF ex] and q2 = reject_cancelled_loop [OF ca]
  have "mset (queue_of s2 w) = mset (live_jobs s w t0)"
    using live_after_loops [of s1 w s t0 s2] q1 q2 by (simp add: same_config_def)
  moreover have "same_config s s2" using q1 q2 by (simp add: same_config_def)
  ultimately show thesis using r2 by (rule that)
qed

lemma dispatch_selection:
  assumes "dispatch_batch sha w force now (s, e) = (Inr (Dispatch batch), p)"
  obtains caps sel where "map_of (sc_adapters s) w = Some caps" "batch = sel_batch sel"
    "select_batch caps (sc_max_wait_seconds s) now force (sort_key edf_key (queue_of s w)) = Some sel"
  using assms
  by (auto simp: dispatch_batch_def py_bind_Inr py_seq_Inr look_def py_read_def change_def py_modify_def
      py_return_def py_raise_def split: option.splits sum.splits)

section \<open>Progress\<close>

lemma drop_loop_ok:
  assumes "mset js \<subseteq># mset (queue_of s w)" and "\<And>j. outside (m j)" and "\<And>j. never_raises (m j)"
  shows "\<exists>s' e'. py_for js (\<lambda>j. py_seq (queue_drop w j) (m j)) (s, e) = (Inr (), (s', e'))"
  using assms(1)
proof (induction js arbitrary: s e)
  case Nil
  then show ?case by (simp add: py_return_def)
next
  case (Cons j js)
  let ?t = "uncount (ij_sample_count j) (set_queue w (remove1 j (queue_of s w)) s)"
  have j: "j \<in> set (queue_of s w)" using Cons.prems mset_subset_eqD by force
  have sub: "mset js \<subseteq># mset (queue_of ?t w)" using Cons.prems by (simp add: insert_subset_eq_iff)
  obtain r p where mp: "m j (?t, e) = (r, p)" by (cases "m j (?t, e)")
  have "isOk r" using assms(3) [of j] mp unfolding never_raises_def by (metis fst_conv)
  moreover have "fst p = ?t" using assms(2) [of j] mp unfolding outside_def by (metis snd_conv)
  ultimately obtain e1 where "m j (?t, e) = (Inr (), (?t, e1))"
    using mp by (cases p) (auto simp: isOk_iff)
  with j have "py_seq (queue_drop w j) (m j) (s, e) = (Inr (), (?t, e1))"
    by (simp add: queue_drop_def queue_remove_def method_defs look_def change_def)
  with Cons.IH [OF sub, of e1] show ?case
    by (auto simp: py_seq_def [of "py_seq (queue_drop w j) (m j)"] py_bind_def)
qed

lemma never_raises_on_snd [simp]: "never_raises (on_snd m) = never_raises m"
  by (auto simp: never_raises_def on_snd_def case_prod_beta)

lemma never_raises_seq: "never_raises m \<Longrightarrow> never_raises n \<Longrightarrow> never_raises (py_seq m n)"
  unfolding never_raises_def py_seq_def py_bind_def isOk_def
  by (auto split: prod.splits sum.splits) (metis fst_conv old.sum.simps(5))+

lemma never_raises_ignored: "never_raises (py_except m (\<lambda>_. py_return ()))"
  by (simp add: never_raises_def py_except_def py_return_def split: prod.splits sum.splits)

lemma select_batch_progress:
  assumes "q \<noteq> []" and "force \<or> (\<forall>j \<in> set q. due_at mw j \<le> now)" and "0 < batch_limit caps"
    and "\<forall>j \<in> set q. ij_sample_count j \<le> max_batch_samples caps"
  shows "\<exists>sel. select_batch caps mw now force q = Some sel"
proof -
  let ?f = "first_job mw now q"
  have f: "?f \<in> set q" using assms(1) by (rule first_job_mem)
  then obtain x xs where x: "compatible_jobs ?f q = x # xs" and xq: "x \<in> set q"
    by (cases "compatible_jobs ?f q") (auto simp: compatible_jobs_def filter_empty_conv dest!: filter_eq_ConsD)
  with build_batch_takes_first [OF assms(3), of x "max_batch_samples caps" xs] assms(4)
  obtain ys where "build_batch (batch_limit caps) (max_batch_samples caps) [] [] 0 (compatible_jobs ?f q) = x # ys"
    by auto
  with assms(2) f show ?thesis by (auto simp: select_batch_def Let_def)
qed

lemma live_queue_ok: "balanced n s \<Longrightarrow> mset (queue_of s2 w) = mset (live_jobs s w t) \<Longrightarrow> list_all job_ok (queue_of s2 w)"
proof -
  assume "balanced n s" and m: "mset (queue_of s2 w) = mset (live_jobs s w t)"
  then have "list_all job_ok (queue_of s w)" by (simp add: balanced_def queue_of_ok)
  moreover have "set (queue_of s2 w) \<subseteq> set (queue_of s w)"
    using mset_eq_setD [OF m] by (auto simp: live_jobs_def)
  ultimately show ?thesis by (auto simp: list_all_iff)
qed

lemma run_once_begin_progress:
  assumes "balanced n s" and "map_of (sc_submit_failures s) w = None"
    and "map_of (sc_adapters s) w = Some caps" and "0 < batch_limit caps"
    and "live_jobs s w t0 \<noteq> []"
    and "force \<or> (\<forall>j \<in> set (live_jobs s w t0). due_at (sc_max_wait_seconds s) j \<le> t1)"
    and "\<forall>j \<in> set (live_jobs s w t0). ij_sample_count j \<le> max_batch_samples caps"
    and "\<And>j. never_raises (hk_reject H j)" and "\<And>r. never_raises (hk_publish H r)"
  shows "\<exists>batch s' e'. run_once_begin H sha w force t0 t1 (s, e) = (Inr (Dispatch batch), (s', e'))"
proof -
  let ?s0 = "set_queue w (queue_of s w) s" and ?ex = "filter (expired_at t0) (queue_of s w)"
  have "mset ?ex \<subseteq># mset (queue_of ?s0 w)" by simp
  from drop_loop_ok [OF this, where e = e and
      m = "\<lambda>j. py_seq (on_snd (hk_reject H j)) (on_snd (hk_publish H (from_job j ''queue_timeout'')))"]
  obtain s1 e1 where l1: "py_for ?ex (reject_expired H w) (?s0, e) = (Inr (), (s1, e1))"
    using assms(8,9) by (auto simp: outside_seq never_raises_seq reject_expired_def [abs_def])
  let ?ca = "filter (\<lambda>j. ij_owner j \<in> set (sc_cancelled_generations s1)) (queue_of s1 w)"
  have "mset ?ca \<subseteq># mset (queue_of s1 w)" by simp
  from drop_loop_ok [OF this, where e = e1 and m = "\<lambda>j. py_except (on_snd (hk_reject H j)) (\<lambda>_. py_return ())"]
  obtain s2 e2 where l2: "py_for ?ca (reject_cancelled H w) (s1, e1) = (Inr (), (s2, e2))"
    by (auto simp: outside_except never_raises_ignored reject_cancelled_def [abs_def])
  note q1 = reject_expired_loop [OF l1] and q2 = reject_cancelled_loop [OF l2]
  have m: "mset (queue_of s2 w) = mset (live_jobs s w t0)" and cfg: "same_config s s2"
    using live_after_loops [of s1 w s t0 s2] q1 q2 by (auto simp: same_config_def)
  let ?q = "sort_key edf_key (queue_of s2 w)"
  have set_q: "set ?q = set (live_jobs s w t0)" using mset_eq_setD [OF m] by simp
  then have "?q \<noteq> []" using assms(5) by force
  then obtain sel where sel: "select_batch caps (sc_max_wait_seconds s2) t1 force ?q = Some sel"
    using select_batch_progress [of ?q force "sc_max_wait_seconds s2" t1 caps] assms(4,6,7) set_q cfg
    by (auto simp: same_config_def)
  have ne: "queue_of s2 w \<noteq> []" using \<open>?q \<noteq> []\<close> by auto
  have "map_of (sc_adapters s2) w = Some caps" using assms(3) cfg by (simp add: same_config_def)
  from dispatch_batch_run [OF this sel live_queue_ok [OF assms(1) m], of sha e2]
  obtain p where "dispatch_batch sha w force t1 (s2, e2) = (Inr (Dispatch (sel_batch sel)), p)" by blast
  with l1 l2 ne assms(2) show ?thesis
    by (cases p) (auto simp: run_once_begin_def py_seq_def py_bind_def look_def change_def py_read_def
        py_modify_def intro!: exI [of _ "sel_batch sel"])
qed

section \<open>Properties\<close>


definition example_scheduler :: GatewayScheduler where
  "example_scheduler = \<lparr>sc_adapters = [(''w'', example_caps)], sc_max_wait_seconds = 1, sc_max_ready_jobs = 4,
     sc_max_queued_samples = 100, sc_queues = [], sc_queued_samples = 0, sc_fragmentation = [],
     sc_cancelled_generations = [], sc_accepted = [], sc_submit_failures = [], sc_wake = False, sc_closed = False\<rparr>"


text \<open>C20: a dispatched batch is nonempty, comes from the worker's queued jobs that are neither expired
  nor cancelled, in deadline order; its jobs share one batch key, belong to different sessions,
  number at most the worker's batch limit (one for a single-dispatch worker) and hold at most its
  batch sample limit.\<close>

theorem dispatched_batch_sound:
  assumes "run_once_begin H sha w force t0 t1 (s, e) = (Inr (Dispatch batch), (s', e'))"
  shows "\<exists>caps. map_of (sc_adapters s) w = Some caps \<and> batch \<noteq> [] \<and>
     mset batch \<subseteq># mset (live_jobs s w t0) \<and> sorted (map edf_key batch) \<and>
     (\<forall>i \<in> set batch. \<forall>j \<in> set batch. ij_batch_key i = ij_batch_key j) \<and>
     distinct (map ij_session_id batch) \<and> int (length batch) \<le> batch_limit caps \<and>
     samples_of batch \<le> max_batch_samples caps"
proof -
  from run_once_begin_dispatch [OF assms] obtain s2 e2
    where m: "mset (queue_of s2 w) = mset (live_jobs s w t0)" and cfg: "same_config s s2"
      and d: "dispatch_batch sha w force t1 (s2, e2) = (Inr (Dispatch batch), (s', e'))" by blast
  let ?q = "sort_key edf_key (queue_of s2 w)"
  from dispatch_selection [OF d] obtain caps sel
    where caps: "map_of (sc_adapters s2) w = Some caps" and b: "batch = sel_batch sel"
      and sel: "select_batch caps (sc_max_wait_seconds s2) t1 force ?q = Some sel" by blast
  note sp = select_batch_spec [OF sel]
  have "mset batch \<subseteq># mset ?q" using sp subseq_mset [of batch ?q] b by blast
  moreover have "sorted (map edf_key batch)"
    using sp subseq_map [of batch ?q edf_key] subseq_sorted_wrt [of "map edf_key batch" "map edf_key ?q" "(\<le>)"]
    unfolding b by simp
  ultimately show ?thesis using sp caps cfg m b by (auto simp: same_config_def)
qed

definition example_job :: InferenceJob where
  "example_job = \<lparr>ij_job_id = ''s:1:1'', ij_session_id = ''s'', ij_generation = 1, ij_job_sequence = 1,
     ij_worker_id = ''w'', ij_backend_session_id = ''b'', ij_start_sample = 0, ij_end_sample = 2,
     ij_pcm = [0, 0, 0, 0], ij_deadline = 1,
     ij_batch_key = \<lparr>bk_worker_id = ''w'', bk_model_revision = [], bk_language = [], bk_task = [],
       bk_timestamps = False, bk_prompt_identity = [], bk_decoding_identity = ''partial:0'',
       bk_sample_format = ''pcm_s16le'', bk_length_bucket = 0\<rparr>,
     ij_final = False, ij_enqueued_at = 1, ij_queue_deadline = None\<rparr>"

definition loaded_scheduler :: GatewayScheduler where
  "loaded_scheduler = example_scheduler\<lparr>sc_queues := [(''w'', [example_job])], sc_queued_samples := 2\<rparr>"

lemma loaded_scheduler_ready:
  "balanced 0 loaded_scheduler" "map_of (sc_submit_failures loaded_scheduler) ''w'' = None"
  "map_of (sc_adapters loaded_scheduler) ''w'' = Some example_caps" "0 < batch_limit example_caps"
  "live_jobs loaded_scheduler ''w'' 0 = [example_job]" "ij_sample_count example_job \<le> max_batch_samples example_caps"
  by (simp_all add: balanced_def loaded_scheduler_def example_scheduler_def queued_sum_def total_jobs_def
      job_ok_def ij_sample_count_def example_job_def wf_dict_def batch_limit_def example_caps_def
      live_jobs_def queue_of_def expired_at_def)

lemma noop_total: "never_raises (hk_reject noop_hooks j)" "never_raises (hk_publish noop_hooks r)"
  by (simp_all add: noop_hooks_def never_raises_def py_return_def)

theorem dispatched_batch_sound_witness:
  "\<exists>batch s' e'. run_once_begin noop_hooks (\<lambda>_. []) ''w'' True 0 0 (loaded_scheduler, ()) = (Inr (Dispatch batch), (s', e')) \<and>
     batch \<noteq> [] \<and> distinct (map ij_session_id batch) \<and> sorted (map edf_key batch)"
proof -
  obtain batch s' e' where
    d: "run_once_begin noop_hooks (\<lambda>_. []) ''w'' True 0 0 (loaded_scheduler, ()) = (Inr (Dispatch batch), (s', e'))"
    using run_once_begin_progress [OF loaded_scheduler_ready(1-4), of 0 True 0 noop_hooks "\<lambda>_. []" "()"]
      loaded_scheduler_ready(5,6) noop_total by auto
  from dispatched_batch_sound [OF d] d show ?thesis by blast
qed



text \<open>A job larger than the worker's batch sample limit is never dispatched: a queue whose
  compatible jobs start with it yields no batch even when forced, so it blocks the worker until
  its queue deadline. The capability checks do not relate the two limits.\<close>

theorem oversized_job_blocks:
  assumes "compatible_jobs (first_job max_wait now queue) queue = job # rest"
    and "max_batch_samples caps < ij_sample_count job"
  shows "select_batch caps max_wait now force queue = None"
  using assms by (simp add: select_batch_def Let_def)

theorem oversized_job_blocks_witness:
  "select_batch (example_caps\<lparr>max_batch_samples := 1\<rparr>) 1 5 True [example_job] = None"
  by (rule oversized_job_blocks [where job = example_job and rest = "[]"])
    (simp_all add: compatible_jobs_def first_job_def example_job_def ij_sample_count_def)

section \<open>Order of cleanup and publication\<close>

text \<open>The same hooks with a log of completed cleanups and of publications.\<close>

datatype hook_call = Cleaned InferenceJob | Published InferenceResult

definition logged :: "'e SchedulerHooks \<Rightarrow> ('e \<times> hook_call list) SchedulerHooks" where
  "logged H =
     \<lparr>hk_cleanup = (\<lambda>j (e, l). case hk_cleanup H j e of
        (Inl x, e') \<Rightarrow> (Inl x, (e', l)) | (Inr _, e') \<Rightarrow> (Inr (), (e', l @ [Cleaned j]))),
      hk_publish = (\<lambda>r (e, l). case hk_publish H r e of (x, e') \<Rightarrow> (x, (e', l @ [Published r]))),
      hk_worker_failed = (\<lambda>w reason (e, l). case hk_worker_failed H w reason e of (x, e') \<Rightarrow> (x, (e', l))),
      hk_reject = (\<lambda>j (e, l). case hk_reject H j e of (x, e') \<Rightarrow> (x, (e', l))),
      hk_discard = (\<lambda>j (e, l). case hk_discard H j e of (x, e') \<Rightarrow> (x, (e', l)))\<rparr>"

definition answers :: "InferenceResult \<Rightarrow> InferenceJob \<Rightarrow> bool" where
  "answers r j \<longleftrightarrow> ir_job_id r = ij_job_id j \<and> ir_session_id r = ij_session_id j \<and>
     ir_worker_id r = ij_worker_id j \<and> ir_start_sample r = ij_start_sample j \<and> ir_end_sample r = ij_end_sample j"

definition justified :: "(string \<times> int) list \<Rightarrow> InferenceJob list \<Rightarrow> hook_call list \<Rightarrow> InferenceResult \<Rightarrow> bool" where
  "justified cancelled batch before r \<longleftrightarrow>
     ir_error r = None \<longrightarrow> (\<exists>j \<in> set batch. Cleaned j \<in> set before \<and> ij_owner j \<notin> set cancelled \<and>
        answers r j \<and> ir_generation r = ij_generation j \<and> ir_job_sequence r = ij_job_sequence j)"

fun safe_log :: "(string \<times> int) list \<Rightarrow> InferenceJob list \<Rightarrow> hook_call list \<Rightarrow> hook_call list \<Rightarrow> bool" where
  "safe_log c b before [] = True"
| "safe_log c b before (x # xs) =
     ((case x of Published r \<Rightarrow> justified c b before r | Cleaned _ \<Rightarrow> True) \<and> safe_log c b (before @ [x]) xs)"

lemma safe_log_snoc:
  "safe_log c b before (xs @ [x]) \<longleftrightarrow> safe_log c b before xs \<and>
     (case x of Published r \<Rightarrow> justified c b (before @ xs) r | Cleaned _ \<Rightarrow> True)"
  by (cases x; induction xs arbitrary: before) (simp_all add: conj_assoc)

lemma safe_log_split:
  "safe_log c b [] (pre @ Published r # post) \<Longrightarrow> justified c b pre r"
proof -
  have "safe_log c b before (pre @ Published r # post) \<Longrightarrow> justified c b (before @ pre) r" for before
  proof (induction pre arbitrary: before)
    case (Cons a pre)
    from Cons.IH [of "before @ [a]"] Cons.prems show ?case by simp
  qed simp
  from this [of "[]"] show "safe_log c b [] (pre @ Published r # post) \<Longrightarrow> justified c b pre r" by simp
qed

definition log_ok ::
  "(string \<times> int) list \<Rightarrow> InferenceJob list \<Rightarrow> GatewayScheduler \<times> 'e \<times> hook_call list \<Rightarrow> bool" where
  "log_ok c b p \<longleftrightarrow> sc_cancelled_generations (fst p) = c \<and> safe_log c b [] (snd (snd p))"

lemma log_ok_change:
  "(\<And>s. sc_cancelled_generations (f s) = sc_cancelled_generations s) \<Longrightarrow>
   triple (log_ok c b) (change f) (\<lambda>_. log_ok c b) E"
  by (simp add: log_ok_def)

lemma logged_silent:
  "triple (log_ok c b) (on_snd (hk_discard (logged H) j)) (\<lambda>_. log_ok c b) (log_ok c b)"
  "triple (log_ok c b) (on_snd (hk_reject (logged H) j)) (\<lambda>_. log_ok c b) (log_ok c b)"
  "triple (log_ok c b) (on_snd (hk_worker_failed (logged H) w reason)) (\<lambda>_. log_ok c b) (log_ok c b)"
  by (auto simp: triple_def on_snd_def logged_def log_ok_def split: prod.splits sum.splits)

lemma logged_publish:
  "triple (\<lambda>p. log_ok c b p \<and> justified c b (snd (snd p)) r) (on_snd (hk_publish (logged H) r))
     (\<lambda>_. log_ok c b) (log_ok c b)"
  by (auto simp: triple_def on_snd_def logged_def log_ok_def safe_log_snoc split: prod.splits sum.splits)

lemma logged_publish_error:
  "ir_error r \<noteq> None \<Longrightarrow> triple (log_ok c b) (on_snd (hk_publish (logged H) r)) (\<lambda>_. log_ok c b) (log_ok c b)"
  by (rule triple_pre [OF _ logged_publish]) (auto simp: justified_def)

lemma logged_cleanup:
  "triple (log_ok c b) (on_snd (hk_cleanup (logged H) j))
     (\<lambda>_ p. log_ok c b p \<and> Cleaned j \<in> set (snd (snd p))) (log_ok c b)"
  by (auto simp: triple_def on_snd_def logged_def log_ok_def safe_log_snoc split: prod.splits sum.splits)

lemma from_job_error [simp]: "ir_error (from_job j err) = Some err"
  by (simp add: from_job_def)

lemma mark_safe_cancelled [simp]: "sc_cancelled_generations (mark_safe j s) = sc_cancelled_generations s"
  by (simp add: mark_safe_def)

lemma discard_safely_log: "triple (log_ok c b) (discard_safely (logged H) j) (\<lambda>_. log_ok c b) (log_ok c b)"
  unfolding discard_safely_def
  by (rule triple_finally [OF logged_silent(1)]) (simp_all add: log_ok_def)

lemma settle_poisoned_log: "triple (log_ok c b) (settle_poisoned (logged H) w j) (\<lambda>_. log_ok c b) (log_ok c b)"
  unfolding settle_poisoned_def
  by (rule triple_look, rule triple_pre [of _ "log_ok c b"], simp, rule triple_seq [of _ _ "log_ok c b"],
      rule triple_if, simp, rule logged_silent(3), rule triple_seq [OF logged_publish_error])
    (simp_all add: log_ok_def)

lemma settle_cleaned_log:
  assumes "j \<in> set b" and "ir_error r = None \<longrightarrow> answers r j"
  shows "triple (\<lambda>p. log_ok c b p \<and> Cleaned j \<in> set (snd (snd p))) (settle_cleaned (logged H) j r)
     (\<lambda>_. log_ok c b) (log_ok c b)"
  unfolding settle_cleaned_def
proof (rule triple_look)
  fix x
  let ?P = "\<lambda>p. (log_ok c b p \<and> Cleaned j \<in> set (snd (snd p))) \<and> (ij_owner j \<in> set (sc_cancelled_generations (fst p))) = x"
  have d: "triple ?P (discard_safely (logged H) j) (\<lambda>_. log_ok c b) (log_ok c b)"
    by (rule triple_pre [OF _ discard_safely_log]) simp
  have p: "triple ?P (py_finally (on_snd (hk_publish (logged H) r)) (change (mark_safe j)))
      (\<lambda>_. log_ok c b) (log_ok c b)"
    if "\<not> x" "\<not> (ir_generation r \<noteq> ij_generation j \<or> ir_job_sequence r \<noteq> ij_job_sequence j)"
    by (rule triple_pre [OF _ triple_finally [OF logged_publish]])
      (use that assms in \<open>auto simp: justified_def log_ok_def\<close>)
  show "triple ?P (if x then discard_safely (logged H) j
      else if ir_generation r \<noteq> ij_generation j \<or> ir_job_sequence r \<noteq> ij_job_sequence j
      then discard_safely (logged H) j
      else py_finally (on_snd (hk_publish (logged H) r)) (change (mark_safe j))) (\<lambda>_. log_ok c b) (log_ok c b)"
    by (intro triple_if d p)
qed

lemma settle_job_log:
  assumes "j \<in> set b" and "ir_error r = None \<longrightarrow> answers r j"
  shows "triple (log_ok c b) (settle_job (logged H) w j r) (\<lambda>_. log_ok c b) (log_ok c b)"
  unfolding settle_job_def
proof (rule triple_bind [where R = "\<lambda>x p. log_ok c b p \<and> (isOk x \<longrightarrow> Cleaned j \<in> set (snd (snd p)))"])
  show "triple (log_ok c b) (py_outcome (on_snd (hk_cleanup (logged H) j)))
      (\<lambda>x p. log_ok c b p \<and> (isOk x \<longrightarrow> Cleaned j \<in> set (snd (snd p)))) (log_ok c b)"
    by (rule triple_outcome [where R = "log_ok c b"]) (use logged_cleanup [of c b H j] in simp_all)
next
  fix cleaned :: "unit result"
  show "triple (\<lambda>p. log_ok c b p \<and> (isOk cleaned \<longrightarrow> Cleaned j \<in> set (snd (snd p))))
      (case cleaned of Inl (StaleResultError _) \<Rightarrow> discard_safely (logged H) j
       | Inl _ \<Rightarrow> settle_poisoned (logged H) w j | Inr _ \<Rightarrow> settle_cleaned (logged H) j r)
      (\<lambda>_. log_ok c b) (log_ok c b)"
    using settle_cleaned_log [OF assms, of c H] discard_safely_log [of c b H j] settle_poisoned_log [of c b H w j]
    by (cases cleaned) (auto split: py_error.split)
qed

lemma coerce_pairs_answers:
  "length bs = length rs \<Longrightarrow> coerce_pairs (zip bs rs) = Inr xs \<Longrightarrow>
   list_all2 (\<lambda>j r. ir_error r = None \<longrightarrow> answers r j) bs xs"
proof (induction bs rs arbitrary: xs rule: list_induct2)
  case (Cons j bs r rs)
  then show ?case
    by (auto simp: bind_result_eq_Inr coerce_result_def answers_def from_job_def
        split: raw_result.splits if_splits)
qed simp

lemma coerce_all_answers:
  "coerce_all batch raw = Inr results \<Longrightarrow> list_all2 (\<lambda>j r. ir_error r = None \<longrightarrow> answers r j) batch results"
  by (auto simp: coerce_all_def bind_result_eq_Inr split: if_splits dest: coerce_pairs_answers [OF sym])

lemma drain_jobs_log:
  "triple (log_ok c b) (drain_jobs (logged H) w jobs)
     (\<lambda>rs p. log_ok c b p \<and> (\<forall>r \<in> set rs. ir_error r \<noteq> None)) (log_ok c b)"
proof (induction jobs)
  case Nil
  then show ?case by simp
next
  case (Cons job jobs)
  show ?case
    unfolding drain_jobs.simps
    apply (rule triple_bind [where R = "\<lambda>_. log_ok c b"])
     apply (rule triple_outcome [OF logged_silent(2)], assumption)
    apply (rule triple_look, rule triple_if)
     apply (rule triple_seq [OF triple_pre [OF _ logged_silent(1)] Cons.IH], simp)
    apply (rule triple_look)
    subgoal for rejected cancelled failure
      by (cases failure) (auto intro!: triple_bind [OF triple_pre [OF _ Cons.IH]])
    done
qed

lemma drain_failed_queue_log:
  "triple (log_ok c b) (drain_failed_queue (logged H) w)
     (\<lambda>rs p. log_ok c b p \<and> (\<forall>r \<in> set rs. ir_error r \<noteq> None)) (log_ok c b)"
  unfolding drain_failed_queue_def
  by (rule triple_look, rule triple_seq [OF _ drain_jobs_log]) (simp add: log_ok_def)

lemma submission_results_log:
  "triple (log_ok c batch) (submission_results (logged H) w batch raw)
     (\<lambda>(rs, qf) p. log_ok c batch p \<and> list_all2 (\<lambda>j r. ir_error r = None \<longrightarrow> answers r j) batch rs \<and>
        (\<forall>r \<in> set qf. ir_error r \<noteq> None)) (log_ok c batch)"
proof (cases "coerce_all batch raw")
  case (Inr results)
  then show ?thesis by (simp add: submission_results_def coerce_all_answers)
next
  case (Inl exc)
  let ?err = "error_type_name exc @ '': batch failed''"
  have "triple (\<lambda>p. log_ok c batch p \<and> map_of (sc_submit_failures (fst p)) w = failed)
      (if failed \<noteq> None then py_return ()
       else py_seq (change (\<lambda>s. s\<lparr>sc_submit_failures := AList.update w ?err (sc_submit_failures s)\<rparr>))
              (on_snd (hk_worker_failed (logged H) w ''submit_failed''))) (\<lambda>_. log_ok c batch) (log_ok c batch)" for failed
    by (rule triple_if, simp, rule triple_seq [OF _ logged_silent(3)], simp add: log_ok_def)
  then show ?thesis
    unfolding submission_results_def Inl sum.case Let_def
    by (intro triple_look) (rule triple_seq, assumption, rule triple_bind [OF drain_failed_queue_log],
        simp add: list_all2_conv_all_nth)
qed

lemma run_once_finish_log:
  "triple (log_ok c batch) (run_once_finish (logged H) w batch raw) (\<lambda>_. log_ok c batch) (log_ok c batch)"
  unfolding run_once_finish_def
proof (rule triple_bind [OF submission_results_log], clarify)
  fix rs qf
  have loop: "triple (log_ok c batch) (py_for (zip batch rs) (\<lambda>(job, r). settle_job (logged H) w job r))
      (\<lambda>_. log_ok c batch) (log_ok c batch)"
    if "list_all2 (\<lambda>j r. ir_error r = None \<longrightarrow> answers r j) batch rs"
    by (rule triple_for) (use that in \<open>auto simp: list_all2_iff intro!: settle_job_log dest: set_zip_leftD\<close>)
  have qf: "triple (log_ok c batch) (publish_all (logged H) qf) (\<lambda>_. log_ok c batch) (log_ok c batch)"
    if "\<forall>r \<in> set qf. ir_error r \<noteq> None"
    unfolding publish_all_def by (rule triple_for) (use that in \<open>auto intro: logged_publish_error\<close>)
  show "triple (\<lambda>p. log_ok c batch p \<and> list_all2 (\<lambda>j r. ir_error r = None \<longrightarrow> answers r j) batch rs \<and>
      (\<forall>r \<in> set qf. ir_error r \<noteq> None))
      (py_seq (change (uncount (sum_list (map ij_sample_count batch))))
        (py_seq (py_for (zip batch rs) (\<lambda>(job, r). settle_job (logged H) w job r))
          (py_seq (publish_all (logged H) qf) (py_return rs)))) (\<lambda>_. log_ok c batch) (log_ok c batch)"
  proof (cases "list_all2 (\<lambda>j r. ir_error r = None \<longrightarrow> answers r j) batch rs \<and> (\<forall>r \<in> set qf. ir_error r \<noteq> None)")
    case True
    then show ?thesis
      by (intro triple_seq [of _ _ "log_ok c batch"] loop qf) (simp_all add: log_ok_def)
  qed (auto simp: triple_def)
qed

text \<open>C1: whatever the hooks do and the adapter answers, a successful result is published only after
  its job's cleanup completed, only for a job of the batch whose session generation is not
  cancelled, and only if it names that job, its generation, its sequence number and its exact
  sample range; a malformed, misaddressed or stale answer is never published as a success.\<close>

theorem publication_follows_cleanup:
  assumes "run_once_finish (logged H) w batch raw (s, (e, [])) = (res, (s', (e', before @ Published r # after)))"
    and "ir_error r = None"
  shows "\<exists>j \<in> set batch. Cleaned j \<in> set before \<and> ij_owner j \<notin> set (sc_cancelled_generations s) \<and>
     answers r j \<and> ir_generation r = ij_generation j \<and> ir_job_sequence r = ij_job_sequence j"
proof -
  let ?c = "sc_cancelled_generations s"
  have pre: "log_ok ?c batch (s, (e, []))" by (simp add: log_ok_def)
  note t = run_once_finish_log [of ?c batch H w raw]
  have "log_ok ?c batch (s', (e', before @ Published r # after))"
    using tripleD [OF t pre] tripleE [OF t pre] assms(1) by (cases res) simp_all
  then have "justified ?c batch before r" by (auto simp: log_ok_def dest: safe_log_split)
  with assms(2) show ?thesis by (auto simp: justified_def)
qed

definition example_result :: InferenceResult where
  "example_result = (from_job example_job [])\<lparr>ir_error := None, ir_text := [104, 105]\<rparr>"

theorem publication_follows_cleanup_witness:
  "\<exists>s' e'. run_once_finish (logged noop_hooks) ''w'' [example_job] (Inr [RawResult example_result]) (loaded_scheduler, ((), [])) =
     (Inr [example_result], (s', (e', [Cleaned example_job] @ Published example_result # []))) \<and>
   ij_owner example_job \<notin> set (sc_cancelled_generations loaded_scheduler) \<and> answers example_result example_job"
proof -
  have ok: "coerce_all [example_job] (Inr [RawResult example_result]) = Inr [example_result]"
    by (simp add: coerce_all_def coerce_result_def example_result_def from_job_def)
  have nc: "sc_cancelled_generations loaded_scheduler = []"
    by (simp add: loaded_scheduler_def example_scheduler_def)
  have same: "ir_generation example_result = ij_generation example_job"
    "ir_job_sequence example_result = ij_job_sequence example_job"
    by (simp_all add: example_result_def from_job_def)
  obtain s' e' where run: "run_once_finish (logged noop_hooks) ''w'' [example_job] (Inr [RawResult example_result])
      (loaded_scheduler, ((), [])) = (Inr [example_result], (s', (e', [Cleaned example_job] @ Published example_result # [])))"
    using ok nc same
    by (simp add: run_once_finish_def submission_results_def settle_job_def settle_cleaned_def publish_all_def
        logged_def noop_hooks_def method_defs look_def change_def on_snd_def)
  from publication_follows_cleanup [OF run] run show ?thesis
    by (auto simp: example_result_def)
qed

end
