(* ===== verification/Metrics.thy ===== *)
theory Metrics
  imports Observability Backends
begin

text \<open>
  \<open>app/asr_gateway_metrics.py\<close>: the per-job stage timeline and the gateway's bounded metrics
  window. Methods that raise half-way keep what they did before, so they are modelled as
  \<open>method\<close>s over the metrics object.
\<close>

section \<open>Timelines\<close>

definition STAGES :: "string list" where
  "STAGES = [''audio_received'', ''chunk_ready'', ''scheduler_enqueued'', ''scheduler_dispatched'',
     ''worker_accepted'', ''inference_started'', ''inference_completed'', ''result_applied'', ''event_sent'']"

record JobTimeline =
  tl_job_id :: string
  tl_worker_id :: string
  tl_decoded_samples :: int
  tl_sample_rate :: int
  tl_stages :: "(string, rat) dict"

definition tl_mark :: "string \<Rightarrow> rat \<Rightarrow> JobTimeline \<Rightarrow> JobTimeline result" where
  "tl_mark stage timestamp t =
     (if stage \<notin> set STAGES then Inl (ValueError ''unknown metric stage'')
      else if tl_stages t \<noteq> [] \<and> timestamp < Max (snd ` set (tl_stages t)) then
        Inl (ValueError ''metric timestamps must be monotonic'')
      else Inr (t\<lparr>tl_stages := AList.update stage timestamp (tl_stages t)\<rparr>))"

definition tl_missing :: "JobTimeline \<Rightarrow> string list" where
  "tl_missing t = filter (\<lambda>stage. map_of (tl_stages t) stage = None) STAGES"

definition tl_require_complete :: "JobTimeline \<Rightarrow> unit result" where
  "tl_require_complete t =
     (if tl_missing t \<noteq> [] then Inl (ValueError ''missing metric stages'') else Inr ())"

definition tl_at :: "JobTimeline \<Rightarrow> string \<Rightarrow> rat" where
  "tl_at t stage = the (map_of (tl_stages t) stage)"

record stage_durations =
  chunk_wait_seconds :: rat
  batch_wait_seconds :: rat
  worker_wait_seconds :: rat
  inference_seconds :: rat
  egress_seconds :: rat

definition tl_durations :: "JobTimeline \<Rightarrow> stage_durations result" where
  "tl_durations t =
     bind_result (tl_require_complete t) (\<lambda>_. Inr
       \<lparr>chunk_wait_seconds = tl_at t ''chunk_ready'' - tl_at t ''audio_received'',
        batch_wait_seconds = tl_at t ''scheduler_dispatched'' - tl_at t ''scheduler_enqueued'',
        worker_wait_seconds = tl_at t ''inference_started'' - tl_at t ''worker_accepted'',
        inference_seconds = tl_at t ''inference_completed'' - tl_at t ''inference_started'',
        egress_seconds = tl_at t ''event_sent'' - tl_at t ''result_applied''\<rparr>)"

section \<open>The metrics object\<close>

record gauges =
  ga_active_sessions :: int
  ga_ready_depth :: int
  ga_queued_audio_seconds :: rat
  ga_session_buffered_audio_seconds :: rat
  ga_session_reserved_audio_seconds :: rat
  ga_max_session_held_audio_seconds :: rat
  ga_session_buffer_high_water_seconds :: rat

record GatewayMetrics =
  gm_max_completed :: nat
  gm_completed :: "(JobTimeline \<times> int \<times> int) list"
  gm_completed_total :: int
  gm_high_water_samples :: int
  gm_scheduler_batch_sizes :: BoundedValues
  gm_engine_group_sizes :: BoundedValues
  gm_engine_groups_per_batch :: BoundedValues
  gm_engine_partial_seconds :: BoundedValues
  gm_engine_final_seconds :: BoundedValues
  gm_engine_accumulated_audio_seconds :: BoundedValues
  gm_engine_output_characters :: BoundedValues
  gm_engine_maximum_character_run :: BoundedValues
  gm_engine_calls :: int
  gm_capacity_rejections :: "(string, int) dict"
  gm_gauges :: gauges
  gm_cancellations :: int
  gm_conflicts :: int
  gm_failures :: int

definition gm_init :: "int \<Rightarrow> GatewayMetrics result" where
  "gm_init max_completed =
     (if max_completed \<le> 0 then Inl (ValueError ''max_completed must be positive'')
      else let b = \<lparr>bv_maxlen = nat max_completed, bv_values = []\<rparr> in
        Inr \<lparr>gm_max_completed = nat max_completed, gm_completed = [], gm_completed_total = 0,
             gm_high_water_samples = 0, gm_scheduler_batch_sizes = b, gm_engine_group_sizes = b,
             gm_engine_groups_per_batch = b, gm_engine_partial_seconds = b, gm_engine_final_seconds = b,
             gm_engine_accumulated_audio_seconds = b, gm_engine_output_characters = b,
             gm_engine_maximum_character_run = b, gm_engine_calls = 0, gm_capacity_rejections = [],
             gm_gauges = \<lparr>ga_active_sessions = 0, ga_ready_depth = 0, ga_queued_audio_seconds = 0,
               ga_session_buffered_audio_seconds = 0, ga_session_reserved_audio_seconds = 0,
               ga_max_session_held_audio_seconds = 0, ga_session_buffer_high_water_seconds = 0\<rparr>,
             gm_cancellations = 0, gm_conflicts = 0, gm_failures = 0\<rparr>)"

text \<open>\<open>self._x.add(v)\<close> on one of the eight windows.\<close>

definition window_add ::
  "(GatewayMetrics \<Rightarrow> BoundedValues) \<Rightarrow> ((BoundedValues \<Rightarrow> BoundedValues) \<Rightarrow> GatewayMetrics \<Rightarrow> GatewayMetrics) \<Rightarrow>
   pyfloat \<Rightarrow> (GatewayMetrics, unit) py_method" where
  "window_add get upd v = (\<lambda>m. case bounded_values_add (get m) v of
     Inl e \<Rightarrow> (Inl e, m) | Inr b \<Rightarrow> (Inr (), upd (\<lambda>_. b) m))"

definition record_scheduler_batch :: "pyfloat \<Rightarrow> (GatewayMetrics, unit) py_method" where
  "record_scheduler_batch batch_size =
     window_add gm_scheduler_batch_sizes gm_scheduler_batch_sizes_update batch_size"

definition record_capacity_rejection :: "string \<Rightarrow> (GatewayMetrics, unit) py_method" where
  "record_capacity_rejection reason = py_modify (\<lambda>m. m\<lparr>gm_capacity_rejections :=
     AList.update reason ((case map_of (gm_capacity_rejections m) reason of None \<Rightarrow> 0 | Some n \<Rightarrow> n) + 1)
       (gm_capacity_rejections m)\<rparr>)"

record engine_call =
  ec_group_size :: pyfloat
  ec_group_ordinal :: int
  ec_group_count :: pyfloat
  ec_elapsed_seconds :: pyfloat
  ec_final :: bool
  ec_accumulated_audio_seconds :: pyfloat
  ec_output_characters :: pyfloat
  ec_maximum_character_run :: pyfloat

definition record_engine_call :: "engine_call \<Rightarrow> (GatewayMetrics, unit) py_method" where
  "record_engine_call c =
     py_seq (py_modify (\<lambda>m. m\<lparr>gm_engine_calls := gm_engine_calls m + 1\<rparr>))
     (py_seq (window_add gm_engine_group_sizes gm_engine_group_sizes_update (ec_group_size c))
     (py_seq (if ec_group_ordinal c = 1
              then window_add gm_engine_groups_per_batch gm_engine_groups_per_batch_update (ec_group_count c)
              else py_return ())
     (py_seq (if ec_final c
              then window_add gm_engine_final_seconds gm_engine_final_seconds_update (ec_elapsed_seconds c)
              else window_add gm_engine_partial_seconds gm_engine_partial_seconds_update (ec_elapsed_seconds c))
     (py_seq (window_add gm_engine_accumulated_audio_seconds gm_engine_accumulated_audio_seconds_update
                (ec_accumulated_audio_seconds c))
     (py_seq (window_add gm_engine_output_characters gm_engine_output_characters_update (ec_output_characters c))
       (window_add gm_engine_maximum_character_run gm_engine_maximum_character_run_update
          (ec_maximum_character_run c)))))))"

definition gm_complete :: "JobTimeline \<Rightarrow> int \<Rightarrow> int \<Rightarrow> (GatewayMetrics, unit) py_method" where
  "gm_complete timeline batch_size batch_capacity = (\<lambda>m.
     if tl_missing timeline \<noteq> [] then (Inr (), m)
     else if batch_size \<le> 0 \<or> batch_capacity < batch_size then
       (Inl (ValueError ''batch accounting is invalid''), m)
     else (Inr (), m\<lparr>gm_completed := deque_append (gm_max_completed m) (gm_completed m)
                        (timeline, batch_size, batch_capacity),
                     gm_completed_total := gm_completed_total m + 1\<rparr>))"

record gauge_input =
  gi_active_sessions :: int
  gi_ready_depth :: int
  gi_queued_samples :: int
  gi_session_buffered_samples :: int
  gi_session_reserved_samples :: int
  gi_max_session_held_samples :: int
  gi_sample_rate :: int

definition per_second :: "int \<Rightarrow> int \<Rightarrow> rat" where
  "per_second samples rate = of_int samples / of_int rate"

definition set_gauges :: "gauge_input \<Rightarrow> (GatewayMetrics, unit) py_method" where
  "set_gauges g = (\<lambda>m.
     let high = max (gm_high_water_samples m) (max 0 (gi_max_session_held_samples g));
         m1 = m\<lparr>gm_high_water_samples := high\<rparr>
     in if gi_sample_rate g = 0 then (Inl (OtherError ''ZeroDivisionError''), m1)
        else (Inr (), m1\<lparr>gm_gauges :=
          \<lparr>ga_active_sessions = max 0 (gi_active_sessions g), ga_ready_depth = max 0 (gi_ready_depth g),
           ga_queued_audio_seconds = per_second (max 0 (gi_queued_samples g)) (gi_sample_rate g),
           ga_session_buffered_audio_seconds = per_second (max 0 (gi_session_buffered_samples g)) (gi_sample_rate g),
           ga_session_reserved_audio_seconds = per_second (max 0 (gi_session_reserved_samples g)) (gi_sample_rate g),
           ga_max_session_held_audio_seconds = per_second (max 0 (gi_max_session_held_samples g)) (gi_sample_rate g),
           ga_session_buffer_high_water_seconds = per_second high (gi_sample_rate g)\<rparr>\<rparr>))"

record observability_snapshot =
  os_scheduler_batch_size :: "value_summary option"
  os_engine_calls :: int
  os_group_size :: "value_summary option"
  os_groups_per_scheduler_batch :: "value_summary option"
  os_partial_inference_seconds :: "value_summary option"
  os_final_inference_seconds :: "value_summary option"
  os_accumulated_audio_seconds :: "value_summary option"
  os_output_characters :: "value_summary option"
  os_maximum_character_run :: "value_summary option"
  os_buffer_rejections :: "(string, int) dict"

definition gm_observability_snapshot :: "GatewayMetrics \<Rightarrow> observability_snapshot" where
  "gm_observability_snapshot m =
     \<lparr>os_scheduler_batch_size = bounded_values_summary (gm_scheduler_batch_sizes m),
      os_engine_calls = gm_engine_calls m,
      os_group_size = bounded_values_summary (gm_engine_group_sizes m),
      os_groups_per_scheduler_batch = bounded_values_summary (gm_engine_groups_per_batch m),
      os_partial_inference_seconds = bounded_values_summary (gm_engine_partial_seconds m),
      os_final_inference_seconds = bounded_values_summary (gm_engine_final_seconds m),
      os_accumulated_audio_seconds = bounded_values_summary (gm_engine_accumulated_audio_seconds m),
      os_output_characters = bounded_values_summary (gm_engine_output_characters m),
      os_maximum_character_run = bounded_values_summary (gm_engine_maximum_character_run m),
      os_buffer_rejections = sort_key fst (gm_capacity_rejections m)\<rparr>"

record window_snapshot =
  ws_decoded_seconds :: rat
  ws_aggregate_rtf :: rat
  ws_batch_fill_ratio :: rat
  ws_latency :: stage_durations

record metrics_snapshot =
  ms_gauges :: gauges
  ms_completed_jobs :: int
  ms_completed_window_jobs :: nat
  ms_window :: "window_snapshot option"
  ms_cancellations :: int
  ms_conflicts :: int
  ms_failures :: int
  ms_observability :: observability_snapshot

text \<open>Python's \<open>a / b\<close>: division by zero raises.\<close>

definition py_div :: "rat \<Rightarrow> rat \<Rightarrow> rat result" where
  "py_div a b = (if b = 0 then Inl (OtherError ''ZeroDivisionError'') else Inr (a / b))"

fun collect :: "('a \<Rightarrow> 'b result) \<Rightarrow> 'a list \<Rightarrow> 'b list result" where
  "collect f [] = Inr []"
| "collect f (x # xs) = bind_result (f x) (\<lambda>y. bind_result (collect f xs) (\<lambda>ys. Inr (y # ys)))"

definition mean_of :: "(stage_durations \<Rightarrow> rat) \<Rightarrow> stage_durations list \<Rightarrow> rat" where
  "mean_of f ds = sum_list (map f ds) / of_nat (length ds)"

definition gm_window :: "(JobTimeline \<times> int \<times> int) list \<Rightarrow> window_snapshot result" where
  "gm_window completed =
     bind_result (collect (\<lambda>(t, _, _). tl_durations t) completed) (\<lambda>durations.
     bind_result (collect (\<lambda>(t, _, _). py_div (of_int (tl_decoded_samples t)) (of_int (tl_sample_rate t))) completed) (\<lambda>decoded.
     bind_result (collect (\<lambda>(_, items, capacity). py_div (of_int items) (of_int capacity)) completed) (\<lambda>fills.
       let decoded_seconds = sum_list decoded; inference = sum_list (map inference_seconds durations)
       in Inr \<lparr>ws_decoded_seconds = decoded_seconds,
               ws_aggregate_rtf = (if decoded_seconds \<noteq> 0 then inference / decoded_seconds else 0),
               ws_batch_fill_ratio = sum_list fills / of_nat (length completed),
               ws_latency = \<lparr>chunk_wait_seconds = mean_of chunk_wait_seconds durations,
                 batch_wait_seconds = mean_of batch_wait_seconds durations,
                 worker_wait_seconds = mean_of worker_wait_seconds durations,
                 inference_seconds = mean_of inference_seconds durations,
                 egress_seconds = mean_of egress_seconds durations\<rparr>\<rparr>)))"

definition gm_snapshot :: "GatewayMetrics \<Rightarrow> metrics_snapshot result" where
  "gm_snapshot m =
     bind_result (if gm_completed m = [] then Inr None
                  else bind_result (gm_window (gm_completed m)) (\<lambda>w. Inr (Some w))) (\<lambda>w.
       Inr \<lparr>ms_gauges = gm_gauges m, ms_completed_jobs = gm_completed_total m,
            ms_completed_window_jobs = length (gm_completed m), ms_window = w,
            ms_cancellations = gm_cancellations m, ms_conflicts = gm_conflicts m,
            ms_failures = gm_failures m, ms_observability = gm_observability_snapshot m\<rparr>)"

definition gateway_readiness :: "registry \<Rightarrow> bool" where
  "gateway_readiness r = registry_ready r"

section \<open>Invariant\<close>

definition entry_ok :: "JobTimeline \<times> int \<times> int \<Rightarrow> bool" where
  "entry_ok c \<longleftrightarrow> (case c of (t, items, capacity) \<Rightarrow>
     tl_missing t = [] \<and> tl_sample_rate t \<noteq> 0 \<and> 0 < items \<and> items \<le> capacity)"

definition gm_windows :: "GatewayMetrics \<Rightarrow> BoundedValues list" where
  "gm_windows m = [gm_scheduler_batch_sizes m, gm_engine_group_sizes m, gm_engine_groups_per_batch m,
     gm_engine_partial_seconds m, gm_engine_final_seconds m, gm_engine_accumulated_audio_seconds m,
     gm_engine_output_characters m, gm_engine_maximum_character_run m]"

definition gm_inv :: "GatewayMetrics \<Rightarrow> bool" where
  "gm_inv m \<longleftrightarrow> 0 < gm_max_completed m \<and> length (gm_completed m) \<le> gm_max_completed m \<and>
     int (length (gm_completed m)) \<le> gm_completed_total m \<and> list_all entry_ok (gm_completed m) \<and>
     list_all bounded_values_inv (gm_windows m) \<and> 0 \<le> gm_high_water_samples m"

datatype gm_op =
    SchedulerBatch pyfloat
  | CapacityRejection string
  | EngineCall engine_call
  | Complete JobTimeline int int
  | SetGauges gauge_input

fun gm_call :: "gm_op \<Rightarrow> (GatewayMetrics, unit) py_method" where
  "gm_call (SchedulerBatch n) = record_scheduler_batch n"
| "gm_call (CapacityRejection r) = record_capacity_rejection r"
| "gm_call (EngineCall c) = record_engine_call c"
| "gm_call (Complete t n k) = gm_complete t n k"
| "gm_call (SetGauges g) = set_gauges g"

text \<open>The runtime's timelines carry a sampling rate.\<close>

fun gm_op_ok :: "gm_op \<Rightarrow> bool" where
  "gm_op_ok (Complete t n k) \<longleftrightarrow> tl_sample_rate t \<noteq> 0"
| "gm_op_ok _ \<longleftrightarrow> True"

definition gm_run :: "gm_op list \<Rightarrow> GatewayMetrics \<Rightarrow> GatewayMetrics" where
  "gm_run ops m = fold (\<lambda>x m. snd (gm_call x m)) ops m"

lemma gm_init_inv: "gm_init n = Inr m \<Longrightarrow> gm_inv m"
  by (auto simp: gm_init_def gm_inv_def gm_windows_def bounded_values_inv_def Let_def split: if_splits)

text \<open>Adding to a window: the eight windows are the instances of one argument.\<close>

lemma window_add_keeps:
  assumes "\<And>m. gm_inv m \<Longrightarrow> bounded_values_inv (get m)"
    and "\<And>m b. gm_inv m \<Longrightarrow> bounded_values_inv b \<Longrightarrow> gm_inv (upd (\<lambda>_. b) m)"
  shows "triple gm_inv (window_add get upd v) (\<lambda>_. gm_inv) gm_inv"
proof (rule triple_intro)
  fix m assume m: "gm_inv m"
  show "case window_add get upd v m of (Inl e, t) \<Rightarrow> gm_inv t | (Inr x, t) \<Rightarrow> gm_inv t"
    using m assms(2) [OF m] bounded_values_add_inv [OF assms(1) [OF m], of v]
    by (cases "bounded_values_add (get m) v") (simp_all add: window_add_def)
qed

lemma gm_inv_windows:
  assumes "gm_inv m"
  shows "bounded_values_inv (gm_scheduler_batch_sizes m)" "bounded_values_inv (gm_engine_group_sizes m)"
    "bounded_values_inv (gm_engine_groups_per_batch m)" "bounded_values_inv (gm_engine_partial_seconds m)"
    "bounded_values_inv (gm_engine_final_seconds m)" "bounded_values_inv (gm_engine_accumulated_audio_seconds m)"
    "bounded_values_inv (gm_engine_output_characters m)" "bounded_values_inv (gm_engine_maximum_character_run m)"
  using assms by (simp_all add: gm_inv_def gm_windows_def)

lemma gm_inv_update:
  assumes "gm_inv m" and "bounded_values_inv b"
  shows "gm_inv (gm_scheduler_batch_sizes_update (\<lambda>_. b) m)" "gm_inv (gm_engine_group_sizes_update (\<lambda>_. b) m)"
    "gm_inv (gm_engine_groups_per_batch_update (\<lambda>_. b) m)" "gm_inv (gm_engine_partial_seconds_update (\<lambda>_. b) m)"
    "gm_inv (gm_engine_final_seconds_update (\<lambda>_. b) m)"
    "gm_inv (gm_engine_accumulated_audio_seconds_update (\<lambda>_. b) m)"
    "gm_inv (gm_engine_output_characters_update (\<lambda>_. b) m)"
    "gm_inv (gm_engine_maximum_character_run_update (\<lambda>_. b) m)"
  using assms by (simp_all add: gm_inv_def gm_windows_def)

lemma window_keeps:
  shows "triple gm_inv (window_add gm_scheduler_batch_sizes gm_scheduler_batch_sizes_update v) (\<lambda>_. gm_inv) gm_inv"
    and "triple gm_inv (window_add gm_engine_group_sizes gm_engine_group_sizes_update v) (\<lambda>_. gm_inv) gm_inv"
    and "triple gm_inv (window_add gm_engine_groups_per_batch gm_engine_groups_per_batch_update v) (\<lambda>_. gm_inv) gm_inv"
    and "triple gm_inv (window_add gm_engine_partial_seconds gm_engine_partial_seconds_update v) (\<lambda>_. gm_inv) gm_inv"
    and "triple gm_inv (window_add gm_engine_final_seconds gm_engine_final_seconds_update v) (\<lambda>_. gm_inv) gm_inv"
    and "triple gm_inv (window_add gm_engine_accumulated_audio_seconds gm_engine_accumulated_audio_seconds_update v) (\<lambda>_. gm_inv) gm_inv"
    and "triple gm_inv (window_add gm_engine_output_characters gm_engine_output_characters_update v) (\<lambda>_. gm_inv) gm_inv"
    and "triple gm_inv (window_add gm_engine_maximum_character_run gm_engine_maximum_character_run_update v) (\<lambda>_. gm_inv) gm_inv"
  by (rule window_add_keeps; simp add: gm_inv_windows gm_inv_update)+

lemma record_engine_call_keeps: "triple gm_inv (record_engine_call c) (\<lambda>_. gm_inv) gm_inv"
  unfolding record_engine_call_def
  apply (rule triple_seq [of _ _ gm_inv], simp add: gm_inv_def gm_windows_def)
  apply (rule triple_seq [OF window_keeps(2)])
  apply (rule triple_seq [of _ _ gm_inv], rule triple_if, rule window_keeps(3), simp)
  apply (rule triple_seq [of _ _ gm_inv], rule triple_if, rule window_keeps(5), rule window_keeps(4))
  apply (rule triple_seq [OF window_keeps(6) triple_seq [OF window_keeps(7) window_keeps(8)]])
  done

lemma gm_complete_keeps:
  assumes "tl_sample_rate t \<noteq> 0"
  shows "triple gm_inv (gm_complete t n k) (\<lambda>_. gm_inv) gm_inv"
proof (rule triple_intro)
  fix m assume m: "gm_inv m"
  let ?c = "deque_append (gm_max_completed m) (gm_completed m) (t, n, k)"
  have "list_all entry_ok ?c" if "tl_missing t = []" "0 < n" "n \<le> k"
    using m that assms set_deque_append [of "gm_max_completed m" "gm_completed m" "(t, n, k)"]
    by (auto simp: list_all_iff gm_inv_def entry_ok_def)
  then show "case gm_complete t n k m of (Inl e, t) \<Rightarrow> gm_inv t | (Inr x, t) \<Rightarrow> gm_inv t"
    using m length_deque_append [of "gm_max_completed m" "gm_completed m" "(t, n, k)"]
    by (auto simp: gm_complete_def gm_inv_def gm_windows_def)
qed

lemma gm_call_keeps: "gm_op_ok x \<Longrightarrow> triple gm_inv (gm_call x) (\<lambda>_. gm_inv) gm_inv"
proof (cases x)
  case (SchedulerBatch n)
  then show ?thesis by (simp add: record_scheduler_batch_def window_keeps(1))
next
  case (CapacityRejection r)
  then show ?thesis by (simp add: record_capacity_rejection_def gm_inv_def gm_windows_def)
next
  case (EngineCall c)
  then show ?thesis by (simp add: record_engine_call_keeps)
next
  case (Complete t n k)
  assume "gm_op_ok x"
  with Complete show ?thesis by (simp add: gm_complete_keeps)
next
  case (SetGauges g)
  then show ?thesis by (auto simp: triple_def set_gauges_def gm_inv_def gm_windows_def Let_def)
qed

lemma gm_call_inv:
  assumes "gm_op_ok x" and "gm_inv m"
  shows "gm_inv (snd (gm_call x m))"
proof -
  obtain r t where "gm_call x m = (r, t)" by (cases "gm_call x m")
  with tripleD [OF gm_call_keeps [OF assms(1)] assms(2)] tripleE [OF gm_call_keeps [OF assms(1)] assms(2)]
  show ?thesis by (cases r) auto
qed

lemma gm_run_inv: "list_all gm_op_ok ops \<Longrightarrow> gm_inv m \<Longrightarrow> gm_inv (gm_run ops m)"
  unfolding gm_run_def by (induction ops arbitrary: m) (simp_all add: gm_call_inv)

section \<open>Snapshots\<close>

lemma collect_total: "(\<And>x. x \<in> set xs \<Longrightarrow> isOk (f x)) \<Longrightarrow> \<exists>ys. collect f xs = Inr ys"
proof (induction xs)
  case (Cons x xs)
  from Cons.prems [of x] obtain y where "f x = Inr y" by (auto simp: isOk_iff)
  moreover from Cons.IH Cons.prems obtain ys where "collect f xs = Inr ys" by auto
  ultimately show ?case by simp
qed simp

lemma collect_all2: "collect f xs = Inr ys \<Longrightarrow> list_all2 (\<lambda>x y. f x = Inr y) xs ys"
  by (induction xs arbitrary: ys) (auto simp: bind_result_eq_Inr)

lemma fill_bounds:
  assumes "list_all entry_ok cs" and "list_all2 (\<lambda>(_, items, capacity) y. py_div (of_int items) (of_int capacity) = Inr y) cs fs"
  shows "0 \<le> sum_list fs \<and> sum_list fs \<le> of_nat (length cs) \<and> (cs \<noteq> [] \<longrightarrow> 0 < sum_list fs)"
  using assms(2,1)
proof (induction rule: list_all2_induct)
  case (Cons c cs f fs)
  obtain t n k where c: "c = (t, n, k)" by (cases c)
  with Cons have "f = of_int n / of_int k" "0 < n" "n \<le> k"
    by (auto simp: entry_ok_def py_div_def split: if_splits)
  then have "0 < f" "f \<le> 1" by (simp_all add: divide_le_eq)
  with Cons show ?case by auto
qed simp

lemma gm_window_total:
  assumes "list_all entry_ok cs" and "cs \<noteq> []"
  shows "\<exists>w. gm_window cs = Inr w \<and> 0 < ws_batch_fill_ratio w \<and> ws_batch_fill_ratio w \<le> 1"
proof -
  have ok: "entry_ok c" if "c \<in> set cs" for c using assms(1) that by (simp add: list_all_iff)
  obtain ds where ds: "collect (\<lambda>(t, _, _). tl_durations t) cs = Inr ds"
    using collect_total [of cs "\<lambda>(t, _, _). tl_durations t"] ok
    by (auto simp: entry_ok_def tl_durations_def tl_require_complete_def)
  obtain dec where dec: "collect (\<lambda>(t, _, _). py_div (of_int (tl_decoded_samples t)) (of_int (tl_sample_rate t))) cs = Inr dec"
    using collect_total [of cs "\<lambda>(t, _, _). py_div (of_int (tl_decoded_samples t)) (of_int (tl_sample_rate t))"] ok
    by (auto simp: entry_ok_def py_div_def)
  obtain fs where fs: "collect (\<lambda>(_, items, capacity). py_div (of_int items) (of_int capacity)) cs = Inr fs"
  proof -
    have "isOk (case c of (_, items, capacity) \<Rightarrow> py_div (of_int items) (of_int capacity))" if "c \<in> set cs" for c
      using ok [OF that] by (auto simp: entry_ok_def py_div_def split: prod.splits)
    then have "\<exists>fs. collect (\<lambda>(_, items, capacity). py_div (of_int items) (of_int capacity)) cs = Inr fs"
      by (rule collect_total)
    with that show thesis by blast
  qed
  have "list_all2 (\<lambda>(_, items, capacity) y. py_div (of_int items) (of_int capacity) = Inr y) cs fs"
    using collect_all2 [OF fs] by (simp add: case_prod_beta')
  from fill_bounds [OF assms(1) this] assms(2) ds dec fs show ?thesis
    by (simp add: gm_window_def Let_def)
qed

text \<open>C33: whatever is recorded, in whatever order and however many recordings are refused, taking a
  snapshot never raises: the window holds at most the configured number of jobs, all of them
  complete, and when it is not empty the batch fill ratio is in (0, 1].\<close>

theorem metrics_snapshot_total:
  assumes "gm_init n = Inr m0" and "list_all gm_op_ok ops"
  shows "\<exists>v. gm_snapshot (gm_run ops m0) = Inr v \<and> int (ms_completed_window_jobs v) \<le> n \<and>
     int (ms_completed_window_jobs v) \<le> ms_completed_jobs v \<and>
     (ms_completed_window_jobs v = 0 \<longleftrightarrow> ms_window v = None) \<and>
     (\<forall>w. ms_window v = Some w \<longrightarrow> 0 < ws_batch_fill_ratio w \<and> ws_batch_fill_ratio w \<le> 1)"
proof -
  let ?m = "gm_run ops m0"
  have inv: "gm_inv ?m" using gm_run_inv [OF assms(2) gm_init_inv [OF assms(1)]] .
  have "gm_max_completed (snd (gm_call x m)) = gm_max_completed m" for x m
    by (cases x) (auto simp: record_scheduler_batch_def record_capacity_rejection_def record_engine_call_def
        gm_complete_def set_gauges_def window_add_def method_defs Let_def split: sum.splits)
  then have "gm_max_completed ?m = gm_max_completed m0"
    unfolding gm_run_def by (induction ops arbitrary: m0) simp_all
  moreover have "int (gm_max_completed m0) = n" using assms(1) by (auto simp: gm_init_def Let_def split: if_splits)
  ultimately have mx: "int (gm_max_completed ?m) = n" by simp
  show ?thesis
  proof (cases "gm_completed ?m = []")
    case True
    with inv mx show ?thesis by (auto simp: gm_snapshot_def gm_inv_def)
  next
    case False
    from inv have "list_all entry_ok (gm_completed ?m)" by (simp add: gm_inv_def)
    from gm_window_total [OF this False] obtain w where "gm_window (gm_completed ?m) = Inr w"
      "0 < ws_batch_fill_ratio w" "ws_batch_fill_ratio w \<le> 1" by blast
    with False inv mx show ?thesis by (auto simp: gm_snapshot_def gm_inv_def)
  qed
qed

theorem metrics_snapshot_total_witness:
  "\<exists>m0 v. gm_init 2 = Inr m0 \<and> gm_snapshot (gm_run [SchedulerBatch (Finite 1), SchedulerBatch (Finite (-1))] m0) = Inr v"
proof -
  obtain m0 where m0: "gm_init 2 = Inr m0" by (simp add: gm_init_def Let_def)
  from metrics_snapshot_total [OF m0, of "[SchedulerBatch (Finite 1), SchedulerBatch (Finite (-1))]"] m0
  show ?thesis by auto
qed

end
