(* ===== verification/Settings.thy ===== *)
theory Settings
  imports Sentences
begin

text \<open>
  The speech-recognition part of the service configuration (\<open>config.py\<close>): the \<open>Settings\<close> fields the
  recognition pipeline reads, the range of each field, the field validators and the model
  validator that relates them. \<open>validate_settings\<close> is the construction of a \<open>Settings\<close> object:
  the settings it returns, with the normalised values, or the first error (pydantic wraps the
  \<open>ValueError\<close> of a validator in its own \<open>ValidationError\<close>, a subclass of \<open>ValueError\<close>).
  The translation and speech-synthesis fields are left out.
\<close>

section \<open>Fields\<close>

datatype asr_backend_name = BackendQwen | BackendQwenVllm | BackendFasterWhisper | BackendSensevoice | BackendMock

datatype asr_stream_mode_name = ModeChunked | ModeStateful | ModeRolling

record Settings =
  asr_model_id :: ustr
  asr_require_model_manifest :: bool
  asr_model_manifest_path :: "ustr option"
  asr_backend :: asr_backend_name
  asr_model_name :: ustr
  asr_device :: string
  asr_faster_whisper_compute_type :: string
  asr_faster_whisper_batch_size :: int
  asr_faster_whisper_partial_beam_size :: int
  asr_faster_whisper_final_beam_size :: int
  asr_sensevoice_batch_size :: int
  asr_sensevoice_use_itn :: bool
  asr_stream_mode :: asr_stream_mode_name
  api_key :: ustr
  asr_stream_chunk_seconds :: rat
  asr_stream_rollover_seconds :: rat
  asr_max_utterance_seconds :: rat
  asr_state_watchdog_seconds :: rat
  asr_vad_model_sha256 :: ustr
  asr_vad_frame_samples :: int
  asr_vad_onset_threshold :: rat
  asr_vad_offset_threshold :: rat
  asr_vad_min_speech_ms :: int
  asr_vad_min_silence_ms :: int
  asr_vad_hangover_ms :: int
  asr_vad_pre_roll_ms :: int
  asr_eager_load :: bool
  asr_file_transcribe_enabled :: bool
  asr_max_active_streams :: int
  asr_inference_queue_size :: int
  asr_max_queued_audio_seconds :: rat
  asr_max_connection_lag_seconds :: rat
  asr_max_undecoded_age_seconds :: rat
  asr_max_frame_bytes :: int
  asr_ws_max_queue :: int
  asr_start_timeout_seconds :: rat
  asr_idle_timeout_seconds :: rat
  asr_max_session_seconds :: rat
  asr_max_audio_seconds :: rat
  asr_stream_queue_timeout_seconds :: rat
  asr_stream_inference_timeout_seconds :: rat
  asr_file_inference_timeout_seconds :: rat
  asr_shutdown_grace_seconds :: rat
  asr_gateway_schedule_max_wait_ms :: int
  asr_gateway_max_ready_jobs :: int
  asr_gateway_max_queued_audio_seconds :: rat
  asr_gateway_max_session_buffer_seconds :: rat
  asr_gateway_default_update_ms :: int
  asr_gateway_drain_timeout_seconds :: rat
  asr_gateway_max_active_sessions :: int
  asr_gateway_default_backend :: string

text \<open>The \<open>Field(gt=..., ge=..., lt=..., le=...)\<close> bounds.\<close>

definition gt_le :: "'a::linorder \<Rightarrow> 'a \<Rightarrow> 'a \<Rightarrow> bool" where
  "gt_le lo hi x \<longleftrightarrow> lo < x \<and> x \<le> hi"

definition ge_le :: "'a::linorder \<Rightarrow> 'a \<Rightarrow> 'a \<Rightarrow> bool" where
  "ge_le lo hi x \<longleftrightarrow> lo \<le> x \<and> x \<le> hi"

definition stream_fields_ok :: "Settings \<Rightarrow> bool" where
  "stream_fields_ok s \<longleftrightarrow>
     gt_le 0 30 (asr_stream_chunk_seconds s) \<and> gt_le 0 3600 (asr_stream_rollover_seconds s) \<and>
     gt_le 0 60 (asr_max_utterance_seconds s) \<and> ge_le 120 120 (asr_state_watchdog_seconds s) \<and>
     gt_le 0 128 (asr_max_active_streams s) \<and> gt_le 0 1024 (asr_inference_queue_size s) \<and>
     gt_le 0 120 (asr_max_queued_audio_seconds s) \<and> gt_le 0 30 (asr_max_connection_lag_seconds s) \<and>
     gt_le 0 60 (asr_max_undecoded_age_seconds s) \<and> gt_le 0 1048576 (asr_max_frame_bytes s) \<and>
     gt_le 0 1024 (asr_ws_max_queue s) \<and> gt_le 0 120 (asr_start_timeout_seconds s) \<and>
     gt_le 0 3600 (asr_idle_timeout_seconds s) \<and> gt_le 0 86400 (asr_max_session_seconds s) \<and>
     gt_le 0 86400 (asr_max_audio_seconds s) \<and> gt_le 0 60 (asr_stream_queue_timeout_seconds s) \<and>
     gt_le 0 300 (asr_stream_inference_timeout_seconds s) \<and>
     gt_le 0 3600 (asr_file_inference_timeout_seconds s) \<and> gt_le 0 300 (asr_shutdown_grace_seconds s)"

definition vad_fields_ok :: "Settings \<Rightarrow> bool" where
  "vad_fields_ok s \<longleftrightarrow>
     ge_le 512 512 (asr_vad_frame_samples s) \<and>
     0 < asr_vad_onset_threshold s \<and> asr_vad_onset_threshold s < 1 \<and>
     0 < asr_vad_offset_threshold s \<and> asr_vad_offset_threshold s < 1 \<and>
     gt_le 0 5000 (asr_vad_min_speech_ms s) \<and> gt_le 0 30000 (asr_vad_min_silence_ms s) \<and>
     ge_le 0 5000 (asr_vad_hangover_ms s) \<and> ge_le 200 200 (asr_vad_pre_roll_ms s)"

definition gateway_fields_ok :: "Settings \<Rightarrow> bool" where
  "gateway_fields_ok s \<longleftrightarrow>
     ge_le 0 1000 (asr_gateway_schedule_max_wait_ms s) \<and> gt_le 0 4096 (asr_gateway_max_ready_jobs s) \<and>
     gt_le 0 600 (asr_gateway_max_queued_audio_seconds s) \<and>
     gt_le 0 120 (asr_gateway_max_session_buffer_seconds s) \<and>
     gt_le 0 30000 (asr_gateway_default_update_ms s) \<and>
     gt_le 0 3600 (asr_gateway_drain_timeout_seconds s) \<and>
     gt_le 0 1024 (asr_gateway_max_active_sessions s) \<and> ge_le 1 128 (length (asr_gateway_default_backend s))"

text \<open>The batching engines.\<close>

definition engine_fields_ok :: "Settings \<Rightarrow> bool" where
  "engine_fields_ok s \<longleftrightarrow>
     asr_faster_whisper_compute_type s \<in> {''float16'', ''int8_float16'', ''int8''} \<and>
     gt_le 0 32 (asr_faster_whisper_batch_size s) \<and> gt_le 0 20 (asr_faster_whisper_partial_beam_size s) \<and>
     gt_le 0 20 (asr_faster_whisper_final_beam_size s) \<and> gt_le 0 64 (asr_sensevoice_batch_size s)"

section \<open>Validators\<close>

text \<open>\<open>if cond: raise ValueError(message)\<close>.\<close>

definition reject_if :: "bool \<Rightarrow> string \<Rightarrow> unit result" where
  "reject_if bad message = (if bad then Inl (ValueError message) else Inr ())"

lemma reject_if_Inr [simp]: "reject_if b m = Inr x \<longleftrightarrow> \<not> b"
  by (simp add: reject_if_def)

fun reject_all :: "(bool \<times> string) list \<Rightarrow> unit result" where
  "reject_all [] = Inr ()"
| "reject_all ((bad, message) # cs) = bind_result (reject_if bad message) (\<lambda>_. reject_all cs)"

lemma reject_all_Inr: "reject_all cs = Inr x \<longleftrightarrow> (\<forall>c \<in> set cs. \<not> fst c)"
  by (induction cs) (auto simp: bind_result_eq_Inr)

definition require_even_pcm_frame_limit :: "int \<Rightarrow> int result" where
  "require_even_pcm_frame_limit value =
     (if value mod 2 \<noteq> 0 then Inl (ValueError ''asr_max_frame_bytes must be even for pcm_s16le'')
      else Inr value)"

definition SILERO_VAD_SHA256 :: ustr where
  "SILERO_VAD_SHA256 = lit ''1a153a22f4509e292a94e67d6f9b85e8deb25b4988682b7e174c65279d8788e3''"

definition hex_digit :: "nat \<Rightarrow> bool" where
  "hex_digit c \<longleftrightarrow> 48 \<le> c \<and> c \<le> 57 \<or> 97 \<le> c \<and> c \<le> 102"

definition require_sha256_hex :: "chardb \<Rightarrow> ustr \<Rightarrow> ustr result" where
  "require_sha256_hex db value =
     (let normalized = cd_lower db (py_strip value)
      in if \<not> (length normalized = 64 \<and> list_all hex_digit normalized)
         then Inl (ValueError ''asr_vad_model_sha256 must be a 64-character SHA256'')
         else if normalized \<noteq> SILERO_VAD_SHA256
         then Inl (ValueError ''asr_vad_model_sha256 must match the pinned model'')
         else Inr normalized)"

definition normalize_optional_manifest_path :: "ustr option \<Rightarrow> ustr option" where
  "normalize_optional_manifest_path value =
     (case value of None \<Rightarrow> None
      | Some v \<Rightarrow> (let stripped = py_strip v in if stripped = [] then None else Some stripped))"

definition PRODUCTION_API_KEY_MIN_LENGTH :: nat where
  "PRODUCTION_API_KEY_MIN_LENGTH = 32"

definition PRODUCTION_API_KEY_PLACEHOLDERS :: "ustr list" where
  "PRODUCTION_API_KEY_PLACEHOLDERS = map lit
     [''change-me'', ''replace-with-a-long-random-secret'', ''test-key'', ''your-api-key'',
      ''your-production-api-key'', ''<your-api-key>'']"

definition production_backend :: "asr_backend_name \<Rightarrow> bool" where
  "production_backend b \<longleftrightarrow> b \<noteq> BackendMock"

definition frame_audio_seconds :: "Settings \<Rightarrow> rat" where
  "frame_audio_seconds s = of_int (asr_max_frame_bytes s) / (2 * 16000)"

text \<open>The checks of a production backend: the API key and the model manifest.\<close>

definition check_production :: "chardb \<Rightarrow> Settings \<Rightarrow> Settings result" where
  "check_production db s =
     (let key = py_strip (api_key s)
      in if length key < PRODUCTION_API_KEY_MIN_LENGTH \<or>
            cd_lower db key \<in> set PRODUCTION_API_KEY_PLACEHOLDERS
         then Inl (ValueError ''Production ASR API key must be at least 32 characters and not a known placeholder'')
         else let s = s\<lparr>api_key := key\<rparr>
              in if asr_require_model_manifest s \<and> asr_model_manifest_path s = None
                 then Inl (ValueError ''Production ASR model manifest path is required when manifest verification is enabled'')
                 else Inr s)"

definition buffer_checks :: "Settings \<Rightarrow> (bool \<times> string) list" where
  "buffer_checks s =
     [(of_int (asr_ws_max_queue s) * frame_audio_seconds s > asr_max_connection_lag_seconds s,
       ''WebSocket buffered audio exceeds asr_max_connection_lag_seconds''),
      (asr_gateway_max_queued_audio_seconds s < asr_gateway_max_session_buffer_seconds s,
       ''asr_gateway_max_queued_audio_seconds must cover one session buffer''),
      (asr_backend s = BackendQwen \<and> asr_stream_mode s = ModeStateful,
       ''asr_backend=qwen does not support stateful streaming''),
      (asr_backend s = BackendFasterWhisper \<and> asr_stream_mode s \<noteq> ModeRolling,
       ''asr_backend=faster_whisper requires rolling streaming''),
      (asr_backend s = BackendSensevoice \<and> asr_stream_mode s \<noteq> ModeRolling,
       ''asr_backend=sensevoice requires rolling streaming''),
      (asr_vad_onset_threshold s \<le> asr_vad_offset_threshold s,
       ''asr_vad_onset_threshold must exceed asr_vad_offset_threshold''),
      (asr_vad_hangover_ms s > asr_vad_min_silence_ms s,
       ''asr_vad_hangover_ms must not exceed asr_vad_min_silence_ms'')]"

text \<open>\<open>value.rstrip("/").endswith("-hf")\<close>.\<close>

definition hf_export :: "ustr \<Rightarrow> bool" where
  "hf_export value = suffix (lit ''-hf'') (rev (dropWhile (\<lambda>c. c = 47) (rev value)))"

definition stateful_checks :: "Settings \<Rightarrow> (bool \<times> string) list" where
  "stateful_checks s =
     [(asr_stream_rollover_seconds s \<le> asr_stream_chunk_seconds s,
       ''asr_stream_rollover_seconds must exceed the model chunk duration''),
      (asr_stream_rollover_seconds s \<le> frame_audio_seconds s,
       ''asr_stream_rollover_seconds must exceed one transport frame''),
      (asr_max_utterance_seconds s \<le> asr_stream_chunk_seconds s,
       ''normal utterance limit must exceed the model chunk duration''),
      (asr_max_utterance_seconds s \<le> frame_audio_seconds s,
       ''normal utterance limit must exceed one transport frame''),
      (asr_backend s = BackendQwenVllm \<and> asr_max_frame_bytes s < asr_vad_frame_samples s * 2,
       ''asr_max_frame_bytes must hold at least one VAD frame''),
      (asr_state_watchdog_seconds s \<le> asr_max_utterance_seconds s + frame_audio_seconds s,
       ''asr_state_watchdog_seconds must exceed the normal utterance limit plus one frame''),
      (asr_backend s = BackendQwenVllm \<and> hf_export (asr_model_id s),
       ''qwen_vllm stateful model_id must not use the -hf export''),
      (asr_backend s = BackendQwenVllm \<and> asr_model_id s \<noteq> lit ''Qwen/Qwen3-ASR-1.7B'' \<and>
         (\<not> asr_require_model_manifest s \<or> asr_model_manifest_path s = None),
       ''qwen_vllm requires Qwen/Qwen3-ASR-1.7B or an approved local model with its manifest'')]"

definition bound_websocket_buffered_audio :: "chardb \<Rightarrow> Settings \<Rightarrow> Settings result" where
  "bound_websocket_buffered_audio db s =
     bind_result (if production_backend (asr_backend s) then check_production db s else Inr s) (\<lambda>s.
     bind_result (reject_all (buffer_checks s)) (\<lambda>_.
     bind_result (if asr_stream_mode s = ModeStateful then reject_all (stateful_checks s) else Inr ()) (\<lambda>_.
       Inr s)))"

definition validate_settings :: "chardb \<Rightarrow> Settings \<Rightarrow> Settings result" where
  "validate_settings db s =
     (if \<not> (stream_fields_ok s \<and> vad_fields_ok s \<and> gateway_fields_ok s \<and> engine_fields_ok s)
      then Inl (OtherError ''ValidationError'')
      else bind_result (require_even_pcm_frame_limit (asr_max_frame_bytes s)) (\<lambda>_.
        bind_result (require_sha256_hex db (asr_vad_model_sha256 s)) (\<lambda>digest.
          bound_websocket_buffered_audio db
            (s\<lparr>asr_vad_model_sha256 := digest,
               asr_model_manifest_path := normalize_optional_manifest_path (asr_model_manifest_path s)\<rparr>))))"

section \<open>What validated settings guarantee\<close>

text \<open>The facts about a validated configuration the streaming components rest on.\<close>

definition settings_sane :: "Settings \<Rightarrow> bool" where
  "settings_sane s \<longleftrightarrow>
     stream_fields_ok s \<and> vad_fields_ok s \<and> gateway_fields_ok s \<and> engine_fields_ok s \<and> asr_max_frame_bytes s mod 2 = 0 \<and>
     (\<forall>c \<in> set (buffer_checks s). \<not> fst c) \<and>
     (asr_stream_mode s = ModeStateful \<longrightarrow> (\<forall>c \<in> set (stateful_checks s). \<not> fst c))"

lemma check_production_Inr:
  "check_production db s = Inr t \<Longrightarrow>
     t = s\<lparr>api_key := py_strip (api_key s)\<rparr> \<and> PRODUCTION_API_KEY_MIN_LENGTH \<le> length (api_key t) \<and>
     (asr_require_model_manifest t \<longrightarrow> asr_model_manifest_path t \<noteq> None)"
  by (auto simp: check_production_def Let_def split: if_splits)

lemma fields_ok_normalised:
  "stream_fields_ok (s\<lparr>asr_vad_model_sha256 := d, asr_model_manifest_path := p\<rparr>) = stream_fields_ok s"
  "vad_fields_ok (s\<lparr>asr_vad_model_sha256 := d, asr_model_manifest_path := p\<rparr>) = vad_fields_ok s"
  "gateway_fields_ok (s\<lparr>asr_vad_model_sha256 := d, asr_model_manifest_path := p\<rparr>) = gateway_fields_ok s"
  "engine_fields_ok (s\<lparr>asr_vad_model_sha256 := d, asr_model_manifest_path := p\<rparr>) = engine_fields_ok s"
  by (simp_all add: stream_fields_ok_def vad_fields_ok_def gateway_fields_ok_def engine_fields_ok_def)

lemma fields_ok_api_key:
  "stream_fields_ok (s\<lparr>api_key := k\<rparr>) = stream_fields_ok s"
  "vad_fields_ok (s\<lparr>api_key := k\<rparr>) = vad_fields_ok s"
  "gateway_fields_ok (s\<lparr>api_key := k\<rparr>) = gateway_fields_ok s"
  "engine_fields_ok (s\<lparr>api_key := k\<rparr>) = engine_fields_ok s"
  by (simp_all add: stream_fields_ok_def vad_fields_ok_def gateway_fields_ok_def engine_fields_ok_def)

lemma bound_websocket_Inr:
  assumes "bound_websocket_buffered_audio db s = Inr t"
  shows "\<exists>k. t = s\<lparr>api_key := k\<rparr>" "\<forall>c \<in> set (buffer_checks t). \<not> fst c"
    "asr_stream_mode t = ModeStateful \<longrightarrow> (\<forall>c \<in> set (stateful_checks t). \<not> fst c)"
    "production_backend (asr_backend t) \<longrightarrow> PRODUCTION_API_KEY_MIN_LENGTH \<le> length (api_key t)"
proof -
  obtain u where u: "(if production_backend (asr_backend s) then check_production db s else Inr s) = Inr u"
    and b: "reject_all (buffer_checks u) = Inr ()"
    and f: "(if asr_stream_mode u = ModeStateful then reject_all (stateful_checks u) else Inr ()) = Inr ()"
    and t: "t = u"
    using assms by (auto simp: bound_websocket_buffered_audio_def bind_result_eq_Inr)
  from u show "\<exists>k. t = s\<lparr>api_key := k\<rparr>"
    unfolding t by (cases "production_backend (asr_backend s)") (auto dest: check_production_Inr intro: exI [of _ "api_key s"])
  from b show "\<forall>c \<in> set (buffer_checks t). \<not> fst c" unfolding t by (simp add: reject_all_Inr)
  from f show "asr_stream_mode t = ModeStateful \<longrightarrow> (\<forall>c \<in> set (stateful_checks t). \<not> fst c)"
    unfolding t by (cases "asr_stream_mode u = ModeStateful") (simp_all add: reject_all_Inr)
  show "production_backend (asr_backend t) \<longrightarrow> PRODUCTION_API_KEY_MIN_LENGTH \<le> length (api_key t)"
    using u unfolding t by (auto split: if_splits dest: check_production_Inr)
qed

lemma validate_settings_sane:
  assumes "validate_settings db s0 = Inr s"
  shows "settings_sane s"
proof -
  from assms obtain d where ok: "stream_fields_ok s0" "vad_fields_ok s0" "gateway_fields_ok s0" "engine_fields_ok s0"
    and ev: "asr_max_frame_bytes s0 mod 2 = 0"
    and b: "bound_websocket_buffered_audio db (s0\<lparr>asr_vad_model_sha256 := d,
          asr_model_manifest_path := normalize_optional_manifest_path (asr_model_manifest_path s0)\<rparr>) = Inr s"
    by (auto simp: validate_settings_def bind_result_eq_Inr require_even_pcm_frame_limit_def split: if_splits)
  from bound_websocket_Inr(1) [OF b] obtain k where s: "s = (s0\<lparr>asr_vad_model_sha256 := d,
          asr_model_manifest_path := normalize_optional_manifest_path (asr_model_manifest_path s0)\<rparr>)\<lparr>api_key := k\<rparr>"
    by blast
  have "stream_fields_ok s" "vad_fields_ok s" "gateway_fields_ok s" "engine_fields_ok s" "asr_max_frame_bytes s mod 2 = 0"
    unfolding s fields_ok_api_key fields_ok_normalised using ok ev by simp_all
  with bound_websocket_Inr(2,3) [OF b] show ?thesis by (simp add: settings_sane_def)
qed

end
