(* ===== verification/Transcribers.thy ===== *)
theory Transcribers
  imports Settings
begin

text \<open>
  The transcribers of \<open>asr.py\<close>: the result records with their chain of continuations, the language
  normalisation, the mock transcriber, and the Qwen vLLM streaming session that cuts the audio
  into bounded utterances and accounts for the decoded samples. The model runtime
  (\<open>qwen_asr\<close>), the artifact verification and the installed package versions are the record
  \<open>qwen_engine\<close>, an argument of the definitions. A model call may mutate the state object it is
  given and raise, so it returns its outcome and the object as it left it.
\<close>

section \<open>Results\<close>

record TranscriptionResult =
  tr_text :: ustr
  tr_language :: "ustr option"

datatype StreamingTranscriptionResult = StreamingResult
  (sr_segment_id: int)
  (sr_segment_text: ustr)
  (sr_language: "ustr option")
  (sr_decoded_samples_delta: "int option")
  (sr_model_updated: bool)
  (sr_segment_finished: bool)
  (sr_queue_wait_seconds: rat)
  (sr_inference_seconds: rat)
  (sr_continuation: "StreamingTranscriptionResult option")

definition streaming_result_init ::
  "ustr \<Rightarrow> ustr option \<Rightarrow> int option \<Rightarrow> bool \<Rightarrow> bool \<Rightarrow> int \<Rightarrow> ustr option \<Rightarrow> int option \<Rightarrow> rat \<Rightarrow> rat \<Rightarrow>
   StreamingTranscriptionResult option \<Rightarrow> StreamingTranscriptionResult" where
  "streaming_result_init t lang processed updated finished seg segment_text delta wait inference next =
     StreamingResult seg (case segment_text of None \<Rightarrow> t | Some u \<Rightarrow> u) lang
       (case delta of None \<Rightarrow> processed | Some d \<Rightarrow> Some d) updated finished wait inference next"

text \<open>The keyword call all sessions make.\<close>

definition segment_result ::
  "int \<Rightarrow> ustr \<Rightarrow> ustr option \<Rightarrow> int \<Rightarrow> bool \<Rightarrow> bool \<Rightarrow> StreamingTranscriptionResult" where
  "segment_result seg segment_text lang delta updated finished =
     streaming_result_init [] lang None updated finished seg (Some segment_text) (Some delta) 0 0 None"

fun snapshots :: "StreamingTranscriptionResult \<Rightarrow> StreamingTranscriptionResult list" where
  "snapshots (StreamingResult g t l d u f q i None) = [StreamingResult g t l d u f q i None]"
| "snapshots (StreamingResult g t l d u f q i (Some c)) =
     StreamingResult g t l d u f q i (Some c) # snapshots c"

definition last_snapshot :: "StreamingTranscriptionResult \<Rightarrow> StreamingTranscriptionResult" where
  "last_snapshot r = last (snapshots r)"

definition total_decoded_samples_delta :: "StreamingTranscriptionResult \<Rightarrow> int option" where
  "total_decoded_samples_delta r =
     (if list_ex (\<lambda>x. sr_decoded_samples_delta x = None) (snapshots r) then None
      else Some (sum_list (map (\<lambda>x. py_or (sr_decoded_samples_delta x) 0) (snapshots r))))"

definition with_continuation ::
  "StreamingTranscriptionResult \<Rightarrow> StreamingTranscriptionResult \<Rightarrow> StreamingTranscriptionResult" where
  "with_continuation r c =
     StreamingResult (sr_segment_id r) (sr_segment_text r) (sr_language r) (sr_decoded_samples_delta r)
       (sr_model_updated r) (sr_segment_finished r) (sr_queue_wait_seconds r) (sr_inference_seconds r) (Some c)"

text \<open>\<open>for current, continuation in zip(results, results[1:]): current.continuation = continuation\<close>;
  the first result then carries the whole chain.\<close>

fun link_results :: "StreamingTranscriptionResult list \<Rightarrow> StreamingTranscriptionResult result" where
  "link_results [] = Inl (OtherError ''IndexError'')"
| "link_results [r] = Inr r"
| "link_results (r # rs) = bind_result (link_results rs) (\<lambda>c. Inr (with_continuation r c))"

section \<open>Languages\<close>

record casedb = chardb +
  cd_upper :: "ustr \<Rightarrow> ustr"

definition QWEN_VLLM_LANGUAGE_ALIASES :: "(ustr, ustr) dict" where
  "QWEN_VLLM_LANGUAGE_ALIASES = map (\<lambda>(a, b). (lit a, lit b))
     [(''zh'', ''Chinese''), (''zh-cn'', ''Chinese''), (''zh-hans'', ''Chinese''),
      (''zh-hant'', ''Chinese''), (''cmn'', ''Chinese''), (''cn'', ''Chinese''),
      (''chinese'', ''Chinese''), (''yue'', ''Cantonese''), (''zh-yue'', ''Cantonese''),
      (''cantonese'', ''Cantonese''), (''en'', ''English''), (''eng'', ''English''),
      (''english'', ''English''), (''ar'', ''Arabic''), (''de'', ''German''), (''fr'', ''French''),
      (''es'', ''Spanish''), (''pt'', ''Portuguese''), (''pt-br'', ''Portuguese''),
      (''pt-pt'', ''Portuguese''), (''id'', ''Indonesian''), (''in'', ''Indonesian''),
      (''it'', ''Italian''), (''ko'', ''Korean''), (''kr'', ''Korean''), (''ru'', ''Russian''),
      (''th'', ''Thai''), (''vi'', ''Vietnamese''), (''ja'', ''Japanese''), (''jp'', ''Japanese''),
      (''tr'', ''Turkish''), (''hi'', ''Hindi''), (''ms'', ''Malay''), (''nl'', ''Dutch''),
      (''sv'', ''Swedish''), (''da'', ''Danish''), (''fi'', ''Finnish''), (''pl'', ''Polish''),
      (''cs'', ''Czech''), (''tl'', ''Filipino''), (''fil'', ''Filipino''), (''fa'', ''Persian''),
      (''el'', ''Greek''), (''ro'', ''Romanian''), (''hu'', ''Hungarian''),
      (''mk'', ''Macedonian'')]"

text \<open>\<open>s.split(c, maxsplit=1)[0]\<close> and \<open>s.rsplit(c, maxsplit=1)\<close>.\<close>

definition split_first :: "nat \<Rightarrow> ustr \<Rightarrow> ustr" where
  "split_first c s = takeWhile (\<lambda>x. x \<noteq> c) s"

definition rsplit_once :: "nat \<Rightarrow> ustr \<Rightarrow> ustr list" where
  "rsplit_once c s =
     (if c \<in> set s
      then [rev (drop 1 (dropWhile (\<lambda>x. x \<noteq> c) (rev s))), rev (takeWhile (\<lambda>x. x \<noteq> c) (rev s))]
      else [s])"

definition normalize_language :: "casedb \<Rightarrow> ustr option \<Rightarrow> ustr option" where
  "normalize_language db language =
     (case language of None \<Rightarrow> None
      | Some l \<Rightarrow>
          let stripped = py_strip l
          in if stripped = [] then None
             else let key = map (\<lambda>c. if c = 95 then 45 else c) (cd_lower db stripped)
                  in case map_of QWEN_VLLM_LANGUAGE_ALIASES key of
                       Some name \<Rightarrow> Some name
                     | None \<Rightarrow>
                         (case map_of QWEN_VLLM_LANGUAGE_ALIASES (split_first 45 key) of
                            Some name \<Rightarrow> Some name
                          | None \<Rightarrow> Some (cd_upper db (take 1 stripped) @ cd_lower db (drop 1 stripped))))"

section \<open>The mock transcriber\<close>

text \<open>\<open>Path(audio_path).name\<close>: the last path component that is neither empty nor a dot.\<close>

fun split_on :: "nat \<Rightarrow> ustr \<Rightarrow> ustr list" where
  "split_on c [] = [[]]"
| "split_on c (x # xs) =
     (if x = c then [] # split_on c xs
      else case split_on c xs of [] \<Rightarrow> [[x]] | y # ys \<Rightarrow> (x # y) # ys)"

definition path_name :: "ustr \<Rightarrow> ustr" where
  "path_name p =
     (case rev (filter (\<lambda>part. part \<noteq> [] \<and> part \<noteq> [46]) (split_on 47 p)) of [] \<Rightarrow> [] | part # _ \<Rightarrow> part)"

definition language_or_auto :: "ustr option \<Rightarrow> ustr" where
  "language_or_auto language = (case language of None \<Rightarrow> lit ''auto'' | Some l \<Rightarrow> if l = [] then lit ''auto'' else l)"

definition mock_filename :: "ustr \<Rightarrow> ustr result" where
  "mock_filename filename =
     (if suffix (lit ''.stream.wav'') filename then Inr (lit ''stream.wav'')
      else if 45 \<in> set filename then
        (case rsplit_once 46 filename of
           [stem, extension] \<Rightarrow> Inr (hd (rsplit_once 45 stem) @ [46] @ extension)
         | _ \<Rightarrow> Inl (ValueError ''not enough values to unpack''))
      else Inr filename)"

definition mock_transcribe :: "ustr \<Rightarrow> ustr option \<Rightarrow> TranscriptionResult result" where
  "mock_transcribe audio_path language =
     (let detected = language_or_auto language
      in bind_result (mock_filename (path_name audio_path)) (\<lambda>filename.
           Inr \<lparr>tr_text = lit ''[mock asr '' @ detected @ lit ''] '' @ filename, tr_language = Some detected\<rparr>))"

record MockASRStreamingSession =
  mk_language :: ustr
  mk_closed :: bool
  mk_segment_id :: int

definition mk_init :: "ustr option \<Rightarrow> MockASRStreamingSession" where
  "mk_init language = \<lparr>mk_language = language_or_auto language, mk_closed = False, mk_segment_id = 0\<rparr>"

definition mk_require_open :: "(MockASRStreamingSession, unit) py_method" where
  "mk_require_open =
     py_bind (py_read mk_closed) (\<lambda>closed.
       if closed then py_raise (RuntimeError ''streaming session is closed'') else py_return ())"

definition mk_result :: "int \<Rightarrow> bool \<Rightarrow> bool \<Rightarrow> MockASRStreamingSession \<Rightarrow> StreamingTranscriptionResult" where
  "mk_result delta updated finished s =
     segment_result (mk_segment_id s) [] (Some (mk_language s)) delta updated finished"

definition mk_add_pcm_s16le ::
  "pcm \<Rightarrow> int \<Rightarrow> (MockASRStreamingSession, StreamingTranscriptionResult) py_method" where
  "mk_add_pcm_s16le pcm_bytes rate =
     py_seq mk_require_open
       (if rate \<noteq> 16000 then py_raise (ValueError ''mock streaming requires 16000 Hz sample_rate'')
        else py_read (mk_result (int (length pcm_bytes) div 2) True False))"

definition mk_finish_segment :: "(MockASRStreamingSession, StreamingTranscriptionResult) py_method" where
  "mk_finish_segment =
     py_seq mk_require_open
       (py_bind (py_read (mk_result 0 False True)) (\<lambda>r.
          py_seq (py_modify (mk_segment_id_update (\<lambda>n. n + 1))) (py_return r)))"

definition mk_finish :: "(MockASRStreamingSession, StreamingTranscriptionResult) py_method" where
  "mk_finish =
     py_seq mk_require_open
       (py_seq (py_modify (\<lambda>s. s\<lparr>mk_closed := True\<rparr>)) (py_read (mk_result 0 False False)))"

definition mk_abort :: "(MockASRStreamingSession, unit) py_method" where
  "mk_abort = py_modify (\<lambda>s. s\<lparr>mk_closed := True\<rparr>)"

section \<open>The Qwen vLLM transcriber\<close>

text \<open>What \<open>transcribe\<close> of the model returns: a list of results or one; a result may lack either attribute.\<close>

datatype 'a one_or_list = One 'a | Several "'a list"

record model_result =
  mr_text :: "ustr option"
  mr_language :: "ustr option option"

record 'm qwen_engine =
  qe_db :: casedb
  qe_verify_model_manifest :: "ustr \<Rightarrow> ustr \<Rightarrow> unit result"
  qe_load_model :: "unit result"
  qe_version :: "string \<Rightarrow> string option"
  qe_create_vad :: "unit result"
  qe_init_streaming_state :: "ustr option \<Rightarrow> 'm result"
  qe_streaming_transcribe :: "int list \<Rightarrow> ('m, 'm) py_method"
  qe_finish_streaming_transcribe :: "('m, 'm) py_method"
  qe_text :: "'m \<Rightarrow> ustr option"
  qe_language :: "'m \<Rightarrow> ustr option option"
  qe_chunk_id :: "'m \<Rightarrow> int option"
  qe_chunk_size_samples :: "'m \<Rightarrow> int option"
  qe_transcribe :: "ustr \<Rightarrow> ustr option \<Rightarrow> model_result one_or_list result"

record QwenVLLMASRTranscriber =
  qt_settings :: Settings
  qt_model_loaded :: bool
  qt_streaming_warmup_complete :: bool

definition qt_init :: "Settings \<Rightarrow> QwenVLLMASRTranscriber" where
  "qt_init settings = \<lparr>qt_settings = settings, qt_model_loaded = False, qt_streaming_warmup_complete = False\<rparr>"

definition qt_load :: "'m qwen_engine \<Rightarrow> (QwenVLLMASRTranscriber, unit) py_method" where
  "qt_load E = (\<lambda>t.
     if qt_model_loaded t then (Inr (), t)
     else case bind_result (case asr_model_manifest_path (qt_settings t) of
              None \<Rightarrow> Inr ()
            | Some manifest \<Rightarrow> qe_verify_model_manifest E (asr_model_id (qt_settings t)) manifest) (\<lambda>_. qe_load_model E) of
            Inl e \<Rightarrow> (Inl e, t)
          | Inr _ \<Rightarrow> (Inr (), t\<lparr>qt_model_loaded := True\<rparr>))"

definition qt_init_streaming_state ::
  "'m qwen_engine \<Rightarrow> ustr option \<Rightarrow> (QwenVLLMASRTranscriber, 'm) py_method" where
  "qt_init_streaming_state E language =
     py_seq (qt_load E) (\<lambda>t. (qe_init_streaming_state E (normalize_language (qe_db E) language), t))"

text \<open>\<open>results[0] if isinstance(results, list) else results\<close>.\<close>

definition first_result :: "'a one_or_list \<Rightarrow> 'a result" where
  "first_result results =
     (case results of One r \<Rightarrow> Inr r | Several [] \<Rightarrow> Inl (OtherError ''IndexError'') | Several (r # _) \<Rightarrow> Inr r)"

definition qt_transcribe ::
  "'m qwen_engine \<Rightarrow> ustr \<Rightarrow> ustr option \<Rightarrow> (QwenVLLMASRTranscriber, TranscriptionResult) py_method" where
  "qt_transcribe E audio_path language =
     (let normalized = normalize_language (qe_db E) language
      in py_seq (qt_load E) (\<lambda>t.
           (bind_result (bind_result (qe_transcribe E audio_path (if normalized = Some [] then None else normalized)) first_result)
              (\<lambda>r. Inr \<lparr>tr_text = (case mr_text r of None \<Rightarrow> [] | Some x \<Rightarrow> x),
                     tr_language = (case mr_language r of None \<Rightarrow> normalized | Some l \<Rightarrow> l)\<rparr>), t)))"

text \<open>\<open>create_asr_transcriber\<close>.\<close>

datatype transcriber_kind = MockASRTranscriber | QwenVLLMTranscriber QwenVLLMASRTranscriber | QwenASRTranscriber Settings

definition create_asr_transcriber :: "Settings \<Rightarrow> transcriber_kind" where
  "create_asr_transcriber settings =
     (if asr_backend settings = BackendMock then MockASRTranscriber
      else if asr_backend settings = BackendQwenVllm then QwenVLLMTranscriber (qt_init settings)
      else QwenASRTranscriber settings)"

section \<open>The streaming session\<close>

record 'm QwenVLLMStreamingSession =
  qs_transcriber :: QwenVLLMASRTranscriber
  qs_language :: "ustr option"
  qs_closed :: bool
  qs_segment_id :: int
  qs_segment_received_samples :: int
  qs_undecoded_samples :: int
  qs_max_utterance_samples :: int
  qs_watchdog_samples :: int
  qs_state :: "'m option"

definition qs_init ::
  "'m qwen_engine \<Rightarrow> ustr option \<Rightarrow> (QwenVLLMASRTranscriber, 'm QwenVLLMStreamingSession) py_method" where
  "qs_init E language =
     (let normalized = normalize_language (qe_db E) language
      in py_bind (qt_init_streaming_state E normalized) (\<lambda>m.
           py_read (\<lambda>t. \<lparr>qs_transcriber = t, qs_language = normalized, qs_closed = False, qs_segment_id = 0,
             qs_segment_received_samples = 0, qs_undecoded_samples = 0,
             qs_max_utterance_samples = py_round (asr_max_utterance_seconds (qt_settings t) * 16000),
             qs_watchdog_samples = py_round (asr_state_watchdog_seconds (qt_settings t) * 16000),
             qs_state = Some m\<rparr>)))"

text \<open>\<open>getattr(self.state, attribute, default)\<close>; the state is \<open>None\<close> after an abort.\<close>

definition qs_attribute :: "('m \<Rightarrow> 'a option) \<Rightarrow> 'a \<Rightarrow> 'm QwenVLLMStreamingSession \<Rightarrow> 'a" where
  "qs_attribute attribute fallback s =
     (case qs_state s of None \<Rightarrow> fallback
      | Some m \<Rightarrow> (case attribute m of None \<Rightarrow> fallback | Some v \<Rightarrow> v))"

definition qs_segment_text :: "'m qwen_engine \<Rightarrow> 'm QwenVLLMStreamingSession \<Rightarrow> ustr" where
  "qs_segment_text E s = qs_attribute (qe_text E) [] s"

definition qs_chunk_id :: "'m qwen_engine \<Rightarrow> 'm QwenVLLMStreamingSession \<Rightarrow> int" where
  "qs_chunk_id E s = qs_attribute (qe_chunk_id E) 0 s"

definition qs_require_open :: "('m QwenVLLMStreamingSession, unit) py_method" where
  "qs_require_open =
     py_bind (py_read qs_closed) (\<lambda>closed.
       if closed then py_raise (RuntimeError ''streaming session is closed'') else py_return ())"

text \<open>A model call on \<open>self.state\<close> (\<open>_streaming_transcribe\<close>, \<open>_finish_streaming_transcribe\<close>): it asserts
  that the model is loaded; the returned state is stored unless the call raised. An aborted session has no state, but it is
  closed, so no call gets here.\<close>

definition qs_model_call :: "('m, 'm) py_method \<Rightarrow> ('m QwenVLLMStreamingSession, unit) py_method" where
  "qs_model_call f = (\<lambda>s.
     if \<not> qt_model_loaded (qs_transcriber s) then (Inl AssertionError, s)
     else case qs_state s of
       None \<Rightarrow> (Inl (TypeError ''state is None''), s)
     | Some m \<Rightarrow> (case f m of
           (Inl e, m') \<Rightarrow> (Inl e, s\<lparr>qs_state := Some m'\<rparr>)
         | (Inr new, m') \<Rightarrow> (Inr (), s\<lparr>qs_state := Some new\<rparr>)))"

definition qs_decode_progress ::
  "'m qwen_engine \<Rightarrow> int \<Rightarrow> ustr \<Rightarrow> ('m QwenVLLMStreamingSession, int \<times> bool) py_method" where
  "qs_decode_progress E previous_chunk_id previous_text = (\<lambda>s.
     let decoded_chunks = max 0 (qs_chunk_id E s - previous_chunk_id);
         chunk_samples = qs_attribute (qe_chunk_size_samples E)
           (py_round (asr_stream_chunk_seconds (qt_settings (qs_transcriber s)) * 16000)) s;
         decoded_samples = min (qs_undecoded_samples s) (decoded_chunks * chunk_samples)
     in (Inr (decoded_samples, 0 < decoded_chunks \<or> qs_segment_text E s \<noteq> previous_text),
         s\<lparr>qs_undecoded_samples := qs_undecoded_samples s - decoded_samples\<rparr>))"

definition qs_stream_piece ::
  "'m qwen_engine \<Rightarrow> int list \<Rightarrow> ('m QwenVLLMStreamingSession, int \<times> bool) py_method" where
  "qs_stream_piece E piece =
     py_bind (py_read (\<lambda>s. (qs_chunk_id E s, qs_segment_text E s))) (\<lambda>(previous_chunk_id, previous_text).
     py_seq (py_modify (\<lambda>s. s\<lparr>
         qs_segment_received_samples := qs_segment_received_samples s + int (length piece),
         qs_undecoded_samples := qs_undecoded_samples s + int (length piece)\<rparr>))
     (py_seq (qs_model_call (qe_streaming_transcribe E piece))
       (qs_decode_progress E previous_chunk_id previous_text)))"

definition qs_finish_active_state ::
  "'m qwen_engine \<Rightarrow> ('m QwenVLLMStreamingSession, int \<times> bool) py_method" where
  "qs_finish_active_state E =
     py_bind (py_read (\<lambda>s. (qs_chunk_id E s, qs_segment_text E s))) (\<lambda>(previous_chunk_id, previous_text).
     py_seq (qs_model_call (qe_finish_streaming_transcribe E))
       (\<lambda>s. let model_updated = (previous_chunk_id < qs_chunk_id E s \<or> qs_segment_text E s \<noteq> previous_text);
                processed_samples = (if model_updated then qs_undecoded_samples s else 0)
            in (Inr (processed_samples, model_updated),
                s\<lparr>qs_undecoded_samples := qs_undecoded_samples s - processed_samples\<rparr>)))"

definition qs_start_fresh_segment :: "'m qwen_engine \<Rightarrow> ('m QwenVLLMStreamingSession, unit) py_method" where
  "qs_start_fresh_segment E = (\<lambda>s0.
     let s = s0\<lparr>qs_segment_id := qs_segment_id s0 + 1\<rparr>
     in case qt_init_streaming_state E (qs_language s) (qs_transcriber s) of
          (Inl e, t) \<Rightarrow> (Inl e, s\<lparr>qs_transcriber := t\<rparr>)
        | (Inr m, t) \<Rightarrow> (Inr (), s\<lparr>qs_transcriber := t, qs_state := Some m,
            qs_segment_received_samples := 0, qs_undecoded_samples := 0\<rparr>))"

definition qs_result ::
  "'m qwen_engine \<Rightarrow> int \<Rightarrow> bool \<Rightarrow> bool \<Rightarrow> 'm QwenVLLMStreamingSession \<Rightarrow> StreamingTranscriptionResult" where
  "qs_result E delta updated finished s =
     segment_result (qs_segment_id s) (qs_segment_text E s)
       (qs_attribute (qe_language E) (qs_language s) s) delta updated finished"

text \<open>One turn of the \<open>while offset < sample_count\<close> loop, on the piece it cut.\<close>

definition qs_iteration ::
  "'m qwen_engine \<Rightarrow> int list \<Rightarrow> ('m QwenVLLMStreamingSession, StreamingTranscriptionResult) py_method" where
  "qs_iteration E piece =
     py_bind (qs_stream_piece E piece) (\<lambda>(decoded_samples, model_updated).
     py_bind (py_read (\<lambda>s. qs_segment_received_samples s = qs_max_utterance_samples s)) (\<lambda>full.
       if full then
         py_bind (qs_finish_active_state E) (\<lambda>(flush_samples, flush_updated).
         py_bind (py_read (qs_result E (decoded_samples + flush_samples) (model_updated \<or> flush_updated) True)) (\<lambda>r.
         py_seq (qs_start_fresh_segment E) (py_return r)))
       else py_read (qs_result E decoded_samples model_updated False)))"

text \<open>The loop. \<open>None\<close> stands for a run the source does not bound: a segment already over its
  capacity, or more turns than the fuel; neither happens (\<open>qs_loop_total\<close>).\<close>

fun qs_loop ::
  "nat \<Rightarrow> 'm qwen_engine \<Rightarrow> int list \<Rightarrow> 'm QwenVLLMStreamingSession \<Rightarrow>
   (StreamingTranscriptionResult list result \<times> 'm QwenVLLMStreamingSession) option" where
  "qs_loop fuel E [] s = Some (Inr [], s)"
| "qs_loop 0 E (x # xs) s = None"
| "qs_loop (Suc fuel) E (x # xs) s =
     (let segment_capacity = qs_max_utterance_samples s - qs_segment_received_samples s;
          piece_samples = min (length (x # xs)) (nat segment_capacity)
      in if segment_capacity < 0 then None
         else case qs_iteration E (take piece_samples (x # xs)) s of
           (Inl e, t) \<Rightarrow> Some (Inl e, t)
         | (Inr r, t) \<Rightarrow>
             (case qs_loop fuel E (drop piece_samples (x # xs)) t of
                None \<Rightarrow> None
              | Some (Inl e, u) \<Rightarrow> Some (Inl e, u)
              | Some (Inr rs, u) \<Rightarrow> Some (Inr (r # rs), u)))"

definition qs_add_pcm_s16le ::
  "'m qwen_engine \<Rightarrow> pcm \<Rightarrow> int \<Rightarrow> 'm QwenVLLMStreamingSession \<Rightarrow>
   (StreamingTranscriptionResult result \<times> 'm QwenVLLMStreamingSession) option" where
  "qs_add_pcm_s16le E pcm_bytes rate s =
     (let samples = pcm_samples pcm_bytes
      in if qs_closed s then Some (Inl (RuntimeError ''streaming session is closed''), s)
         else if rate \<noteq> 16000 then Some (Inl (ValueError ''Qwen vLLM streaming requires 16000 Hz sample_rate''), s)
         else if asr_max_frame_bytes (qt_settings (qs_transcriber s)) < int (length pcm_bytes)
         then Some (Inl (ValueError ''Qwen vLLM streaming frame exceeds configured limit''), s)
         else if pcm_bytes = [] then Some (Inr (qs_result E 0 False False s), s)
         else if qs_watchdog_samples s < qs_segment_received_samples s + int (length samples)
         then Some (Inl (RuntimeError ''ASR utterance state exceeded invariant watchdog''), s)
         else case qs_loop (Suc (length samples)) E samples s of
             None \<Rightarrow> None
           | Some (Inl e, t) \<Rightarrow> Some (Inl e, t)
           | Some (Inr results, t) \<Rightarrow> Some (link_results results, t))"

definition qs_finish ::
  "'m qwen_engine \<Rightarrow> ('m QwenVLLMStreamingSession, StreamingTranscriptionResult) py_method" where
  "qs_finish E =
     py_seq qs_require_open
     (py_bind (qs_finish_active_state E) (\<lambda>(processed_samples, model_updated).
      py_seq (py_modify (\<lambda>s. s\<lparr>qs_closed := True\<rparr>))
        (py_read (qs_result E processed_samples model_updated False))))"

definition qs_finish_segment ::
  "'m qwen_engine \<Rightarrow> ('m QwenVLLMStreamingSession, StreamingTranscriptionResult) py_method" where
  "qs_finish_segment E =
     py_seq qs_require_open
     (py_bind (qs_finish_active_state E) (\<lambda>(processed_samples, model_updated).
      py_bind (py_read (qs_result E processed_samples model_updated True)) (\<lambda>r.
      py_seq (qs_start_fresh_segment E) (py_return r))))"

definition qs_abort :: "('m QwenVLLMStreamingSession, unit) py_method" where
  "qs_abort = py_modify (\<lambda>s. s\<lparr>qs_state := None, qs_closed := True\<rparr>)"


text \<open>\<open>range(0, len(pcm), frame_bytes)\<close> cuts the warm-up signal into frames.\<close>

fun frames_of :: "nat \<Rightarrow> nat \<Rightarrow> pcm \<Rightarrow> pcm list" where
  "frames_of 0 n p = []"
| "frames_of (Suc fuel) n p = (if p = [] then [] else take n p # frames_of fuel n (drop n p))"

fun qt_warmup_frames ::
  "'m qwen_engine \<Rightarrow> pcm list \<Rightarrow> int \<Rightarrow> bool \<Rightarrow> 'm QwenVLLMStreamingSession \<Rightarrow>
   ((int \<times> bool) result \<times> 'm QwenVLLMStreamingSession) option" where
  "qt_warmup_frames E [] decoded updated s = Some (Inr (decoded, updated), s)"
| "qt_warmup_frames E (frame # frames) decoded updated s =
     (case qs_add_pcm_s16le E frame 16000 s of
        None \<Rightarrow> None
      | Some (Inl e, t) \<Rightarrow> Some (Inl e, t)
      | Some (Inr r, t) \<Rightarrow>
          qt_warmup_frames E frames (decoded + py_or (total_decoded_samples_delta r) 0)
            (updated \<or> list_ex sr_model_updated (snapshots r)) t)"

fun qt_validate_runtime :: "'m qwen_engine \<Rightarrow> (string \<times> string) list \<Rightarrow> unit result" where
  "qt_validate_runtime E [] = Inr ()"
| "qt_validate_runtime E ((distribution, expected) # rest) =
     (case qe_version E distribution of
        None \<Rightarrow> Inl (RuntimeError (''required ASR runtime distribution is missing: '' @ distribution))
      | Some actual \<Rightarrow>
          if actual \<noteq> expected
          then Inl (RuntimeError (''unsupported '' @ distribution @ '' version: expected '' @ expected @ '', got '' @ actual))
          else qt_validate_runtime E rest)"

definition QWEN_RUNTIME_VERSIONS :: "(string \<times> string) list" where
  "QWEN_RUNTIME_VERSIONS = [(''qwen-asr'', ''0.0.6''), (''vllm'', ''0.14.0'')]"

text \<open>The body of \<open>warmup\<close> after the checks, on a fresh session; the 440 Hz test signal is an
  argument. A failure aborts the session and is re-raised.\<close>

definition qt_warmup_session ::
  "'m qwen_engine \<Rightarrow> pcm \<Rightarrow> 'm QwenVLLMStreamingSession \<Rightarrow> (unit result \<times> 'm QwenVLLMStreamingSession) option" where
  "qt_warmup_session E signal s =
     (let frame_bytes = nat (asr_max_frame_bytes (qt_settings (qs_transcriber s)))
      in case qt_warmup_frames E (frames_of (length signal) frame_bytes signal) 0 False s of
           None \<Rightarrow> None
         | Some (Inl e, t) \<Rightarrow> Some (Inl e, snd (qs_abort t))
         | Some (Inr (decoded, updated), t) \<Rightarrow>
             (case qs_finish E t of
                (Inl e, u) \<Rightarrow> Some (Inl e, snd (qs_abort u))
              | (Inr final, u) \<Rightarrow>
                  if decoded + py_or (sr_decoded_samples_delta final) 0 \<le> 0 \<or> \<not> (updated \<or> sr_model_updated final)
                  then Some (Inl (RuntimeError ''Qwen streaming warmup produced no decoded audio progress''),
                             snd (qs_abort u))
                  else Some (Inr (), u)))"

definition qt_warmup ::
  "'m qwen_engine \<Rightarrow> pcm \<Rightarrow> QwenVLLMASRTranscriber \<Rightarrow> (unit result \<times> QwenVLLMASRTranscriber) option" where
  "qt_warmup E signal t0 =
     (case qt_load E t0 of
        (Inl e, t) \<Rightarrow> Some (Inl e, t)
      | (Inr _, t) \<Rightarrow>
          if asr_stream_mode (qt_settings t) \<noteq> ModeStateful then Some (Inr (), t)
          else if qt_streaming_warmup_complete t then Some (Inr (), t)
          else case bind_result (qt_validate_runtime E QWEN_RUNTIME_VERSIONS) (\<lambda>_. qe_create_vad E) of
              Inl e \<Rightarrow> Some (Inl e, t)
            | Inr _ \<Rightarrow>
                (case qs_init E (Some (lit ''English'')) t of
                   (Inl e, u) \<Rightarrow> Some (Inl e, u)
                 | (Inr s, u) \<Rightarrow>
                     (case qt_warmup_session E signal s of
                        None \<Rightarrow> None
                      | Some (Inl e, v) \<Rightarrow> Some (Inl e, qs_transcriber v)
                      | Some (Inr _, v) \<Rightarrow>
                          Some (Inr (), (qs_transcriber v)\<lparr>qt_streaming_warmup_complete := True\<rparr>))))"

section \<open>Decoded samples are accounted\<close>

definition qs_limits :: "'m QwenVLLMStreamingSession \<Rightarrow> Settings \<times> int \<times> int" where
  "qs_limits s = (qt_settings (qs_transcriber s), qs_max_utterance_samples s, qs_watchdog_samples s)"

definition qs_ok :: "'m QwenVLLMStreamingSession \<Rightarrow> bool" where
  "qs_ok s \<longleftrightarrow> 0 < qs_max_utterance_samples s \<and> 0 \<le> qs_undecoded_samples s \<and>
     qs_undecoded_samples s \<le> qs_segment_received_samples s \<and>
     qs_segment_received_samples s \<le> qs_max_utterance_samples s"

text \<open>What the session relies on from the model runtime: a reported chunk size is not negative.\<close>

definition chunk_sizes_ok :: "'m qwen_engine \<Rightarrow> bool" where
  "chunk_sizes_ok E \<longleftrightarrow> (\<forall>m c. qe_chunk_size_samples E m = Some c \<longrightarrow> 0 \<le> c)"

definition chunk_seconds_ok :: "Settings \<times> int \<times> int \<Rightarrow> bool" where
  "chunk_seconds_ok c \<longleftrightarrow> 0 \<le> asr_stream_chunk_seconds (fst c)"

text \<open>\<open>qs_at c u r\<close>: a sound session with limits \<open>c\<close>, \<open>u\<close> undecoded and \<open>r\<close> received samples.\<close>

definition qs_at :: "Settings \<times> int \<times> int \<Rightarrow> int \<Rightarrow> int \<Rightarrow> 'm QwenVLLMStreamingSession \<Rightarrow> bool" where
  "qs_at c u r s \<longleftrightarrow> qs_ok s \<and> qs_limits s = c \<and> qs_undecoded_samples s = u \<and> qs_segment_received_samples s = r"

definition qs_sound :: "Settings \<times> int \<times> int \<Rightarrow> 'm QwenVLLMStreamingSession \<Rightarrow> bool" where
  "qs_sound c s \<longleftrightarrow> qs_ok s \<and> qs_limits s = c"

lemma at_sound: "qs_at c u r s \<Longrightarrow> qs_sound c s"
  by (simp add: qs_at_def qs_sound_def)

lemma model_call_at: "triple (qs_at c u r) (qs_model_call f) (\<lambda>_. qs_at c u r) (qs_at c u r)"
  by (rule triple_intro)
    (auto simp: qs_model_call_def qs_at_def qs_ok_def qs_limits_def split: option.splits prod.splits sum.splits)

lemma decode_progress_at:
  assumes "chunk_sizes_ok E" and "chunk_seconds_ok c"
  shows "triple (qs_at c u r) (qs_decode_progress E p t)
    (\<lambda>(d, _) s. 0 \<le> d \<and> qs_at c (u - d) r s) (qs_sound c)"
proof (rule triple_intro)
  fix s :: "'a QwenVLLMStreamingSession" assume s: "qs_at c u r s"
  have "0 \<le> qs_attribute (qe_chunk_size_samples E)
      (py_round (asr_stream_chunk_seconds (qt_settings (qs_transcriber s)) * 16000)) s"
    using assms s by (auto simp: qs_attribute_def chunk_sizes_ok_def chunk_seconds_ok_def qs_at_def qs_limits_def
        intro!: py_round_nonneg split: option.splits)
  then have "0 \<le> max 0 (qs_chunk_id E s - p) * qs_attribute (qe_chunk_size_samples E)
      (py_round (asr_stream_chunk_seconds (qt_settings (qs_transcriber s)) * 16000)) s"
    by simp
  with s show "case qs_decode_progress E p t s of (Inl e, t) \<Rightarrow> qs_sound c t
      | (Inr x, t) \<Rightarrow> (case x of (d, _) \<Rightarrow> \<lambda>s. 0 \<le> d \<and> qs_at c (u - d) r s) t"
    by (auto simp: qs_decode_progress_def Let_def qs_at_def qs_ok_def qs_limits_def)
qed

lemma stream_piece_at:
  assumes "chunk_sizes_ok E" and "chunk_seconds_ok c" and "r + int (length piece) \<le> fst (snd c)"
  shows "triple (qs_at c u r) (qs_stream_piece E piece)
    (\<lambda>(d, _) s. 0 \<le> d \<and> qs_at c (u + int (length piece) - d) (r + int (length piece)) s) (qs_sound c)"
  unfolding qs_stream_piece_def
  apply (rule triple_bind_read)
  apply (simp split: prod.split, intro allI impI)
  apply (rule triple_seq [where R = "qs_at c (u + int (length piece)) (r + int (length piece))"])
   apply (use assms(3) in \<open>auto simp: qs_at_def qs_ok_def qs_limits_def\<close>) [1]
  apply (rule triple_seq [where R = "qs_at c (u + int (length piece)) (r + int (length piece))"])
   apply (rule triple_conseq [OF model_call_at], assumption, assumption, erule at_sound)
  apply (rule decode_progress_at [OF assms(1,2)])
  done

lemma finish_active_at:
  "triple (qs_at c u r) (qs_finish_active_state E) (\<lambda>(d, _) s. 0 \<le> d \<and> qs_at c (u - d) r s) (qs_sound c)"
  unfolding qs_finish_active_state_def
  apply (rule triple_bind_read)
  apply (simp split: prod.split, intro allI impI)
  apply (rule triple_seq [where R = "qs_at c u r"])
   apply (rule triple_conseq [OF model_call_at], simp, assumption, erule at_sound)
  apply (rule triple_intro)
  apply (auto simp: Let_def qs_at_def qs_ok_def qs_limits_def)
  done

lemma start_fresh_at: "triple (qs_sound c) (qs_start_fresh_segment E) (\<lambda>_. qs_at c 0 0) (qs_sound c)"
proof (rule triple_intro)
  fix s :: "'a QwenVLLMStreamingSession" assume s: "qs_sound c s"
  have "qt_settings (snd (qt_init_streaming_state E l t)) = qt_settings t" for l t
    by (auto simp: qt_init_streaming_state_def qt_load_def method_defs split: sum.splits option.splits)
  from this [of "qs_language s" "qs_transcriber s"] s
  show "case qs_start_fresh_segment E s of (Inl e, t) \<Rightarrow> qs_sound c t | (Inr x, t) \<Rightarrow> qs_at c 0 0 t"
    by (auto simp: qs_start_fresh_segment_def Let_def qs_sound_def qs_at_def qs_ok_def qs_limits_def
        split: prod.splits sum.splits)
qed


text \<open>A turn of the loop reports a number of decoded samples that, with what stays undecoded, is at
  most what was undecoded before plus the piece, and leaves room in the segment.\<close>

definition decoded_within ::
  "Settings \<times> int \<times> int \<Rightarrow> int \<Rightarrow> StreamingTranscriptionResult \<Rightarrow> 'm QwenVLLMStreamingSession \<Rightarrow> bool" where
  "decoded_within c n x s \<longleftrightarrow> qs_sound c s \<and> qs_segment_received_samples s < qs_max_utterance_samples s \<and>
     sr_continuation x = None \<and>
     (\<exists>d. sr_decoded_samples_delta x = Some d \<and> 0 \<le> d \<and> qs_undecoded_samples s + d \<le> n)"

lemma qs_result_simps [simp]:
  "sr_decoded_samples_delta (qs_result E d b f s) = Some d"
  "sr_continuation (qs_result E d b f s) = None"
  "sr_segment_finished (qs_result E d b f s) = f"
  "sr_model_updated (qs_result E d b f s) = b"
  by (simp_all add: qs_result_def segment_result_def streaming_result_init_def)

lemma close_segment_at:
  assumes "0 \<le> d"
  shows "triple (\<lambda>s. 0 \<le> f \<and> qs_at c (v - f) r s)
     (py_bind (py_read (qs_result E (d + f) upd True)) (\<lambda>x. py_seq (qs_start_fresh_segment E) (py_return x)))
     (decoded_within c (v + d)) (qs_sound c)"
proof (rule triple_bind_read)
  fix x
  let ?P = "\<lambda>s. (0 \<le> f \<and> qs_at c (v - f) r s) \<and> qs_result E (d + f) upd True s = x"
  show "triple ?P (py_seq (qs_start_fresh_segment E) (py_return x)) (decoded_within c (v + d)) (qs_sound c)"
  proof (cases "0 \<le> f \<and> f \<le> v \<and> sr_decoded_samples_delta x = Some (d + f) \<and> sr_continuation x = None")
    case True
    then show ?thesis
      apply (intro triple_seq [OF triple_pre [OF _ start_fresh_at]])
       apply (auto simp: qs_at_def qs_sound_def) [1]
      using assms by (auto simp: decoded_within_def qs_at_def qs_sound_def qs_ok_def)
  next
    case False
    then have "\<not> ?P s" for s :: "'a QwenVLLMStreamingSession" by (auto simp: qs_at_def qs_ok_def)
    then show ?thesis unfolding triple_def by blast
  qed
qed

lemma iteration_at:
  assumes "chunk_sizes_ok E" and "chunk_seconds_ok c" and "r + int (length piece) \<le> fst (snd c)"
  shows "triple (qs_at c u r) (qs_iteration E piece) (decoded_within c (u + int (length piece))) (qs_sound c)"
  unfolding qs_iteration_def
proof (rule triple_bind [OF stream_piece_at [OF assms]], clarify)
  fix d :: int and upd :: bool
  let ?v = "u + int (length piece) - d" and ?r = "r + int (length piece)" and ?n = "u + int (length piece)"
  let ?flush = "py_bind (qs_finish_active_state E) (\<lambda>(flush_samples, flush_updated).
         py_bind (py_read (qs_result E (d + flush_samples) (upd \<or> flush_updated) True)) (\<lambda>r.
         py_seq (qs_start_fresh_segment E) (py_return r)))"
  have flush: "triple (\<lambda>s. 0 \<le> d \<and> qs_at c ?v ?r s) ?flush (decoded_within c ?n) (qs_sound c)"
  proof (cases "0 \<le> d")
    case True
    have "triple (\<lambda>s. 0 \<le> f \<and> qs_at c (?v - f) ?r s)
       (py_bind (py_read (qs_result E (d + f) (upd \<or> b) True)) (\<lambda>x. py_seq (qs_start_fresh_segment E) (py_return x)))
       (decoded_within c ?n) (qs_sound c)" for f b
      using close_segment_at [OF True, of f c ?v ?r E "upd \<or> b"] by simp
    with True show ?thesis
      by (intro triple_bind [where R = "\<lambda>(f, _) s. 0 \<le> f \<and> qs_at c (?v - f) ?r s"] triple_pre [OF _ finish_active_at])
        (auto split: prod.split)
  qed (simp add: triple_def)
  show "triple (\<lambda>s. 0 \<le> d \<and> qs_at c ?v ?r s)
     (py_bind (py_read (\<lambda>s. qs_segment_received_samples s = qs_max_utterance_samples s)) (\<lambda>full.
       if full then ?flush else py_read (qs_result E d upd False)))
     (decoded_within c ?n) (qs_sound c)"
  proof (rule triple_bind_read, rule triple_if)
    fix full
    show "triple (\<lambda>s. (0 \<le> d \<and> qs_at c ?v ?r s) \<and> (qs_segment_received_samples s = qs_max_utterance_samples s) = full)
       (py_read (qs_result E d upd False)) (decoded_within c ?n) (qs_sound c)" if "\<not> full"
      using that by (auto simp: decoded_within_def qs_at_def qs_sound_def qs_ok_def)
    show "triple (\<lambda>s. (0 \<le> d \<and> qs_at c ?v ?r s) \<and> (qs_segment_received_samples s = qs_max_utterance_samples s) = full)
       ?flush (decoded_within c ?n) (qs_sound c)"
      by (rule triple_pre [OF _ flush]) simp
  qed
qed

text \<open>The results of a call: no chain yet, and together they report at most \<open>n\<close> samples.\<close>

definition deltas_ok :: "StreamingTranscriptionResult list \<Rightarrow> bool" where
  "deltas_ok rs \<longleftrightarrow> list_all (\<lambda>x. sr_continuation x = None \<and> (\<exists>d. sr_decoded_samples_delta x = Some d \<and> 0 \<le> d)) rs"

definition delta_sum :: "StreamingTranscriptionResult list \<Rightarrow> int" where
  "delta_sum rs = sum_list (map (\<lambda>x. py_or (sr_decoded_samples_delta x) 0) rs)"

lemma py_or_Some_0 [simp]: "py_or (Some d) 0 = d"
  by (simp add: py_or_def)

lemma qs_loop_total:
  assumes "chunk_sizes_ok E" and "chunk_seconds_ok c" and "qs_sound c s"
    and "length pcm < fuel \<or> qs_segment_received_samples s < qs_max_utterance_samples s \<and> length pcm \<le> fuel"
  shows "\<exists>r t. qs_loop fuel E pcm s = Some (r, t) \<and> qs_sound c t \<and>
     (\<forall>rs. r = Inr rs \<longrightarrow> deltas_ok rs \<and> (pcm \<noteq> [] \<longrightarrow> rs \<noteq> []) \<and>
        qs_undecoded_samples t + delta_sum rs \<le> qs_undecoded_samples s + int (length pcm))"
  using assms(1,3,4)
proof (induction fuel E pcm s rule: qs_loop.induct)
  case (1 fuel E s)
  then show ?case by (simp add: deltas_ok_def delta_sum_def)
next
  case (2 E x xs s)
  then show ?case by simp
next
  case (3 fuel E x xs s)
  let ?pcm = "x # xs" and ?cap = "qs_max_utterance_samples s - qs_segment_received_samples s"
  let ?n = "min (length ?pcm) (nat ?cap)"
  have cap: "0 \<le> ?cap" using "3.prems"(2) by (simp add: qs_sound_def qs_ok_def)
  have c: "qs_at c (qs_undecoded_samples s) (qs_segment_received_samples s) s" "fst (snd c) = qs_max_utterance_samples s"
    using "3.prems"(2) by (auto simp: qs_sound_def qs_at_def qs_limits_def)
  have room: "qs_segment_received_samples s + int (length (take ?n ?pcm)) \<le> fst (snd c)"
    using cap c(2) by simp
  note it = iteration_at [OF "3.prems"(1) assms(2) room, of "qs_undecoded_samples s"]
  show ?case
  proof (cases "qs_iteration E (take ?n ?pcm) s")
    case (Pair r t)
    show ?thesis
    proof (cases r)
      case (Inl e)
      with Pair have "qs_loop (Suc fuel) E ?pcm s = Some (Inl e, t)" using cap by (simp add: Let_def)
      with tripleE [OF it c(1)] Pair Inl show ?thesis by simp
    next
      case (Inr y)
      with Pair tripleD [OF it c(1), of y t]
      have y: "decoded_within c (qs_undecoded_samples s + int (length (take ?n ?pcm))) y t" by simp
      then have t: "qs_sound c t" "qs_segment_received_samples t < qs_max_utterance_samples t"
        by (auto simp: decoded_within_def)
      have "length (drop ?n ?pcm) \<le> fuel" using "3.prems"(3) by (auto simp: min_def)
      with "3.IH" [OF refl refl _ Pair [symmetric] Inr "3.prems"(1) t(1)] t(2) cap obtain r' u where
        u: "qs_loop fuel E (drop ?n ?pcm) t = Some (r', u)" "qs_sound c u" and
        r': "\<And>rs. r' = Inr rs \<Longrightarrow> deltas_ok rs \<and>
          qs_undecoded_samples u + delta_sum rs \<le> qs_undecoded_samples t + int (length (drop ?n ?pcm))"
        by auto
      have len: "int (length (take ?n ?pcm)) + int (length (drop ?n ?pcm)) = int (length ?pcm)" by simp
      have eq: "qs_loop (Suc fuel) E ?pcm s =
          (case r' of Inl e \<Rightarrow> Some (Inl e, u) | Inr rs \<Rightarrow> Some (Inr (y # rs), u))"
        using Pair Inr u(1) cap by (auto simp: Let_def split: sum.split)
      show ?thesis
      proof (cases r')
        case (Inl e)
        with eq u(2) show ?thesis by simp
      next
        case (Inr rs)
        with eq u(2) r' [OF Inr] y len show ?thesis
          by (auto simp: deltas_ok_def delta_sum_def decoded_within_def)
      qed
    qed
  qed
qed


lemma snapshots_with_continuation:
  "snapshots (with_continuation r c) = with_continuation r c # snapshots c"
  by (simp add: with_continuation_def)

lemma link_results_deltas:
  assumes "deltas_ok rs" and "rs \<noteq> []"
  shows "\<exists>x. link_results rs = Inr x \<and>
     map sr_decoded_samples_delta (snapshots x) = map sr_decoded_samples_delta rs"
  using assms
proof (induction rs rule: link_results.induct)
  case (2 r)
  then show ?case by (cases r) (simp add: deltas_ok_def)
next
  case (3 r r' rs)
  then obtain c where "link_results (r' # rs) = Inr c"
    "map sr_decoded_samples_delta (snapshots c) = map sr_decoded_samples_delta (r' # rs)"
    by (auto simp: deltas_ok_def)
  then show ?case by (simp add: snapshots_with_continuation) (simp add: with_continuation_def)
qed simp

lemma total_of_deltas:
  assumes "map sr_decoded_samples_delta (snapshots x) = map sr_decoded_samples_delta rs" and "deltas_ok rs"
  shows "total_decoded_samples_delta x = Some (delta_sum rs)"
proof -
  have "list_ex (\<lambda>y. sr_decoded_samples_delta y = None) (snapshots x) =
      list_ex (\<lambda>d. d = None) (map sr_decoded_samples_delta (snapshots x))"
    by (force simp: list_ex_iff)
  also have "\<dots> = False" unfolding assms(1) using assms(2) by (auto simp: deltas_ok_def list_ex_iff list_all_iff)
  finally have "\<not> list_ex (\<lambda>y. sr_decoded_samples_delta y = None) (snapshots x)" by simp
  moreover have "map (\<lambda>y. py_or (sr_decoded_samples_delta y) 0) (snapshots x) =
      map (\<lambda>d. py_or d 0) (map sr_decoded_samples_delta rs)"
    unfolding assms(1) [symmetric] by simp
  ultimately show ?thesis by (simp add: total_decoded_samples_delta_def delta_sum_def comp_def)
qed

lemma delta_sum_nonneg: "deltas_ok rs \<Longrightarrow> 0 \<le> delta_sum rs"
  unfolding deltas_ok_def delta_sum_def
  by (rule sum_list_nonneg) (auto simp: list_all_iff)

lemma qs_add_pcm_outcome:
  assumes "chunk_sizes_ok E" and "chunk_seconds_ok c" and "qs_sound c s"
  shows "\<exists>r t. qs_add_pcm_s16le E p rate s = Some (r, t) \<and> qs_sound c t \<and>
     (\<forall>x. r = Inr x \<longrightarrow> (\<exists>d. total_decoded_samples_delta x = Some d \<and> 0 \<le> d \<and>
        qs_undecoded_samples t + d \<le> qs_undecoded_samples s + int (length p) div 2))"
proof -
  let ?samples = "pcm_samples p"
  from qs_loop_total [OF assms, of ?samples "Suc (length ?samples)"] obtain r t where
    loop: "qs_loop (Suc (length ?samples)) E ?samples s = Some (r, t)" "qs_sound c t" and
    rs: "\<And>rs. r = Inr rs \<Longrightarrow> deltas_ok rs \<and> (?samples \<noteq> [] \<longrightarrow> rs \<noteq> []) \<and>
        qs_undecoded_samples t + delta_sum rs \<le> qs_undecoded_samples s + int (length ?samples)"
    by auto
  have ok: "\<exists>d. total_decoded_samples_delta x = Some d \<and> 0 \<le> d \<and>
      qs_undecoded_samples t + d \<le> qs_undecoded_samples s + int (length p) div 2"
    if "r = Inr rs" "link_results rs = Inr x" for rs x
  proof -
    have "rs \<noteq> []" using that(2) by auto
    with link_results_deltas [of rs] rs [OF that(1)] that(2)
    have "total_decoded_samples_delta x = Some (delta_sum rs)" by (auto intro: total_of_deltas)
    with rs [OF that(1)] show ?thesis by (simp add: delta_sum_nonneg length_pcm_samples zdiv_int)
  qed
  have r0: "total_decoded_samples_delta (qs_result E 0 False False s) = Some 0"
    by (rule total_of_deltas [of _ "[qs_result E 0 False False s]", simplified delta_sum_def, simplified])
      (simp_all add: deltas_ok_def qs_result_def segment_result_def streaming_result_init_def)
  show ?thesis
    using loop assms(3) r0 ok
    by (cases r) (auto simp: qs_add_pcm_s16le_def Let_def)
qed

section \<open>Runs of a session\<close>

datatype qs_op = QsAddPcm pcm int | QsFinishSegment | QsFinish | QsAbort

fun qs_call :: "'m qwen_engine \<Rightarrow> qs_op \<Rightarrow> 'm QwenVLLMStreamingSession \<Rightarrow> 'm QwenVLLMStreamingSession option" where
  "qs_call E (QsAddPcm p rate) s = map_option snd (qs_add_pcm_s16le E p rate s)"
| "qs_call E QsFinishSegment s = Some (snd (qs_finish_segment E s))"
| "qs_call E QsFinish s = Some (snd (qs_finish E s))"
| "qs_call E QsAbort s = Some (snd (qs_abort s))"

fun qs_run :: "'m qwen_engine \<Rightarrow> qs_op list \<Rightarrow> 'm QwenVLLMStreamingSession \<Rightarrow> 'm QwenVLLMStreamingSession option" where
  "qs_run E [] s = Some s"
| "qs_run E (x # xs) s = (case qs_call E x s of None \<Rightarrow> None | Some t \<Rightarrow> qs_run E xs t)"

lemma sound_outcome: "triple (qs_sound c) m (\<lambda>_. qs_sound c) (qs_sound c) \<Longrightarrow> qs_sound c s \<Longrightarrow> qs_sound c (snd (m s))"
  by (cases "fst (m s)") (auto dest: tripleD [of _ _ _ _ s] tripleE [of _ _ _ _ s] simp: prod_eq_iff)

lemma finish_active_sound: "triple (qs_sound c) (qs_finish_active_state E) (\<lambda>_. qs_sound c) (qs_sound c)"
proof (rule triple_intro)
  fix s :: "'a QwenVLLMStreamingSession" assume "qs_sound c s"
  then have "qs_at c (qs_undecoded_samples s) (qs_segment_received_samples s) s" by (simp add: qs_sound_def qs_at_def)
  note post = tripleD [OF finish_active_at this, of E] and raised = tripleE [OF finish_active_at this, of E]
  obtain r t where rt: "qs_finish_active_state E s = (r, t)" by (cases "qs_finish_active_state E s")
  show "case qs_finish_active_state E s of (Inl e, t) \<Rightarrow> qs_sound c t | (Inr x, t) \<Rightarrow> qs_sound c t"
  proof (cases r)
    case (Inr x)
    with post [of x t] rt show ?thesis by (cases x) (auto dest: at_sound)
  qed (use raised rt in simp)
qed

lemma require_open_sound: "triple (qs_sound c) qs_require_open (\<lambda>_. qs_sound c) (qs_sound c)"
  by (rule triple_intro) (simp add: qs_require_open_def method_defs)

lemma qs_finish_sound: "triple (qs_sound c) (qs_finish E) (\<lambda>_. qs_sound c) (qs_sound c)"
  unfolding qs_finish_def
  apply (rule triple_seq [OF require_open_sound triple_bind [OF finish_active_sound]], clarify)
  apply (rule triple_seq [of _ _ "qs_sound c"])
   apply (simp_all add: qs_sound_def qs_ok_def qs_limits_def)
  done

lemma qs_finish_segment_sound: "triple (qs_sound c) (qs_finish_segment E) (\<lambda>_. qs_sound c) (qs_sound c)"
  unfolding qs_finish_segment_def
  apply (rule triple_seq [OF require_open_sound triple_bind [OF finish_active_sound]], clarify)
  apply (rule triple_bind [where R = "\<lambda>_. qs_sound c"], simp)
  apply (rule triple_seq [OF triple_conseq [OF start_fresh_at]], assumption, erule at_sound, assumption, simp)
  done

lemma qs_run_sound:
  assumes "chunk_sizes_ok E" and "chunk_seconds_ok c" and "qs_sound c s"
  shows "\<exists>t. qs_run E ops s = Some t \<and> qs_sound c t"
  using assms(3)
proof (induction ops arbitrary: s)
  case (Cons x xs)
  have "\<exists>t. qs_call E x s = Some t \<and> qs_sound c t"
  proof (cases x)
    case (QsAddPcm p rate)
    with qs_add_pcm_outcome [OF assms(1,2) Cons.prems, of p rate] show ?thesis by auto
  next
    case QsAbort
    with Cons.prems show ?thesis by (simp add: qs_abort_def py_modify_def qs_sound_def qs_ok_def qs_limits_def)
  qed (use Cons.prems in \<open>simp_all add: sound_outcome [OF qs_finish_sound] sound_outcome [OF qs_finish_segment_sound]\<close>)
  with Cons.IH show ?case by auto
qed simp


section \<open>Sessions under a validated configuration\<close>

definition stateful_limits :: "Settings \<Rightarrow> Settings \<times> int \<times> int" where
  "stateful_limits cfg = (cfg, py_round (asr_max_utterance_seconds cfg * 16000),
     py_round (asr_state_watchdog_seconds cfg * 16000))"

lemma sane_stateful:
  assumes "settings_sane cfg" and "asr_stream_mode cfg = ModeStateful"
  shows "0 < fst (snd (stateful_limits cfg))" and "chunk_seconds_ok (stateful_limits cfg)"
    and "fst (snd (stateful_limits cfg)) + asr_max_frame_bytes cfg div 2 \<le> snd (snd (stateful_limits cfg))"
proof -
  let ?u = "asr_max_utterance_seconds cfg" and ?w = "asr_state_watchdog_seconds cfg" and ?f = "asr_max_frame_bytes cfg"
  have f: "0 < ?f" "?f mod 2 = 0" and w: "?w = 120" and chunk: "0 \<le> asr_stream_chunk_seconds cfg"
    using assms by (auto simp: settings_sane_def stream_fields_ok_def gt_le_def ge_le_def)
  have ends: "frame_audio_seconds cfg < ?u" "?u + frame_audio_seconds cfg < ?w"
    using assms by (auto simp: settings_sane_def stateful_checks_def)
  obtain k where k: "?f = 2 * k" using f(2) by auto
  with f(1) have k1: "1 \<le> k" by simp
  have fk: "frame_audio_seconds cfg = of_int k / 16000" by (simp add: frame_audio_seconds_def k)
  have "(1 :: rat) \<le> of_int k" using k1 by simp
  with ends(1) fk have "1 \<le> ?u * 16000" by simp
  from py_round_mono [OF this] have "1 \<le> py_round (?u * 16000)" using py_round_of_int [of 1] by simp
  then show "0 < fst (snd (stateful_limits cfg))" by (simp add: stateful_limits_def)
  have "?u * 16000 \<le> of_int (1920000 - k)" using ends(2) fk w by simp
  from py_round_mono [OF this] have "py_round (?u * 16000) \<le> 1920000 - k" by (simp only: py_round_of_int)
  moreover have "py_round (?w * 16000) = 1920000" using w py_round_of_int [of 1920000] by simp
  ultimately show "fst (snd (stateful_limits cfg)) + ?f div 2 \<le> snd (snd (stateful_limits cfg))"
    by (simp add: stateful_limits_def k)
  show "chunk_seconds_ok (stateful_limits cfg)" using chunk by (simp add: chunk_seconds_ok_def stateful_limits_def)
qed

lemma qs_init_sound:
  assumes "qs_init E lang t0 = (Inr s, t)" and "0 < fst (snd (stateful_limits (qt_settings t0)))"
  shows "qs_sound (stateful_limits (qt_settings t0)) s"
proof -
  have "qt_settings (snd (qt_init_streaming_state E l u)) = qt_settings u" for l u
    by (auto simp: qt_init_streaming_state_def qt_load_def method_defs split: sum.splits option.splits)
  from this [of "normalize_language (qe_db E) lang" t0] assms show ?thesis
    by (auto simp: qs_init_def Let_def method_defs qs_sound_def qs_ok_def qs_limits_def stateful_limits_def
        split: prod.splits sum.splits)
qed

text \<open>C26: under a validated stateful configuration every sequence of calls on a streaming session
  returns, whatever the model answers or raises; a segment never holds more than the utterance
  limit, so a frame within the configured size never reaches the invariant watchdog.\<close>

theorem qwen_session_returns_within_limits:
  assumes "validate_settings db cfg0 = Inr cfg" and "asr_stream_mode cfg = ModeStateful"
    and "chunk_sizes_ok E" and "qs_init E lang (qt_init cfg) = (Inr s0, t0)"
  shows "\<exists>s. qs_run E ops s0 = Some s \<and>
     0 \<le> qs_undecoded_samples s \<and> qs_undecoded_samples s \<le> qs_segment_received_samples s \<and>
     qs_segment_received_samples s \<le> qs_max_utterance_samples s \<and>
     (\<forall>p. int (length p) \<le> asr_max_frame_bytes cfg \<longrightarrow>
        qs_segment_received_samples s + int (length (pcm_samples p)) \<le> qs_watchdog_samples s)"
proof -
  note sane = sane_stateful [OF validate_settings_sane [OF assms(1)] assms(2)]
  have "qs_sound (stateful_limits cfg) s0"
    using qs_init_sound [OF assms(4)] sane(1) by (simp add: qt_init_def)
  from qs_run_sound [OF assms(3) sane(2) this] obtain s where s: "qs_run E ops s0 = Some s"
    "qs_sound (stateful_limits cfg) s" by blast
  then have lim: "qs_max_utterance_samples s = fst (snd (stateful_limits cfg))"
    "qs_watchdog_samples s = snd (snd (stateful_limits cfg))" and ok: "qs_ok s"
    by (auto simp: qs_sound_def qs_limits_def prod_eq_iff)
  have "qs_segment_received_samples s + int (length (pcm_samples p)) \<le> qs_watchdog_samples s"
    if "int (length p) \<le> asr_max_frame_bytes cfg" for p
  proof -
    have "int (length (pcm_samples p)) \<le> asr_max_frame_bytes cfg div 2"
      using that by (simp add: length_pcm_samples zdiv_int zdiv_mono1)
    with ok lim sane(3) show ?thesis by (simp add: qs_ok_def)
  qed
  with s ok show ?thesis by (auto simp: qs_ok_def)
qed

text \<open>The decoded samples a session reports are real: a call reports, over its whole chain of
  results, at most the samples that were undecoded before plus the samples it brought, less what
  is still undecoded.\<close>

theorem qwen_decoded_samples_accounted:
  assumes "validate_settings db cfg0 = Inr cfg" and "asr_stream_mode cfg = ModeStateful"
    and "chunk_sizes_ok E" and "qs_init E lang (qt_init cfg) = (Inr s0, t0)" and "qs_run E ops s0 = Some s"
  shows "\<exists>r t. qs_add_pcm_s16le E p rate s = Some (r, t) \<and>
     (\<forall>x. r = Inr x \<longrightarrow> (\<exists>d. total_decoded_samples_delta x = Some d \<and> 0 \<le> d \<and>
        qs_undecoded_samples t + d \<le> qs_undecoded_samples s + int (length p) div 2))"
proof -
  note sane = sane_stateful [OF validate_settings_sane [OF assms(1)] assms(2)]
  have "qs_sound (stateful_limits cfg) s0"
    using qs_init_sound [OF assms(4)] sane(1) by (simp add: qt_init_def)
  from qs_run_sound [OF assms(3) sane(2) this, of ops] assms(5) have "qs_sound (stateful_limits cfg) s" by simp
  from qs_add_pcm_outcome [OF assms(3) sane(2) this] show ?thesis by blast
qed

text \<open>A frame of a single byte holds no sample, so the loop produces no result and
  \<open>results[0]\<close> raises \<open>IndexError\<close> instead of a \<open>ValueError\<close>.\<close>

theorem qwen_single_byte_raises:
  assumes "\<not> qs_closed s" and "1 \<le> asr_max_frame_bytes (qt_settings (qs_transcriber s))"
    and "qs_segment_received_samples s \<le> qs_watchdog_samples s"
  shows "qs_add_pcm_s16le E [b] 16000 s = Some (Inl (OtherError ''IndexError''), s)"
  using assms by (simp add: qs_add_pcm_s16le_def Let_def)

text \<open>A concrete configuration and a concrete runtime: it decodes every chunk at once.\<close>

definition example_settings :: Settings where
  "example_settings = \<lparr>asr_model_id = lit ''Qwen/Qwen3-ASR-1.7B'', asr_require_model_manifest = False,
     asr_model_manifest_path = None, asr_backend = BackendQwenVllm, asr_model_name = lit ''Qwen3-ASR-1.7B'',
     asr_device = ''auto'', asr_faster_whisper_compute_type = ''float16'', asr_faster_whisper_batch_size = 4,
     asr_faster_whisper_partial_beam_size = 1, asr_faster_whisper_final_beam_size = 5,
     asr_sensevoice_batch_size = 8, asr_sensevoice_use_itn = True, asr_stream_mode = ModeStateful,
     api_key = replicate 40 120, asr_stream_chunk_seconds = 2, asr_stream_rollover_seconds = 120,
     asr_max_utterance_seconds = 30, asr_state_watchdog_seconds = 120,
     asr_vad_model_sha256 = SILERO_VAD_SHA256, asr_vad_frame_samples = 512, asr_vad_onset_threshold = 13 / 20,
     asr_vad_offset_threshold = 7 / 20, asr_vad_min_speech_ms = 250, asr_vad_min_silence_ms = 800,
     asr_vad_hangover_ms = 160, asr_vad_pre_roll_ms = 200, asr_eager_load = True,
     asr_file_transcribe_enabled = False, asr_max_active_streams = 2, asr_inference_queue_size = 16,
     asr_max_queued_audio_seconds = 4, asr_max_connection_lag_seconds = 2, asr_max_undecoded_age_seconds = 4,
     asr_max_frame_bytes = 16000, asr_ws_max_queue = 4, asr_start_timeout_seconds = 10,
     asr_idle_timeout_seconds = 30, asr_max_session_seconds = 1800,
     asr_max_audio_seconds = 1800, asr_stream_queue_timeout_seconds = 2,
     asr_stream_inference_timeout_seconds = 15, asr_file_inference_timeout_seconds = 300,
     asr_shutdown_grace_seconds = 10,
     asr_gateway_schedule_max_wait_ms = 20, asr_gateway_max_ready_jobs = 64,
     asr_gateway_max_queued_audio_seconds = 8, asr_gateway_max_session_buffer_seconds = 4,
     asr_gateway_default_update_ms = 1500, asr_gateway_drain_timeout_seconds = 30,
     asr_gateway_max_active_sessions = 2, asr_gateway_default_backend = ''local''\<rparr>"

definition ascii_case_db :: casedb where
  "ascii_case_db = \<lparr>cd_isdigit = cd_isdigit ascii_db, cd_isalpha = cd_isalpha ascii_db, cd_isalnum = cd_isalnum ascii_db,
     cd_isupper = cd_isupper ascii_db, cd_lower = cd_lower ascii_db,
     cd_upper = map (\<lambda>c. if 97 \<le> c \<and> c \<le> 122 then c - 32 else c)\<rparr>"

definition example_engine :: "int qwen_engine" where
  "example_engine = \<lparr>qe_db = ascii_case_db,
     qe_verify_model_manifest = (\<lambda>_ _. Inr ()), qe_load_model = Inr (), qe_version = (\<lambda>_. None), qe_create_vad = Inr (),
     qe_init_streaming_state = (\<lambda>_. Inr 0), qe_streaming_transcribe = (\<lambda>_ m. (Inr (m + 1), m)),
     qe_finish_streaming_transcribe = (\<lambda>m. (Inr m, m)), qe_text = (\<lambda>_. Some []), qe_language = (\<lambda>_. None),
     qe_chunk_id = Some, qe_chunk_size_samples = (\<lambda>_. Some 32000),
     qe_transcribe = (\<lambda>path language. Inr (Several [\<lparr>mr_text = Some path, mr_language = Some language\<rparr>]))\<rparr>"


lemma example_settings_valid: "validate_settings ascii_db example_settings = Inr example_settings"
proof -
  have "py_strip SILERO_VAD_SHA256 = SILERO_VAD_SHA256"
    by (rule py_strip_id) (simp_all add: SILERO_VAD_SHA256_def lit_def py_isspace_def)
  then have sha: "require_sha256_hex ascii_db SILERO_VAD_SHA256 = Inr SILERO_VAD_SHA256"
    by (simp add: require_sha256_hex_def) (simp add: SILERO_VAD_SHA256_def lit_def ascii_db_def hex_digit_def)
  have "py_strip (replicate 40 120) = replicate 40 120"
    by (rule py_strip_id) (simp_all add: py_isspace_def)
  moreover have "cd_lower ascii_db (replicate 40 120) \<notin> set PRODUCTION_API_KEY_PLACEHOLDERS"
  proof -
    have "replicate 40 (120 :: nat) = 120 # replicate 39 120" by (simp flip: replicate_Suc)
    then show ?thesis by (simp add: PRODUCTION_API_KEY_PLACEHOLDERS_def lit_def ascii_db_def)
  qed
  moreover have "api_key example_settings = replicate 40 120" "\<not> asr_require_model_manifest example_settings"
    "example_settings\<lparr>api_key := replicate 40 120\<rparr> = example_settings"
    by (simp_all add: example_settings_def)
  ultimately have key: "check_production ascii_db example_settings = Inr example_settings"
    by (simp add: check_production_def PRODUCTION_API_KEY_MIN_LENGTH_def)
  have "\<not> hf_export (lit ''Qwen/Qwen3-ASR-1.7B'')"
    by (simp add: hf_export_def lit_def suffix_to_prefix)
  then have stateful: "reject_all (stateful_checks example_settings) = Inr ()"
    unfolding reject_all_Inr
    by (simp add: stateful_checks_def frame_audio_seconds_def example_settings_def)
  have "stream_fields_ok example_settings" "vad_fields_ok example_settings" "gateway_fields_ok example_settings"
    "engine_fields_ok example_settings"
    by (simp_all add: example_settings_def stream_fields_ok_def vad_fields_ok_def gateway_fields_ok_def engine_fields_ok_def gt_le_def ge_le_def)
  moreover have "reject_all (buffer_checks example_settings) = Inr ()"
    unfolding reject_all_Inr
    by (simp add: buffer_checks_def frame_audio_seconds_def example_settings_def)
  moreover have fields: "asr_vad_model_sha256 example_settings = SILERO_VAD_SHA256"
    "asr_model_manifest_path example_settings = None" "asr_max_frame_bytes example_settings = 16000"
    "asr_backend example_settings = BackendQwenVllm" "asr_stream_mode example_settings = ModeStateful"
    by (simp_all add: example_settings_def)
  moreover have same: "example_settings\<lparr>asr_vad_model_sha256 := SILERO_VAD_SHA256,
      asr_model_manifest_path := normalize_optional_manifest_path None\<rparr> = example_settings"
    by (simp add: example_settings_def normalize_optional_manifest_path_def)
  ultimately have "bound_websocket_buffered_audio ascii_db example_settings = Inr example_settings"
    using key stateful by (simp add: bound_websocket_buffered_audio_def production_backend_def)
  with fields sha \<open>stream_fields_ok example_settings\<close> \<open>vad_fields_ok example_settings\<close>
    \<open>gateway_fields_ok example_settings\<close> \<open>engine_fields_ok example_settings\<close>
  show ?thesis by (simp add: validate_settings_def require_even_pcm_frame_limit_def same)
qed

definition example_session :: "int QwenVLLMStreamingSession" where
  "example_session = \<lparr>qs_transcriber = (qt_init example_settings)\<lparr>qt_model_loaded := True\<rparr>, qs_language = None,
     qs_closed = False, qs_segment_id = 0, qs_segment_received_samples = 0, qs_undecoded_samples = 0,
     qs_max_utterance_samples = 480000, qs_watchdog_samples = 1920000, qs_state = Some 0\<rparr>"

lemma example_session_init:
  "qs_init example_engine None (qt_init example_settings) =
     (Inr example_session, (qt_init example_settings)\<lparr>qt_model_loaded := True\<rparr>)"
  using py_round_of_int [of 480000] py_round_of_int [of 1920000]
  by (simp add: qs_init_def qt_init_streaming_state_def qt_load_def qt_init_def example_settings_def example_engine_def
      method_defs normalize_language_def example_session_def)

lemma example_engine_ok: "chunk_sizes_ok example_engine"
  by (simp add: chunk_sizes_ok_def example_engine_def)

lemma example_stateful: "asr_stream_mode example_settings = ModeStateful"
  by (simp add: example_settings_def)

theorem qwen_session_returns_within_limits_witness:
  "\<exists>s. qs_run example_engine [QsAddPcm [1, 0, 2, 0] 16000, QsFinishSegment, QsAddPcm [7] 16000, QsAbort] example_session = Some s \<and>
     qs_segment_received_samples s \<le> qs_max_utterance_samples s"
  using qwen_session_returns_within_limits [OF example_settings_valid example_stateful example_engine_ok example_session_init,
      of "[QsAddPcm [1, 0, 2, 0] 16000, QsFinishSegment, QsAddPcm [7] 16000, QsAbort]"]
  by blast

theorem qwen_decoded_samples_accounted_witness:
  "\<exists>r t. qs_add_pcm_s16le example_engine [1, 0, 2, 0] 16000 example_session = Some (r, t) \<and>
     (\<forall>x. r = Inr x \<longrightarrow> (\<exists>d. total_decoded_samples_delta x = Some d \<and> 0 \<le> d \<and> qs_undecoded_samples t + d \<le> 2))"
  using qwen_decoded_samples_accounted [OF example_settings_valid example_stateful example_engine_ok example_session_init,
      of "[]" example_session "[1, 0, 2, 0]" 16000]
  by (simp add: example_session_def)

theorem qwen_single_byte_raises_witness:
  "qs_add_pcm_s16le example_engine [0] 16000 example_session = Some (Inl (OtherError ''IndexError''), example_session)"
  by (rule qwen_single_byte_raises) (simp_all add: example_session_def qt_init_def example_settings_def)

end
