(* ===== verification/Coordinator.thy ===== *)
theory Coordinator
  imports Transcribers
begin

text \<open>
  The inference coordinator of \<open>asr_inference.py\<close>: asynchronous clients submit jobs to a priority
  queue, one worker thread owns the transcriber and executes them. The lock-protected fields, the
  job objects (whose futures both sides complete) and the worker's session table are one record;
  a job's mutable fields live in a store indexed by its sequence number. Client calls are cut
  where they wait: the admission of a job, its queue timeout, its inference timeout, the
  cancellation of the waiting client. The worker's loop is cut at the points where other threads
  can be observed in between: taking a job, preparing it up to the claim, executing it, and the
  \<open>finally\<close> block that settles it. The transcriber is the record \<open>asr_transcriber\<close>.
\<close>

section \<open>Futures\<close>

text \<open>\<open>concurrent.futures.Future\<close>.\<close>

datatype 'a future = Pending | Running | Cancelled | CancelledAndNotified | Finished "'a result"

fun fut_done :: "'a future \<Rightarrow> bool" where
  "fut_done Pending = False"
| "fut_done Running = False"
| "fut_done _ = True"

fun fut_cancel :: "'a future \<Rightarrow> bool \<times> 'a future" where
  "fut_cancel Pending = (True, Cancelled)"
| "fut_cancel Running = (False, Running)"
| "fut_cancel (Finished r) = (False, Finished r)"
| "fut_cancel f = (True, f)"

fun fut_set_running_or_notify_cancel :: "'a future \<Rightarrow> bool result \<times> 'a future" where
  "fut_set_running_or_notify_cancel Pending = (Inr True, Running)"
| "fut_set_running_or_notify_cancel Cancelled = (Inr False, CancelledAndNotified)"
| "fut_set_running_or_notify_cancel f = (Inl (RuntimeError ''Future in unexpected state''), f)"

text \<open>\<open>set_result\<close> and \<open>set_exception\<close>.\<close>

fun fut_set :: "'a result \<Rightarrow> 'a future \<Rightarrow> unit result \<times> 'a future" where
  "fut_set r Pending = (Inr (), Finished r)"
| "fut_set r Running = (Inr (), Finished r)"
| "fut_set r f = (Inl (OtherError ''InvalidStateError''), f)"

text \<open>\<open>if not future.done(): future.set_...\<close>.\<close>

definition fut_set_unless_done :: "'a result \<Rightarrow> 'a future \<Rightarrow> 'a future" where
  "fut_set_unless_done r f = (if fut_done f then f else snd (fut_set r f))"

lemma fut_set_unless_done_done [simp]: "fut_done (fut_set_unless_done r f)"
  by (cases f) (simp_all add: fut_set_unless_done_def)

lemma fut_cancel_done: "fst (fut_cancel f) \<Longrightarrow> fut_done (snd (fut_cancel f))"
  by (cases f) simp_all

section \<open>Jobs and state\<close>

datatype asr_action =
    CreateStream string "ustr option"
  | CreateChunkedStream string "ustr option"
  | AddAudio string pcm int
  | FinishStream string
  | FinishSegment string
  | AbortStream string
  | TranscribeFile ustr "ustr option"
  | TranscribeStreamChunk string ustr "ustr option"
  | Shutdown

datatype asr_value =
    ValSession string
  | ValStream StreamingTranscriptionResult
  | ValFile TranscriptionResult
  | ValNone

record ASRJob =
  jb_priority :: int
  jb_sequence :: nat
  jb_action :: asr_action
  jb_session_id :: "string option"
  jb_enqueue_time :: rat
  jb_queue_deadline :: rat
  jb_audio_seconds :: rat
  jb_holds_session_reservation :: bool

record job_cell =
  cell_started :: "unit future"
  cell_result :: "asr_value future"
  cell_cancelled :: bool
  cell_holds_stream_reservation :: bool

text \<open>How the \<open>try\<close> block of the worker loop ended: \<open>continue\<close>, the shutdown \<open>return\<close>, a result, an
  \<open>Exception\<close>, or another \<open>BaseException\<close>.\<close>

datatype job_end = JobSkipped | JobShutdown | JobReturned asr_value | JobFailed py_error | JobDied py_error

datatype worker_phase =
    WorkerStopped
  | WorkerStarting
  | WorkerIdle
  | WorkerTaken ASRJob
  | WorkerClaimed ASRJob rat
  | WorkerDone ASRJob job_end

text \<open>A session of the worker's table: one of the transcriber's, or a \<open>_ChunkedSession\<close>.\<close>

datatype 'h worker_session = Streaming 'h | ChunkedSession

record ('h, 'w) Coordinator =
  co_settings :: Settings
  co_jobs :: "ASRJob list"
  co_cells :: "nat \<Rightarrow> job_cell"
  co_sequence :: nat
  co_phase :: worker_phase
  co_accepting :: bool
  co_ready :: bool
  co_worker_loop_active :: bool
  co_shutdown_requested :: bool
  co_load_error :: "string option"
  co_queued_audio_seconds :: rat
  co_queued_business_jobs :: int
  co_active_sessions :: "string set"
  co_stream_reservations :: "string set"
  co_poisoned_sessions :: "string set"
  co_busy_sessions :: "string set"
  co_batch_pending :: bool
  co_batch_running :: bool
  co_sessions :: "(string, 'h worker_session) dict"
  co_has_transcriber :: bool
  co_warmed :: bool
  co_world :: 'w

record ('h, 'w) asr_transcriber =
  at_factory :: "('w, unit) py_method"
  at_warmup :: "('w, unit) py_method"
  at_transcribe :: "ustr \<Rightarrow> ustr option \<Rightarrow> ('w, TranscriptionResult) py_method"
  at_create_streaming_session :: "ustr option \<Rightarrow> ('w, 'h) py_method"
  at_add_pcm_s16le :: "'h \<Rightarrow> pcm \<Rightarrow> int \<Rightarrow> ('w, StreamingTranscriptionResult) py_method"
  at_finish :: "'h \<Rightarrow> ('w, StreamingTranscriptionResult) py_method"
  at_finish_segment :: "'h \<Rightarrow> ('w, StreamingTranscriptionResult) py_method"
  at_abort :: "'h \<Rightarrow> ('w, unit) py_method"

definition fresh_cell :: "bool \<Rightarrow> job_cell" where
  "fresh_cell holds_stream =
     \<lparr>cell_started = Pending, cell_result = Pending, cell_cancelled = False,
      cell_holds_stream_reservation = holds_stream\<rparr>"

definition co_init :: "Settings \<Rightarrow> 'w \<Rightarrow> ('h, 'w) Coordinator" where
  "co_init settings w =
     \<lparr>co_settings = settings, co_jobs = [], co_cells = (\<lambda>_. fresh_cell False), co_sequence = 0,
      co_phase = WorkerStopped, co_accepting = False, co_ready = False, co_worker_loop_active = False,
      co_shutdown_requested = False, co_load_error = None, co_queued_audio_seconds = 0,
      co_queued_business_jobs = 0, co_active_sessions = {}, co_stream_reservations = {},
      co_poisoned_sessions = {}, co_busy_sessions = {}, co_batch_pending = False, co_batch_running = False,
      co_sessions = [], co_has_transcriber = False, co_warmed = False, co_world = w\<rparr>"

definition worker_alive :: "('h, 'w) Coordinator \<Rightarrow> bool" where
  "worker_alive c \<longleftrightarrow> co_phase c \<noteq> WorkerStopped"

record CoordinatorSnapshot =
  cs_ready :: bool
  cs_accepting :: bool
  cs_active_streams :: nat
  cs_queue_depth :: int
  cs_queued_audio_seconds :: rat
  cs_load_error :: "string option"

definition co_snapshot :: "('h, 'w) Coordinator \<Rightarrow> CoordinatorSnapshot" where
  "co_snapshot c = \<lparr>cs_ready = co_ready c, cs_accepting = co_accepting c,
     cs_active_streams = card (co_active_sessions c), cs_queue_depth = co_queued_business_jobs c,
     cs_queued_audio_seconds = co_queued_audio_seconds c, cs_load_error = co_load_error c\<rparr>"

definition co_sanitize_error :: "py_error \<Rightarrow> string" where
  "co_sanitize_error e = error_type_name e @ '': model warmup failed''"

definition cell_upd :: "nat \<Rightarrow> (job_cell \<Rightarrow> job_cell) \<Rightarrow> ('h, 'w) Coordinator \<Rightarrow> ('h, 'w) Coordinator" where
  "cell_upd n f c = c\<lparr>co_cells := (co_cells c)(n := f (co_cells c n))\<rparr>"

text \<open>A check that raises; a call of the transcriber.\<close>

definition py_check :: "('s \<Rightarrow> unit result) \<Rightarrow> ('s, unit) py_method" where
  "py_check f = (\<lambda>s. (f s, s))"

definition on_world :: "('w, 'a) py_method \<Rightarrow> (('h, 'w) Coordinator, 'a) py_method" where
  "on_world m = (\<lambda>c. case m (co_world c) of (r, w) \<Rightarrow> (r, c\<lparr>co_world := w\<rparr>))"

text \<open>A \<open>BaseException\<close> that is not an \<open>Exception\<close>, and the \<open>except Exception\<close> that lets it pass.\<close>

definition base_exception :: "py_error \<Rightarrow> bool" where
  "base_exception e \<longleftrightarrow> error_type_name e \<in> {''KeyboardInterrupt'', ''SystemExit'', ''GeneratorExit''}"

definition py_except_exception ::
  "('s, 'a) py_method \<Rightarrow> (py_error \<Rightarrow> ('s, 'a) py_method) \<Rightarrow> ('s, 'a) py_method" where
  "py_except_exception m h = py_except m (\<lambda>e. if base_exception e then py_raise e else h e)"

section \<open>Admission\<close>

definition co_require_accepting :: "('h, 'w) Coordinator \<Rightarrow> unit result" where
  "co_require_accepting c =
     (if \<not> co_accepting c then Inl (ASRNotReady ''ASR coordinator is not accepting work'')
      else if co_load_error c \<notin> {None, Some ''''} then Inl (ASRNotReady ''ASR model failed to load'')
      else Inr ())"

definition co_require_session_admissible :: "string option \<Rightarrow> ('h, 'w) Coordinator \<Rightarrow> unit result" where
  "co_require_session_admissible sid c =
     bind_result (co_require_accepting c) (\<lambda>_.
       case sid of
         None \<Rightarrow> Inl (ASRSessionPoisoned ''ASR streaming session is poisoned'')
       | Some s \<Rightarrow>
           if s = [] \<or> s \<in> co_poisoned_sessions c
           then Inl (ASRSessionPoisoned ''ASR streaming session is poisoned'')
           else if s \<notin> co_active_sessions c
           then Inl (ASRSessionPoisoned ''ASR streaming session is closed'')
           else Inr ())"

definition co_new_job ::
  "asr_action \<Rightarrow> string option \<Rightarrow> int \<Rightarrow> rat \<Rightarrow> rat \<Rightarrow> rat \<Rightarrow> bool \<Rightarrow> bool \<Rightarrow>
   (('h, 'w) Coordinator, ASRJob) py_method" where
  "co_new_job action sid priority now queue_timeout audio_seconds holds_session holds_stream = (\<lambda>c.
     (Inr \<lparr>jb_priority = priority, jb_sequence = co_sequence c, jb_action = action, jb_session_id = sid,
           jb_enqueue_time = now, jb_queue_deadline = now + queue_timeout, jb_audio_seconds = audio_seconds,
           jb_holds_session_reservation = holds_session\<rparr>,
      c\<lparr>co_sequence := Suc (co_sequence c),
        co_cells := (co_cells c)(co_sequence c := fresh_cell holds_stream)\<rparr>))"

text \<open>\<open>if not session_id: return\<close>: a missing or empty id is false.\<close>

definition truthy_id :: "string option \<Rightarrow> string option" where
  "truthy_id sid = (case sid of None \<Rightarrow> None | Some s \<Rightarrow> if s = [] then None else Some s)"

definition co_release_stream_reservation :: "ASRJob \<Rightarrow> ('h, 'w) Coordinator \<Rightarrow> ('h, 'w) Coordinator" where
  "co_release_stream_reservation job c =
     (case truthy_id (jb_session_id job) of
        None \<Rightarrow> c
      | Some s \<Rightarrow>
          if \<not> cell_holds_stream_reservation (co_cells c (jb_sequence job)) then c
          else cell_upd (jb_sequence job) (\<lambda>x. x\<lparr>cell_holds_stream_reservation := False\<rparr>)
                 (c\<lparr>co_stream_reservations := co_stream_reservations c - {s}\<rparr>))"

definition co_discard_busy :: "string option \<Rightarrow> ('h, 'w) Coordinator \<Rightarrow> ('h, 'w) Coordinator" where
  "co_discard_busy sid c =
     (case truthy_id sid of None \<Rightarrow> c | Some s \<Rightarrow> c\<lparr>co_busy_sessions := co_busy_sessions c - {s}\<rparr>)"

definition co_reserve_stream :: "string option \<Rightarrow> (('h, 'w) Coordinator, unit) py_method" where
  "co_reserve_stream sid = (\<lambda>c.
     if co_batch_pending c \<or> co_batch_running c
     then (Inl (ASRBatchConflict ''batch transcription owns the model''), c)
     else if asr_max_active_streams (co_settings c) \<le> int (card (co_stream_reservations c))
     then (Inl (ASRSessionLimit ''maximum active ASR streams reached''), c)
     else case sid of
         None \<Rightarrow> (Inl AssertionError, c)
       | Some s \<Rightarrow> (Inr (), c\<lparr>co_stream_reservations := insert s (co_stream_reservations c)\<rparr>))"

definition co_reserve_session :: "string option \<Rightarrow> (('h, 'w) Coordinator, unit) py_method" where
  "co_reserve_session sid =
     py_seq (py_check (co_require_session_admissible sid)) (\<lambda>c.
       case sid of
         None \<Rightarrow> (Inl AssertionError, c)
       | Some s \<Rightarrow>
           if s \<in> co_busy_sessions c
           then (Inl (ASRSessionBusy ''ASR streaming session already has an unfinished operation''), c)
           else (Inr (), c\<lparr>co_busy_sessions := insert s (co_busy_sessions c)\<rparr>))"

definition co_refuse :: "ASRJob \<Rightarrow> string \<Rightarrow> (('h, 'w) Coordinator, ASRJob) py_method" where
  "co_refuse job message =
     py_seq (py_modify (\<lambda>c. co_release_stream_reservation job (co_discard_busy (jb_session_id job) c)))
       (py_raise (ASRQueueFull message))"

text \<open>\<open>put_nowait\<close> on the bounded priority queue: one slot more than the configured size.\<close>

definition co_queue_full :: "('h, 'w) Coordinator \<Rightarrow> bool" where
  "co_queue_full c \<longleftrightarrow> asr_inference_queue_size (co_settings c) + 1 \<le> int (length (co_jobs c))"

definition co_enqueue :: "ASRJob \<Rightarrow> (('h, 'w) Coordinator, ASRJob) py_method" where
  "co_enqueue job = (\<lambda>c.
     if asr_max_queued_audio_seconds (co_settings c) < co_queued_audio_seconds c + jb_audio_seconds job
     then co_refuse job ''maximum queued audio duration reached'' c
     else if asr_inference_queue_size (co_settings c) \<le> co_queued_business_jobs c
     then co_refuse job ''ASR inference queue is full'' c
     else let c1 = c\<lparr>co_queued_audio_seconds := co_queued_audio_seconds c + jb_audio_seconds job,
                     co_queued_business_jobs := co_queued_business_jobs c + 1\<rparr>
          in if co_queue_full c1
             then co_refuse job ''ASR inference queue is full''
               (c1\<lparr>co_queued_audio_seconds := max 0 (co_queued_audio_seconds c1 - jb_audio_seconds job),
                   co_queued_business_jobs := co_queued_business_jobs c1 - 1\<rparr>)
             else (Inr job, c1\<lparr>co_jobs := co_jobs c1 @ [job]\<rparr>))"

text \<open>The locked part of \<open>_submit\<close>.\<close>

definition co_submit ::
  "asr_action \<Rightarrow> string option \<Rightarrow> int \<Rightarrow> rat \<Rightarrow> rat \<Rightarrow> rat \<Rightarrow> bool \<Rightarrow> bool \<Rightarrow>
   (('h, 'w) Coordinator, ASRJob) py_method" where
  "co_submit action sid priority now queue_timeout audio_seconds reserve_session reserve_stream =
     py_bind (co_new_job action sid priority now queue_timeout audio_seconds reserve_session reserve_stream) (\<lambda>job.
     py_seq (py_check co_require_accepting)
     (py_seq (if reserve_stream then co_reserve_stream sid else py_return ())
     (py_seq (if reserve_session then co_reserve_session sid else py_return ())
       (co_enqueue job))))"

section \<open>Client calls\<close>

definition stream_timeout :: "('h, 'w) Coordinator \<Rightarrow> rat" where
  "stream_timeout c = asr_stream_queue_timeout_seconds (co_settings c)"

text \<open>A job of a live stream: priority 0 and the stream queue timeout. The fresh session id
  (\<open>uuid4\<close>) of a new stream and the clock reading are arguments.\<close>

definition co_stream_job ::
  "asr_action \<Rightarrow> string \<Rightarrow> rat \<Rightarrow> rat \<Rightarrow> bool \<Rightarrow> bool \<Rightarrow> (('h, 'w) Coordinator, ASRJob) py_method" where
  "co_stream_job action sid now audio_seconds reserve_session reserve_stream =
     py_bind (py_read stream_timeout) (\<lambda>timeout.
       co_submit action (Some sid) 0 now timeout audio_seconds reserve_session reserve_stream)"

definition create_stream :: "string \<Rightarrow> ustr option \<Rightarrow> rat \<Rightarrow> (('h, 'w) Coordinator, ASRJob) py_method" where
  "create_stream sid language now = co_stream_job (CreateStream sid language) sid now 0 False True"

definition create_chunked_stream :: "string \<Rightarrow> ustr option \<Rightarrow> rat \<Rightarrow> (('h, 'w) Coordinator, ASRJob) py_method" where
  "create_chunked_stream sid language now = co_stream_job (CreateChunkedStream sid language) sid now 0 False True"

definition co_add_audio :: "string \<Rightarrow> pcm \<Rightarrow> int \<Rightarrow> rat \<Rightarrow> (('h, 'w) Coordinator, ASRJob) py_method" where
  "co_add_audio sid pcm_bytes rate now =
     co_stream_job (AddAudio sid pcm_bytes rate) sid now
       (if 0 < rate then of_nat (length pcm_bytes div 2) / of_int rate else 0) True False"

definition finish_stream :: "string \<Rightarrow> rat \<Rightarrow> (('h, 'w) Coordinator, ASRJob) py_method" where
  "finish_stream sid now = co_stream_job (FinishStream sid) sid now 0 True False"

definition co_finish_segment :: "string \<Rightarrow> rat \<Rightarrow> (('h, 'w) Coordinator, ASRJob) py_method" where
  "co_finish_segment sid now = co_stream_job (FinishSegment sid) sid now 0 True False"

definition co_poison :: "string option \<Rightarrow> ('h, 'w) Coordinator \<Rightarrow> ('h, 'w) Coordinator" where
  "co_poison sid c =
     (case truthy_id sid of None \<Rightarrow> c
      | Some s \<Rightarrow> c\<lparr>co_poisoned_sessions := insert s (co_poisoned_sessions c)\<rparr>)"

definition abort_stream :: "string \<Rightarrow> rat \<Rightarrow> (('h, 'w) Coordinator, ASRJob option) py_method" where
  "abort_stream sid now = (\<lambda>c.
     if sid \<notin> co_active_sessions c then (Inr None, c)
     else if \<not> co_accepting c then (Inr None, c)
     else if sid \<in> co_busy_sessions c
     then (Inr None, c\<lparr>co_poisoned_sessions := insert sid (co_poisoned_sessions c)\<rparr>)
     else case co_stream_job (AbortStream sid) sid now 0 True False c of
         (Inr job, d) \<Rightarrow> (Inr (Some job), d)
       | (Inl (ASRSessionBusy _), d) \<Rightarrow>
           (Inr None, d\<lparr>co_poisoned_sessions := insert sid (co_poisoned_sessions d)\<rparr>)
       | (Inl e, d) \<Rightarrow> (Inl e, d))"

text \<open>\<open>transcribe_file\<close> up to its wait; a refused submission runs its \<open>finally\<close> at once, an
  admitted one when the waiting client is done (\<open>co_file_done\<close>).\<close>

definition co_file_done :: "('h, 'w) Coordinator \<Rightarrow> ('h, 'w) Coordinator" where
  "co_file_done c = c\<lparr>co_batch_pending := False\<rparr>"

definition co_claim_file :: "('h, 'w) Coordinator \<Rightarrow> unit result \<times> ('h, 'w) Coordinator" where
  "co_claim_file =
     py_seq (py_check co_require_accepting) (\<lambda>c.
       if \<not> asr_file_transcribe_enabled (co_settings c)
       then (Inl (ASRFileTranscriptionDisabled ''file transcription is disabled''), c)
       else if co_stream_reservations c \<noteq> {} \<or> co_batch_pending c \<or> co_batch_running c
       then (Inl (ASRBatchConflict ''live streaming owns the model''), c)
       else (Inr (), c\<lparr>co_batch_pending := True\<rparr>))"

definition transcribe_file :: "ustr \<Rightarrow> ustr option \<Rightarrow> rat \<Rightarrow> (('h, 'w) Coordinator, ASRJob) py_method" where
  "transcribe_file audio_path language now =
     py_seq co_claim_file
     (py_bind (py_read stream_timeout) (\<lambda>timeout.
       py_except (co_submit (TranscribeFile audio_path language) None 10 now timeout 0 False False)
         (\<lambda>e. py_seq (py_modify co_file_done) (py_raise e))))"

definition transcribe_stream_chunk ::
  "string \<Rightarrow> ustr \<Rightarrow> ustr option \<Rightarrow> rat \<Rightarrow> rat \<Rightarrow> (('h, 'w) Coordinator, ASRJob) py_method" where
  "transcribe_stream_chunk sid audio_path language audio_seconds now = (\<lambda>c.
     if co_batch_pending c \<or> co_batch_running c
     then (Inl (ASRBatchConflict ''batch transcription owns the model''), c)
     else co_stream_job (TranscribeStreamChunk sid audio_path language) sid now audio_seconds True False c)"

section \<open>What happens to a waiting client\<close>

text \<open>\<open>job.started.cancel()\<close>, and when it succeeds \<open>cancelled.set()\<close> and \<open>result.cancel()\<close>.\<close>

definition co_withdraw :: "ASRJob \<Rightarrow> ('h, 'w) Coordinator \<Rightarrow> bool \<times> ('h, 'w) Coordinator" where
  "co_withdraw job c =
     (let n = jb_sequence job; (ok, started) = fut_cancel (cell_started (co_cells c n))
      in if ok then (True, cell_upd n (\<lambda>x. x\<lparr>cell_started := started, cell_cancelled := True,
                             cell_result := snd (fut_cancel (cell_result x))\<rparr>) c)
         else (False, c))"

text \<open>The queue timeout: \<open>None\<close> when the worker was faster and the client goes on waiting.\<close>

definition co_queue_timeout :: "ASRJob \<Rightarrow> ('h, 'w) Coordinator \<Rightarrow> py_error option \<times> ('h, 'w) Coordinator" where
  "co_queue_timeout job c =
     (case co_withdraw job c of
        (True, d) \<Rightarrow> (Some (ASRQueueTimeout ''ASR job expired before execution''), d)
      | (False, d) \<Rightarrow> (None, d))"

definition co_inference_timeout :: "ASRJob \<Rightarrow> ('h, 'w) Coordinator \<Rightarrow> py_error \<times> ('h, 'w) Coordinator" where
  "co_inference_timeout job c =
     (ASRInferenceTimeout ''ASR inference exceeded its execution timeout'', co_poison (jb_session_id job) c)"

text \<open>Cancellation of the waiting task: a started job's session is poisoned; the task then waits for
  the result and cleans up with \<open>co_cleanup_cancelled\<close>.\<close>

definition co_client_cancelled :: "ASRJob \<Rightarrow> ('h, 'w) Coordinator \<Rightarrow> ('h, 'w) Coordinator" where
  "co_client_cancelled job c =
     (case co_withdraw job c of (True, d) \<Rightarrow> d | (False, d) \<Rightarrow> co_poison (jb_session_id job) d)"

definition coordinator_error :: "py_error \<Rightarrow> bool" where
  "coordinator_error e = (case e of
     ASRNotReady _ \<Rightarrow> True | ASRQueueFull _ \<Rightarrow> True | ASRQueueTimeout _ \<Rightarrow> True | ASRInferenceTimeout _ \<Rightarrow> True
   | ASRSessionLimit _ \<Rightarrow> True | ASRSessionPoisoned _ \<Rightarrow> True | ASRSessionBusy _ \<Rightarrow> True
   | ASRFileTranscriptionDisabled _ \<Rightarrow> True | ASRBatchConflict _ \<Rightarrow> True | _ \<Rightarrow> False)"

definition co_cleanup_cancelled :: "string \<Rightarrow> rat \<Rightarrow> (('h, 'w) Coordinator, ASRJob option) py_method" where
  "co_cleanup_cancelled sid now = (\<lambda>c.
     if sid \<notin> co_active_sessions c then (Inr None, c)
     else case abort_stream sid now (c\<lparr>co_poisoned_sessions := co_poisoned_sessions c - {sid}\<rparr>) of
         (Inr j, d) \<Rightarrow> (Inr j, d)
       | (Inl e, d) \<Rightarrow>
           if coordinator_error e
           then (Inr None, d\<lparr>co_poisoned_sessions := insert sid (co_poisoned_sessions d)\<rparr>)
           else (Inl e, d))"

section \<open>The worker\<close>

definition co_start :: "('h, 'w) Coordinator \<Rightarrow> ('h, 'w) Coordinator" where
  "co_start c =
     (if worker_alive c then c
      else c\<lparr>co_accepting := True, co_ready := False, co_worker_loop_active := True,
             co_shutdown_requested := False, co_load_error := None, co_phase := WorkerStarting\<rparr>)"

text \<open>The locked part of \<open>stop\<close>.\<close>

definition co_stop :: "rat \<Rightarrow> (('h, 'w) Coordinator, unit) py_method" where
  "co_stop now = (\<lambda>c0.
     let c = c0\<lparr>co_accepting := False\<rparr>
     in if worker_alive c \<and> co_worker_loop_active c \<and> \<not> co_shutdown_requested c
        then case co_new_job Shutdown None (- 100) now 3600 0 False False c of
            (Inl e, d) \<Rightarrow> (Inl e, d)
          | (Inr job, d) \<Rightarrow>
              if co_queue_full d then (Inl (RuntimeError ''ASR shutdown control slot is unavailable''), d)
              else (Inr (), d\<lparr>co_jobs := co_jobs d @ [job], co_shutdown_requested := True\<rparr>)
        else (Inr (), c))"

text \<open>\<open>PriorityQueue.get\<close>: the least (priority, sequence).\<close>

definition next_job :: "('h, 'w) Coordinator \<Rightarrow> ASRJob" where
  "next_job c = arg_min_list (\<lambda>j. (jb_priority j, jb_sequence j)) (co_jobs c)"

definition co_release_queue_slot :: "ASRJob \<Rightarrow> ('h, 'w) Coordinator \<Rightarrow> ('h, 'w) Coordinator" where
  "co_release_queue_slot job c =
     (if jb_action job = Shutdown then c
      else c\<lparr>co_queued_business_jobs := max 0 (co_queued_business_jobs c - 1)\<rparr>)"

definition co_worker_take :: "('h, 'w) Coordinator \<Rightarrow> ('h, 'w) Coordinator" where
  "co_worker_take c =
     (let job = next_job c
      in co_release_queue_slot job (c\<lparr>co_jobs := remove1 job (co_jobs c), co_phase := WorkerTaken job\<rparr>))"

definition co_reject_unclaimed :: "ASRJob \<Rightarrow> py_error \<Rightarrow> ('h, 'w) Coordinator \<Rightarrow> ('h, 'w) Coordinator" where
  "co_reject_unclaimed job e c =
     cell_upd (jb_sequence job) (\<lambda>x.
       let (running, started) = fut_set_running_or_notify_cancel (cell_started x)
       in x\<lparr>cell_started := (if running = Inr True then snd (fut_set (Inl e) started) else started),
            cell_result := snd (fut_cancel (cell_result x))\<rparr>) c"

text \<open>\<open>None\<close>: the job has not expired. Otherwise the state after its rejection.\<close>

definition co_expired_before_start :: "ASRJob \<Rightarrow> rat \<Rightarrow> ('h, 'w) Coordinator \<Rightarrow> ('h, 'w) Coordinator option" where
  "co_expired_before_start job now c =
     (if co_accepting c \<and> \<not> cell_cancelled (co_cells c (jb_sequence job)) \<and> now \<le> jb_queue_deadline job
      then None
      else Some (co_reject_unclaimed job
        (if \<not> co_accepting c then ASRNotReady ''ASR coordinator stopped before job execution''
         else ASRQueueTimeout ''ASR job expired before execution'') c))"

definition co_claim_job :: "ASRJob \<Rightarrow> ('h, 'w) Coordinator \<Rightarrow> bool \<times> ('h, 'w) Coordinator" where
  "co_claim_job job c =
     (let n = jb_sequence job;
          (claimed, started) = fut_set_running_or_notify_cancel (cell_started (co_cells c n))
      in if claimed = Inr True
         then (True, cell_upd n (\<lambda>x. x\<lparr>cell_started := snd (fut_set (Inr ()) started)\<rparr>) c)
         else (False, cell_upd n (\<lambda>x. x\<lparr>cell_started := started, cell_result := snd (fut_cancel (cell_result x))\<rparr>) c))"

text \<open>How an exception leaves the \<open>try\<close> block.\<close>

definition ended_by :: "py_error \<Rightarrow> job_end" where
  "ended_by e = (if base_exception e then JobDied e else JobFailed e)"

definition co_warm :: "('h, 'w) asr_transcriber \<Rightarrow> (('h, 'w) Coordinator, unit) py_method" where
  "co_warm T = (\<lambda>c.
     if co_warmed c then (Inr (), c)
     else if \<not> co_has_transcriber c then (Inl (ASRNotReady ''ASR model failed to initialize''), c)
     else case on_world (at_warmup T) c of
         (Inr _, d) \<Rightarrow> (Inr (), d\<lparr>co_warmed := True, co_ready := co_accepting d, co_load_error := None\<rparr>)
       | (Inl e, d) \<Rightarrow>
           (Inl e, if base_exception e then d
                   else d\<lparr>co_accepting := False, co_load_error := Some (co_sanitize_error e)\<rparr>))"

text \<open>The loop body up to the claim; the three clock readings are arguments.\<close>

definition co_worker_prepare ::
  "('h, 'w) asr_transcriber \<Rightarrow> ASRJob \<Rightarrow> rat \<Rightarrow> rat \<Rightarrow> rat \<Rightarrow> ('h, 'w) Coordinator \<Rightarrow> ('h, 'w) Coordinator" where
  "co_worker_prepare T job now1 now2 now3 c =
     (if jb_action job = Shutdown then
        (cell_upd (jb_sequence job) (\<lambda>x. x\<lparr>cell_started := snd (fut_set (Inr ()) (cell_started x))\<rparr>) c)
          \<lparr>co_phase := WorkerDone job JobShutdown\<rparr>
      else case co_expired_before_start job now1 c of
          Some d \<Rightarrow> d\<lparr>co_phase := WorkerDone job JobSkipped\<rparr>
        | None \<Rightarrow>
            (case co_warm T c of
               (Inl e, d) \<Rightarrow> d\<lparr>co_phase := WorkerDone job (ended_by e)\<rparr>
             | (Inr _, d) \<Rightarrow>
                 (case co_expired_before_start job now2 d of
                    Some e \<Rightarrow> e\<lparr>co_phase := WorkerDone job JobSkipped\<rparr>
                  | None \<Rightarrow>
                      (case co_claim_job job d of
                         (False, e) \<Rightarrow> e\<lparr>co_phase := WorkerDone job JobSkipped\<rparr>
                       | (True, e) \<Rightarrow> e\<lparr>co_phase := WorkerClaimed job (now3 - jb_enqueue_time job)\<rparr>))))"

text \<open>\<open>sessions[session_id]\<close>; a chunked session has no streaming methods.\<close>

definition co_with_session ::
  "string \<Rightarrow> ('h \<Rightarrow> ('w, 'a) py_method) \<Rightarrow> (('h, 'w) Coordinator, 'a) py_method" where
  "co_with_session sid f = (\<lambda>c.
     case map_of (co_sessions c) sid of
       None \<Rightarrow> (Inl (KeyError sid), c)
     | Some ChunkedSession \<Rightarrow> (Inl (OtherError ''AttributeError''), c)
     | Some (Streaming h) \<Rightarrow> on_world (f h) c)"

definition co_abort_session ::
  "('h, 'w) asr_transcriber \<Rightarrow> 'h worker_session \<Rightarrow> (('h, 'w) Coordinator, unit) py_method" where
  "co_abort_session T session =
     (case session of ChunkedSession \<Rightarrow> py_return () | Streaming h \<Rightarrow> on_world (at_abort T h))"

definition co_open_session :: "string \<Rightarrow> ASRJob \<Rightarrow> 'h worker_session \<Rightarrow> (('h, 'w) Coordinator, asr_value) py_method" where
  "co_open_session sid job session =
     py_seq (py_modify (\<lambda>c. cell_upd (jb_sequence job) (\<lambda>x. x\<lparr>cell_holds_stream_reservation := False\<rparr>)
       (c\<lparr>co_sessions := AList.update sid session (co_sessions c),
          co_active_sessions := insert sid (co_active_sessions c)\<rparr>)))
       (py_return (ValSession sid))"

definition co_forget :: "string \<Rightarrow> (('h, 'w) Coordinator, unit) py_method" where
  "co_forget sid = py_modify (\<lambda>c. c\<lparr>co_sessions := AList.delete sid (co_sessions c),
     co_active_sessions := co_active_sessions c - {sid},
     co_stream_reservations := co_stream_reservations c - {sid}\<rparr>)"

definition co_finish_stream_job ::
  "('h, 'w) asr_transcriber \<Rightarrow> string \<Rightarrow> (('h, 'w) Coordinator, asr_value) py_method" where
  "co_finish_stream_job T sid = (\<lambda>c.
     case map_of (co_sessions c) sid of
       None \<Rightarrow> (Inl (KeyError sid), c)
     | Some session \<Rightarrow>
         py_finally
           (py_except_exception (py_bind (co_with_session sid (at_finish T)) (\<lambda>r. py_return (ValStream r)))
             (\<lambda>e. py_seq (py_except_exception (co_abort_session T session) (\<lambda>_. py_return ())) (py_raise e)))
           (co_forget sid) c)"

definition co_abort_stream_job ::
  "('h, 'w) asr_transcriber \<Rightarrow> string \<Rightarrow> (('h, 'w) Coordinator, asr_value) py_method" where
  "co_abort_stream_job T sid = (\<lambda>c.
     let session = map_of (co_sessions c) sid;
         c1 = c\<lparr>co_sessions := AList.delete sid (co_sessions c)\<rparr>
     in py_finally
          (py_seq (case session of None \<Rightarrow> py_return () | Some x \<Rightarrow> co_abort_session T x) (py_return ValNone))
          (co_forget sid) c1)"

definition co_transcribe_file_job ::
  "('h, 'w) asr_transcriber \<Rightarrow> ustr \<Rightarrow> ustr option \<Rightarrow> (('h, 'w) Coordinator, asr_value) py_method" where
  "co_transcribe_file_job T audio_path language =
     py_seq (py_modify (\<lambda>c. c\<lparr>co_batch_running := True\<rparr>))
       (py_finally (py_bind (on_world (at_transcribe T audio_path language)) (\<lambda>r. py_return (ValFile r)))
         (py_modify (\<lambda>c. c\<lparr>co_batch_running := False\<rparr>)))"

fun co_execute_action ::
  "('h, 'w) asr_transcriber \<Rightarrow> ASRJob \<Rightarrow> asr_action \<Rightarrow> (('h, 'w) Coordinator, asr_value) py_method" where
  "co_execute_action T job (CreateStream sid language) =
     py_bind (on_world (at_create_streaming_session T language)) (\<lambda>h. co_open_session sid job (Streaming h))"
| "co_execute_action T job (CreateChunkedStream sid language) = co_open_session sid job ChunkedSession"
| "co_execute_action T job (AddAudio sid pcm_bytes rate) =
     py_bind (co_with_session sid (\<lambda>h. at_add_pcm_s16le T h pcm_bytes rate)) (\<lambda>r. py_return (ValStream r))"
| "co_execute_action T job (FinishStream sid) = co_finish_stream_job T sid"
| "co_execute_action T job (FinishSegment sid) =
     py_bind (co_with_session sid (at_finish_segment T)) (\<lambda>r. py_return (ValStream r))"
| "co_execute_action T job (AbortStream sid) = co_abort_stream_job T sid"
| "co_execute_action T job (TranscribeFile audio_path language) = co_transcribe_file_job T audio_path language"
| "co_execute_action T job (TranscribeStreamChunk sid audio_path language) =
     py_bind (on_world (at_transcribe T audio_path language)) (\<lambda>r. py_return (ValFile r))"
| "co_execute_action T job Shutdown = py_raise (RuntimeError ''unknown ASR coordinator action: shutdown'')"

text \<open>\<open>replace(result, queue_wait_seconds=..., inference_seconds=...)\<close> on a streaming result.\<close>

fun with_timings :: "rat \<Rightarrow> rat \<Rightarrow> asr_value \<Rightarrow> asr_value" where
  "with_timings wait inference (ValStream (StreamingResult g t l d u f q i c)) =
     ValStream (StreamingResult g t l d u f (max wait 0) inference c)"
| "with_timings wait inference v = v"

definition co_worker_execute ::
  "('h, 'w) asr_transcriber \<Rightarrow> ASRJob \<Rightarrow> rat \<Rightarrow> rat \<Rightarrow> ('h, 'w) Coordinator \<Rightarrow> ('h, 'w) Coordinator" where
  "co_worker_execute T job wait elapsed c =
     (case co_execute_action T job (jb_action job) c of
        (Inl e, d) \<Rightarrow> d\<lparr>co_phase := WorkerDone job (ended_by e)\<rparr>
      | (Inr v, d) \<Rightarrow> d\<lparr>co_phase := WorkerDone job (JobReturned (with_timings wait elapsed v))\<rparr>)"

definition co_cleanup_poisoned ::
  "('h, 'w) asr_transcriber \<Rightarrow> string option \<Rightarrow> (('h, 'w) Coordinator, unit) py_method" where
  "co_cleanup_poisoned T sid = (\<lambda>c.
     case truthy_id sid of
       None \<Rightarrow> (Inr (), c)
     | Some s \<Rightarrow>
         if s \<notin> co_poisoned_sessions c then (Inr (), c)
         else let session = map_of (co_sessions c) s;
                  c1 = c\<lparr>co_sessions := AList.delete s (co_sessions c)\<rparr>
              in py_finally
                   (case session of None \<Rightarrow> py_return ()
                    | Some x \<Rightarrow> py_except_exception (co_abort_session T x) (\<lambda>_. py_return ()))
                   (py_modify (\<lambda>c. c\<lparr>co_poisoned_sessions := co_poisoned_sessions c - {s},
                      co_busy_sessions := co_busy_sessions c - {s},
                      co_active_sessions := co_active_sessions c - {s},
                      co_stream_reservations := co_stream_reservations c - {s}\<rparr>)) c1)"

definition co_release_audio :: "rat \<Rightarrow> ('h, 'w) Coordinator \<Rightarrow> ('h, 'w) Coordinator" where
  "co_release_audio audio_seconds c =
     (if audio_seconds = 0 then c
      else c\<lparr>co_queued_audio_seconds := max 0 (co_queued_audio_seconds c - audio_seconds)\<rparr>)"

definition co_release_session_reservation :: "ASRJob \<Rightarrow> ('h, 'w) Coordinator \<Rightarrow> ('h, 'w) Coordinator" where
  "co_release_session_reservation job c =
     (if jb_holds_session_reservation job then co_discard_busy (jb_session_id job) c else c)"

definition co_release_job :: "ASRJob \<Rightarrow> ('h, 'w) Coordinator \<Rightarrow> ('h, 'w) Coordinator" where
  "co_release_job job c =
     co_release_stream_reservation job
       (co_release_session_reservation job (co_release_audio (jb_audio_seconds job) c))"

definition worker_error :: py_error where
  "worker_error = ASRNotReady ''ASR owner worker stopped unexpectedly''"

text \<open>The futures as the \<open>finally\<close> block completes them.\<close>

fun co_answer :: "job_end \<Rightarrow> job_cell \<Rightarrow> job_cell" where
  "co_answer JobSkipped x = x"
| "co_answer JobShutdown x = x\<lparr>cell_result := fut_set_unless_done (Inr ValNone) (cell_result x)\<rparr>"
| "co_answer (JobReturned v) x = x\<lparr>cell_result := fut_set_unless_done (Inr v) (cell_result x)\<rparr>"
| "co_answer (JobFailed e) x = x\<lparr>cell_started := fut_set_unless_done (Inr ()) (cell_started x),
     cell_result := fut_set_unless_done (Inl e) (cell_result x)\<rparr>"
| "co_answer (JobDied e) x = x\<lparr>cell_started := fut_set_unless_done (Inl worker_error) (cell_started x),
     cell_result := fut_set_unless_done (Inl worker_error) (cell_result x)\<rparr>"

section \<open>The end of the worker\<close>

text \<open>\<open>_cancel_queued_jobs\<close>, on the queue in its order.\<close>

definition co_cancel_queued :: "py_error \<Rightarrow> ASRJob \<Rightarrow> ('h, 'w) Coordinator \<Rightarrow> ('h, 'w) Coordinator" where
  "co_cancel_queued e job c =
     co_release_job job
       (co_reject_unclaimed job e
         (cell_upd (jb_sequence job) (\<lambda>x. x\<lparr>cell_cancelled := True\<rparr>)
           (co_release_queue_slot job (c\<lparr>co_jobs := remove1 job (co_jobs c)\<rparr>))))"

definition co_cancel_queued_jobs :: "py_error \<Rightarrow> ('h, 'w) Coordinator \<Rightarrow> ('h, 'w) Coordinator" where
  "co_cancel_queued_jobs e c =
     fold (co_cancel_queued e) (sort_key (\<lambda>j. (jb_priority j, jb_sequence j)) (co_jobs c)) c"

definition co_clear :: "('h, 'w) Coordinator \<Rightarrow> ('h, 'w) Coordinator" where
  "co_clear c = c\<lparr>co_sessions := [], co_active_sessions := {}, co_stream_reservations := {},
     co_poisoned_sessions := {}, co_busy_sessions := {}, co_batch_pending := False, co_batch_running := False,
     co_queued_audio_seconds := 0, co_queued_business_jobs := 0, co_shutdown_requested := False\<rparr>"

definition co_finalize_worker :: "('h, 'w) asr_transcriber \<Rightarrow> (('h, 'w) Coordinator, unit) py_method" where
  "co_finalize_worker T =
     py_seq (py_modify (\<lambda>c. co_cancel_queued_jobs (ASRNotReady ''ASR owner worker stopped'')
       (c\<lparr>co_accepting := False, co_ready := False, co_worker_loop_active := False\<rparr>)))
     (py_bind (py_read co_sessions) (\<lambda>sessions.
      py_seq (py_for (map snd sessions)
          (\<lambda>x. py_except_exception (co_abort_session T x) (\<lambda>_. py_return ())))
        (py_modify co_clear)))"

text \<open>\<open>_worker_main\<close> after the loop was left: the thread ends whatever \<open>_finalize_worker\<close> does.\<close>

definition co_worker_exit :: "('h, 'w) asr_transcriber \<Rightarrow> ('h, 'w) Coordinator \<Rightarrow> ('h, 'w) Coordinator" where
  "co_worker_exit T c = (snd (co_finalize_worker T (c\<lparr>co_phase := WorkerIdle\<rparr>)))\<lparr>co_phase := WorkerStopped\<rparr>"

text \<open>The head of \<open>_worker_loop\<close>: build the transcriber, warm it up when configured to. An
  \<open>Exception\<close> is recorded as the load error, another \<open>BaseException\<close> ends the worker.\<close>

definition co_boot_failed ::
  "('h, 'w) asr_transcriber \<Rightarrow> py_error \<Rightarrow> ('h, 'w) Coordinator \<Rightarrow> ('h, 'w) Coordinator" where
  "co_boot_failed T e c =
     (if base_exception e then co_worker_exit T c
      else c\<lparr>co_ready := False, co_accepting := False, co_load_error := Some (co_sanitize_error e)\<rparr>)"

definition co_worker_boot :: "('h, 'w) asr_transcriber \<Rightarrow> ('h, 'w) Coordinator \<Rightarrow> ('h, 'w) Coordinator" where
  "co_worker_boot T c =
     (let c = c\<lparr>co_has_transcriber := False, co_warmed := False, co_sessions := [], co_phase := WorkerIdle\<rparr>
      in case on_world (at_factory T) c of
           (Inl e, d) \<Rightarrow> co_boot_failed T e d
         | (Inr _, d) \<Rightarrow>
             let d = d\<lparr>co_has_transcriber := True\<rparr>
             in if \<not> asr_eager_load (co_settings d) then d
                else case on_world (at_warmup T) d of
                    (Inl e, d') \<Rightarrow> co_boot_failed T e d'
                  | (Inr _, d') \<Rightarrow> d'\<lparr>co_warmed := True, co_ready := True\<rparr>)"

text \<open>The \<open>finally\<close> block of the loop body and what follows it.\<close>

definition co_worker_settle ::
  "('h, 'w) asr_transcriber \<Rightarrow> ASRJob \<Rightarrow> job_end \<Rightarrow> ('h, 'w) Coordinator \<Rightarrow> ('h, 'w) Coordinator" where
  "co_worker_settle T job how c =
     (case co_cleanup_poisoned T (jb_session_id job) c of
        (r, d) \<Rightarrow>
          let d = co_release_job job d
          in case r of
               Inl e \<Rightarrow> co_worker_exit T (cell_upd (jb_sequence job) (co_answer (JobDied e)) d)
             | Inr _ \<Rightarrow>
                 let d = cell_upd (jb_sequence job) (co_answer how) d
                 in (case how of
                       JobShutdown \<Rightarrow> co_worker_exit T d
                     | JobDied e \<Rightarrow> co_worker_exit T d
                     | _ \<Rightarrow> d\<lparr>co_phase := WorkerIdle\<rparr>))"

section \<open>Steps\<close>

definition worker_jobs :: "worker_phase \<Rightarrow> ASRJob list" where
  "worker_jobs p = (case p of WorkerTaken j \<Rightarrow> [j] | WorkerClaimed j _ \<Rightarrow> [j] | WorkerDone j _ \<Rightarrow> [j] | _ \<Rightarrow> [])"

lemma worker_jobs_simps [simp]:
  "worker_jobs WorkerStopped = []" "worker_jobs WorkerStarting = []" "worker_jobs WorkerIdle = []"
  "worker_jobs (WorkerTaken j) = [j]" "worker_jobs (WorkerClaimed j w) = [j]" "worker_jobs (WorkerDone j h) = [j]"
  by (simp_all add: worker_jobs_def)

text \<open>The jobs not settled yet: the worker's and the queued ones.\<close>

definition outstanding :: "('h, 'w) Coordinator \<Rightarrow> ASRJob list" where
  "outstanding c = worker_jobs (co_phase c) @ co_jobs c"

text \<open>What \<open>uuid4\<close> provides: an id nothing refers to.\<close>

definition fresh_id :: "string \<Rightarrow> ('h, 'w) Coordinator \<Rightarrow> bool" where
  "fresh_id s c \<longleftrightarrow> s \<noteq> [] \<and> s \<notin> co_stream_reservations c \<and> s \<notin> co_busy_sessions c \<and>
     s \<notin> co_active_sessions c \<and> (\<forall>j \<in> set (outstanding c). jb_session_id j \<noteq> Some s)"

inductive co_step ::
  "('h, 'w) asr_transcriber \<Rightarrow> ('h, 'w) Coordinator \<Rightarrow> ('h, 'w) Coordinator \<Rightarrow> bool"
  for T :: "('h, 'w) asr_transcriber" where
  create: "fresh_id s c \<Longrightarrow> co_step T c (snd (create_stream s language now c))"
| create_chunked: "fresh_id s c \<Longrightarrow> co_step T c (snd (create_chunked_stream s language now c))"
| add: "s \<noteq> [] \<Longrightarrow> co_step T c (snd (co_add_audio s p rate now c))"
| finish: "s \<noteq> [] \<Longrightarrow> co_step T c (snd (finish_stream s now c))"
| segment: "s \<noteq> [] \<Longrightarrow> co_step T c (snd (co_finish_segment s now c))"
| abort: "s \<noteq> [] \<Longrightarrow> co_step T c (snd (abort_stream s now c))"
| chunk: "s \<noteq> [] \<Longrightarrow> 0 \<le> audio \<Longrightarrow> co_step T c (snd (transcribe_stream_chunk s path language audio now c))"
| file_call: "co_step T c (snd (transcribe_file path language now c))"
| file_done: "co_step T c (co_file_done c)"
| queue_timeout: "co_step T c (snd (co_queue_timeout j c))"
| inference_timeout: "co_step T c (snd (co_inference_timeout j c))"
| client_cancelled: "co_step T c (co_client_cancelled j c)"
| cleanup_cancelled: "s \<noteq> [] \<Longrightarrow> co_step T c (snd (co_cleanup_cancelled s now c))"
| start: "co_step T c (co_start c)"
| stop: "co_step T c (snd (co_stop now c))"
| boot: "co_phase c = WorkerStarting \<Longrightarrow> co_step T c (co_worker_boot T c)"
| take_job: "co_phase c = WorkerIdle \<Longrightarrow> co_jobs c \<noteq> [] \<Longrightarrow> co_step T c (co_worker_take c)"
| prepare: "co_phase c = WorkerTaken j \<Longrightarrow> co_step T c (co_worker_prepare T j now1 now2 now3 c)"
| execute: "co_phase c = WorkerClaimed j wait \<Longrightarrow> co_step T c (co_worker_execute T j wait elapsed c)"
| settle: "co_phase c = WorkerDone j how \<Longrightarrow> co_step T c (co_worker_settle T j how c)"

definition co_initial :: "('h, 'w) Coordinator \<Rightarrow> bool" where
  "co_initial c \<longleftrightarrow> (\<exists>settings w. settings_sane settings \<and> c = co_init settings w)"

section \<open>Queue accounting\<close>

definition queue_view ::
  "('h, 'w) Coordinator \<Rightarrow> Settings \<times> worker_phase \<times> ASRJob list \<times> nat \<times> int \<times> bool \<times> rat" where
  "queue_view c = (co_settings c, co_phase c, co_jobs c, co_sequence c, co_queued_business_jobs c,
     co_shutdown_requested c, co_queued_audio_seconds c)"

definition queue_ok :: "Settings \<Rightarrow> ASRJob list \<Rightarrow> ASRJob list \<Rightarrow> nat \<Rightarrow> int \<Rightarrow> bool \<Rightarrow> rat \<Rightarrow> bool" where
  "queue_ok cfg working jobs sequence business shutdown audio \<longleftrightarrow>
     distinct (map jb_sequence (working @ jobs)) \<and>
     (\<forall>j \<in> set (working @ jobs). jb_sequence j < sequence \<and> 0 \<le> jb_audio_seconds j) \<and>
     business = int (length (filter (\<lambda>j. jb_action j \<noteq> Shutdown) jobs)) \<and>
     business \<le> asr_inference_queue_size cfg \<and>
     length (filter (\<lambda>j. jb_action j = Shutdown) (working @ jobs)) \<le> (if shutdown then 1 else 0) \<and>
     audio = sum_list (map jb_audio_seconds (working @ jobs)) \<and>
     audio \<le> asr_max_queued_audio_seconds cfg \<and>
     0 \<le> asr_inference_queue_size cfg \<and> 0 \<le> asr_max_queued_audio_seconds cfg"

definition queue_inv :: "('h, 'w) Coordinator \<Rightarrow> bool" where
  "queue_inv c \<longleftrightarrow> (case queue_view c of (cfg, phase, jobs, sequence, business, shutdown, audio) \<Rightarrow>
     queue_ok cfg (worker_jobs phase) jobs sequence business shutdown audio)"

lemma queue_inv_view: "queue_view d = queue_view c \<Longrightarrow> queue_inv c \<Longrightarrow> queue_inv d"
  by (simp add: queue_inv_def)

lemma queue_view_fields:
  assumes "queue_view d = queue_view c"
  shows "co_phase d = co_phase c" "co_jobs d = co_jobs c" "outstanding d = outstanding c"
  using assms by (simp_all add: queue_view_def outstanding_def)

lemma queue_view_simps [simp]:
  "queue_view (cell_upd n f c) = queue_view c"
  "queue_view (co_release_stream_reservation j c) = queue_view c"
  "queue_view (co_discard_busy sid c) = queue_view c"
  "queue_view (co_poison sid c) = queue_view c"
  "queue_view (co_release_session_reservation j c) = queue_view c"
  "queue_view (co_reject_unclaimed j e c) = queue_view c"
  "queue_view (co_file_done c) = queue_view c"
  by (simp_all add: queue_view_def cell_upd_def co_release_stream_reservation_def co_discard_busy_def co_poison_def
      co_release_session_reservation_def co_reject_unclaimed_def co_file_done_def split: option.split)

lemma queue_view_update [simp]:
  "queue_view (c\<lparr>co_sessions := x\<rparr>) = queue_view c" "queue_view (c\<lparr>co_world := w\<rparr>) = queue_view c"
  "queue_view (c\<lparr>co_poisoned_sessions := p\<rparr>) = queue_view c" "queue_view (c\<lparr>co_busy_sessions := p\<rparr>) = queue_view c"
  "queue_view (c\<lparr>co_active_sessions := p\<rparr>) = queue_view c" "queue_view (c\<lparr>co_stream_reservations := p\<rparr>) = queue_view c"
  "queue_view (c\<lparr>co_batch_pending := b\<rparr>) = queue_view c" "queue_view (c\<lparr>co_batch_running := b\<rparr>) = queue_view c"
  "queue_view (c\<lparr>co_accepting := b\<rparr>) = queue_view c" "queue_view (c\<lparr>co_ready := b\<rparr>) = queue_view c"
  "queue_view (c\<lparr>co_load_error := l\<rparr>) = queue_view c" "queue_view (c\<lparr>co_warmed := b\<rparr>) = queue_view c"
  "queue_view (c\<lparr>co_has_transcriber := b\<rparr>) = queue_view c" "queue_view (c\<lparr>co_worker_loop_active := b\<rparr>) = queue_view c"
  by (simp_all add: queue_view_def)

lemma keeps_on_world: "(\<And>c w. view (c\<lparr>co_world := w\<rparr>) = view c) \<Longrightarrow> keeps view (on_world m)"
  by (auto simp: keeps_def on_world_def split: prod.split)

lemma keeps_queue_view:
  "keeps queue_view (on_world m)" "keeps queue_view (co_reserve_stream sid)"
  "keeps queue_view (py_check f)" "keeps queue_view (co_open_session s j x)" "keeps queue_view (co_forget s)"
  "keeps queue_view (co_claim_file)" "keeps queue_view (co_with_session s g)"
  by (auto simp: keeps_def on_world_def co_reserve_stream_def py_check_def co_open_session_def co_forget_def
      co_claim_file_def co_with_session_def method_defs queue_view_def cell_upd_def
      split: prod.split option.split worker_session.split sum.split)

lemma keeps_except_exception:
  "keeps view m \<Longrightarrow> (\<And>e. keeps view (h e)) \<Longrightarrow> keeps view (py_except_exception m h)"
  unfolding py_except_exception_def by (intro keeps_except keeps_if) simp_all

lemma keeps_abort_session:
  fixes view :: "('h, 'w) Coordinator \<Rightarrow> 'v"
  shows "(\<And>m :: ('w, unit) py_method. keeps view (on_world m)) \<Longrightarrow> keeps view (co_abort_session T x)"
  by (cases x) (simp_all add: co_abort_session_def)

lemma keeps_apply: "(\<And>c. \<exists>m. f c = m c \<and> keeps view m) \<Longrightarrow> keeps view f"
  unfolding keeps_def by metis

lemma keeps_shift: "keeps view m \<Longrightarrow> view (f c) = view c \<Longrightarrow> view (snd (m (f c))) = view c"
  by (simp add: keeps_def)

text \<open>A view that the execution of a job does not touch: it ignores the session tables and the
  transcriber.\<close>

locale execution_blind =
  fixes view :: "('h, 'w) Coordinator \<Rightarrow> 'v"
  assumes world: "view (c\<lparr>co_world := w\<rparr>) = view c"
    and sessions: "view (c\<lparr>co_sessions := x\<rparr>) = view c"
    and active: "view (c\<lparr>co_active_sessions := a\<rparr>) = view c"
    and reservations: "view (c\<lparr>co_stream_reservations := a\<rparr>) = view c"
    and poisoned: "view (c\<lparr>co_poisoned_sessions := a\<rparr>) = view c"
    and busy: "view (c\<lparr>co_busy_sessions := a\<rparr>) = view c"
    and running: "view (c\<lparr>co_batch_running := b\<rparr>) = view c"
    and holds: "view (cell_upd n (\<lambda>x. x\<lparr>cell_holds_stream_reservation := h\<rparr>) c) = view c"
begin

lemma keeps_world: "keeps view (on_world m)"
  by (rule keeps_on_world) (rule world)

lemma keeps_with_session: "keeps view (co_with_session s g)"
  unfolding keeps_def co_with_session_def
  using keeps_world by (auto simp: keeps_def split: option.split worker_session.split)

lemma keeps_open_session: "keeps view (co_open_session s j x)"
  unfolding co_open_session_def by (rule keeps_seq) (simp_all add: holds sessions active)

lemma keeps_forget: "keeps view (co_forget s)"
  unfolding co_forget_def by (simp add: sessions active reservations)

lemma keeps_abort: "keeps view (co_abort_session T x)"
  by (rule keeps_abort_session) (rule keeps_world)

lemma keeps_finish_stream_job: "keeps view (co_finish_stream_job T s)"
proof (rule keeps_apply)
  fix c
  show "\<exists>m. co_finish_stream_job T s c = m c \<and> keeps view m"
  proof (cases "map_of (co_sessions c) s")
    case None
    then show ?thesis
      by (intro exI [of _ "py_raise (KeyError s)"] conjI keeps_simps) (simp add: co_finish_stream_job_def py_raise_def)
  next
    case (Some x)
    show ?thesis
      unfolding co_finish_stream_job_def Some option.case
      by (rule exI, rule conjI, rule refl)
        (intro keeps_rules keeps_except_exception keeps_abort keeps_with_session keeps_forget keeps_simps)
  qed
qed

lemma keeps_abort_stream_job: "keeps view (co_abort_stream_job T s)"
  unfolding keeps_def co_abort_stream_job_def Let_def
proof
  fix c :: "('h, 'w) Coordinator"
  show "view (snd (py_finally (py_seq (case map_of (co_sessions c) s of None \<Rightarrow> py_return () | Some x \<Rightarrow> co_abort_session T x)
      (py_return ValNone)) (co_forget s) (c\<lparr>co_sessions := AList.delete s (co_sessions c)\<rparr>))) = view c"
    by (rule keeps_shift) (auto intro!: keeps_rules keeps_abort keeps_forget simp: sessions split: option.split)
qed

lemma keeps_execute: "keeps view (co_execute_action T j a)"
proof (cases a)
  case (TranscribeFile x y)
  then show ?thesis
    by (auto simp: co_transcribe_file_job_def running intro!: keeps_rules keeps_world)
qed (auto intro!: keeps_rules keeps_world keeps_with_session keeps_open_session keeps_finish_stream_job
    keeps_abort_stream_job)

lemma keeps_cleanup_poisoned: "keeps view (co_cleanup_poisoned T sid)"
  unfolding keeps_def
proof
  fix c :: "('h, 'w) Coordinator"
  have "view (snd (py_finally
       (case map_of (co_sessions c) s of None \<Rightarrow> py_return ()
        | Some x \<Rightarrow> py_except_exception (co_abort_session T x) (\<lambda>_. py_return ()))
       (py_modify (\<lambda>c. c\<lparr>co_poisoned_sessions := co_poisoned_sessions c - {s}, co_busy_sessions := co_busy_sessions c - {s},
          co_active_sessions := co_active_sessions c - {s}, co_stream_reservations := co_stream_reservations c - {s}\<rparr>))
       (c\<lparr>co_sessions := AList.delete s (co_sessions c)\<rparr>))) = view c" for s
    by (rule keeps_shift)
      (auto intro!: keeps_rules keeps_except_exception keeps_abort
        simp: sessions poisoned busy active reservations split: option.split)
  then show "view (snd (co_cleanup_poisoned T sid c)) = view c"
    unfolding co_cleanup_poisoned_def Let_def by (auto split: option.split)
qed

end

interpretation queue_blind: execution_blind queue_view
  by unfold_locales simp_all

lemma keeps_warm: "keeps queue_view (co_warm T)"
  by (auto simp: keeps_def co_warm_def on_world_def queue_view_def split: prod.split sum.split)

lemma queue_inv_phase:
  "queue_inv c \<Longrightarrow> worker_jobs p = worker_jobs (co_phase c) \<Longrightarrow> queue_inv (c\<lparr>co_phase := p\<rparr>)"
  by (simp add: queue_inv_def queue_view_def)

text \<open>Queueing a job, and the admission around it.\<close>

lemma co_refuse_view: "queue_view (snd (co_refuse job m c)) = queue_view c"
  by (simp add: co_refuse_def method_defs)

lemma queue_lengths:
  assumes "queue_inv c"
  shows "int (length (co_jobs c)) \<le> co_queued_business_jobs c + (if co_shutdown_requested c then 1 else 0)"
proof -
  have "length (co_jobs c) = length (filter (\<lambda>j. jb_action j \<noteq> Shutdown) (co_jobs c)) +
      length (filter (\<lambda>j. jb_action j = Shutdown) (co_jobs c))"
    using sum_length_filter_compl [of "\<lambda>j. jb_action j \<noteq> Shutdown" "co_jobs c"] by simp
  moreover have "length (filter (\<lambda>j. jb_action j = Shutdown) (co_jobs c)) \<le> (if co_shutdown_requested c then 1 else 0)"
    using assms by (auto simp: queue_inv_def queue_view_def queue_ok_def)
  ultimately show ?thesis using assms by (auto simp: queue_inv_def queue_view_def queue_ok_def)
qed

lemma co_enqueue_queue:
  assumes inv: "queue_inv c" and "jb_sequence job < co_sequence c" and "0 \<le> jb_audio_seconds job"
    and "jb_action job \<noteq> Shutdown" and "\<forall>j \<in> set (outstanding c). jb_sequence j \<noteq> jb_sequence job"
  shows "queue_inv (snd (co_enqueue job c))"
proof (cases "fst (co_enqueue job c)")
  case (Inl e)
  have "queue_view (snd (co_enqueue job c)) = queue_view c"
  proof -
    have "\<not> co_queue_full c" if "co_queued_business_jobs c < asr_inference_queue_size (co_settings c)"
      using queue_lengths [OF inv] that by (auto simp: co_queue_full_def split: if_splits)
    with Inl show ?thesis
      by (auto simp: co_enqueue_def Let_def co_queue_full_def co_refuse_view split: if_splits)
  qed
  with inv show ?thesis by (rule queue_inv_view [rotated])
next
  case (Inr x)
  then have "snd (co_enqueue job c) = c\<lparr>co_queued_audio_seconds := co_queued_audio_seconds c + jb_audio_seconds job,
      co_queued_business_jobs := co_queued_business_jobs c + 1, co_jobs := co_jobs c @ [job]\<rparr>"
    "co_queued_audio_seconds c + jb_audio_seconds job \<le> asr_max_queued_audio_seconds (co_settings c)"
    "co_queued_business_jobs c < asr_inference_queue_size (co_settings c)"
    by (auto simp: co_enqueue_def Let_def co_refuse_def method_defs split: if_splits)
  with assms show ?thesis
    by (auto simp: queue_inv_def queue_view_def queue_ok_def outstanding_def)
qed

lemma triple_snd:
  assumes "triple P m (\<lambda>_. Q) Q" and "P s"
  shows "Q (snd (m s))"
proof -
  obtain r t where "m s = (r, t)" by (cases "m s")
  with tripleD [OF assms] tripleE [OF assms] show ?thesis by (cases r) auto
qed

definition job_new :: "ASRJob \<Rightarrow> ('h, 'w) Coordinator \<Rightarrow> bool" where
  "job_new job c \<longleftrightarrow> jb_sequence job < co_sequence c \<and>
     (\<forall>j \<in> set (outstanding c). jb_sequence j \<noteq> jb_sequence job)"

lemma job_new_view: "queue_view d = queue_view c \<Longrightarrow> job_new job c \<Longrightarrow> job_new job d"
  by (simp add: job_new_def outstanding_def queue_view_def)

lemma keeps_queue_triple:
  fixes m :: "(('h, 'w) Coordinator, 'a) py_method"
  assumes "keeps queue_view m"
  shows "triple (\<lambda>c. queue_inv c \<and> job_new j c) m (\<lambda>_ c. queue_inv c \<and> job_new j c) queue_inv"
proof (rule triple_intro)
  fix c :: "('h, 'w) Coordinator" assume "queue_inv c \<and> job_new j c"
  with assms show "case m c of (Inl e, t) \<Rightarrow> queue_inv t | (Inr x, t) \<Rightarrow> queue_inv t \<and> job_new j t"
    by (cases "m c"; cases "fst (m c)") (auto dest: keepsD intro: queue_inv_view job_new_view)
qed

lemma outstanding_less: "queue_inv c \<Longrightarrow> j \<in> set (outstanding c) \<Longrightarrow> jb_sequence j < co_sequence c"
  by (auto simp: queue_inv_def queue_view_def queue_ok_def outstanding_def)

lemma queue_inv_sequence: "queue_inv c \<Longrightarrow> queue_inv (c\<lparr>co_sequence := Suc (co_sequence c), co_cells := f\<rparr>)"
  by (auto simp: queue_inv_def queue_view_def queue_ok_def intro: less_SucI)

lemma co_new_job_queue:
  "triple queue_inv (co_new_job a sid p now t audio hs hr)
     (\<lambda>job c. queue_inv c \<and> job_new job c \<and> jb_action job = a \<and> jb_audio_seconds job = audio) queue_inv"
proof (rule triple_intro)
  fix c :: "('a, 'b) Coordinator" assume inv: "queue_inv c"
  have "outstanding (c\<lparr>co_sequence := n, co_cells := f\<rparr>) = outstanding c" for n f by (simp add: outstanding_def)
  then show "case co_new_job a sid p now t audio hs hr c of (Inl e, t) \<Rightarrow> queue_inv t
      | (Inr job, c) \<Rightarrow> queue_inv c \<and> job_new job c \<and> jb_action job = a \<and> jb_audio_seconds job = audio"
    using queue_inv_sequence [OF inv] outstanding_less [OF inv] by (force simp: co_new_job_def job_new_def)
qed

lemma keeps_reserve_session: "keeps queue_view (co_reserve_session sid)"
  unfolding co_reserve_session_def
  by (rule keeps_seq [OF keeps_queue_view(3)]) (auto simp: keeps_def split: option.split)

lemma co_enqueue_triple:
  assumes "0 \<le> jb_audio_seconds job" and "jb_action job \<noteq> Shutdown"
  shows "triple (\<lambda>c. queue_inv c \<and> job_new job c) (co_enqueue job) (\<lambda>_. queue_inv) queue_inv"
proof (rule triple_intro)
  fix c :: "('a, 'b) Coordinator" assume "queue_inv c \<and> job_new job c"
  with assms have "queue_inv (snd (co_enqueue job c))"
    by (intro co_enqueue_queue) (auto simp: job_new_def)
  then show "case co_enqueue job c of (Inl e, t) \<Rightarrow> queue_inv t | (Inr x, t) \<Rightarrow> queue_inv t"
    by (auto split: prod.split sum.split)
qed

lemma co_admit_queue:
  assumes "0 \<le> jb_audio_seconds job" and "jb_action job \<noteq> Shutdown"
  shows "triple (\<lambda>c. queue_inv c \<and> job_new job c) (py_seq (py_check co_require_accepting)
      (py_seq (if hr then co_reserve_stream sid else py_return ())
      (py_seq (if hs then co_reserve_session sid else py_return ()) (co_enqueue job)))) (\<lambda>_. queue_inv) queue_inv"
  by (intro triple_seq [OF keeps_queue_triple] co_enqueue_triple assms keeps_if keeps_queue_view keeps_reserve_session keeps_simps)

lemma triple_const: "(K \<Longrightarrow> triple P m Q E) \<Longrightarrow> triple (\<lambda>s. P s \<and> K) m Q E"
  by (cases K) (simp_all add: triple_def)

lemma co_submit_queue:
  assumes "0 \<le> audio" and "a \<noteq> Shutdown"
  shows "triple queue_inv (co_submit a sid p now t audio hs hr) (\<lambda>_. queue_inv) queue_inv"
  unfolding co_submit_def
proof (rule triple_bind [OF co_new_job_queue])
  fix job
  show "triple (\<lambda>c. queue_inv c \<and> job_new job c \<and> jb_action job = a \<and> jb_audio_seconds job = audio)
     (py_seq (py_check co_require_accepting) (py_seq (if hr then co_reserve_stream sid else py_return ())
       (py_seq (if hs then co_reserve_session sid else py_return ()) (co_enqueue job)))) (\<lambda>_. queue_inv) queue_inv"
    by (rule triple_pre [OF _ triple_const [OF co_admit_queue, of "jb_action job = a \<and> jb_audio_seconds job = audio"]])
      (use assms in auto)
qed

lemma co_stream_job_queue:
  "0 \<le> audio \<Longrightarrow> a \<noteq> Shutdown \<Longrightarrow> triple queue_inv (co_stream_job a s now audio hs hr) (\<lambda>_. queue_inv) queue_inv"
  unfolding co_stream_job_def
  by (rule triple_bind_read, rule triple_pre [OF _ co_submit_queue]) simp_all

lemma abort_stream_queue: "triple queue_inv (abort_stream s now) (\<lambda>_. queue_inv) queue_inv"
proof (rule triple_intro)
  fix c :: "('a, 'b) Coordinator" assume inv: "queue_inv c"
  have "queue_inv (snd (co_stream_job (AbortStream s) s now 0 True False c))"
    by (rule triple_snd [OF co_stream_job_queue inv]) simp_all
  with inv show "case abort_stream s now c of (Inl e, t) \<Rightarrow> queue_inv t | (Inr x, t) \<Rightarrow> queue_inv t"
    by (auto simp: abort_stream_def intro: queue_inv_view split: prod.split sum.split py_error.split)
qed

lemma transcribe_file_queue: "triple queue_inv (transcribe_file path language now) (\<lambda>_. queue_inv) queue_inv"
  unfolding transcribe_file_def
proof (rule triple_seq [where R = queue_inv])
  show "triple queue_inv co_claim_file (\<lambda>_. queue_inv) queue_inv"
    by (rule triple_intro) (auto split: prod.split sum.split dest: keepsD [OF keeps_queue_view(6)] intro: queue_inv_view)
  show "triple queue_inv (py_bind (py_read stream_timeout) (\<lambda>timeout.
       py_except (co_submit (TranscribeFile path language) None 10 now timeout 0 False False)
         (\<lambda>e. py_seq (py_modify co_file_done) (py_raise e)))) (\<lambda>_. queue_inv) queue_inv"
    by (rule triple_bind_read, rule triple_except [where R = queue_inv], rule triple_pre [OF _ co_submit_queue])
      (auto intro!: triple_seq [where R = queue_inv] simp: queue_inv_view [OF queue_view_simps(7)])
qed

text \<open>Settling a job takes it out of the sums.\<close>

lemma co_release_job_view:
  "queue_view (co_release_job j c) = queue_view (co_release_audio (jb_audio_seconds j) c)"
  by (simp add: co_release_job_def)

lemma co_release_audio_queue:
  assumes "queue_inv c" and "worker_jobs (co_phase c) = [j]"
  shows "queue_inv ((co_release_audio (jb_audio_seconds j) c)\<lparr>co_phase := WorkerIdle\<rparr>)"
proof -
  have "0 \<le> sum_list (map jb_audio_seconds (co_jobs c))"
    using assms(1) by (intro sum_list_nonneg) (auto simp: queue_inv_def queue_view_def queue_ok_def)
  with assms show ?thesis
    by (auto simp: co_release_audio_def queue_inv_def queue_view_def queue_ok_def split: if_splits)
qed

lemma take_out_queue:
  assumes inv: "queue_inv c" and idle: "worker_jobs (co_phase c) = []" and mem: "job \<in> set (co_jobs c)"
  shows "queue_inv (co_release_queue_slot job (c\<lparr>co_jobs := remove1 job (co_jobs c), co_phase := WorkerTaken job\<rparr>))"
proof -
  have "mset (map jb_sequence (job # remove1 job (co_jobs c))) = mset (map jb_sequence (co_jobs c))"
    using mem by (simp flip: image_mset_add_mset)
  then have seq: "distinct (map jb_sequence (job # remove1 job (co_jobs c)))"
    by (rule mset_eq_imp_distinct_iff [THEN iffD2])
      (use inv in \<open>auto simp: queue_inv_def queue_view_def queue_ok_def idle\<close>)
  have len: "int (length (filter P (remove1 job (co_jobs c)))) = int (length (filter P (co_jobs c))) - (if P job then 1 else 0)" for P
  proof -
    have "length (filter P (co_jobs c)) \<noteq> 0" if "P job" using mem that by (auto simp: filter_empty_conv)
    then show ?thesis using mem by (auto simp: filter_remove1 length_remove1 of_nat_diff Suc_le_eq)
  qed
  have aud: "sum_list (map jb_audio_seconds (remove1 job (co_jobs c))) =
      sum_list (map jb_audio_seconds (co_jobs c)) - jb_audio_seconds job"
    using mem by (simp add: sum_list_map_remove1)
  have len1: "length (filter P (job # remove1 job (co_jobs c))) = length (filter P (co_jobs c))" for P
    using len [of P] by (auto split: if_splits)
  have "filter (\<lambda>j. jb_action j = Shutdown) (remove1 job (co_jobs c)) = []" if "jb_action job = Shutdown"
  proof -
    have "length (filter (\<lambda>j. jb_action j = Shutdown) (co_jobs c)) \<le> 1"
      using inv by (auto simp: queue_inv_def queue_view_def queue_ok_def idle split: if_splits)
    moreover have "Suc (length (filter (\<lambda>j. jb_action j = Shutdown) (remove1 job (co_jobs c)))) =
        length (filter (\<lambda>j. jb_action j = Shutdown) (co_jobs c))"
      using len1 [of "\<lambda>j. jb_action j = Shutdown"] that by simp
    ultimately have "length (filter (\<lambda>j. jb_action j = Shutdown) (remove1 job (co_jobs c))) = 0" by linarith
    then show ?thesis by simp
  qed
  note one = this
  from inv mem seq len [of "\<lambda>j. jb_action j \<noteq> Shutdown"] len1 [of "\<lambda>j. jb_action j = Shutdown"] one aud idle show ?thesis
    by (auto simp: co_release_queue_slot_def queue_inv_def queue_view_def queue_ok_def
        dest: notin_set_remove1 split: if_splits)
qed

lemma co_worker_take_queue:
  assumes "queue_inv c" and "co_phase c = WorkerIdle" and "co_jobs c \<noteq> []"
  shows "queue_inv (co_worker_take c)"
  unfolding co_worker_take_def Let_def
  by (rule take_out_queue) (use assms in \<open>simp_all add: next_job_def arg_min_list_in\<close>)

lemma co_cancel_queued_queue:
  assumes "queue_inv c" and "co_phase c = WorkerIdle" and "job \<in> set (co_jobs c)"
  shows "queue_inv (co_cancel_queued e job c)" and "co_phase (co_cancel_queued e job c) = WorkerIdle"
    and "co_jobs (co_cancel_queued e job c) = remove1 job (co_jobs c)"
proof -
  let ?t = "co_release_queue_slot job (c\<lparr>co_jobs := remove1 job (co_jobs c), co_phase := WorkerTaken job\<rparr>)"
  have "queue_inv ?t" using assms by (intro take_out_queue) simp_all
  moreover have "worker_jobs (co_phase ?t) = [job]" by (simp add: co_release_queue_slot_def)
  ultimately have "queue_inv ((co_release_audio (jb_audio_seconds job) ?t)\<lparr>co_phase := WorkerIdle\<rparr>)"
    by (rule co_release_audio_queue)
  moreover have "queue_view (co_cancel_queued e job c) =
      queue_view ((co_release_audio (jb_audio_seconds job) ?t)\<lparr>co_phase := WorkerIdle\<rparr>)"
    using assms(2) by (simp add: co_cancel_queued_def co_release_job_view)
      (simp add: co_release_audio_def co_release_queue_slot_def queue_view_def co_reject_unclaimed_def cell_upd_def)
  ultimately show "queue_inv (co_cancel_queued e job c)" by (rule queue_inv_view [rotated])
  from \<open>queue_view _ = _\<close> show "co_phase (co_cancel_queued e job c) = WorkerIdle"
    "co_jobs (co_cancel_queued e job c) = remove1 job (co_jobs c)"
    by (auto simp: queue_view_def co_release_audio_def co_release_queue_slot_def split: if_splits)
qed

lemma cancel_fold_queue:
  assumes "queue_inv c" and "co_phase c = WorkerIdle" and "mset xs = mset (co_jobs c)"
  shows "queue_inv (fold (co_cancel_queued e) xs c) \<and> co_phase (fold (co_cancel_queued e) xs c) = WorkerIdle \<and>
     co_jobs (fold (co_cancel_queued e) xs c) = []"
  using assms
proof (induction xs arbitrary: c)
  case (Cons x xs)
  have mem: "x \<in> set (co_jobs c)" using mset_eq_setD [OF Cons.prems(3)] by auto
  note step = co_cancel_queued_queue [OF Cons.prems(1,2) mem, of e]
  have "mset xs = mset (co_jobs (co_cancel_queued e x c))"
    unfolding step(3) using Cons.prems(3) by (simp flip: Cons.prems(3))
  from Cons.IH [OF step(1,2) this] show ?case by simp
qed simp

lemma drained_queue:
  assumes "queue_inv c" and "co_phase c = WorkerIdle"
  shows "queue_inv (co_cancel_queued_jobs e c) \<and> co_phase (co_cancel_queued_jobs e c) = WorkerIdle \<and>
     co_jobs (co_cancel_queued_jobs e c) = []"
  unfolding co_cancel_queued_jobs_def by (rule cancel_fold_queue [OF assms]) simp

lemma co_clear_queue: "queue_inv c \<Longrightarrow> co_jobs c = [] \<Longrightarrow> co_phase c = WorkerIdle \<Longrightarrow> queue_inv (co_clear c)"
  by (auto simp: queue_inv_def queue_view_def queue_ok_def co_clear_def)

lemma keeps_abort_all:
  "(\<And>m :: ('w, unit) py_method. keeps view (on_world m)) \<Longrightarrow>
   keeps view (py_for xs (\<lambda>x. py_except_exception (co_abort_session T x) (\<lambda>_. py_return ())))"
  for view :: "('h, 'w) Coordinator \<Rightarrow> 'v"
  by (intro keeps_for keeps_except_exception keeps_abort_session) simp_all

lemma co_finalize_queue:
  assumes "queue_inv c" and "co_phase c = WorkerIdle"
  shows "queue_inv (snd (co_finalize_worker T c)) \<and> co_phase (snd (co_finalize_worker T c)) = WorkerIdle \<and>
     co_jobs (snd (co_finalize_worker T c)) = []"
proof -
  let ?d = "co_cancel_queued_jobs (ASRNotReady ''ASR owner worker stopped'')
       (c\<lparr>co_accepting := False, co_ready := False, co_worker_loop_active := False\<rparr>)"
  let ?abort = "py_for (map snd (co_sessions ?d)) (\<lambda>x. py_except_exception (co_abort_session T x) (\<lambda>_. py_return ()))"
  have d: "queue_inv ?d" "co_phase ?d = WorkerIdle" "co_jobs ?d = []"
    using drained_queue [of "c\<lparr>co_accepting := False, co_ready := False, co_worker_loop_active := False\<rparr>"] assms
    by (simp_all add: queue_inv_def)
  have "keeps queue_view ?abort" by (intro keeps_abort_all keeps_queue_view)
  then have "queue_view (snd (?abort ?d)) = queue_view ?d" by (simp add: keeps_def)
  note v = this
  have f: "queue_inv (snd (?abort ?d))" "co_phase (snd (?abort ?d)) = WorkerIdle" "co_jobs (snd (?abort ?d)) = []"
    using d queue_inv_view [OF v] queue_view_fields [OF v] by simp_all
  have "snd (co_finalize_worker T c) = snd (?abort ?d) \<or> snd (co_finalize_worker T c) = co_clear (snd (?abort ?d))"
    by (auto simp: co_finalize_worker_def method_defs split: prod.split sum.split)
  with f co_clear_queue [OF f(1,3,2)] show ?thesis by (auto simp: co_clear_def)
qed

lemma co_worker_exit_queue:
  "queue_inv (c\<lparr>co_phase := WorkerIdle\<rparr>) \<Longrightarrow> queue_inv (co_worker_exit T c)"
  unfolding co_worker_exit_def using co_finalize_queue [of "c\<lparr>co_phase := WorkerIdle\<rparr>" T]
  by (intro queue_inv_phase) simp_all

lemma co_worker_prepare_queue:
  assumes "queue_inv c" and "co_phase c = WorkerTaken j"
  shows "queue_inv (co_worker_prepare T j n1 n2 n3 c)"
proof -
  have phase: "queue_inv (d\<lparr>co_phase := p\<rparr>)" if "queue_view d = queue_view c" "worker_jobs p = [j]" for d p
    using that assms by (intro queue_inv_phase) (auto intro: queue_inv_view simp: queue_view_fields [OF that(1)])
  have warm: "queue_view d = queue_view c" if "co_warm T c = (r, d)" for r d
    using keepsD [OF keeps_warm that] .
  have expired: "queue_view e = queue_view d" if "co_expired_before_start j n d = Some e" for n d e
    using that by (auto simp: co_expired_before_start_def split: if_splits)
  have claim: "queue_view (snd (co_claim_job j d)) = queue_view d" for d
    by (auto simp: co_claim_job_def Let_def split: prod.split)
  show ?thesis
    unfolding co_worker_prepare_def
    by (auto split: option.split prod.split sum.split bool.split dest!: expired warm intro!: phase)
      (metis claim snd_conv)+
qed

lemma co_worker_execute_queue:
  assumes "queue_inv c" and "co_phase c = WorkerClaimed j w"
  shows "queue_inv (co_worker_execute T j w e c)"
proof -
  obtain r d where rd: "co_execute_action T j (jb_action j) c = (r, d)" by (cases "co_execute_action T j (jb_action j) c")
  note view = keepsD [OF queue_blind.keeps_execute rd]
  have "queue_inv (d\<lparr>co_phase := WorkerDone j how\<rparr>)" for how
    using view assms by (intro queue_inv_phase) (auto intro: queue_inv_view simp: queue_view_fields [OF view])
  with rd show ?thesis by (simp add: co_worker_execute_def split: sum.split)
qed

text \<open>A stopped coordinator takes no work: it is not accepting and its queue is empty.\<close>

definition stopped_inv :: "('h, 'w) Coordinator \<Rightarrow> bool" where
  "stopped_inv c \<longleftrightarrow> (co_phase c = WorkerStopped \<longrightarrow> \<not> co_accepting c \<and> co_jobs c = [])"

definition control_view :: "('h, 'w) Coordinator \<Rightarrow> worker_phase \<times> bool" where
  "control_view c = (co_phase c, co_accepting c)"

lemma keeps_control_submit: "keeps control_view (co_submit a sid p now t audio hs hr)"
proof -
  have r: "control_view (snd (co_refuse j m c)) = control_view c" for j m and c :: "('x, 'y) Coordinator"
    by (simp add: co_refuse_def method_defs control_view_def co_release_stream_reservation_def co_discard_busy_def
        cell_upd_def split: option.split)
  have "keeps control_view (co_enqueue j)" for j
    by (auto simp: keeps_def co_enqueue_def Let_def r) (simp_all add: control_view_def)
  then show ?thesis
    unfolding co_submit_def co_reserve_session_def
    by (intro keeps_rules)
      (auto simp: keeps_def co_new_job_def py_check_def co_reserve_stream_def py_return_def control_view_def split: option.split)
qed

lemma submit_refused:
  "\<not> co_accepting c \<Longrightarrow> co_jobs (snd (co_submit a sid p now t audio hs hr c)) = co_jobs c"
  by (simp add: co_submit_def co_new_job_def py_check_def co_require_accepting_def method_defs)

lemma co_submit_stopped: "stopped_inv c \<Longrightarrow> stopped_inv (snd (co_submit a sid p now t audio hs hr c))"
  using keepsD [OF keeps_control_submit surjective_pairing, of a sid p now t audio hs hr c]
    submit_refused [of c a sid p now t audio hs hr]
  by (auto simp: control_view_def stopped_inv_def)

lemma co_stream_job_stopped: "stopped_inv c \<Longrightarrow> stopped_inv (snd (co_stream_job a s now audio hs hr c))"
  by (simp add: co_stream_job_def method_defs co_submit_stopped)

lemma stopped_inv_fields:
  "stopped_inv c \<Longrightarrow> co_phase d = co_phase c \<Longrightarrow> co_accepting d = co_accepting c \<Longrightarrow> co_jobs d = co_jobs c \<Longrightarrow> stopped_inv d"
  by (simp add: stopped_inv_def)

lemma abort_stream_stopped: "stopped_inv c \<Longrightarrow> stopped_inv (snd (abort_stream s now c))"
proof -
  assume inv: "stopped_inv c"
  note job = co_stream_job_stopped [OF inv, of "AbortStream s" s now 0 True False]
  from inv job show ?thesis
    by (auto simp: abort_stream_def split: prod.split sum.split py_error.split) (auto simp: stopped_inv_def)
qed

lemma transcribe_file_stopped: "stopped_inv c \<Longrightarrow> stopped_inv (snd (transcribe_file path language now c))"
proof -
  assume inv: "stopped_inv c"
  obtain r d where rd: "co_claim_file c = (r, d)" by (cases "co_claim_file c")
  then have d: "stopped_inv d"
    using inv by (auto simp: co_claim_file_def py_check_def method_defs stopped_inv_def split: sum.splits if_splits)
  let ?submit = "co_submit (TranscribeFile path language) None 10 now (stream_timeout d) 0 False False d"
  obtain q e where qe: "?submit = (q, e)" by (cases ?submit)
  with co_submit_stopped [OF d] have e: "stopped_inv e" by (metis snd_conv)
  then have "stopped_inv (co_file_done e)" by (simp add: stopped_inv_def co_file_done_def)
  with rd qe d e show ?thesis
    by (cases r; cases q) (simp_all add: transcribe_file_def method_defs)
qed

lemma co_cancel_queued_accepting: "co_accepting (fold (co_cancel_queued e) xs c) = co_accepting c"
  by (induction xs arbitrary: c)
    (simp_all add: co_cancel_queued_def co_release_job_def co_release_stream_reservation_def co_release_session_reservation_def
      co_discard_busy_def co_release_audio_def co_reject_unclaimed_def cell_upd_def co_release_queue_slot_def split: option.split)

lemma co_worker_exit_stopped:
  assumes "queue_inv (c\<lparr>co_phase := WorkerIdle\<rparr>)"
  shows "stopped_inv (co_worker_exit T c)"
proof -
  let ?c = "c\<lparr>co_phase := WorkerIdle\<rparr>"
  let ?d = "co_cancel_queued_jobs (ASRNotReady ''ASR owner worker stopped'')
       (?c\<lparr>co_accepting := False, co_ready := False, co_worker_loop_active := False\<rparr>)"
  let ?abort = "py_for (map snd (co_sessions ?d)) (\<lambda>x. py_except_exception (co_abort_session T x) (\<lambda>_. py_return ()))"
  have "\<not> co_accepting ?d" by (simp add: co_cancel_queued_jobs_def co_cancel_queued_accepting)
  moreover have "keeps co_accepting ?abort" by (intro keeps_abort_all keeps_on_world) simp
  then have "co_accepting (snd (?abort ?d)) = co_accepting ?d" by (simp add: keeps_def)
  moreover have "snd (co_finalize_worker T ?c) = snd (?abort ?d) \<or> snd (co_finalize_worker T ?c) = co_clear (snd (?abort ?d))"
    by (auto simp: co_finalize_worker_def method_defs split: prod.split sum.split)
  ultimately have "\<not> co_accepting (snd (co_finalize_worker T ?c))" by (auto simp: co_clear_def)
  with co_finalize_queue [OF assms, of T] show ?thesis by (simp add: co_worker_exit_def stopped_inv_def)
qed

lemma running_stopped_inv: "co_phase c \<noteq> WorkerStopped \<Longrightarrow> stopped_inv c"
  by (simp add: stopped_inv_def)

lemma idle_stopped_inv: "stopped_inv (c\<lparr>co_phase := WorkerIdle\<rparr>)"
  by (simp add: stopped_inv_def)

lemma co_worker_settle_queue:
  assumes "queue_inv c" and "co_phase c = WorkerDone j how"
  shows "queue_inv (co_worker_settle T j how c)" and "stopped_inv (co_worker_settle T j how c)"
proof -
  obtain r d where rd: "co_cleanup_poisoned T (jb_session_id j) c = (r, d)"
    by (cases "co_cleanup_poisoned T (jb_session_id j) c")
  note view = keepsD [OF queue_blind.keeps_cleanup_poisoned rd]
  have idle: "queue_inv ((cell_upd n f (co_release_job j d))\<lparr>co_phase := WorkerIdle\<rparr>)" for n f
  proof -
    have "queue_inv ((co_release_audio (jb_audio_seconds j) d)\<lparr>co_phase := WorkerIdle\<rparr>)"
      using view assms by (intro co_release_audio_queue) (auto intro: queue_inv_view simp: queue_view_fields [OF view])
    then show ?thesis
      by (rule queue_inv_view [rotated])
        (simp add: co_release_job_def co_release_audio_def queue_view_def cell_upd_def co_release_stream_reservation_def
          co_release_session_reservation_def co_discard_busy_def split: option.split)
  qed
  show "queue_inv (co_worker_settle T j how c)"
    unfolding co_worker_settle_def rd Let_def
    by (auto split: sum.split job_end.split intro!: co_worker_exit_queue idle)
  show "stopped_inv (co_worker_settle T j how c)"
    unfolding co_worker_settle_def rd Let_def
    by (auto split: sum.split job_end.split intro!: co_worker_exit_stopped idle_stopped_inv idle)
qed

lemma co_worker_boot_queue:
  assumes "queue_inv c" and "co_phase c = WorkerStarting"
  shows "queue_inv (co_worker_boot T c)" and "stopped_inv (co_worker_boot T c)"
proof -
  let ?c = "c\<lparr>co_has_transcriber := False, co_warmed := False, co_sessions := [], co_phase := WorkerIdle\<rparr>"
  have c: "queue_inv ?c" using assms by (simp add: queue_inv_def queue_view_def)
  have failed: "queue_inv (co_boot_failed T e d)" "stopped_inv (co_boot_failed T e d)"
    if "queue_view d = queue_view ?c" for e d
  proof -
    have idle: "co_phase d = WorkerIdle" "queue_inv d"
      using queue_view_fields(1) [OF that] queue_inv_view [OF that c] by simp_all
    then have "queue_inv (d\<lparr>co_phase := WorkerIdle\<rparr>)" by (intro queue_inv_phase) simp_all
    note exit = co_worker_exit_queue [OF this] co_worker_exit_stopped [OF this]
    show "queue_inv (co_boot_failed T e d)"
      using idle exit by (auto simp: co_boot_failed_def intro: queue_inv_view)
    show "stopped_inv (co_boot_failed T e d)"
      using idle exit by (simp add: co_boot_failed_def) (simp add: stopped_inv_def)
  qed
  have w: "queue_view d' = queue_view d" if "on_world m d = (r, d')"
    for m :: "('b, unit) py_method" and d :: "('a, 'b) Coordinator" and r d'
    using keepsD [OF keeps_queue_view(1) that] .
  have live: "stopped_inv d" if "queue_view d = queue_view ?c" for d
    using queue_view_fields(1) [OF that] by (simp add: stopped_inv_def)
  show "queue_inv (co_worker_boot T c)"
    unfolding co_worker_boot_def Let_def
    using c by (auto split: prod.split sum.split dest!: w intro!: failed intro: queue_inv_view)
  show "stopped_inv (co_worker_boot T c)"
    unfolding co_worker_boot_def Let_def
    by (auto split: prod.split sum.split dest!: w intro!: failed(2)) (auto intro!: live)
qed

lemma co_stop_queue:
  assumes "queue_inv c"
  shows "queue_inv (snd (co_stop now c))" and "isOk (fst (co_stop now c))"
proof -
  have "\<not> co_queue_full c" if "\<not> co_shutdown_requested c"
    using queue_lengths [OF assms] assms that
    by (auto simp: co_queue_full_def queue_inv_def queue_view_def queue_ok_def)
  then show "isOk (fst (co_stop now c))"
    by (auto simp: co_stop_def Let_def co_new_job_def co_queue_full_def)
  show "queue_inv (snd (co_stop now c))"
    using assms outstanding_less [OF assms]
    by (auto simp: co_stop_def Let_def co_new_job_def queue_inv_def queue_view_def queue_ok_def outstanding_def
        intro: less_SucI dest: less_not_refl2)
qed

lemma co_withdraw_view: "queue_view (snd (co_withdraw j c)) = queue_view c"
  by (auto simp: co_withdraw_def Let_def split: prod.split)

lemma withdrawn_views:
  "queue_view (snd (co_queue_timeout j c)) = queue_view c" "queue_view (co_client_cancelled j c) = queue_view c"
  "queue_view (snd (co_inference_timeout j c)) = queue_view c"
  using co_withdraw_view [of j c]
  by (auto simp: co_queue_timeout_def co_client_cancelled_def co_inference_timeout_def split: prod.split bool.split)

lemma cleanup_cancelled_queue: "queue_inv c \<Longrightarrow> queue_inv (snd (co_cleanup_cancelled s now c))"
proof -
  assume inv: "queue_inv c"
  then have "queue_inv (c\<lparr>co_poisoned_sessions := co_poisoned_sessions c - {s}\<rparr>)" by (auto intro: queue_inv_view)
  from triple_snd [OF abort_stream_queue this, of s now] inv show ?thesis
    by (auto simp: co_cleanup_cancelled_def split: prod.split sum.split intro: queue_inv_view)
qed

lemma co_client_queue:
  assumes "queue_inv c" and "0 \<le> audio" and "a \<noteq> Shutdown"
  shows "queue_inv (snd (co_stream_job a s now audio hs hr c))"
  by (rule triple_snd [OF co_stream_job_queue]) (use assms in auto)

lemma queue_inv_waits:
  "queue_inv (snd (co_queue_timeout j c)) = queue_inv c" "queue_inv (co_client_cancelled j c) = queue_inv c"
  "queue_inv (snd (co_inference_timeout j c)) = queue_inv c" "queue_inv (co_file_done c) = queue_inv c"
  by (simp_all add: queue_inv_def withdrawn_views)

lemma co_step_queue:
  assumes "co_step T c d" and "queue_inv c" and "stopped_inv c"
  shows "queue_inv d"
  using assms
proof (induction rule: co_step.induct)
  case (chunk s audio c path language now)
  then show ?case by (simp add: transcribe_stream_chunk_def co_client_queue)
next
  case (file_call c path language now)
  then show ?case by (intro triple_snd [OF transcribe_file_queue])
next
  case (abort s c now)
  then show ?case by (intro triple_snd [OF abort_stream_queue])
next
  case (start c)
  then show ?case by (auto simp: co_start_def worker_alive_def queue_inv_def queue_view_def queue_ok_def stopped_inv_def)
qed (simp_all add: create_stream_def create_chunked_stream_def co_add_audio_def finish_stream_def co_finish_segment_def
    co_client_queue co_worker_prepare_queue co_worker_execute_queue co_worker_settle_queue co_worker_boot_queue
    co_worker_take_queue co_stop_queue cleanup_cancelled_queue queue_inv_waits)

lemma co_init_queue: "co_initial c \<Longrightarrow> queue_inv c"
  by (auto simp: co_initial_def co_init_def queue_inv_def queue_view_def queue_ok_def settings_sane_def
      stream_fields_ok_def gt_le_def)

lemma stopped_inv_waits:
  "stopped_inv (snd (co_queue_timeout j c)) = stopped_inv c" "stopped_inv (co_client_cancelled j c) = stopped_inv c"
  "stopped_inv (snd (co_inference_timeout j c)) = stopped_inv c" "stopped_inv (co_file_done c) = stopped_inv c"
  by (auto simp: stopped_inv_def co_queue_timeout_def co_client_cancelled_def co_inference_timeout_def co_file_done_def
      co_withdraw_def co_poison_def cell_upd_def Let_def split: prod.split option.split)

lemma cleanup_cancelled_stopped: "stopped_inv c \<Longrightarrow> stopped_inv (snd (co_cleanup_cancelled s now c))"
proof -
  assume inv: "stopped_inv c"
  then have "stopped_inv (c\<lparr>co_poisoned_sessions := co_poisoned_sessions c - {s}\<rparr>)" by (simp add: stopped_inv_def)
  from abort_stream_stopped [OF this, of s now] inv show ?thesis
    by (auto simp: co_cleanup_cancelled_def split: prod.split sum.split) (auto simp: stopped_inv_def)
qed

lemma worker_phases:
  "co_phase (co_worker_take c) \<noteq> WorkerStopped" "co_phase (co_worker_prepare T j n1 n2 n3 c) \<noteq> WorkerStopped"
  "co_phase (co_worker_execute T j w e c) \<noteq> WorkerStopped"
  by (auto simp: co_worker_take_def Let_def co_release_queue_slot_def co_worker_prepare_def co_worker_execute_def
      split: option.split prod.split sum.split bool.split)

lemma co_step_stopped:
  assumes "co_step T c d" and "queue_inv c" and "stopped_inv c"
  shows "stopped_inv d"
  using assms
proof (induction rule: co_step.induct)
  case (stop c now)
  then show ?case by (auto simp: co_stop_def Let_def co_new_job_def stopped_inv_def worker_alive_def)
next
  case (start c)
  then show ?case by (auto simp: co_start_def stopped_inv_def worker_alive_def)
qed (simp_all add: create_stream_def create_chunked_stream_def co_add_audio_def finish_stream_def co_finish_segment_def
    transcribe_stream_chunk_def co_stream_job_stopped transcribe_file_stopped abort_stream_stopped stopped_inv_waits
    cleanup_cancelled_stopped co_worker_settle_queue co_worker_boot_queue running_stopped_inv worker_phases)

interpretation coordinator: step_system co_initial "co_step T" "\<lambda>c. queue_inv c \<and> stopped_inv c" for T
proof unfold_locales
  fix c :: "('a, 'b) Coordinator"
  assume "co_initial c"
  then show "queue_inv c \<and> stopped_inv c"
    by (simp add: co_init_queue) (auto simp: co_initial_def co_init_def stopped_inv_def)
next
  fix c d :: "('a, 'b) Coordinator"
  assume "queue_inv c \<and> stopped_inv c" and "co_step T c d"
  then show "queue_inv d \<and> stopped_inv d" by (blast intro: co_step_queue co_step_stopped)
qed

text \<open>C8: in every state the coordinator can reach, whatever the clients call, cancel or time out and
  the transcriber answers or raises: the queue never outgrows its bound, the two counters are
  exactly the queued jobs and the audio not settled yet and stay within their limits, and the
  slot reserved for the shutdown job is always free, so \<open>stop\<close> never fails for want of it.\<close>

theorem coordinator_admission_bounded:
  assumes "reach_from co_initial (co_step T) c"
  shows "int (length (co_jobs c)) \<le> asr_inference_queue_size (co_settings c) + 1 \<and>
     co_queued_business_jobs c = int (length (filter (\<lambda>j. jb_action j \<noteq> Shutdown) (co_jobs c))) \<and>
     co_queued_business_jobs c \<le> asr_inference_queue_size (co_settings c) \<and>
     co_queued_audio_seconds c = sum_list (map jb_audio_seconds (outstanding c)) \<and>
     co_queued_audio_seconds c \<le> asr_max_queued_audio_seconds (co_settings c) \<and>
     isOk (fst (co_stop now c))"
proof -
  have inv: "queue_inv c" using coordinator.reach_inv [OF assms] by simp
  note len = queue_lengths [OF inv] and stop = co_stop_queue(2) [OF inv]
  from inv len stop show ?thesis
    by (auto simp: queue_inv_def queue_view_def queue_ok_def outstanding_def split: if_splits)
qed

section \<open>A concrete coordinator\<close>

text \<open>The mock transcriber of \<open>asr.py\<close>: a session handle is its position among the sessions created.\<close>

definition mock_session :: "(MockASRStreamingSession, 'a) py_method \<Rightarrow> nat \<Rightarrow> (MockASRStreamingSession list, 'a) py_method" where
  "mock_session m h = (\<lambda>w. if h < length w then (case m (w ! h) of (r, s) \<Rightarrow> (r, w[h := s]))
     else (Inl (KeyError ''session''), w))"

definition mock_asr :: "(nat, MockASRStreamingSession list) asr_transcriber" where
  "mock_asr = \<lparr>at_factory = py_return (), at_warmup = py_return (),
     at_transcribe = (\<lambda>path language w. (mock_transcribe path language, w)),
     at_create_streaming_session = (\<lambda>language w. (Inr (length w), w @ [mk_init language])),
     at_add_pcm_s16le = (\<lambda>h p rate. mock_session (mk_add_pcm_s16le p rate) h),
     at_finish = mock_session mk_finish, at_finish_segment = mock_session mk_finish_segment,
     at_abort = mock_session mk_abort\<rparr>"

definition example_booted :: "(nat, MockASRStreamingSession list) Coordinator" where
  "example_booted = co_worker_boot mock_asr (co_start (co_init example_settings []))"

definition example_loaded :: "(nat, MockASRStreamingSession list) Coordinator" where
  "example_loaded = snd (create_stream ''a'' None 0 example_booted)"

lemma example_booted_reachable: "reach_from co_initial (co_step mock_asr) example_booted"
  unfolding example_booted_def
proof (rule reach_step [OF reach_step [OF reach_init]])
  show "co_initial (co_init example_settings [])"
    unfolding co_initial_def using validate_settings_sane [OF example_settings_valid] by blast
  show "co_step mock_asr (co_init example_settings []) (co_start (co_init example_settings []))" by (rule co_step.start)
  show "co_step mock_asr (co_start (co_init example_settings [])) (co_worker_boot mock_asr (co_start (co_init example_settings [])))"
    by (rule co_step.boot) (simp add: co_start_def worker_alive_def co_init_def)
qed

lemmas example_coordinator_defs =
  example_loaded_def example_booted_def co_worker_boot_def co_start_def worker_alive_def co_init_def on_world_def
  mock_asr_def method_defs create_stream_def co_stream_job_def co_submit_def co_new_job_def py_check_def
  co_require_accepting_def co_reserve_stream_def co_enqueue_def co_queue_full_def example_settings_def

lemma example_loaded_reachable: "reach_from co_initial (co_step mock_asr) example_loaded"
  unfolding example_loaded_def
  by (rule reach_step [OF example_booted_reachable co_step.create])
    (simp add: fresh_id_def outstanding_def example_coordinator_defs)

theorem coordinator_admission_bounded_witness:
  "length (co_jobs example_loaded) = 1 \<and>
   int (length (co_jobs example_loaded)) \<le> asr_inference_queue_size (co_settings example_loaded) + 1 \<and>
   isOk (fst (co_stop 1 example_loaded))"
  using coordinator_admission_bounded [OF example_loaded_reachable, of 1]
  by (simp add: example_coordinator_defs stream_timeout_def Let_def)

end
