(* ===== verification/CoordinatorSafety.thy ===== *)
theory CoordinatorSafety
  imports Coordinator
begin

text \<open>
  What the coordinator promises a waiting client: a job that leaves the queue or the worker has
  both its futures completed, through timeouts, cancellations, failures and shutdown.
\<close>

section \<open>The futures of a job\<close>

text \<open>Before its claim a job is untouched or withdrawn as a whole; from the claim on its \<open>started\<close>
  future is finished, so it cannot be withdrawn any more.\<close>

definition cell_waiting :: "job_cell \<Rightarrow> bool" where
  "cell_waiting x \<longleftrightarrow> cell_started x = Pending \<and> cell_result x = Pending \<or>
     cell_started x = Cancelled \<and> cell_result x = Cancelled \<and> cell_cancelled x"

definition cell_settled :: "job_cell \<Rightarrow> bool" where
  "cell_settled x \<longleftrightarrow> fut_done (cell_started x) \<and> fut_done (cell_result x)"

fun end_ok :: "job_end \<Rightarrow> job_cell \<Rightarrow> bool" where
  "end_ok JobSkipped x = cell_settled x"
| "end_ok JobShutdown x = fut_done (cell_started x)"
| "end_ok (JobReturned v) x = fut_done (cell_started x)"
| "end_ok (JobFailed e) x = True"
| "end_ok (JobDied e) x = True"

definition phase_ok :: "(nat \<Rightarrow> job_cell) \<Rightarrow> worker_phase \<Rightarrow> bool" where
  "phase_ok cells p = (case p of
     WorkerTaken j \<Rightarrow> cell_waiting (cells (jb_sequence j))
   | WorkerClaimed j w \<Rightarrow> fut_done (cell_started (cells (jb_sequence j)))
   | WorkerDone j how \<Rightarrow> end_ok how (cells (jb_sequence j))
   | _ \<Rightarrow> True)"

definition futures_inv :: "('h, 'w) Coordinator \<Rightarrow> bool" where
  "futures_inv c \<longleftrightarrow> (\<forall>j \<in> set (co_jobs c). cell_waiting (co_cells c (jb_sequence j))) \<and>
     phase_ok (co_cells c) (co_phase c)"

lemma end_ok_answer: "end_ok how x \<Longrightarrow> cell_settled (co_answer how x)"
  by (cases how) (auto simp: cell_settled_def)

lemma end_ok_mono:
  "end_ok how x \<Longrightarrow> (fut_done (cell_started x) \<Longrightarrow> fut_done (cell_started y)) \<Longrightarrow>
   (fut_done (cell_result x) \<Longrightarrow> fut_done (cell_result y)) \<Longrightarrow> end_ok how y"
  by (cases how) (auto simp: cell_settled_def)

lemma reject_settles:
  "cell_waiting x \<Longrightarrow> cell_settled (x\<lparr>cell_started := (case fut_set_running_or_notify_cancel (cell_started x) of
      (running, started) \<Rightarrow> if running = Inr True then snd (fut_set (Inl e) started) else started),
      cell_result := snd (fut_cancel (cell_result x))\<rparr>)"
  by (auto simp: cell_waiting_def cell_settled_def)


text \<open>What the futures of a job depend on.\<close>

definition fut :: "('h, 'w) Coordinator \<Rightarrow> nat \<Rightarrow> unit future \<times> asr_value future \<times> bool" where
  "fut c n = (cell_started (co_cells c n), cell_result (co_cells c n), cell_cancelled (co_cells c n))"

definition fut_view ::
  "('h, 'w) Coordinator \<Rightarrow> ASRJob list \<times> worker_phase \<times> nat \<times> (nat \<Rightarrow> unit future \<times> asr_value future \<times> bool)" where
  "fut_view c = (co_jobs c, co_phase c, co_sequence c, fut c)"

lemma waiting_fut: "fut c n = fut d n \<Longrightarrow> cell_waiting (co_cells c n) = cell_waiting (co_cells d n)"
  by (simp add: fut_def cell_waiting_def)

lemma settled_fut: "fut c n = fut d n \<Longrightarrow> cell_settled (co_cells c n) = cell_settled (co_cells d n)"
  by (simp add: fut_def cell_settled_def)

lemma end_ok_fut: "fut c n = fut d n \<Longrightarrow> end_ok how (co_cells c n) = end_ok how (co_cells d n)"
  by (cases how) (auto simp: fut_def cell_settled_def)

lemma futures_inv_fut:
  assumes "futures_inv c" and "co_jobs d = co_jobs c" and "co_phase d = co_phase c"
    and "\<And>j. j \<in> set (outstanding c) \<Longrightarrow> fut d (jb_sequence j) = fut c (jb_sequence j)"
  shows "futures_inv d"
proof -
  have "cell_waiting (co_cells d (jb_sequence j))" if "j \<in> set (co_jobs c)" for j
    using assms(1) assms(4) [of j] that waiting_fut by (auto simp: futures_inv_def outstanding_def)
  moreover have "phase_ok (co_cells d) (co_phase c)"
  proof -
    have "fut d (jb_sequence j) = fut c (jb_sequence j)" if "worker_jobs (co_phase c) = [j]" for j
      using assms(4) [of j] that by (simp add: outstanding_def)
    with assms(1) show ?thesis
      by (auto simp: futures_inv_def phase_ok_def waiting_fut [of d _ c] end_ok_fut [of d _ c] split: worker_phase.splits)
        (simp add: fut_def)
  qed
  ultimately show ?thesis using assms(2,3) by (simp add: futures_inv_def)
qed

lemma futures_inv_view: "fut_view d = fut_view c \<Longrightarrow> futures_inv c \<Longrightarrow> futures_inv d"
  by (rule futures_inv_fut) (simp_all add: fut_view_def fun_eq_iff)

lemma fut_view_simps [simp]:
  "fut_view (co_release_stream_reservation j c) = fut_view c" "fut_view (co_discard_busy sid c) = fut_view c"
  "fut_view (co_poison sid c) = fut_view c" "fut_view (co_release_session_reservation j c) = fut_view c"
  "fut_view (co_file_done c) = fut_view c" "fut_view (co_release_audio a c) = fut_view c"
  "fut_view (co_release_job j c) = fut_view c" "fut_view (c\<lparr>co_sessions := x\<rparr>) = fut_view c"
  "fut_view (c\<lparr>co_poisoned_sessions := p\<rparr>) = fut_view c"
  by (auto simp: fut_view_def fut_def fun_eq_iff cell_upd_def co_release_stream_reservation_def co_discard_busy_def co_poison_def
      co_release_session_reservation_def co_file_done_def co_release_audio_def co_release_job_def split: option.split)

lemma cell_upd_holds_view:
  "fut_view (cell_upd n (\<lambda>x. x\<lparr>cell_holds_stream_reservation := h\<rparr>) c) = fut_view c"
  by (auto simp: fut_view_def fut_def fun_eq_iff cell_upd_def)

interpretation fut_blind: execution_blind fut_view
  by unfold_locales (simp_all only: cell_upd_holds_view, simp_all add: fut_view_def fut_def fun_eq_iff)

lemma keeps_fut_view:
  "keeps fut_view (co_reserve_stream sid)" "keeps fut_view (py_check f)" "keeps fut_view co_claim_file"
  "keeps fut_view (co_warm T)"
  by (auto simp: keeps_def on_world_def co_reserve_stream_def py_check_def co_claim_file_def co_warm_def method_defs
      fut_view_def fut_def fun_eq_iff split: prod.split option.split sum.split)

lemma keeps_fut_reserve_session: "keeps fut_view (co_reserve_session sid)"
  unfolding co_reserve_session_def
  by (rule keeps_seq [OF keeps_fut_view(2)])
    (auto simp: keeps_def fut_view_def fut_def fun_eq_iff split: option.split)

text \<open>From \<open>c\<close> to \<open>d\<close> no job is dropped: an outstanding job stays outstanding or has both its futures
  completed, and completed futures stay completed.\<close>

definition advances :: "('h, 'w) Coordinator \<Rightarrow> ('h, 'w) Coordinator \<Rightarrow> bool" where
  "advances c d \<longleftrightarrow> co_sequence c \<le> co_sequence d \<and>
     (\<forall>j \<in> set (outstanding c). j \<in> set (outstanding d) \<or> cell_settled (co_cells d (jb_sequence j))) \<and>
     (\<forall>n < co_sequence c. cell_settled (co_cells c n) \<longrightarrow> cell_settled (co_cells d n))"

lemma advances_refl [simp]: "advances c c"
  by (simp add: advances_def)

lemma advances_trans:
  assumes "advances c d" and "advances d e" and "queue_inv c"
  shows "advances c e"
proof -
  have "jb_sequence j < co_sequence d" if "j \<in> set (outstanding c)" for j
    using outstanding_less [OF assms(3) that] assms(1) by (simp add: advances_def)
  with assms(1,2) show ?thesis unfolding advances_def by (meson order.trans less_le_trans)
qed

lemma fut_view_fields:
  assumes "fut_view d = fut_view c"
  shows "co_jobs d = co_jobs c" "co_phase d = co_phase c" "co_sequence d = co_sequence c" "fut d n = fut c n"
    "outstanding d = outstanding c" "cell_settled (co_cells d n) = cell_settled (co_cells c n)"
    "cell_waiting (co_cells d n) = cell_waiting (co_cells c n)"
proof -
  show "co_jobs d = co_jobs c" "co_phase d = co_phase c" "co_sequence d = co_sequence c"
    "outstanding d = outstanding c" and f: "fut d n = fut c n"
    using assms by (simp_all add: fut_view_def outstanding_def fun_eq_iff)
  show "cell_settled (co_cells d n) = cell_settled (co_cells c n)" by (rule settled_fut [OF f])
  show "cell_waiting (co_cells d n) = cell_waiting (co_cells c n)" by (rule waiting_fut [OF f])
qed

lemma advances_view: "advances c d \<Longrightarrow> fut_view e = fut_view d \<Longrightarrow> advances c e"
  using fut_view_fields [of e d] unfolding advances_def by simp

text \<open>Updates of a cell that only complete futures.\<close>

definition completing :: "(job_cell \<Rightarrow> job_cell) \<Rightarrow> bool" where
  "completing f \<longleftrightarrow> (\<forall>x. (fut_done (cell_started x) \<longrightarrow> fut_done (cell_started (f x))) \<and>
     (fut_done (cell_result x) \<longrightarrow> fut_done (cell_result (f x))))"

lemma cell_upd_simps [simp]:
  "co_jobs (cell_upd n f c) = co_jobs c" "co_phase (cell_upd n f c) = co_phase c"
  "co_sequence (cell_upd n f c) = co_sequence c" "outstanding (cell_upd n f c) = outstanding c"
  "co_cells (cell_upd n f c) = (co_cells c)(n := f (co_cells c n))"
  by (simp_all add: cell_upd_def outstanding_def)

lemma advances_cell_upd: "advances c d \<Longrightarrow> completing f \<Longrightarrow> advances c (cell_upd n f d)"
  unfolding advances_def completing_def cell_settled_def by auto

lemma completing_answer: "completing (co_answer how)"
  by (cases how) (auto simp: completing_def fut_set_unless_done_def)

lemma fut_cancel_keeps_done: "fut_done f \<Longrightarrow> fut_done (snd (fut_cancel f))"
  by (cases f) simp_all

lemma fut_running_keeps_done: "fut_done f \<Longrightarrow> fut_done (snd (fut_set_running_or_notify_cancel f))"
  by (cases f) simp_all

lemma fut_set_keeps_done: "fut_done f \<Longrightarrow> fut_done (snd (fut_set r f))"
  by (cases f) simp_all

definition promised :: "('h, 'w) Coordinator \<Rightarrow> ('h, 'w) Coordinator \<Rightarrow> bool" where
  "promised c d \<longleftrightarrow> futures_inv d \<and> advances c d"

lemma promised_view: "promised c d \<Longrightarrow> fut_view e = fut_view d \<Longrightarrow> promised c e"
  unfolding promised_def using futures_inv_view advances_view by blast

section \<open>Client calls keep the promise\<close>

lemma co_new_job_promised:
  assumes "queue_inv c" and "futures_inv c" and "co_new_job a sid p now t audio hs hr c = (r, d)"
  shows "\<exists>job. r = Inr job \<and> promised c d \<and> cell_waiting (co_cells d (jb_sequence job))"
proof -
  have d: "d = c\<lparr>co_sequence := Suc (co_sequence c), co_cells := (co_cells c)(co_sequence c := fresh_cell hr)\<rparr>"
    using assms(3) by (auto simp: co_new_job_def)
  have out: "outstanding d = outstanding c" by (simp add: d outstanding_def)
  have neq: "jb_sequence j \<noteq> co_sequence c" if "j \<in> set (outstanding c)" for j
    using outstanding_less [OF assms(1) that] by simp
  have "futures_inv d"
    by (rule futures_inv_fut [OF assms(2)]) (simp_all add: d fut_def neq)
  moreover have "advances c d" unfolding advances_def out by (auto simp: d)
  moreover have "cell_waiting (co_cells d (co_sequence c))" by (simp add: d fresh_cell_def cell_waiting_def)
  ultimately show ?thesis using assms(3) by (auto simp: co_new_job_def promised_def)
qed

lemma keeps_promised_triple:
  fixes m :: "(('h, 'w) Coordinator, 'a) py_method"
  assumes "keeps fut_view m"
  shows "triple (\<lambda>d. promised c d \<and> cell_waiting (co_cells d n)) m
     (\<lambda>_ d. promised c d \<and> cell_waiting (co_cells d n)) (promised c)"
proof (rule triple_intro)
  fix d :: "('h, 'w) Coordinator" assume d: "promised c d \<and> cell_waiting (co_cells d n)"
  obtain r e where re: "m d = (r, e)" by (cases "m d")
  have v: "fut_view e = fut_view d" by (rule keepsD [OF assms re])
  have "promised c e" "cell_waiting (co_cells e n)"
    using d promised_view [OF _ v] fut_view_fields(7) [OF v, of n] by auto
  then show "case m d of (Inl e, t) \<Rightarrow> promised c t | (Inr x, t) \<Rightarrow> promised c t \<and> cell_waiting (co_cells t n)"
    unfolding re by (simp split: sum.split)
qed

lemma co_refuse_fut_view: "fut_view (snd (co_refuse job m c)) = fut_view c"
  by (simp add: co_refuse_def method_defs)

lemma co_enqueue_promised:
  "triple (\<lambda>d. promised c d \<and> cell_waiting (co_cells d (jb_sequence job))) (co_enqueue job) (\<lambda>_. promised c) (promised c)"
proof (rule triple_intro)
  fix d :: "('a, 'b) Coordinator" assume d: "promised c d \<and> cell_waiting (co_cells d (jb_sequence job))"
  let ?e = "snd (co_enqueue job d)"
  have "fut_view (x\<lparr>co_queued_audio_seconds := a, co_queued_business_jobs := b\<rparr>) = fut_view x"
    "fut_view (x\<lparr>co_queued_audio_seconds := a\<rparr>) = fut_view x" for x :: "('a, 'b) Coordinator" and a b
    by (simp_all add: fut_view_def fut_def fun_eq_iff)
  then have "fut_view ?e = fut_view d \<or> (co_jobs ?e = co_jobs d @ [job] \<and> co_phase ?e = co_phase d \<and>
      co_sequence ?e = co_sequence d \<and> co_cells ?e = co_cells d)"
    by (auto simp: co_enqueue_def Let_def co_refuse_fut_view)
  then have "promised c ?e"
  proof
    assume "fut_view ?e = fut_view d"
    with d show ?thesis by (blast intro: promised_view)
  next
    assume "co_jobs ?e = co_jobs d @ [job] \<and> co_phase ?e = co_phase d \<and>
      co_sequence ?e = co_sequence d \<and> co_cells ?e = co_cells d"
    with d show ?thesis by (auto simp: promised_def futures_inv_def advances_def outstanding_def)
  qed
  then show "case co_enqueue job d of (Inl e, t) \<Rightarrow> promised c t | (Inr x, t) \<Rightarrow> promised c t"
    by (auto split: prod.split sum.split)
qed

lemma co_submit_promised:
  assumes "queue_inv c" and "futures_inv c"
  shows "promised c (snd (co_submit a sid p now t audio hs hr c))"
proof -
  obtain job d where job: "co_new_job a sid p now t audio hs hr c = (Inr job, d)" by (auto simp: co_new_job_def)
  with co_new_job_promised [OF assms job] have d: "promised c d \<and> cell_waiting (co_cells d (jb_sequence job))" by auto
  let ?m = "py_seq (py_check co_require_accepting)
      (py_seq (if hr then co_reserve_stream sid else py_return ())
      (py_seq (if hs then co_reserve_session sid else py_return ()) (co_enqueue job)))"
  have "triple (\<lambda>d. promised c d \<and> cell_waiting (co_cells d (jb_sequence job))) ?m (\<lambda>_. promised c) (promised c)"
    by (intro triple_seq [OF keeps_promised_triple] co_enqueue_promised keeps_if keeps_fut_view
        keeps_fut_reserve_session keeps_simps)
  from triple_snd [OF this d] show ?thesis by (simp add: co_submit_def py_bind_def job)
qed

lemma co_stream_job_promised:
  "queue_inv c \<Longrightarrow> futures_inv c \<Longrightarrow> promised c (snd (co_stream_job a s now audio hs hr c))"
  by (simp add: co_stream_job_def method_defs co_submit_promised)

lemma promised_refl: "futures_inv c \<Longrightarrow> promised c c"
  by (simp add: promised_def)

lemma abort_stream_promised:
  assumes "queue_inv c" and "futures_inv c"
  shows "promised c (snd (abort_stream s now c))"
  using promised_refl [OF assms(2)] co_stream_job_promised [OF assms, of "AbortStream s" s now 0 True False]
  by (auto simp: abort_stream_def split: prod.split sum.split py_error.split intro: promised_view)

lemma transcribe_file_promised:
  assumes "queue_inv c" and "futures_inv c"
  shows "promised c (snd (transcribe_file path language now c))"
proof -
  obtain r d where rd: "co_claim_file c = (r, d)" by (cases "co_claim_file c")
  have v: "fut_view d = fut_view c" "queue_view d = queue_view c"
    using keepsD [OF keeps_fut_view(3) rd] keepsD [OF keeps_queue_view(6) rd] by simp_all
  have d: "queue_inv d" "futures_inv d" "promised c d"
    using queue_inv_view [OF v(2) assms(1)] futures_inv_view [OF v(1) assms(2)]
      promised_view [OF promised_refl [OF assms(2)] v(1)] by simp_all
  let ?submit = "co_submit (TranscribeFile path language) None 10 now (stream_timeout d) 0 False False d"
  obtain q e where qe: "?submit = (q, e)" by (cases ?submit)
  with co_submit_promised [OF d(1,2)] have e: "promised d e" by (metis snd_conv)
  then have "promised c e"
    using d(3) advances_trans [OF _ _ assms(1), of d e] by (auto simp: promised_def)
  then have "promised c e" "promised c (co_file_done e)" by (auto intro: promised_view)
  with rd qe d show ?thesis
    by (cases r; cases q) (simp_all add: transcribe_file_def method_defs)
qed

lemma cleanup_cancelled_promised:
  assumes "queue_inv c" and "futures_inv c"
  shows "promised c (snd (co_cleanup_cancelled s now c))"
proof -
  let ?c = "c\<lparr>co_poisoned_sessions := co_poisoned_sessions c - {s}\<rparr>"
  have c: "queue_inv ?c" "futures_inv ?c" "promised c ?c"
    using assms promised_view [OF promised_refl [OF assms(2)], of ?c]
    by (auto intro: queue_inv_view futures_inv_view)
  have "promised ?c (snd (abort_stream s now ?c))" by (rule abort_stream_promised [OF c(1,2)])
  then have "promised c (snd (abort_stream s now ?c))"
    using c(3) advances_trans [OF _ _ assms(1), of ?c] by (auto simp: promised_def)
  then show ?thesis
    using promised_refl [OF assms(2)]
    by (auto simp: co_cleanup_cancelled_def split: prod.split sum.split intro: promised_view)
qed

text \<open>A client that gives up: its futures are cancelled as a whole or not at all.\<close>

lemma co_withdraw_promised:
  assumes "futures_inv c"
  shows "promised c (snd (co_withdraw j c))"
proof -
  let ?n = "jb_sequence j"
  let ?f = "\<lambda>x. x\<lparr>cell_started := snd (fut_cancel (cell_started x)), cell_cancelled := True,
      cell_result := snd (fut_cancel (cell_result x))\<rparr>"
  have compl: "completing ?f" by (simp add: completing_def fut_cancel_keeps_done)
  have w: "cell_waiting x \<Longrightarrow> cell_waiting (?f x)" for x by (auto simp: cell_waiting_def)
  have ph: "phase_ok ((co_cells c)(?n := ?f (co_cells c ?n))) (co_phase c)"
    using assms compl w
    by (auto simp: futures_inv_def phase_ok_def completing_def split: worker_phase.splits intro: end_ok_mono)
  have upd: "promised c (cell_upd ?n ?f c)"
    unfolding promised_def using advances_cell_upd [OF advances_refl compl] assms w ph
    by (auto simp: futures_inv_def)
  have "snd (co_withdraw j c) = c \<or> snd (co_withdraw j c) = cell_upd ?n ?f c"
    by (cases "fut_cancel (cell_started (co_cells c ?n))") (auto simp: co_withdraw_def Let_def cell_upd_def)
  with upd promised_refl [OF assms] show ?thesis by auto
qed

lemma waits_promised:
  assumes "futures_inv c"
  shows "promised c (snd (co_queue_timeout j c))" "promised c (co_client_cancelled j c)"
    "promised c (snd (co_inference_timeout j c))" "promised c (co_file_done c)"
  using co_withdraw_promised [OF assms, of j] promised_refl [OF assms]
  by (auto simp: co_queue_timeout_def co_client_cancelled_def co_inference_timeout_def
      split: prod.split bool.split intro: promised_view)

section \<open>Worker steps keep the promise\<close>

lemma queued_other_sequence:
  assumes "queue_inv c" and "worker_jobs (co_phase c) = [j]" and "i \<in> set (co_jobs c)"
  shows "jb_sequence i \<noteq> jb_sequence j"
proof -
  have "jb_sequence j \<notin> jb_sequence ` set (co_jobs c)"
    using assms(1,2) by (simp add: queue_inv_def queue_view_def queue_ok_def)
  then show ?thesis using imageI [OF assms(3), of jb_sequence] by metis
qed

text \<open>A step of the worker on the job it holds: only that job's cell changes.\<close>

lemma worker_promised:
  assumes inv: "queue_inv c" "futures_inv c" and j: "worker_jobs (co_phase c) = [j]"
    and d: "co_jobs d = co_jobs c" "co_sequence d = co_sequence c" "worker_jobs (co_phase d) = [j]"
    and other: "\<And>n. n \<noteq> jb_sequence j \<Longrightarrow> fut d n = fut c n"
    and own: "cell_settled (co_cells c (jb_sequence j)) \<Longrightarrow> cell_settled (co_cells d (jb_sequence j))"
    and ph: "phase_ok (co_cells d) (co_phase d)"
  shows "promised c d"
proof -
  have "cell_waiting (co_cells d (jb_sequence i))" if "i \<in> set (co_jobs c)" for i
    using inv(2) that waiting_fut [OF other [OF queued_other_sequence [OF inv(1) j that]]]
    by (simp add: futures_inv_def)
  then have "futures_inv d" using d(1) ph by (simp add: futures_inv_def)
  moreover have "cell_settled (co_cells d n)" if "cell_settled (co_cells c n)" for n
    using that own settled_fut [OF other, of n] by (cases "n = jb_sequence j") auto
  then have "advances c d" unfolding advances_def using d j by (simp add: outstanding_def)
  ultimately show ?thesis by (simp add: promised_def)
qed

lemma co_worker_take_promised:
  assumes "queue_inv c" and "futures_inv c" and "co_phase c = WorkerIdle" and "co_jobs c \<noteq> []"
  shows "promised c (co_worker_take c)"
proof -
  have mem: "next_job c \<in> set (co_jobs c)" unfolding next_job_def by (rule arg_min_list_in) (rule assms(4))
  let ?d = "co_worker_take c"
  have d: "co_jobs ?d = remove1 (next_job c) (co_jobs c)" "co_phase ?d = WorkerTaken (next_job c)"
    "co_cells ?d = co_cells c" "co_sequence ?d = co_sequence c"
    by (simp_all add: co_worker_take_def Let_def co_release_queue_slot_def)
  have "futures_inv ?d"
    using assms(2) mem set_remove1_subset [of "next_job c" "co_jobs c"]
    by (auto simp: futures_inv_def phase_ok_def d)
  moreover have "advances c ?d"
    using assms(3) by (auto simp: advances_def outstanding_def d in_set_remove1)
  ultimately show ?thesis by (simp add: promised_def)
qed

lemma reject_unclaimed_cells:
  assumes "cell_waiting (co_cells c (jb_sequence j))"
  shows "cell_settled (co_cells (co_reject_unclaimed j e c) (jb_sequence j))"
    "n \<noteq> jb_sequence j \<Longrightarrow> fut (co_reject_unclaimed j e c) n = fut c n"
    "co_jobs (co_reject_unclaimed j e c) = co_jobs c" "co_sequence (co_reject_unclaimed j e c) = co_sequence c"
  using assms by (auto simp: co_reject_unclaimed_def cell_waiting_def cell_settled_def fut_def)

lemma claim_cells:
  assumes "cell_waiting (co_cells c (jb_sequence j))" and "co_claim_job j c = (ok, d)"
  shows "if ok then fut_done (cell_started (co_cells d (jb_sequence j)))
     else cell_settled (co_cells d (jb_sequence j))"
    "n \<noteq> jb_sequence j \<Longrightarrow> fut d n = fut c n" "co_jobs d = co_jobs c" "co_sequence d = co_sequence c"
    "cell_settled (co_cells c (jb_sequence j)) \<Longrightarrow> cell_settled (co_cells d (jb_sequence j))"
  using assms by (auto simp: co_claim_job_def cell_waiting_def cell_settled_def fut_def Let_def split: if_splits)

lemma phase_ok_done: "phase_ok cells (WorkerDone j (ended_by e))"
  by (simp add: phase_ok_def ended_by_def)

lemma co_worker_prepare_promised:
  assumes inv: "queue_inv c" "futures_inv c" and ph: "co_phase c = WorkerTaken j"
  shows "promised c (co_worker_prepare T j n1 n2 n3 c)"
proof -
  let ?n = "jb_sequence j"
  have wait: "cell_waiting (co_cells c ?n)" using inv(2) ph by (simp add: futures_inv_def phase_ok_def)
  have held: "worker_jobs (co_phase c) = [j]" by (simp add: ph)
  have skip: "promised c (e\<lparr>co_phase := WorkerDone j JobSkipped\<rparr>)"
    if v: "fut_view d = fut_view c" and e: "co_expired_before_start j now d = Some e" for now d e
  proof -
    have w: "cell_waiting (co_cells d ?n)" using wait fut_view_fields(7) [OF v] by simp
    obtain x where x: "e = co_reject_unclaimed j x d"
      using e by (auto simp: co_expired_before_start_def split: if_splits)
    note r = reject_unclaimed_cells [OF w]
    show ?thesis
      by (rule worker_promised [OF inv held])
        (use r fut_view_fields [OF v] in \<open>simp_all add: x phase_ok_def fut_def\<close>)
  qed
  have warm: "fut_view d = fut_view c" if "co_warm T c = (r, d)" for r d
    using keepsD [OF keeps_fut_view(4) that] .
  have died: "promised c (d\<lparr>co_phase := WorkerDone j (ended_by e)\<rparr>)" if v: "fut_view d = fut_view c" for d e
    by (rule worker_promised [OF inv held])
      (use fut_view_fields [OF v] in \<open>simp_all add: phase_ok_done fut_def\<close>)
  have claimed: "promised c (e\<lparr>co_phase := (if ok then WorkerClaimed j w else WorkerDone j JobSkipped)\<rparr>)"
    if v: "fut_view d = fut_view c" and e: "co_claim_job j d = (ok, e)" for d ok e w
  proof -
    have "cell_waiting (co_cells d ?n)" using wait fut_view_fields(7) [OF v] by simp
    note cl = claim_cells [OF this e]
    show ?thesis
      by (rule worker_promised [OF inv held])
        (use cl fut_view_fields [OF v] in \<open>auto simp: phase_ok_def fut_def split: if_splits\<close>)
  qed
  have shut: "promised c ((cell_upd ?n (\<lambda>x. x\<lparr>cell_started := snd (fut_set (Inr ()) (cell_started x))\<rparr>) c)
      \<lparr>co_phase := WorkerDone j JobShutdown\<rparr>)"
    by (rule worker_promised [OF inv held])
      (use wait in \<open>auto simp: phase_ok_def fut_def cell_waiting_def cell_settled_def\<close>)
  show ?thesis
    unfolding co_worker_prepare_def
    using shut skip [OF refl] skip [OF warm] died [OF warm] claimed [OF warm, where ok = True] claimed [OF warm, where ok = False]
    by (auto split: option.split prod.split sum.split bool.split)
qed

lemma co_worker_execute_promised:
  assumes inv: "queue_inv c" "futures_inv c" and ph: "co_phase c = WorkerClaimed j w"
  shows "promised c (co_worker_execute T j w e c)"
proof -
  obtain r d where rd: "co_execute_action T j (jb_action j) c = (r, d)" by (cases "co_execute_action T j (jb_action j) c")
  note v = keepsD [OF fut_blind.keeps_execute rd]
  have started: "fut_done (cell_started (co_cells d (jb_sequence j)))"
    using inv(2) ph fut_view_fields(4) [OF v, of "jb_sequence j"] by (simp add: futures_inv_def phase_ok_def fut_def)
  have "promised c (d\<lparr>co_phase := WorkerDone j how\<rparr>)" if "end_ok how (co_cells d (jb_sequence j))" for how
    by (rule worker_promised [OF inv])
      (use fut_view_fields [OF v] that in \<open>simp_all add: ph phase_ok_def fut_def\<close>)
  from this [of "ended_by _"] this [of "JobReturned _"] started rd show ?thesis
    by (auto simp: co_worker_execute_def ended_by_def split: sum.split)
qed

text \<open>The end of the worker: every queued job is answered, and nothing answered before is undone.\<close>

lemma co_cancel_queued_fields:
  "co_sequence (co_cancel_queued e j c) = co_sequence c"
  "n \<noteq> jb_sequence j \<Longrightarrow> fut (co_cancel_queued e j c) n = fut c n"
  "cell_waiting (co_cells c (jb_sequence j)) \<Longrightarrow> cell_settled (co_cells (co_cancel_queued e j c) (jb_sequence j))"
proof -
  let ?x = "cell_upd (jb_sequence j) (\<lambda>x. x\<lparr>cell_cancelled := True\<rparr>)
      (co_release_queue_slot j (c\<lparr>co_jobs := remove1 j (co_jobs c)\<rparr>))"
  have v: "fut_view (co_cancel_queued e j c) = fut_view (co_reject_unclaimed j e ?x)"
    by (simp add: co_cancel_queued_def)
  have base: "co_sequence (co_reject_unclaimed j e ?x) = co_sequence c" "\<And>n. n \<noteq> jb_sequence j \<Longrightarrow> fut (co_reject_unclaimed j e ?x) n = fut c n"
    by (simp_all add: co_reject_unclaimed_def co_release_queue_slot_def fut_def)
  show "co_sequence (co_cancel_queued e j c) = co_sequence c" using fut_view_fields(3) [OF v] base(1) by simp
  show "fut (co_cancel_queued e j c) n = fut c n" if "n \<noteq> jb_sequence j"
    using fut_view_fields(4) [OF v, of n] base(2) [OF that] by simp
  assume w: "cell_waiting (co_cells c (jb_sequence j))"
  have "cell_waiting (co_cells ?x (jb_sequence j))"
    using w by (auto simp: cell_waiting_def co_release_queue_slot_def)
  from reject_unclaimed_cells(1) [OF this] fut_view_fields(6) [OF v]
  show "cell_settled (co_cells (co_cancel_queued e j c) (jb_sequence j))" by simp
qed

lemma cancel_fold_fields:
  assumes "distinct (map jb_sequence xs)" and "\<forall>j \<in> set xs. cell_waiting (co_cells c (jb_sequence j))"
  shows "co_sequence (fold (co_cancel_queued e) xs c) = co_sequence c \<and>
     (\<forall>n. n \<notin> jb_sequence ` set xs \<longrightarrow> fut (fold (co_cancel_queued e) xs c) n = fut c n) \<and>
     (\<forall>j \<in> set xs. cell_settled (co_cells (fold (co_cancel_queued e) xs c) (jb_sequence j)))"
  using assms
proof (induction xs arbitrary: c)
  case (Cons x xs)
  let ?d = "co_cancel_queued e x c" and ?e = "fold (co_cancel_queued e) xs (co_cancel_queued e x c)"
  have xs: "jb_sequence x \<notin> jb_sequence ` set xs" "distinct (map jb_sequence xs)" using Cons.prems(1) by simp_all
  have "cell_waiting (co_cells ?d (jb_sequence j))" if "j \<in> set xs" for j
  proof -
    have "jb_sequence j \<noteq> jb_sequence x" using xs(1) imageI [OF that, of jb_sequence] by metis
    from waiting_fut [OF co_cancel_queued_fields(2) [OF this, of e c]] Cons.prems(2) that show ?thesis by simp
  qed
  with Cons.IH [of ?d] xs(2)
  have ih: "co_sequence ?e = co_sequence ?d" "\<And>n. n \<notin> jb_sequence ` set xs \<Longrightarrow> fut ?e n = fut ?d n"
    "\<And>j. j \<in> set xs \<Longrightarrow> cell_settled (co_cells ?e (jb_sequence j))" by auto
  have "cell_settled (co_cells ?e (jb_sequence x))"
    using settled_fut [OF ih(2) [OF xs(1)]] co_cancel_queued_fields(3) [of c x e] Cons.prems(2) by simp
  moreover have "fut ?e n = fut c n" if "n \<notin> jb_sequence ` set (x # xs)" for n
    using ih(2) [of n] co_cancel_queued_fields(2) [of n x e c] that by simp
  ultimately show ?case using ih co_cancel_queued_fields(1) [of e x c] by simp
qed simp

lemma co_finalize_cells:
  assumes "distinct (map jb_sequence (co_jobs c))" and "\<forall>j \<in> set (co_jobs c). cell_waiting (co_cells c (jb_sequence j))"
  shows "co_sequence (snd (co_finalize_worker T c)) = co_sequence c"
    and "n \<notin> jb_sequence ` set (co_jobs c) \<Longrightarrow> fut (snd (co_finalize_worker T c)) n = fut c n"
    and "j \<in> set (co_jobs c) \<Longrightarrow> cell_settled (co_cells (snd (co_finalize_worker T c)) (jb_sequence j))"
proof -
  let ?c = "c\<lparr>co_accepting := False, co_ready := False, co_worker_loop_active := False\<rparr>"
  let ?d = "co_cancel_queued_jobs (ASRNotReady ''ASR owner worker stopped'') ?c"
  let ?abort = "py_for (map snd (co_sessions ?d)) (\<lambda>x. py_except_exception (co_abort_session T x) (\<lambda>_. py_return ()))"
  let ?jobs = "sort_key (\<lambda>j. (jb_priority j, jb_sequence j)) (co_jobs c)"
  have "distinct (map jb_sequence ?jobs)"
    using assms(1) mset_eq_imp_distinct_iff [of "map jb_sequence ?jobs" "map jb_sequence (co_jobs c)"] by simp
  then have d: "co_sequence ?d = co_sequence c" "\<And>n. n \<notin> jb_sequence ` set (co_jobs c) \<Longrightarrow> fut ?d n = fut c n"
    "\<And>j. j \<in> set (co_jobs c) \<Longrightarrow> cell_settled (co_cells ?d (jb_sequence j))"
    using cancel_fold_fields [of ?jobs ?c "ASRNotReady ''ASR owner worker stopped''"] assms(2)
    by (auto simp: co_cancel_queued_jobs_def fut_def)
  have "keeps fut_view ?abort" by (intro keeps_abort_all fut_blind.keeps_world)
  then have v: "fut_view (snd (?abort ?d)) = fut_view ?d" by (simp add: keeps_def)
  have cl: "co_sequence (co_clear x) = co_sequence x" "fut (co_clear x) n = fut x n" for x :: "('a, 'b) Coordinator" and n
    by (simp_all add: co_clear_def fut_def)
  have fin: "snd (co_finalize_worker T c) = snd (?abort ?d) \<or> snd (co_finalize_worker T c) = co_clear (snd (?abort ?d))"
    by (auto simp: co_finalize_worker_def method_defs split: prod.split sum.split)
  then have v: "co_sequence (snd (co_finalize_worker T c)) = co_sequence ?d" "fut (snd (co_finalize_worker T c)) n = fut ?d n" for n
    using fut_view_fields(3,4) [OF v] cl by metis+
  show "co_sequence (snd (co_finalize_worker T c)) = co_sequence c" using d v by simp
  show "fut (snd (co_finalize_worker T c)) n = fut c n" if "n \<notin> jb_sequence ` set (co_jobs c)" using d(2) [OF that] v by simp
  show "cell_settled (co_cells (snd (co_finalize_worker T c)) (jb_sequence j))" if "j \<in> set (co_jobs c)"
    using d(3) [OF that] settled_fut [OF v(2)] by simp
qed

lemma co_worker_exit_promised:
  assumes c: "queue_inv (c\<lparr>co_phase := WorkerIdle\<rparr>)" "\<forall>j \<in> set (co_jobs c). cell_waiting (co_cells c (jb_sequence j))"
  shows "promised (c\<lparr>co_phase := WorkerIdle\<rparr>) (co_worker_exit T c)"
proof -
  let ?c = "c\<lparr>co_phase := WorkerIdle\<rparr>"
  have dist: "distinct (map jb_sequence (co_jobs ?c))" using c(1) by (simp add: queue_inv_def queue_view_def queue_ok_def)
  have wait: "\<forall>j \<in> set (co_jobs ?c). cell_waiting (co_cells ?c (jb_sequence j))" using c(2) by simp
  note fin = co_finalize_cells [OF dist wait, where T = T]
  have settled: "cell_settled (co_cells (snd (co_finalize_worker T ?c)) n)" if "cell_settled (co_cells ?c n)" for n
  proof (cases "n \<in> jb_sequence ` set (co_jobs ?c)")
    case True
    then show ?thesis using fin(3) by auto
  next
    case False
    then show ?thesis using settled_fut [OF fin(2) [OF False]] that by simp
  qed
  have "co_jobs (co_worker_exit T c) = []" using co_finalize_queue [OF c(1), of T] by (simp add: co_worker_exit_def)
  then have "futures_inv (co_worker_exit T c)" by (simp add: futures_inv_def phase_ok_def co_worker_exit_def)
  moreover have "advances ?c (co_worker_exit T c)"
    using fin(1,3) settled by (auto simp: advances_def co_worker_exit_def outstanding_def)
  ultimately show ?thesis by (simp add: promised_def)
qed

lemma promised_trans: "promised c d \<Longrightarrow> promised d e \<Longrightarrow> queue_inv c \<Longrightarrow> promised c e"
  unfolding promised_def using advances_trans by blast

lemma co_worker_settle_promised:
  assumes inv: "queue_inv c" "futures_inv c" and ph: "co_phase c = WorkerDone j how"
  shows "promised c (co_worker_settle T j how c)"
proof -
  let ?n = "jb_sequence j"
  obtain r d where rd: "co_cleanup_poisoned T (jb_session_id j) c = (r, d)"
    by (cases "co_cleanup_poisoned T (jb_session_id j) c")
  have v: "fut_view (co_release_job j d) = fut_view c"
    using keepsD [OF fut_blind.keeps_cleanup_poisoned rd] by simp
  have q: "queue_inv ((cell_upd n f (co_release_job j d))\<lparr>co_phase := WorkerIdle\<rparr>)" for n f
  proof -
    note w = keepsD [OF queue_blind.keeps_cleanup_poisoned rd]
    have "queue_inv ((co_release_audio (jb_audio_seconds j) d)\<lparr>co_phase := WorkerIdle\<rparr>)"
      using w inv(1) ph by (intro co_release_audio_queue) (auto intro: queue_inv_view simp: queue_view_fields [OF w])
    then show ?thesis
      by (rule queue_inv_view [rotated])
        (simp add: co_release_job_def co_release_audio_def queue_view_def cell_upd_def co_release_stream_reservation_def
          co_release_session_reservation_def co_discard_busy_def split: option.split)
  qed
  have wait: "cell_waiting (co_cells (cell_upd ?n f (co_release_job j d)) (jb_sequence i))" if "i \<in> set (co_jobs c)" for f i
    using queued_other_sequence [OF inv(1) _ that, of j] inv(2) that fut_view_fields(7) [OF v] ph
    by (simp add: futures_inv_def)
  have idle: "promised c ((cell_upd ?n (co_answer h) (co_release_job j d))\<lparr>co_phase := WorkerIdle\<rparr>)"
    if "end_ok h (co_cells c ?n)" for h
  proof -
    let ?e = "(cell_upd ?n (co_answer h) (co_release_job j d))\<lparr>co_phase := WorkerIdle\<rparr>"
    have "end_ok h (co_cells (co_release_job j d) ?n)" using that end_ok_fut [OF fut_view_fields(4) [OF v]] by simp
    then have own: "cell_settled (co_cells ?e ?n)" by (simp add: end_ok_answer)
    have "futures_inv ?e" using wait fut_view_fields(1) [OF v] by (simp add: futures_inv_def phase_ok_def)
    moreover have "advances c ?e"
      using own fut_view_fields [OF v] ph by (auto simp: advances_def outstanding_def)
    ultimately show ?thesis by (simp add: promised_def)
  qed
  have out: "promised c (co_worker_exit T (cell_upd ?n (co_answer h) (co_release_job j d)))"
    if "end_ok h (co_cells c ?n)" for h
  proof (rule promised_trans [OF idle [OF that] _ inv(1)])
    show "promised ((cell_upd ?n (co_answer h) (co_release_job j d))\<lparr>co_phase := WorkerIdle\<rparr>)
       (co_worker_exit T (cell_upd ?n (co_answer h) (co_release_job j d)))"
      by (rule co_worker_exit_promised [OF q]) (use wait fut_view_fields(1) [OF v] in auto)
  qed
  have ok: "end_ok how (co_cells c ?n)" using inv(2) ph by (simp add: futures_inv_def phase_ok_def)
  show ?thesis
    unfolding co_worker_settle_def rd Let_def
    using idle [OF ok] out [OF ok] out [of "JobDied _"]
    by (auto split: sum.split job_end.split)
qed

lemma co_worker_boot_promised:
  assumes inv: "queue_inv c" "futures_inv c" and ph: "co_phase c = WorkerStarting"
  shows "promised c (co_worker_boot T c)"
proof -
  let ?c = "c\<lparr>co_has_transcriber := False, co_warmed := False, co_sessions := [], co_phase := WorkerIdle\<rparr>"
  have c: "queue_inv ?c" using inv ph by (simp add: queue_inv_def queue_view_def)
  have p: "promised c ?c"
    using inv(2) ph by (simp add: promised_def futures_inv_def phase_ok_def advances_def outstanding_def)
  have failed: "promised c (co_boot_failed T e d)" if "fut_view d = fut_view ?c" "queue_view d = queue_view ?c" for e d
  proof -
    have d: "queue_inv d" "co_phase d = WorkerIdle" "promised c d"
      using queue_inv_view [OF that(2) c] queue_view_fields(1) [OF that(2)] promised_view [OF p that(1)] by simp_all
    then have idle: "d\<lparr>co_phase := WorkerIdle\<rparr> = d" by simp
    have "\<forall>j \<in> set (co_jobs d). cell_waiting (co_cells d (jb_sequence j))" using d(3) by (simp add: promised_def futures_inv_def)
    with co_worker_exit_promised [of d T] d(1) have "promised d (co_worker_exit T d)" by (simp add: idle)
    from promised_trans [OF d(3) this inv(1)] d(3) show ?thesis
      by (auto simp: co_boot_failed_def) (rule promised_view, assumption, simp add: fut_view_def fut_def fun_eq_iff)
  qed
  have w: "fut_view d' = fut_view d \<and> queue_view d' = queue_view d" if "on_world m d = (r, d')"
    for m :: "('b, unit) py_method" and d :: "('a, 'b) Coordinator" and r d'
    using keepsD [OF fut_blind.keeps_world that] keepsD [OF queue_blind.keeps_world that] by simp
  have f: "fut_view (d\<lparr>co_has_transcriber := True\<rparr>) = fut_view d"
    "fut_view (d\<lparr>co_warmed := True, co_ready := True\<rparr>) = fut_view d" for d :: "('a, 'b) Coordinator"
    by (simp_all add: fut_view_def fut_def fun_eq_iff)
  show ?thesis
    unfolding co_worker_boot_def Let_def
    by (auto split: prod.split sum.split dest!: w intro!: failed simp: f intro: promised_view [OF p])
qed

lemma co_stop_promised:
  assumes "queue_inv c" and "futures_inv c"
  shows "promised c (snd (co_stop now c))"
proof -
  have neq: "jb_sequence j \<noteq> co_sequence c" if "j \<in> set (outstanding c)" for j
    using outstanding_less [OF assms(1) that] by simp
  let ?d = "c\<lparr>co_accepting := False\<rparr>"
  let ?e = "?d\<lparr>co_sequence := Suc (co_sequence c), co_cells := (co_cells c)(co_sequence c := fresh_cell False)\<rparr>"
  have d: "promised c ?d" by (rule promised_view [OF promised_refl [OF assms(2)]]) (simp add: fut_view_def fut_def fun_eq_iff)
  have "futures_inv ?e" by (rule futures_inv_fut [OF assms(2)]) (simp_all add: fut_def neq)
  then have e: "promised c ?e" by (auto simp: promised_def advances_def outstanding_def)
  have "cell_waiting (fresh_cell False)" by (simp add: cell_waiting_def fresh_cell_def)
  with e have "promised c (?e\<lparr>co_jobs := co_jobs c @ [j], co_shutdown_requested := True\<rparr>)"
    if "jb_sequence j = co_sequence c" for j
    using that by (auto simp: promised_def futures_inv_def advances_def outstanding_def)
  with d e show ?thesis by (auto simp: co_stop_def Let_def co_new_job_def)
qed

lemma co_step_promised:
  assumes "co_step T c d" and "queue_inv c" and "futures_inv c"
  shows "promised c d"
  using assms
proof (induction rule: co_step.induct)
  case (start c)
  then show ?case
    by (auto simp: co_start_def worker_alive_def promised_def futures_inv_def phase_ok_def advances_def outstanding_def)
qed (simp_all add: create_stream_def create_chunked_stream_def co_add_audio_def finish_stream_def co_finish_segment_def
    transcribe_stream_chunk_def co_stream_job_promised transcribe_file_promised abort_stream_promised waits_promised
    cleanup_cancelled_promised co_stop_promised co_worker_boot_promised co_worker_take_promised
    co_worker_prepare_promised co_worker_execute_promised co_worker_settle_promised promised_refl)

definition waiting_inv :: "('h, 'w) Coordinator \<Rightarrow> bool" where
  "waiting_inv c \<longleftrightarrow> queue_inv c \<and> stopped_inv c \<and> futures_inv c"

interpretation waiting: step_system co_initial "co_step T" waiting_inv for T
proof unfold_locales
  fix c :: "('a, 'b) Coordinator"
  assume "co_initial c"
  then show "waiting_inv c"
    using coordinator.init_inv [of c] by (auto simp: waiting_inv_def co_initial_def co_init_def futures_inv_def phase_ok_def)
next
  fix c d :: "('a, 'b) Coordinator"
  assume "waiting_inv c" and "co_step T c d"
  then show "waiting_inv d"
    using coordinator.step_inv [of c T d] co_step_promised [of T c d] by (auto simp: waiting_inv_def promised_def)
qed

lemma co_steps_promised: "(co_step T)\<^sup>*\<^sup>* c d \<Longrightarrow> waiting_inv c \<Longrightarrow> waiting_inv d \<and> promised c d"
proof (induction rule: rtranclp_induct)
  case base
  then show ?case by (simp add: promised_refl waiting_inv_def)
next
  case (step d e)
  then have "waiting_inv d" "promised c d" by simp_all
  with step.hyps(2) step.prems waiting.step_inv [of d T e] co_step_promised [of T d e] show ?case
    by (auto simp: waiting_inv_def intro: promised_trans)
qed

text \<open>C2: no client is left waiting. Whatever happens after a job was admitted (timeouts,
  cancellations, a transcriber that raises or kills the worker, a shutdown), the job is still
  queued or at the worker, or both its futures are completed; and once the worker has stopped,
  every job's futures are completed.\<close>

theorem no_client_left_waiting:
  assumes "reach_from co_initial (co_step T) c" and "(co_step T)\<^sup>*\<^sup>* c d" and "j \<in> set (outstanding c)"
  shows "j \<in> set (outstanding d) \<and> co_phase d \<noteq> WorkerStopped \<or> cell_settled (co_cells d (jb_sequence j))"
proof -
  have c: "waiting_inv c" by (rule waiting.reach_inv [OF assms(1)])
  note d = co_steps_promised [OF assms(2) c]
  show ?thesis
  proof (cases "j \<in> set (outstanding d)")
    case True
    with d have "co_phase d \<noteq> WorkerStopped" by (auto simp: waiting_inv_def stopped_inv_def outstanding_def)
    with True show ?thesis by simp
  next
    case False
    with d assms(3) show ?thesis by (auto simp: promised_def advances_def)
  qed
qed

theorem no_client_left_waiting_witness:
  "let d = co_client_cancelled (hd (co_jobs example_loaded)) example_loaded
   in cell_settled (co_cells d (jb_sequence (hd (co_jobs example_loaded)))) \<or>
      hd (co_jobs example_loaded) \<in> set (outstanding d)"
proof -
  let ?j = "hd (co_jobs example_loaded)"
  have "co_jobs example_loaded \<noteq> []"
    by (simp add: example_coordinator_defs stream_timeout_def Let_def)
  then have j: "?j \<in> set (outstanding example_loaded)" by (simp add: outstanding_def)
  have "(co_step mock_asr)\<^sup>*\<^sup>* example_loaded (co_client_cancelled ?j example_loaded)"
    by (rule r_into_rtranclp) (rule co_step.client_cancelled)
  from no_client_left_waiting [OF example_loaded_reachable this j] show ?thesis unfolding Let_def by blast
qed

end
