(* ===== verification/CoordinatorSessions.thy ===== *)
theory CoordinatorSessions
  imports CoordinatorSafety
begin

text \<open>
  The session tables of the coordinator: a stream session has at most one unfinished operation and
  is marked busy only while it has one, the stream slots are exactly the open sessions and the
  creations under way and stay within the configured number, and while a file transcription is
  pending no stream holds a slot.
\<close>

section \<open>Sessions, streams and the file slot\<close>

definition creates :: "ASRJob \<Rightarrow> bool" where
  "creates j = (case jb_action j of CreateStream _ _ \<Rightarrow> True | CreateChunkedStream _ _ \<Rightarrow> True | _ \<Rightarrow> False)"

fun action_session :: "asr_action \<Rightarrow> string option" where
  "action_session (CreateStream s _) = Some s"
| "action_session (CreateChunkedStream s _) = Some s"
| "action_session (AddAudio s _ _) = Some s"
| "action_session (FinishStream s) = Some s"
| "action_session (FinishSegment s) = Some s"
| "action_session (AbortStream s) = Some s"
| "action_session (TranscribeFile _ _) = None"
| "action_session (TranscribeStreamChunk s _ _) = Some s"
| "action_session Shutdown = None"

text \<open>A job names the session of its action, and an operation on an existing session reserves it.\<close>

definition job_wf :: "ASRJob \<Rightarrow> bool" where
  "job_wf j \<longleftrightarrow> jb_session_id j = action_session (jb_action j) \<and> jb_session_id j \<noteq> Some [] \<and>
     (jb_holds_session_reservation j \<longleftrightarrow> jb_session_id j \<noteq> None \<and> \<not> creates j)"

text \<open>The relations between the outstanding jobs and the session tables. \<open>owns n\<close>: job \<open>n\<close> still owns
  its stream slot; such a job is a creation and no other outstanding job names its session.\<close>

definition owners_ok :: "ASRJob set \<Rightarrow> (nat \<Rightarrow> bool) \<Rightarrow> string set \<Rightarrow> bool" where
  "owners_ok outs owns active \<longleftrightarrow> (\<forall>j \<in> outs. owns (jb_sequence j) \<longrightarrow> creates j \<and> the (jb_session_id j) \<notin> active \<and>
     (\<forall>i \<in> outs. i \<noteq> j \<longrightarrow> jb_session_id i \<noteq> jb_session_id j))"

definition owned :: "ASRJob set \<Rightarrow> (nat \<Rightarrow> bool) \<Rightarrow> string set" where
  "owned outs owns = {s. \<exists>j \<in> outs. owns (jb_sequence j) \<and> jb_session_id j = Some s}"

definition slots_ok :: "int \<Rightarrow> ASRJob set \<Rightarrow> (nat \<Rightarrow> bool) \<Rightarrow> string set \<Rightarrow> string set \<Rightarrow> bool" where
  "slots_ok limit outs owns active slots \<longleftrightarrow>
     finite slots \<and> int (card slots) \<le> limit \<and> slots = active \<union> owned outs owns"

definition single_ok :: "ASRJob set \<Rightarrow> bool" where
  "single_ok outs \<longleftrightarrow> (\<forall>i \<in> outs. \<forall>j \<in> outs. jb_holds_session_reservation i \<and> jb_holds_session_reservation j \<and>
     jb_session_id i = jb_session_id j \<longrightarrow> i = j)"

definition operated :: "ASRJob set \<Rightarrow> string set" where
  "operated outs = {s. \<exists>j \<in> outs. jb_holds_session_reservation j \<and> jb_session_id j = Some s}"

definition busy_ok :: "ASRJob set \<Rightarrow> string set \<Rightarrow> string set \<Rightarrow> bool" where
  "busy_ok outs active busy \<longleftrightarrow> busy \<subseteq> operated outs \<and> active \<inter> operated outs \<subseteq> busy"

definition session_ok ::
  "int \<Rightarrow> ASRJob set \<Rightarrow> (nat \<Rightarrow> bool) \<Rightarrow> string set \<Rightarrow> string set \<Rightarrow> string set \<Rightarrow> bool \<Rightarrow> bool" where
  "session_ok limit outs owns active slots busy pending \<longleftrightarrow>
     (\<forall>j \<in> outs. job_wf j) \<and> owners_ok outs owns active \<and> slots_ok limit outs owns active slots \<and>
     single_ok outs \<and> busy_ok outs active busy \<and> (pending \<longrightarrow> slots = {})"

definition held :: "('h, 'w) Coordinator \<Rightarrow> nat \<Rightarrow> bool" where
  "held c n = cell_holds_stream_reservation (co_cells c n)"

text \<open>The keys of the worker's session table.\<close>

definition table_of :: "(string, 'v) dict \<Rightarrow> string set" where
  "table_of d = fst ` set d"

definition session_inv :: "('h, 'w) Coordinator \<Rightarrow> bool" where
  "session_inv c \<longleftrightarrow>
     session_ok (asr_max_active_streams (co_settings c)) (set (outstanding c)) (held c) (co_active_sessions c)
       (co_stream_reservations c) (co_busy_sessions c) (co_batch_pending c) \<and>
     table_of (co_sessions c) = co_active_sessions c \<and>
     (\<forall>j \<in> set (outstanding c). creates j \<longrightarrow> held c (jb_sequence j) \<or> (\<exists>how. co_phase c = WorkerDone j how)) \<and>
     (co_phase c \<in> {WorkerStopped, WorkerStarting} \<longrightarrow> co_sessions c = [])"

lemma session_ok_held:
  "(\<And>j. j \<in> outs \<Longrightarrow> h (jb_sequence j) = g (jb_sequence j)) \<Longrightarrow>
   session_ok l outs h a s b p = session_ok l outs g a s b p"
  by (auto simp: session_ok_def owners_ok_def slots_ok_def owned_def)

text \<open>A step that leaves the tables and the outstanding jobs alone.\<close>

definition same_sessions :: "('h, 'w) Coordinator \<Rightarrow> ('h, 'w) Coordinator \<Rightarrow> bool" where
  "same_sessions c d \<longleftrightarrow> co_settings d = co_settings c \<and> set (outstanding d) = set (outstanding c) \<and>
     co_active_sessions d = co_active_sessions c \<and> co_stream_reservations d = co_stream_reservations c \<and>
     co_busy_sessions d = co_busy_sessions c \<and> co_batch_pending d = co_batch_pending c \<and>
     table_of (co_sessions d) = table_of (co_sessions c) \<and>
     (\<forall>j \<in> set (outstanding c). held d (jb_sequence j) = held c (jb_sequence j)) \<and>
     (\<forall>j how. co_phase c = WorkerDone j how \<longrightarrow> (\<exists>how. co_phase d = WorkerDone j how)) \<and>
     (co_phase d \<in> {WorkerStopped, WorkerStarting} \<longrightarrow> co_phase c \<in> {WorkerStopped, WorkerStarting})"

lemma session_inv_same:
  assumes "session_inv c" and "same_sessions c d"
  shows "session_inv d"
proof -
  have eqs: "co_settings d = co_settings c" "set (outstanding d) = set (outstanding c)"
    "co_active_sessions d = co_active_sessions c" "co_stream_reservations d = co_stream_reservations c"
    "co_busy_sessions d = co_busy_sessions c" "co_batch_pending d = co_batch_pending c"
    "table_of (co_sessions d) = table_of (co_sessions c)"
    and h: "\<And>j. j \<in> set (outstanding c) \<Longrightarrow> held d (jb_sequence j) = held c (jb_sequence j)"
    and ph: "\<And>j how. co_phase c = WorkerDone j how \<Longrightarrow> \<exists>how. co_phase d = WorkerDone j how"
      "co_phase d \<in> {WorkerStopped, WorkerStarting} \<Longrightarrow> co_phase c \<in> {WorkerStopped, WorkerStarting}"
    using assms(2) unfolding same_sessions_def by blast+
  note inv = assms(1) [unfolded session_inv_def]
  show ?thesis
    unfolding session_inv_def eqs(1-6)
  proof (intro conjI ballI impI)
    show "session_ok (asr_max_active_streams (co_settings c)) (set (outstanding c)) (held d) (co_active_sessions c)
        (co_stream_reservations c) (co_busy_sessions c) (co_batch_pending c)"
      by (rule session_ok_held [THEN iffD2, OF _ inv [THEN conjunct1]]) (rule h)
    show "table_of (co_sessions d) = co_active_sessions c" using inv eqs(7) by simp
    show "held d (jb_sequence j) \<or> (\<exists>how. co_phase d = WorkerDone j how)" if "j \<in> set (outstanding c)" "creates j" for j
      using inv that h [OF that(1)] ph(1) by blast
    show "co_sessions d = []" if "co_phase d \<in> {WorkerStopped, WorkerStarting}"
      using inv ph(2) [OF that] eqs(7) by (auto simp: table_of_def)
  qed
qed

lemma same_sessions_refl [simp]: "same_sessions c c"
  by (auto simp: same_sessions_def)

lemma held_cell_upd:
  "(\<And>x. cell_holds_stream_reservation (f x) = cell_holds_stream_reservation x) \<Longrightarrow> held (cell_upd n f c) m = held c m"
  by (simp add: held_def)

section \<open>Admission\<close>

text \<open>A successful admission: the job joins the outstanding ones, with the slot or the reservation
  it asked for.\<close>

definition admitted :: "bool \<Rightarrow> bool \<Rightarrow> string option \<Rightarrow> ASRJob \<Rightarrow> ('h, 'w) Coordinator \<Rightarrow> ('h, 'w) Coordinator \<Rightarrow> bool" where
  "admitted hs hr sid job c d \<longleftrightarrow> co_settings d = co_settings c \<and>
     set (outstanding d) = insert job (set (outstanding c)) \<and> job \<notin> set (outstanding c) \<and>
     co_active_sessions d = co_active_sessions c \<and>
     co_stream_reservations d = (if hr then insert (the sid) (co_stream_reservations c) else co_stream_reservations c) \<and>
     co_busy_sessions d = (if hs then insert (the sid) (co_busy_sessions c) else co_busy_sessions c) \<and>
     co_batch_pending d = co_batch_pending c \<and> co_sessions d = co_sessions c \<and> co_phase d = co_phase c \<and>
     held d (jb_sequence job) = hr \<and> (\<forall>j \<in> set (outstanding c). held d (jb_sequence j) = held c (jb_sequence j)) \<and>
     jb_session_id job = sid \<and> jb_holds_session_reservation job = hs \<and>
     (hr \<longrightarrow> int (card (co_stream_reservations c)) < asr_max_active_streams (co_settings c) \<and> \<not> co_batch_pending c \<and> sid \<noteq> None) \<and>
     (hs \<longrightarrow> the sid \<in> co_active_sessions c \<and> the sid \<notin> co_busy_sessions c \<and> sid \<noteq> None \<and> sid \<noteq> Some [])"

lemma job_new_sequences:
  "job_new job c \<Longrightarrow> j \<in> set (outstanding c) \<Longrightarrow> jb_sequence j \<noteq> jb_sequence job"
  by (simp add: job_new_def)

text \<open>The state between \<open>_new_job\<close> and the queue: \<open>c\<close> is the state before the call.\<close>

definition prepared :: "bool \<Rightarrow> bool \<Rightarrow> string option \<Rightarrow> ASRJob \<Rightarrow> ('h, 'w) Coordinator \<Rightarrow> ('h, 'w) Coordinator \<Rightarrow> bool" where
  "prepared hs hr sid job c d \<longleftrightarrow> co_settings d = co_settings c \<and> co_jobs d = co_jobs c \<and> co_phase d = co_phase c \<and>
     co_active_sessions d = co_active_sessions c \<and>
     co_stream_reservations d = (if hr then insert (the sid) (co_stream_reservations c) else co_stream_reservations c) \<and>
     co_busy_sessions d = (if hs then insert (the sid) (co_busy_sessions c) else co_busy_sessions c) \<and>
     co_batch_pending d = co_batch_pending c \<and> co_sessions d = co_sessions c \<and>
     (\<forall>j \<in> set (outstanding c). held d (jb_sequence j) = held c (jb_sequence j) \<and> jb_sequence j \<noteq> jb_sequence job)"

lemma refused_same:
  assumes "prepared hs hr sid job c d" and "held d (jb_sequence job) = hr" and "jb_session_id job = sid"
    and "\<And>s. sid = Some s \<Longrightarrow> s \<noteq> [] \<and> (hr \<longrightarrow> s \<notin> co_stream_reservations c) \<and> s \<notin> co_busy_sessions c"
    and "hr \<or> hs \<Longrightarrow> sid \<noteq> None"
  shows "same_sessions c (snd (co_refuse job m d))"
proof -
  have b: "co_busy_sessions c - {s} = co_busy_sessions c" if "sid = Some s" for s using assms(4) [OF that] by auto
  have r: "co_stream_reservations c - {s} = co_stream_reservations c" if "sid = Some s" "hr" for s
    using assms(4) [OF that(1)] that(2) by auto
  have "\<forall>j \<in> set (outstanding c). jb_sequence j \<noteq> jb_sequence job" using assms(1) by (simp add: prepared_def)
  then show ?thesis
    using assms b r
    by (cases sid; cases hr; cases hs)
      (auto simp: co_refuse_def method_defs co_release_stream_reservation_def co_discard_busy_def truthy_id_def
        same_sessions_def prepared_def outstanding_def held_def cell_upd_def insert_Diff_if)
qed

lemma prepared_counts:
  "prepared hs hr sid job c (d\<lparr>co_queued_audio_seconds := a\<rparr>) = prepared hs hr sid job c d"
  "prepared hs hr sid job c (d\<lparr>co_queued_business_jobs := b\<rparr>) = prepared hs hr sid job c d"
  "held (d\<lparr>co_queued_audio_seconds := a\<rparr>) n = held d n" "held (d\<lparr>co_queued_business_jobs := b\<rparr>) n = held d n"
  by (simp_all add: prepared_def held_def)

lemma co_enqueue_sessions:
  assumes p: "prepared hs hr sid job c d" "held d (jb_sequence job) = hr" "jb_session_id job = sid"
    and fresh: "\<And>s. sid = Some s \<Longrightarrow> s \<noteq> [] \<and> (hr \<longrightarrow> s \<notin> co_stream_reservations c) \<and> s \<notin> co_busy_sessions c"
    and some: "hr \<or> hs \<Longrightarrow> sid \<noteq> None" and hs: "jb_holds_session_reservation job = hs"
    and slot: "hr \<Longrightarrow> int (card (co_stream_reservations c)) < asr_max_active_streams (co_settings c) \<and> \<not> co_batch_pending c"
    and open_session: "hs \<Longrightarrow> the sid \<in> co_active_sessions c"
  shows "same_sessions c (snd (co_enqueue job d)) \<or> admitted hs hr sid job c (snd (co_enqueue job d))"
proof -
  have refuse: "same_sessions c (snd (co_refuse job m e))"
    if "prepared hs hr sid job c e" "held e (jb_sequence job) = hr" for m e
    by (rule refused_same [OF that p(3) fresh some])
  have new: "job \<notin> set (outstanding c)" using p(1) by (auto simp: prepared_def)
  have adm: "admitted hs hr sid job c (d\<lparr>co_queued_audio_seconds := a, co_queued_business_jobs := b, co_jobs := co_jobs d @ [job]\<rparr>)"
    for a b
    using p new hs slot some open_session fresh
    by (auto simp: admitted_def prepared_def outstanding_def held_def)
  show ?thesis
    using refuse adm p by (auto simp: co_enqueue_def Let_def prepared_counts)
qed

lemma co_submit_sessions:
  assumes inv: "queue_inv c" and sid: "sid \<noteq> Some []" "hr \<or> hs \<Longrightarrow> sid \<noteq> None"
    and hr: "hr \<Longrightarrow> fresh_id (the sid) c \<and> \<not> hs"
    and neither: "\<not> hr \<and> \<not> hs \<Longrightarrow> sid = None"
  shows "same_sessions c (snd (co_submit a sid p now t audio hs hr c)) \<or>
     (\<exists>job. jb_action job = a \<and> admitted hs hr sid job c (snd (co_submit a sid p now t audio hs hr c)))"
proof -
  obtain job d where job: "co_new_job a sid p now t audio hs hr c = (Inr job, d)" by (auto simp: co_new_job_def)
  then have fields: "jb_sequence job = co_sequence c" "jb_session_id job = sid" "jb_action job = a"
    "jb_holds_session_reservation job = hs" "held d (co_sequence c) = hr"
    and d: "d = c\<lparr>co_sequence := Suc (co_sequence c), co_cells := (co_cells c)(co_sequence c := fresh_cell hr)\<rparr>"
    by (auto simp: co_new_job_def held_def fresh_cell_def)
  have less: "jb_sequence j \<noteq> co_sequence c" if "j \<in> set (outstanding c)" for j
    using outstanding_less [OF inv that] by simp
  have out: "outstanding d = outstanding c" by (simp add: d outstanding_def)
  have held: "held d n = (if n = co_sequence c then hr else held c n)" for n
    by (simp add: d held_def fresh_cell_def)
  have same: "same_sessions c d" unfolding same_sessions_def out using less by (simp add: held) (simp add: d)
  let ?r = "d\<lparr>co_stream_reservations := insert (the sid) (co_stream_reservations d)\<rparr>"
  let ?b = "d\<lparr>co_busy_sessions := insert (the sid) (co_busy_sessions d)\<rparr>"
  have prep: "\<not> hs \<Longrightarrow> \<not> hr \<Longrightarrow> prepared hs hr sid job c d" "hr \<Longrightarrow> prepared hs hr sid job c ?r"
    "hs \<Longrightarrow> \<not> hr \<Longrightarrow> prepared hs hr sid job c ?b"
    using hr less by (auto simp: prepared_def held_def [symmetric] held fields)
      (simp_all add: d held_def)
  have run: "snd (co_submit a sid p now t audio hs hr c) = snd (py_seq (py_check co_require_accepting)
      (py_seq (if hr then co_reserve_stream sid else py_return ())
      (py_seq (if hs then co_reserve_session sid else py_return ()) (co_enqueue job))) d)"
    by (simp add: co_submit_def py_bind_def job)
  have "same_sessions c (snd (py_seq (py_check co_require_accepting)
      (py_seq (if hr then co_reserve_stream sid else py_return ())
      (py_seq (if hs then co_reserve_session sid else py_return ()) (co_enqueue job))) d)) \<or>
    admitted hs hr sid job c (snd (py_seq (py_check co_require_accepting)
      (py_seq (if hr then co_reserve_stream sid else py_return ())
      (py_seq (if hs then co_reserve_session sid else py_return ()) (co_enqueue job))) d))" (is "?goal")
  proof (cases hr)
    case True
    then have f: "fresh_id (the sid) c" "\<not> hs" using hr by auto
    obtain s where s: "sid = Some s" using sid(2) True by auto
    have "same_sessions c (snd (co_enqueue job ?r)) \<or> admitted hs hr sid job c (snd (co_enqueue job ?r))"
      if "int (card (co_stream_reservations c)) < asr_max_active_streams (co_settings c)" "\<not> co_batch_pending c"
      by (rule co_enqueue_sessions [OF prep(2)])
        (use that True f s fields in \<open>auto simp: fresh_id_def held_def\<close>)
    with same True f s show ?thesis
      by (auto simp: py_check_def method_defs co_reserve_stream_def d split: sum.split)
  next
    case False
    show ?thesis
    proof (cases hs)
      case True
      obtain s where s: "sid = Some s" "s \<noteq> []" using sid True by auto
      have "same_sessions c (snd (co_enqueue job ?b)) \<or> admitted hs hr sid job c (snd (co_enqueue job ?b))"
        if "s \<in> co_active_sessions c" "s \<notin> co_busy_sessions c"
        by (rule co_enqueue_sessions [OF prep(3)])
          (use that True False s fields in \<open>auto simp: held_def\<close>)
      with same True False s show ?thesis
        by (auto simp: py_check_def method_defs co_reserve_session_def co_require_session_admissible_def bind_result_def d
            split: sum.split)
    next
      case hs: False
      have "same_sessions c (snd (co_enqueue job d)) \<or> admitted hs hr sid job c (snd (co_enqueue job d))"
        by (rule co_enqueue_sessions [OF prep(1)])
          (use False hs fields neither in \<open>auto simp: held_def\<close>)
      with same False hs show ?thesis
        by (auto simp: py_check_def method_defs split: sum.split)
    qed
  qed
  with fields(3) show ?thesis unfolding run by blast
qed

lemma creates_session: "job_wf j \<Longrightarrow> creates j \<Longrightarrow> \<exists>s. jb_session_id j = Some s \<and> s \<noteq> [] \<and> \<not> jb_holds_session_reservation j"
  by (cases "jb_action j") (auto simp: job_wf_def creates_def)

lemma owners_ok_insert:
  assumes "owners_ok outs h act"
    and "\<And>j. j \<in> outs \<Longrightarrow> h (jb_sequence j) \<Longrightarrow> jb_session_id j \<noteq> jb_session_id job"
    and "h (jb_sequence job) \<Longrightarrow> creates job \<and> the (jb_session_id job) \<notin> act \<and>
      (\<forall>i \<in> outs. jb_session_id i \<noteq> jb_session_id job)"
  shows "owners_ok (insert job outs) h act"
  unfolding owners_ok_def
proof (intro ballI impI conjI)
  fix j assume j: "j \<in> insert job outs" "h (jb_sequence j)"
  then show "creates j" "the (jb_session_id j) \<notin> act" using assms by (auto simp: owners_ok_def)
  fix i assume i: "i \<in> insert job outs" "i \<noteq> j"
  then consider "i = job" "j \<in> outs" | "j = job" "i \<in> outs" | "i \<in> outs" "j \<in> outs" using j(1) by blast
  then show "jb_session_id i \<noteq> jb_session_id j"
    using assms(1) assms(2) [of j] assms(3) j(2) i(2) by cases (auto simp: owners_ok_def)
qed

lemma owned_insert:
  "owned (insert job outs) h = (if h (jb_sequence job) then set_option (jb_session_id job) else {}) \<union> owned outs h"
  by (auto simp: owned_def)

lemma operated_insert:
  "operated (insert job outs) = (if jb_holds_session_reservation job then set_option (jb_session_id job) else {}) \<union> operated outs"
  by (auto simp: operated_def)

lemma single_ok_insert:
  assumes "single_ok outs"
    and "jb_holds_session_reservation job \<Longrightarrow> jb_session_id job = Some s \<and> s \<notin> operated outs"
  shows "single_ok (insert job outs)"
  unfolding single_ok_def
proof (intro ballI impI)
  fix i j assume ij: "i \<in> insert job outs" "j \<in> insert job outs"
    "jb_holds_session_reservation i \<and> jb_holds_session_reservation j \<and> jb_session_id i = jb_session_id j"
  have "k \<notin> outs" if "jb_holds_session_reservation job" "jb_holds_session_reservation k" "jb_session_id k = jb_session_id job" for k
    using assms(2) [OF that(1)] that(2,3) by (auto simp: operated_def)
  with ij assms(1) show "i = j" unfolding single_ok_def by (metis insert_iff)
qed

lemma session_ok_create:
  assumes ok: "session_ok l outs h act slots busy pend" and job: "job_wf job" "creates job" "jb_session_id job = Some s"
    and fresh: "s \<notin> slots" "s \<notin> act" "\<And>j. j \<in> outs \<Longrightarrow> jb_session_id j \<noteq> Some s" and room: "int (card slots) < l" "\<not> pend"
    and h: "h (jb_sequence job)"
  shows "session_ok l (insert job outs) h act (insert s slots) busy pend"
proof -
  have nb: "\<not> jb_holds_session_reservation job" using creates_session [OF job(1,2)] by auto
  have "owners_ok (insert job outs) h act"
    by (rule owners_ok_insert) (use ok job fresh in \<open>auto simp: session_ok_def\<close>)
  moreover have "slots_ok l (insert job outs) h act (insert s slots)"
    using ok job h fresh(1) room(1) by (auto simp: session_ok_def slots_ok_def owned_insert)
  moreover have "single_ok (insert job outs)" by (rule single_ok_insert) (use ok nb in \<open>auto simp: session_ok_def\<close>)
  moreover have "busy_ok (insert job outs) act busy"
    using ok nb by (simp add: session_ok_def busy_ok_def operated_insert)
  ultimately show ?thesis using ok job room(2) by (simp add: session_ok_def)
qed

lemma session_ok_operation:
  assumes ok: "session_ok l outs h act slots busy pend" and job: "job_wf job" "jb_holds_session_reservation job" "jb_session_id job = Some s"
    and s: "s \<in> act" "s \<notin> busy" and h: "\<not> h (jb_sequence job)"
  shows "session_ok l (insert job outs) h act slots (insert s busy) pend"
proof -
  have "s \<notin> operated outs" using ok s by (auto simp: session_ok_def busy_ok_def)
  then have "single_ok (insert job outs)" using ok job(3) by (intro single_ok_insert) (auto simp: session_ok_def)
  moreover have "owners_ok (insert job outs) h act"
    by (rule owners_ok_insert) (use ok job(3) s(1) h in \<open>auto simp: session_ok_def owners_ok_def\<close>)
  moreover have "slots_ok l (insert job outs) h act slots"
    using ok h by (auto simp: session_ok_def slots_ok_def owned_insert)
  moreover have "busy_ok (insert job outs) act (insert s busy)"
    using ok job by (auto simp: session_ok_def busy_ok_def operated_insert)
  ultimately show ?thesis using ok job(1) by (simp add: session_ok_def)
qed

lemma session_ok_plain:
  assumes ok: "session_ok l outs h act slots busy pend" and job: "job_wf job" "jb_session_id job = None"
    and h: "\<not> h (jb_sequence job)"
  shows "session_ok l (insert job outs) h act slots busy pend"
proof -
  have nb: "\<not> jb_holds_session_reservation job" using job by (simp add: job_wf_def)
  have "owners_ok (insert job outs) h act"
  proof (rule owners_ok_insert)
    show "jb_session_id j \<noteq> jb_session_id job" if "j \<in> outs" "h (jb_sequence j)" for j
      using creates_session [of j] ok that job(2) by (auto simp: session_ok_def owners_ok_def)
  qed (use ok h in \<open>auto simp: session_ok_def\<close>)
  moreover have "single_ok (insert job outs)" by (rule single_ok_insert) (use ok nb in \<open>auto simp: session_ok_def\<close>)
  ultimately show ?thesis
    using ok job(1) nb h by (auto simp: session_ok_def slots_ok_def owned_insert busy_ok_def operated_insert)
qed

lemma session_inv_admitted:
  assumes inv: "session_inv c" and adm: "admitted hs hr sid job c d" and job: "job_wf job" "creates job = hr"
    and fresh: "hr \<Longrightarrow> fresh_id (the sid) c" and hs: "hs \<Longrightarrow> \<not> hr"
    and live: "co_phase c \<notin> {WorkerStopped, WorkerStarting} \<or> co_sessions c = []"
  shows "session_inv d"
proof -
  let ?l = "asr_max_active_streams (co_settings c)" and ?outs = "set (outstanding c)"
  note a = adm [unfolded admitted_def]
  have ok: "session_ok ?l ?outs (held d) (co_active_sessions c) (co_stream_reservations c) (co_busy_sessions c) (co_batch_pending c)"
    by (rule session_ok_held [THEN iffD2, OF _ inv [unfolded session_inv_def, THEN conjunct1]]) (use a in blast)
  have "session_ok ?l (insert job ?outs) (held d) (co_active_sessions c)
      (if hr then insert (the sid) (co_stream_reservations c) else co_stream_reservations c)
      (if hs then insert (the sid) (co_busy_sessions c) else co_busy_sessions c) (co_batch_pending c)"
  proof (cases hr)
    case True
    then obtain s where s: "sid = Some s" using a by auto
    with True fresh [OF True] a hs job session_ok_create [OF ok job(1), of s] show ?thesis by (auto simp: fresh_id_def)
  next
    case False
    show ?thesis
    proof (cases hs)
      case True
      then obtain s where s: "sid = Some s" using a by auto
      with True False a session_ok_operation [OF ok job(1), of s] show ?thesis by auto
    next
      case hs: False
      have "jb_session_id job = None" using job hs False a by (auto simp: job_wf_def)
      with False hs a session_ok_plain [OF ok job(1)] show ?thesis by auto
    qed
  qed
  with inv a job(2) live show ?thesis unfolding session_inv_def by auto
qed

section \<open>Client steps\<close>

lemma session_inv_live: "session_inv c \<Longrightarrow> co_phase c \<notin> {WorkerStopped, WorkerStarting} \<or> co_sessions c = []"
  unfolding session_inv_def by blast

lemma co_submit_keeps_sessions:
  assumes inv: "session_inv c" "queue_inv c" and sid: "sid \<noteq> Some []" "action_session a = sid"
    and kind: "hr \<longleftrightarrow> (case a of CreateStream _ _ \<Rightarrow> True | CreateChunkedStream _ _ \<Rightarrow> True | _ \<Rightarrow> False)"
      "hs \<longleftrightarrow> sid \<noteq> None \<and> \<not> hr"
    and fresh: "hr \<Longrightarrow> fresh_id (the sid) c"
  shows "session_inv (snd (co_submit a sid p now t audio hs hr c))"
proof -
  have some: "hr \<or> hs \<Longrightarrow> sid \<noteq> None" using kind sid(2) by (cases a) auto
  have "same_sessions c (snd (co_submit a sid p now t audio hs hr c)) \<or>
     (\<exists>job. jb_action job = a \<and> admitted hs hr sid job c (snd (co_submit a sid p now t audio hs hr c)))"
    by (rule co_submit_sessions [OF inv(2) sid(1) some]) (use kind fresh in auto)
  then show ?thesis
  proof
    assume "same_sessions c (snd (co_submit a sid p now t audio hs hr c))"
    with inv(1) show ?thesis by (rule session_inv_same)
  next
    assume "\<exists>job. jb_action job = a \<and> admitted hs hr sid job c (snd (co_submit a sid p now t audio hs hr c))"
    then obtain job where job: "jb_action job = a" "admitted hs hr sid job c (snd (co_submit a sid p now t audio hs hr c))" by blast
    then have f: "jb_session_id job = sid" "jb_holds_session_reservation job = hs" by (auto simp: admitted_def)
    have "creates job = hr" using job(1) kind(1) by (simp add: creates_def)
    moreover have "job_wf job" using f sid kind job(1) \<open>creates job = hr\<close> by (auto simp: job_wf_def)
    ultimately show ?thesis
      using session_inv_admitted [OF inv(1) job(2) _ _ fresh _ session_inv_live [OF inv(1)]] kind(2) by blast
  qed
qed

lemma co_stream_job_keeps_sessions:
  assumes "session_inv c" and "queue_inv c" and "s \<noteq> []" and "action_session a = Some s"
    and "hr \<longleftrightarrow> (case a of CreateStream _ _ \<Rightarrow> True | CreateChunkedStream _ _ \<Rightarrow> True | _ \<Rightarrow> False)" "hs \<longleftrightarrow> \<not> hr"
    and "hr \<Longrightarrow> fresh_id s c"
  shows "session_inv (snd (co_stream_job a s now audio hs hr c))"
  unfolding co_stream_job_def py_bind_def py_read_def
  by simp (rule co_submit_keeps_sessions, use assms in auto)

lemma poison_same: "same_sessions c (c\<lparr>co_poisoned_sessions := p\<rparr>)"
  by (auto simp: same_sessions_def outstanding_def held_def)

lemma abort_stream_keeps_sessions:
  assumes "session_inv c" and "queue_inv c" and "s \<noteq> []"
  shows "session_inv (snd (abort_stream s now c))"
proof -
  have "session_inv (snd (co_stream_job (AbortStream s) s now 0 True False c))"
    by (rule co_stream_job_keeps_sessions) (use assms in auto)
  with assms(1) show ?thesis
    by (auto simp: abort_stream_def split: prod.split sum.split py_error.split intro: session_inv_same [OF _ poison_same])
qed

lemma cleanup_cancelled_keeps_sessions:
  assumes "session_inv c" and "queue_inv c" and "s \<noteq> []"
  shows "session_inv (snd (co_cleanup_cancelled s now c))"
proof -
  let ?c = "c\<lparr>co_poisoned_sessions := co_poisoned_sessions c - {s}\<rparr>"
  have "session_inv (snd (abort_stream s now ?c))"
    by (rule abort_stream_keeps_sessions [OF session_inv_same [OF assms(1) poison_same] _ assms(3)])
      (use assms(2) in \<open>auto intro: queue_inv_view\<close>)
  with assms(1) show ?thesis
    by (auto simp: co_cleanup_cancelled_def split: prod.split sum.split intro: session_inv_same [OF _ poison_same])
qed

lemma session_inv_pending:
  assumes "session_inv c" and "b \<longrightarrow> co_stream_reservations c = {}"
  shows "session_inv (c\<lparr>co_batch_pending := b\<rparr>)"
  using assms unfolding session_inv_def
  by (simp add: outstanding_def held_def [abs_def] session_ok_def)

lemma file_done_keeps_sessions: "session_inv c \<Longrightarrow> session_inv (co_file_done c)"
  unfolding co_file_done_def by (rule session_inv_pending) simp_all

lemma claim_file_keeps_sessions:
  assumes "session_inv c" and "co_claim_file c = (r, d)"
  shows "session_inv d"
proof -
  have "d = c \<or> d = c\<lparr>co_batch_pending := True\<rparr> \<and> co_stream_reservations c = {}"
    using assms(2) by (auto simp: co_claim_file_def py_check_def method_defs split: sum.splits if_splits)
  then show ?thesis
    using assms(1) session_inv_pending [OF assms(1), of True] by auto
qed

lemma transcribe_file_keeps_sessions:
  assumes "session_inv c" and "queue_inv c"
  shows "session_inv (snd (transcribe_file path language now c))"
proof -
  obtain r d where rd: "co_claim_file c = (r, d)" by (cases "co_claim_file c")
  have d: "session_inv d" by (rule claim_file_keeps_sessions [OF assms(1) rd])
  have q: "queue_inv d" by (rule queue_inv_view [OF keepsD [OF keeps_queue_view(6) rd] assms(2)])
  let ?submit = "co_submit (TranscribeFile path language) None 10 now (stream_timeout d) 0 False False d"
  obtain w e where we: "?submit = (w, e)" by (cases ?submit)
  have "session_inv (snd ?submit)" by (rule co_submit_keeps_sessions [OF d q]) auto
  then have "session_inv e" using we by simp
  with rd we d file_done_keeps_sessions show ?thesis
    by (cases r; cases w) (simp_all add: transcribe_file_def method_defs)
qed

lemma waits_keep_sessions:
  assumes "session_inv c"
  shows "session_inv (snd (co_queue_timeout j c))" "session_inv (co_client_cancelled j c)"
    "session_inv (snd (co_inference_timeout j c))"
proof -
  have w: "same_sessions c (snd (co_withdraw j c))"
    by (auto simp: co_withdraw_def Let_def same_sessions_def outstanding_def held_def cell_upd_def split: prod.split)
  have p: "same_sessions d (co_poison sid d)" for sid and d :: "('a, 'b) Coordinator"
    by (auto simp: co_poison_def poison_same split: option.split)
  from w session_inv_same [OF assms] have "session_inv (snd (co_withdraw j c))" by blast
  with session_inv_same [OF _ p] assms show "session_inv (snd (co_queue_timeout j c))" "session_inv (co_client_cancelled j c)"
    "session_inv (snd (co_inference_timeout j c))"
    by (auto simp: co_queue_timeout_def co_client_cancelled_def co_inference_timeout_def split: prod.split bool.split)
qed

section \<open>Worker steps\<close>

definition sess_view ::
  "('h, 'w) Coordinator \<Rightarrow> Settings \<times> ASRJob list \<times> string set \<times> string set \<times> string set \<times> bool \<times>
     (string, 'h worker_session) dict \<times> (nat \<Rightarrow> bool)" where
  "sess_view c = (co_settings c, co_jobs c, co_active_sessions c, co_stream_reservations c, co_busy_sessions c,
     co_batch_pending c, co_sessions c, held c)"

lemma same_sessions_view:
  assumes "sess_view d = sess_view c" and "worker_jobs (co_phase d) = worker_jobs (co_phase c)"
    and "\<And>j how. co_phase c = WorkerDone j how \<Longrightarrow> \<exists>how. co_phase d = WorkerDone j how"
    and "co_phase d \<in> {WorkerStopped, WorkerStarting} \<Longrightarrow> co_phase c \<in> {WorkerStopped, WorkerStarting}"
  shows "same_sessions c d"
  using assms by (simp add: same_sessions_def sess_view_def outstanding_def)

lemma keeps_sess_world: "keeps sess_view (on_world m)"
  by (rule keeps_on_world) (simp add: sess_view_def held_def fun_eq_iff)

lemma sess_view_cells:
  "(\<And>x. cell_holds_stream_reservation (f x) = cell_holds_stream_reservation x) \<Longrightarrow> sess_view (cell_upd n f c) = sess_view c"
  by (simp add: sess_view_def held_def fun_eq_iff cell_upd_def)

lemma keeps_sess_warm: "keeps sess_view (co_warm T)"
  by (auto simp: keeps_def co_warm_def on_world_def sess_view_def held_def fun_eq_iff split: prod.split sum.split)

lemma co_worker_take_keeps_sessions:
  assumes "session_inv c" and "co_phase c = WorkerIdle" and "co_jobs c \<noteq> []" and "queue_inv c"
  shows "session_inv (co_worker_take c)"
proof -
  have "next_job c \<in> set (co_jobs c)" unfolding next_job_def by (rule arg_min_list_in) (rule assms(3))
  moreover have "distinct (co_jobs c)"
    using assms(4) by (auto simp: queue_inv_def queue_view_def queue_ok_def distinct_map)
  ultimately have "same_sessions c (co_worker_take c)"
    using assms(2) by (auto simp: co_worker_take_def Let_def co_release_queue_slot_def same_sessions_def outstanding_def held_def)
  with assms(1) show ?thesis by (rule session_inv_same)
qed

lemma co_worker_prepare_keeps_sessions:
  fixes c :: "('h, 'w) Coordinator"
  assumes inv: "session_inv c" and ph: "co_phase c = WorkerTaken j"
  shows "session_inv (co_worker_prepare T j n1 n2 n3 c)"
proof -
  have phase: "session_inv (d\<lparr>co_phase := p\<rparr>)"
    if v: "sess_view d = sess_view c" and p: "worker_jobs p = [j]" "p \<notin> {WorkerStopped, WorkerStarting}"
    for d :: "('h, 'w) Coordinator" and p
  proof (rule session_inv_same [OF inv], rule same_sessions_view)
    show "sess_view (d\<lparr>co_phase := p\<rparr>) = sess_view c" using v by (simp add: sess_view_def held_def fun_eq_iff)
  qed (use p ph in auto)
  have warm: "sess_view d = sess_view c" if "co_warm T c = (r, d)" for r d
    using keepsD [OF keeps_sess_warm that] .
  have expired: "sess_view e = sess_view d" if "co_expired_before_start j n d = Some e" for n d e
    using that by (auto simp: co_expired_before_start_def co_reject_unclaimed_def sess_view_cells split: if_splits prod.split)
  have claim: "sess_view e = sess_view d" if "co_claim_job j d = (ok, e)" for d ok e
    using that by (auto simp: co_claim_job_def Let_def sess_view_cells split: prod.splits if_splits)
  show ?thesis
    unfolding co_worker_prepare_def
    by (auto split: option.split prod.split sum.split bool.split dest!: expired warm claim intro!: phase simp: sess_view_cells)
qed

text \<open>Opening a session: its creation hands its slot over to the table.\<close>

lemma session_ok_open:
  assumes ok: "session_ok l outs h act slots busy pend" and j: "j \<in> outs" "h (jb_sequence j)" "jb_session_id j = Some s"
    and inj: "\<And>i. i \<in> outs \<Longrightarrow> jb_sequence i = jb_sequence j \<Longrightarrow> i = j"
  shows "session_ok l outs (h(jb_sequence j := False)) (insert s act) slots busy pend"
proof -
  have own: "\<forall>i \<in> outs. i \<noteq> j \<longrightarrow> jb_session_id i \<noteq> Some s" "creates j" "s \<notin> act"
    using ok j by (auto simp: session_ok_def owners_ok_def)
  have "owners_ok outs (h(jb_sequence j := False)) (insert s act)"
    unfolding owners_ok_def
  proof (intro ballI impI conjI)
    fix k assume k: "k \<in> outs" "(h(jb_sequence j := False)) (jb_sequence k)"
    then have "k \<noteq> j" "h (jb_sequence k)" by (auto split: if_splits)
    with k(1) ok own(1) show "creates k" "\<And>i. i \<in> outs \<Longrightarrow> i \<noteq> k \<Longrightarrow> jb_session_id i \<noteq> jb_session_id k"
      by (auto simp: session_ok_def owners_ok_def)
    have "job_wf k" using ok k(1) by (simp add: session_ok_def)
    from creates_session [OF this \<open>creates k\<close>] obtain x where "jb_session_id k = Some x" by blast
    with own(1) k(1) \<open>k \<noteq> j\<close> \<open>h (jb_sequence k)\<close> ok show "the (jb_session_id k) \<notin> insert s act"
      by (auto simp: session_ok_def owners_ok_def)
  qed
  moreover have "owned outs h = insert s (owned outs (h(jb_sequence j := False)))"
  proof (intro set_eqI iffI)
    fix x assume "x \<in> owned outs h"
    then obtain i where i: "i \<in> outs" "h (jb_sequence i)" "jb_session_id i = Some x" by (auto simp: owned_def)
    show "x \<in> insert s (owned outs (h(jb_sequence j := False)))"
    proof (cases "i = j")
      case False
      then have "jb_sequence i \<noteq> jb_sequence j" using inj i(1) by blast
      with i show ?thesis by (auto simp: owned_def)
    qed (use i j in auto)
  qed (use j in \<open>auto simp: owned_def split: if_splits\<close>)
  then have "slots_ok l outs (h(jb_sequence j := False)) (insert s act) slots"
    using ok by (auto simp: session_ok_def slots_ok_def)
  moreover have "\<not> jb_holds_session_reservation j" using creates_session [of j] ok j own(2) by (auto simp: session_ok_def)
  then have "s \<notin> operated outs" using own(1) by (auto simp: operated_def)
  then have "busy_ok outs (insert s act) busy" using ok by (auto simp: session_ok_def busy_ok_def)
  ultimately show ?thesis using ok by (simp add: session_ok_def)
qed

text \<open>Forgetting a session that no creation names.\<close>

lemma session_ok_forget:
  assumes ok: "session_ok l outs h act slots busy pend" and j: "j \<in> outs" "jb_session_id j = Some s" "\<not> creates j"
  shows "session_ok l outs h (act - {s}) (slots - {s}) busy pend"
proof -
  have "s \<notin> owned outs h"
  proof
    assume "s \<in> owned outs h"
    then obtain i where i: "i \<in> outs" "h (jb_sequence i)" "jb_session_id i = Some s" by (auto simp: owned_def)
    then have "creates i" "\<forall>k \<in> outs. k \<noteq> i \<longrightarrow> jb_session_id k \<noteq> Some s" using ok by (auto simp: session_ok_def owners_ok_def)
    with j show False by auto
  qed
  moreover have "card (slots - {s}) \<le> card slots" by (rule card_Diff1_le)
  ultimately have "slots_ok l outs h (act - {s}) (slots - {s})"
    using ok by (auto simp: session_ok_def slots_ok_def)
  then show ?thesis using ok by (auto simp: session_ok_def owners_ok_def busy_ok_def)
qed

text \<open>Settling a job: the tables without its session if it was poisoned, without its reservation and
  its slot.\<close>

lemma owned_without:
  "owned (outs - {j}) h \<subseteq> owned outs h" "operated (outs - {j}) \<subseteq> operated outs"
  by (auto simp: owned_def operated_def)

lemma session_ok_settle:
  assumes ok: "session_ok l outs h act slots busy pend" and j: "j \<in> outs" "jb_session_id j = Some s"
    and inj: "\<And>i. i \<in> outs \<Longrightarrow> jb_sequence i = jb_sequence j \<Longrightarrow> i = j"
  shows "session_ok l (outs - {j}) (h(jb_sequence j := False)) (if p then act - {s} else act)
     (if p \<or> h (jb_sequence j) then slots - {s} else slots)
     (if p \<or> jb_holds_session_reservation j then busy - {s} else busy) pend"
proof -
  let ?outs = "outs - {j}" and ?h = "h(jb_sequence j := False)" and ?act = "if p then act - {s} else act"
  let ?slots = "if p \<or> h (jb_sequence j) then slots - {s} else slots"
  let ?busy = "if p \<or> jb_holds_session_reservation j then busy - {s} else busy"
  have h: "?h (jb_sequence i) = h (jb_sequence i)" if "i \<in> ?outs" for i using inj that by auto
  have owners: "owners_ok ?outs ?h ?act" using ok h by (auto simp: session_ok_def owners_ok_def)
  have "s \<notin> owned ?outs ?h" using ok j h by (auto simp: session_ok_def owners_ok_def owned_def)
  moreover have "owned outs h = owned ?outs ?h \<union> (if h (jb_sequence j) then {s} else {})"
    using j h by (auto simp: owned_def)
  moreover have "s \<notin> act" if "h (jb_sequence j)" using ok j that by (auto simp: session_ok_def owners_ok_def)
  ultimately have eq: "?slots = ?act \<union> owned ?outs ?h"
    using ok by (auto simp: session_ok_def slots_ok_def)
  have "card ?slots \<le> card slots" by (simp add: card_Diff1_le)
  moreover have fin: "finite ?slots" and lim: "int (card slots) \<le> l" using ok by (auto simp: session_ok_def slots_ok_def)
  ultimately have "int (card ?slots) \<le> l" by linarith
  with fin eq have slots: "slots_ok l ?outs ?h ?act ?slots" unfolding slots_ok_def by blast
  have single: "single_ok ?outs" using ok by (auto simp: session_ok_def single_ok_def)
  have op: "operated outs = operated ?outs \<union> (if jb_holds_session_reservation j then {s} else {})"
    using j by (auto simp: operated_def)
  have alone: "s \<notin> operated ?outs" if "jb_holds_session_reservation j"
    using ok j that by (auto simp: session_ok_def single_ok_def operated_def)
  have "busy \<subseteq> operated outs" "act \<inter> operated outs \<subseteq> busy" using ok by (auto simp: session_ok_def busy_ok_def)
  then have "busy_ok ?outs ?act ?busy"
    using op alone by (cases "jb_holds_session_reservation j"; cases p) (auto simp: busy_ok_def)
  with owners slots single ok show ?thesis by (auto simp: session_ok_def)
qed

text \<open>What executing a job does to the tables: nothing, or it opens the session its creation reserved, or
  it forgets the session its job names.\<close>

definition opened :: "string \<Rightarrow> nat \<Rightarrow> ('h, 'w) Coordinator \<Rightarrow> ('h, 'w) Coordinator \<Rightarrow> bool" where
  "opened s n c d \<longleftrightarrow> co_settings d = co_settings c \<and> co_jobs d = co_jobs c \<and>
     co_active_sessions d = insert s (co_active_sessions c) \<and> co_stream_reservations d = co_stream_reservations c \<and>
     co_busy_sessions d = co_busy_sessions c \<and> co_batch_pending d = co_batch_pending c \<and>
     table_of (co_sessions d) = insert s (table_of (co_sessions c)) \<and> held d = (held c)(n := False)"

definition forgotten :: "string \<Rightarrow> ('h, 'w) Coordinator \<Rightarrow> ('h, 'w) Coordinator \<Rightarrow> bool" where
  "forgotten s c d \<longleftrightarrow> co_settings d = co_settings c \<and> co_jobs d = co_jobs c \<and>
     co_active_sessions d = co_active_sessions c - {s} \<and> co_stream_reservations d = co_stream_reservations c - {s} \<and>
     co_busy_sessions d = co_busy_sessions c \<and> co_batch_pending d = co_batch_pending c \<and>
     table_of (co_sessions d) = table_of (co_sessions c) - {s} \<and> held d = held c"

lemma keeps_sess_with_session: "keeps sess_view (co_with_session s g)"
  unfolding keeps_def co_with_session_def
  using keeps_sess_world by (auto simp: keeps_def split: option.split worker_session.split)

lemma table_of_update [simp]: "table_of (AList.update s x d) = insert s (table_of d)"
  by (simp add: table_of_def dom_update)

lemma table_of_delete [simp]: "table_of (AList.delete s d) = table_of d - {s}"
  proof -
  have "set (map fst (AList.delete s d)) = set (map fst d) - {s}" unfolding AList.delete_keys by auto
  then show ?thesis by (simp add: table_of_def)
qed

lemma co_open_session_opened:
  assumes "sess_view d = sess_view c"
  shows "opened s (jb_sequence j) c (snd (co_open_session s j x d))"
  using assms by (simp add: co_open_session_def method_defs opened_def sess_view_def held_def cell_upd_def fun_eq_iff)

lemma co_forget_forgotten:
  assumes "sess_view d = sess_view c \<or> sess_view d = sess_view (c\<lparr>co_sessions := AList.delete s (co_sessions c)\<rparr>)"
  shows "forgotten s c (snd (co_forget s d))"
  using assms by (auto simp: co_forget_def method_defs forgotten_def sess_view_def held_def fun_eq_iff)

lemma finally_forget:
  "keeps sess_view m \<Longrightarrow> sess_view c' = sess_view c \<or> sess_view c' = sess_view (c\<lparr>co_sessions := AList.delete s (co_sessions c)\<rparr>) \<Longrightarrow>
   forgotten s c (snd (py_finally m (co_forget s) c'))"
  using co_forget_forgotten [of "snd (m c')" c s]
  by (auto simp: py_finally_def keeps_def split: prod.split sum.split)

lemma co_finish_stream_job_tables:
  "sess_view (snd (co_finish_stream_job T s c)) = sess_view c \<or> forgotten s c (snd (co_finish_stream_job T s c))"
proof (cases "map_of (co_sessions c) s")
  case (Some x)
  have "forgotten s c (snd (co_finish_stream_job T s c))"
    unfolding co_finish_stream_job_def Some option.case
    by (rule finally_forget)
      (auto intro!: keeps_rules keeps_except_exception keeps_abort_session keeps_sess_with_session keeps_sess_world)
  then show ?thesis by simp
qed (simp add: co_finish_stream_job_def)

lemma co_abort_stream_job_tables: "forgotten s c (snd (co_abort_stream_job T s c))"
  unfolding co_abort_stream_job_def Let_def
  by (rule finally_forget)
    (auto intro!: keeps_rules keeps_abort_session keeps_sess_world split: option.split)

lemma co_execute_tables:
  assumes "co_execute_action T j a c = (r, d)"
  shows "sess_view d = sess_view c \<or>
     (\<exists>s. action_session a = Some s \<and> (\<exists>l. a = CreateStream s l \<or> a = CreateChunkedStream s l) \<and> opened s (jb_sequence j) c d) \<or>
     (\<exists>s. (a = FinishStream s \<or> a = AbortStream s) \<and> forgotten s c d)"
proof (cases a)
  case (CreateStream s l)
  obtain q e where q: "on_world (at_create_streaming_session T l) c = (q, e)"
    by (cases "on_world (at_create_streaming_session T l) c")
  note view = keepsD [OF keeps_sess_world q]
  show ?thesis
  proof (cases q)
    case (Inl x)
    with assms q CreateStream view show ?thesis by (simp add: py_bind_def)
  next
    case (Inr h)
    with assms q CreateStream have "d = snd (co_open_session s j (Streaming h) e)" by (simp add: py_bind_def)
    with co_open_session_opened [OF view] CreateStream show ?thesis by auto
  qed
next
  case (CreateChunkedStream s l)
  with assms have "d = snd (co_open_session s j ChunkedSession c)" by simp
  with co_open_session_opened [OF refl] CreateChunkedStream show ?thesis by auto
next
  case (FinishStream s)
  with assms co_finish_stream_job_tables [of T s c] show ?thesis by auto
next
  case (AbortStream s)
  with assms co_abort_stream_job_tables [of s c T] show ?thesis by auto
next
  case (TranscribeFile p l)
  have "keeps sess_view (co_transcribe_file_job T p l)"
    unfolding co_transcribe_file_job_def
    by (auto intro!: keeps_rules keeps_sess_world simp: sess_view_def held_def fun_eq_iff)
  from keepsD [OF this] assms TranscribeFile show ?thesis by auto
next
  case (AddAudio s p n)
  have "keeps sess_view (co_execute_action T j a)"
    unfolding AddAudio by (auto intro!: keeps_rules keeps_sess_with_session)
  from keepsD [OF this assms] show ?thesis by simp
next
  case (FinishSegment s)
  have "keeps sess_view (co_execute_action T j a)"
    unfolding FinishSegment by (auto intro!: keeps_rules keeps_sess_with_session)
  from keepsD [OF this assms] show ?thesis by simp
next
  case (TranscribeStreamChunk s p n)
  have "keeps sess_view (co_execute_action T j a)"
    unfolding TranscribeStreamChunk by (auto intro!: keeps_rules keeps_sess_world)
  from keepsD [OF this assms] show ?thesis by simp
next
  case Shutdown
  with assms show ?thesis by (simp add: py_raise_def)
qed

lemma session_inv_fields:
  assumes "session_inv c"
  shows "session_ok (asr_max_active_streams (co_settings c)) (set (outstanding c)) (held c) (co_active_sessions c)
       (co_stream_reservations c) (co_busy_sessions c) (co_batch_pending c)"
    and "table_of (co_sessions c) = co_active_sessions c"
    and "\<And>j. j \<in> set (outstanding c) \<Longrightarrow> creates j \<Longrightarrow> held c (jb_sequence j) \<or> (\<exists>how. co_phase c = WorkerDone j how)"
    and "j \<in> set (outstanding c) \<Longrightarrow> job_wf j"
proof -
  note inv = assms [unfolded session_inv_def]
  show ok: "session_ok (asr_max_active_streams (co_settings c)) (set (outstanding c)) (held c) (co_active_sessions c)
       (co_stream_reservations c) (co_busy_sessions c) (co_batch_pending c)" by (rule inv [THEN conjunct1])
  show "table_of (co_sessions c) = co_active_sessions c" by (rule inv [THEN conjunct2, THEN conjunct1])
  show "held c (jb_sequence j) \<or> (\<exists>how. co_phase c = WorkerDone j how)" if "j \<in> set (outstanding c)" "creates j" for j
    using inv [THEN conjunct2, THEN conjunct2, THEN conjunct1] that by blast
  show "job_wf j" if "j \<in> set (outstanding c)" using ok that by (simp add: session_ok_def)
qed

lemma outstanding_injective:
  assumes "queue_inv c" and "i \<in> set (outstanding c)" and "j \<in> set (outstanding c)" and "jb_sequence i = jb_sequence j"
  shows "i = j"
proof -
  have "distinct (map jb_sequence (outstanding c))"
    using assms(1) by (simp add: queue_inv_def queue_view_def queue_ok_def outstanding_def)
  then show ?thesis using assms(2-4) by (simp add: distinct_map inj_on_def)
qed

lemma done_session_inv:
  fixes d :: "('h, 'w) Coordinator"
  assumes "session_ok (asr_max_active_streams (co_settings d)) (set (j # co_jobs d)) (held d) (co_active_sessions d)
       (co_stream_reservations d) (co_busy_sessions d) (co_batch_pending d)"
    and "table_of (co_sessions d) = co_active_sessions d"
    and "\<And>i. i \<in> set (co_jobs d) \<Longrightarrow> creates i \<Longrightarrow> held d (jb_sequence i)"
  shows "session_inv (d\<lparr>co_phase := WorkerDone j how\<rparr>)"
proof -
  have "held (d\<lparr>co_phase := WorkerDone j how\<rparr>) = held d" by (simp add: held_def fun_eq_iff)
  with assms show ?thesis by (auto simp: session_inv_def outstanding_def)
qed

lemma co_worker_execute_keeps_sessions:
  assumes inv: "session_inv c" and queue: "queue_inv c" and ph: "co_phase c = WorkerClaimed j w"
  shows "session_inv (co_worker_execute T j w e c)"
proof -
  obtain r d where rd: "co_execute_action T j (jb_action j) c = (r, d)" by (cases "co_execute_action T j (jb_action j) c")
  note ok = session_inv_fields [OF inv]
  have outs: "set (outstanding c) = set (j # co_jobs c)" and j: "j \<in> set (outstanding c)" using ph by (auto simp: outstanding_def)
  have created: "held c (jb_sequence i)" if "i \<in> set (j # co_jobs c)" "creates i" for i
    using ok(3) [of i] that ph outs by auto
  have sid: "jb_session_id j = action_session (jb_action j)" using ok(4) [OF j] by (simp add: job_wf_def)
  have fresh: "jb_sequence i \<noteq> jb_sequence j" if "i \<in> set (co_jobs c)" for i
  proof -
    have "distinct (map jb_sequence (j # co_jobs c))" using queue ph by (simp add: queue_inv_def queue_view_def queue_ok_def)
    then have "jb_sequence j \<notin> jb_sequence ` set (co_jobs c)" by simp
    with that show ?thesis by (metis image_eqI)
  qed
  have "session_inv (d\<lparr>co_phase := WorkerDone j how\<rparr>)" for how
    using co_execute_tables [OF rd]
  proof (elim disjE)
    assume v: "sess_view d = sess_view c"
    show ?thesis
      by (rule done_session_inv) (use v ok created outs in \<open>auto simp: sess_view_def\<close>)
  next
    assume "\<exists>s. action_session (jb_action j) = Some s \<and>
      (\<exists>l. jb_action j = CreateStream s l \<or> jb_action j = CreateChunkedStream s l) \<and> opened s (jb_sequence j) c d"
    then obtain s l where s: "action_session (jb_action j) = Some s" and o: "opened s (jb_sequence j) c d"
      and "jb_action j = CreateStream s l \<or> jb_action j = CreateChunkedStream s l" by blast
    then have "creates j" by (auto simp: creates_def)
    then have h: "held c (jb_sequence j)" using created by simp
    have "session_ok (asr_max_active_streams (co_settings c)) (set (outstanding c)) ((held c)(jb_sequence j := False))
        (insert s (co_active_sessions c)) (co_stream_reservations c) (co_busy_sessions c) (co_batch_pending c)"
      by (rule session_ok_open [OF ok(1) j h]) (use sid s outstanding_injective [OF queue _ j] in auto)
    then show ?thesis
      by (intro done_session_inv) (use o ok(2) outs created fresh in \<open>auto simp: opened_def\<close>)
  next
    assume "\<exists>s. (jb_action j = FinishStream s \<or> jb_action j = AbortStream s) \<and> forgotten s c d"
    then obtain s where a: "jb_action j = FinishStream s \<or> jb_action j = AbortStream s" and f: "forgotten s c d" by blast
    then have "session_ok (asr_max_active_streams (co_settings c)) (set (outstanding c)) (held c)
        (co_active_sessions c - {s}) (co_stream_reservations c - {s}) (co_busy_sessions c) (co_batch_pending c)"
      by (intro session_ok_forget [OF ok(1) j]) (use sid in \<open>auto simp: creates_def\<close>)
    then show ?thesis
      by (intro done_session_inv) (use f ok(2) outs created in \<open>auto simp: forgotten_def\<close>)
  qed
  with rd show ?thesis by (simp add: co_worker_execute_def split: sum.split)
qed

section \<open>Settling a job and the end of the worker\<close>

text \<open>The transcriber's sessions end quietly: \<open>abort\<close> may raise an \<open>Exception\<close>, not a \<open>KeyboardInterrupt\<close>,
  \<open>SystemExit\<close> or \<open>GeneratorExit\<close>, which only the main thread or a generator sees.\<close>

definition aborts_quietly :: "('h, 'w) asr_transcriber \<Rightarrow> bool" where
  "aborts_quietly T \<longleftrightarrow> (\<forall>h w e w'. at_abort T h w = (Inl e, w') \<longrightarrow> \<not> base_exception e)"

lemma abort_ignored:
  assumes "aborts_quietly T"
  shows "isOk (fst (py_except_exception (co_abort_session T x) (\<lambda>_. py_return ()) c))"
  using assms
  by (cases x) (auto simp: co_abort_session_def py_except_exception_def method_defs on_world_def aborts_quietly_def
      split: prod.split sum.split)

lemma aborts_ignored:
  assumes "aborts_quietly T"
  shows "isOk (fst (py_for xs (\<lambda>x. py_except_exception (co_abort_session T x) (\<lambda>_. py_return ())) c))"
proof (induction xs arbitrary: c)
  case (Cons x xs)
  from abort_ignored [OF assms, of x c] Cons show ?case by (auto simp: py_seq_def py_bind_def split: prod.split sum.split)
qed (simp add: py_return_def)

lemma releases_keep_settings:
  "co_settings (co_release_queue_slot j c) = co_settings c" "co_settings (cell_upd n f c) = co_settings c"
  "co_settings (co_reject_unclaimed j e c) = co_settings c" "co_settings (co_release_audio a c) = co_settings c"
  "co_settings (co_discard_busy sid c) = co_settings c"
  "co_settings (co_release_session_reservation j c) = co_settings c"
  "co_settings (co_release_stream_reservation j c) = co_settings c"
  by (simp_all add: co_release_queue_slot_def cell_upd_def co_reject_unclaimed_def co_release_audio_def co_discard_busy_def
      co_release_session_reservation_def co_release_stream_reservation_def split: option.split)

lemma co_cancel_queued_settings:
  "co_settings (fold (co_cancel_queued e) xs c) = co_settings c"
  by (induction xs arbitrary: c) (simp_all add: co_cancel_queued_def co_release_job_def releases_keep_settings)

lemma co_worker_exit_sessions:
  fixes c :: "('h, 'w) Coordinator"
  assumes quiet: "aborts_quietly T" and queue: "queue_inv (c\<lparr>co_phase := WorkerIdle\<rparr>)" and "0 \<le> asr_max_active_streams (co_settings c)"
  shows "session_inv (co_worker_exit T c)"
proof -
  let ?c = "c\<lparr>co_phase := WorkerIdle\<rparr>"
  let ?d = "co_cancel_queued_jobs (ASRNotReady ''ASR owner worker stopped'')
       (?c\<lparr>co_accepting := False, co_ready := False, co_worker_loop_active := False\<rparr>)"
  let ?abort = "py_for (map snd (co_sessions ?d)) (\<lambda>x. py_except_exception (co_abort_session T x) (\<lambda>_. py_return ()))"
  obtain r u where ru: "?abort ?d = (r, u)" by (cases "?abort ?d")
  with aborts_ignored [OF quiet, of "map snd (co_sessions ?d)" ?d] have "isOk r" by simp
  with ru have "co_worker_exit T c = (co_clear u)\<lparr>co_phase := WorkerStopped\<rparr>"
    by (cases r) (simp_all add: co_worker_exit_def co_finalize_worker_def method_defs)
  note exit = this
  have "keeps co_settings ?abort" by (intro keeps_abort_all keeps_on_world) simp
  from keepsD [OF this ru] have "co_settings u = co_settings c"
    by (simp add: co_cancel_queued_jobs_def co_cancel_queued_settings)
  moreover have "co_jobs (co_worker_exit T c) = []" using co_finalize_queue [OF queue, of T] by (simp add: co_worker_exit_def)
  ultimately show ?thesis
    using assms(3) unfolding exit
    by (simp add: session_inv_def session_ok_def outstanding_def co_clear_def owners_ok_def slots_ok_def
        owned_def single_ok_def busy_ok_def table_of_def)
qed

text \<open>The tables after the cleanup of a poisoned session and the release of the job's reservations.\<close>

definition settled_tables :: "ASRJob \<Rightarrow> string \<Rightarrow> bool \<Rightarrow> ('h, 'w) Coordinator \<Rightarrow> ('h, 'w) Coordinator \<Rightarrow> bool" where
  "settled_tables j s p c d \<longleftrightarrow> co_settings d = co_settings c \<and> co_jobs d = co_jobs c \<and>
     co_active_sessions d = (if p then co_active_sessions c - {s} else co_active_sessions c) \<and>
     co_stream_reservations d =
       (if p \<or> held c (jb_sequence j) then co_stream_reservations c - {s} else co_stream_reservations c) \<and>
     co_busy_sessions d = (if p \<or> jb_holds_session_reservation j then co_busy_sessions c - {s} else co_busy_sessions c) \<and>
     co_batch_pending d = co_batch_pending c \<and>
     table_of (co_sessions d) = (if p then table_of (co_sessions c) - {s} else table_of (co_sessions c)) \<and>
     held d = (held c)(jb_sequence j := False)"

lemma co_release_job_tables:
  assumes "jb_session_id j = Some s" and "s \<noteq> []"
  shows "settled_tables j s False c (co_release_job j c)"
  using assms
  by (simp add: settled_tables_def co_release_job_def co_release_stream_reservation_def co_release_session_reservation_def
      co_discard_busy_def co_release_audio_def truthy_id_def held_def cell_upd_def fun_eq_iff)

lemma co_cleanup_poisoned_tables:
  assumes "s \<noteq> []" and "s \<in> co_poisoned_sessions c"
  shows "forgotten s (c\<lparr>co_busy_sessions := co_busy_sessions c - {s}\<rparr>) (snd (co_cleanup_poisoned T (Some s) c))"
proof -
  let ?m = "case map_of (co_sessions c) s of None \<Rightarrow> py_return ()
    | Some x \<Rightarrow> py_except_exception (co_abort_session T x) (\<lambda>_. py_return ())"
  let ?c1 = "c\<lparr>co_sessions := AList.delete s (co_sessions c)\<rparr>"
  have keeps: "keeps sess_view ?m"
    by (auto intro!: keeps_except_exception keeps_abort_session keeps_sess_world split: option.split)
  obtain r e where e: "?m ?c1 = (r, e)" by (cases "?m ?c1")
  have "snd (co_cleanup_poisoned T (Some s) c) = e\<lparr>co_poisoned_sessions := co_poisoned_sessions e - {s},
      co_busy_sessions := co_busy_sessions e - {s}, co_active_sessions := co_active_sessions e - {s},
      co_stream_reservations := co_stream_reservations e - {s}\<rparr>"
    using assms e by (simp add: co_cleanup_poisoned_def truthy_id_def Let_def py_finally_def py_modify_def)
  moreover have "sess_view e = sess_view ?c1" by (rule keepsD [OF keeps e])
  ultimately show ?thesis by (simp add: forgotten_def sess_view_def held_def fun_eq_iff)
qed

lemma co_settled_tables:
  assumes "jb_session_id j = Some s" and "s \<noteq> []"
  shows "settled_tables j s (s \<in> co_poisoned_sessions c) c (co_release_job j (snd (co_cleanup_poisoned T (jb_session_id j) c)))"
proof (cases "s \<in> co_poisoned_sessions c")
  case True
  let ?d = "snd (co_cleanup_poisoned T (jb_session_id j) c)"
  have "forgotten s (c\<lparr>co_busy_sessions := co_busy_sessions c - {s}\<rparr>) ?d"
    using co_cleanup_poisoned_tables [OF assms(2) True] assms(1) by simp
  then have "settled_tables j s True c (co_release_job j ?d)"
    using co_release_job_tables [OF assms, of ?d]
    by (auto simp: settled_tables_def forgotten_def held_def [abs_def])
  with True show ?thesis by simp
next
  case False
  then have "snd (co_cleanup_poisoned T (jb_session_id j) c) = c"
    using assms by (simp add: co_cleanup_poisoned_def truthy_id_def)
  with False co_release_job_tables [OF assms] show ?thesis by simp
qed

lemma session_ok_drop:
  assumes ok: "session_ok l outs h act slots busy pend" and j: "j \<in> outs" "jb_session_id j = None"
  shows "session_ok l (outs - {j}) h act slots busy pend" and "\<not> h (jb_sequence j)"
proof -
  have "\<not> creates j" using creates_session [of j] ok j by (auto simp: session_ok_def)
  then show h: "\<not> h (jb_sequence j)" using ok j by (auto simp: session_ok_def owners_ok_def)
  have "owned (outs - {j}) h = owned outs h" using j h by (auto simp: owned_def)
  moreover have "operated (outs - {j}) = operated outs" using j by (auto simp: operated_def)
  ultimately show "session_ok l (outs - {j}) h act slots busy pend"
    using ok by (auto simp: session_ok_def owners_ok_def slots_ok_def single_ok_def busy_ok_def)
qed

lemma co_release_job_no_session:
  assumes "jb_session_id j = None"
  shows "sess_view (co_release_job j (snd (co_cleanup_poisoned T (jb_session_id j) c))) = sess_view c"
  using assms
  by (simp add: sess_view_def co_cleanup_poisoned_def co_release_job_def co_release_stream_reservation_def
      co_release_session_reservation_def co_discard_busy_def co_release_audio_def truthy_id_def held_def fun_eq_iff)

text \<open>The tables once a job is settled, its futures not answered yet.\<close>

lemma settled_session_ok:
  assumes inv: "session_inv c" and queue: "queue_inv c" and ph: "co_phase c = WorkerDone j how"
    and d: "d = co_release_job j (snd (co_cleanup_poisoned T (jb_session_id j) c))"
  shows "session_ok (asr_max_active_streams (co_settings d)) (set (co_jobs d)) (held d) (co_active_sessions d)
       (co_stream_reservations d) (co_busy_sessions d) (co_batch_pending d)"
    and "table_of (co_sessions d) = co_active_sessions d"
    and "\<And>i. i \<in> set (co_jobs d) \<Longrightarrow> creates i \<Longrightarrow> held d (jb_sequence i)"
proof -
  note ok = session_inv_fields [OF inv]
  have j: "j \<in> set (outstanding c)" using ph by (simp add: outstanding_def)
  have dist: "distinct (map jb_sequence (j # co_jobs c))"
    using queue ph by (simp add: queue_inv_def queue_view_def queue_ok_def)
  then have fresh: "jb_sequence i \<noteq> jb_sequence j" if "i \<in> set (co_jobs c)" for i
    using that by (auto simp: rev_image_eqI)
  have rest: "set (outstanding c) - {j} = set (co_jobs c)" using dist ph by (auto simp: outstanding_def)
  have created: "held c (jb_sequence i)" if "i \<in> set (co_jobs c)" "creates i" for i
    using ok(3) [of i] that ph fresh [OF that(1)] by (auto simp: outstanding_def)
  have inj: "i = j" if "i \<in> set (outstanding c)" "jb_sequence i = jb_sequence j" for i
    by (rule outstanding_injective [OF queue that(1) j that(2)])
  have "(session_ok (asr_max_active_streams (co_settings d)) (set (co_jobs d)) (held d) (co_active_sessions d)
       (co_stream_reservations d) (co_busy_sessions d) (co_batch_pending d) \<and>
     table_of (co_sessions d) = co_active_sessions d \<and>
     (\<forall>i \<in> set (co_jobs d). creates i \<longrightarrow> held d (jb_sequence i)))"
  proof (cases "jb_session_id j")
    case None
    with co_release_job_no_session [OF None, of T c] d have "sess_view d = sess_view c" by simp
    with session_ok_drop(1) [OF ok(1) j None] rest created ok(2) show ?thesis by (simp add: sess_view_def)
  next
    case (Some s)
    have "s \<noteq> []" using ok(4) [OF j] Some by (simp add: job_wf_def)
    have t: "settled_tables j s (s \<in> co_poisoned_sessions c) c d"
      unfolding d by (rule co_settled_tables [OF Some \<open>s \<noteq> []\<close>])
    note settled = session_ok_settle [OF ok(1) j Some inj, of "s \<in> co_poisoned_sessions c"]
    show ?thesis
      using t settled rest created fresh ok(2) by (simp add: settled_tables_def)
  qed
  then show "session_ok (asr_max_active_streams (co_settings d)) (set (co_jobs d)) (held d) (co_active_sessions d)
       (co_stream_reservations d) (co_busy_sessions d) (co_batch_pending d)"
    "table_of (co_sessions d) = co_active_sessions d"
    "\<And>i. i \<in> set (co_jobs d) \<Longrightarrow> creates i \<Longrightarrow> held d (jb_sequence i)" by blast+
qed

lemma co_answer_holds [simp]: "cell_holds_stream_reservation (co_answer how x) = cell_holds_stream_reservation x"
  by (cases how) simp_all

lemma settled_idle_queue:
  assumes "queue_inv c" and "co_phase c = WorkerDone j how"
  shows "queue_inv ((cell_upd n f (co_release_job j (snd (co_cleanup_poisoned T sid c))))\<lparr>co_phase := WorkerIdle\<rparr>)"
proof -
  obtain r d where rd: "co_cleanup_poisoned T sid c = (r, d)" by (cases "co_cleanup_poisoned T sid c")
  note view = keepsD [OF queue_blind.keeps_cleanup_poisoned rd]
  have "queue_inv ((co_release_audio (jb_audio_seconds j) d)\<lparr>co_phase := WorkerIdle\<rparr>)"
    using view assms by (intro co_release_audio_queue) (auto intro: queue_inv_view simp: queue_view_fields [OF view])
  then show ?thesis
    unfolding rd snd_conv
    by (rule queue_inv_view [rotated])
      (simp add: co_release_job_def co_release_audio_def queue_view_def cell_upd_def co_release_stream_reservation_def
        co_release_session_reservation_def co_discard_busy_def split: option.split)
qed

lemma co_worker_settle_keeps_sessions:
  fixes c :: "('h, 'w) Coordinator"
  assumes inv: "session_inv c" and queue: "queue_inv c" and ph: "co_phase c = WorkerDone j how" and quiet: "aborts_quietly T"
  shows "session_inv (co_worker_settle T j how c)"
proof -
  define d where "d = co_release_job j (snd (co_cleanup_poisoned T (jb_session_id j) c))"
  note ok = settled_session_ok [OF inv queue ph d_def]
  have idle: "session_inv ((cell_upd n (co_answer x) d)\<lparr>co_phase := WorkerIdle\<rparr>)" for n x
  proof -
    have "held ((cell_upd n (co_answer x) d)\<lparr>co_phase := WorkerIdle\<rparr>) = held d"
      by (simp add: held_def fun_eq_iff cell_upd_def)
    then show ?thesis using ok by (simp add: session_inv_def outstanding_def) (simp add: cell_upd_def)
  qed
  have limit: "0 \<le> asr_max_active_streams (co_settings d)"
    using ok(1) by (auto simp: session_ok_def slots_ok_def)
  have exit: "session_inv (co_worker_exit T (cell_upd n (co_answer x) d))" for n x
    by (rule co_worker_exit_sessions [OF quiet])
      (use settled_idle_queue [OF queue ph] limit in \<open>simp_all add: d_def releases_keep_settings\<close>)
  show ?thesis
    using idle exit unfolding co_worker_settle_def
    by (auto simp: Let_def d_def split: prod.split sum.split job_end.split)
qed

lemma co_worker_boot_keeps_sessions:
  fixes c :: "('h, 'w) Coordinator"
  assumes inv: "session_inv c" and queue: "queue_inv c" and ph: "co_phase c = WorkerStarting" and quiet: "aborts_quietly T"
  shows "session_inv (co_worker_boot T c)"
proof -
  let ?c = "c\<lparr>co_has_transcriber := False, co_warmed := False, co_sessions := [], co_phase := WorkerIdle\<rparr>"
  have none: "co_sessions c = []" using inv ph by (simp add: session_inv_def)
  have limit: "0 \<le> asr_max_active_streams (co_settings c)"
    using session_inv_fields(1) [OF inv] by (auto simp: session_ok_def slots_ok_def)
  have idle: "session_inv d" if "sess_view d = sess_view c" "co_phase d = WorkerIdle" for d :: "('h, 'w) Coordinator"
    by (rule session_inv_same [OF inv], rule same_sessions_view) (use that ph in auto)
  have start: "sess_view ?c = sess_view c" by (simp add: sess_view_def none held_def fun_eq_iff)
  have failed: "session_inv (co_boot_failed T e d)"
    if v: "sess_view d = sess_view c" "co_phase d = WorkerIdle" "queue_inv d" for e and d :: "('h, 'w) Coordinator"
  proof -
    have "session_inv (co_worker_exit T d)"
      by (rule co_worker_exit_sessions [OF quiet]) (use v limit in \<open>simp_all add: sess_view_def queue_inv_phase\<close>)
    moreover have "session_inv (d\<lparr>co_ready := False, co_accepting := False, co_load_error := x\<rparr>)" for x
      by (rule idle) (use v in \<open>simp_all add: sess_view_def held_def fun_eq_iff\<close>)
    ultimately show ?thesis by (simp add: co_boot_failed_def)
  qed
  have c: "queue_inv ?c" using queue ph by (simp add: queue_inv_def queue_view_def)
  have world: "sess_view e = sess_view d \<and> co_phase e = co_phase d \<and> (queue_inv d \<longrightarrow> queue_inv e)"
    if "on_world m d = (r, e)" for m :: "('w, unit) py_method" and d :: "('h, 'w) Coordinator" and r e
    using keepsD [OF keeps_sess_world that] keepsD [OF keeps_queue_view(1) that]
    by (auto intro: queue_inv_view dest: queue_view_fields)
  have flags: "sess_view (d\<lparr>co_has_transcriber := b\<rparr>) = sess_view d" "sess_view (d\<lparr>co_warmed := b, co_ready := b'\<rparr>) = sess_view d"
    for d :: "('h, 'w) Coordinator" and b b'
    by (simp_all add: sess_view_def held_def fun_eq_iff)
  obtain r d where rd: "on_world (at_factory T) ?c = (r, d)" by (cases "on_world (at_factory T) ?c")
  with world [OF rd] start c have d: "sess_view d = sess_view c" "co_phase d = WorkerIdle" "queue_inv d" by simp_all
  let ?d = "d\<lparr>co_has_transcriber := True\<rparr>"
  have d': "sess_view ?d = sess_view c" "co_phase ?d = WorkerIdle" "queue_inv ?d"
    using d by (auto simp: flags intro: queue_inv_view)
  obtain q e where qe: "on_world (at_warmup T) ?d = (q, e)" by (cases "on_world (at_warmup T) ?d")
  with world [OF qe] d' have e: "sess_view e = sess_view c" "co_phase e = WorkerIdle" "queue_inv e" by simp_all
  show ?thesis
  proof (cases r)
    case (Inl x)
    with rd failed [OF d] show ?thesis by (simp add: co_worker_boot_def Let_def)
  next
    case (Inr x)
    show ?thesis
    proof (cases "asr_eager_load (co_settings ?d)")
      case False
      with rd Inr idle [OF d'(1,2)] show ?thesis by (simp add: co_worker_boot_def Let_def)
    next
      case True
      have "session_inv (e\<lparr>co_warmed := True, co_ready := True\<rparr>)" by (rule idle) (use e in \<open>simp_all add: flags\<close>)
      with rd qe Inr True failed [OF e] show ?thesis
        by (cases q) (simp_all add: co_worker_boot_def Let_def)
    qed
  qed
qed

lemma co_start_keeps_sessions: "session_inv c \<Longrightarrow> session_inv (co_start c)"
proof -
  assume inv: "session_inv c"
  show ?thesis
  proof (cases "worker_alive c")
    case False
    then have "same_sessions c (co_start c)"
      by (auto simp: co_start_def worker_alive_def same_sessions_def outstanding_def held_def)
    with inv show ?thesis by (rule session_inv_same)
  qed (use inv in \<open>simp add: co_start_def\<close>)
qed

lemma co_stop_keeps_sessions:
  fixes c :: "('h, 'w) Coordinator"
  assumes inv: "session_inv c" and queue: "queue_inv c"
  shows "session_inv (snd (co_stop now c))"
proof -
  let ?c = "c\<lparr>co_accepting := False\<rparr>"
  have base: "same_sessions c ?c" by (simp add: same_sessions_def outstanding_def held_def)
  have less: "jb_sequence j \<noteq> co_sequence c" if "j \<in> set (outstanding c)" for j
    using outstanding_less [OF queue that] by simp
  obtain job d where job: "co_new_job Shutdown None (- 100) now 3600 0 False False ?c = (Inr job, d)"
    by (auto simp: co_new_job_def)
  have d: "same_sessions c d"
    using job less by (auto simp: co_new_job_def same_sessions_def outstanding_def held_def)
  have "job \<notin> set (outstanding c)" using job less [of job] by (auto simp: co_new_job_def)
  then have "admitted False False None job c (d\<lparr>co_jobs := co_jobs d @ [job], co_shutdown_requested := True\<rparr>)"
    using job less by (auto simp: co_new_job_def admitted_def outstanding_def held_def fresh_cell_def)
  then have "session_inv (d\<lparr>co_jobs := co_jobs d @ [job], co_shutdown_requested := True\<rparr>)"
    by (rule session_inv_admitted [OF inv])
      (use job session_inv_live [OF inv] in \<open>auto simp: co_new_job_def job_wf_def creates_def\<close>)
  with inv job base d session_inv_same [OF inv] show ?thesis by (auto simp: co_stop_def Let_def)
qed

section \<open>Every reachable state\<close>

lemma co_step_sessions:
  fixes c :: "('h, 'w) Coordinator"
  assumes "co_step T c d" and "session_inv c" and "queue_inv c" and quiet: "aborts_quietly T"
  shows "session_inv d"
  using assms(1-3)
proof (induction rule: co_step.induct)
  case (create s c language now)
  then show ?case unfolding create_stream_def
    by (intro co_stream_job_keeps_sessions) (auto simp: fresh_id_def)
next
  case (create_chunked s c language now)
  then show ?case unfolding create_chunked_stream_def
    by (intro co_stream_job_keeps_sessions) (auto simp: fresh_id_def)
next
  case (add s c p rate now)
  then show ?case unfolding co_add_audio_def by (intro co_stream_job_keeps_sessions) auto
next
  case (finish s c now)
  then show ?case unfolding finish_stream_def by (intro co_stream_job_keeps_sessions) auto
next
  case (segment s c now)
  then show ?case unfolding co_finish_segment_def by (intro co_stream_job_keeps_sessions) auto
next
  case (abort s c now)
  then show ?case by (intro abort_stream_keeps_sessions)
next
  case (chunk s audio c path language now)
  then have "session_inv (snd (co_stream_job (TranscribeStreamChunk s path language) s now audio True False c))"
    by (intro co_stream_job_keeps_sessions) auto
  with chunk show ?case by (auto simp: transcribe_stream_chunk_def py_check_def method_defs split: prod.split sum.split)
next
  case (file_call c path language now)
  then show ?case by (intro transcribe_file_keeps_sessions)
next
  case (file_done c)
  then show ?case by (intro file_done_keeps_sessions)
next
  case (queue_timeout c j)
  then show ?case by (intro waits_keep_sessions)
next
  case (inference_timeout c j)
  then show ?case by (intro waits_keep_sessions)
next
  case (client_cancelled c j)
  then show ?case by (intro waits_keep_sessions)
next
  case (cleanup_cancelled s c now)
  then show ?case by (intro cleanup_cancelled_keeps_sessions)
next
  case (start c)
  then show ?case by (intro co_start_keeps_sessions)
next
  case (stop c now)
  then show ?case by (intro co_stop_keeps_sessions)
next
  case (boot c)
  then show ?case by (intro co_worker_boot_keeps_sessions quiet)
next
  case (take_job c)
  then show ?case by (intro co_worker_take_keeps_sessions)
next
  case (prepare c j now1 now2 now3)
  then show ?case by (intro co_worker_prepare_keeps_sessions)
next
  case (execute c j wait elapsed)
  then show ?case by (intro co_worker_execute_keeps_sessions)
next
  case (settle c j how)
  then show ?case by (intro co_worker_settle_keeps_sessions quiet)
qed

lemma co_init_sessions: "co_initial c \<Longrightarrow> session_inv c"
  by (auto simp: co_initial_def co_init_def session_inv_def session_ok_def outstanding_def owners_ok_def slots_ok_def
      owned_def single_ok_def busy_ok_def table_of_def settings_sane_def stream_fields_ok_def gt_le_def)

interpretation sessions: step_system co_initial "co_step T"
  "\<lambda>c. (queue_inv c \<and> stopped_inv c) \<and> (aborts_quietly T \<longrightarrow> session_inv c)" for T
proof unfold_locales
  fix c d :: "('a, 'b) Coordinator"
  show "co_initial c \<Longrightarrow> (queue_inv c \<and> stopped_inv c) \<and> (aborts_quietly T \<longrightarrow> session_inv c)"
    using coordinator.init_inv [of c] co_init_sessions [of c] by blast
  show "(queue_inv d \<and> stopped_inv d) \<and> (aborts_quietly T \<longrightarrow> session_inv d)"
    if "(queue_inv c \<and> stopped_inv c) \<and> (aborts_quietly T \<longrightarrow> session_inv c)" "co_step T c d"
    using that coordinator.step_inv [of c _ d] co_step_sessions [of T c d] by blast
qed

text \<open>C3: in every reachable state a stream session has at most one unfinished operation and is marked busy only
  while it has one; the worker's session table is exactly the set of active sessions; every active
  session and every creation under way holds one of the stream slots, nothing else does, and their
  number stays within the configured maximum; while a file transcription is pending no stream
  holds a slot.\<close>

theorem coordinator_sessions_exclusive:
  assumes "reach_from co_initial (co_step T) c" and "aborts_quietly T"
  shows "(\<forall>i \<in> set (outstanding c). \<forall>j \<in> set (outstanding c). jb_holds_session_reservation i \<and>
       jb_holds_session_reservation j \<and> jb_session_id i = jb_session_id j \<longrightarrow> i = j) \<and>
     (\<forall>s \<in> co_busy_sessions c. \<exists>j \<in> set (outstanding c). jb_session_id j = Some s) \<and>
     fst ` set (co_sessions c) = co_active_sessions c \<and> co_active_sessions c \<subseteq> co_stream_reservations c \<and>
     (\<forall>s \<in> co_stream_reservations c - co_active_sessions c.
        \<exists>j \<in> set (outstanding c). creates j \<and> jb_session_id j = Some s) \<and>
     int (card (co_stream_reservations c)) \<le> asr_max_active_streams (co_settings c) \<and>
     (co_batch_pending c \<longrightarrow> co_stream_reservations c = {})"
proof -
  have inv: "session_inv c" using sessions.reach_inv [OF assms(1)] assms(2) by blast
  note ok = session_inv_fields(1,2) [OF inv]
  have owners: "owners_ok (set (outstanding c)) (held c) (co_active_sessions c)"
    and slots: "slots_ok (asr_max_active_streams (co_settings c)) (set (outstanding c)) (held c) (co_active_sessions c) (co_stream_reservations c)"
    and single: "single_ok (set (outstanding c))" and busy: "busy_ok (set (outstanding c)) (co_active_sessions c) (co_busy_sessions c)"
    and pend: "co_batch_pending c \<longrightarrow> co_stream_reservations c = {}"
    using ok(1) unfolding session_ok_def by blast+
  have "\<exists>j \<in> set (outstanding c). creates j \<and> jb_session_id j = Some s"
    if "s \<in> co_stream_reservations c - co_active_sessions c" for s
    using that slots owners by (auto simp: slots_ok_def owned_def owners_ok_def)
  moreover have "\<exists>j \<in> set (outstanding c). jb_session_id j = Some s" if "s \<in> co_busy_sessions c" for s
    using that busy by (auto simp: busy_ok_def operated_def)
  moreover have "co_active_sessions c \<subseteq> co_stream_reservations c"
    "int (card (co_stream_reservations c)) \<le> asr_max_active_streams (co_settings c)"
    using slots by (auto simp: slots_ok_def)
  moreover have "fst ` set (co_sessions c) = co_active_sessions c" using ok(2) by (simp add: table_of_def)
  ultimately show ?thesis using single [unfolded single_ok_def] pend by blast
qed

lemma mock_aborts_quietly: "aborts_quietly mock_asr"
  by (auto simp: aborts_quietly_def mock_asr_def mock_session_def mk_abort_def method_defs base_exception_def split: if_splits)

theorem coordinator_sessions_exclusive_witness:
  "co_stream_reservations example_loaded = {''a''} \<and>
   fst ` set (co_sessions example_loaded) = co_active_sessions example_loaded \<and>
   co_active_sessions example_loaded \<subseteq> co_stream_reservations example_loaded \<and>
   int (card (co_stream_reservations example_loaded)) \<le> asr_max_active_streams (co_settings example_loaded)"
  using coordinator_sessions_exclusive [OF example_loaded_reachable mock_aborts_quietly]
  by (simp add: example_coordinator_defs stream_timeout_def Let_def)

text \<open>C34: an inference timeout that is noticed after the worker settled the job (the result was set but
  the waiting client had not resumed yet) poisons a session no job will clean up: the client's
  \<open>abort_stream\<close> then raises \<open>ASRSessionPoisoned\<close> and the session keeps its stream slot.\<close>

theorem late_timeout_leaks_slot:
  assumes "reach_from co_initial (co_step T) c" and "aborts_quietly T"
    and "s \<in> co_active_sessions c" and "s \<noteq> []" and "\<forall>i \<in> set (outstanding c). jb_session_id i \<noteq> Some s"
    and "co_accepting c" and "co_load_error c = None" and "jb_session_id j = Some s"
  shows "fst (abort_stream s now (snd (co_inference_timeout j c))) =
       Inl (ASRSessionPoisoned ''ASR streaming session is poisoned'') \<and>
     s \<in> co_stream_reservations (snd (abort_stream s now (snd (co_inference_timeout j c))))"
proof -
  have inv: "session_inv c" using sessions.reach_inv [OF assms(1)] assms(2) by blast
  then have "s \<notin> co_busy_sessions c"
    using assms(5) session_inv_fields(1) [OF inv] by (auto simp: session_ok_def busy_ok_def operated_def)
  moreover have "s \<in> co_stream_reservations c"
    using assms(3) session_inv_fields(1) [OF inv] by (auto simp: session_ok_def slots_ok_def)
  ultimately show ?thesis
    using assms(3-8)
    by (simp add: abort_stream_def co_stream_job_def co_submit_def co_new_job_def co_reserve_session_def co_inference_timeout_def
        co_poison_def truthy_id_def py_check_def co_require_accepting_def co_require_session_admissible_def method_defs
        bind_result_def)
qed

definition example_job :: ASRJob where
  "example_job = hd (co_jobs example_loaded)"

definition example_opened :: "(nat, MockASRStreamingSession list) Coordinator" where
  "example_opened = co_worker_settle mock_asr example_job (JobReturned (ValSession ''a''))
     (co_worker_execute mock_asr example_job 0 0
       (co_worker_prepare mock_asr example_job 0 0 0 (co_worker_take example_loaded)))"

lemma example_taken:
  "co_phase (co_worker_take example_loaded) = WorkerTaken example_job"
  by (simp add: example_job_def example_coordinator_defs stream_timeout_def Let_def co_worker_take_def next_job_def
      co_release_queue_slot_def)

lemmas example_worker_defs =
  example_coordinator_defs stream_timeout_def Let_def co_worker_take_def next_job_def co_release_queue_slot_def
  co_worker_prepare_def co_expired_before_start_def co_warm_def co_claim_job_def cell_upd_def fresh_cell_def
  co_worker_execute_def co_open_session_def

lemma example_job_eq: "example_job = \<lparr>jb_priority = 0, jb_sequence = 0, jb_action = CreateStream ''a'' None,
    jb_session_id = Some ''a'', jb_enqueue_time = 0, jb_queue_deadline = 2, jb_audio_seconds = 0, jb_holds_session_reservation = False\<rparr>"
  by (simp add: example_job_def example_coordinator_defs stream_timeout_def Let_def)

lemma example_claimed:
  "co_phase (co_worker_prepare mock_asr example_job 0 0 0 (co_worker_take example_loaded)) = WorkerClaimed example_job 0"
  unfolding example_job_eq by (simp add: example_worker_defs)

lemma example_done:
  "co_phase (co_worker_execute mock_asr example_job 0 0
     (co_worker_prepare mock_asr example_job 0 0 0 (co_worker_take example_loaded))) =
   WorkerDone example_job (JobReturned (ValSession ''a''))"
  unfolding example_job_eq by (simp add: example_worker_defs)

lemma example_opened_state:
  "co_active_sessions example_opened = {''a''}" "outstanding example_opened = []"
  "co_accepting example_opened" "co_load_error example_opened = None"
  unfolding example_opened_def example_job_eq
  by (simp_all add: example_worker_defs co_worker_settle_def co_cleanup_poisoned_def truthy_id_def co_release_job_def
      co_release_audio_def co_release_session_reservation_def co_release_stream_reservation_def outstanding_def)

lemma example_opened_reachable: "reach_from co_initial (co_step mock_asr) example_opened"
proof -
  let ?taken = "co_worker_take example_loaded"
  let ?claimed = "co_worker_prepare mock_asr example_job 0 0 0 ?taken"
  let ?done = "co_worker_execute mock_asr example_job 0 0 ?claimed"
  have "co_step mock_asr example_loaded ?taken"
    by (rule co_step.take_job) (simp_all add: example_coordinator_defs stream_timeout_def Let_def)
  from reach_step [OF example_loaded_reachable this] have r: "reach_from co_initial (co_step mock_asr) ?taken" .
  from reach_step [OF r co_step.prepare [OF example_taken]] have r: "reach_from co_initial (co_step mock_asr) ?claimed" .
  from reach_step [OF r co_step.execute [OF example_claimed]] have r: "reach_from co_initial (co_step mock_asr) ?done" .
  have "co_step mock_asr ?done example_opened" unfolding example_opened_def by (rule co_step.settle [OF example_done])
  from reach_step [OF r this] show ?thesis .
qed

theorem late_timeout_leaks_slot_witness:
  "fst (abort_stream ''a'' 3 (snd (co_inference_timeout example_job example_opened))) =
     Inl (ASRSessionPoisoned ''ASR streaming session is poisoned'') \<and>
   ''a'' \<in> co_stream_reservations (snd (abort_stream ''a'' 3 (snd (co_inference_timeout example_job example_opened))))"
  by (rule late_timeout_leaks_slot [OF example_opened_reachable mock_aborts_quietly])
    (simp_all add: example_opened_state example_job_eq)

end
