(* ===== verification/LocalAdapter.thy ===== *)
theory LocalAdapter
  imports Scheduler CoordinatorSessions
begin

text \<open>
  The adapter between the gateway and the inference coordinator (\<open>asr_gateway_local_adapter.py\<close>). The
  coordinator is an interface, the record \<open>coordinator_api\<close> of calls on a state the adapter does not
  look into; \<open>StreamCoordinator\<close> provides it from the modelled coordinator.
\<close>

section \<open>The coordinator as the adapter sees it\<close>

record 'c coordinator_api =
  ca_start :: "('c, unit) py_method"
  ca_snapshot :: "'c \<Rightarrow> CoordinatorSnapshot"
  ca_create_stream :: "ustr option \<Rightarrow> ('c, string) py_method"
  ca_add_audio :: "string \<Rightarrow> pcm \<Rightarrow> int \<Rightarrow> ('c, StreamingTranscriptionResult) py_method"
  ca_finish_segment :: "string \<Rightarrow> ('c, StreamingTranscriptionResult) py_method"
  ca_finish_stream :: "string \<Rightarrow> ('c, StreamingTranscriptionResult) py_method"
  ca_abort_stream :: "string \<Rightarrow> ('c, unit) py_method"
  ca_stop :: "('c, unit) py_method"

text \<open>The adapter with its coordinator; \<open>la_coordinator\<close> is \<open>None\<close> before \<open>warmup\<close> and after \<open>close\<close>.\<close>

record 'c LocalCoordinatorAdapter =
  la_coordinator :: "'c option"
  la_sessions :: "(string, string) dict"
  la_ready :: bool
  la_capabilities :: BackendCapabilities

definition la_init ::
  "string \<Rightarrow> ustr \<Rightarrow> ustr \<Rightarrow> string \<Rightarrow> int \<Rightarrow> int \<Rightarrow> int \<Rightarrow> int \<Rightarrow> VadMode \<Rightarrow> 'c LocalCoordinatorAdapter result" where
  "la_init wid model revision gpu capacity preferred_chunk max_input max_segment vad =
     bind_result (capabilities_post_init
       \<lparr>protocol_version = 1, worker_id = wid, model_id = model, model_revision = revision, gpu_id = gpu,
        languages = map lit [''auto'', ''zh'', ''ja'', ''en''], tasks = [lit ''transcribe''],
        streaming_mode = STATEFUL, dispatch_mode = SINGLE, vad_mode = vad,
        result_mode = REPLACEABLE_SEGMENT, preferred_chunk_samples = preferred_chunk,
        max_input_samples = max_input, max_segment_samples = max_segment, max_batch_items = 1,
        max_batch_samples = max_input, max_in_flight = 1, session_capacity = capacity, retry_safe = False,
        warmed = False, sample_rate = 16000, sample_format = ''pcm_s16le'', backend_id = ''local''\<rparr>) (\<lambda>caps.
     Inr \<lparr>la_coordinator = None, la_sessions = [], la_ready = False, la_capabilities = caps\<rparr>)"

text \<open>In a coroutine \<open>CancelledError\<close> is no \<open>Exception\<close> either, so \<open>except Exception\<close> lets it pass.\<close>

definition except_exception ::
  "('s, 'a) py_method \<Rightarrow> (py_error \<Rightarrow> ('s, 'a) py_method) \<Rightarrow> ('s, 'a) py_method" where
  "except_exception m h = py_except m (\<lambda>e.
     if base_exception e \<or> error_type_name e = ''CancelledError'' then py_raise e else h e)"

text \<open>A call of the coordinator the adapter owns.\<close>

definition on_coordinator :: "('c, 'a) py_method \<Rightarrow> ('c LocalCoordinatorAdapter, 'a) py_method" where
  "on_coordinator m = (\<lambda>a. case la_coordinator a of
     None \<Rightarrow> (Inl (OtherError ''AttributeError''), a)
   | Some c \<Rightarrow> (case m c of (r, d) \<Rightarrow> (r, a\<lparr>la_coordinator := Some d\<rparr>)))"

definition la_require_ready :: "('c LocalCoordinatorAdapter, unit) py_method" where
  "la_require_ready = (\<lambda>a.
     if \<not> la_ready a \<or> la_coordinator a = None
     then (Inl (RuntimeError ''local coordinator adapter is not ready''), a) else (Inr (), a))"

definition la_session :: "string \<Rightarrow> ('c LocalCoordinatorAdapter, string) py_method" where
  "la_session sid = (\<lambda>a. case map_of (la_sessions a) sid of
     None \<Rightarrow> (Inl (KeyError ''stale session''), a) | Some b \<Rightarrow> (Inr b, a))"

text \<open>\<open>made\<close> is what the coordinator factory returns or raises.\<close>

definition la_warmup :: "'c coordinator_api \<Rightarrow> 'c result \<Rightarrow> ('c LocalCoordinatorAdapter, unit) py_method" where
  "la_warmup K made =
     py_seq (\<lambda>a. case la_coordinator a of
         Some c \<Rightarrow> (Inr (), a)
       | None \<Rightarrow> (case made of
             Inl e \<Rightarrow> (Inl e, a)
           | Inr c \<Rightarrow> on_coordinator (ca_start K) (a\<lparr>la_coordinator := Some c\<rparr>)))
     (\<lambda>a. case la_coordinator a of
         None \<Rightarrow> (Inl (OtherError ''AttributeError''), a)
       | Some c \<Rightarrow>
           if \<not> cs_ready (ca_snapshot K c) \<or> \<not> cs_accepting (ca_snapshot K c)
           then (Inl (RuntimeError ''coordinator warmup did not become ready''), a)
           else (Inr (), a\<lparr>la_ready := True, la_capabilities := (la_capabilities a)\<lparr>warmed := True\<rparr>\<rparr>))"

definition la_open_session ::
  "'c coordinator_api \<Rightarrow> string \<Rightarrow> ustr option \<Rightarrow> ('c LocalCoordinatorAdapter, string) py_method" where
  "la_open_session K sid language =
     py_seq la_require_ready
     (py_bind (py_read (\<lambda>a. map_of (la_sessions a) sid)) (\<lambda>old.
      if old \<noteq> None then py_raise (ValueError ''duplicate gateway session'')
      else py_bind (on_coordinator (ca_create_stream K language)) (\<lambda>b.
        py_seq (py_modify (\<lambda>a. a\<lparr>la_sessions := AList.update sid b (la_sessions a)\<rparr>)) (py_return b))))"

text \<open>\<open>InferenceResult.from_job(job, ...)\<close> with the fields of a decoded result.\<close>

definition la_decoded :: "InferenceJob \<Rightarrow> StreamingTranscriptionResult \<Rightarrow> InferenceResult" where
  "la_decoded job r = (from_job job [])
     \<lparr>ir_text := sr_segment_text r, ir_confirmed_text := [], ir_tail_text := sr_segment_text r,
      ir_segment_id := sr_segment_id r, ir_final := sr_segment_finished r, ir_error := None\<rparr>"

definition la_submit ::
  "'c coordinator_api \<Rightarrow> InferenceJob list \<Rightarrow> ('c LocalCoordinatorAdapter, InferenceResult list) py_method" where
  "la_submit K jobs =
     (case jobs of
        [job] \<Rightarrow>
          py_seq la_require_ready
          (py_bind (la_session (ij_session_id job)) (\<lambda>b.
             if b \<noteq> ij_backend_session_id job then py_raise (KeyError ''stale session backend identity'')
             else except_exception
               (py_bind (on_coordinator (ca_add_audio K b (ij_pcm job) 16000)) (\<lambda>r. py_return [la_decoded job r]))
               (\<lambda>e. py_return [from_job job (sanitize_error (error_type_name e))])))
      | _ \<Rightarrow> py_raise (ValueError ''serial adapter accepts exactly one item''))"

definition la_adapter_result :: "string \<Rightarrow> StreamingTranscriptionResult \<Rightarrow> bool \<Rightarrow> AdapterResult" where
  "la_adapter_result b r final =
     \<lparr>ar_backend_session_id = b, ar_text = sr_segment_text r, ar_confirmed_text = [],
      ar_tail_text = sr_segment_text r, ar_decoded_samples = py_or (sr_decoded_samples_delta r) 0,
      ar_is_final = final, ar_error = None, ar_metadata = None\<rparr>"

definition la_finish_segment :: "'c coordinator_api \<Rightarrow> string \<Rightarrow> ('c LocalCoordinatorAdapter, AdapterResult) py_method" where
  "la_finish_segment K sid =
     py_seq la_require_ready (py_bind (la_session sid) (\<lambda>b.
       py_bind (on_coordinator (ca_finish_segment K b)) (\<lambda>r. py_return (la_adapter_result b r False))))"

definition la_finish_session :: "'c coordinator_api \<Rightarrow> string \<Rightarrow> ('c LocalCoordinatorAdapter, AdapterResult) py_method" where
  "la_finish_session K sid =
     py_seq la_require_ready (py_bind (la_session sid) (\<lambda>b.
       py_bind (on_coordinator (ca_finish_stream K b)) (\<lambda>r.
       py_seq (py_modify (\<lambda>a. a\<lparr>la_sessions := AList.delete sid (la_sessions a)\<rparr>))
         (py_return (la_adapter_result b r True)))))"

definition la_abort_session :: "'c coordinator_api \<Rightarrow> string \<Rightarrow> ('c LocalCoordinatorAdapter, unit) py_method" where
  "la_abort_session K sid =
     py_bind (py_read (\<lambda>a. map_of (la_sessions a) sid)) (\<lambda>b.
     py_seq (py_modify (\<lambda>a. a\<lparr>la_sessions := AList.delete sid (la_sessions a)\<rparr>))
     (py_bind (py_read (\<lambda>a. la_coordinator a \<noteq> None)) (\<lambda>present.
      case b of
        Some backend \<Rightarrow> if present then on_coordinator (ca_abort_stream K backend) else py_return ()
      | None \<Rightarrow> py_return ())))"

definition la_drain :: "('c LocalCoordinatorAdapter, unit) py_method" where
  "la_drain = py_modify (\<lambda>a. a\<lparr>la_ready := False\<rparr>)"

definition la_close :: "'c coordinator_api \<Rightarrow> ('c LocalCoordinatorAdapter, unit) py_method" where
  "la_close K =
     py_seq (py_modify (\<lambda>a. a\<lparr>la_ready := False\<rparr>))
     (py_bind (py_read (\<lambda>a. la_coordinator a \<noteq> None)) (\<lambda>present.
      if \<not> present then py_return ()
      else py_bind (py_read (\<lambda>a. map fst (la_sessions a))) (\<lambda>sids.
        py_seq (py_for sids (la_abort_session K))
        (py_seq (on_coordinator (ca_stop K)) (py_modify (\<lambda>a. a\<lparr>la_coordinator := None\<rparr>))))))"

record adapter_snapshot =
  as_ready :: bool
  as_accepting :: bool
  as_active_sessions :: nat
  as_capacity :: int
  as_queue_depth :: "int option"
  as_queued_audio_seconds :: "seconds option"
  as_load_error :: "string option"

definition la_snapshot :: "'c coordinator_api \<Rightarrow> 'c LocalCoordinatorAdapter \<Rightarrow> adapter_snapshot" where
  "la_snapshot K a =
     (case la_coordinator a of
        None \<Rightarrow> \<lparr>as_ready = False, as_accepting = False, as_active_sessions = 0,
          as_capacity = session_capacity (la_capabilities a), as_queue_depth = None,
          as_queued_audio_seconds = None, as_load_error = None\<rparr>
      | Some c \<Rightarrow> (let s = ca_snapshot K c in
          \<lparr>as_ready = (la_ready a \<and> cs_ready s), as_accepting = (la_ready a \<and> cs_accepting s),
           as_active_sessions = length (la_sessions a), as_capacity = session_capacity (la_capabilities a),
           as_queue_depth = Some (cs_queue_depth s), as_queued_audio_seconds = Some (cs_queued_audio_seconds s),
           as_load_error = cs_load_error s\<rparr>))"

end
