(* ===== verification/CoordinatorCalls.thy ===== *)
theory CoordinatorCalls
  imports LocalAdapter
begin

text \<open>
  A client call of the coordinator from its submission to the result the client receives, when
  nothing else is going on: the request travels through the queue, the worker takes, prepares,
  executes and settles it, and the client reads the job's result future. Such a call is
  equivalent to calling the transcriber directly. \<open>StreamCoordinator\<close>
  turns the round trips into the coordinator that clients of the interface call.
\<close>

section \<open>Round trips\<close>

text \<open>One turn of the worker's loop; the clock stands at \<open>now\<close> and the call takes \<open>elapsed\<close>.\<close>

definition co_turn :: "('h, 'w) asr_transcriber \<Rightarrow> rat \<Rightarrow> rat \<Rightarrow> ('h, 'w) Coordinator \<Rightarrow> ('h, 'w) Coordinator" where
  "co_turn T now elapsed c =
     (let j = next_job c;
          p = co_worker_prepare T j now now now (co_worker_take c);
          e = (case co_phase p of WorkerClaimed _ w \<Rightarrow> co_worker_execute T j w elapsed p | _ \<Rightarrow> p)
      in case co_phase e of WorkerDone _ how \<Rightarrow> co_worker_settle T j how e | _ \<Rightarrow> e)"

definition co_call ::
  "('h, 'w) asr_transcriber \<Rightarrow> rat \<Rightarrow> rat \<Rightarrow> (('h, 'w) Coordinator, ASRJob) py_method \<Rightarrow>
   (('h, 'w) Coordinator, asr_value) py_method" where
  "co_call T now elapsed m =
     py_bind m (\<lambda>job c.
       let d = co_turn T now elapsed c
       in case cell_result (co_cells d (jb_sequence job)) of
            Finished r \<Rightarrow> (r, d)
          | _ \<Rightarrow> (Inl (OtherError ''CancelledError''), d))"

text \<open>A coordinator at rest that serves the streaming session \<open>s\<close>.\<close>

definition serving :: "string \<Rightarrow> 'h \<Rightarrow> ('h, 'w) Coordinator \<Rightarrow> bool" where
  "serving s h c \<longleftrightarrow> co_phase c = WorkerIdle \<and> co_jobs c = [] \<and> co_accepting c \<and> co_load_error c = None \<and>
     co_warmed c \<and> co_has_transcriber c \<and> co_queued_audio_seconds c = 0 \<and> co_queued_business_jobs c = 0 \<and>
     0 < asr_inference_queue_size (co_settings c) \<and> 0 \<le> asr_max_queued_audio_seconds (co_settings c) \<and>
     0 \<le> asr_stream_queue_timeout_seconds (co_settings c) \<and>
     map_of (co_sessions c) s = Some (Streaming h) \<and> s \<in> co_active_sessions c \<and> s \<notin> co_busy_sessions c \<and>
     s \<notin> co_poisoned_sessions c \<and> s \<noteq> []"

lemma next_job_single: "co_jobs c = [j] \<Longrightarrow> next_job c = j"
  by (simp add: next_job_def)

text \<open>A submitted operation on a session at rest is queued alone.\<close>

definition queued_alone :: "string \<Rightarrow> asr_action \<Rightarrow> rat \<Rightarrow> rat \<Rightarrow> ASRJob \<Rightarrow> ('h, 'w) Coordinator \<Rightarrow> ('h, 'w) Coordinator \<Rightarrow> bool" where
  "queued_alone s a now audio job c d \<longleftrightarrow>
     job = \<lparr>jb_priority = 0, jb_sequence = co_sequence c, jb_action = a, jb_session_id = Some s, jb_enqueue_time = now,
            jb_queue_deadline = now + asr_stream_queue_timeout_seconds (co_settings c), jb_audio_seconds = audio,
            jb_holds_session_reservation = True\<rparr> \<and>
     d = c\<lparr>co_sequence := Suc (co_sequence c), co_cells := (co_cells c)(co_sequence c := fresh_cell False),
           co_busy_sessions := insert s (co_busy_sessions c), co_queued_audio_seconds := audio,
           co_queued_business_jobs := 1, co_jobs := [job]\<rparr>"

lemma co_stream_job_alone:
  assumes "serving s h c" and "0 \<le> audio" and "audio \<le> asr_max_queued_audio_seconds (co_settings c)"
  obtains job d where "co_stream_job a s now audio True False c = (Inr job, d)" and "queued_alone s a now audio job c d"
  using assms
  by (auto simp: serving_def co_stream_job_def co_submit_def co_new_job_def py_check_def co_require_accepting_def
      co_reserve_session_def co_require_session_admissible_def co_enqueue_def co_queue_full_def stream_timeout_def
      bind_result_def method_defs queued_alone_def Let_def)

text \<open>Settling the job of a live session that answered or raised an \<open>Exception\<close>.\<close>

lemma co_settle_alive:
  assumes "s \<notin> co_poisoned_sessions x" and "jb_session_id job = Some s" and "s \<noteq> []" and "jb_holds_session_reservation job"
    and "co_queued_audio_seconds x = jb_audio_seconds job" and "0 \<le> jb_audio_seconds job"
    and "co_cells x (jb_sequence job) = (fresh_cell False)\<lparr>cell_started := Finished (Inr ())\<rparr>"
    and how: "how = (case r of Inl e \<Rightarrow> JobFailed e | Inr v \<Rightarrow> JobReturned v)"
  shows "co_worker_settle T job how x =
    x\<lparr>co_queued_audio_seconds := 0, co_busy_sessions := co_busy_sessions x - {s},
      co_cells := (co_cells x)(jb_sequence job :=
        (fresh_cell False)\<lparr>cell_started := Finished (Inr ()), cell_result := Finished r\<rparr>), co_phase := WorkerIdle\<rparr>"
proof -
  have clean: "co_cleanup_poisoned T (jb_session_id job) x = (Inr (), x)"
    using assms by (simp add: co_cleanup_poisoned_def truthy_id_def)
  have audio: "co_release_audio (jb_audio_seconds job) x = x\<lparr>co_queued_audio_seconds := 0\<rparr>"
    using assms(5,6) by (cases x) (auto simp: co_release_audio_def)
  have release: "co_release_job job x = x\<lparr>co_queued_audio_seconds := 0, co_busy_sessions := co_busy_sessions x - {s}\<rparr>"
    unfolding co_release_job_def audio
    using assms(2-4,7)
    by (simp add: co_release_session_reservation_def co_release_stream_reservation_def co_discard_busy_def truthy_id_def fresh_cell_def)
  have answer: "co_answer how ((fresh_cell False)\<lparr>cell_started := Finished (Inr ())\<rparr>) =
      (fresh_cell False)\<lparr>cell_started := Finished (Inr ()), cell_result := Finished r\<rparr>"
    by (cases r) (simp_all add: how fut_set_unless_done_def fresh_cell_def)
  define d where "d = co_release_job job x"
  have "cell_upd (jb_sequence job) (co_answer how) d = d\<lparr>co_cells := (co_cells d)(jb_sequence job :=
      (fresh_cell False)\<lparr>cell_started := Finished (Inr ()), cell_result := Finished r\<rparr>)\<rparr>"
    using assms(7) by (simp add: cell_upd_def answer [symmetric] d_def release)
  then have "co_worker_settle T job how x = d\<lparr>co_cells := (co_cells d)(jb_sequence job :=
      (fresh_cell False)\<lparr>cell_started := Finished (Inr ()), cell_result := Finished r\<rparr>), co_phase := WorkerIdle\<rparr>"
    by (cases r) (simp_all add: co_worker_settle_def clean d_def [symmetric] how)
  then show ?thesis by (simp add: d_def release)
qed

text \<open>The worker's turn on that job, for an action that only calls the session.\<close>

lemma co_turn_alone:
  fixes c :: "('h, 'w) Coordinator"
  assumes c: "serving s h c" and q: "queued_alone s a now audio job c d"
    and act: "co_execute_action T job a = py_bind (co_with_session s f) (\<lambda>r. py_return (ValStream r))" and "a \<noteq> Shutdown"
    and pos: "0 \<le> audio" and f: "f h (co_world c) = (r, w)" and r: "\<And>e. r = Inl e \<Longrightarrow> \<not> base_exception e"
  shows "cell_result (co_cells (co_turn T now elapsed d) (jb_sequence job)) =
       Finished (map_sum id (\<lambda>x. with_timings 0 elapsed (ValStream x)) r)"
    and "co_world (co_turn T now elapsed d) = w" and "serving s h (co_turn T now elapsed d)"
    and "co_settings (co_turn T now elapsed d) = co_settings c"
proof -
  define j0 where "j0 = job"
  have job: "jb_action job = a" "jb_sequence job = co_sequence c" "jb_enqueue_time job = now" "jb_session_id job = Some s"
    "jb_queue_deadline job = now + asr_stream_queue_timeout_seconds (co_settings c)" "jb_holds_session_reservation job"
    and d: "d = c\<lparr>co_sequence := Suc (co_sequence c), co_cells := (co_cells c)(co_sequence c := fresh_cell False),
           co_busy_sessions := insert s (co_busy_sessions c), co_queued_audio_seconds := audio,
           co_queued_business_jobs := 1, co_jobs := [job]\<rparr>" and audio: "jb_audio_seconds job = audio"
    using q by (auto simp: queued_alone_def)
  let ?n = "co_sequence c"
  define t where "t = co_worker_take d"
  have t: "t = d\<lparr>co_jobs := [], co_phase := WorkerTaken job, co_queued_business_jobs := 0\<rparr>"
    using \<open>a \<noteq> Shutdown\<close> by (simp add: t_def d co_worker_take_def next_job_def co_release_queue_slot_def job Let_def)
  define p where "p = co_worker_prepare T job now now now t"
  have p: "p = t\<lparr>co_cells := (co_cells t)(?n := (fresh_cell False)\<lparr>cell_started := Finished (Inr ())\<rparr>),
      co_phase := WorkerClaimed job 0\<rparr>"
    using c \<open>a \<noteq> Shutdown\<close>
    by (simp add: p_def t d co_worker_prepare_def co_expired_before_start_def co_warm_def co_claim_job_def job Let_def
        serving_def fresh_cell_def cell_upd_def)
  define how where "how = (case r of Inl e \<Rightarrow> JobFailed e | Inr x \<Rightarrow> JobReturned (with_timings 0 elapsed (ValStream x)))"
  define x where "x = co_worker_execute T job 0 elapsed p"
  have x: "x = p\<lparr>co_world := w, co_phase := WorkerDone job how\<rparr>"
    using c f r
    by (cases r) (simp_all add: x_def p t d co_worker_execute_def job act co_with_session_def on_world_def method_defs
        serving_def how_def ended_by_def)
  define y where "y = co_worker_settle T job how x"
  have y: "y = x\<lparr>co_queued_audio_seconds := 0, co_busy_sessions := co_busy_sessions x - {s},
      co_cells := (co_cells x)(jb_sequence job := (fresh_cell False)\<lparr>cell_started := Finished (Inr ()),
        cell_result := Finished (map_sum id (\<lambda>x. with_timings 0 elapsed (ValStream x)) r)\<rparr>), co_phase := WorkerIdle\<rparr>"
    unfolding y_def
  proof (rule co_settle_alive)
    show "how = (case map_sum id (\<lambda>x. with_timings 0 elapsed (ValStream x)) r of Inl e \<Rightarrow> JobFailed e | Inr v \<Rightarrow> JobReturned v)"
      by (cases r) (simp_all add: how_def)
  qed (use c job audio pos in \<open>simp_all add: x p t d serving_def\<close>)
  have nj: "next_job d = job" by (simp add: d next_job_def)
  have phases: "co_phase p = WorkerClaimed job 0" "co_phase x = WorkerDone job how" by (simp_all add: p x)
  have turn: "co_turn T now elapsed d = y"
    by (simp add: co_turn_def Let_def nj phases t_def [symmetric] p_def [symmetric] x_def [symmetric] y_def [symmetric])
  show "cell_result (co_cells (co_turn T now elapsed d) (jb_sequence job)) =
       Finished (map_sum id (\<lambda>x. with_timings 0 elapsed (ValStream x)) r)"
    "co_world (co_turn T now elapsed d) = w" "serving s h (co_turn T now elapsed d)"
    "co_settings (co_turn T now elapsed d) = co_settings c"
    unfolding turn using c by (auto simp: y x p t d job serving_def)
qed

section \<open>The coordinator as a proxy of the transcriber\<close>

text \<open>The two repeatable calls of an open session, and what each is when the transcriber is called
  directly.\<close>

datatype stream_call = Frame pcm int | Segment

fun co_stream_call :: "string \<Rightarrow> rat \<Rightarrow> stream_call \<Rightarrow> (('h, 'w) Coordinator, ASRJob) py_method" where
  "co_stream_call s now (Frame p rate) = co_add_audio s p rate now"
| "co_stream_call s now Segment = co_finish_segment s now"

fun direct_call :: "('h, 'w) asr_transcriber \<Rightarrow> 'h \<Rightarrow> stream_call \<Rightarrow> ('w, StreamingTranscriptionResult) py_method" where
  "direct_call T h (Frame p rate) = at_add_pcm_s16le T h p rate"
| "direct_call T h Segment = at_finish_segment T h"

text \<open>A client that makes its calls one after the other, each with its clock reading and duration, and
  goes on after an error.\<close>

fun co_dialogue :: "('h, 'w) asr_transcriber \<Rightarrow> string \<Rightarrow> (rat \<times> rat \<times> stream_call) list \<Rightarrow>
    ('h, 'w) Coordinator \<Rightarrow> asr_value result list \<times> ('h, 'w) Coordinator" where
  "co_dialogue T s [] c = ([], c)"
| "co_dialogue T s ((now, elapsed, call) # rest) c =
     (let (r, d) = co_call T now elapsed (co_stream_call s now call) c; (rs, e) = co_dialogue T s rest d in (r # rs, e))"

fun direct_dialogue :: "('h, 'w) asr_transcriber \<Rightarrow> 'h \<Rightarrow> (rat \<times> rat \<times> stream_call) list \<Rightarrow> 'w \<Rightarrow>
    asr_value result list \<times> 'w" where
  "direct_dialogue T h [] w = ([], w)"
| "direct_dialogue T h ((now, elapsed, call) # rest) w =
     (let (r, w) = direct_call T h call w; (rs, w) = direct_dialogue T h rest w
      in (map_sum id (\<lambda>x. with_timings 0 elapsed (ValStream x)) r # rs, w))"

definition call_audio :: "stream_call \<Rightarrow> rat" where
  "call_audio call = (case call of Frame p rate \<Rightarrow> if 0 < rate then of_nat (length p div 2) / of_int rate else 0 | Segment \<Rightarrow> 0)"

lemma call_audio_nonneg: "0 \<le> call_audio call"
  by (simp add: call_audio_def split: stream_call.split)

lemma co_call_alone:
  fixes c :: "('h, 'w) Coordinator"
  assumes c: "serving s h c" and audio: "call_audio call \<le> asr_max_queued_audio_seconds (co_settings c)"
    and direct: "direct_call T h call (co_world c) = (r, w)" and r: "\<And>e. r = Inl e \<Longrightarrow> \<not> base_exception e"
  obtains d where "co_call T now elapsed (co_stream_call s now call) c =
       (map_sum id (\<lambda>x. with_timings 0 elapsed (ValStream x)) r, d)"
    and "co_world d = w" and "serving s h d" and "co_settings d = co_settings c"
proof -
  define a where "a = (case call of Frame p rate \<Rightarrow> AddAudio s p rate | Segment \<Rightarrow> FinishSegment s)"
  have stream: "co_stream_call s now call = co_stream_job a s now (call_audio call) True False"
    by (cases call) (simp_all add: a_def co_add_audio_def co_finish_segment_def call_audio_def)
  have act: "co_execute_action T job a = py_bind (co_with_session s (\<lambda>h. direct_call T h call)) (\<lambda>r. py_return (ValStream r))"
    for job by (cases call) (simp_all add: a_def)
  have a: "a \<noteq> Shutdown" by (cases call) (simp_all add: a_def)
  obtain job e where je: "co_stream_job a s now (call_audio call) True False c = (Inr job, e)"
    and q: "queued_alone s a now (call_audio call) job c e"
    by (rule co_stream_job_alone [OF c call_audio_nonneg audio])
  note turn = co_turn_alone [OF c q act a call_audio_nonneg direct, of elapsed]
  have "co_call T now elapsed (co_stream_call s now call) c =
       (map_sum id (\<lambda>x. with_timings 0 elapsed (ValStream x)) r, co_turn T now elapsed e)"
    by (simp add: co_call_def stream py_bind_def je turn(1) [OF r])
  then show ?thesis using turn(2,3) [OF r] turn(4) [OF r] by (rule that)
qed

text \<open>The calls of a dialogue stay within the audio limit and the transcriber raises no \<open>BaseException\<close>
  on the way.\<close>

fun direct_sound :: "('h, 'w) asr_transcriber \<Rightarrow> 'h \<Rightarrow> rat \<Rightarrow> (rat \<times> rat \<times> stream_call) list \<Rightarrow> 'w \<Rightarrow> bool" where
  "direct_sound T h limit [] w = True"
| "direct_sound T h limit ((now, elapsed, call) # rest) w =
     (let (r, w) = direct_call T h call w
      in call_audio call \<le> limit \<and> (case r of Inl e \<Rightarrow> \<not> base_exception e | Inr _ \<Rightarrow> True) \<and> direct_sound T h limit rest w)"


lemma example_opened_serving: "serving ''a'' 0 example_opened"
  unfolding example_opened_def example_job_eq
  by (simp add: serving_def example_worker_defs co_worker_settle_def co_cleanup_poisoned_def truthy_id_def co_release_job_def
      co_release_audio_def co_release_session_reservation_def co_release_stream_reservation_def co_discard_busy_def)

lemma example_opened_world: "co_world example_opened = [mk_init None]" 
    "asr_max_queued_audio_seconds (co_settings example_opened) = 4"
  unfolding example_opened_def example_job_eq
  by (simp_all add: example_worker_defs co_worker_settle_def co_cleanup_poisoned_def truthy_id_def co_release_job_def
      co_release_audio_def co_release_session_reservation_def co_release_stream_reservation_def co_discard_busy_def)


end
