(* ===== verification/Gateway.thy ===== *)
theory Gateway
  imports Vad Sessions Metrics LocalAdapter
begin

text \<open>
  The gateway runtime of \<open>asr_gateway.py\<close>: sessions, their leases, protocol sessions, VAD detectors and
  outbound event queues, the scheduler and its hooks. The runtime is one record. A session's
  context is an object several tasks share and keep using after it has left the session table, so
  the contexts live in a heap \<open>gw_objects\<close> and the table lists the live keys. The backends, the
  speech model and every wait are the environment record \<open>gateway_env\<close>: a call of an adapter and a
  wait may change the whole runtime, because other tasks run meanwhile. The clock is read as a
  sequence of readings, one per call of \<open>scheduler.clock\<close>. Log events are not modelled.
\<close>

section \<open>State\<close>

record OutboundEvent =
  oe_payload :: "wire_event option"
  oe_job_id :: "string option"
  oe_completes_timeline :: bool
  oe_terminal :: bool
  oe_close_code :: "int option"

record 'v SessionContext =
  cx_session :: GatewaySession
  cx_lease :: BackendLease
  cx_protocol :: ProtocolSession
  cx_events :: "OutboundEvent list"
  cx_idle :: bool
  cx_vad :: "'v StreamingVADEndpointDetector option"
  cx_endpoint_pending :: bool
  cx_utterance_samples :: int
  cx_opened_at :: seconds
  cx_first_undecoded_at :: "seconds option"
  cx_lease_released :: bool
  cx_segment_metadata :: "metadata option"

record ('v, 'e) GatewayRuntime =
  gw_settings :: Settings
  gw_registry :: registry
  gw_sessions :: SessionManager
  gw_metrics :: GatewayMetrics
  gw_contexts :: "string list"
  gw_objects :: "string \<Rightarrow> 'v SessionContext"
  gw_timelines :: "(string, JobTimeline \<times> int \<times> int) dict"
  gw_worker_empty :: "(string, bool) dict"
  gw_scheduler :: GatewayScheduler
  gw_started :: bool
  gw_clock :: "nat \<Rightarrow> seconds"
  gw_ticks :: nat
  gw_world :: 'e

type_synonym ('v, 'e, 'a) gw_method = "(('v, 'e) GatewayRuntime, 'a) py_method"

text \<open>The environment: the adapters by worker id, the VAD model, \<open>hash\<close> of a text, and the waits. A
  backpressure wait is one of a list; a client that waits beyond its end is cancelled.\<close>

record ('v, 'e) gateway_env =
  ge_open_session :: "string \<Rightarrow> string \<Rightarrow> ustr \<Rightarrow> (ustr, json) dict \<Rightarrow> ('v, 'e, string) gw_method"
  ge_finish_segment :: "string \<Rightarrow> string \<Rightarrow> ('v, 'e, AdapterResult) gw_method"
  ge_finish_session :: "string \<Rightarrow> string \<Rightarrow> ('v, 'e, AdapterResult) gw_method"
  ge_abort_session :: "string \<Rightarrow> string \<Rightarrow> ('v, 'e, unit) gw_method"
  ge_warmup :: "string \<Rightarrow> ('v, 'e, unit) gw_method"
  ge_close :: "string \<Rightarrow> ('v, 'e, unit) gw_method"
  ge_drain :: "string \<Rightarrow> ('v, 'e, unit) gw_method option"
  ge_remaining_segment_samples :: "string \<Rightarrow> (string \<Rightarrow> ('e, int) py_method) option"
  ge_vad_factory :: "('e, 'v StreamingVADEndpointDetector) py_method"
  ge_vad_backend :: "'v VADBackend"
  ge_chardb :: chardb
  ge_str :: "json \<Rightarrow> ustr"
  ge_options_hash :: "(ustr, json) dict \<Rightarrow> string"
  ge_text_hash :: "ustr \<Rightarrow> string"
  ge_protocol_lock :: "string \<Rightarrow> ('v, 'e, unit) gw_method"
  ge_wait_idle :: "string \<Rightarrow> ('v, 'e, unit) gw_method"
  ge_wait_released :: "(string \<Rightarrow> ('v, 'e, unit) gw_method) list"
  ge_wait_session_safe :: "string \<Rightarrow> int \<Rightarrow> ('v, 'e, unit) gw_method"
  ge_wait_worker_empty :: "string \<Rightarrow> seconds option \<Rightarrow> ('v, 'e, unit) gw_method"
  ge_scheduler_stopped :: "('v, 'e, unit) gw_method"

section \<open>Access\<close>

definition ctx_upd :: "string \<Rightarrow> ('v SessionContext \<Rightarrow> 'v SessionContext) \<Rightarrow>
    ('v, 'e) GatewayRuntime \<Rightarrow> ('v, 'e) GatewayRuntime" where
  "ctx_upd s f g = g\<lparr>gw_objects := (gw_objects g)(s := f (gw_objects g s))\<rparr>"

definition cx_get :: "string \<Rightarrow> ('v SessionContext \<Rightarrow> 'a) \<Rightarrow> ('v, 'e, 'a) gw_method" where
  "cx_get s f = py_read (\<lambda>g. f (gw_objects g s))"

definition cx_set :: "string \<Rightarrow> ('v SessionContext \<Rightarrow> 'v SessionContext) \<Rightarrow> ('v, 'e, unit) gw_method" where
  "cx_set s f = py_modify (ctx_upd s f)"

text \<open>\<open>self._contexts[session_id]\<close>.\<close>

definition find_ctx :: "string \<Rightarrow> ('v, 'e, unit) gw_method" where
  "find_ctx s = (\<lambda>g. (if s \<in> set (gw_contexts g) then Inr () else Inl (KeyError s), g))"

definition has_ctx :: "string \<Rightarrow> ('v, 'e, bool) gw_method" where
  "has_ctx s = py_read (\<lambda>g. s \<in> set (gw_contexts g))"

text \<open>A method of an object the runtime owns; an operation that raises before it changes anything.\<close>

definition raising :: "('s \<Rightarrow> ('a \<times> 's) result) \<Rightarrow> ('s, 'a) py_method" where
  "raising f = (\<lambda>s. case f s of Inl e \<Rightarrow> (Inl e, s) | Inr (x, t) \<Rightarrow> (Inr x, t))"

definition raising_unit :: "('s \<Rightarrow> 's result) \<Rightarrow> ('s, unit) py_method" where
  "raising_unit f = (\<lambda>s. case f s of Inl e \<Rightarrow> (Inl e, s) | Inr t \<Rightarrow> (Inr (), t))"

definition on_session :: "string \<Rightarrow> (GatewaySession, 'a) py_method \<Rightarrow> ('v, 'e, 'a) gw_method" where
  "on_session s m = (\<lambda>g. case m (cx_session (gw_objects g s)) of
     (r, x) \<Rightarrow> (r, ctx_upd s (\<lambda>c. c\<lparr>cx_session := x\<rparr>) g))"

definition on_protocol :: "string \<Rightarrow> (ProtocolSession, 'a) py_method \<Rightarrow> ('v, 'e, 'a) gw_method" where
  "on_protocol s m = (\<lambda>g. case m (cx_protocol (gw_objects g s)) of
     (r, x) \<Rightarrow> (r, ctx_upd s (\<lambda>c. c\<lparr>cx_protocol := x\<rparr>) g))"

text \<open>The detector's loops always end (\<open>Vad.vad_total_and_bounded\<close>); the missing value of a loop that
  does not is an error here.\<close>

definition on_vad :: "string \<Rightarrow>
    ('v StreamingVADEndpointDetector \<Rightarrow> (VADDecision result \<times> 'v StreamingVADEndpointDetector) option) \<Rightarrow>
    ('v, 'e, VADDecision) gw_method" where
  "on_vad s m = (\<lambda>g. case cx_vad (gw_objects g s) of
     None \<Rightarrow> (Inl (OtherError ''AttributeError''), g)
   | Some d \<Rightarrow> (case m d of
         None \<Rightarrow> (Inl (OtherError ''EndlessLoop''), g)
       | Some (r, d') \<Rightarrow> (r, ctx_upd s (\<lambda>c. c\<lparr>cx_vad := Some d'\<rparr>) g)))"

definition on_metrics :: "(GatewayMetrics, 'a) py_method \<Rightarrow> ('v, 'e, 'a) gw_method" where
  "on_metrics m = (\<lambda>g. case m (gw_metrics g) of (r, x) \<Rightarrow> (r, g\<lparr>gw_metrics := x\<rparr>))"

definition on_registry :: "(registry, 'a) py_method \<Rightarrow> ('v, 'e, 'a) gw_method" where
  "on_registry m = (\<lambda>g. case m (gw_registry g) of (r, x) \<Rightarrow> (r, g\<lparr>gw_registry := x\<rparr>))"

definition on_scheduler :: "(GatewayScheduler, 'a) py_method \<Rightarrow> ('v, 'e, 'a) gw_method" where
  "on_scheduler m = (\<lambda>g. case m (gw_scheduler g) of (r, x) \<Rightarrow> (r, g\<lparr>gw_scheduler := x\<rparr>))"

definition on_backend :: "('e, 'a) py_method \<Rightarrow> ('v, 'e, 'a) gw_method" where
  "on_backend m = (\<lambda>g. case m (gw_world g) of (r, x) \<Rightarrow> (r, g\<lparr>gw_world := x\<rparr>))"

definition read_clock :: "('v, 'e, seconds) gw_method" where
  "read_clock = (\<lambda>g. (Inr (gw_clock g (gw_ticks g)), g\<lparr>gw_ticks := Suc (gw_ticks g)\<rparr>))"

text \<open>\<open>self.adapters[worker_id].capabilities\<close>: the scheduler's adapters are the same objects.\<close>

definition gw_capabilities :: "string \<Rightarrow> ('v, 'e, BackendCapabilities) gw_method" where
  "gw_capabilities w = (\<lambda>g. case map_of (sc_adapters (gw_scheduler g)) w of
     None \<Rightarrow> (Inl (KeyError w), g) | Some caps \<Rightarrow> (Inr caps, g))"

definition only_if :: "bool \<Rightarrow> ('s, unit) py_method \<Rightarrow> ('s, unit) py_method" where
  "only_if b m = (if b then m else py_return ())"

definition suppressed :: "('s, unit) py_method \<Rightarrow> ('s, unit) py_method" where
  "suppressed m = except_exception m (\<lambda>_. py_return ())"

definition locked :: "('v, 'e) gateway_env \<Rightarrow> string \<Rightarrow> ('v, 'e, 'a) gw_method \<Rightarrow> ('v, 'e, 'a) gw_method" where
  "locked E s m = py_seq (ge_protocol_lock E s) m"

definition final_state :: "TerminalState \<Rightarrow> bool" where
  "final_state t \<longleftrightarrow> t \<in> {FAILED_STATE, ABORTED, SUCCEEDED}"

text \<open>\<open>str(n)\<close> and \<open>n.bit_length()\<close>.\<close>

fun nat_digits :: "nat \<Rightarrow> string" where
  "nat_digits n = (if n < 10 then [char_of (48 + n)] else nat_digits (n div 10) @ [char_of (48 + n mod 10)])"

definition str_int :: "int \<Rightarrow> string" where
  "str_int n = (if n < 0 then ''-'' @ nat_digits (nat (- n)) else nat_digits (nat n))"

fun bit_length :: "nat \<Rightarrow> nat" where
  "bit_length n = (if n = 0 then 0 else Suc (bit_length (n div 2)))"

declare nat_digits.simps [simp del] bit_length.simps [simp del]

definition json_truthy :: "json \<Rightarrow> bool" where
  "json_truthy v = (case v of JNull \<Rightarrow> False | JBool b \<Rightarrow> b | JInt n \<Rightarrow> n \<noteq> 0 | JFloat x \<Rightarrow> x \<noteq> 0
     | JStr s \<Rightarrow> s \<noteq> [] | JList xs \<Rightarrow> xs \<noteq> [] | JObj kvs \<Rightarrow> kvs \<noteq> [])"

section \<open>Gauges, timelines and events\<close>

definition update_gauges :: "('v, 'e, unit) gw_method" where
  "update_gauges =
     py_bind (py_read (\<lambda>g. (map (\<lambda>s. sample_accounting (cx_session (gw_objects g s))) (gw_contexts g),
         scheduler_snapshot (gw_scheduler g), fst (sm_snapshot (gw_sessions g))))) (\<lambda>(accounts, sched, active).
       on_metrics (set_gauges
         \<lparr>gi_active_sessions = int active, gi_ready_depth = ss_ready_depth sched,
          gi_queued_samples = ss_queued_samples sched,
          gi_session_buffered_samples = sum_list (map sa_buffered accounts),
          gi_session_reserved_samples = sum_list (map sa_reserved accounts),
          gi_max_session_held_samples =
            (if accounts = [] then 0
             else Max (set (map (\<lambda>a. sa_buffered a + sa_reserved a + sa_pending_vad a) accounts))),
          gi_sample_rate = 16000\<rparr>))"

definition discard_timeline :: "string \<Rightarrow> ('v, 'e, unit) gw_method" where
  "discard_timeline job_id = py_modify (\<lambda>g. g\<lparr>gw_timelines := AList.delete job_id (gw_timelines g)\<rparr>)"

definition mark_timeline :: "string \<Rightarrow> seconds \<Rightarrow> JobTimeline \<Rightarrow> ('v, 'e, JobTimeline) gw_method" where
  "mark_timeline stage now t = (\<lambda>g. (tl_mark stage now t, g))"

definition mark_result_applied :: "string \<Rightarrow> ('v, 'e, unit) gw_method" where
  "mark_result_applied job_id =
     py_bind (py_read (\<lambda>g. map_of (gw_timelines g) job_id)) (\<lambda>found.
       case found of
         None \<Rightarrow> py_return ()
       | Some (timeline, items, capacity) \<Rightarrow>
           py_bind read_clock (\<lambda>now.
             only_if (map_of (tl_stages timeline) ''result_applied'' = None)
               (py_bind (mark_timeline ''result_applied'' now timeline) (\<lambda>timeline.
                 py_modify (\<lambda>g. g\<lparr>gw_timelines := AList.update job_id (timeline, items, capacity) (gw_timelines g)\<rparr>)))))"

definition mark_event_sent :: "string \<Rightarrow> ('v, 'e, unit) gw_method" where
  "mark_event_sent job_id =
     py_bind (py_read (\<lambda>g. map_of (gw_timelines g) job_id)) (\<lambda>found.
     py_seq (discard_timeline job_id)
       (case found of
          None \<Rightarrow> py_return ()
        | Some (timeline, items, capacity) \<Rightarrow>
            py_bind read_clock (\<lambda>now.
            py_bind (mark_timeline ''event_sent'' now timeline) (\<lambda>timeline.
              on_metrics (gm_complete timeline items capacity)))))"

definition record_stage :: "string \<Rightarrow> InferenceJob list \<Rightarrow> int \<Rightarrow> ('v, 'e, unit) gw_method" where
  "record_stage stage jobs capacity =
     py_bind read_clock (\<lambda>now.
     py_seq (only_if (stage = ''scheduler_dispatched'') (on_metrics (record_scheduler_batch (Finite (of_nat (length jobs))))))
       (py_for jobs (\<lambda>job.
          py_bind (py_read (\<lambda>g. map_of (gw_timelines g) (ij_job_id job))) (\<lambda>found.
            case found of
              None \<Rightarrow> py_return ()
            | Some (timeline, _, _) \<Rightarrow>
                py_bind (mark_timeline stage now timeline) (\<lambda>timeline.
                  py_modify (\<lambda>g. g\<lparr>gw_timelines :=
                    AList.update (ij_job_id job) (timeline, int (length jobs), capacity) (gw_timelines g)\<rparr>))))))"

text \<open>The queue of a session's outbound events is unbounded, so \<open>put\<close> does not wait.\<close>

definition put_event :: "string \<Rightarrow> OutboundEvent \<Rightarrow> ('v, 'e, unit) gw_method" where
  "put_event s e = cx_set s (\<lambda>c. c\<lparr>cx_events := cx_events c @ [e]\<rparr>)"

fun outbound :: "string option \<Rightarrow> bool \<Rightarrow> int option \<Rightarrow> wire_event list \<Rightarrow> OutboundEvent list" where
  "outbound job_id terminal close_code [] = []"
| "outbound job_id terminal close_code (e # es) =
     (let last = (es = []) in
      \<lparr>oe_payload = Some e, oe_job_id = job_id,
       oe_completes_timeline = (job_id \<noteq> None \<and> job_id \<noteq> Some [] \<and> last), oe_terminal = (terminal \<and> last),
       oe_close_code = (if terminal \<and> last then close_code else None)\<rparr> # outbound job_id terminal close_code es)"

definition enqueue_events ::
  "string \<Rightarrow> string option \<Rightarrow> bool \<Rightarrow> int option \<Rightarrow> wire_event list \<Rightarrow> ('v, 'e, unit) gw_method" where
  "enqueue_events s job_id terminal close_code es = py_for (outbound job_id terminal close_code es) (put_event s)"

section \<open>Scheduling a session's audio\<close>

definition update_samples :: "('v, 'e) GatewayRuntime \<Rightarrow> int \<Rightarrow> int" where
  "update_samples g rate = py_round (of_int (asr_gateway_default_update_ms (gw_settings g)) / 1000 * of_int rate)"

text \<open>Waiting audio counts against its age only when it could be scheduled.\<close>

definition schedulable :: "('v, 'e) GatewayRuntime \<Rightarrow> 'v SessionContext \<Rightarrow> bool" where
  "schedulable g c \<longleftrightarrow> gs_in_flight (cx_session c) \<or>
     update_samples g (gs_sample_rate (cx_session c)) \<le> rb_buffered_samples (gs_buffer (cx_session c)) \<or>
     cx_endpoint_pending c \<or> gs_finish_requested (cx_session c)"

definition check_deadlines :: "string \<Rightarrow> ('v, 'e, unit) gw_method" where
  "check_deadlines s =
     py_seq (find_ctx s) (py_bind read_clock (\<lambda>now.
     py_bind (py_read (\<lambda>g. (gw_objects g s, schedulable g (gw_objects g s), gw_settings g))) (\<lambda>(c, ready, cfg).
       if asr_max_session_seconds cfg < now - cx_opened_at c then py_raise (TimeoutError ''session deadline exceeded'')
       else if ready \<and> (case cx_first_undecoded_at c of None \<Rightarrow> False
             | Some t \<Rightarrow> asr_max_undecoded_age_seconds cfg < now - t)
       then py_raise (TimeoutError ''undecoded audio age exceeded'')
       else py_return ())))"

definition batch_key_of ::
  "('v, 'e) gateway_env \<Rightarrow> Settings \<Rightarrow> BackendCapabilities \<Rightarrow> GatewaySession \<Rightarrow> ReadyChunk \<Rightarrow> BatchKey" where
  "batch_key_of E cfg caps session chunk =
     (let options = gs_options session;
          rolling = asr_backend cfg \<in> {BackendFasterWhisper, BackendSensevoice};
          bucket = (if rolling then 0 else min 15 (max 0 (int (bit_length (nat (rc_sample_count chunk))) - 1)))
      in \<lparr>bk_worker_id = gs_selected_worker_id session, bk_model_revision = model_revision caps,
          bk_language = gs_language session, bk_task = json_str (ge_str E) (json_get options ''task'' (JStr (lit ''transcribe''))),
          bk_timestamps = json_truthy (json_get options ''timestamps'' (JBool False)),
          bk_prompt_identity = ge_text_hash E (json_str (ge_str E) (json_get options ''prompt'' (JStr []))),
          bk_decoding_identity = (if rc_final chunk then ''final:'' else ''partial:'') @ ge_options_hash E options,
          bk_sample_format = ''pcm_s16le'', bk_length_bucket = bucket\<rparr>)"

definition job_of ::
  "('v, 'e) gateway_env \<Rightarrow> Settings \<Rightarrow> BackendCapabilities \<Rightarrow> GatewaySession \<Rightarrow> SessionReservation \<Rightarrow>
   seconds \<Rightarrow> seconds \<Rightarrow> InferenceJob" where
  "job_of E cfg caps session reservation now1 now2 =
     (let chunk = sr_chunk reservation
      in \<lparr>ij_job_id = gs_session_id session @ '':'' @ str_int (gs_generation session) @ '':'' @
            str_int (sr_job_sequence reservation),
          ij_session_id = gs_session_id session, ij_generation = gs_generation session,
          ij_job_sequence = sr_job_sequence reservation, ij_worker_id = gs_selected_worker_id session,
          ij_backend_session_id = gs_backend_session_id session,
          ij_start_sample = rc_start chunk, ij_end_sample = rc_end chunk, ij_pcm = rc_pcm chunk,
          ij_deadline = now1 + of_int (asr_gateway_schedule_max_wait_ms cfg) / 1000,
          ij_batch_key = batch_key_of E cfg caps session chunk, ij_final = rc_final chunk,
          ij_enqueued_at = 0, ij_queue_deadline = Some (now2 + asr_stream_queue_timeout_seconds cfg)\<rparr>)"

text \<open>The \<open>try\<close> block of \<open>_schedule_next\<close>: the job's timeline is opened and the job enqueued.\<close>

definition submit_job :: "string \<Rightarrow> BackendCapabilities \<Rightarrow> InferenceJob \<Rightarrow> ('v, 'e, unit) gw_method" where
  "submit_job s caps job =
     py_bind read_clock (\<lambda>now.
     py_bind (mark_timeline ''audio_received'' now
        \<lparr>tl_job_id = ij_job_id job, tl_worker_id = ij_worker_id job, tl_decoded_samples = ij_sample_count job,
         tl_sample_rate = 16000, tl_stages = []\<rparr>) (\<lambda>t.
     py_bind (mark_timeline ''chunk_ready'' now t) (\<lambda>t.
     py_bind (mark_timeline ''scheduler_enqueued'' now t) (\<lambda>t.
     py_seq (py_modify (\<lambda>g. g\<lparr>gw_timelines := AList.update (ij_job_id job) (t, 1, max_batch_items caps) (gw_timelines g)\<rparr>))
     (py_bind read_clock (\<lambda>enqueued_at.
     py_seq (on_scheduler (raising_unit (\<lambda>q. enqueue q enqueued_at job)))
       (cx_set s (\<lambda>c. if cx_first_undecoded_at c = None then c\<lparr>cx_first_undecoded_at := Some now\<rparr> else c))))))))"

definition remaining_samples ::
  "('v, 'e) gateway_env \<Rightarrow> string \<Rightarrow> string \<Rightarrow> BackendCapabilities \<Rightarrow> ('v, 'e, int) gw_method" where
  "remaining_samples E w s caps =
     py_bind (cx_get s (\<lambda>c. max_segment_samples caps - cx_utterance_samples c)) (\<lambda>remaining.
       case ge_remaining_segment_samples E w of
         None \<Rightarrow> py_return remaining
       | Some f \<Rightarrow> py_bind (on_backend (f s)) (\<lambda>n. py_return (min remaining n)))"

text \<open>What \<open>_schedule_next\<close> does once it knows how many samples to take, \<open>left\<close> being the most the segment
  can still hold; a job the scheduler refuses is undone.\<close>

definition take_and_submit :: "('v, 'e) gateway_env \<Rightarrow> string \<Rightarrow> BackendCapabilities \<Rightarrow> int \<Rightarrow> int \<Rightarrow> ('v, 'e, bool) gw_method" where
  "take_and_submit E s caps amount left =
     py_bind (cx_get s (\<lambda>c. gs_finish_requested (cx_session c) \<or> cx_endpoint_pending c \<or> amount = left)) (\<lambda>final.
     py_bind (on_session s (raising (\<lambda>x. reserve x amount final))) (\<lambda>reservation.
     py_seq (cx_set s (\<lambda>c. c\<lparr>cx_idle := False\<rparr>))
     (py_bind read_clock (\<lambda>now1. py_bind read_clock (\<lambda>now2.
     py_bind (py_read (\<lambda>g. job_of E (gw_settings g) caps (cx_session (gw_objects g s)) reservation now1 now2)) (\<lambda>job.
     py_seq
       (except_exception (submit_job s caps job)
         (\<lambda>e. py_seq (discard_timeline (ij_job_id job))
           (py_seq (py_bind (on_session s (raising (\<lambda>x. rollback x (sr_job_sequence reservation)))) (\<lambda>_. py_return ()))
           (py_seq (cx_set s (\<lambda>c. c\<lparr>cx_idle := True\<rparr>)) (py_raise e)))))
       (py_return True)))))))"

definition schedule_next :: "('v, 'e) gateway_env \<Rightarrow> string \<Rightarrow> bool \<Rightarrow> ('v, 'e, bool) gw_method" where
  "schedule_next E s force =
     py_bind (py_read (\<lambda>g. (gs_selected_worker_id (cx_session (gw_objects g s)),
        update_samples g (gs_sample_rate (cx_session (gw_objects g s)))))) (\<lambda>(w, preferred).
     py_bind (gw_capabilities w) (\<lambda>caps.
     py_seq (find_ctx s)
     (py_bind (remaining_samples E w s caps) (\<lambda>left.
     py_bind (cx_get s (\<lambda>c. ready_samples (cx_session c) preferred (Some (min (max_input_samples caps) left)) force)) (\<lambda>amount.
     if amount \<le> 0 then py_return False else take_and_submit E s caps amount left)))))"

section \<open>Accepting audio\<close>

text \<open>The two \<open>while True\<close> loops that hold the client back while a job is in flight: each wait is one
  of the environment's.\<close>

definition held_back :: "string \<Rightarrow> py_error \<Rightarrow> ('v, 'e) GatewayRuntime \<Rightarrow> bool" where
  "held_back s e g \<longleftrightarrow> (case e of CapacityBufferError reason _ _ _ \<Rightarrow>
     reason = ''session_pcm_limit'' \<and> gs_in_flight (cx_session (gw_objects g s)) | _ \<Rightarrow> False)"

fun with_backpressure ::
  "(string \<Rightarrow> ('v, 'e, unit) gw_method) list \<Rightarrow> string \<Rightarrow> (GatewaySession, unit) py_method \<Rightarrow> ('v, 'e, unit) gw_method" where
  "with_backpressure waits s m =
     py_except (on_session s m) (\<lambda>e.
       py_bind (py_read (held_back s e)) (\<lambda>wait.
         if \<not> wait then py_raise e
         else case waits of
             [] \<Rightarrow> py_raise (OtherError ''CancelledError'')
           | w # waits \<Rightarrow> py_seq (w s) (py_seq (check_deadlines s) (with_backpressure waits s m))))"

declare with_backpressure.simps [simp del]

definition accept_vad_with_backpressure :: "('v, 'e) gateway_env \<Rightarrow> string \<Rightarrow> pcm \<Rightarrow> ('v, 'e, unit) gw_method" where
  "accept_vad_with_backpressure E s pcm =
     with_backpressure (ge_wait_released E) s (raising_unit (\<lambda>x. accept_vad_input x pcm))"

definition append_pcm_with_backpressure ::
  "('v, 'e) gateway_env \<Rightarrow> string \<Rightarrow> pcm \<Rightarrow> bool \<Rightarrow> ('v, 'e, unit) gw_method" where
  "append_pcm_with_backpressure E s pcm count_accepted =
     with_backpressure (ge_wait_released E) s
       (raising_unit (\<lambda>x. map_sum id snd (append_pcm x pcm count_accepted)))"

definition ingest_vad :: "('v, 'e) gateway_env \<Rightarrow> string \<Rightarrow> pcm \<Rightarrow> ('v, 'e, bool) gw_method" where
  "ingest_vad E s pcm =
     py_seq (accept_vad_with_backpressure E s pcm)
     (py_bind (on_vad s (\<lambda>d. vd_add_audio (ge_vad_backend E) d pcm)) (\<lambda>decision.
      py_seq (only_if (audio_to_model decision \<noteq> [])
        (append_pcm_with_backpressure E s (audio_to_model decision) False))
      (py_seq (only_if (discarded_samples decision \<noteq> 0)
        (on_session s (raising_unit (\<lambda>x. record_discarded x (int (discarded_samples decision))))))
      (py_seq (cx_set s (\<lambda>c. c\<lparr>cx_endpoint_pending := cx_endpoint_pending c \<or> endpoint decision\<rparr>))
        (py_return (endpoint decision))))))"

definition ingest_locked :: "('v, 'e) gateway_env \<Rightarrow> string \<Rightarrow> pcm \<Rightarrow> bool \<Rightarrow> ('v, 'e, bool) gw_method" where
  "ingest_locked E s pcm force =
     py_seq (check_deadlines s)
     (py_bind (py_read (\<lambda>g. py_round (asr_max_audio_seconds (gw_settings g) *
          of_int (gs_sample_rate (cx_session (gw_objects g s)))) <
          sa_accepted (sample_accounting (cx_session (gw_objects g s))) + int (length pcm div 2))) (\<lambda>too_long.
      if too_long then py_raise (RuntimeError ''audio duration limit exceeded'')
      else
      py_bind (cx_get s (\<lambda>c. cx_vad c \<noteq> None)) (\<lambda>vad.
      py_bind (if pcm \<noteq> [] \<and> vad then ingest_vad E s pcm
               else if pcm \<noteq> [] then py_seq (append_pcm_with_backpressure E s pcm True) (py_return False)
               else py_return False) (\<lambda>ended.
      py_bind (schedule_next E s (force \<or> ended)) (\<lambda>scheduled.
      py_seq update_gauges (py_return scheduled))))))"

definition ingest :: "('v, 'e) gateway_env \<Rightarrow> string \<Rightarrow> pcm \<Rightarrow> bool \<Rightarrow> ('v, 'e, bool) gw_method" where
  "ingest E s pcm force = py_seq (find_ctx s) (locked E s (ingest_locked E s pcm force))"

section \<open>Opening, failing and releasing sessions\<close>

definition set_worker_empty :: "string \<Rightarrow> bool \<Rightarrow> ('v, 'e, unit) gw_method" where
  "set_worker_empty w b = (\<lambda>g.
     if map_of (gw_worker_empty g) w = None then (Inl (KeyError w), g)
     else (Inr (), g\<lparr>gw_worker_empty := AList.update w b (gw_worker_empty g)\<rparr>))"

definition release_lease :: "string \<Rightarrow> ('v, 'e, unit) gw_method" where
  "release_lease s = (\<lambda>g. case lease_release (gw_registry g) (cx_lease (gw_objects g s)) of
     (err, l, r) \<Rightarrow> ((case err of None \<Rightarrow> Inr () | Some e \<Rightarrow> Inl e), (ctx_upd s (\<lambda>c. c\<lparr>cx_lease := l\<rparr>) g)\<lparr>gw_registry := r\<rparr>))"

text \<open>A lease that no context owns yet.\<close>

definition release_unowned :: "BackendLease \<Rightarrow> ('v, 'e, unit) gw_method" where
  "release_unowned lease = (\<lambda>g. case lease_release (gw_registry g) lease of
     (err, _, r) \<Rightarrow> ((case err of None \<Rightarrow> Inr () | Some e \<Rightarrow> Inl e), g\<lparr>gw_registry := r\<rparr>))"

definition required_streaming_mode :: "asr_stream_mode_name \<Rightarrow> StreamingMode" where
  "required_streaming_mode m = (case m of ModeStateful \<Rightarrow> STATEFUL | ModeChunked \<Rightarrow> CHUNKED | ModeRolling \<Rightarrow> ROLLING)"

definition session_route :: "('v, 'e) gateway_env \<Rightarrow> Settings \<Rightarrow> ustr \<Rightarrow> (ustr, json) dict \<Rightarrow> route" where
  "session_route E cfg language options =
     \<lparr>preferred_worker_id = None, route_backend_id = Some (asr_gateway_default_backend cfg),
      route_language = Some language,
      route_task = Some (json_str (ge_str E) (json_get options ''task'' (JStr (lit ''transcribe'')))),
      route_streaming_mode = Some (required_streaming_mode (asr_stream_mode cfg)),
      result_modes = Some [CUMULATIVE_SNAPSHOT, REPLACEABLE_SEGMENT, CONFIRMED_PLUS_TAIL],
      route_model_id = (if asr_backend cfg = BackendMock then None else Some (asr_model_id cfg)),
      route_model_revision = None\<rparr>"

definition new_context :: "GatewaySession \<Rightarrow> BackendLease \<Rightarrow> bool \<Rightarrow>
    'v StreamingVADEndpointDetector option \<Rightarrow> seconds \<Rightarrow> 'v SessionContext" where
  "new_context session lease segment_local vad now =
     \<lparr>cx_session = session, cx_lease = lease, cx_protocol = ps_init 16000 segment_local, cx_events = [],
      cx_idle = True, cx_vad = vad, cx_endpoint_pending = False, cx_utterance_samples = 0, cx_opened_at = now,
      cx_first_undecoded_at = None, cx_lease_released = False, cx_segment_metadata = None\<rparr>"

text \<open>The \<open>try\<close> block of \<open>open_session\<close>: the adapter's session, then the gateway's.\<close>

definition create_session ::
  "('v, 'e) gateway_env \<Rightarrow> string \<Rightarrow> string \<Rightarrow> ustr \<Rightarrow> (ustr, json) dict \<Rightarrow> ('v, 'e, GatewaySession) gw_method" where
  "create_session E w s language options =
     py_bind (ge_open_session E w s language options) (\<lambda>backend_id. \<lambda>g.
       case sm_create (gw_sessions g) s
           (gs_init s w backend_id 16000
             (py_round (asr_gateway_max_session_buffer_seconds (gw_settings g) * 16000)) language options) of
         Inl e \<Rightarrow> (Inl e, g)
       | Inr (session, m) \<Rightarrow> (Inr session, g\<lparr>gw_sessions := m\<rparr>))"

definition add_context :: "string \<Rightarrow> 'v SessionContext \<Rightarrow> ('v, 'e) GatewayRuntime \<Rightarrow> ('v, 'e) GatewayRuntime" where
  "add_context s c g = g\<lparr>gw_objects := (gw_objects g)(s := c),
     gw_contexts := (if s \<in> set (gw_contexts g) then gw_contexts g else gw_contexts g @ [s])\<rparr>"

definition gateway_open_session ::
  "('v, 'e) gateway_env \<Rightarrow> string \<Rightarrow> ustr \<Rightarrow> (ustr, json) dict \<Rightarrow> ('v, 'e, unit) gw_method" where
  "gateway_open_session E s language options =
     py_bind (py_read gw_settings) (\<lambda>cfg.
     py_bind (on_registry (raising (\<lambda>r. registry_acquire r (session_route E cfg language options)))) (\<lambda>w.
     let lease = \<lparr>lease_worker_id = w, released = False\<rparr> in
     py_seq (set_worker_empty w False)
     (py_seq (py_bind (gw_capabilities w) (\<lambda>_. py_return ()))
     (py_bind (except_exception (create_session E w s language options)
         (\<lambda>e. py_seq (release_unowned lease) (py_seq (set_worker_empty w True) (py_raise e)))) (\<lambda>session.
     py_bind (gw_capabilities w) (\<lambda>caps.
     py_bind (if vad_mode caps = VAD_GATEWAY then py_bind (on_backend (ge_vad_factory E)) (\<lambda>d. py_return (Some d))
              else py_return None) (\<lambda>vad.
     py_bind read_clock (\<lambda>now.
     py_seq (py_modify (add_context s (new_context session lease (result_mode caps = REPLACEABLE_SEGMENT) vad now)))
       update_gauges))))))))"

text \<open>The session manager's table holds the same session objects as the contexts.\<close>

definition close_session :: "string \<Rightarrow> ('v, 'e) GatewayRuntime \<Rightarrow> ('v, 'e) GatewayRuntime" where
  "close_session s g =
     (let m = gw_sessions g;
          shared = (if map_of (sm_sessions m) s = None then m
            else m\<lparr>sm_sessions := AList.update s (cx_session (gw_objects g s)) (sm_sessions m)\<rparr>)
      in case sm_close shared s of
           (None, m') \<Rightarrow> g\<lparr>gw_sessions := m'\<rparr>
         | (Some x, m') \<Rightarrow> ctx_upd s (\<lambda>c. c\<lparr>cx_session := x\<rparr>) (g\<lparr>gw_sessions := m'\<rparr>))"

definition serves_worker :: "('v, 'e) GatewayRuntime \<Rightarrow> string \<Rightarrow> bool" where
  "serves_worker g w \<longleftrightarrow> list_ex (\<lambda>s. gs_selected_worker_id (cx_session (gw_objects g s)) = w) (gw_contexts g)"

definition release_session :: "string \<Rightarrow> ('v, 'e, unit) gw_method" where
  "release_session s =
     py_bind (has_ctx s) (\<lambda>present.
     py_seq (py_modify (\<lambda>g. close_session s (g\<lparr>gw_contexts := filter (\<lambda>t. t \<noteq> s) (gw_contexts g)\<rparr>)))
     (py_seq (only_if present
        (py_seq (py_bind (cx_get s cx_lease_released) (\<lambda>done.
            only_if (\<not> done) (py_seq (release_lease s) (cx_set s (\<lambda>c. c\<lparr>cx_lease_released := True\<rparr>)))))
          (py_bind (cx_get s (\<lambda>c. gs_selected_worker_id (cx_session c))) (\<lambda>w.
           py_bind (py_read (\<lambda>g. serves_worker g w)) (\<lambda>busy.
             only_if (\<not> busy) (set_worker_empty w True))))))
       update_gauges))"

definition cancel_jobs :: "string \<Rightarrow> ('v, 'e, unit) gw_method" where
  "cancel_jobs s = py_bind (cx_get s (\<lambda>c. gs_generation (cx_session c))) (\<lambda>generation.
     on_scheduler (py_modify (\<lambda>q. cancel_session q s generation)))"

text \<open>\<open>adapters[session.selected_worker_id].abort_session(session_id)\<close>.\<close>

definition abort_backend :: "('v, 'e) gateway_env \<Rightarrow> string \<Rightarrow> ('v, 'e, unit) gw_method" where
  "abort_backend E s = py_bind (cx_get s (\<lambda>c. gs_selected_worker_id (cx_session c))) (\<lambda>w.
     py_bind (gw_capabilities w) (\<lambda>_. ge_abort_session E w s))"

definition fail_session :: "('v, 'e) gateway_env \<Rightarrow> string \<Rightarrow> ('v, 'e, bool) gw_method" where
  "fail_session E s =
     py_bind (cx_get s (\<lambda>c. final_state (gs_terminal_state (cx_session c)))) (\<lambda>over.
     if over then py_return False
     else py_seq (cancel_jobs s)
       (py_seq (on_session s fail)
       (py_seq (suppressed (abort_backend E s)) (py_return True))))"

text \<open>What \<open>abort\<close> and \<open>enqueue_abort\<close> share: cancel the jobs, wait until none is with a worker, settle the
  session's audio and reset its detector.\<close>

definition reset_vad :: "('v, 'e) gateway_env \<Rightarrow> string \<Rightarrow> ('v, 'e, unit) gw_method" where
  "reset_vad E s = cx_set s (\<lambda>c. c\<lparr>cx_vad := map_option (vd_reset (ge_vad_backend E)) (cx_vad c)\<rparr>)"

definition abandon_session :: "('v, 'e) gateway_env \<Rightarrow> string \<Rightarrow> ('v, 'e, unit) gw_method" where
  "abandon_session E s =
     py_seq (cancel_jobs s)
     (py_bind (cx_get s (\<lambda>c. gs_generation (cx_session c))) (\<lambda>generation.
      py_seq (ge_wait_session_safe E s generation)
      (py_seq (on_metrics (py_modify (\<lambda>m. m\<lparr>gm_cancellations := gm_cancellations m + 1\<rparr>)))
      (py_seq (on_session s abort) (reset_vad E s)))))"

definition gateway_abort :: "('v, 'e) gateway_env \<Rightarrow> string \<Rightarrow> ('v, 'e, unit) gw_method" where
  "gateway_abort E s =
     py_bind (has_ctx s) (\<lambda>present.
     if \<not> present then py_return ()
     else py_bind (cx_get s (\<lambda>c. final_state (gs_terminal_state (cx_session c)))) (\<lambda>over.
       if over then release_session s
       else py_seq (abandon_session E s) (py_seq (suppressed (abort_backend E s)) (release_session s))))"

definition close_event :: "int \<Rightarrow> OutboundEvent" where
  "close_event close_code = \<lparr>oe_payload = None, oe_job_id = None, oe_completes_timeline = False,
     oe_terminal = True, oe_close_code = Some close_code\<rparr>"

definition enqueue_close :: "string \<Rightarrow> int \<Rightarrow> ('v, 'e, unit) gw_method" where
  "enqueue_close s close_code = py_seq (find_ctx s) (put_event s (close_event close_code))"

definition enqueue_abort :: "('v, 'e) gateway_env \<Rightarrow> string \<Rightarrow> ('v, 'e, unit) gw_method" where
  "enqueue_abort E s =
     py_seq (find_ctx s) (py_seq (abandon_session E s) (py_seq (abort_backend E s) (enqueue_close s 1000)))"

definition enqueue_ready :: "('v, 'e) gateway_env \<Rightarrow> string \<Rightarrow> ('v, 'e, unit) gw_method" where
  "enqueue_ready E s =
     py_seq (find_ctx s) (locked E s
       (py_bind (cx_get s (\<lambda>c. gs_selected_worker_id (cx_session c))) (\<lambda>w.
        py_bind (on_protocol s (ps_ready [(''session_id'', WStr s), (''worker_id'', WStr w)])) (\<lambda>e.
          enqueue_events s None False None [e]))))"

definition count_failure :: "('v, 'e, unit) gw_method" where
  "count_failure = on_metrics (py_modify (\<lambda>m. m\<lparr>gm_failures := gm_failures m + 1\<rparr>))"

definition count_conflict :: "('v, 'e, unit) gw_method" where
  "count_conflict = on_metrics (py_modify (\<lambda>m. m\<lparr>gm_conflicts := gm_conflicts m + 1\<rparr>))"

definition count_rejection :: "py_error \<Rightarrow> ('v, 'e, unit) gw_method" where
  "count_rejection e = (case e of CapacityBufferError reason _ _ _ \<Rightarrow> on_metrics (record_capacity_rejection reason)
     | _ \<Rightarrow> py_return ())"

definition enqueue_error ::
  "('v, 'e) gateway_env \<Rightarrow> string \<Rightarrow> py_error \<Rightarrow> string \<Rightarrow> int \<Rightarrow> ('v, 'e, unit) gw_method" where
  "enqueue_error E s exc code close_code =
     py_seq (find_ctx s)
     (py_bind (cx_get s (\<lambda>c. gs_generation (cx_session c))) (\<lambda>generation.
      py_seq (cancel_jobs s)
      (py_seq (ge_wait_session_safe E s generation)
      (locked E s
        (py_bind (cx_get s (\<lambda>c. ps_terminal (cx_protocol c))) (\<lambda>over.
         only_if (\<not> over)
           (py_seq count_failure
           (py_seq (count_rejection exc)
           (py_bind (fail_session E s) (\<lambda>transitioned.
            only_if transitioned
              (py_bind (on_protocol s (ps_error exc code)) (\<lambda>e.
                enqueue_events s None True (Some close_code) [e]))))))))))))"

section \<open>Results\<close>

definition apply_control_result ::
  "('v, 'e) gateway_env \<Rightarrow> string \<Rightarrow> ustr \<Rightarrow> metadata option \<Rightarrow> ('v, 'e, wire_event list) gw_method" where
  "apply_control_result E s text metadata =
     py_seq (only_if (metadata \<noteq> None) (cx_set s (\<lambda>c. c\<lparr>cx_segment_metadata := metadata\<rparr>)))
     (py_bind (cx_get s (\<lambda>c. gs_selected_worker_id (cx_session c))) (\<lambda>w.
      py_bind (gw_capabilities w) (\<lambda>caps.
      py_bind (cx_get s (\<lambda>c. (ps_state (cx_protocol c), cx_segment_metadata c))) (\<lambda>(st, metadata).
        if result_mode caps = REPLACEABLE_SEGMENT
        then on_protocol s (ps_apply_result (ge_chardb E) REPLACEABLE_SEGMENT text [] []
               0 (py_or (ts_active_segment_id st) 0) metadata)
        else on_protocol s (ps_apply_result (ge_chardb E) CUMULATIVE_SNAPSHOT (ts_confirmed st @ text) [] [] 0 0 metadata)))))"

text \<open>What \<open>segment\<close> and \<open>finish\<close> do with the adapter's answer before they close the segment.\<close>

definition apply_answer :: "('v, 'e) gateway_env \<Rightarrow> string \<Rightarrow> AdapterResult \<Rightarrow> ('v, 'e, wire_event list) gw_method" where
  "apply_answer E s result =
     py_bind (if ar_text result \<noteq> [] then apply_control_result E s (ar_text result) (ar_metadata result) else py_return [])
       (\<lambda>events.
     py_seq (only_if (ar_metadata result \<noteq> None) (cx_set s (\<lambda>c. c\<lparr>cx_segment_metadata := ar_metadata result\<rparr>)))
       (py_return events))"

definition commit_segment :: "string \<Rightarrow> ('v, 'e, wire_event list) gw_method" where
  "commit_segment s = py_bind (cx_get s cx_segment_metadata) (\<lambda>metadata. on_protocol s (ps_segment metadata))"

definition gateway_segment :: "('v, 'e) gateway_env \<Rightarrow> string \<Rightarrow> ('v, 'e, wire_event list) gw_method" where
  "gateway_segment E s =
     py_seq (find_ctx s)
     (py_bind (ingest E s [] True) (\<lambda>_.
      py_seq (ge_wait_idle E s)
      (locked E s
        (py_bind (cx_get s (\<lambda>c. gs_selected_worker_id (cx_session c))) (\<lambda>w.
         py_seq (py_bind (gw_capabilities w) (\<lambda>_. py_return ()))
         (py_bind (ge_finish_segment E w s) (\<lambda>result.
         py_bind (apply_answer E s result) (\<lambda>events.
         py_bind (commit_segment s) (\<lambda>more.
         py_seq (cx_set s (\<lambda>c. c\<lparr>cx_segment_metadata := None, cx_utterance_samples := 0\<rparr>))
         (py_seq (enqueue_events s None False None (events @ more))
           (py_return (events @ more))))))))))))"

text \<open>Nothing is scheduled, in flight, buffered or with the detector: the session is idle.\<close>

definition nothing_left :: "bool \<Rightarrow> 'v SessionContext \<Rightarrow> bool" where
  "nothing_left scheduled c \<longleftrightarrow> \<not> scheduled \<and> \<not> gs_in_flight (cx_session c) \<and>
     rb_buffered_samples (gs_buffer (cx_session c)) = 0 \<and> sa_pending_vad (sample_accounting (cx_session c)) = 0"

definition settle_idle :: "string \<Rightarrow> bool \<Rightarrow> ('v, 'e, unit) gw_method" where
  "settle_idle s scheduled = cx_set s (\<lambda>c. if nothing_left scheduled c
     then c\<lparr>cx_idle := True, cx_first_undecoded_at := None\<rparr> else c)"

text \<open>The audio a decision of the detector releases and discards, without waiting.\<close>

definition absorb_decision :: "string \<Rightarrow> VADDecision \<Rightarrow> ('v, 'e, unit) gw_method" where
  "absorb_decision s decision =
     py_seq (only_if (audio_to_model decision \<noteq> [])
       (on_session s (raising_unit (\<lambda>x. map_sum id snd (append_pcm x (audio_to_model decision) False)))))
     (only_if (discarded_samples decision \<noteq> 0)
       (on_session s (raising_unit (\<lambda>x. record_discarded x (int (discarded_samples decision))))))"

definition gateway_finish :: "('v, 'e) gateway_env \<Rightarrow> string \<Rightarrow> ('v, 'e, wire_event) gw_method" where
  "gateway_finish E s =
     py_seq (find_ctx s)
     (py_bind (cx_get s (\<lambda>c. cx_vad c \<noteq> None)) (\<lambda>vad.
      py_seq (only_if vad (py_bind (on_vad s (vd_finish_input (ge_vad_backend E))) (absorb_decision s)))
      (py_seq (on_session s (py_modify request_finish))
      (py_bind (ingest E s [] True) (\<lambda>scheduled.
      py_seq (settle_idle s scheduled)
      (py_seq (ge_wait_idle E s)
      (locked E s
        (py_bind (cx_get s (\<lambda>c. gs_selected_worker_id (cx_session c))) (\<lambda>w.
         py_seq (py_bind (gw_capabilities w) (\<lambda>_. py_return ()))
         (py_bind (ge_finish_session E w s) (\<lambda>result.
         py_bind (apply_answer E s result) (\<lambda>events.
         py_bind (py_bind (cx_get s cx_segment_metadata) (\<lambda>metadata. on_protocol s (ps_final (ge_chardb E) None metadata)))
           (\<lambda>event.
         py_seq (cx_set s (\<lambda>c. c\<lparr>cx_segment_metadata := None\<rparr>))
         (py_seq (on_session s (raising_unit succeed))
         (py_seq (release_lease s)
         (py_seq (cx_set s (\<lambda>c. c\<lparr>cx_lease_released := True\<rparr>))
         (py_seq (enqueue_events s None True (Some 1000) (events @ [event]))
           (py_return event))))))))))))))))))"

definition stale_or_terminal :: "'v SessionContext \<Rightarrow> InferenceResult \<Rightarrow> bool" where
  "stale_or_terminal c result \<longleftrightarrow> ir_generation result \<noteq> gs_generation (cx_session c) \<or>
     ps_terminal (cx_protocol c) \<or> final_state (gs_terminal_state (cx_session c))"

text \<open>A result that no longer counts: its timeline is forgotten and the session is idle.\<close>

definition drop_result :: "string \<Rightarrow> InferenceResult \<Rightarrow> ('v, 'e, unit) gw_method" where
  "drop_result s result = py_seq (discard_timeline (ir_job_id result)) (cx_set s (\<lambda>c. c\<lparr>cx_idle := True\<rparr>))"

text \<open>A result ends its session with an error event, unless the session is over already.\<close>

definition fail_result ::
  "('v, 'e) gateway_env \<Rightarrow> string \<Rightarrow> InferenceResult \<Rightarrow> py_error \<Rightarrow> string \<Rightarrow> ('v, 'e, unit) gw_method" where
  "fail_result E s result exc code =
     py_bind (fail_session E s) (\<lambda>transitioned.
       if \<not> transitioned then drop_result s result
       else py_bind (on_protocol s (ps_error exc code)) (\<lambda>event.
         py_seq (mark_result_applied (ir_job_id result))
         (py_seq (enqueue_events s (Some (ir_job_id result)) True (Some 1011) [event])
           (cx_set s (\<lambda>c. c\<lparr>cx_idle := True\<rparr>)))))"

text \<open>The end of a segment: the adapter finishes it, the segment is committed, and the detector hands
  over what it held back while the endpoint was pending. The value is the events and whether the
  session should go on decoding.\<close>

definition finish_result_segment ::
  "('v, 'e) gateway_env \<Rightarrow> string \<Rightarrow> InferenceResult \<Rightarrow> ('v, 'e, wire_event list \<times> bool) gw_method" where
  "finish_result_segment E s result =
     py_seq (py_bind (gw_capabilities (ir_worker_id result)) (\<lambda>_. py_return ()))
     (py_bind (ge_finish_segment E (ir_worker_id result) s) (\<lambda>control.
      py_bind (if ar_text control \<noteq> [] then apply_control_result E s (ar_text control) (ar_metadata control)
               else py_seq (only_if (ar_metadata control \<noteq> None) (cx_set s (\<lambda>c. c\<lparr>cx_segment_metadata := ar_metadata control\<rparr>)))
                 (py_return [])) (\<lambda>events.
      py_bind (commit_segment s) (\<lambda>more.
      py_seq (cx_set s (\<lambda>c. c\<lparr>cx_segment_metadata :=
          (if gs_finish_requested (cx_session c) then cx_segment_metadata c else None), cx_utterance_samples := 0\<rparr>))
      (py_bind (cx_get s (\<lambda>c. (0 < rb_buffered_samples (gs_buffer (cx_session c)), cx_endpoint_pending c \<and> cx_vad c \<noteq> None)))
        (\<lambda>(continuation, endpoint_done).
       if \<not> endpoint_done then py_return (events @ more, continuation)
       else
       py_seq (cx_set s (\<lambda>c. c\<lparr>cx_endpoint_pending := False\<rparr>))
       (py_bind (on_vad s (vd_endpoint_finalized (ge_vad_backend E))) (\<lambda>decision.
        py_seq (absorb_decision s decision)
        (py_seq (cx_set s (\<lambda>c. c\<lparr>cx_endpoint_pending := endpoint decision\<rparr>))
          (py_return (events @ more, continuation \<or> audio_to_model decision \<noteq> [])))))))))))"

text \<open>The part of \<open>_apply_result_locked\<close> after its checks.\<close>

definition accept_result :: "('v, 'e) gateway_env \<Rightarrow> string \<Rightarrow> InferenceResult \<Rightarrow> ('v, 'e, unit) gw_method" where
  "accept_result E s result =
     py_bind (gw_capabilities (ir_worker_id result)) (\<lambda>caps.
     py_seq (only_if (ir_metadata result \<noteq> None) (cx_set s (\<lambda>c. c\<lparr>cx_segment_metadata := ir_metadata result\<rparr>)))
     (py_bind (cx_get s (\<lambda>c. (ts_confirmed (ps_state (cx_protocol c)), cx_segment_metadata c))) (\<lambda>(confirmed, metadata).
      let text = (if result_mode caps = CUMULATIVE_SNAPSHOT \<and> confirmed \<noteq> [] \<and> \<not> prefix confirmed (ir_text result)
                  then confirmed @ ir_text result else ir_text result);
          decoded = ir_end_sample result - ir_start_sample result
      in
      py_bind (on_protocol s (ps_apply_result (ge_chardb E) (result_mode caps) text (ir_confirmed_text result)
         (ir_tail_text result) decoded (ir_segment_id result) metadata)) (\<lambda>events.
      py_seq (cx_set s (\<lambda>c. c\<lparr>cx_utterance_samples := cx_utterance_samples c + decoded\<rparr>))
      (py_bind (cx_get s cx_endpoint_pending) (\<lambda>pending.
      py_bind (if pending \<and> \<not> ir_final result then schedule_next E s True else py_return False) (\<lambda>deferred.
      py_bind (cx_get s (\<lambda>c. ir_final result \<or> (cx_endpoint_pending c \<and> \<not> deferred) \<or>
          max_segment_samples caps \<le> cx_utterance_samples c)) (\<lambda>ends.
      py_bind (if ends then finish_result_segment E s result else py_return ([], False)) (\<lambda>(more, continuation).
      py_bind (cx_get s (\<lambda>c. continuation \<or> cx_endpoint_pending c \<or> gs_finish_requested (cx_session c))) (\<lambda>force.
      py_bind (if deferred then py_return True else schedule_next E s force) (\<lambda>scheduled.
      py_seq (settle_idle s scheduled)
      (py_seq (mark_result_applied (ir_job_id result))
        (if events @ more \<noteq> [] then enqueue_events s (Some (ir_job_id result)) False None (events @ more)
         else discard_timeline (ir_job_id result))))))))))))))"

definition apply_result_locked :: "('v, 'e) gateway_env \<Rightarrow> string \<Rightarrow> InferenceResult \<Rightarrow> ('v, 'e, unit) gw_method" where
  "apply_result_locked E s result =
     py_bind read_clock (\<lambda>now.
     py_bind (py_read (\<lambda>g. (gw_settings g, cx_first_undecoded_at (gw_objects g s),
         case map_of (gw_timelines g) (ir_job_id result) of None \<Rightarrow> now
         | Some (t, _, _) \<Rightarrow> (case map_of (tl_stages t) ''audio_received'' of None \<Rightarrow> now | Some received \<Rightarrow> received))))
       (\<lambda>(cfg, undecoded, received_at).
     if asr_max_connection_lag_seconds cfg < now - received_at
     then py_seq count_failure (fail_result E s result (TimeoutError ''connection lag exceeded'') ''audio_lag'')
     else if (case undecoded of None \<Rightarrow> False | Some t \<Rightarrow> asr_max_undecoded_age_seconds cfg < now - t)
     then py_seq count_failure (fail_result E s result (TimeoutError ''undecoded audio age exceeded'') ''audio_lag'')
     else if ir_error result \<noteq> None \<and> ir_error result \<noteq> Some []
     then fail_result E s result (RuntimeError (the (ir_error result))) ''backend_error''
     else accept_result E s result))"

definition apply_result :: "('v, 'e) gateway_env \<Rightarrow> InferenceResult \<Rightarrow> ('v, 'e, unit) gw_method" where
  "apply_result E result =
     (let s = ir_session_id result in
      py_bind (has_ctx s) (\<lambda>present.
      if \<not> present then discard_timeline (ir_job_id result)
      else locked E s
        (py_bind (cx_get s (\<lambda>c. stale_or_terminal c result)) (\<lambda>stale.
         if stale then drop_result s result
         else py_bind (cx_get s (\<lambda>c. (cx_protocol c, cx_segment_metadata c))) (\<lambda>(protocol, metadata).
           except_exception (apply_result_locked E s result)
             (\<lambda>e. py_seq (cx_set s (\<lambda>c. c\<lparr>cx_protocol := protocol, cx_segment_metadata := metadata\<rparr>))
               (py_raise e)))))))"

definition capacity_error :: "py_error \<Rightarrow> bool" where
  "capacity_error e = (case e of CapacityBufferError _ _ _ _ \<Rightarrow> True | _ \<Rightarrow> False)"

definition publish_failure :: "('v, 'e) gateway_env \<Rightarrow> InferenceResult \<Rightarrow> py_error \<Rightarrow> ('v, 'e, unit) gw_method" where
  "publish_failure E result exc =
     (let s = ir_session_id result; close_code = (if capacity_error exc then 1013 else 1011) in
      py_seq (if capacity_error exc then py_seq count_failure (count_rejection exc) else count_conflict)
      (py_bind (fail_session E s) (\<lambda>transitioned.
       py_bind (cx_get s (\<lambda>c. ps_terminal (cx_protocol c))) (\<lambda>over.
       py_seq (only_if (transitioned \<and> \<not> over)
          (py_bind (on_protocol s (ps_error exc (if capacity_error exc then ''overloaded'' else ''result_conflict''))) (\<lambda>event.
           py_seq (mark_result_applied (ir_job_id result))
             (enqueue_events s (Some (ir_job_id result)) True (Some close_code) [event]))))
         (cx_set s (\<lambda>c. c\<lparr>cx_idle := True\<rparr>))))))"

definition publish_result :: "('v, 'e) gateway_env \<Rightarrow> InferenceResult \<Rightarrow> ('v, 'e, unit) gw_method" where
  "publish_result E result =
     (let s = ir_session_id result in
      except_exception (apply_result E result) (\<lambda>exc.
        py_bind (has_ctx s) (\<lambda>present.
        if \<not> present then discard_timeline (ir_job_id result)
        else locked E s
          (py_bind (cx_get s (\<lambda>c. stale_or_terminal c result)) (\<lambda>stale.
           if stale then drop_result s result else publish_failure E result exc)))))"

section \<open>Hooks of the scheduler\<close>

definition cleanup_job :: "InferenceJob \<Rightarrow> ('v, 'e, unit) gw_method" where
  "cleanup_job job =
     (let s = ij_session_id job in
      py_bind (py_read (\<lambda>g. s \<in> set (gw_contexts g) \<and>
        gs_generation (cx_session (gw_objects g s)) = ij_generation job \<and>
        matches_reservation (cx_session (gw_objects g s)) (ij_job_sequence job) (ij_start_sample job) (ij_end_sample job)))
        (\<lambda>owner.
      if \<not> owner then py_seq count_conflict (py_raise (StaleResultError ''job no longer owns the session reservation''))
      else
      py_bind (on_session s (raising (\<lambda>x. acknowledge x (ij_job_sequence job) (ij_generation job)))) (\<lambda>_.
      py_seq (cx_set s (\<lambda>c. c\<lparr>cx_first_undecoded_at := None\<rparr>)) update_gauges)))"

definition reject_job :: "InferenceJob \<Rightarrow> ('v, 'e, unit) gw_method" where
  "reject_job job =
     (let s = ij_session_id job in
      py_seq (discard_timeline (ij_job_id job))
      (py_bind (py_read (\<lambda>g. s \<in> set (gw_contexts g) \<and> gs_generation (cx_session (gw_objects g s)) = ij_generation job))
        (\<lambda>current.
      if \<not> current then py_return ()
      else py_bind (on_session s (raising (\<lambda>x. rollback x (ij_job_sequence job)))) (\<lambda>done.
        if \<not> done then py_seq count_conflict (py_raise (StaleResultError ''rejected job lost its reservation''))
        else py_return ()))))"

definition discard_job :: "InferenceJob \<Rightarrow> ('v, 'e, unit) gw_method" where
  "discard_job job = discard_timeline (ij_job_id job)"

definition gateway_worker_failed :: "string \<Rightarrow> string \<Rightarrow> ('v, 'e, unit) gw_method" where
  "gateway_worker_failed w reason =
     py_seq count_failure (on_registry (raising_unit (\<lambda>r. registry_mark_ready r w False (Some reason))))"

definition gateway_hooks :: "('v, 'e) gateway_env \<Rightarrow> ('v, 'e) GatewayRuntime SchedulerHooks" where
  "gateway_hooks E = \<lparr>hk_cleanup = cleanup_job, hk_publish = publish_result E, hk_worker_failed = gateway_worker_failed,
     hk_reject = reject_job, hk_discard = discard_job\<rparr>"

section \<open>The runtime's life\<close>

definition gateway_init ::
  "Settings \<Rightarrow> (string, BackendCapabilities) dict \<Rightarrow> (string \<Rightarrow> 'v SessionContext) \<Rightarrow> (nat \<Rightarrow> seconds) \<Rightarrow> 'e \<Rightarrow>
   ('v, 'e) GatewayRuntime result" where
  "gateway_init cfg adapters unallocated clock w =
     bind_result (sm_init (asr_gateway_max_active_sessions cfg)) (\<lambda>sessions.
     bind_result (gm_init 1024) (\<lambda>metrics.
     bind_result (scheduler_init adapters (of_int (asr_gateway_schedule_max_wait_ms cfg) / 1000)
        (asr_gateway_max_ready_jobs cfg) (py_round (asr_gateway_max_queued_audio_seconds cfg * 16000))) (\<lambda>scheduler.
     Inr \<lparr>gw_settings = cfg, gw_registry = [], gw_sessions = sessions, gw_metrics = metrics, gw_contexts = [],
          gw_objects = unallocated, gw_timelines = [], gw_worker_empty = map (\<lambda>(w, _). (w, True)) adapters,
          gw_scheduler = scheduler, gw_started = False, gw_clock = clock, gw_ticks = 0, gw_world = w\<rparr>)))"

definition adapter_ids :: "('v, 'e) GatewayRuntime \<Rightarrow> string list" where
  "adapter_ids g = map fst (sc_adapters (gw_scheduler g))"

definition register_adapter :: "string \<Rightarrow> ('v, 'e, unit) gw_method" where
  "register_adapter w = py_bind (gw_capabilities w) (\<lambda>caps. on_registry (raising_unit (\<lambda>r. registry_register r caps)))"

definition gateway_start :: "('v, 'e) gateway_env \<Rightarrow> ('v, 'e, unit) gw_method" where
  "gateway_start E =
     py_bind (py_read gw_started) (\<lambda>started.
     if started then py_return ()
     else py_bind (py_read adapter_ids) (\<lambda>ids.
       except_exception
         (py_seq (py_for ids (\<lambda>w. py_bind (gw_capabilities w) (\<lambda>caps.
            if worker_id caps \<noteq> w then py_raise (ValueError ''adapter map key must equal capability worker_id'')
            else register_adapter w)))
         (py_seq (py_for ids (\<lambda>w. py_seq (ge_warmup E w) (py_seq (register_adapter w)
            (on_registry (raising_unit (\<lambda>r. registry_mark_ready r w True None))))))
           (py_modify (\<lambda>g. g\<lparr>gw_started := True\<rparr>))))
         (\<lambda>e. py_seq (py_for ids (\<lambda>w. suppressed (ge_close E w))) (py_raise e))))"

definition gateway_close :: "('v, 'e) gateway_env \<Rightarrow> ('v, 'e, unit) gw_method" where
  "gateway_close E =
     py_bind (py_read gw_contexts) (\<lambda>ids.
     py_seq (py_for ids (gateway_abort E))
     (py_seq (on_scheduler (py_modify scheduler_close))
     (py_seq (ge_scheduler_stopped E)
     (py_bind (py_read adapter_ids) (\<lambda>ws.
      py_seq (py_for ws (ge_close E)) (py_modify (\<lambda>g. g\<lparr>gw_started := False\<rparr>)))))))"

definition drain_worker :: "('v, 'e) gateway_env \<Rightarrow> string \<Rightarrow> ('v, 'e, unit) gw_method" where
  "drain_worker E w =
     py_seq (on_registry (raising_unit (\<lambda>r. registry_begin_drain r w)))
     (py_seq (py_bind (py_read (\<lambda>g. (map_of (gw_worker_empty g) w, asr_gateway_drain_timeout_seconds (gw_settings g))))
        (\<lambda>(known, timeout).
         if known = None then py_raise (KeyError w)
         else py_except (ge_wait_worker_empty E w (Some timeout)) (\<lambda>e.
           case e of
             TimeoutError _ \<Rightarrow>
               py_bind (py_read gw_contexts) (\<lambda>ids.
               py_seq (py_for ids (\<lambda>s. py_bind (cx_get s (\<lambda>c. gs_selected_worker_id (cx_session c) = w)) (\<lambda>mine.
                   only_if mine (gateway_abort E s))))
                 (ge_wait_worker_empty E w None))
           | _ \<Rightarrow> py_raise e)))
     (py_seq (py_bind (gw_capabilities w) (\<lambda>_. case ge_drain E w of None \<Rightarrow> py_return () | Some m \<Rightarrow> m))
       (on_registry (raising_unit (\<lambda>r. registry_remove r w)))))"

text \<open>One round of \<open>send_outbound_events\<close> on the event taken from the queue; the value tells whether the
  sender stops. The socket is the caller's.\<close>

definition send_outbound_event ::
  "(wire_event \<Rightarrow> ('v, 'e, unit) gw_method) \<Rightarrow> (int \<Rightarrow> ('v, 'e, unit) gw_method) \<Rightarrow> string \<Rightarrow> OutboundEvent \<Rightarrow>
   ('v, 'e, bool) gw_method" where
  "send_outbound_event send_json close_socket s e =
     py_seq
       (py_finally
         (py_seq (case oe_payload e of None \<Rightarrow> py_return () | Some p \<Rightarrow> send_json p)
         (py_seq (case oe_job_id e of Some job_id \<Rightarrow> only_if (oe_completes_timeline e) (mark_event_sent job_id) | None \<Rightarrow> py_return ())
           (only_if (oe_terminal e) (close_socket (py_or (oe_close_code e) 1000)))))
         (only_if (oe_terminal e)
           (py_seq (case oe_job_id e of None \<Rightarrow> py_return () | Some job_id \<Rightarrow> discard_timeline job_id)
             (release_session s))))
       (py_return (oe_terminal e))"

end
