(* ===== verification/GatewayExample.thy ===== *)
theory GatewayExample
  imports Gateway
begin

text \<open>
  A concrete gateway with one worker, one open session behind the energy detector and quiet
  adapters: the values the witnesses of the gateway's theorems are evaluated on.
\<close>

definition quiet_answer :: AdapterResult where
  "quiet_answer = \<lparr>ar_backend_session_id = ''b'', ar_text = [], ar_confirmed_text = [], ar_tail_text = [],
     ar_decoded_samples = 0, ar_is_final = False, ar_error = None, ar_metadata = None\<rparr>"

definition example_env :: "(int, unit) gateway_env" where
  "example_env = \<lparr>ge_open_session = (\<lambda>_ _ _ _. py_return ''b''), ge_finish_segment = (\<lambda>_ _. py_return quiet_answer),
     ge_finish_session = (\<lambda>_ _. py_return quiet_answer), ge_abort_session = (\<lambda>_ _. py_return ()),
     ge_warmup = (\<lambda>_. py_return ()), ge_close = (\<lambda>_. py_return ()), ge_drain = (\<lambda>_. None),
     ge_remaining_segment_samples = (\<lambda>_. None), ge_vad_factory = py_return example_detector,
     ge_vad_backend = EnergyVADBackend, ge_chardb = ascii_db, ge_str = (\<lambda>_. []), ge_options_hash = (\<lambda>_. ''0''),
     ge_text_hash = (\<lambda>_. ''0''), ge_protocol_lock = (\<lambda>_. py_return ()), ge_wait_idle = (\<lambda>_. py_return ()),
     ge_wait_released = [], ge_wait_session_safe = (\<lambda>_ _. py_return ()), ge_wait_worker_empty = (\<lambda>_ _. py_return ()),
     ge_scheduler_stopped = py_return ()\<rparr>"

definition example_buffer :: PcmRingBuffer where
  "example_buffer = \<lparr>rb_max_samples = 64000, rb_data = [], rb_base_sample = 0, rb_accepted = 0, rb_acknowledged = 0,
     rb_discarded = 0, rb_reservation = None\<rparr>"

definition example_gateway_session :: GatewaySession where
  "example_gateway_session = \<lparr>gs_session_id = ''s'', gs_selected_worker_id = ''local'', gs_backend_session_id = ''b'',
     gs_sample_rate = 16000, gs_language = lit ''auto'', gs_options = [], gs_generation = 1, gs_terminal_state = OPEN,
     gs_buffer = example_buffer, gs_next_job_sequence = 1, gs_reservation = None, gs_reservation_released = True,
     gs_finish_requested = False, gs_accepted_samples = 0, gs_external_discarded_samples = 0,
     gs_transcript = ts_init 16000 False 1 1 1 False False\<rparr>"

definition example_context :: "int SessionContext" where
  "example_context = new_context example_gateway_session \<lparr>lease_worker_id = ''local'', released = False\<rparr> True
     (Some example_detector) 0"

definition example_gateway :: "(int, unit) GatewayRuntime" where
  "example_gateway =
     \<lparr>gw_settings = example_settings\<lparr>asr_backend := BackendMock\<rparr>,
      gw_registry = [(''local'', (backend_snapshot example_caps)\<lparr>lifecycle := READY, active_leases := 1\<rparr>)],
      gw_sessions = \<lparr>sm_max_sessions = 2, sm_sessions = [(''s'', example_gateway_session)]\<rparr>,
      gw_metrics = projr (gm_init 1024), gw_contexts = [''s''], gw_objects = (\<lambda>_. example_context), gw_timelines = [],
      gw_worker_empty = [(''local'', False)],
      gw_scheduler = projr (scheduler_init [(''local'', example_caps)] (1 / 50) 64 128000),
      gw_started = True, gw_clock = of_nat, gw_ticks = 0, gw_world = ()\<rparr>"

lemma example_gateway_inv: "gs_inv example_gateway_session"
  by (simp add: gs_inv_def rb_inv_def example_gateway_session_def example_buffer_def rb_held_samples_def)

lemma example_gateway_simps [simp]:
  "gw_objects example_gateway s = example_context" "gw_contexts example_gateway = [''s'']"
  "cx_session example_context = example_gateway_session" "cx_vad example_context = Some example_detector"
  "cx_idle example_context" "cx_events example_context = []" "\<not> cx_lease_released example_context"
  "cx_lease example_context = \<lparr>lease_worker_id = ''local'', released = False\<rparr>"
  "gs_session_id example_gateway_session = ''s''" "gs_selected_worker_id example_gateway_session = ''local''"
  "gs_generation example_gateway_session = 1" "gs_terminal_state example_gateway_session = OPEN"
  "\<not> ps_terminal (cx_protocol example_context)"
  by (simp_all add: example_gateway_def example_context_def new_context_def example_gateway_session_def ps_init_def)

end
