(* ===== verification/GatewaySafety.thy ===== *)
theory GatewaySafety
  imports GatewayExample
begin

text \<open>
  What the gateway promises whatever its backends and the other tasks do in between: late results
  change nothing, audio that went through the VAD detector stays accounted for, a scheduled job
  owns its session's reservation, a result that cannot be applied leaves no trace but its error
  event, and leases and sessions are released exactly once.
\<close>

section \<open>The pieces of the runtime\<close>

lemma ctx_upd_simps [simp]:
  "gw_objects (ctx_upd s f g) = (gw_objects g)(s := f (gw_objects g s))"
  "gw_settings (ctx_upd s f g) = gw_settings g" "gw_registry (ctx_upd s f g) = gw_registry g"
  "gw_sessions (ctx_upd s f g) = gw_sessions g" "gw_metrics (ctx_upd s f g) = gw_metrics g"
  "gw_contexts (ctx_upd s f g) = gw_contexts g" "gw_timelines (ctx_upd s f g) = gw_timelines g"
  "gw_worker_empty (ctx_upd s f g) = gw_worker_empty g" "gw_scheduler (ctx_upd s f g) = gw_scheduler g"
  "gw_started (ctx_upd s f g) = gw_started g" "gw_clock (ctx_upd s f g) = gw_clock g"
  "gw_ticks (ctx_upd s f g) = gw_ticks g" "gw_world (ctx_upd s f g) = gw_world g"
  by (simp_all add: ctx_upd_def)

lemma py_bind_read [simp]: "py_bind (py_read f) m s = m (f s) s"
  by (simp add: py_bind_def py_read_def)

lemma py_bind_cx_get [simp]: "py_bind (cx_get s f) m g = m (f (gw_objects g s)) g"
  by (simp add: cx_get_def)

lemma py_seq_cx_set [simp]: "py_seq (cx_set s f) m g = m (ctx_upd s f g)"
  by (simp add: py_seq_def py_bind_def cx_set_def py_modify_def)

lemma cx_set_apply: "cx_set s f g = (Inr (), ctx_upd s f g)"
  by (simp add: cx_set_def py_modify_def)

lemma py_bind_read_clock [simp]:
  "py_bind read_clock m g = m (gw_clock g (gw_ticks g)) (g\<lparr>gw_ticks := Suc (gw_ticks g)\<rparr>)"
  by (simp add: py_bind_def read_clock_def)

lemma py_seq_find_ctx [simp]: "s \<in> set (gw_contexts g) \<Longrightarrow> py_seq (find_ctx s) m g = m g"
  by (simp add: py_seq_def py_bind_def find_ctx_def)

lemma py_return_apply [simp]: "py_return x s = (Inr x, s)"
  and py_raise_apply [simp]: "py_raise e s = (Inl e, s)"
  by (simp_all add: py_return_def py_raise_def)

lemma only_if_simps [simp]: "only_if True m = m" "only_if False m = py_return ()"
  by (simp_all add: only_if_def)

lemma py_seq_return [simp]: "py_seq (py_return x) m = m"
  by (simp add: py_seq_def py_bind_def py_return_def fun_eq_iff)

lemma py_seq_modify [simp]: "py_seq (py_modify f) m s = m (f s)"
  by (simp add: py_seq_def py_bind_def py_modify_def)

lemma has_ctx_read: "py_bind (has_ctx s) m g = m (s \<in> set (gw_contexts g)) g"
  by (simp add: has_ctx_def)

lemma except_exception_Inr: "m g = (Inr x, h) \<Longrightarrow> except_exception m k g = (Inr x, h)"
  by (simp add: except_exception_def py_except_def)

lemma except_exception_Inl:
  "m g = (Inl e, h) \<Longrightarrow> \<not> base_exception e \<Longrightarrow> error_type_name e \<noteq> ''CancelledError'' \<Longrightarrow>
   except_exception m k g = k e h"
  by (simp add: except_exception_def py_except_def)

lemma locked_after: "ge_protocol_lock E s g = (Inr (), h) \<Longrightarrow> locked E s m g = m h"
  by (simp add: locked_def py_seq_def py_bind_def)

section \<open>Late results\<close>

text \<open>The state after a dropped result: its timeline is gone and the session's idle flag is set.\<close>

definition dropped :: "string \<Rightarrow> string \<Rightarrow> ('v, 'e) GatewayRuntime \<Rightarrow> ('v, 'e) GatewayRuntime" where
  "dropped s job_id g =
     ctx_upd s (\<lambda>c. c\<lparr>cx_idle := True\<rparr>) (g\<lparr>gw_timelines := AList.delete job_id (gw_timelines g)\<rparr>)"

lemma drop_result_apply: "drop_result s result g = (Inr (), dropped s (ir_job_id result) g)"
  by (simp add: drop_result_def discard_timeline_def dropped_def cx_set_apply)

text \<open>A result that arrives for a session that is gone is dropped; one for a session that is over, or of an
  earlier generation, once the task holds the protocol lock, only clears the job's timeline and
  marks the session idle: no event, no transcript change, no accounting, whatever the result says.\<close>

theorem late_gateway_result_changes_nothing:
  assumes "ge_protocol_lock E (ir_session_id result) g = (Inr (), h)"
    and "stale_or_terminal (gw_objects h (ir_session_id result)) result"
  shows "publish_result E result g =
    (Inr (), if ir_session_id result \<in> set (gw_contexts g) then dropped (ir_session_id result) (ir_job_id result) h
             else g\<lparr>gw_timelines := AList.delete (ir_job_id result) (gw_timelines g)\<rparr>)"
proof -
  have "apply_result E result g =
    (Inr (), if ir_session_id result \<in> set (gw_contexts g) then dropped (ir_session_id result) (ir_job_id result) h
             else g\<lparr>gw_timelines := AList.delete (ir_job_id result) (gw_timelines g)\<rparr>)"
  proof (cases "ir_session_id result \<in> set (gw_contexts g)")
    case True
    with assms show ?thesis by (simp add: locked_after [OF assms(1)] apply_result_def Let_def has_ctx_read drop_result_apply)
  qed (simp add: apply_result_def Let_def has_ctx_read discard_timeline_def py_modify_def)
  then show ?thesis unfolding publish_result_def Let_def by (rule except_exception_Inr)
qed

theorem late_gateway_result_changes_nothing_witness:
  "publish_result example_env (Scheduler.example_result\<lparr>ir_session_id := ''s'', ir_generation := 0\<rparr>) example_gateway =
     (Inr (), dropped ''s'' (ir_job_id Scheduler.example_result) example_gateway)"
  using late_gateway_result_changes_nothing [of example_env "Scheduler.example_result\<lparr>ir_session_id := ''s'', ir_generation := 0\<rparr>"
      example_gateway example_gateway]
  by (simp add: example_env_def stale_or_terminal_def)

section \<open>Audio behind the VAD detector\<close>

text \<open>The gateway's books agree with the detector: the samples accepted but not handed to the session's
  buffer yet are the ones the detector holds, and there is room for them.\<close>

definition pending_vad :: "GatewaySession \<Rightarrow> int" where
  "pending_vad x = gs_accepted_samples x - rb_accepted (gs_buffer x) - gs_external_discarded_samples x"

definition vad_agrees_with :: "int \<Rightarrow> 'v SessionContext \<Rightarrow> bool" where
  "vad_agrees_with brought c \<longleftrightarrow> gs_inv (cx_session c) \<and> gs_terminal_state (cx_session c) \<in> {OPEN, FINISHING} \<and>
     (case cx_vad c of None \<Rightarrow> False | Some d \<Rightarrow> vd_inv d \<and> 0 < vd_frame_samples d \<and>
        2 * pending_vad (cx_session c) = int (length (vd_held d)) + 2 * brought) \<and>
     rb_held_samples (gs_buffer (cx_session c)) + pending_vad (cx_session c) \<le> rb_max_samples (gs_buffer (cx_session c))"

abbreviation vad_agrees :: "'v SessionContext \<Rightarrow> bool" where
  "vad_agrees \<equiv> vad_agrees_with 0"

lemma vad_agrees_cong:
  "cx_session c = cx_session d \<Longrightarrow> cx_vad c = cx_vad d \<Longrightarrow> vad_agrees_with n c = vad_agrees_with n d"
  by (simp add: vad_agrees_with_def split: option.split)

lemma vad_agrees_updates [simp]:
  "vad_agrees_with n (c\<lparr>cx_endpoint_pending := b\<rparr>) = vad_agrees_with n c"
  "vad_agrees_with n (c\<lparr>cx_idle := b\<rparr>) = vad_agrees_with n c"
  by (rule vad_agrees_cong; simp)+

lemma accept_vad_agrees:
  assumes "vad_agrees c" and "accept_vad_input (cx_session c) p = Inr x"
  shows "vad_agrees_with (int (length p) div 2) (c\<lparr>cx_session := x\<rparr>)" and "even (length p)"
proof -
  have x: "x = (cx_session c)\<lparr>gs_accepted_samples := gs_accepted_samples (cx_session c) + int (length p) div 2\<rparr>"
    and room: "sa_buffered (sample_accounting (cx_session c)) + sa_reserved (sample_accounting (cx_session c)) +
        sa_pending_vad (sample_accounting (cx_session c)) + int (length p) div 2 \<le> rb_max_samples (gs_buffer (cx_session c))"
    and "even (length p)"
    using assms(2) by (auto simp: accept_vad_input_def Let_def split: if_splits)
  show "even (length p)" by fact
  have inv: "gs_inv (cx_session c)" using assms(1) by (simp add: vad_agrees_with_def)
  have "rb_held_samples (gs_buffer (cx_session c)) + pending_vad (cx_session c) + int (length p) div 2
      \<le> rb_max_samples (gs_buffer (cx_session c))"
    using room pending_vad_eq [OF inv] by (simp add: sample_accounting_def rb_buffered_samples_def pending_vad_def)
  moreover have "gs_inv x" by (rule accept_vad_input_inv [OF inv assms(2)])
  ultimately show "vad_agrees_with (int (length p) div 2) (c\<lparr>cx_session := x\<rparr>)"
    using assms(1) by (auto simp: vad_agrees_with_def x pending_vad_def split: option.splits)
qed

text \<open>A decision's audio and discards can always be booked.\<close>

lemma booked_append:
  assumes "gs_inv x" and "gs_terminal_state x \<in> {OPEN, FINISHING}" and "even (length a)"
    and "rb_held_samples (gs_buffer x) + pending_vad x \<le> rb_max_samples (gs_buffer x)" and "int (length a) div 2 \<le> pending_vad x"
  obtains r y where "append_pcm x a False = Inr (r, y)" and "gs_inv y" and "gs_terminal_state y = gs_terminal_state x"
    and "pending_vad y = pending_vad x - int (length a) div 2"
    and "rb_held_samples (gs_buffer y) = rb_held_samples (gs_buffer x) + int (length a) div 2"
    and "rb_max_samples (gs_buffer y) = rb_max_samples (gs_buffer x)"
proof -
  obtain r b where b: "rb_append (gs_buffer x) a = Inr (r, b)"
    using assms(3-5) by (auto simp: rb_append_def Let_def)
  have app: "append_pcm x a False = Inr (r, x\<lparr>gs_buffer := b\<rparr>)"
    using assms(2) b by (simp add: append_pcm_def bind_result_def)
  have "int (length a) div 2 \<le> sa_pending_vad (sample_accounting x)"
    using assms(5) pending_vad_eq [OF assms(1)] by (simp add: pending_vad_def)
  then have "gs_inv (x\<lparr>gs_buffer := b\<rparr>)" using append_pcm_inv [OF assms(1) app] by blast
  moreover have "even (length (rb_data (gs_buffer x)))" using assms(1) by (simp add: gs_inv_def rb_inv_def)
  then have "rb_held_samples b = rb_held_samples (gs_buffer x) + int (length a) div 2 \<and> rb_max_samples b = rb_max_samples (gs_buffer x)
     \<and> rb_accepted b = rb_accepted (gs_buffer x) + int (length a) div 2"
    using b assms(3) by (auto simp: rb_append_def Let_def rb_held_samples_def split: if_splits)
  ultimately show ?thesis using that [OF app] by (simp add: pending_vad_def)
qed

lemma booked_discard:
  assumes "gs_inv x" and "int n \<le> pending_vad x"
  obtains y where "record_discarded x (int n) = Inr y" and "gs_inv y" and "gs_terminal_state y = gs_terminal_state x"
    and "pending_vad y = pending_vad x - int n" and "gs_buffer y = gs_buffer x"
proof -
  have "int n \<le> sa_pending_vad (sample_accounting x)"
    using assms(2) pending_vad_eq [OF assms(1)] by (simp add: pending_vad_def)
  then have eq: "record_discarded x (int n) = Inr (x\<lparr>gs_external_discarded_samples := gs_external_discarded_samples x + int n\<rparr>)"
    by (simp add: record_discarded_def)
  show ?thesis using that [OF eq] record_discarded_inv [OF assms(1) eq] by (simp add: pending_vad_def)
qed

text \<open>\<open>owed c decision\<close>: the detector has decided and its audio is not booked yet.\<close>

definition owed :: "'v SessionContext \<Rightarrow> VADDecision \<Rightarrow> bool" where
  "owed c decision \<longleftrightarrow> even (length (audio_to_model decision)) \<and>
     vad_agrees_with (int (length (audio_to_model decision)) div 2 + int (discarded_samples decision)) c"

lemma vd_held_even: "vd_inv d \<Longrightarrow> even (length (vd_held d))"
  by (simp add: vd_inv_def vd_held_def vd_buffers_def)

lemma decision_owed:
  assumes "vad_agrees_with (int (length (vd_brought x)) div 2) c" and "cx_vad c = Some d" and "even (length (vd_brought x))"
    and step: "vd_step B d x = Some (Inr decision, d')"
  shows "owed (c\<lparr>cx_vad := Some d'\<rparr>) decision"
proof -
  have d: "vd_inv d" "0 < vd_frame_samples d" using assms(1,2) by (auto simp: vad_agrees_with_def)
  have out: "vd_inv d'" "same_limits d d'" "moved (audio_to_model decision) (discarded_samples decision) (vd_held d @ vd_brought x) (vd_held d')"
    using vd_step_outcome [OF d, of B x] step by (auto simp: vd_outcome_def)
  then obtain w dis where w: "vd_held d @ vd_brought x = w @ vd_held d'" "w \<in> shuffles (audio_to_model decision) dis"
    and dis: "length dis = 2 * discarded_samples decision" by (auto simp: moved_def)
  have "length w = length (audio_to_model decision) + 2 * discarded_samples decision"
    using length_shuffles [OF w(2)] dis by simp
  moreover have "length (vd_held d) + length (vd_brought x) = length w + length (vd_held d')"
    using arg_cong [OF w(1), of length] by simp
  ultimately have len: "length (vd_held d) + length (vd_brought x) =
      length (audio_to_model decision) + 2 * discarded_samples decision + length (vd_held d')" by simp
  have ev: "even (length (audio_to_model decision))"
    using arg_cong [OF len, of even] vd_held_even [OF d(1)] vd_held_even [OF out(1)] assms(3) by simp
  have fs: "0 < vd_frame_samples d'" using d(2) out(2) by (simp add: same_limits_def)
  have twice: "2 * (int (length ys) div 2) = int (length ys)" if "even (length ys)" for ys :: pcm
    using that by (auto elim!: evenE)
  have "2 * pending_vad (cx_session c) = int (length (vd_held d)) + int (length (vd_brought x))"
    using assms(1,2) twice [OF assms(3)] by (simp add: vad_agrees_with_def)
  then have "2 * pending_vad (cx_session c) = int (length (vd_held d')) +
      2 * (int (length (audio_to_model decision)) div 2 + int (discarded_samples decision))"
    using len twice [OF ev] by simp
  then show ?thesis using assms(1,2) out(1) fs ev by (auto simp: owed_def vad_agrees_with_def)
qed

lemma append_owed:
  assumes "owed (gw_objects g s) decision"
  obtains h where "on_session s (raising_unit (\<lambda>x. map_sum id snd (append_pcm x (audio_to_model decision) False))) g = (Inr (), h)"
    and "vad_agrees_with (int (discarded_samples decision)) (gw_objects h s)"
proof -
  let ?c = "gw_objects g s" let ?x = "cx_session ?c" let ?a = "audio_to_model decision"
  obtain d where c: "gs_inv ?x" "gs_terminal_state ?x \<in> {OPEN, FINISHING}" "cx_vad ?c = Some d" "vd_inv d" "0 < vd_frame_samples d"
    "2 * pending_vad ?x = int (length (vd_held d)) + 2 * (int (length ?a) div 2 + int (discarded_samples decision))"
    "rb_held_samples (gs_buffer ?x) + pending_vad ?x \<le> rb_max_samples (gs_buffer ?x)" and ev: "even (length ?a)"
    using assms by (auto simp: owed_def vad_agrees_with_def split: option.splits)
  have "int (length ?a) div 2 \<le> pending_vad ?x" using c(6) by simp
  from booked_append [OF c(1,2) ev c(7) this] obtain r y where y: "append_pcm ?x ?a False = Inr (r, y)" "gs_inv y"
    "gs_terminal_state y = gs_terminal_state ?x" "pending_vad y = pending_vad ?x - int (length ?a) div 2"
    "rb_held_samples (gs_buffer y) = rb_held_samples (gs_buffer ?x) + int (length ?a) div 2"
    "rb_max_samples (gs_buffer y) = rb_max_samples (gs_buffer ?x)" .
  have "vad_agrees_with (int (discarded_samples decision)) (?c\<lparr>cx_session := y\<rparr>)"
    using c y by (simp add: vad_agrees_with_def)
  moreover have on: "on_session s (raising_unit (\<lambda>x. map_sum id snd (append_pcm x ?a False))) g =
      (Inr (), ctx_upd s (\<lambda>c. c\<lparr>cx_session := y\<rparr>) g)"
    by (simp add: on_session_def raising_unit_def y(1))
  ultimately show ?thesis using that [OF on] by simp
qed

lemma discard_owed:
  assumes "vad_agrees_with (int n) (gw_objects g s)"
  obtains h where "on_session s (raising_unit (\<lambda>x. record_discarded x (int n))) g = (Inr (), h)"
    and "vad_agrees (gw_objects h s)"
proof -
  let ?c = "gw_objects g s" let ?x = "cx_session ?c"
  obtain d where c: "gs_inv ?x" "gs_terminal_state ?x \<in> {OPEN, FINISHING}" "cx_vad ?c = Some d" "vd_inv d" "0 < vd_frame_samples d"
    "2 * pending_vad ?x = int (length (vd_held d)) + 2 * int n"
    "rb_held_samples (gs_buffer ?x) + pending_vad ?x \<le> rb_max_samples (gs_buffer ?x)"
    using assms by (auto simp: vad_agrees_with_def split: option.splits)
  have "int n \<le> pending_vad ?x" using c(6) by simp
  from booked_discard [OF c(1) this] obtain y where y: "record_discarded ?x (int n) = Inr y" "gs_inv y"
    "gs_terminal_state y = gs_terminal_state ?x" "pending_vad y = pending_vad ?x - int n" "gs_buffer y = gs_buffer ?x" .
  have "vad_agrees (?c\<lparr>cx_session := y\<rparr>)" using c y by (simp add: vad_agrees_with_def)
  moreover have on: "on_session s (raising_unit (\<lambda>x. record_discarded x (int n))) g =
      (Inr (), ctx_upd s (\<lambda>c. c\<lparr>cx_session := y\<rparr>) g)"
    by (simp add: on_session_def raising_unit_def y(1))
  ultimately show ?thesis using that [OF on] by simp
qed

lemma py_seq_after: "m g = (Inr x, h) \<Longrightarrow> py_seq m n g = n h"
  by (simp add: py_seq_def py_bind_def)

lemma py_bind_after: "m g = (Inr x, h) \<Longrightarrow> py_bind m n g = n x h"
  by (simp add: py_bind_def)

lemma absorb_owed:
  assumes "owed (gw_objects g s) decision"
  obtains h where "absorb_decision s decision g = (Inr (), h)" and "vad_agrees (gw_objects h s)"
proof -
  obtain h where h: "only_if (audio_to_model decision \<noteq> [])
      (on_session s (raising_unit (\<lambda>x. map_sum id snd (append_pcm x (audio_to_model decision) False)))) g = (Inr (), h)"
    "vad_agrees_with (int (discarded_samples decision)) (gw_objects h s)"
  proof (cases "audio_to_model decision = []")
    case True
    with assms that [of g] show ?thesis by (simp add: owed_def)
  next
    case False
    obtain h where "on_session s (raising_unit (\<lambda>x. map_sum id snd (append_pcm x (audio_to_model decision) False))) g = (Inr (), h)"
      "vad_agrees_with (int (discarded_samples decision)) (gw_objects h s)" by (rule append_owed [OF assms])
    with False show ?thesis by (intro that [of h]) simp_all
  qed
  obtain k where k: "only_if (discarded_samples decision \<noteq> 0)
      (on_session s (raising_unit (\<lambda>x. record_discarded x (int (discarded_samples decision))))) h = (Inr (), k)"
    "vad_agrees (gw_objects k s)"
  proof (cases "discarded_samples decision = 0")
    case True
    with h(2) that [of h] show ?thesis by simp
  next
    case False
    obtain k where "on_session s (raising_unit (\<lambda>x. record_discarded x (int (discarded_samples decision)))) h = (Inr (), k)"
      "vad_agrees (gw_objects k s)" by (rule discard_owed [OF h(2)])
    with False show ?thesis by (intro that [of k]) simp_all
  qed
  have "absorb_decision s decision g = (Inr (), k)"
    by (simp only: absorb_decision_def py_seq_def py_bind_def h(1) k(1) prod.case sum.case)
  then show ?thesis using k(2) by (rule that)
qed

text \<open>The detector's decision on a call of one of its three operations.\<close>

lemma on_vad_owed:
  assumes "vad_agrees_with (int (length (vd_brought x)) div 2) (gw_objects g s)" and "even (length (vd_brought x))"
    and "\<And>v frame. isOk (fst (speech_probability B v frame))"
  obtains decision h where "on_vad s (\<lambda>d. vd_step B d x) g = (Inr decision, h)" and "owed (gw_objects h s) decision"
proof -
  obtain d where d: "cx_vad (gw_objects g s) = Some d" "vd_inv d" "0 < vd_frame_samples d"
    using assms(1) by (auto simp: vad_agrees_with_def split: option.splits)
  have B: "total_vad_backend B" by unfold_locales (rule assms(3))
  obtain decision d' where step: "vd_step B d x = Some (Inr decision, d')"
    using total_vad_backend.step_never_raises [OF B d(2,3) assms(2)] by blast
  from decision_owed [OF assms(1) d(1) assms(2) step] show ?thesis
    by (intro that [of decision "ctx_upd s (\<lambda>c. c\<lparr>cx_vad := Some d'\<rparr>) g"]) (simp_all add: on_vad_def d(1) step)
qed

lemma keeps_triple:
  assumes "keeps view m" and "\<And>g h. view g = view h \<Longrightarrow> P g = P h"
  shows "triple P m (\<lambda>_. P) P"
proof (rule triple_intro)
  fix s assume "P s"
  obtain r t where rt: "m s = (r, t)" by fastforce
  from assms(2) [OF keepsD [OF assms(1) rt]] \<open>P s\<close> have "P t" by simp
  then show "case m s of (Inl e, t) \<Rightarrow> P t | (Inr x, t) \<Rightarrow> P t" by (simp add: rt split: sum.split)
qed

lemma keeps_only_if [simp]: "keeps view m \<Longrightarrow> keeps view (only_if b m)"
  by (cases b) simp_all

lemma keeps_clock [simp]: "(\<And>g n. view (g\<lparr>gw_ticks := n\<rparr>) = view g) \<Longrightarrow> keeps view read_clock"
  by (simp add: keeps_def read_clock_def)

lemma keeps_find_ctx [simp]: "keeps view (find_ctx s)"
  by (simp add: keeps_def find_ctx_def)

lemma keeps_check_deadlines: "(\<And>g n. view (g\<lparr>gw_ticks := n\<rparr>) = view g) \<Longrightarrow> keeps view (check_deadlines s)"
  unfolding check_deadlines_def by (auto intro!: keeps_rules split: prod.split)

lemma on_session_unit:
  "on_session s (raising_unit f) g = (case f (cx_session (gw_objects g s)) of
     Inl e \<Rightarrow> (Inl e, g) | Inr x \<Rightarrow> (Inr (), ctx_upd s (\<lambda>c. c\<lparr>cx_session := x\<rparr>) g))"
  by (simp add: on_session_def raising_unit_def ctx_upd_def split: sum.split)

lemma py_seq_assoc: "py_seq (py_seq a b) c = py_seq a (py_seq b c)"
  by (simp add: py_seq_def py_bind_def fun_eq_iff split: prod.split sum.split)

lemma with_backpressure_now: "on_session s m g = (Inr (), h) \<Longrightarrow> with_backpressure waits s m g = (Inr (), h)"
  by (subst with_backpressure.simps) (simp add: py_except_def)

text \<open>Audio the detector owes is appended without waiting.\<close>

lemma append_owed_now:
  assumes "owed (gw_objects g s) decision"
  shows "only_if b (append_pcm_with_backpressure E s (audio_to_model decision) False) g =
     only_if b (on_session s (raising_unit (\<lambda>x. map_sum id snd (append_pcm x (audio_to_model decision) False)))) g"
proof -
  obtain h where h: "on_session s (raising_unit (\<lambda>x. map_sum id snd (append_pcm x (audio_to_model decision) False))) g = (Inr (), h)"
    by (rule append_owed [OF assms])
  then show ?thesis
    by (cases b) (simp_all add: append_pcm_with_backpressure_def with_backpressure_now)
qed

text \<open>Other tasks that run while this one waits keep the books in order.\<close>

definition waits_agree :: "('v, 'e) gateway_env \<Rightarrow> string \<Rightarrow> bool" where
  "waits_agree E s \<longleftrightarrow> (\<forall>w \<in> set (ge_wait_released E).
     triple (\<lambda>g. vad_agrees (gw_objects g s)) (w s) (\<lambda>_ g. vad_agrees (gw_objects g s)) (\<lambda>g. vad_agrees (gw_objects g s)))"

lemma accept_with_backpressure:
  assumes "\<forall>w \<in> set waits. triple (\<lambda>g. vad_agrees (gw_objects g s)) (w s) (\<lambda>_ g. vad_agrees (gw_objects g s))
      (\<lambda>g. vad_agrees (gw_objects g s))"
  shows "triple (\<lambda>g. vad_agrees (gw_objects g s)) (with_backpressure waits s (raising_unit (\<lambda>x. accept_vad_input x p)))
     (\<lambda>_ g. vad_agrees_with (int (length p) div 2) (gw_objects g s) \<and> even (length p)) (\<lambda>g. vad_agrees (gw_objects g s))"
  using assms
proof (induction waits)
  let ?P = "\<lambda>g. vad_agrees (gw_objects g s)"
  let ?Q = "\<lambda>_ g. vad_agrees_with (int (length p) div 2) (gw_objects g s) \<and> even (length p)"
  have once: "triple ?P (on_session s (raising_unit (\<lambda>x. accept_vad_input x p))) ?Q ?P"
    by (rule triple_intro) (auto simp: on_session_unit accept_vad_agrees split: sum.split dest: accept_vad_agrees(2))
  {
    case Nil
    show ?case
      by (subst with_backpressure.simps) (intro triple_except [OF once] triple_bind_read, simp)
  next
    case (Cons w waits)
    have "triple ?P (check_deadlines s) (\<lambda>_. ?P) ?P"
      by (rule keeps_triple [OF keeps_check_deadlines [where view = gw_objects]]) simp_all
    with Cons show ?case
      by (subst with_backpressure.simps)
        (intro triple_except [OF once] triple_bind_read, auto intro!: triple_seq intro: triple_pre)
  }
qed


lemma example_vad_agrees: "vad_agrees example_context"
proof -
  have "vd_held example_detector = []" by (simp add: example_detector_def vd_init_def vd_held_def vd_buffers_def)
  then show ?thesis using example_gateway_inv example_detector_ok
    by (simp add: vad_agrees_with_def pending_vad_def) (simp add: example_gateway_session_def example_buffer_def rb_held_samples_def)
qed


section \<open>Scheduled jobs\<close>

text \<open>Opening a job's timeline never raises; enqueueing decides.\<close>

definition opened_timeline :: "InferenceJob \<Rightarrow> seconds \<Rightarrow> JobTimeline" where
  "opened_timeline job now =
     \<lparr>tl_job_id = ij_job_id job, tl_worker_id = ij_worker_id job, tl_decoded_samples = ij_sample_count job,
      tl_sample_rate = 16000,
      tl_stages = [(''audio_received'', now), (''chunk_ready'', now), (''scheduler_enqueued'', now)]\<rparr>"

lemma submit_job_apply:
  fixes g :: "('v, 'e) GatewayRuntime"
  shows "submit_job s caps job g =
     (let n = gw_ticks g; now = gw_clock g n;
          g1 = g\<lparr>gw_ticks := n + 2, gw_timelines :=
            AList.update (ij_job_id job) (opened_timeline job now, 1, max_batch_items caps) (gw_timelines g)\<rparr>
      in case enqueue (gw_scheduler g) (gw_clock g (Suc n)) job of
           Inl e \<Rightarrow> (Inl e, g1)
         | Inr q \<Rightarrow> (Inr (), ctx_upd s (\<lambda>c. if cx_first_undecoded_at c = None then c\<lparr>cx_first_undecoded_at := Some now\<rparr> else c)
             (g1\<lparr>gw_scheduler := q\<rparr>)))"
  unfolding submit_job_def
  by (simp add: py_seq_def py_bind_def mark_timeline_def tl_mark_def STAGES_def py_modify_def read_clock_def on_scheduler_def
      raising_unit_def cx_set_def opened_timeline_def Let_def numeral_2_eq_2 split: sum.split)

lemma enqueue_error:
  "enqueue q now job = Inl e \<Longrightarrow> \<not> base_exception e \<and> error_type_name e \<noteq> ''CancelledError''"
  by (auto simp: enqueue_def Let_def base_exception_def capacity_buffer_error_def split: if_splits)

lemma enqueue_appends:
  assumes "enqueue q now job = Inr q'"
  obtains job' where "queue_of q' (ij_worker_id job) = queue_of q (ij_worker_id job) @ [job']"
    and "job' = job \<or> job' = job\<lparr>ij_enqueued_at := now\<rparr>"
    and "0 < ij_sample_count job" and "int (length (ij_pcm job)) = ij_sample_count job * 2"
    and "sc_queued_samples q' = sc_queued_samples q + ij_sample_count job"
    and "sc_queued_samples q' \<le> sc_max_queued_samples q'"
proof -
  let ?job = "if ij_enqueued_at job = 0 then job\<lparr>ij_enqueued_at := now\<rparr> else job"
  have q': "q' = (set_queue (ij_worker_id job) (queue_of q (ij_worker_id job) @ [?job]) q)
      \<lparr>sc_queued_samples := sc_queued_samples q + ij_sample_count job, sc_wake := True\<rparr>"
    and ok: "0 < ij_sample_count job" "int (length (ij_pcm job)) = ij_sample_count job * 2"
      "sc_queued_samples q + ij_sample_count job \<le> sc_max_queued_samples q"
    using assms by (auto simp: enqueue_def Let_def split: if_splits)
  from ok show ?thesis by (intro that [of ?job]) (simp_all add: q' queue_of_def set_queue_def update_conv')
qed

lemma update_gauges_ok: "\<exists>h. update_gauges g = (Inr (), h) \<and> gw_objects h = gw_objects g \<and> gw_contexts h = gw_contexts g \<and>
    gw_scheduler h = gw_scheduler g \<and> gw_registry h = gw_registry g \<and> gw_sessions h = gw_sessions g \<and>
    gw_worker_empty h = gw_worker_empty g"
  by (simp add: update_gauges_def on_metrics_def set_gauges_def Let_def)

lemma remaining_samples_world:
  assumes "remaining_samples E w s caps g = (r, h)"
  obtains x where "h = g\<lparr>gw_world := x\<rparr>"
proof (cases "ge_remaining_segment_samples E w")
  case None
  with assms that [of "gw_world g"] show ?thesis by (simp add: remaining_samples_def)
next
  case (Some f)
  with assms that show ?thesis
    by (auto simp: remaining_samples_def on_backend_def py_bind_def cx_get_def py_read_def py_return_def
        split: prod.splits sum.splits)
qed

lemma schedule_next_cases:
  fixes E :: "('v, 'e) gateway_env"
  assumes "schedule_next E s force g = (r, h)"
  obtains e x where "r = Inl e" and "h = g\<lparr>gw_world := x\<rparr>"
  | x where "r = Inr False" and "h = g\<lparr>gw_world := x\<rparr>"
  | caps amount left x where "0 < amount" and "s \<in> set (gw_contexts g)" and "take_and_submit E s caps amount left (g\<lparr>gw_world := x\<rparr>) = (r, h)"
proof -
  define w where "w = gs_selected_worker_id (cx_session (gw_objects g s))"
  show ?thesis
  proof (cases "map_of (sc_adapters (gw_scheduler g)) w = None \<or> s \<notin> set (gw_contexts g)")
    case True
    with assms that(1) [of _ "gw_world g"] show ?thesis
      by (auto simp: schedule_next_def gw_capabilities_def w_def [symmetric] py_bind_def py_read_def py_seq_def find_ctx_def
          split: option.splits)
  next
    case False
    then obtain caps where caps: "map_of (sc_adapters (gw_scheduler g)) w = Some caps" by auto
    obtain r1 h1 where r1: "remaining_samples E w s caps g = (r1, h1)" by fastforce
    obtain x where h1: "h1 = g\<lparr>gw_world := x\<rparr>" by (rule remaining_samples_world [OF r1])
    show ?thesis
    proof (cases r1)
      case (Inl e)
      with assms False caps r1 that(1) [of e x] show ?thesis
        by (auto simp: schedule_next_def gw_capabilities_def w_def [symmetric] py_bind_def py_read_def py_seq_def find_ctx_def h1)
    next
      case (Inr left)
      define amount where "amount = ready_samples (cx_session (gw_objects g s))
        (update_samples g (gs_sample_rate (cx_session (gw_objects g s)))) (Some (min (max_input_samples caps) left)) force"
      have "schedule_next E s force g =
          (if amount \<le> 0 then (Inr False, g\<lparr>gw_world := x\<rparr>) else take_and_submit E s caps amount left (g\<lparr>gw_world := x\<rparr>))"
        using False caps r1 Inr
        by (simp add: schedule_next_def take_and_submit_def gw_capabilities_def w_def [symmetric] py_bind_def py_read_def py_seq_def find_ctx_def h1
            amount_def cx_get_def)
      with assms that(2) [of x] that(3) [of amount caps left x] False show ?thesis by (auto split: if_splits)
    qed
  qed
qed

lemma reserve_own:
  assumes "gs_inv x" and "reserve x amount final = Inr (reservation, y)"
  shows "rollback y (sr_job_sequence reservation) = Inr (True, y\<lparr>gs_buffer := gs_buffer x, gs_reservation := None, gs_reservation_released := True\<rparr>)"
    and "gs_reservation x = None" and "gs_inv y" and "gs_generation y = gs_generation x"
    and "matches_reservation y (sr_job_sequence reservation) (rc_start (sr_chunk reservation)) (rc_end (sr_chunk reservation))"
    and "gs_in_flight y" and "rc_sample_count (sr_chunk reservation) = amount"
proof -
  from assms(2) obtain chunk b where b: "rb_reserve_range (gs_buffer x) amount final = Inr (chunk, b)"
    and res: "reservation = \<lparr>sr_job_sequence = gs_next_job_sequence x, sr_generation = gs_generation x, sr_chunk = chunk\<rparr>"
    and y: "y = x\<lparr>gs_buffer := b, gs_next_job_sequence := gs_next_job_sequence x + 1, gs_reservation := Some reservation,
       gs_reservation_released := False\<rparr>" and none: "\<not> gs_in_flight x"
    by (auto simp: reserve_def bind_result_eq_Inr Let_def split: if_splits)
  note fields = rb_reserve_fields [OF b]
  show "gs_reservation x = None" using none by (simp add: gs_in_flight_def)
  have "(gs_buffer x)\<lparr>rb_reservation := None\<rparr> = gs_buffer x" using fields by simp
  with fields show "rollback y (sr_job_sequence reservation) =
      Inr (True, y\<lparr>gs_buffer := gs_buffer x, gs_reservation := None, gs_reservation_released := True\<rparr>)"
    by (simp add: rollback_def y res rb_rollback_own bind_result_def)
  show "gs_inv y" by (rule reserve_inv [OF assms])
  show "rc_sample_count (sr_chunk reservation) = amount"
    using b by (auto simp: res rb_reserve_range_def rc_sample_count_def Let_def split: if_splits)
  show "gs_generation y = gs_generation x" "gs_in_flight y"
    "matches_reservation y (sr_job_sequence reservation) (rc_start (sr_chunk reservation)) (rc_end (sr_chunk reservation))"
    by (simp_all add: y res matches_reservation_def gs_in_flight_def)
qed

lemma take_and_submit_cases:
  fixes E :: "('v, 'e) gateway_env"
  assumes inv: "gs_inv (cx_session (gw_objects g s))" and "take_and_submit E s caps amount left g = (r, h)"
  obtains e where "r = Inl e" and "gw_scheduler h = gw_scheduler g" and "gs_buffer (cx_session (gw_objects h s)) = gs_buffer (cx_session (gw_objects g s))"
    and "gs_reservation (cx_session (gw_objects h s)) = gs_reservation (cx_session (gw_objects g s))"
    and "cx_idle (gw_objects h s) = cx_idle (gw_objects g s) \<or> cx_idle (gw_objects h s)"
  | reservation y job now q where "r = Inr True" and "reserve (cx_session (gw_objects g s)) amount (rc_final (sr_chunk reservation)) = Inr (reservation, y)"
    and "job = job_of E (gw_settings g) caps y reservation (gw_clock g (gw_ticks g)) (gw_clock g (Suc (gw_ticks g)))"
    and "enqueue (gw_scheduler g) now job = Inr q" and "gw_scheduler h = q" and "cx_session (gw_objects h s) = y"
    and "\<not> cx_idle (gw_objects h s)" and "gw_contexts h = gw_contexts g" and "gw_sessions h = gw_sessions g"
proof -
  let ?x = "cx_session (gw_objects g s)"
  define final where "final = (gs_finish_requested ?x \<or> cx_endpoint_pending (gw_objects g s) \<or> amount = left)"
  show ?thesis
  proof (cases "reserve ?x amount final")
    case (Inl e)
    then have "take_and_submit E s caps amount left g = (Inl e, ctx_upd s (\<lambda>c. c\<lparr>cx_session := ?x\<rparr>) g)"
      by (simp add: take_and_submit_def on_session_def raising_def py_bind_def cx_get_def py_read_def final_def)
    with assms(2) that(1) [of e] show ?thesis by auto
  next
    case (Inr z)
    then obtain reservation y where ry: "reserve ?x amount final = Inr (reservation, y)" by (cases z) simp
    have fin: "rc_final (sr_chunk reservation) = final"
      using ry by (auto simp: reserve_def bind_result_eq_Inr Let_def rb_reserve_range_def split: if_splits)
    note own = reserve_own [OF inv ry]
    define g1 where "g1 = (ctx_upd s (\<lambda>c. c\<lparr>cx_session := y, cx_idle := False\<rparr>) g)\<lparr>gw_ticks := gw_ticks g + 2\<rparr>"
    define job where "job = job_of E (gw_settings g) caps y reservation (gw_clock g (gw_ticks g)) (gw_clock g (Suc (gw_ticks g)))"
    define undo where "undo = (\<lambda>e. py_seq (discard_timeline (ij_job_id job))
           (py_seq (py_bind (on_session s (raising (\<lambda>x. rollback x (sr_job_sequence reservation)))) (\<lambda>_. py_return ()))
           (py_seq (cx_set s (\<lambda>c. c\<lparr>cx_idle := True\<rparr>)) (py_raise e))) :: ('v, 'e, unit) gw_method)"
    have step: "take_and_submit E s caps amount left g = py_seq (except_exception (submit_job s caps job) undo) (py_return True) g1"
      by (simp add: take_and_submit_def final_def [symmetric] on_session_def raising_def py_bind_def ry read_clock_def cx_get_def py_read_def
          g1_def job_def undo_def ctx_upd_def)
    define now where "now = gw_clock g (Suc (gw_ticks g1))"
    have sched: "gw_scheduler g1 = gw_scheduler g" "gw_clock g1 = gw_clock g" by (simp_all add: g1_def)
    show ?thesis
    proof (cases "enqueue (gw_scheduler g) now job")
      case (Inl e)
      then obtain t where t: "submit_job s caps job g1 = (Inl e, g1\<lparr>gw_ticks := gw_ticks g1 + 2, gw_timelines := t\<rparr>)"
        by (simp add: submit_job_apply Let_def sched now_def)
      have undone: "except_exception (submit_job s caps job) undo g1 = undo e (g1\<lparr>gw_ticks := gw_ticks g1 + 2, gw_timelines := t\<rparr>)"
        using t enqueue_error [OF Inl] by (simp add: except_exception_def py_except_def)
      obtain t' where "take_and_submit E s caps amount left g =
        (Inl e, ctx_upd s (\<lambda>c. c\<lparr>cx_session := y\<lparr>gs_buffer := gs_buffer ?x, gs_reservation := None, gs_reservation_released := True\<rparr>, cx_idle := True\<rparr>)
           (g1\<lparr>gw_ticks := gw_ticks g1 + 2, gw_timelines := t'\<rparr>))"
        unfolding step py_seq_def py_bind_def undone
        by (simp add: undo_def discard_timeline_def py_modify_def on_session_def raising_def py_seq_def py_bind_def own(1) cx_set_def g1_def ctx_upd_def)
      with assms(2) that(1) [of e] own(2) show ?thesis by (auto simp: g1_def)
    next
      case (Inr q)
      then obtain k where k: "submit_job s caps job g1 = (Inr (), k)" "gw_scheduler k = q" "cx_session (gw_objects k s) = y"
        "\<not> cx_idle (gw_objects k s)" "gw_contexts k = gw_contexts g" "gw_sessions k = gw_sessions g"
        by (simp add: submit_job_apply Let_def sched now_def) (simp add: g1_def)
      have "except_exception (submit_job s caps job) undo g1 = (Inr (), k)"
        using k(1) by (simp add: except_exception_def py_except_def)
      then have "take_and_submit E s caps amount left g = (Inr True, k)" by (simp add: step py_seq_def py_bind_def)
      with assms(2) have "r = Inr True" "h = k" by auto
      with that(2) [OF this(1) _ job_def Inr] ry fin k(2-6) show ?thesis by auto
    qed
  qed
qed

lemma acknowledge_own:
  assumes "gs_inv y" and "gs_reservation y = Some reservation" 
  shows "\<exists>z. acknowledge y (sr_job_sequence reservation) (gs_generation y) = Inr z"
proof -
  have "rb_reservation (gs_buffer y) = Some (sr_chunk reservation)" using assms by (simp add: gs_inv_def)
  then show ?thesis using assms(2)
    by (simp add: acknowledge_def require_reservation_def bind_result_def rb_acknowledge_def rb_require_reservation_def Let_def)
qed

lemma cleanup_own:
  assumes "gs_inv (cx_session (gw_objects h s))" and "s \<in> set (gw_contexts h)"
    and "gs_reservation (cx_session (gw_objects h s)) = Some reservation"
    and "ij_session_id job = s" and "ij_generation job = gs_generation (cx_session (gw_objects h s))"
    and "ij_job_sequence job = sr_job_sequence reservation"
    and "matches_reservation (cx_session (gw_objects h s)) (ij_job_sequence job) (ij_start_sample job) (ij_end_sample job)"
  shows "fst (cleanup_job job h) = Inr ()"
proof -
  obtain r z where z: "acknowledge (cx_session (gw_objects h s)) (ij_job_sequence job) (ij_generation job) = Inr (r, z)"
    using acknowledge_own [OF assms(1,3)] assms(5,6) by auto
  obtain k where "update_gauges (ctx_upd s (\<lambda>c. c\<lparr>cx_session := z, cx_first_undecoded_at := None\<rparr>) h) = (Inr (), k)"
    using update_gauges_ok by blast
  then show ?thesis using assms(2,4,5,7) z
    by (simp add: cleanup_job_def Let_def on_session_def raising_def py_bind_def py_read_def py_seq_def cx_set_def py_modify_def ctx_upd_def)
qed

text \<open>C10: scheduling is all or nothing. When \<open>_schedule_next\<close> reports a job, the scheduler's queue of the
  session's worker has grown by exactly that job, the job carries the reserved samples, the
  session waits for it, and the cleanup hook will accept it as the owner of the reservation. When
  it reports none, nothing changed; when it raises, the scheduler, the session's buffer and its
  reservation are as before.\<close>

theorem scheduled_job_owns_reservation:
  fixes E :: "('v, 'e) gateway_env"
  assumes inv: "gs_inv (cx_session (gw_objects g s))" and sid: "gs_session_id (cx_session (gw_objects g s)) = s"
    and sched: "schedule_next E s force g = (r, h)"
  shows "case r of
      Inr True \<Rightarrow> (\<exists>job. queue_of (gw_scheduler h) (ij_worker_id job) = queue_of (gw_scheduler g) (ij_worker_id job) @ [job] \<and>
        sc_queued_samples (gw_scheduler h) = sc_queued_samples (gw_scheduler g) + ij_sample_count job \<and>
        ij_session_id job = s \<and> 0 < ij_sample_count job \<and> int (length (ij_pcm job)) = 2 * ij_sample_count job \<and>
        \<not> cx_idle (gw_objects h s) \<and> fst (cleanup_job job h) = Inr ())
    | Inr False \<Rightarrow> gw_objects h = gw_objects g \<and> gw_scheduler h = gw_scheduler g
    | Inl e \<Rightarrow> gw_scheduler h = gw_scheduler g \<and>
        gs_buffer (cx_session (gw_objects h s)) = gs_buffer (cx_session (gw_objects g s)) \<and>
        gs_reservation (cx_session (gw_objects h s)) = gs_reservation (cx_session (gw_objects g s))"
  using sched
proof (cases rule: schedule_next_cases)
  case (3 caps amount left x)
  have inv': "gs_inv (cx_session (gw_objects (g\<lparr>gw_world := x\<rparr>) s))" using inv by simp
  from inv' 3(3) show ?thesis
  proof (cases rule: take_and_submit_cases)
    case (2 reservation y job now q)
    have ry: "reserve (cx_session (gw_objects g s)) amount (rc_final (sr_chunk reservation)) = Inr (reservation, y)"
      using 2(2) by simp
    note own = reserve_own [OF inv ry]
    have y: "gs_session_id y = s" "gs_reservation y = Some reservation"
      using ry sid by (auto simp: reserve_def bind_result_eq_Inr Let_def split: if_splits)
    obtain job' where job': "queue_of q (ij_worker_id job) = queue_of (gw_scheduler g) (ij_worker_id job) @ [job']"
      "job' = job \<or> job' = job\<lparr>ij_enqueued_at := now\<rparr>" "0 < ij_sample_count job" "int (length (ij_pcm job)) = ij_sample_count job * 2"
      "sc_queued_samples q = sc_queued_samples (gw_scheduler g) + ij_sample_count job"
      using enqueue_appends [OF 2(4)] by auto
    have same: "ij_worker_id job' = ij_worker_id job" "ij_session_id job' = s" "ij_generation job' = gs_generation y"
      "ij_job_sequence job' = sr_job_sequence reservation" "ij_start_sample job' = rc_start (sr_chunk reservation)"
      "ij_end_sample job' = rc_end (sr_chunk reservation)" "ij_sample_count job' = ij_sample_count job" "ij_pcm job' = ij_pcm job"
      using job'(2) y(1) by (auto simp: 2(3) job_of_def Let_def ij_sample_count_def)
    have hs: "cx_session (gw_objects h s) = y" "\<not> cx_idle (gw_objects h s)" "gw_contexts h = gw_contexts g"
      "gw_scheduler h = q" "r = Inr True" using 2 by simp_all
    have "fst (cleanup_job job' h) = Inr ()"
    proof (rule cleanup_own)
      show "gs_inv (cx_session (gw_objects h s))" "s \<in> set (gw_contexts h)" using own(3) 3(2) hs by simp_all
      show "matches_reservation (cx_session (gw_objects h s)) (ij_job_sequence job') (ij_start_sample job') (ij_end_sample job')"
        using own(5) by (simp add: hs(1) same)
    qed (simp_all add: hs(1) y same)
    then show ?thesis
      unfolding hs(5) using job' same hs(2,4) by (auto intro!: exI [of _ job'])
  qed auto
qed auto

definition fed_gateway :: "(int, unit) GatewayRuntime" where
  "fed_gateway = ctx_upd ''s'' (\<lambda>c. c\<lparr>cx_session := example_gateway_session\<lparr>gs_accepted_samples := 4,
     gs_buffer := example_buffer\<lparr>rb_data := [1, 2, 3, 4, 5, 6, 7, 8], rb_accepted := 4\<rparr>\<rparr>\<rparr>) example_gateway"

lemma fed_session: "gs_inv (cx_session (gw_objects fed_gateway ''s''))" "gs_session_id (cx_session (gw_objects fed_gateway ''s'')) = ''s''"
  "gs_selected_worker_id (cx_session (gw_objects fed_gateway ''s'')) = ''local''"
  "ready_samples (cx_session (gw_objects fed_gateway ''s'')) 24000 (Some 4) True = 4"
  "gs_sample_rate (cx_session (gw_objects fed_gateway ''s'')) = 16000"
  by (simp_all add: fed_gateway_def example_gateway_session_def example_buffer_def gs_inv_def rb_inv_def rb_held_samples_def
      ready_samples_def gs_in_flight_def rb_buffered_samples_def rb_reserved_samples_def py_or_def)

lemma fed_scheduled: "fst (schedule_next example_env ''s'' True fed_gateway) = Inr True"
proof -
  have caps: "map_of (sc_adapters (gw_scheduler fed_gateway)) ''local'' = Some example_caps"
    by (simp add: fed_gateway_def example_gateway_def scheduler_init_def)
  have rate: "update_samples fed_gateway 16000 = 24000"
    by (simp add: update_samples_def fed_gateway_def example_gateway_def example_settings_def py_round_def)
  have "schedule_next example_env ''s'' True fed_gateway = take_and_submit example_env ''s'' example_caps 4 8 fed_gateway"
    using fed_session
    by (simp add: schedule_next_def py_bind_def py_read_def gw_capabilities_def caps py_seq_def find_ctx_def remaining_samples_def rate cx_get_def
        example_env_def) (simp add: fed_gateway_def example_context_def new_context_def example_caps_def)
  moreover have "\<exists>res y. reserve (cx_session (gw_objects fed_gateway ''s'')) 4 f = Inr (res, y) \<and>
      rc_sample_count (sr_chunk res) = 4 \<and> length (rc_pcm (sr_chunk res)) = 8 \<and> gs_selected_worker_id y = ''local''" for f
    by (simp add: fed_gateway_def example_gateway_session_def example_buffer_def reserve_def gs_in_flight_def rb_reserve_range_def
        rb_buffered_samples_def rb_reserved_samples_def rb_held_samples_def rb_next_unreserved_sample_def bind_result_def
        rc_sample_count_def Let_def)
  then obtain res y where y: "reserve (cx_session (gw_objects fed_gateway ''s'')) 4
      (gs_finish_requested (cx_session (gw_objects fed_gateway ''s'')) \<or> cx_endpoint_pending (gw_objects fed_gateway ''s'')) = Inr (res, y)"
    "rc_sample_count (sr_chunk res) = 4" "length (rc_pcm (sr_chunk res)) = 8" "gs_selected_worker_id y = ''local''" by blast
  have "\<exists>q. enqueue (gw_scheduler fed_gateway) now (job_of example_env cfg example_caps y res a b) = Inr q" for now cfg a b
    using y(2-4) by (simp add: enqueue_def fed_gateway_def example_gateway_def scheduler_init_def job_of_def Let_def ij_sample_count_def
        rc_sample_count_def total_jobs_def)
  then obtain Q where "\<And>now cfg a b. enqueue (gw_scheduler fed_gateway) now (job_of example_env cfg example_caps y res a b) = Inr (Q now cfg a b)"
    by metis
  then have "fst (take_and_submit example_env ''s'' example_caps 4 8 fed_gateway) = Inr True"
    using y(1)
    by (simp add: take_and_submit_def cx_get_def py_bind_def py_read_def on_session_def raising_def read_clock_def submit_job_apply
        Let_def except_exception_def py_except_def py_seq_def cx_set_apply)
  ultimately show ?thesis by simp
qed

theorem scheduled_job_owns_reservation_witness:
  "\<exists>job. queue_of (gw_scheduler (snd (schedule_next example_env ''s'' True fed_gateway))) (ij_worker_id job) =
       queue_of (gw_scheduler fed_gateway) (ij_worker_id job) @ [job] \<and>
     ij_session_id job = ''s'' \<and> 0 < ij_sample_count job \<and>
     fst (cleanup_job job (snd (schedule_next example_env ''s'' True fed_gateway))) = Inr ()"
  using scheduled_job_owns_reservation [OF fed_session(1,2) surjective_pairing, of example_env True]
  by (auto simp: fed_scheduled)

section \<open>Results that cannot be applied\<close>

definition evs :: "string \<Rightarrow> ('v, 'e) GatewayRuntime \<Rightarrow> OutboundEvent list" where
  "evs s g = cx_events (gw_objects g s)"

text \<open>While a task holds a session's protocol lock, what the adapters do and what other tasks do in
  between puts no event into the session's queue.\<close>

definition quiet_adapters :: "('v, 'e) gateway_env \<Rightarrow> string \<Rightarrow> bool" where
  "quiet_adapters E s \<longleftrightarrow> (\<forall>w. keeps (evs s) (ge_finish_segment E w s) \<and> keeps (evs s) (ge_abort_session E w s))"

lemma evs_simps [simp]: "evs s (g\<lparr>gw_timelines := t\<rparr>) = evs s g" "evs s (g\<lparr>gw_ticks := n\<rparr>) = evs s g"
  by (simp_all add: evs_def)

lemma keeps_evs_set [simp]: "(\<And>c. cx_events (f c) = cx_events c) \<Longrightarrow> keeps (evs s) (cx_set t f)"
  by (simp add: keeps_def evs_def cx_set_def py_modify_def)

lemma keeps_evs_get [simp]: "keeps (evs s) (cx_get t k)"
  by (simp add: cx_get_def)

lemma keeps_evs_session [simp]: "keeps (evs s) (on_session t m)"
  by (simp add: keeps_def evs_def on_session_def split: prod.split)

lemma keeps_evs_protocol [simp]: "keeps (evs s) (on_protocol t m)"
  by (simp add: keeps_def evs_def on_protocol_def split: prod.split)

lemma keeps_evs_vad [simp]: "keeps (evs s) (on_vad t m)"
  by (simp add: keeps_def evs_def on_vad_def split: prod.split option.split)

lemma keeps_evs_parts [simp]:
  "keeps (evs s) (on_metrics m)" "keeps (evs s) (on_scheduler n)"
  "keeps (evs s) (on_registry k)" "keeps (evs s) (on_backend b)"
  by (simp_all add: keeps_def evs_def on_metrics_def on_scheduler_def on_registry_def on_backend_def split: prod.split)

lemma keeps_evs_reads [simp]:
  "keeps (evs s) (gw_capabilities w)" "keeps (evs s) read_clock" "keeps (evs s) (mark_timeline stage now t)"
  "keeps (evs s) (discard_timeline job_id)"
  by (simp_all add: keeps_def evs_def gw_capabilities_def read_clock_def mark_timeline_def discard_timeline_def py_modify_def
      split: option.split)

lemma keeps_evs_modify [simp]: "(\<And>g. gw_objects (f g) = gw_objects g) \<Longrightarrow> keeps (evs s) (py_modify f)"
  by (simp add: keeps_def py_modify_def evs_def)

lemma keeps_caught: "keeps view m \<Longrightarrow> (\<And>e. keeps view (k e)) \<Longrightarrow> keeps view (except_exception m k)"
  unfolding except_exception_def by (auto intro!: keeps_except)

lemma keeps_evs_schedule: "keeps (evs s) (schedule_next E t force)"
  unfolding schedule_next_def take_and_submit_def remaining_samples_def submit_job_def
  by (auto intro!: keeps_rules keeps_caught split: option.split prod.split)

lemma keeps_evs_mark: "keeps (evs s) (mark_result_applied job_id)"
  unfolding mark_result_applied_def by (auto intro!: keeps_rules keeps_only_if split: option.split prod.split)

lemma keeps_evs_control: "keeps (evs s) (apply_control_result E t txt metadata)"
  unfolding apply_control_result_def by (auto intro!: keeps_rules split: prod.split)

lemma keeps_evs_fail:
  assumes "quiet_adapters E s"
  shows "keeps (evs s) (fail_session E s)"
  using assms unfolding fail_session_def cancel_jobs_def suppressed_def abort_backend_def quiet_adapters_def
  by (auto intro!: keeps_rules keeps_caught)

lemma keeps_evs_segment:
  assumes "quiet_adapters E s"
  shows "keeps (evs s) (finish_result_segment E s result)"
  using assms unfolding finish_result_segment_def commit_segment_def absorb_decision_def quiet_adapters_def
  by (auto intro!: keeps_rules keeps_evs_control split: prod.split)

text \<open>Enqueueing events never raises, and adds exactly them.\<close>

lemma put_events: "py_for es (put_event s) g = (Inr (), ctx_upd s (\<lambda>c. c\<lparr>cx_events := cx_events c @ es\<rparr>) g)"
  by (induction es arbitrary: g) (simp_all add: put_event_def ctx_upd_def)

lemma enqueue_events_apply:
  "enqueue_events s job_id terminal close_code es g =
     (Inr (), ctx_upd s (\<lambda>c. c\<lparr>cx_events := cx_events c @ outbound job_id terminal close_code es\<rparr>) g)"
  by (simp add: enqueue_events_def put_events)

text \<open>\<open>no_trace s x m\<close>: if \<open>m\<close> raises, the event queue of \<open>s\<close> still is \<open>x\<close>.\<close>

definition no_trace :: "string \<Rightarrow> OutboundEvent list \<Rightarrow> ('v, 'e, 'a) gw_method \<Rightarrow> bool" where
  "no_trace s x m \<longleftrightarrow> triple (\<lambda>g. evs s g = x) m (\<lambda>_ _. True) (\<lambda>g. evs s g = x)"

lemma no_trace_bind: "keeps (evs s) m \<Longrightarrow> (\<And>y. no_trace s x (f y)) \<Longrightarrow> no_trace s x (py_bind m f)"
  unfolding no_trace_def by (rule triple_bind, rule keeps_triple [where view = "evs s"]) auto

lemma no_trace_seq: "keeps (evs s) m \<Longrightarrow> no_trace s x n \<Longrightarrow> no_trace s x (py_seq m n)"
  unfolding py_seq_def by (rule no_trace_bind)

lemma no_trace_only: "no_trace s x (discard_timeline job_id)" "no_trace s x (cx_set s f)"
  by (simp_all add: no_trace_def triple_def discard_timeline_def cx_set_def py_modify_def)

lemma no_trace_if: "no_trace s x m \<Longrightarrow> no_trace s x n \<Longrightarrow> no_trace s x (if b then m else n)"
  by simp

lemma no_trace_enqueue: "no_trace s x (enqueue_events s job_id terminal close_code es)"
  by (simp add: no_trace_def triple_def enqueue_events_apply)

lemma no_trace_enqueue_then: "no_trace s x (py_seq (enqueue_events s job_id terminal close_code es) (cx_set t f))"
  by (simp add: no_trace_def triple_def py_seq_def py_bind_def enqueue_events_apply cx_set_apply)

lemmas no_trace_rules = no_trace_bind no_trace_seq no_trace_if no_trace_enqueue no_trace_enqueue_then
  no_trace_only

lemma fail_result_no_trace:
  assumes "quiet_adapters E s"
  shows "no_trace s x (fail_result E s result exc code)"
  unfolding fail_result_def drop_result_def
  by (auto intro!: no_trace_rules keeps_evs_fail [OF assms] keeps_evs_mark)

lemma accept_result_no_trace:
  assumes "quiet_adapters E s"
  shows "no_trace s x (accept_result E s result)"
  unfolding accept_result_def Let_def settle_idle_def
  by (auto intro!: no_trace_rules keeps_if keeps_evs_schedule keeps_evs_mark keeps_evs_segment [OF assms] keeps_only_if
      split: prod.split)

lemma apply_result_locked_no_trace:
  assumes "quiet_adapters E s"
  shows "no_trace s x (apply_result_locked E s result)"
  unfolding apply_result_locked_def count_failure_def
  by (auto intro!: no_trace_rules fail_result_no_trace [OF assms] accept_result_no_trace [OF assms] split: prod.split)

text \<open>\<open>closed_once s x g\<close>: the queue of \<open>s\<close> is \<open>x\<close> followed by at most one event, which ends the session.\<close>

definition closed_once :: "string \<Rightarrow> OutboundEvent list \<Rightarrow> ('v, 'e) GatewayRuntime \<Rightarrow> bool" where
  "closed_once s x g \<longleftrightarrow> (\<exists>es. evs s g = x @ es \<and> length es \<le> 1 \<and> list_all oe_terminal es)"

lemma closed_onceI: "evs s g = x \<Longrightarrow> closed_once s x g"
  unfolding closed_once_def by (intro exI [of _ "[]"]) simp

lemma closed_once_keeps: "keeps (evs s) m \<Longrightarrow> triple (closed_once s x) m (\<lambda>_. closed_once s x) (closed_once s x)"
  by (rule keeps_triple [where view = "evs s"]) (simp_all add: closed_once_def)

lemma still_closed: "keeps (evs s) m \<Longrightarrow> triple (\<lambda>g. evs s g = x) m (\<lambda>_ g. evs s g = x) (closed_once s x)"
  by (rule triple_conseq [OF keeps_triple [where view = "evs s" and P = "\<lambda>g. evs s g = x"]]) (auto intro: closed_onceI)

lemma enqueue_one_closes:
  "triple (\<lambda>g. evs s g = x) (enqueue_events s job_id True close_code [e]) (\<lambda>_. closed_once s x) (closed_once s x)"
  by (rule triple_intro) (auto simp: enqueue_events_apply closed_once_def evs_def)

lemma publish_failure_closes:
  assumes "quiet_adapters E (ir_session_id result)"
  shows "triple (\<lambda>g. evs (ir_session_id result) g = x) (publish_failure E result exc)
     (\<lambda>_. closed_once (ir_session_id result) x) (closed_once (ir_session_id result) x)"
proof -
  let ?s = "ir_session_id result"
  have count: "keeps (evs ?s) (if capacity_error exc then py_seq count_failure (count_rejection exc) else count_conflict)"
    by (auto simp: count_failure_def count_rejection_def count_conflict_def intro!: keeps_rules split: py_error.split)
  have close: "triple (\<lambda>g. evs ?s g = x) (py_bind (on_protocol ?s m) (\<lambda>event.
       py_seq (mark_result_applied (ir_job_id result)) (enqueue_events ?s job_id True cc [event])))
     (\<lambda>_. closed_once ?s x) (closed_once ?s x)" for m job_id cc
    by (rule triple_bind [OF still_closed], simp)
      (rule triple_seq [OF still_closed enqueue_one_closes], rule keeps_evs_mark)
  have last: "triple (closed_once ?s x) (cx_set ?s (\<lambda>c. c\<lparr>cx_idle := True\<rparr>)) (\<lambda>_. closed_once ?s x) (closed_once ?s x)"
    by (rule closed_once_keeps) simp
  have maybe: "triple (\<lambda>g. evs ?s g = x) (only_if b m) (\<lambda>_. closed_once ?s x) (closed_once ?s x)"
    if "triple (\<lambda>g. evs ?s g = x) m (\<lambda>_. closed_once ?s x) (closed_once ?s x)" for b m
    using that by (cases b) (auto intro: closed_onceI)
  show ?thesis
    unfolding publish_failure_def Let_def
    by (rule triple_seq [OF still_closed [OF count] triple_bind [OF still_closed [OF keeps_evs_fail [OF assms]]
          triple_bind [OF still_closed triple_seq [OF maybe [OF close] last]]]]) simp
qed

text \<open>C9: a result that cannot be applied leaves no trace of its partial application. Whatever step raised
  (a transcript conflict, the detector, the buffer, the scheduler, the adapter), the protocol
  session and the segment metadata are those from before and no event was queued; and reporting
  the failure queues at most one event, which ends the session.\<close>

theorem failed_result_leaves_no_trace:
  fixes E :: "('v, 'e) gateway_env"
  assumes lock: "ge_protocol_lock E (ir_session_id result) g = (Inr (), g0)"
    and quiet: "quiet_adapters E (ir_session_id result)"
    and raised: "apply_result E result g = (Inl exc, h)" and exc: "\<not> base_exception exc" "error_type_name exc \<noteq> ''CancelledError''"
    and failed: "publish_failure E result exc h' = (r, k)" and unchanged: "cx_events (gw_objects h' (ir_session_id result)) = cx_events (gw_objects h (ir_session_id result))"
  shows "cx_protocol (gw_objects h (ir_session_id result)) = cx_protocol (gw_objects g0 (ir_session_id result)) \<and>
     cx_segment_metadata (gw_objects h (ir_session_id result)) = cx_segment_metadata (gw_objects g0 (ir_session_id result)) \<and>
     cx_events (gw_objects h (ir_session_id result)) = cx_events (gw_objects g0 (ir_session_id result)) \<and>
     (\<exists>es. cx_events (gw_objects k (ir_session_id result)) = cx_events (gw_objects g0 (ir_session_id result)) @ es \<and>
        length es \<le> 1 \<and> list_all oe_terminal es)"
proof -
  let ?s = "ir_session_id result"
  have "?s \<in> set (gw_contexts g)"
    using raised by (auto simp: apply_result_def Let_def has_ctx_read discard_timeline_def py_modify_def split: if_splits)
  then have "apply_result E result g = (if stale_or_terminal (gw_objects g0 ?s) result then drop_result ?s result g0
      else except_exception (apply_result_locked E ?s result)
        (\<lambda>e. py_seq (cx_set ?s (\<lambda>c. c\<lparr>cx_protocol := cx_protocol (gw_objects g0 ?s),
               cx_segment_metadata := cx_segment_metadata (gw_objects g0 ?s)\<rparr>)) (py_raise e)) g0)"
    by (simp add: apply_result_def Let_def has_ctx_read locked_after [OF lock])
  with raised obtain e h1 where locked: "apply_result_locked E ?s result g0 = (Inl e, h1)"
    and h: "h = ctx_upd ?s (\<lambda>c. c\<lparr>cx_protocol := cx_protocol (gw_objects g0 ?s),
               cx_segment_metadata := cx_segment_metadata (gw_objects g0 ?s)\<rparr>) h1 \<or> (exc = e \<and> (base_exception e \<or> error_type_name e = ''CancelledError''))"
    by (auto simp: except_exception_def py_except_def drop_result_apply split: if_splits prod.splits sum.splits)
  have "evs ?s h1 = evs ?s g0"
    using apply_result_locked_no_trace [OF quiet, of "evs ?s g0" result] locked
    by (auto simp: no_trace_def triple_def split: prod.splits sum.splits dest: spec [of _ g0])
  with h exc have first: "cx_protocol (gw_objects h ?s) = cx_protocol (gw_objects g0 ?s) \<and>
     cx_segment_metadata (gw_objects h ?s) = cx_segment_metadata (gw_objects g0 ?s) \<and>
     cx_events (gw_objects h ?s) = cx_events (gw_objects g0 ?s)"
    by (auto simp: evs_def)
  have "closed_once ?s (evs ?s h') k"
    using publish_failure_closes [OF quiet, of "evs ?s h'" exc] failed
    by (cases r) (auto simp: triple_def dest: spec [of _ h'])
  with first unchanged show ?thesis by (simp add: closed_once_def evs_def)
qed

text \<open>A result of a worker the gateway does not know.\<close>

definition stray_result :: InferenceResult where
  "stray_result = Scheduler.example_result\<lparr>ir_session_id := ''s'', ir_generation := 1, ir_worker_id := ''other'', ir_error := None\<rparr>"

lemma stray_raises: "\<exists>h. apply_result example_env stray_result example_gateway = (Inl (KeyError ''other''), h) \<and> cx_events (gw_objects h ''s'') = []"
proof -
  have caps: "map_of (sc_adapters (gw_scheduler example_gateway)) ''other'' = None"
    by (simp add: example_gateway_def scheduler_init_def)
  have "apply_result_locked example_env ''s'' stray_result example_gateway = (Inl (KeyError ''other''), example_gateway\<lparr>gw_ticks := 1\<rparr>)"
    using caps
    by (simp add: apply_result_locked_def accept_result_def stray_result_def py_bind_def gw_capabilities_def read_clock_def py_read_def)
      (simp add: example_gateway_def example_settings_def example_context_def new_context_def)
  moreover have "stale_or_terminal example_context stray_result = False"
    by (simp add: stale_or_terminal_def stray_result_def final_state_def)
  moreover have lock: "ge_protocol_lock example_env ''s'' example_gateway = (Inr (), example_gateway)" by (simp add: example_env_def)
  moreover have "ir_session_id stray_result = ''s''" by (simp add: stray_result_def)
  ultimately show ?thesis
    by (simp add: apply_result_def Let_def has_ctx_read except_exception_def py_except_def base_exception_def locked_after [OF lock])
qed

theorem failed_result_leaves_no_trace_witness:
  "\<exists>h r k. apply_result example_env stray_result example_gateway = (Inl (KeyError ''other''), h) \<and>
     publish_failure example_env stray_result (KeyError ''other'') h = (r, k) \<and>
     cx_protocol (gw_objects h ''s'') = cx_protocol example_context \<and> length (cx_events (gw_objects k ''s'')) \<le> 1"
proof -
  obtain h where h: "apply_result example_env stray_result example_gateway = (Inl (KeyError ''other''), h)" using stray_raises by blast
  obtain r k where k: "publish_failure example_env stray_result (KeyError ''other'') h = (r, k)" by fastforce
  have s: "ir_session_id stray_result = ''s''" by (simp add: stray_result_def)
  have "quiet_adapters example_env ''s''" by (simp add: quiet_adapters_def example_env_def)
  from failed_result_leaves_no_trace [OF _ _ h _ _ k refl, of example_gateway] this h k show ?thesis
    by (auto simp: s example_env_def base_exception_def)
qed

end
