(* ===== verification/GatewayLeases.thy ===== *)
theory GatewayLeases
  imports GatewaySafety
begin

text \<open>
  Sessions, leases and the idle flags of the workers across \<open>open_session\<close> and \<open>_release_session\<close>:
  a release happens once, a failed opening gives its lease back, and what an opening that fails
  after the session was created leaves behind.
\<close>

section \<open>Releasing a session\<close>

lemma lease_release_count:
  assumes "released l \<or> (\<exists>b. map_of r (lease_worker_id l) = Some b \<and> 0 < active_leases b)"
  obtains l' r' where "lease_release r l = (None, l', r')" and "released l'"
    and "lease_count r' = (lease_count r)(lease_worker_id l := lease_count r (lease_worker_id l) - (if released l then 0 else 1))"
proof (cases "released l")
  case True
  with that [of l r] show ?thesis by (simp add: lease_release_def)
next
  case False
  with assms obtain b where b: "map_of r (lease_worker_id l) = Some b" "0 < active_leases b" by blast
  with False that [of "l\<lparr>released := True\<rparr>" "AList.update (lease_worker_id l) (b\<lparr>active_leases := active_leases b - 1\<rparr>) r"]
  show ?thesis by (simp add: lease_release_def registry_release_def registry_worker_def bind_result_def lease_count_Some)
qed

lemma close_session_fields [simp]:
  "gw_contexts (close_session s g) = gw_contexts g" "gw_registry (close_session s g) = gw_registry g"
  "gw_worker_empty (close_session s g) = gw_worker_empty g" "gw_scheduler (close_session s g) = gw_scheduler g"
  "gw_timelines (close_session s g) = gw_timelines g" "gw_metrics (close_session s g) = gw_metrics g"
  by (simp_all add: close_session_def Let_def split: prod.split option.split)

lemma close_session_table:
  "map_of (sm_sessions (gw_sessions (close_session s g))) s = None"
  "t \<noteq> s \<Longrightarrow> map_of (sm_sessions (gw_sessions (close_session s g))) t = map_of (sm_sessions (gw_sessions g)) t"
  by (auto simp: close_session_def sm_close_def Let_def split: option.split)

lemma close_session_context:
  "t \<noteq> s \<Longrightarrow> gw_objects (close_session s g) t = gw_objects g t"
  "cx_lease (gw_objects (close_session s g) t) = cx_lease (gw_objects g t)"
  "cx_lease_released (gw_objects (close_session s g) t) = cx_lease_released (gw_objects g t)"
  "gs_selected_worker_id (cx_session (gw_objects (close_session s g) t)) = gs_selected_worker_id (cx_session (gw_objects g t))"
  by (auto simp: close_session_def sm_close_def Let_def split: option.split)

text \<open>C23: releasing a session takes it out of both tables and gives its lease back exactly once: the
  worker's lease count falls by one unless \<open>finish\<close> had released the lease already, the worker is
  reported empty exactly when no other session uses it, and a second release (the sender's and the
  connection's \<open>finally\<close> both call it) changes no table, lease or flag.\<close>

theorem session_released_once:
  fixes g :: "('v, 'e) GatewayRuntime"
  assumes "s \<in> set (gw_contexts g)" and "lease_worker_id (cx_lease (gw_objects g s)) = w"
    and "gs_selected_worker_id (cx_session (gw_objects g s)) = w"
    and "released (cx_lease (gw_objects g s)) \<longleftrightarrow> cx_lease_released (gw_objects g s)"
    and "cx_lease_released (gw_objects g s) \<or> (\<exists>b. map_of (gw_registry g) w = Some b \<and> 0 < active_leases b)"
    and "map_of (gw_worker_empty g) w \<noteq> None"
  shows "\<exists>h k. release_session s g = (Inr (), h) \<and> release_session s h = (Inr (), k) \<and>
     gw_contexts h = filter (\<lambda>t. t \<noteq> s) (gw_contexts g) \<and> map_of (sm_sessions (gw_sessions h)) s = None \<and>
     lease_count (gw_registry h) = (lease_count (gw_registry g))(w :=
       lease_count (gw_registry g) w - (if cx_lease_released (gw_objects g s) then 0 else 1)) \<and>
     map_of (gw_worker_empty h) w =
       (if \<exists>t \<in> set (gw_contexts g). t \<noteq> s \<and> gs_selected_worker_id (cx_session (gw_objects g t)) = w
        then map_of (gw_worker_empty g) w else Some True) \<and>
     gw_contexts k = gw_contexts h \<and> gw_sessions k = gw_sessions h \<and> gw_registry k = gw_registry h \<and>
     gw_worker_empty k = gw_worker_empty h"
proof -
  define g1 where "g1 = close_session s (g\<lparr>gw_contexts := filter (\<lambda>t. t \<noteq> s) (gw_contexts g)\<rparr>)"
  have g1: "gw_contexts g1 = filter (\<lambda>t. t \<noteq> s) (gw_contexts g)" "gw_registry g1 = gw_registry g"
    "gw_worker_empty g1 = gw_worker_empty g" "cx_lease (gw_objects g1 s) = cx_lease (gw_objects g s)"
    "cx_lease_released (gw_objects g1 s) = cx_lease_released (gw_objects g s)"
    "gs_selected_worker_id (cx_session (gw_objects g1 t)) = gs_selected_worker_id (cx_session (gw_objects g t))"
    "map_of (sm_sessions (gw_sessions g1)) s = None" for t
    by (simp_all add: g1_def close_session_context close_session_table)
  obtain g2 where g2: "only_if (\<not> cx_lease_released (gw_objects g1 s))
        (py_seq (release_lease s) (cx_set s (\<lambda>c. c\<lparr>cx_lease_released := True\<rparr>))) g1 = (Inr (), g2)"
    and same: "gw_contexts g2 = gw_contexts g1" "gw_sessions g2 = gw_sessions g1" "gw_worker_empty g2 = gw_worker_empty g1"
      "\<And>t. cx_session (gw_objects g2 t) = cx_session (gw_objects g1 t)"
    and leases: "lease_count (gw_registry g2) = (lease_count (gw_registry g))(w :=
       lease_count (gw_registry g) w - (if cx_lease_released (gw_objects g s) then 0 else 1))"
  proof (cases "cx_lease_released (gw_objects g s)")
    case True
    then show ?thesis using that [of g1] by (simp add: g1)
  next
    case False
    have held: "released (cx_lease (gw_objects g s)) \<or>
        (\<exists>b. map_of (gw_registry g) (lease_worker_id (cx_lease (gw_objects g s))) = Some b \<and> 0 < active_leases b)"
      using assms(2,5) False by simp
    obtain l r where l: "lease_release (gw_registry g) (cx_lease (gw_objects g s)) = (None, l, r)"
      "lease_count r = (lease_count (gw_registry g))(w := lease_count (gw_registry g) w - 1)"
      by (rule lease_release_count [OF held]) (use assms(2,4) False in simp)
    have "release_lease s g1 = (Inr (), (ctx_upd s (\<lambda>c. c\<lparr>cx_lease := l\<rparr>) g1)\<lparr>gw_registry := r\<rparr>)"
      by (simp add: release_lease_def g1 l(1))
    then show ?thesis using False l(2)
      by (intro that [of "ctx_upd s (\<lambda>c. c\<lparr>cx_lease_released := True\<rparr>) ((ctx_upd s (\<lambda>c. c\<lparr>cx_lease := l\<rparr>) g1)\<lparr>gw_registry := r\<rparr>)"])
        (simp_all add: g1 py_seq_def py_bind_def cx_set_apply)
  qed
  define others where "others = (\<exists>t \<in> set (gw_contexts g). t \<noteq> s \<and> gs_selected_worker_id (cx_session (gw_objects g t)) = w)"
  have busy: "serves_worker g2 w = others"
    by (auto simp: serves_worker_def list_ex_iff same g1 others_def)
  have w: "gs_selected_worker_id (cx_session (gw_objects g2 s)) = w" using assms(3) by (simp add: same g1)
  obtain g3 where g3: "only_if (\<not> serves_worker g2 w) (set_worker_empty w True) g2 = (Inr (), g3)"
    "gw_contexts g3 = gw_contexts g2" "gw_sessions g3 = gw_sessions g2" "gw_registry g3 = gw_registry g2"
    "map_of (gw_worker_empty g3) w = (if others then map_of (gw_worker_empty g) w else Some True)"
  proof (cases others)
    case True
    then show ?thesis using that [of g2] busy by (simp add: same g1)
  next
    case False
    then show ?thesis using that [of "g2\<lparr>gw_worker_empty := AList.update w True (gw_worker_empty g2)\<rparr>"] busy assms(6)
      by (simp add: set_worker_empty_def same g1)
  qed
  obtain h where h: "update_gauges g3 = (Inr (), h)" "gw_contexts h = gw_contexts g3" "gw_sessions h = gw_sessions g3"
    "gw_registry h = gw_registry g3" "gw_worker_empty h = gw_worker_empty g3" using update_gauges_ok [of g3] by blast
  have first: "release_session s g = (Inr (), h)"
    using assms(1) g2 g3(1) h(1)
    by (simp add: release_session_def has_ctx_def g1_def [symmetric] py_seq_def py_bind_def py_modify_def w cx_get_def py_read_def)
  have gone: "s \<notin> set (gw_contexts h)" "map_of (sm_sessions (gw_sessions h)) s = None"
    by (simp_all add: h g3 same g1)
  define h1 where "h1 = close_session s (h\<lparr>gw_contexts := filter (\<lambda>t. t \<noteq> s) (gw_contexts h)\<rparr>)"
  have unchanged: "filter (\<lambda>t. t \<noteq> s) (gw_contexts h) = gw_contexts h" by (rule filter_True) (use gone(1) in auto)
  have h1: "gw_contexts h1 = gw_contexts h" "gw_sessions h1 = gw_sessions h" "gw_registry h1 = gw_registry h" "gw_worker_empty h1 = gw_worker_empty h"
    using gone(2) unchanged by (simp_all add: h1_def close_session_def Let_def sm_close_def)
  obtain k where k: "update_gauges h1 = (Inr (), k)" "gw_contexts k = gw_contexts h1" "gw_sessions k = gw_sessions h1"
    "gw_registry k = gw_registry h1" "gw_worker_empty k = gw_worker_empty h1" using update_gauges_ok [of h1] by blast
  have second: "release_session s h = (Inr (), k)"
    using gone k(1) by (simp add: release_session_def has_ctx_read h1_def [symmetric])
  show ?thesis
    using first second by (intro exI [of _ h] exI [of _ k]) (simp add: h g3 same g1 leases k h1 others_def)
qed

theorem session_released_once_witness:
  "\<exists>h k. release_session ''s'' example_gateway = (Inr (), h) \<and> release_session ''s'' h = (Inr (), k) \<and>
     gw_contexts h = [] \<and> lease_count (gw_registry h) ''local'' = 0 \<and> map_of (gw_worker_empty h) ''local'' = Some True \<and>
     gw_registry k = gw_registry h"
proof -
  have reg: "map_of (gw_registry example_gateway) ''local'' = Some ((backend_snapshot example_caps)\<lparr>lifecycle := READY, active_leases := 1\<rparr>)"
    "map_of (gw_worker_empty example_gateway) ''local'' = Some False" by (simp_all add: example_gateway_def)
  show ?thesis
    using session_released_once [of "''s''" example_gateway "''local''"] reg lease_count_Some [OF reg(1)] by auto
qed

section \<open>Opening a session\<close>

text \<open>The runtime when the adapter is asked for a session: the lease is taken and the worker is in use.\<close>

definition leased :: "string \<Rightarrow> registry \<Rightarrow> ('v, 'e) GatewayRuntime \<Rightarrow> ('v, 'e) GatewayRuntime" where
  "leased w r g = g\<lparr>gw_registry := r, gw_worker_empty := AList.update w False (gw_worker_empty g)\<rparr>"

abbreviation wanted :: "('v, 'e) gateway_env \<Rightarrow> ustr \<Rightarrow> (ustr, json) dict \<Rightarrow> ('v, 'e) GatewayRuntime \<Rightarrow> route" where
  "wanted E language options g \<equiv> session_route E (gw_settings g) language options"

lemma open_session_leased:
  fixes E :: "('v, 'e) gateway_env"
  assumes "registry_acquire (gw_registry g) (wanted E language options g) = Inr (w, r)"
    and "map_of (gw_worker_empty g) w \<noteq> None" and "map_of (sc_adapters (gw_scheduler g)) w = Some caps"
  shows "gateway_open_session E s language options g =
     py_bind (except_exception (create_session E w s language options)
         (\<lambda>e. py_seq (release_unowned \<lparr>lease_worker_id = w, released = False\<rparr>) (py_seq (set_worker_empty w True) (py_raise e)))) (\<lambda>session.
     py_bind (gw_capabilities w) (\<lambda>caps.
     py_bind (if vad_mode caps = VAD_GATEWAY then py_bind (on_backend (ge_vad_factory E)) (\<lambda>d. py_return (Some d))
              else py_return None) (\<lambda>vad.
     py_bind read_clock (\<lambda>now.
     py_seq (py_modify (add_context s (new_context session \<lparr>lease_worker_id = w, released = False\<rparr>
         (result_mode caps = REPLACEABLE_SEGMENT) vad now))) update_gauges)))) (leased w r g)"
  using assms
  by (cases "map_of (gw_worker_empty g) w") (simp_all add: gateway_open_session_def leased_def Let_def py_seq_def py_bind_def on_registry_def raising_def set_worker_empty_def
      gw_capabilities_def py_read_def py_return_def)


text \<open>C35: an opening that fails after the session was created leaks: if the VAD detector cannot be built
  (the model file is missing or does not match its checksum), the client gets the error, but the
  session stays in the session table, the worker's lease stays taken, and as no context exists
  the connection's final \<open>abort\<close> releases nothing.\<close>

theorem failed_vad_leaks_session:
  fixes E :: "('v, 'e) gateway_env"
  assumes acquired: "registry_acquire (gw_registry g) (wanted E language options g) = Inr (w, r)"
    and known: "map_of (gw_worker_empty g) w \<noteq> None" "map_of (sc_adapters (gw_scheduler g)) w = Some caps"
    and gateway_vad: "vad_mode caps = VAD_GATEWAY"
    and created: "create_session E w s language options (leased w r g) = (Inr x, (leased w r g)\<lparr>gw_sessions := m\<rparr>)"
    and broken: "ge_vad_factory E (gw_world g) = (Inl e, world)" and fresh: "s \<notin> set (gw_contexts g)"
  shows "\<exists>h. gateway_open_session E s language options g = (Inl e, h) \<and> gw_sessions h = m \<and> gw_registry h = r \<and>
     gateway_abort E s h = (Inr (), h)"
proof -
  have "gateway_open_session E s language options g = (Inl e, (leased w r g)\<lparr>gw_sessions := m, gw_world := world\<rparr>)"
    unfolding open_session_leased [OF acquired known]
    using created known(2) gateway_vad broken
    by (simp add: py_bind_def except_exception_def py_except_def gw_capabilities_def on_backend_def leased_def)
  moreover have "gateway_abort E s ((leased w r g)\<lparr>gw_sessions := m, gw_world := world\<rparr>) =
      (Inr (), (leased w r g)\<lparr>gw_sessions := m, gw_world := world\<rparr>)"
    using fresh by (simp add: gateway_abort_def has_ctx_read leased_def)
  moreover have "gw_registry ((leased w r g)\<lparr>gw_sessions := m, gw_world := world\<rparr>) = r" by (simp add: leased_def)
  ultimately show ?thesis by simp
qed

section \<open>Openings that fail\<close>

definition refusing_env :: "(int, unit) gateway_env" where
  "refusing_env = example_env\<lparr>ge_open_session := (\<lambda>_ _ _ _. py_raise (RuntimeError ''no capacity''))\<rparr>"

definition broken_vad_env :: "(int, unit) gateway_env" where
  "broken_vad_env = example_env\<lparr>ge_vad_factory := py_raise (RuntimeError ''checksum'')\<rparr>"

lemma example_registry:
  "gw_registry example_gateway = [(''local'', (backend_snapshot example_caps)\<lparr>lifecycle := READY, active_leases := 1\<rparr>)]"
  "map_of (gw_worker_empty example_gateway) ''local'' \<noteq> None"
  "map_of (sc_adapters (gw_scheduler example_gateway)) ''local'' = Some example_caps"
  "gw_settings example_gateway = example_settings\<lparr>asr_backend := BackendMock\<rparr>"
  "gw_sessions example_gateway = \<lparr>sm_max_sessions = 2, sm_sessions = [(''s'', example_gateway_session)]\<rparr>"
  by (simp_all add: example_gateway_def scheduler_init_def)

lemma example_acquire:
  "registry_acquire (gw_registry example_gateway) (session_route E (gw_settings example_gateway) (lit ''auto'') []) =
     Inr (''local'', [(''local'', (backend_snapshot example_caps)\<lparr>lifecycle := READY, active_leases := 2\<rparr>)])"
  by (simp add: example_registry registry_acquire_def session_route_def route_matches_def accepting_def backend_snapshot_def example_caps_def
      example_settings_def required_streaming_mode_def json_get_def json_str_def)


theorem failed_vad_leaks_session_witness:
  "\<exists>h. gateway_open_session broken_vad_env ''t'' (lit ''auto'') [] example_gateway = (Inl (RuntimeError ''checksum''), h) \<and>
     map_of (sm_sessions (gw_sessions h)) ''t'' \<noteq> None \<and> lease_count (gw_registry h) ''local'' = 2 \<and>
     gateway_abort broken_vad_env ''t'' h = (Inr (), h)"
proof -
  define r where "r = [(''local'', (backend_snapshot example_caps)\<lparr>lifecycle := READY, active_leases := 2\<rparr>)]"
  have "\<exists>x m. sm_create (gw_sessions example_gateway) ''t'' (gs_init ''t'' ''local'' ''b'' 16000 64000 (lit ''auto'') []) = Inr (x, m) \<and>
      map_of (sm_sessions m) ''t'' \<noteq> None"
    by (simp add: sm_create_def example_registry gs_init_def rb_init_def bind_result_def)
  then obtain x m where xm: "sm_create (gw_sessions example_gateway) ''t''
      (gs_init ''t'' ''local'' ''b'' 16000 64000 (lit ''auto'') []) = Inr (x, m)" "map_of (sm_sessions m) ''t'' \<noteq> None" by blast
  have limit: "py_round (asr_gateway_max_session_buffer_seconds (gw_settings example_gateway) * 16000) = 64000"
    by (simp add: example_registry example_settings_def py_round_def)
  have created: "create_session broken_vad_env ''local'' ''t'' (lit ''auto'') [] (leased ''local'' r example_gateway) =
      (Inr x, (leased ''local'' r example_gateway)\<lparr>gw_sessions := m\<rparr>)"
    using xm(1) limit by (simp add: create_session_def broken_vad_env_def example_env_def py_bind_def leased_def)
  have "vad_mode example_caps = VAD_GATEWAY" by (simp add: example_caps_def)
  moreover have "ge_vad_factory broken_vad_env (gw_world example_gateway) = (Inl (RuntimeError ''checksum''), gw_world example_gateway)"
    by (simp add: broken_vad_env_def)
  ultimately show ?thesis
    using failed_vad_leaks_session [OF example_acquire [folded r_def] example_registry(2,3) _ created] xm(2)
    by (fastforce simp: r_def lease_count_def)
qed

end
