(* ===== verification/RollingAdapters.thy ===== *)
theory RollingAdapters
  imports Scheduler Sentences LocalAdapter
begin

text \<open>
  What the two batch adapters, \<open>asr_faster_whisper.py\<close> and \<open>asr_sensevoice.py\<close>, have in common: the
  session table, the checks a batch of jobs has to pass before any audio is taken over, and the
  grouping of its items into engine calls. A session object lives on after it left the table (a
  running call still holds it), so the objects are a heap and the table maps session ids to
  references. Suspensions of the coroutines (the engine lock, the engine's thread) are methods over
  the adapter: they contain whatever the other tasks do meanwhile.
\<close>

section \<open>State\<close>

record rolling_session =
  rs_backend_session_id :: string
  rs_language :: "ustr option"
  rs_pcm :: pcm

text \<open>\<open>rd_loaded\<close>: the engine exists.\<close>

record 's rolling_adapter =
  rd_loaded :: bool
  rd_sessions :: "(string, nat) dict"
  rd_objects :: "'s list"
  rd_ready :: bool
  rd_max_segment_samples :: int
  rd_capabilities :: BackendCapabilities

abbreviation deref :: "('s, 'z) rolling_adapter_scheme \<Rightarrow> nat \<Rightarrow> 's" where
  "deref a i \<equiv> rd_objects a ! i"

definition assign :: "nat \<Rightarrow> ('s \<Rightarrow> 's) \<Rightarrow> ('s, 'z) rolling_adapter_scheme \<Rightarrow> ('s, 'z) rolling_adapter_scheme" where
  "assign i f a = a\<lparr>rd_objects := (rd_objects a)[i := f (deref a i)]\<rparr>"

definition held_samples :: "'x rolling_session_scheme \<Rightarrow> int" where
  "held_samples s = int (length (rs_pcm s)) div 2"

record engine_observation =
  eo_group_size :: nat
  eo_group_ordinal :: nat
  eo_group_count :: nat
  eo_elapsed_seconds :: seconds
  eo_final :: bool
  eo_accumulated_audio_seconds :: seconds
  eo_output_characters :: nat
  eo_maximum_character_run :: nat

text \<open>The adapter's surroundings. The two observers are absent until they are set. \<open>'q\<close> is what the
  engine is asked besides the audio and \<open>'i\<close> one item of its answer; with the answer comes the
  measured time of the call.\<close>

record ('a, 'q, 'i) rolling_env =
  ev_sha256_hex :: "byte list \<Rightarrow> string"
  ev_verify_manifest :: "('a, unit) py_method option"
  ev_engine_factory :: "unit result"
  ev_engine_close :: "('a, unit) py_method"
  ev_capacity_observer :: "(string \<Rightarrow> ('a, unit) py_method) option"
  ev_engine_observer :: "(engine_observation \<Rightarrow> ('a, unit) py_method) option"
  ev_engine_lock :: "('a, unit) py_method"
  ev_transcribe :: "rat list list \<Rightarrow> 'q \<Rightarrow> ('a, 'i list \<times> seconds) py_method"

definition notify :: "('b \<Rightarrow> ('a, unit) py_method) option \<Rightarrow> 'b \<Rightarrow> ('a, unit) py_method" where
  "notify observer x = (case observer of None \<Rightarrow> py_return () | Some f \<Rightarrow> f x)"

section \<open>Audio\<close>

text \<open>\<open>np.frombuffer(pcm, dtype="<i2").astype(np.float32) / 32768.0\<close>; the quotients are exact.\<close>

definition pcm_to_float32 :: "pcm \<Rightarrow> rat list result" where
  "pcm_to_float32 p =
     (if odd (length p) then Inl (ValueError ''buffer size must be a multiple of element size'')
      else Inr (map (\<lambda>x. rat_of_int x / 32768) (pcm_samples p)))"

fun all_results :: "'a result list \<Rightarrow> 'a list result" where
  "all_results [] = Inr []"
| "all_results (r # rs) = bind_result r (\<lambda>x. bind_result (all_results rs) (\<lambda>xs. Inr (x # xs)))"

definition audio_seconds :: "rat list \<Rightarrow> seconds" where
  "audio_seconds waveform = of_nat (length waveform) / 16000"

section \<open>Sessions\<close>

definition find_session :: "string \<Rightarrow> (('s, 'z) rolling_adapter_scheme, nat) py_method" where
  "find_session sid = (\<lambda>a. case map_of (rd_sessions a) sid of
     None \<Rightarrow> (Inl (KeyError ''stale session''), a) | Some i \<Rightarrow> (Inr i, a))"

definition need_ready :: "string \<Rightarrow> (('s, 'z) rolling_adapter_scheme, unit) py_method" where
  "need_ready msg = (\<lambda>a.
     if \<not> rd_ready a \<or> \<not> rd_loaded a then (Inl (RuntimeError msg), a) else (Inr (), a))"

text \<open>A new session object, bound to its id.\<close>

definition bind_session :: "string \<Rightarrow> 's \<Rightarrow> ('s, 'z) rolling_adapter_scheme \<Rightarrow> ('s, 'z) rolling_adapter_scheme" where
  "bind_session sid s a =
     a\<lparr>rd_sessions := AList.update sid (length (rd_objects a)) (rd_sessions a),
       rd_objects := rd_objects a @ [s]\<rparr>"

definition unbind_session :: "string \<Rightarrow> ('s, 'z) rolling_adapter_scheme \<Rightarrow> ('s, 'z) rolling_adapter_scheme" where
  "unbind_session sid a = a\<lparr>rd_sessions := AList.delete sid (rd_sessions a)\<rparr>"

section \<open>Batches\<close>

text \<open>The checks of one job, in the source's order, with the session's reference as the result.\<close>

definition check_job ::
  "(string \<Rightarrow> (('x rolling_session_scheme, 'z) rolling_adapter_scheme, unit) py_method) option \<Rightarrow>
   string list \<Rightarrow> InferenceJob \<Rightarrow> (('x rolling_session_scheme, 'z) rolling_adapter_scheme, nat) py_method" where
  "check_job observer seen job =
     py_bind (find_session (ij_session_id job)) (\<lambda>i.
     py_bind (py_read (\<lambda>a. (deref a i, rd_max_segment_samples a))) (\<lambda>(s, limit).
       if rs_backend_session_id s \<noteq> ij_backend_session_id job then
         py_raise (KeyError ''stale session backend identity'')
       else if ij_session_id job \<in> set seen then
         py_raise (ValueError ''one batch cannot contain two jobs for one session'')
       else if held_samples s + ij_sample_count job > limit then
         (case capacity_buffer_error ''adapter_utterance_limit'' limit (held_samples s) (ij_sample_count job) of
            CapacityBufferError reason l c i \<Rightarrow>
              py_seq (notify observer reason) (py_raise (CapacityBufferError reason l c i))
          | e \<Rightarrow> py_raise e)
       else py_return i))"

fun check_jobs ::
  "(string \<Rightarrow> (('x rolling_session_scheme, 'z) rolling_adapter_scheme, unit) py_method) option \<Rightarrow>
   string list \<Rightarrow> InferenceJob list \<Rightarrow> (('x rolling_session_scheme, 'z) rolling_adapter_scheme, nat list) py_method" where
  "check_jobs observer seen [] = py_return []"
| "check_jobs observer seen (job # jobs) =
     py_bind (check_job observer seen job) (\<lambda>i.
     py_bind (check_jobs observer (ij_session_id job # seen) jobs) (\<lambda>states. py_return (i # states)))"

text \<open>\<open>state.pcm.extend(job.pcm)\<close> for every pair.\<close>

definition extend_pcm :: "pcm \<Rightarrow> 'x rolling_session_scheme \<Rightarrow> 'x rolling_session_scheme" where
  "extend_pcm p s = s\<lparr>rs_pcm := rs_pcm s @ p\<rparr>"

fun extend_all ::
  "(nat \<times> InferenceJob) list \<Rightarrow> ('x rolling_session_scheme, 'z) rolling_adapter_scheme \<Rightarrow>
   ('x rolling_session_scheme, 'z) rolling_adapter_scheme" where
  "extend_all [] a = a"
| "extend_all ((i, job) # rest) a = extend_all rest (assign i (extend_pcm (ij_pcm job)) a)"

text \<open>\<open>grouped.setdefault(key, []).append(index)\<close> over all items: groups in the order of their first
  item, indices in the order of the batch.\<close>

definition add_index :: "'k \<Rightarrow> nat \<Rightarrow> ('k, nat list) dict \<Rightarrow> ('k, nat list) dict" where
  "add_index k i d = AList.update k ((case map_of d k of None \<Rightarrow> [] | Some is \<Rightarrow> is) @ [i]) d"

definition group_indices :: "'k list \<Rightarrow> ('k, nat list) dict" where
  "group_indices ks = fold (\<lambda>(i, k). add_index k i) (enumerate 0 ks) []"

text \<open>\<open>for index, item in zip(indices, items): decoded[index] = item\<close>.\<close>

fun place_items :: "nat list \<Rightarrow> 'i list \<Rightarrow> 'i option list \<Rightarrow> 'i option list" where
  "place_items (k # ks) (x # xs) d = place_items ks xs (d[k := Some x])"
| "place_items _ _ d = d"

section \<open>Lifecycle\<close>

definition rolling_drain :: "(('s, 'z) rolling_adapter_scheme, unit) py_method" where
  "rolling_drain = py_modify (\<lambda>a. a\<lparr>rd_ready := False\<rparr>)"

definition rolling_close ::
  "(('s, 'z) rolling_adapter_scheme, 'q, 'i) rolling_env \<Rightarrow> (('s, 'z) rolling_adapter_scheme, unit) py_method" where
  "rolling_close E =
     py_seq (py_modify (\<lambda>a. a\<lparr>rd_ready := False, rd_sessions := []\<rparr>))
     (py_bind (py_read rd_loaded) (\<lambda>loaded.
      py_seq (if loaded then py_seq (ev_engine_close E) (py_modify (\<lambda>a. a\<lparr>rd_loaded := False\<rparr>)) else py_return ())
        (py_modify (\<lambda>a. a\<lparr>rd_capabilities := (rd_capabilities a)\<lparr>warmed := False\<rparr>\<rparr>))))"

record rolling_snapshot =
  rn_ready :: bool
  rn_accepting :: bool
  rn_active_sessions :: nat
  rn_capacity :: int
  rn_session_audio_samples :: int

definition rolling_snapshot_of :: "('x rolling_session_scheme, 'z) rolling_adapter_scheme \<Rightarrow> rolling_snapshot" where
  "rolling_snapshot_of a =
     \<lparr>rn_ready = rd_ready a, rn_accepting = rd_ready a, rn_active_sessions = length (rd_sessions a),
      rn_capacity = session_capacity (rd_capabilities a),
      rn_session_audio_samples = sum_list (map (\<lambda>(_, i). held_samples (deref a i)) (rd_sessions a))\<rparr>"

section \<open>What a batch that passes its checks satisfies\<close>

lemma assign_simps [simp]:
  "rd_sessions (assign i f a) = rd_sessions a" "rd_loaded (assign i f a) = rd_loaded a"
  "rd_ready (assign i f a) = rd_ready a" "rd_capabilities (assign i f a) = rd_capabilities a"
  "rd_max_segment_samples (assign i f a) = rd_max_segment_samples a"
  "length (rd_objects (assign i f a)) = length (rd_objects a)"
  by (simp_all add: assign_def)

lemma deref_assign: "i < length (rd_objects a) \<Longrightarrow> deref (assign j f a) i = (if i = j then f (deref a i) else deref a i)"
  by (auto simp: assign_def nth_list_update)

lemma assign_commute: "i \<noteq> j \<Longrightarrow> assign i f (assign j g a) = assign j g (assign i f a)"
  by (simp add: assign_def list_update_swap)

lemma assign_assign: "i < length (rd_objects a) \<Longrightarrow> assign i f (assign i g a) = assign i (f \<circ> g) a"
  by (simp add: assign_def)

text \<open>One job against a session table: its session is known under its backend identity and has room.\<close>

definition job_fits ::
  "('x rolling_session_scheme, 'z) rolling_adapter_scheme \<Rightarrow> nat \<Rightarrow> InferenceJob \<Rightarrow> bool" where
  "job_fits a i job \<longleftrightarrow>
     map_of (rd_sessions a) (ij_session_id job) = Some i \<and>
     rs_backend_session_id (deref a i) = ij_backend_session_id job \<and>
     held_samples (deref a i) + ij_sample_count job \<le> rd_max_segment_samples a"

lemma check_job_Inr:
  "check_job obs seen job a = (Inr i, b) \<longleftrightarrow> b = a \<and> job_fits a i job \<and> ij_session_id job \<notin> set seen"
  by (auto simp: check_job_def find_session_def py_bind_def py_read_def py_raise_def py_return_def
      py_seq_def job_fits_def not_le split: option.splits if_splits py_error.splits sum.splits prod.splits)

lemma check_jobs_Inr:
  "check_jobs obs seen jobs a = (Inr states, b) \<longleftrightarrow>
     b = a \<and> list_all2 (job_fits a) states jobs \<and> distinct (map ij_session_id jobs) \<and>
     set (map ij_session_id jobs) \<inter> set seen = {}"
proof (induction jobs arbitrary: seen states a b)
  case Nil
  then show ?case by (auto simp: py_return_def)
next
  case (Cons job jobs)
  show ?case
    unfolding check_jobs.simps py_bind_Inr check_job_Inr Cons.IH
    by (auto simp: py_return_def list_all2_Cons2)
qed

text \<open>A check that fails leaves the adapter as it is, but for what the capacity observer does.\<close>

lemma keeps_check_jobs:
  assumes "\<And>r. keeps view (notify obs r)"
  shows "keeps view (check_jobs obs seen jobs)"
proof (induction jobs arbitrary: seen)
  case Nil
  then show ?case by simp
next
  case (Cons job jobs)
  have "keeps view (find_session sid)" for sid
    by (auto simp: keeps_def find_session_def split: option.split)
  then have "keeps view (check_job obs seen job)"
    unfolding check_job_def
    by (intro keeps_bind keeps_if) (auto intro!: keeps_bind keeps_seq assms split: prod.split py_error.split)
  then show ?case
    by (auto intro!: keeps_bind Cons.IH)
qed

text \<open>The table is consistent: its references exist and no object has two ids.\<close>

definition table_ok :: "('s, 'z) rolling_adapter_scheme \<Rightarrow> bool" where
  "table_ok a \<longleftrightarrow> wf_dict (rd_sessions a) \<and>
     (\<forall>sid i. map_of (rd_sessions a) sid = Some i \<longrightarrow> i < length (rd_objects a)) \<and>
     (\<forall>sid sid' i. map_of (rd_sessions a) sid = Some i \<longrightarrow> map_of (rd_sessions a) sid' = Some i \<longrightarrow> sid = sid')"

lemma batch_refs:
  assumes "table_ok a" "list_all2 (job_fits a) states jobs" "distinct (map ij_session_id jobs)"
  shows "distinct states" "\<forall>i \<in> set states. i < length (rd_objects a)"
proof -
  have len: "length states = length jobs" using assms(2) by (rule list_all2_lengthD)
  have fits: "job_fits a (states ! k) (jobs ! k)" if "k < length states" for k
    using assms(2) that by (simp add: list_all2_conv_all_nth)
  show "\<forall>i \<in> set states. i < length (rd_objects a)"
  proof
    fix i assume "i \<in> set states"
    then obtain k where "k < length states" "i = states ! k" by (auto simp: in_set_conv_nth)
    with fits [of k] assms(1) show "i < length (rd_objects a)"
      unfolding job_fits_def table_ok_def by blast
  qed
  show "distinct states"
    unfolding distinct_conv_nth
  proof (intro allI impI)
    fix m n assume mn: "m < length states" "n < length states" "m \<noteq> n"
    have "ij_session_id (jobs ! m) \<noteq> ij_session_id (jobs ! n)"
      using assms(3) mn len by (simp add: distinct_conv_nth)
    then show "states ! m \<noteq> states ! n"
      using fits [OF mn(1)] fits [OF mn(2)] assms(1) unfolding job_fits_def table_ok_def by metis
  qed
qed

lemma deref_extend_all:
  assumes "distinct (map fst pairs)" "i < length (rd_objects a)"
  shows "deref (extend_all pairs a) i =
     (case map_of pairs i of None \<Rightarrow> deref a i | Some job \<Rightarrow> extend_pcm (ij_pcm job) (deref a i))"
  using assms
proof (induction pairs arbitrary: a)
  case (Cons p pairs)
  obtain j job where p: "p = (j, job)" by (cases p)
  have "map_of pairs j = None" using Cons.prems(1) p by (simp add: map_of_eq_None_iff)
  then show ?case
    using Cons.IH [of "assign j (extend_pcm (ij_pcm job)) a"] Cons.prems p
    by (auto simp: deref_assign split: option.split)
qed simp

lemma extend_all_simps [simp]:
  "rd_sessions (extend_all pairs a) = rd_sessions a" "rd_loaded (extend_all pairs a) = rd_loaded a"
  "rd_ready (extend_all pairs a) = rd_ready a" "rd_capabilities (extend_all pairs a) = rd_capabilities a"
  "rd_max_segment_samples (extend_all pairs a) = rd_max_segment_samples a"
  "length (rd_objects (extend_all pairs a)) = length (rd_objects a)"
  by (induction pairs a rule: extend_all.induct) simp_all

section \<open>Grouping\<close>

text \<open>The groups partition the indices by their key.\<close>

lemma add_index_lookup:
  "map_of (add_index k i d) k' = (if k' = k then Some ((case map_of d k of None \<Rightarrow> [] | Some is \<Rightarrow> is) @ [i]) else map_of d k')"
  by (simp add: add_index_def)

lemma group_indices_snoc:
  "group_indices (ks @ [k]) = add_index k (length ks) (group_indices ks)"
  by (simp add: group_indices_def enumerate_append_eq)

lemma group_indices_lookup:
  "map_of (group_indices ks) k =
     (if k \<in> set ks then Some (filter (\<lambda>i. ks ! i = k) [0..<length ks]) else None)"
proof (induction ks arbitrary: k rule: rev_induct)
  case Nil
  then show ?case by (simp add: group_indices_def)
next
  case (snoc x ks)
  have "filter (\<lambda>i. (ks @ [x]) ! i = k) [0..<length ks] = filter (\<lambda>i. ks ! i = k) [0..<length ks]"
    by (rule filter_cong) (simp_all add: nth_append)
  moreover have "k \<notin> set ks \<Longrightarrow> filter (\<lambda>i. ks ! i = k) [0..<length ks] = []"
    by (auto simp: filter_empty_conv)
  ultimately show ?case
    by (cases "x \<in> set ks") (auto simp: group_indices_snoc add_index_lookup snoc.IH)
qed

lemma wf_group_indices: "wf_dict (group_indices ks)"
proof (induction ks rule: rev_induct)
  case Nil
  then show ?case by (simp add: group_indices_def)
next
  case (snoc x ks)
  then show ?case by (simp add: group_indices_snoc add_index_def)
qed

lemma in_groups: "(k, is) \<in> set (group_indices ks) \<longleftrightarrow>
    k \<in> set ks \<and> is = filter (\<lambda>i. ks ! i = k) [0..<length ks]"
proof -
  have "(k, is) \<in> set (group_indices ks) \<longleftrightarrow> map_of (group_indices ks) k = Some is"
    using wf_group_indices [of ks] by (auto simp: wf_dict_def map_of_eq_Some_iff keys_def)
  then show ?thesis by (auto simp: group_indices_lookup)
qed

lemma group_keys: "fst ` set (group_indices ks) = set ks"
proof -
  have "fst ` set (group_indices ks) = dom (map_of (group_indices ks))"
    by (simp add: dom_map_of_conv_image_fst)
  then show ?thesis by (auto simp: group_indices_lookup dom_def split: if_splits)
qed

lemma length_place_items [simp]: "length (place_items ks xs d) = length d"
  by (induction ks xs d rule: place_items.induct) simp_all

lemma nth_place_items:
  "distinct ks \<Longrightarrow> length xs = length ks \<Longrightarrow> set ks \<subseteq> {..<length d} \<Longrightarrow> i < length d \<Longrightarrow>
   place_items ks xs d ! i = (if i \<in> set ks then map_of (zip ks xs) i else d ! i)"
proof (induction ks xs d rule: place_items.induct)
  case (1 k ks x xs d)
  then show ?case by (auto simp: nth_list_update)
qed auto

end
