(* ===== verification/FasterWhisper.thy ===== *)
theory FasterWhisper
  imports RollingAdapters
begin

text \<open>
  \<open>app/asr_faster_whisper.py\<close>: the batch adapter in front of faster-whisper. A partial job decodes
  the audio it brings and appends the text to the session's partial; a final job decodes the whole
  audio of the session. The whisper model, its feature extractor and its tokenizer are parameters.
\<close>

section \<open>The engine\<close>

record DecodedText =
  dt_text :: ustr
  dt_language :: ustr

text \<open>The generation options of a call, as the source sets them; times and thresholds are rationals.\<close>

record TranscriptionOptions =
  to_beam_size :: int
  to_best_of :: int
  to_patience :: int
  to_length_penalty :: int
  to_repetition_penalty :: int
  to_no_repeat_ngram_size :: int
  to_log_prob_threshold :: rat
  to_no_speech_threshold :: rat
  to_compression_ratio_threshold :: rat
  to_condition_on_previous_text :: bool
  to_prompt_reset_on_temperature :: rat
  to_temperatures :: "rat list"
  to_initial_prompt :: "ustr option"
  to_prefix :: "ustr option"
  to_suppress_blank :: bool
  to_suppress_tokens :: "int list"
  to_without_timestamps :: bool
  to_max_initial_timestamp :: rat
  to_word_timestamps :: bool
  to_prepend_punctuations :: ustr
  to_append_punctuations :: ustr
  to_multilingual :: bool
  to_max_new_tokens :: "int option"
  to_clip_timestamps :: "rat list"
  to_hallucination_silence_threshold :: "rat option"
  to_hotwords :: "ustr option"

text \<open>The library below the engine: the extractor's frames (each one column of features), the
  padding, the suppressed tokens of a tokenizer (named by its language), the generation for stacked
  features (an encoder output and one token list per item), language detection and decoding.\<close>

record ('f, 'enc, 'tok) whisper =
  wh_extract :: "rat list \<Rightarrow> 'f list result"
  wh_pad_or_trim :: "'f list \<Rightarrow> nat \<Rightarrow> 'f list"
  wh_suppressed_tokens :: "ustr \<Rightarrow> int list \<Rightarrow> int list"
  wh_generate :: "'f list list \<Rightarrow> ustr \<Rightarrow> TranscriptionOptions \<Rightarrow> ('enc \<times> 'tok list) result"
  wh_detect_language :: "'enc \<Rightarrow> ustr list result"
  wh_decode :: "ustr \<Rightarrow> 'tok \<Rightarrow> ustr"

definition transcription_options :: "('f, 'enc, 'tok) whisper \<Rightarrow> ustr \<Rightarrow> int \<Rightarrow> bool \<Rightarrow> TranscriptionOptions" where
  "transcription_options W tokenizer beam_size multilingual =
     \<lparr>to_beam_size = beam_size, to_best_of = 1, to_patience = 1, to_length_penalty = 1,
      to_repetition_penalty = 1, to_no_repeat_ngram_size = 3, to_log_prob_threshold = - 1,
      to_no_speech_threshold = 6 / 10, to_compression_ratio_threshold = 24 / 10,
      to_condition_on_previous_text = False, to_prompt_reset_on_temperature = 1 / 2, to_temperatures = [0],
      to_initial_prompt = None, to_prefix = None, to_suppress_blank = True,
      to_suppress_tokens = wh_suppressed_tokens W tokenizer [- 1], to_without_timestamps = True,
      to_max_initial_timestamp = 0, to_word_timestamps = False,
      to_prepend_punctuations = [34, 39, 8220, 191, 40, 91, 123, 45],
      to_append_punctuations =
        [34, 39, 46, 12290, 44, 65292, 33, 65281, 63, 65311, 58, 65306, 8221, 41, 93, 125, 12289],
      to_multilingual = multilingual, to_max_new_tokens = None, to_clip_timestamps = [],
      to_hallucination_silence_threshold = None, to_hotwords = None\<rparr>"

text \<open>\<open>feature_extractor(item)[..., :-1]\<close>, then padding to the longest.\<close>

definition stack_features :: "('f, 'enc, 'tok) whisper \<Rightarrow> rat list list \<Rightarrow> 'f list list result" where
  "stack_features W audio =
     bind_result (all_results (map (wh_extract W) audio)) (\<lambda>frames.
       let extracted = map butlast frames; batch_frames = Max (set (map length extracted))
       in Inr (map (\<lambda>item. wh_pad_or_trim W item batch_frames) extracted))"

text \<open>\<open>language or "en"\<close>, and \<open>candidates[0][0][2:-2]\<close>, the tag without its brackets.\<close>

definition tokenizer_language :: "ustr option \<Rightarrow> ustr" where
  "tokenizer_language language =
     (case language of None \<Rightarrow> lit ''en'' | Some l \<Rightarrow> if l = [] then lit ''en'' else l)"

definition strip_tag :: "ustr \<Rightarrow> ustr" where
  "strip_tag tag = drop 2 (take (length tag - 2) tag)"

definition engine_transcribe ::
  "('f, 'enc, 'tok) whisper \<Rightarrow> rat list list \<Rightarrow> ustr option \<Rightarrow> int \<Rightarrow> DecodedText list result" where
  "engine_transcribe W audio language beam_size =
     (if audio = [] then Inr []
      else bind_result (stack_features W audio) (\<lambda>features.
           bind_result (wh_generate W features (tokenizer_language language)
               (transcription_options W (tokenizer_language language) beam_size (language = None)))
             (\<lambda>(encoder_output, outputs).
           bind_result
             (case language of
                None \<Rightarrow> bind_result (wh_detect_language W encoder_output) (\<lambda>tags. Inr (map strip_tag tags))
              | Some l \<Rightarrow> Inr (replicate (length outputs) l)) (\<lambda>detected.
           Inr (map (\<lambda>(output, item_language).
               \<lparr>dt_text = py_strip (wh_decode W (tokenizer_language language) output), dt_language = item_language\<rparr>)
             (zip outputs detected))))))"

section \<open>The adapter\<close>

record fw_session = rolling_session +
  fw_partial_text :: ustr
  fw_cached_final :: "ustr option"

record FasterWhisperAdapter = "fw_session rolling_adapter" +
  fw_partial_beam_size :: int
  fw_final_beam_size :: int

type_synonym fw_env = "(FasterWhisperAdapter, ustr option \<times> int, DecodedText) rolling_env"
type_synonym 'a fw_method = "(FasterWhisperAdapter, 'a) py_method"

definition fw_init ::
  "string \<Rightarrow> ustr \<Rightarrow> ustr \<Rightarrow> string \<Rightarrow> int \<Rightarrow> int \<Rightarrow> int \<Rightarrow> int \<Rightarrow> int \<Rightarrow> FasterWhisperAdapter result" where
  "fw_init wid model revision gpu capacity batch_size partial_beam final_beam max_segment =
     bind_result (capabilities_post_init
       \<lparr>protocol_version = 1, worker_id = wid, model_id = model, model_revision = revision, gpu_id = gpu,
        languages = [lit ''auto''], tasks = [lit ''transcribe''], streaming_mode = ROLLING,
        dispatch_mode = DYNAMIC_MICROBATCH, vad_mode = VAD_GATEWAY, result_mode = REPLACEABLE_SEGMENT,
        preferred_chunk_samples = 24000, max_input_samples = max_segment, max_segment_samples = max_segment,
        max_batch_items = batch_size, max_batch_samples = max_segment * batch_size, max_in_flight = 1,
        session_capacity = capacity, retry_safe = False, warmed = False, sample_rate = 16000,
        sample_format = ''pcm_s16le'', backend_id = ''local''\<rparr>) (\<lambda>caps.
     Inr \<lparr>rd_loaded = False, rd_sessions = [], rd_objects = [], rd_ready = False,
          rd_max_segment_samples = max_segment, rd_capabilities = caps,
          fw_partial_beam_size = partial_beam, fw_final_beam_size = final_beam\<rparr>)"

definition fw_require_ready :: "unit fw_method" where
  "fw_require_ready = need_ready ''faster-whisper adapter is not ready''"

text \<open>The warm-up call of the engine decodes two seconds of a sine; only its failure matters.\<close>

definition fw_warmup :: "fw_env \<Rightarrow> rat list \<Rightarrow> unit fw_method" where
  "fw_warmup E sine =
     py_seq (case ev_verify_manifest E of None \<Rightarrow> py_return () | Some verify \<Rightarrow> verify)
     (py_bind (py_read rd_loaded) (\<lambda>loaded.
      py_seq (if loaded then py_return ()
              else case ev_engine_factory E of
                  Inl e \<Rightarrow> py_raise e | Inr _ \<Rightarrow> py_modify (\<lambda>a. a\<lparr>rd_loaded := True\<rparr>))
      (py_seq (ev_transcribe E [sine] (Some (lit ''en''), 1))
        (py_modify (\<lambda>a. a\<lparr>rd_ready := True, rd_capabilities := (rd_capabilities a)\<lparr>warmed := True\<rparr>\<rparr>)))))"

definition fw_open_session :: "string \<Rightarrow> ustr option \<Rightarrow> ustr \<Rightarrow> bool \<Rightarrow> string fw_method" where
  "fw_open_session sid language task timestamps =
     py_seq fw_require_ready
     (if task \<noteq> lit ''transcribe'' then
        py_raise (ValueError ''faster-whisper streaming only supports transcription'')
      else if timestamps then py_raise (ValueError ''faster-whisper streaming timestamps are disabled'')
      else py_bind (py_read (\<lambda>a. map_of (rd_sessions a) sid)) (\<lambda>old.
        if old \<noteq> None then py_raise (ValueError ''duplicate gateway session'')
        else py_seq (py_modify (bind_session sid
               \<lparr>rs_backend_session_id = ''fw-'' @ sid,
                rs_language = (if language = Some (lit ''auto'') then None else language), rs_pcm = [],
                fw_partial_text = [], fw_cached_final = None\<rparr>))
             (py_return (''fw-'' @ sid))))"

text \<open>\<open>_append_transcript\<close>.\<close>

definition append_transcript :: "ustr \<Rightarrow> ustr \<Rightarrow> ustr" where
  "append_transcript current incoming =
     (if current = [] then incoming
      else if incoming = [] then current
      else current @ (if last current < 128 \<and> hd incoming < 128 then lit '' '' else []) @ incoming)"

definition fw_group_key :: "FasterWhisperAdapter \<Rightarrow> nat \<times> InferenceJob \<Rightarrow> ustr option \<times> int" where
  "fw_group_key a = (\<lambda>(i, job). (rs_language (deref a i),
     if ij_final job then fw_final_beam_size a else fw_partial_beam_size a))"

text \<open>One engine call: the audio of a group's items, the call, its checks and the engine observer.\<close>

definition fw_group ::
  "fw_env \<Rightarrow> (nat \<times> InferenceJob) list \<Rightarrow> nat \<Rightarrow> nat \<Rightarrow> ustr option \<times> int \<Rightarrow> nat list \<Rightarrow>
   DecodedText option list \<Rightarrow> DecodedText option list fw_method" where
  "fw_group E pairs group_count group_ordinal key indices decoded =
     py_bind (py_read (\<lambda>a. all_results (map (\<lambda>k. let (i, job) = pairs ! k in
         pcm_to_float32 (if ij_final job then rs_pcm (deref a i) else ij_pcm job)) indices))) (\<lambda>audio.
     case audio of
       Inl e \<Rightarrow> py_raise e
     | Inr waveforms \<Rightarrow>
         py_bind (ev_transcribe E waveforms key) (\<lambda>(items, elapsed).
         if length items \<noteq> length indices then py_raise (RuntimeError ''faster-whisper result count mismatch'')
         else py_seq (notify (ev_engine_observer E)
             \<lparr>eo_group_size = length indices, eo_group_ordinal = group_ordinal, eo_group_count = group_count,
              eo_elapsed_seconds = elapsed, eo_final = list_ex (\<lambda>k. ij_final (snd (pairs ! k))) indices,
              eo_accumulated_audio_seconds = sum_list (map audio_seconds waveforms),
              eo_output_characters = sum_list (map (length \<circ> dt_text) items),
              eo_maximum_character_run = fold max (map (maximum_character_run \<circ> dt_text) items) 0\<rparr>)
           (py_return (place_items indices items decoded))))"

fun fw_groups ::
  "fw_env \<Rightarrow> (nat \<times> InferenceJob) list \<Rightarrow> nat \<Rightarrow> nat \<Rightarrow> (ustr option \<times> int, nat list) dict \<Rightarrow>
   DecodedText option list \<Rightarrow> DecodedText option list fw_method" where
  "fw_groups E pairs group_count group_ordinal [] decoded = py_return decoded"
| "fw_groups E pairs group_count group_ordinal ((key, indices) # groups) decoded =
     py_bind (fw_group E pairs group_count group_ordinal key indices decoded)
       (fw_groups E pairs group_count (group_ordinal + 1) groups)"

text \<open>The answer to one job and the session it leaves.\<close>

definition fw_answer :: "InferenceJob \<Rightarrow> DecodedText \<Rightarrow> fw_session \<Rightarrow> fw_session" where
  "fw_answer job item s =
     (let s = (if rs_language s = None then s\<lparr>rs_language := Some (dt_language item)\<rparr> else s)
      in if ij_final job then s\<lparr>fw_cached_final := Some (dt_text item)\<rparr>
         else s\<lparr>fw_partial_text := append_transcript (fw_partial_text s) (dt_text item)\<rparr>)"

definition fw_answer_text :: "InferenceJob \<Rightarrow> DecodedText \<Rightarrow> fw_session \<Rightarrow> ustr" where
  "fw_answer_text job item s =
     (if ij_final job then dt_text item else append_transcript (fw_partial_text s) (dt_text item))"

definition fw_result :: "InferenceJob \<Rightarrow> ustr \<Rightarrow> InferenceResult" where
  "fw_result job text = (from_job job [])
     \<lparr>ir_text := text, ir_tail_text := text, ir_segment_id := 1, ir_final := ij_final job, ir_error := None\<rparr>"

fun fw_results ::
  "(nat \<times> InferenceJob) list \<Rightarrow> DecodedText option list \<Rightarrow> InferenceResult list fw_method" where
  "fw_results ((i, job) # pairs) (item # items) =
     (case item of
        None \<Rightarrow> py_raise (RuntimeError ''faster-whisper omitted a batch result'')
      | Some x \<Rightarrow>
          py_bind (py_read (\<lambda>a. fw_answer_text job x (deref a i))) (\<lambda>text.
          py_seq (py_modify (assign i (fw_answer job x)))
          (py_bind (fw_results pairs items) (\<lambda>rs. py_return (fw_result job text # rs)))))"
| "fw_results _ _ = py_return []"

definition fw_submit :: "fw_env \<Rightarrow> InferenceJob list \<Rightarrow> InferenceResult list fw_method" where
  "fw_submit E jobs =
     py_seq fw_require_ready
     (py_bind (py_read (\<lambda>a. max_batch_items (rd_capabilities a))) (\<lambda>limit.
      if jobs = [] \<or> int (length jobs) > limit then
        py_raise (ValueError ''faster-whisper batch size is outside adapter limits'')
      else py_bind (check_jobs (ev_capacity_observer E) [] jobs) (\<lambda>states.
        let pairs = zip states jobs in
        py_seq (py_modify (extend_all pairs))
        (py_bind (py_read (\<lambda>a. group_indices (map (fw_group_key a) pairs))) (\<lambda>grouped.
         case stable_batch_id (ev_sha256_hex E) (map ij_job_id jobs) of
           Inl e \<Rightarrow> py_raise e
         | Inr batch_id \<Rightarrow>
             py_seq (ev_engine_lock E)
             (py_bind (fw_groups E pairs (length grouped) 1 grouped (replicate (length jobs) None))
               (fw_results pairs)))))))"

text \<open>\<open>_consume_final\<close>: the cached final text, or one more decoding of what the session holds.\<close>

definition fw_consume_final :: "fw_env \<Rightarrow> nat \<Rightarrow> ustr fw_method" where
  "fw_consume_final E i =
     py_bind (py_read (\<lambda>a. (fw_cached_final (deref a i), rs_pcm (deref a i)))) (\<lambda>(cached, held).
     py_bind
       (case cached of
          Some text \<Rightarrow> py_return text
        | None \<Rightarrow>
            if held = [] then py_return []
            else py_seq fw_require_ready (py_seq (ev_engine_lock E)
              (py_bind (py_read (\<lambda>a. (pcm_to_float32 (rs_pcm (deref a i)), rs_language (deref a i), fw_final_beam_size a)))
                (\<lambda>(audio, key). case audio of
                   Inl e \<Rightarrow> py_raise e
                 | Inr waveform \<Rightarrow> py_bind (ev_transcribe E [waveform] key) (\<lambda>(items, _).
                     case items of
                       [item] \<Rightarrow> py_seq (py_modify (assign i (\<lambda>s.
                           if rs_language s = None then s\<lparr>rs_language := Some (dt_language item)\<rparr> else s)))
                         (py_return (dt_text item))
                     | _ \<Rightarrow> py_raise (RuntimeError ''faster-whisper final result count mismatch''))))))
       (\<lambda>text. py_seq (py_modify (assign i (\<lambda>s.
            s\<lparr>rs_pcm := [], fw_partial_text := [], fw_cached_final := None\<rparr>)))
          (py_return text)))"

definition fw_adapter_result :: "string \<Rightarrow> ustr \<Rightarrow> bool \<Rightarrow> AdapterResult" where
  "fw_adapter_result b text final =
     \<lparr>ar_backend_session_id = b, ar_text = text, ar_confirmed_text = [], ar_tail_text = text,
      ar_decoded_samples = 0, ar_is_final = final, ar_error = None, ar_metadata = None\<rparr>"

definition fw_finish_segment :: "fw_env \<Rightarrow> string \<Rightarrow> AdapterResult fw_method" where
  "fw_finish_segment E sid =
     py_bind (find_session sid) (\<lambda>i.
     py_bind (fw_consume_final E i) (\<lambda>text.
     py_bind (py_read (\<lambda>a. rs_backend_session_id (deref a i))) (\<lambda>b.
       py_return (fw_adapter_result b text False))))"

definition fw_finish_session :: "fw_env \<Rightarrow> string \<Rightarrow> AdapterResult fw_method" where
  "fw_finish_session E sid =
     py_bind (find_session sid) (\<lambda>i.
     py_bind (fw_consume_final E i) (\<lambda>text.
     py_seq (py_modify (unbind_session sid))
     (py_bind (py_read (\<lambda>a. rs_backend_session_id (deref a i))) (\<lambda>b.
       py_return (fw_adapter_result b text True)))))"

definition fw_abort_session :: "string \<Rightarrow> unit fw_method" where
  "fw_abort_session sid = py_modify (unbind_session sid)"

definition fw_close :: "fw_env \<Rightarrow> unit fw_method" where
  "fw_close E = rolling_close E"

definition fw_drain :: "unit fw_method" where
  "fw_drain = rolling_drain"

definition fw_remaining_segment_samples :: "string \<Rightarrow> int fw_method" where
  "fw_remaining_segment_samples sid =
     py_bind (find_session sid) (\<lambda>i.
       py_read (\<lambda>a. max 0 (rd_max_segment_samples a - held_samples (deref a i))))"

end
