(* ===== verification/RollingSegments.thy ===== *)
theory RollingSegments
  imports RollingAdapters
begin

text \<open>
  What one task does to a batch adapter between two suspensions, as a relation, and the invariant
  every such segment keeps: the session table is consistent and no session holds more audio than a
  segment may have. An operation is a sequence of segments interleaved with those of other tasks;
  the locale \<open>segmented\<close> draws the conclusion for any set of operations.
\<close>

section \<open>Segments\<close>

definition job_pcm_ok :: "InferenceJob \<Rightarrow> bool" where
  "job_pcm_ok job \<longleftrightarrow> int (length (ij_pcm job)) = 2 * ij_sample_count job"

inductive rolling_segment ::
  "('x rolling_session_scheme, 'z) rolling_adapter_scheme \<Rightarrow>
   ('x rolling_session_scheme, 'z) rolling_adapter_scheme \<Rightarrow> bool" where
  flags: "rolling_segment a (a\<lparr>rd_ready := r, rd_loaded := l, rd_capabilities := c\<rparr>)"
| clear_table: "rolling_segment a (a\<lparr>rd_sessions := []\<rparr>)"
| open_session: "map_of (rd_sessions a) sid = None \<Longrightarrow> rs_pcm s = [] \<Longrightarrow> rolling_segment a (bind_session sid s a)"
| leave_table: "rolling_segment a (unbind_session sid a)"
| take_batch: "list_all2 (job_fits a) states jobs \<Longrightarrow> distinct (map ij_session_id jobs) \<Longrightarrow>
     list_all job_pcm_ok jobs \<Longrightarrow> rolling_segment a (extend_all (zip states jobs) a)"
| keep_audio: "(\<And>s. rs_pcm (f s) = rs_pcm s) \<Longrightarrow> rolling_segment a (assign i f a)"
| drop_audio: "(\<And>s. rs_pcm (f s) = []) \<Longrightarrow> rolling_segment a (assign i f a)"

definition segmentwise :: "(('x rolling_session_scheme, 'z) rolling_adapter_scheme, 'a) py_method \<Rightarrow> bool" where
  "segmentwise m \<longleftrightarrow> (\<forall>a. rtranclp rolling_segment a (snd (m a)))"

lemma segmentwiseD: "segmentwise m \<Longrightarrow> m a = (r, b) \<Longrightarrow> rtranclp rolling_segment a b"
  unfolding segmentwise_def by (metis snd_conv)

lemma segw_simps [simp]: "segmentwise (py_return x)" "segmentwise (py_raise e)" "segmentwise (py_read f)"
  by (simp_all add: segmentwise_def method_defs)

lemma segw_modify: "(\<And>a. rtranclp rolling_segment a (f a)) \<Longrightarrow> segmentwise (py_modify f)"
  by (simp add: segmentwise_def py_modify_def)

lemma segw_bind: "segmentwise m \<Longrightarrow> (\<And>x. segmentwise (f x)) \<Longrightarrow> segmentwise (py_bind m f)"
  unfolding segmentwise_def py_bind_def
  by (auto split: prod.split sum.split) (metis rtranclp_trans snd_conv)+

lemma segw_read: "(\<And>a. segmentwise (f (g a))) \<Longrightarrow> segmentwise (py_bind (py_read g) f)"
  by (simp add: segmentwise_def py_bind_def py_read_def)

lemma segw_seq: "segmentwise m \<Longrightarrow> segmentwise n \<Longrightarrow> segmentwise (py_seq m n)"
  unfolding py_seq_def by (rule segw_bind)

lemma segw_if: "segmentwise m \<Longrightarrow> segmentwise n \<Longrightarrow> segmentwise (if b then m else n)"
  by simp

lemma segw_notify: "(\<And>f. observer = Some f \<Longrightarrow> segmentwise (f x)) \<Longrightarrow> segmentwise (notify observer x)"
  by (simp add: notify_def split: option.split)

lemma segw_except: "segmentwise m \<Longrightarrow> (\<And>e. segmentwise (h e)) \<Longrightarrow> segmentwise (except_exception m h)"
  unfolding except_exception_def segmentwise_def py_except_def
  by (auto simp: py_raise_def split: prod.split sum.split) (metis rtranclp_trans snd_conv)+

lemmas segw_rules = segw_bind segw_seq segw_notify segw_except

lemma segw_queries: "segmentwise (find_session sid)" "segmentwise (need_ready msg)"
  by (simp_all add: segmentwise_def find_session_def need_ready_def split: option.split)

lemma segw_segment_modify: "(\<And>a. rolling_segment a (f a)) \<Longrightarrow> segmentwise (py_modify f)"
  by (rule segw_modify) (blast intro: r_into_rtranclp)

lemmas segw_table = segw_segment_modify [where f = "unbind_session sid" for sid, OF leave_table]

lemma segw_flags:
  shows "segmentwise (py_modify (\<lambda>a :: ('x rolling_session_scheme, 'z) rolling_adapter_scheme. a\<lparr>rd_ready := r\<rparr>))"
    "segmentwise (py_modify (\<lambda>a :: ('x rolling_session_scheme, 'z) rolling_adapter_scheme. a\<lparr>rd_loaded := l\<rparr>))"
    "segmentwise (py_modify (\<lambda>a :: ('x rolling_session_scheme, 'z) rolling_adapter_scheme. a\<lparr>rd_capabilities := g (rd_capabilities a)\<rparr>))"
    "segmentwise (py_modify (\<lambda>a :: ('x rolling_session_scheme, 'z) rolling_adapter_scheme. a\<lparr>rd_ready := r, rd_capabilities := g (rd_capabilities a)\<rparr>))"
proof -
  have "rolling_segment a (a\<lparr>rd_ready := r\<rparr>)" for a :: "('x rolling_session_scheme, 'z) rolling_adapter_scheme"
    using flags [where a = a and r = "r" and l = "rd_loaded a" and c = "rd_capabilities a"] by simp
  then show "segmentwise (py_modify (\<lambda>a :: ('x rolling_session_scheme, 'z) rolling_adapter_scheme. a\<lparr>rd_ready := r\<rparr>))"
    by (rule segw_segment_modify)
  have "rolling_segment a (a\<lparr>rd_loaded := l\<rparr>)" for a :: "('x rolling_session_scheme, 'z) rolling_adapter_scheme"
    using flags [where a = a and r = "rd_ready a" and l = "l" and c = "rd_capabilities a"] by simp
  then show "segmentwise (py_modify (\<lambda>a :: ('x rolling_session_scheme, 'z) rolling_adapter_scheme. a\<lparr>rd_loaded := l\<rparr>))"
    by (rule segw_segment_modify)
  have "rolling_segment a (a\<lparr>rd_capabilities := g (rd_capabilities a)\<rparr>)" for a :: "('x rolling_session_scheme, 'z) rolling_adapter_scheme"
    using flags [where a = a and r = "rd_ready a" and l = "rd_loaded a" and c = "g (rd_capabilities a)"] by simp
  then show "segmentwise (py_modify (\<lambda>a :: ('x rolling_session_scheme, 'z) rolling_adapter_scheme. a\<lparr>rd_capabilities := g (rd_capabilities a)\<rparr>))"
    by (rule segw_segment_modify)
  have "rolling_segment a (a\<lparr>rd_ready := r, rd_capabilities := g (rd_capabilities a)\<rparr>)" for a :: "('x rolling_session_scheme, 'z) rolling_adapter_scheme"
    using flags [where a = a and r = "r" and l = "rd_loaded a" and c = "g (rd_capabilities a)"] by simp
  then show "segmentwise (py_modify (\<lambda>a :: ('x rolling_session_scheme, 'z) rolling_adapter_scheme. a\<lparr>rd_ready := r, rd_capabilities := g (rd_capabilities a)\<rparr>))"
    by (rule segw_segment_modify)
qed

lemma segw_assign:
  "(\<forall>s. rs_pcm (f s) = rs_pcm s) \<or> (\<forall>s. rs_pcm (f s) = []) \<Longrightarrow> segmentwise (py_modify (assign i f))"
  by (rule segw_segment_modify) (auto intro: keep_audio drop_audio)

lemma segw_close: "segmentwise (ev_engine_close E) \<Longrightarrow> segmentwise (rolling_close E)"
proof -
  assume m: "segmentwise (ev_engine_close E)"
  have "segmentwise (py_modify (\<lambda>a :: ('x rolling_session_scheme, 'z) rolling_adapter_scheme. a\<lparr>rd_ready := False, rd_sessions := []\<rparr>))"
  proof (rule segw_modify)
    fix a :: "('x rolling_session_scheme, 'z) rolling_adapter_scheme"
    have "rolling_segment a (a\<lparr>rd_ready := False\<rparr>)"
      using flags [where a = a and r = False and l = "rd_loaded a" and c = "rd_capabilities a"] by simp
    moreover have "rolling_segment (a\<lparr>rd_ready := False\<rparr>) (a\<lparr>rd_ready := False, rd_sessions := []\<rparr>)"
      using clear_table [of "a\<lparr>rd_ready := False\<rparr>"] by simp
    ultimately show "rtranclp rolling_segment a (a\<lparr>rd_ready := False, rd_sessions := []\<rparr>)"
      by (meson r_into_rtranclp rtranclp.rtrancl_into_rtrancl)
  qed
  then show ?thesis
    unfolding rolling_close_def using m
    by (intro segw_seq segw_bind) (auto intro!: segw_seq segw_flags)
qed

text \<open>Surroundings in which the other tasks only use the adapter's own operations.\<close>

definition cooperative :: "(('x rolling_session_scheme, 'z) rolling_adapter_scheme, 'q, 'i) rolling_env \<Rightarrow> bool" where
  "cooperative E \<longleftrightarrow>
     (\<forall>verify. ev_verify_manifest E = Some verify \<longrightarrow> segmentwise verify) \<and> segmentwise (ev_engine_close E) \<and>
     (\<forall>x. segmentwise (notify (ev_capacity_observer E) x)) \<and> (\<forall>x. segmentwise (notify (ev_engine_observer E) x)) \<and>
     segmentwise (ev_engine_lock E) \<and> (\<forall>ws q. segmentwise (ev_transcribe E ws q))"

lemma cooperativeD:
  assumes "cooperative E"
  shows "segmentwise (ev_engine_close E)"
    "segmentwise (notify (ev_capacity_observer E) r)" "segmentwise (notify (ev_engine_observer E) x)"
    "segmentwise (ev_engine_lock E)" "segmentwise (ev_transcribe E ws q)"
  using assms by (simp_all add: cooperative_def)

lemma cooperative_manifest: "cooperative E \<Longrightarrow> ev_verify_manifest E = Some verify \<Longrightarrow> segmentwise verify"
  by (simp add: cooperative_def)

text \<open>A call whose value is not used.\<close>

definition discard :: "('s, 'a) py_method \<Rightarrow> ('s, unit) py_method" where
  "discard m = py_seq m (py_return ())"

lemma segw_open:
  assumes "rs_pcm s = []" "segmentwise m"
  shows "segmentwise (py_bind (py_read (\<lambda>a. map_of (rd_sessions a) sid)) (\<lambda>old.
    if old \<noteq> None then py_raise e else py_seq (py_modify (bind_session sid s)) m))"
  unfolding segmentwise_def
proof
  fix a
  show "rtranclp rolling_segment a (snd (py_bind (py_read (\<lambda>a. map_of (rd_sessions a) sid)) (\<lambda>old.
    if old \<noteq> None then py_raise e else py_seq (py_modify (bind_session sid s)) m) a))"
  proof (cases "map_of (rd_sessions a) sid")
    case None
    have "rtranclp rolling_segment (bind_session sid s a) (snd (m (bind_session sid s a)))"
      using assms(2) by (simp add: segmentwise_def)
    with None show ?thesis
      using open_session [OF None assms(1)]
      by (simp add: method_defs converse_rtranclp_into_rtranclp)
  next
    case (Some i)
    then show ?thesis by (simp add: method_defs)
  qed
qed

text \<open>A batch is taken over in the segment that has checked it.\<close>

lemma segw_check_jobs:
  assumes "\<And>x. segmentwise (notify obs x)"
  shows "segmentwise (check_jobs obs seen jobs)"
proof (induction jobs arbitrary: seen)
  case (Cons job jobs)
  have "segmentwise (check_job obs seen job)"
    unfolding check_job_def
    by (auto intro!: segw_bind segw_seq segw_queries assms split: prod.split py_error.split)
  with Cons show ?case by (auto intro!: segw_bind)
qed simp

lemma segw_take_batch:
  assumes obs: "\<And>x. segmentwise (notify obs x)" and jobs: "list_all job_pcm_ok jobs"
    and rest: "\<And>states. segmentwise (rest states)"
  shows "segmentwise (py_bind (check_jobs obs [] jobs) (\<lambda>states.
     py_seq (py_modify (extend_all (zip states jobs))) (rest states)))"
  unfolding segmentwise_def
proof
  fix a
  obtain r b where c: "check_jobs obs [] jobs a = (r, b)" by (cases "check_jobs obs [] jobs a")
  show "rtranclp rolling_segment a (snd (py_bind (check_jobs obs [] jobs) (\<lambda>states.
     py_seq (py_modify (extend_all (zip states jobs))) (rest states)) a))"
  proof (cases r)
    case (Inl e)
    then show ?thesis
      using segmentwiseD [OF segw_check_jobs [OF obs] c] c by (simp add: py_bind_def)
  next
    case (Inr states)
    then have "b = a" and "rolling_segment a (extend_all (zip states jobs) a)"
      using c jobs by (auto simp: check_jobs_Inr intro: take_batch)
    moreover have "rtranclp rolling_segment (extend_all (zip states jobs) a)
        (snd (rest states (extend_all (zip states jobs) a)))"
      using rest [of states] by (simp add: segmentwise_def)
    ultimately show ?thesis
      using c Inr by (simp add: py_bind_def py_seq_def py_modify_def converse_rtranclp_into_rtranclp)
  qed
qed

section \<open>The invariant\<close>

definition rolling_inv :: "('x rolling_session_scheme, 'z) rolling_adapter_scheme \<Rightarrow> bool" where
  "rolling_inv a \<longleftrightarrow> table_ok a \<and> 0 \<le> rd_max_segment_samples a \<and>
     (\<forall>s \<in> set (rd_objects a). even (length (rs_pcm s)) \<and> held_samples s \<le> rd_max_segment_samples a)"

lemma rolling_inv_assign:
  "rolling_inv a \<Longrightarrow> (\<And>s. s \<in> set (rd_objects a) \<Longrightarrow>
     even (length (rs_pcm (f s))) \<and> held_samples (f s) \<le> rd_max_segment_samples a) \<Longrightarrow> rolling_inv (assign i f a)"
  unfolding rolling_inv_def
  by (cases "i < length (rd_objects a)")
    (auto simp: table_ok_def assign_def set_conv_nth nth_list_update)

lemma rolling_inv_take:
  assumes "rolling_inv a" "list_all2 (job_fits a) states jobs" "distinct (map ij_session_id jobs)"
    "list_all job_pcm_ok jobs"
  shows "rolling_inv (extend_all (zip states jobs) a)"
proof -
  let ?pairs = "zip states jobs"
  have tab: "table_ok a" using assms(1) by (simp add: rolling_inv_def)
  have len: "length states = length jobs" using assms(2) by (rule list_all2_lengthD)
  have refs: "distinct (map fst ?pairs)" using batch_refs [OF tab assms(2,3)] len by simp
  have "even (length (rs_pcm (deref (extend_all ?pairs a) i))) \<and>
      held_samples (deref (extend_all ?pairs a) i) \<le> rd_max_segment_samples a"
    if i: "i < length (rd_objects a)" for i
  proof (cases "map_of ?pairs i")
    case None
    then show ?thesis
      using assms(1) i by (simp add: deref_extend_all [OF refs i] rolling_inv_def)
  next
    case (Some job)
    then have "job_fits a i job" "job_pcm_ok job"
      using assms(2,4) by (auto dest!: map_of_SomeD simp: list_all2_iff list_all_iff dest: set_zip_rightD)
    moreover from this have "even (length (ij_pcm job))" unfolding job_pcm_ok_def by presburger
    moreover have "even (length (rs_pcm (deref a i)))" using assms(1) i by (simp add: rolling_inv_def)
    ultimately show ?thesis
      by (auto simp: deref_extend_all [OF refs i] Some extend_pcm_def held_samples_def job_fits_def job_pcm_ok_def
          elim!: evenE)
  qed
  moreover have "table_ok (extend_all ?pairs a)" using tab by (simp add: table_ok_def)
  ultimately show ?thesis
    using assms(1) by (auto simp: rolling_inv_def in_set_conv_nth)
qed

lemma rolling_inv_segment: "rolling_segment a b \<Longrightarrow> rolling_inv a \<Longrightarrow> rolling_inv b"
proof (induction rule: rolling_segment.induct)
  case (open_session a sid s)
  then show ?case
    by (auto simp: rolling_inv_def table_ok_def bind_session_def held_samples_def less_SucI
        dest: less_imp_neq split: if_splits)
next
  case (take_batch a states jobs)
  then show ?case by (intro rolling_inv_take)
next
  case (keep_audio f a i)
  then show ?case by (intro rolling_inv_assign) (auto simp: rolling_inv_def held_samples_def)
next
  case (drop_audio f a i)
  then show ?case by (intro rolling_inv_assign) (auto simp: rolling_inv_def held_samples_def)
qed (auto simp: rolling_inv_def table_ok_def unbind_session_def split: if_splits)

lemma rolling_inv_segments: "rtranclp rolling_segment a b \<Longrightarrow> rolling_inv a \<Longrightarrow> rolling_inv b"
  by (induction rule: rtranclp_induct) (auto intro: rolling_inv_segment)

lemma segments_limit: "rtranclp rolling_segment a b \<Longrightarrow> rd_max_segment_samples b = rd_max_segment_samples a"
proof (induction rule: rtranclp_induct)
  case (step b c)
  from this(2) have "rd_max_segment_samples c = rd_max_segment_samples b"
    by (cases rule: rolling_segment.cases) (simp_all add: bind_session_def unbind_session_def)
  with step show ?case by simp
qed simp

section \<open>Operations\<close>

text \<open>An adapter's operations, each a sequence of segments when its surroundings allow it.\<close>

locale segmented =
  fixes call :: "'op \<Rightarrow> (('x rolling_session_scheme, 'z) rolling_adapter_scheme, unit) py_method"
    and allowed :: "'op \<Rightarrow> bool"
  assumes call_segmentwise: "allowed op \<Longrightarrow> segmentwise (call op)"
begin

lemma run_segments: "list_all allowed ops \<Longrightarrow> rtranclp rolling_segment a (fold (\<lambda>op b. snd (call op b)) ops a)"
proof (induction ops arbitrary: a)
  case (Cons op ops)
  then have "rtranclp rolling_segment a (snd (call op a))"
    using call_segmentwise by (auto simp: segmentwise_def)
  with Cons show ?case by (simp add: rtranclp_trans [OF _ Cons.IH])
qed simp

text \<open>What every session of the table satisfies after any calls.\<close>

lemma sessions_bounded:
  assumes "list_all allowed ops" "rolling_inv a"
  defines "b \<equiv> fold (\<lambda>op b. snd (call op b)) ops a"
  shows "list_all (\<lambda>(sid, i). i < length (rd_objects b) \<and> even (length (rs_pcm (deref b i))) \<and>
     held_samples (deref b i) \<le> rd_max_segment_samples a) (rd_sessions b) \<and> table_ok b"
proof -
  have seg: "rtranclp rolling_segment a b" unfolding b_def by (rule run_segments) fact
  then have inv: "rolling_inv b" using assms(2) by (rule rolling_inv_segments)
  have limit: "rd_max_segment_samples b = rd_max_segment_samples a"
    using seg by (rule segments_limit)
  have "i < length (rd_objects b) \<and> even (length (rs_pcm (deref b i))) \<and>
      held_samples (deref b i) \<le> rd_max_segment_samples a" if "(sid, i) \<in> set (rd_sessions b)" for sid i
  proof -
    have "map_of (rd_sessions b) sid = Some i"
      using that inv by (simp add: rolling_inv_def table_ok_def wf_dict_def keys_def)
    with inv have i: "i < length (rd_objects b)" unfolding rolling_inv_def table_ok_def by blast
    with inv limit show ?thesis by (simp add: rolling_inv_def)
  qed
  with inv show ?thesis
    by (auto simp: list_all_iff rolling_inv_def)
qed

end

end
