(* ===== verification/FasterWhisperSafety.thy ===== *)
theory FasterWhisperSafety
  imports FasterWhisper RollingSegments
begin

text \<open>
  What the faster-whisper adapter promises its callers: its answers are those of the jobs it was
  given, a batch is taken over as a whole or not at all, batching does not change any answer, and
  no session ever holds more audio than a segment may have.
\<close>

section \<open>Answers belong to their jobs\<close>

lemma fw_results_answers:
  "fw_results pairs decoded a = (Inr rs, b) \<Longrightarrow> length decoded = length pairs \<Longrightarrow>
   list_all2 (\<lambda>(i, job) r. \<exists>text. r = fw_result job text) pairs rs"
proof (induction pairs decoded arbitrary: rs a rule: fw_results.induct)
  case (1 i job pairs item items)
  then show ?case
    by (auto simp: py_bind_Inr py_seq_Inr py_read_def py_modify_def py_return_def py_raise_def
        split: option.splits)
qed (auto simp: py_return_def)

lemma length_fw_groups:
  "fw_groups E pairs c n gs decoded a = (Inr d, b) \<Longrightarrow> length d = length decoded"
proof (induction E pairs c n gs decoded arbitrary: a rule: fw_groups.induct)
  case (2 E pairs c n key indices gs decoded)
  from 2(2) obtain d1 a1 where d1: "fw_group E pairs c n key indices decoded a = (Inr d1, a1)"
    and rest: "fw_groups E pairs c (n + 1) gs d1 a1 = (Inr d, b)"
    by (auto simp: py_bind_Inr)
  have "length d1 = length decoded"
    using d1 by (auto simp: fw_group_def py_bind_Inr py_seq_Inr py_read_def py_return_def py_raise_def
        split: sum.splits if_splits)
  with 2(1) rest show ?case by fastforce
qed (simp add: py_return_def)

text \<open>The path of a call that returns.\<close>

lemma fw_submit_Inr:
  "fw_submit E jobs a = (Inr rs, b) \<longleftrightarrow>
     rd_ready a \<and> rd_loaded a \<and> jobs \<noteq> [] \<and> int (length jobs) \<le> max_batch_items (rd_capabilities a) \<and>
     isOk (stable_batch_id (ev_sha256_hex E) (map ij_job_id jobs)) \<and> distinct (map ij_session_id jobs) \<and>
     (\<exists>states c decoded d. list_all2 (job_fits a) states jobs \<and>
       (let pairs = zip states jobs; a' = extend_all pairs a; grouped = group_indices (map (fw_group_key a') pairs)
        in ev_engine_lock E a' = (Inr (), c) \<and>
           fw_groups E pairs (length grouped) 1 grouped (replicate (length jobs) None) c = (Inr decoded, d) \<and>
           fw_results pairs decoded d = (Inr rs, b)))"
  (is "?lhs \<longleftrightarrow> ?rhs")
proof (cases "stable_batch_id (ev_sha256_hex E) (map ij_job_id jobs)")
  case (Inl e)
  then show ?thesis
    by (auto simp: fw_submit_def py_seq_Inr py_bind_Inr py_raise_def py_read_def Let_def)
next
  case (Inr batch_id)
  then show ?thesis
    by (auto simp: fw_submit_def fw_require_ready_def need_ready_def py_seq_Inr py_bind_Inr py_read_def
        py_modify_def py_raise_def check_jobs_Inr Let_def not_less)
qed

lemma fw_result_identity: "coerce_result job (RawResult (fw_result job text)) = Inr (fw_result job text)"
  by (simp add: coerce_result_def fw_result_def from_job_def)

lemma coerce_fw_results:
  "list_all2 (\<lambda>job r. \<exists>text. r = fw_result job text) jobs rs \<Longrightarrow>
   coerce_pairs (zip jobs (map RawResult rs)) = Inr rs \<and> map ir_final rs = map ij_final jobs"
  by (induction rule: list_all2_induct) (auto simp: fw_result_identity, simp_all add: fw_result_def)

text \<open>Whatever the engine and the other tasks do, an answered batch has one successful result per
  job, in the order of the jobs and with each job's identity and final flag: the scheduler accepts
  the results as they are.\<close>

theorem fw_results_match_jobs:
  assumes "fw_submit E jobs a = (Inr results, b)"
  shows "coerce_all jobs (Inr (map RawResult results)) = Inr results \<and>
     map ir_final results = map ij_final jobs \<and> (\<forall>r \<in> set results. ir_error r = None)"
proof -
  from assms obtain states c decoded d grouped where st: "list_all2 (job_fits a) states jobs"
    and gs: "fw_groups E (zip states jobs) (length grouped) 1 grouped (replicate (length jobs) None) c = (Inr decoded, d)"
    and rs: "fw_results (zip states jobs) decoded d = (Inr results, b)"
    unfolding fw_submit_Inr Let_def by blast
  have len: "length states = length jobs" using st by (rule list_all2_lengthD)
  have all: "list_all2 (\<lambda>(i, job) r. \<exists>text. r = fw_result job text) (zip states jobs) results"
    using fw_results_answers [OF rs] length_fw_groups [OF gs] len by simp
  then have answers: "list_all2 (\<lambda>job r. \<exists>text. r = fw_result job text) jobs results"
    using len by (simp add: list_all2_conv_all_nth)
  have "ir_error r = None" if "r \<in> set results" for r
  proof -
    from that obtain k where "k < length results" "r = results ! k" by (auto simp: in_set_conv_nth)
    with answers obtain job t where "r = fw_result job t" by (auto simp: list_all2_conv_all_nth)
    then show ?thesis by (simp add: fw_result_def)
  qed
  with answers show ?thesis
    using coerce_fw_results [OF answers] by (simp add: coerce_all_def list_all2_lengthD)
qed

section \<open>Batching changes no answer\<close>

text \<open>An engine that decodes every item by itself and an adapter nobody else uses meanwhile.\<close>

definition steady :: "(rat list \<Rightarrow> ustr option \<times> int \<Rightarrow> DecodedText) \<Rightarrow> fw_env \<Rightarrow> bool" where
  "steady dec E \<longleftrightarrow>
     (\<forall>ws q a. \<exists>t. ev_transcribe E ws q a = (Inr (map (\<lambda>w. dec w q) ws, t), a)) \<and>
     (\<forall>a. ev_engine_lock E a = (Inr (), a)) \<and> (\<forall>x a. notify (ev_engine_observer E) x a = (Inr (), a))"

text \<open>The same jobs, one call each.\<close>

fun fw_submit_each :: "fw_env \<Rightarrow> InferenceJob list \<Rightarrow> InferenceResult list fw_method" where
  "fw_submit_each E [] = py_return []"
| "fw_submit_each E (job # jobs) =
     py_bind (fw_submit E [job]) (\<lambda>rs. py_bind (fw_submit_each E jobs) (\<lambda>rs'. py_return (rs @ rs')))"

definition fw_wave :: "FasterWhisperAdapter \<Rightarrow> nat \<times> InferenceJob \<Rightarrow> rat list result" where
  "fw_wave a = (\<lambda>(i, job). pcm_to_float32 (if ij_final job then rs_pcm (deref a i) else ij_pcm job))"

definition fw_item ::
  "(rat list \<Rightarrow> ustr option \<times> int \<Rightarrow> DecodedText) \<Rightarrow> FasterWhisperAdapter \<Rightarrow> nat \<times> InferenceJob \<Rightarrow> DecodedText" where
  "fw_item dec a p = dec (projr (fw_wave a p)) (fw_group_key a p)"

text \<open>The jobs of a batch served one after the other.\<close>

fun serve_all ::
  "(rat list \<Rightarrow> ustr option \<times> int \<Rightarrow> DecodedText) \<Rightarrow> (nat \<times> InferenceJob) list \<Rightarrow> FasterWhisperAdapter \<Rightarrow>
   InferenceResult list \<times> FasterWhisperAdapter" where
  "serve_all dec [] a = ([], a)"
| "serve_all dec ((i, job) # pairs) a =
     (let b = assign i (extend_pcm (ij_pcm job)) a; x = fw_item dec b (i, job);
          (rs, c) = serve_all dec pairs (assign i (fw_answer job x) b)
      in (fw_result job (fw_answer_text job x (deref b i)) # rs, c))"

lemma all_results_Inr:
  "all_results rs = Inr xs \<longleftrightarrow> list_all isOk rs \<and> xs = map projr rs"
  by (induction rs arbitrary: xs) (auto simp: bind_result_eq_Inr isOk_iff)

lemma fw_group_steady:
  assumes "steady dec E"
  shows "fw_group E pairs n m key indices decoded a = (Inr d, b) \<longleftrightarrow>
     (\<forall>k \<in> set indices. isOk (fw_wave a (pairs ! k))) \<and> b = a \<and>
     d = place_items indices (map (\<lambda>k. dec (projr (fw_wave a (pairs ! k))) key) indices) decoded"
proof -
  let ?ws = "map (\<lambda>k. fw_wave a (pairs ! k)) indices"
  have ws: "map (\<lambda>k. let (i, job) = pairs ! k in pcm_to_float32 (if ij_final job then rs_pcm (deref a i) else ij_pcm job))
      indices = ?ws"
    by (simp add: fw_wave_def Let_def)
  have ok: "list_all isOk ?ws \<longleftrightarrow> (\<forall>k \<in> set indices. isOk (fw_wave a (pairs ! k)))"
    by (simp add: list_all_iff)
  obtain t where t: "ev_transcribe E (map projr ?ws) key a = (Inr (map (\<lambda>w. dec w key) (map projr ?ws), t), a)"
    using assms unfolding steady_def by blast
  have nt: "notify (ev_engine_observer E) x a' = (Inr (), a')" for x a'
    using assms unfolding steady_def by blast
  show ?thesis
  proof (cases "all_results ?ws")
    case (Inl e)
    then have "\<not> list_all isOk ?ws"
      using all_results_Inr [of ?ws "map projr ?ws"] by auto
    then show ?thesis
      unfolding fw_group_def py_bind_Inr py_read_def ws ok [symmetric] by (simp add: Inl py_raise_def)
  next
    case (Inr xs)
    then have xs: "list_all isOk ?ws" "xs = map projr ?ws"
      by (simp_all add: all_results_Inr)
    show ?thesis
      unfolding fw_group_def py_bind_Inr py_read_def ws ok [symmetric]
      using xs t by (auto simp: Inr py_bind_def py_seq_def nt py_return_def comp_def)
  qed
qed

lemma fw_groups_steady:
  assumes "steady dec E"
  shows "fw_groups E pairs n m gs decoded a = (Inr d, b) \<longleftrightarrow>
     (\<forall>(key, indices) \<in> set gs. \<forall>k \<in> set indices. isOk (fw_wave a (pairs ! k))) \<and> b = a \<and>
     d = fold (\<lambda>(key, indices). place_items indices (map (\<lambda>k. dec (projr (fw_wave a (pairs ! k))) key) indices)) gs decoded"
proof (induction gs arbitrary: m decoded)
  case Nil
  then show ?case by (auto simp: py_return_def)
next
  case (Cons g gs)
  obtain key indices where g: "g = (key, indices)" by (cases g)
  show ?case
    unfolding g fw_groups.simps py_bind_Inr fw_group_steady [OF assms]
    using Cons.IH by auto
qed

text \<open>Every item gets the decoding of its own audio under its own key.\<close>

lemma nth_fold_groups:
  assumes "distinct (map fst gs)" "\<forall>(key, is) \<in> set gs. is = filter (\<lambda>i. ks ! i = key) [0..<n]"
    "length decoded = n" "i < n"
  shows "fold (\<lambda>(key, is). place_items is (map (\<lambda>k. f k key) is)) gs decoded ! i =
     (if ks ! i \<in> fst ` set gs then Some (f i (ks ! i)) else decoded ! i)"
  using assms(1-3)
proof (induction gs arbitrary: decoded)
  case (Cons g gs)
  obtain key js where g: "g = (key, js)" by (cases g)
  with Cons.prems have js: "js = filter (\<lambda>i. ks ! i = key) [0..<n]" by auto
  let ?d = "place_items js (map (\<lambda>k. f k key) js) decoded"
  have "?d ! i = (if i \<in> set js then map_of (zip js (map (\<lambda>k. f k key) js)) i else decoded ! i)"
    by (rule nth_place_items) (use js Cons.prems(3) assms(4) in auto)
  also have "\<dots> = (if ks ! i = key then Some (f i key) else decoded ! i)"
    using js assms(4) by (auto simp: map_of_zip_map)
  finally have d: "?d ! i = (if ks ! i = key then Some (f i key) else decoded ! i)" .
  have "fold (\<lambda>(key, is). place_items is (map (\<lambda>k. f k key) is)) gs ?d ! i =
      (if ks ! i \<in> fst ` set gs then Some (f i (ks ! i)) else ?d ! i)"
    by (rule Cons.IH) (use Cons.prems g in auto)
  with d g Cons.prems(1) show ?case by auto
qed simp

lemma fw_groups_all:
  assumes "steady dec E" and n: "n = length pairs"
  shows "fw_groups E pairs l m (group_indices (map (fw_group_key a) pairs)) (replicate n None) a = (Inr d, b) \<longleftrightarrow>
     list_all (isOk \<circ> fw_wave a) pairs \<and> b = a \<and> d = map (Some \<circ> fw_item dec a) pairs"
proof -
  let ?ks = "map (fw_group_key a) pairs"
  let ?gs = "group_indices ?ks"
  let ?f = "\<lambda>k key. dec (projr (fw_wave a (pairs ! k))) key"
  let ?d = "fold (\<lambda>(key, indices). place_items indices (map (\<lambda>k. ?f k key) indices)) ?gs (replicate n None)"
  have "length (fold (\<lambda>(key, indices). place_items indices (map (\<lambda>k. ?f k key) indices)) gs e) = length e" for gs e
    by (induction gs arbitrary: e) auto
  then have len: "length ?d = n" by simp
  have keys: "fst ` set ?gs = set ?ks"
    by (rule group_keys)
  have "?d ! i = Some (fw_item dec a (pairs ! i))" if i: "i < n" for i
  proof -
    have "?d ! i = (if ?ks ! i \<in> fst ` set ?gs then Some (?f i (?ks ! i)) else replicate n None ! i)"
    proof (rule nth_fold_groups [where n = n])
      show "distinct (map fst ?gs)" using wf_group_indices [of ?ks] by (simp add: wf_dict_def keys_def)
      show "\<forall>(key, is) \<in> set ?gs. is = filter (\<lambda>i. ?ks ! i = key) [0..<n]"
        using n by (auto simp: in_groups)
    qed (use i in simp_all)
    moreover have "?ks ! i \<in> fst ` set ?gs"
      unfolding keys using i n by auto
    ultimately show ?thesis
      using i n by (simp add: fw_item_def)
  qed
  then have d: "?d = map (Some \<circ> fw_item dec a) pairs"
    by (intro nth_equalityI) (use len n in simp_all)
  have "(\<forall>(key, indices) \<in> set ?gs. \<forall>k \<in> set indices. isOk (fw_wave a (pairs ! k))) \<longleftrightarrow>
      list_all (isOk \<circ> fw_wave a) pairs"
  proof
    assume all: "\<forall>(key, indices) \<in> set ?gs. \<forall>k \<in> set indices. isOk (fw_wave a (pairs ! k))"
    have "isOk (fw_wave a (pairs ! i))" if "i < length pairs" for i
    proof -
      have "(?ks ! i, filter (\<lambda>k. ?ks ! k = ?ks ! i) [0..<length ?ks]) \<in> set ?gs"
        unfolding in_groups using that by (metis length_map nth_mem)
      with all that show ?thesis by fastforce
    qed
    then show "list_all (isOk \<circ> fw_wave a) pairs" by (simp add: list_all_length)
  qed (auto simp: in_groups list_all_length)
  with d show ?thesis
    unfolding fw_groups_steady [OF assms(1)] by simp
qed

text \<open>The batch, served as a whole.\<close>

lemma fw_group_key_cong:
  assumes "deref a i = deref b i" "fw_final_beam_size a = fw_final_beam_size b"
    "fw_partial_beam_size a = fw_partial_beam_size b"
  shows "fw_group_key a (i, job) = fw_group_key b (i, job)"
    and "fw_wave a (i, job) = fw_wave b (i, job)" and "fw_item dec a (i, job) = fw_item dec b (i, job)"
  using assms by (simp_all add: fw_group_key_def fw_wave_def fw_item_def)

lemma beams [simp]:
  "fw_final_beam_size (assign i f a) = fw_final_beam_size a"
  "fw_partial_beam_size (assign i f a) = fw_partial_beam_size a"
  "fw_final_beam_size (extend_all pairs a) = fw_final_beam_size a"
  "fw_partial_beam_size (extend_all pairs a) = fw_partial_beam_size a"
  by (simp_all add: assign_def) (induction pairs a rule: extend_all.induct; simp add: assign_def)+

lemma extend_all_assign:
  "i \<notin> set (map fst pairs) \<Longrightarrow> assign i f (extend_all pairs a) = extend_all pairs (assign i f a)"
proof (induction pairs arbitrary: a)
  case (Cons p pairs)
  then show ?case by (cases p) (simp add: assign_commute)
qed simp

lemma deref_extend_others:
  "i \<notin> set (map fst pairs) \<Longrightarrow> deref (extend_all pairs a) i = deref a i"
proof (induction pairs arbitrary: a)
  case (Cons p pairs)
  obtain j job where p: "p = (j, job)" by (cases p)
  have "deref (assign j g a) i = deref a i" if "i \<noteq> j" for g
    using that by (simp add: assign_def)
  with Cons p show ?case by simp
qed simp

lemma fw_results_serve:
  assumes "distinct (map fst pairs)" "\<forall>i \<in> set (map fst pairs). i < length (rd_objects a)"
  shows "fw_results pairs (map (Some \<circ> fw_item dec (extend_all pairs a)) pairs) (extend_all pairs a) =
     (case serve_all dec pairs a of (rs, b) \<Rightarrow> (Inr rs, b))"
  using assms
proof (induction pairs arbitrary: a)
  case Nil
  then show ?case by (simp add: py_return_def)
next
  case (Cons p pairs)
  obtain i job where p: "p = (i, job)" by (cases p)
  with Cons.prems have i: "i \<notin> set (map fst pairs)" "i < length (rd_objects a)" by auto
  define b where "b = assign i (extend_pcm (ij_pcm job)) a"
  define x where "x = fw_item dec b (i, job)"
  define c where "c = assign i (fw_answer job x) b"
  have bi: "deref (extend_all pairs b) i = deref b i"
    by (rule deref_extend_others) (rule i)
  have x: "fw_item dec (extend_all pairs b) (i, job) = x"
    unfolding x_def by (rule fw_group_key_cong) (simp_all add: bi)
  have c: "assign i (fw_answer job x) (extend_all pairs b) = extend_all pairs c"
    unfolding c_def by (rule extend_all_assign) (rule i)
  have items: "map (Some \<circ> fw_item dec (extend_all pairs b)) pairs = map (Some \<circ> fw_item dec (extend_all pairs c)) pairs"
  proof (rule map_cong [OF refl])
    fix q assume q: "q \<in> set pairs"
    obtain j job' where q': "q = (j, job')" by (cases q)
    with q i have "j \<noteq> i" by force
    then have "deref (extend_all pairs b) j = deref (extend_all pairs c) j"
      unfolding c [symmetric] by (simp add: assign_def)
    then have "fw_item dec (extend_all pairs b) (j, job') = fw_item dec (extend_all pairs c) (j, job')"
      by (rule fw_group_key_cong) (simp_all add: c_def)
    then show "(Some \<circ> fw_item dec (extend_all pairs b)) q = (Some \<circ> fw_item dec (extend_all pairs c)) q"
      by (simp add: q')
  qed
  have IH: "fw_results pairs (map (Some \<circ> fw_item dec (extend_all pairs c)) pairs) (extend_all pairs c) =
     (case serve_all dec pairs c of (rs, b) \<Rightarrow> (Inr rs, b))"
    by (rule Cons.IH) (use Cons.prems p in \<open>simp_all add: c_def b_def\<close>)
  show ?case
    unfolding p
    by (simp add: b_def [symmetric] x x_def [symmetric] c_def [symmetric] items [unfolded comp_def] Let_def comp_def
        py_bind_def py_read_def py_seq_def py_modify_def py_return_def bi c IH [unfolded comp_def] split: prod.split sum.split)
qed

definition batch_ok :: "fw_env \<Rightarrow> FasterWhisperAdapter \<Rightarrow> nat list \<Rightarrow> InferenceJob list \<Rightarrow> bool" where
  "batch_ok E a states jobs \<longleftrightarrow>
     rd_ready a \<and> rd_loaded a \<and> jobs \<noteq> [] \<and> int (length jobs) \<le> max_batch_items (rd_capabilities a) \<and>
     isOk (stable_batch_id (ev_sha256_hex E) (map ij_job_id jobs)) \<and> distinct (map ij_session_id jobs) \<and>
     list_all2 (job_fits a) states jobs \<and>
     list_all (isOk \<circ> fw_wave (extend_all (zip states jobs) a)) (zip states jobs)"

lemma fw_submit_steady:
  assumes st: "steady dec E" and tab: "table_ok a"
  shows "fw_submit E jobs a = (Inr rs, b) \<longleftrightarrow>
     (\<exists>states. batch_ok E a states jobs \<and> serve_all dec (zip states jobs) a = (rs, b))"
proof -
  have eq: "(\<exists>c decoded d. ev_engine_lock E a' = (Inr (), c) \<and>
      fw_groups E pairs (length grouped) 1 grouped (replicate (length jobs) None) c = (Inr decoded, d) \<and>
      fw_results pairs decoded d = (Inr rs, b)) \<longleftrightarrow>
      list_all (isOk \<circ> fw_wave a') pairs \<and> serve_all dec pairs a = (rs, b)"
    if fits: "list_all2 (job_fits a) states jobs" and dist: "distinct (map ij_session_id jobs)"
      and p: "pairs = zip states jobs" and a': "a' = extend_all pairs a"
      and g: "grouped = group_indices (map (fw_group_key a') pairs)"
    for states pairs a' grouped
  proof -
    have len: "length states = length jobs" using fits by (rule list_all2_lengthD)
    have lock: "ev_engine_lock E a' = (Inr (), c) \<longleftrightarrow> c = a'" for c
      using st unfolding steady_def by auto
    have refs: "distinct (map fst pairs)" "\<forall>i \<in> set (map fst pairs). i < length (rd_objects a)"
      using batch_refs [OF tab fits dist] len p by simp_all
    have "length jobs = length pairs" using p len by simp
    note gr = fw_groups_all [OF st this, of _ _ a', folded g]
    show ?thesis
      using fw_results_serve [OF refs, of dec, folded a'] by (simp add: lock gr split: prod.splits)
  qed
  show ?thesis
  proof
    assume "fw_submit E jobs a = (Inr rs, b)"
    then show "\<exists>states. batch_ok E a states jobs \<and> serve_all dec (zip states jobs) a = (rs, b)"
      unfolding fw_submit_Inr batch_ok_def Let_def using eq [OF _ _ refl refl refl] by blast
  next
    assume "\<exists>states. batch_ok E a states jobs \<and> serve_all dec (zip states jobs) a = (rs, b)"
    then show "fw_submit E jobs a = (Inr rs, b)"
      unfolding fw_submit_Inr batch_ok_def Let_def using eq [OF _ _ refl refl refl] by blast
  qed
qed

lemma extend_answer_simps [simp]:
  "rs_backend_session_id (extend_pcm p s) = rs_backend_session_id s"
  "rs_backend_session_id (fw_answer job x s) = rs_backend_session_id s"
  "rs_pcm (fw_answer job x s) = rs_pcm s"
  by (simp_all add: extend_pcm_def fw_answer_def Let_def)

lemma table_ok_assign [simp]: "table_ok (assign i f a) \<longleftrightarrow> table_ok a"
  by (simp add: table_ok_def)

lemma fw_wave_others:
  assumes "i \<notin> set (map fst pairs)" "p \<in> set pairs"
  shows "fw_wave (extend_all pairs (assign i f a)) p = fw_wave (extend_all pairs a) p"
proof -
  obtain j job where p: "p = (j, job)" by (cases p)
  with assms have "j \<noteq> i" by force
  then show ?thesis
    unfolding p extend_all_assign [OF assms(1), symmetric]
    by (intro fw_group_key_cong) (simp_all add: assign_def)
qed

text \<open>The first job alone, and the remaining batch after it.\<close>

lemma batch_ok_Cons:
  assumes tab: "table_ok a" and ok: "batch_ok E a (i # states) (job # jobs)"
  shows "batch_ok E a [i] [job]"
    and "jobs \<noteq> [] \<Longrightarrow> batch_ok E (assign i (fw_answer job x) (assign i (extend_pcm (ij_pcm job)) a)) states jobs"
proof -
  let ?b = "assign i (extend_pcm (ij_pcm job)) a"
  let ?pairs = "zip states jobs"
  have fits: "list_all2 (job_fits a) (i # states) (job # jobs)" and dist: "distinct (map ij_session_id (job # jobs))"
    using ok by (simp_all add: batch_ok_def)
  have i: "i \<notin> set states" using batch_refs [OF tab fits dist] by simp
  then have ip: "i \<notin> set (map fst ?pairs)" by (auto dest: set_zip_leftD)
  have pre: "batch_preimage (ij_job_id job # map ij_job_id jobs) = Inr bytes \<Longrightarrow>
      isOk (batch_preimage [ij_job_id job]) \<and> isOk (batch_preimage (map ij_job_id jobs))" for bytes
    by (auto simp: isOk_iff batch_preimage_Cons_eq_Inr simp del: batch_preimage.simps(2))
  then have id: "isOk (stable_batch_id (ev_sha256_hex E) [ij_job_id job])"
    "jobs \<noteq> [] \<Longrightarrow> isOk (stable_batch_id (ev_sha256_hex E) (map ij_job_id jobs))"
    using ok unfolding batch_ok_def
    by (auto simp: stable_batch_id_def isOk_iff bind_result_eq_Inr simp del: batch_preimage.simps(2))
  have "fw_wave (extend_all ?pairs ?b) (i, job) = fw_wave ?b (i, job)"
    by (rule fw_group_key_cong) (simp_all add: deref_extend_others [OF ip])
  with ok id(1) show "batch_ok E a [i] [job]"
    by (auto simp: batch_ok_def)
  assume ne: "jobs \<noteq> []"
  have rest: "list_all2 (job_fits a) states jobs" using fits by simp
  have "list_all2 (job_fits (assign i (fw_answer job x) ?b)) states jobs"
  proof (rule list.rel_mono_strong [OF rest])
    fix j job' assume "j \<in> set states" "job_fits a j job'"
    moreover from this i have "j \<noteq> i" by blast
    ultimately show "job_fits (assign i (fw_answer job x) ?b) j job'"
      by (simp add: job_fits_def) (simp add: assign_def)
  qed
  moreover have "list_all (isOk \<circ> fw_wave (extend_all ?pairs (assign i (fw_answer job x) ?b))) ?pairs"
    using ok fw_wave_others [OF ip] by (auto simp: batch_ok_def list_all_iff)
  ultimately show "batch_ok E (assign i (fw_answer job x) ?b) states jobs"
    using ok id(2) ne by (auto simp: batch_ok_def)
qed

lemma submit_each_serves:
  assumes st: "steady dec E" and "table_ok a" "batch_ok E a states jobs"
  shows "fw_submit_each E jobs a = (case serve_all dec (zip states jobs) a of (rs, b) \<Rightarrow> (Inr rs, b))"
  using assms(2-3)
proof (induction jobs arbitrary: states a)
  case Nil
  then show ?case by (simp add: batch_ok_def)
next
  case (Cons job jobs)
  then obtain i states' where s: "states = i # states'"
    by (auto simp: batch_ok_def list_all2_Cons2)
  define b where "b = assign i (extend_pcm (ij_pcm job)) a"
  define x where "x = fw_item dec b (i, job)"
  define c where "c = assign i (fw_answer job x) b"
  note one = batch_ok_Cons [OF Cons.prems(1) Cons.prems(2)[unfolded s]]
  have "serve_all dec (zip [i] [job]) a = ([fw_result job (fw_answer_text job x (deref b i))], c)"
    by (simp add: b_def [symmetric] x_def [symmetric] c_def [symmetric] Let_def)
  then have head: "fw_submit E [job] a = (Inr [fw_result job (fw_answer_text job x (deref b i))], c)"
    using fw_submit_steady [OF st Cons.prems(1)] one(1) by blast
  have "fw_submit_each E jobs c = (case serve_all dec (zip states' jobs) c of (rs, b) \<Rightarrow> (Inr rs, b))"
  proof (cases "jobs = []")
    case True
    then show ?thesis by (simp add: py_return_def)
  next
    case False
    then show ?thesis
      using Cons.IH [of c states'] one(2) Cons.prems(1) by (simp add: c_def b_def)
  qed
  then show ?case
    by (simp add: s b_def [symmetric] x_def [symmetric] c_def [symmetric] Let_def py_bind_def head py_return_def
        split: prod.split)
qed

text \<open>C7: with an engine that decodes item by item, a batch that is answered gets the same results
  and leaves the same sessions as its jobs submitted one by one in the same order.\<close>

theorem fw_batching_is_transparent:
  assumes "steady dec E" and "table_ok a" and "fw_submit E jobs a = (Inr results, b)"
  shows "fw_submit_each E jobs a = (Inr results, b)"
proof -
  obtain states where "batch_ok E a states jobs" "serve_all dec (zip states jobs) a = (results, b)"
    using assms by (auto simp: fw_submit_steady)
  then show ?thesis
    using submit_each_serves [OF assms(1,2)] by simp
qed

section \<open>No session holds more than a segment\<close>

datatype fw_op =
    FwWarmup "rat list"
  | FwOpenSession string "ustr option" ustr bool
  | FwSubmit "InferenceJob list"
  | FwFinishSegment string
  | FwFinishSession string
  | FwAbortSession string
  | FwDrain
  | FwClose

text \<open>Every call may have its own surroundings.\<close>

fun fw_call :: "fw_env \<times> fw_op \<Rightarrow> unit fw_method" where
  "fw_call (E, FwWarmup sine) = fw_warmup E sine"
| "fw_call (E, FwOpenSession sid language task timestamps) = discard (fw_open_session sid language task timestamps)"
| "fw_call (E, FwSubmit jobs) = discard (fw_submit E jobs)"
| "fw_call (E, FwFinishSegment sid) = discard (fw_finish_segment E sid)"
| "fw_call (E, FwFinishSession sid) = discard (fw_finish_session E sid)"
| "fw_call (E, FwAbortSession sid) = fw_abort_session sid"
| "fw_call (E, FwDrain) = fw_drain"
| "fw_call (E, FwClose) = fw_close E"

fun fw_allowed :: "fw_env \<times> fw_op \<Rightarrow> bool" where
  "fw_allowed (E, FwSubmit jobs) \<longleftrightarrow> cooperative E \<and> list_all job_pcm_ok jobs"
| "fw_allowed (E, _) \<longleftrightarrow> cooperative E"

lemma segw_fw_groups: "cooperative E \<Longrightarrow> segmentwise (fw_groups E pairs n m gs decoded)"
proof (induction E pairs n m gs decoded rule: fw_groups.induct)
  case (2 E pairs n m key indices groups decoded)
  then show ?case
    by (auto simp: fw_group_def intro!: segw_rules cooperativeD split: sum.split prod.split)
qed simp

lemma segw_fw_results: "segmentwise (fw_results pairs items)"
proof (induction pairs items rule: fw_results.induct)
  case (1 i job pairs item items)
  then show ?case
    by (auto simp: fw_answer_def Let_def intro!: segw_rules segw_assign split: option.split)
qed simp_all

lemma segw_fw_submit: "cooperative E \<Longrightarrow> list_all job_pcm_ok jobs \<Longrightarrow> segmentwise (fw_submit E jobs)"
  unfolding fw_submit_def fw_require_ready_def Let_def
  apply (rule segw_seq [OF segw_queries(2)], rule segw_bind [OF segw_simps(3)])
  apply (simp, intro impI segw_take_batch)
    apply (auto intro!: segw_rules segw_fw_results segw_fw_groups cooperativeD split: sum.split)
  done

lemma segw_fw_consume: "cooperative E \<Longrightarrow> segmentwise (fw_consume_final E i)"
  unfolding fw_consume_final_def fw_require_ready_def
  by (auto intro!: segw_rules segw_queries segw_assign cooperativeD
      split: prod.split option.split sum.split list.split)

lemma fw_call_segmentwise: "fw_allowed op \<Longrightarrow> segmentwise (fw_call op)"
proof (induction op rule: fw_call.induct)
  case (1 E sine)
  then show ?case
    by (auto simp: fw_warmup_def intro!: segw_bind segw_seq segw_flags cooperativeD intro: cooperative_manifest
        split: option.split sum.split)
next
  case (2 E sid language task timestamps)
  have "segmentwise (fw_open_session sid language task timestamps)"
    unfolding fw_open_session_def fw_require_ready_def
    by (auto intro!: segw_seq [OF segw_queries(2)] segw_open simp del: not_None_eq)
  then show ?case by (simp add: discard_def segw_seq)
next
  case (3 E jobs)
  then show ?case by (simp add: discard_def segw_seq segw_fw_submit)
next
  case (4 E sid)
  then show ?case
    by (auto simp: discard_def fw_finish_segment_def intro!: segw_rules segw_queries segw_fw_consume)
next
  case (5 E sid)
  then show ?case
    by (auto simp: discard_def fw_finish_session_def intro!: segw_rules segw_queries segw_fw_consume segw_table)
next
  case (8 E)
  then show ?case by (simp add: fw_close_def segw_close cooperativeD)
qed (simp_all add: fw_abort_session_def fw_drain_def rolling_drain_def segw_table segw_flags)

interpretation fw: segmented fw_call fw_allowed
  by unfold_locales (rule fw_call_segmentwise)

text \<open>C39: whatever calls are made on a new adapter, and whatever other calls run during their
  suspensions, no session ever holds more audio than a segment may have, its audio is whole
  samples, and no two ids share a session.\<close>

theorem fw_session_audio_bounded:
  assumes "fw_init wid model revision gpu capacity batch_size partial_beam final_beam max_segment = Inr a"
    and "list_all fw_allowed ops"
  shows "let b = fold (\<lambda>op b. snd (fw_call op b)) ops a in
     list_all (\<lambda>(sid, i). i < length (rd_objects b) \<and> even (length (rs_pcm (deref b i))) \<and>
       held_samples (deref b i) \<le> max_segment) (rd_sessions b) \<and> table_ok b"
proof -
  have "rd_max_segment_samples a = max_segment" "rolling_inv a"
    using assms(1)
    by (auto simp: fw_init_def rolling_inv_def table_ok_def bind_result_eq_Inr capabilities_post_init_def
        split: if_splits)
  then show ?thesis
    using fw.sessions_bounded [OF assms(2), of a] by (simp add: Let_def)
qed

section \<open>All or nothing\<close>

text \<open>When the checks of a batch pass.\<close>

definition fw_accepts :: "FasterWhisperAdapter \<Rightarrow> InferenceJob list \<Rightarrow> bool" where
  "fw_accepts a jobs \<longleftrightarrow>
     rd_ready a \<and> rd_loaded a \<and> jobs \<noteq> [] \<and> int (length jobs) \<le> max_batch_items (rd_capabilities a) \<and>
     distinct (map ij_session_id jobs) \<and>
     list_all (\<lambda>job. case map_of (rd_sessions a) (ij_session_id job) of None \<Rightarrow> False | Some i \<Rightarrow> job_fits a i job) jobs"

definition session_audio :: "FasterWhisperAdapter \<Rightarrow> string \<Rightarrow> pcm option" where
  "session_audio a sid = map_option (\<lambda>i. rs_pcm (deref a i)) (map_of (rd_sessions a) sid)"

text \<open>The table and the audio of every object.\<close>

definition audio_view :: "FasterWhisperAdapter \<Rightarrow> (string, nat) dict \<times> pcm list" where
  "audio_view a = (rd_sessions a, map rs_pcm (rd_objects a))"

definition quiet :: "fw_env \<Rightarrow> bool" where
  "quiet E \<longleftrightarrow> (\<forall>x. keeps audio_view (notify (ev_capacity_observer E) x)) \<and>
     (\<forall>x. keeps audio_view (notify (ev_engine_observer E) x)) \<and> keeps audio_view (ev_engine_lock E) \<and>
     (\<forall>ws q. keeps audio_view (ev_transcribe E ws q))"

lemma keeps_audio_assign: "(\<And>s. rs_pcm (f s) = rs_pcm s) \<Longrightarrow> keeps audio_view (py_modify (assign i f))"
proof -
  assume f: "\<And>s. rs_pcm (f s) = rs_pcm s"
  have "map rs_pcm ((rd_objects a)[i := f (deref a i)]) = map rs_pcm (rd_objects a)" for a :: FasterWhisperAdapter
    by (cases "i < length (rd_objects a)")
      (auto simp: f map_update list_update_same_conv intro!: nth_equalityI)
  then show ?thesis by (simp add: audio_view_def assign_def)
qed

lemma quietD:
  assumes "quiet E"
  shows "keeps audio_view (notify (ev_capacity_observer E) r)" "keeps audio_view (notify (ev_engine_observer E) x)"
    "keeps audio_view (ev_engine_lock E)" "keeps audio_view (ev_transcribe E ws q)"
  using assms unfolding quiet_def by blast+

lemma keeps_fw_groups: "quiet E \<Longrightarrow> keeps audio_view (fw_groups E pairs n m gs decoded)"
proof (induction E pairs n m gs decoded rule: fw_groups.induct)
  case (2 E pairs n m key indices groups decoded)
  then show ?case
    by (auto simp: fw_group_def intro!: keeps_rules quietD split: sum.split prod.split)
qed simp

lemma keeps_fw_results: "keeps audio_view (fw_results pairs items)"
proof (induction pairs items rule: fw_results.induct)
  case (1 i job pairs item items)
  then show ?case
    by (auto simp: fw_answer_def Let_def intro!: keeps_rules keeps_audio_assign split: option.split)
qed simp_all

lemma accepts_iff:
  "fw_accepts a jobs \<longleftrightarrow> rd_ready a \<and> rd_loaded a \<and> jobs \<noteq> [] \<and>
     int (length jobs) \<le> max_batch_items (rd_capabilities a) \<and> distinct (map ij_session_id jobs) \<and>
     (\<exists>states. list_all2 (job_fits a) states jobs)"
proof -
  have "list_all (\<lambda>job. case map_of (rd_sessions a) (ij_session_id job) of None \<Rightarrow> False | Some i \<Rightarrow> job_fits a i job) jobs
      \<longleftrightarrow> (\<exists>states. list_all2 (job_fits a) states jobs)"
  proof (induction jobs)
    case (Cons job jobs)
    have "(case map_of (rd_sessions a) (ij_session_id job) of None \<Rightarrow> False | Some i \<Rightarrow> job_fits a i job) \<longleftrightarrow>
        (\<exists>i. job_fits a i job)"
      by (auto simp: job_fits_def split: option.split)
    with Cons show ?case by (auto simp: list_all2_Cons2)
  qed simp
  then show ?thesis by (auto simp: fw_accepts_def)
qed
lemma session_audio_view: "audio_view b = audio_view a \<Longrightarrow> table_ok a \<Longrightarrow> session_audio b sid = session_audio a sid"
proof -
  assume v: "audio_view b = audio_view a" and tab: "table_ok a"
  have "rs_pcm (deref b i) = rs_pcm (deref a i)" if "map_of (rd_sessions a) sid = Some i" for i
  proof -
    have "i < length (rd_objects a)" using tab that unfolding table_ok_def by blast
    moreover have "map rs_pcm (rd_objects b) = map rs_pcm (rd_objects a)" using v by (simp add: audio_view_def)
    ultimately show ?thesis by (metis length_map nth_map)
  qed
  moreover have "rd_sessions b = rd_sessions a" using v by (simp add: audio_view_def)
  ultimately show ?thesis
    by (cases "map_of (rd_sessions a) sid") (simp_all add: session_audio_def)
qed

lemma session_audio_extend:
  assumes tab: "table_ok a" and fits: "list_all2 (job_fits a) states jobs" and dist: "distinct (map ij_session_id jobs)"
  shows "session_audio (extend_all (zip states jobs) a) sid =
     map_option (\<lambda>p. p @ concat (map ij_pcm (filter (\<lambda>job. ij_session_id job = sid) jobs))) (session_audio a sid)"
proof (cases "map_of (rd_sessions a) sid")
  case None
  then show ?thesis by (simp add: session_audio_def)
next
  case (Some i)
  have len: "length states = length jobs" using fits by (rule list_all2_lengthD)
  have refs: "distinct (map fst (zip states jobs))" using batch_refs [OF tab fits dist] len by simp
  have i: "i < length (rd_objects a)" using tab Some unfolding table_ok_def by blast
  have same: "job_fits a j job \<Longrightarrow> ij_session_id job = sid \<longleftrightarrow> j = i" for j job
    using tab Some unfolding job_fits_def table_ok_def by (metis option.inject)
  have "concat (map ij_pcm (filter (\<lambda>job. ij_session_id job = sid) jobs)) =
      (case map_of (zip states jobs) i of None \<Rightarrow> [] | Some job \<Rightarrow> ij_pcm job)"
    using fits refs
  proof (induction rule: list_all2_induct)
    case (Cons j states job jobs)
    then have "map_of (zip states jobs) i = None" if "j = i"
      using that by (auto simp: map_of_eq_None_iff)
    with Cons same show ?case by (auto split: option.split)
  qed simp
  with Some i show ?thesis
    by (simp add: session_audio_def deref_extend_all [OF refs i] extend_pcm_def split: option.split)
qed

text \<open>C40: a batch is taken over as a whole or not at all: when its checks pass every session gets
  exactly the audio of its job, even if the engine then fails; otherwise the call raises and no
  session gets any.\<close>

theorem fw_batch_all_or_nothing:
  assumes "quiet E" and "table_ok a" and "fw_submit E jobs a = (r, b)"
  shows "session_audio b sid = map_option (\<lambda>p. p @
       (if fw_accepts a jobs then concat (map ij_pcm (filter (\<lambda>job. ij_session_id job = sid) jobs)) else []))
       (session_audio a sid) \<and> (fw_accepts a jobs \<or> \<not> isOk r)"
proof (cases "fw_accepts a jobs")
  case True
  then obtain states where fits: "list_all2 (job_fits a) states jobs" and dist: "distinct (map ij_session_id jobs)"
    by (auto simp: accepts_iff)
  let ?a = "extend_all (zip states jobs) a"
  define rest where "rest = (\<lambda>grouped. case stable_batch_id (ev_sha256_hex E) (map ij_job_id jobs) of
           Inl e \<Rightarrow> py_raise e
         | Inr batch_id \<Rightarrow>
             py_seq (ev_engine_lock E)
             (py_bind (fw_groups E (zip states jobs) (length grouped) 1 grouped (replicate (length jobs) None))
               (fw_results (zip states jobs))))"
  have "check_jobs (ev_capacity_observer E) [] jobs a = (Inr states, a)"
    using fits dist by (simp add: check_jobs_Inr)
  then have "rest (group_indices (map (fw_group_key ?a) (zip states jobs))) ?a = (r, b)"
    using assms(3) True
    by (simp add: fw_submit_def fw_require_ready_def need_ready_def py_seq_def py_bind_def py_read_def py_modify_def
        accepts_iff Let_def rest_def)
  moreover have "keeps audio_view (rest g)" for g
    unfolding rest_def using assms(1)
    by (auto intro!: keeps_rules keeps_fw_groups keeps_fw_results quietD split: sum.split)
  ultimately have "audio_view b = audio_view ?a" by (blast dest: keepsD)
  then have "session_audio b sid = session_audio ?a sid"
    by (rule session_audio_view) (use assms(2) in \<open>simp add: table_ok_def\<close>)
  with True show ?thesis
    using session_audio_extend [OF assms(2) fits dist] by simp
next
  case False
  have "audio_view b = audio_view a \<and> \<not> isOk r"
  proof (cases "rd_ready a \<and> rd_loaded a \<and> jobs \<noteq> [] \<and> int (length jobs) \<le> max_batch_items (rd_capabilities a)")
    case True
    obtain r' b' where c: "check_jobs (ev_capacity_observer E) [] jobs a = (r', b')"
      by (cases "check_jobs (ev_capacity_observer E) [] jobs a")
    have "\<not> isOk r'"
      using c False True by (auto simp: isOk_iff check_jobs_Inr accepts_iff)
    then obtain e where "r' = Inl e" by (cases r') auto
    moreover have "audio_view b' = audio_view a"
      using keepsD [OF keeps_check_jobs c] quietD(1) [OF assms(1)] by blast
    ultimately show ?thesis
      using c assms(3) True
      by - (simp add: fw_submit_def fw_require_ready_def need_ready_def py_seq_def py_bind_def py_read_def not_less [symmetric], auto)
  next
    case False
    then show ?thesis
      using assms(3)
      by (auto simp: fw_submit_def fw_require_ready_def need_ready_def py_seq_def py_bind_def py_read_def py_raise_def
          split: if_splits)
  qed
  then have "session_audio b sid = session_audio a sid" and "\<not> isOk r"
    using session_audio_view [OF _ assms(2)] by blast+
  with False show ?thesis by (simp add: option.map_ident)
qed

section \<open>Examples\<close>

text \<open>An engine that answers each item with its number of samples, and an adapter with two sessions.\<close>

definition fw_example_engine :: fw_env where
  "fw_example_engine =
     \<lparr>ev_sha256_hex = (\<lambda>_. ''00''), ev_verify_manifest = None, ev_engine_factory = Inr (),
      ev_engine_close = py_return (), ev_capacity_observer = None, ev_engine_observer = None,
      ev_engine_lock = py_return (),
      ev_transcribe = (\<lambda>ws q. py_return (map (\<lambda>w. \<lparr>dt_text = [length w], dt_language = [101, 110]\<rparr>) ws, 1))\<rparr>"

definition fw_example_sessions :: FasterWhisperAdapter where
  "fw_example_sessions =
     \<lparr>rd_loaded = True, rd_sessions = [(''a'', 0), (''b'', 1)],
      rd_objects =
        [\<lparr>rs_backend_session_id = ''fw-a'', rs_language = None, rs_pcm = [0, 0], fw_partial_text = [7],
          fw_cached_final = None\<rparr>,
         \<lparr>rs_backend_session_id = ''fw-b'', rs_language = None, rs_pcm = [0, 0, 0, 0], fw_partial_text = [],
          fw_cached_final = None\<rparr>],
      rd_ready = True, rd_max_segment_samples = 4,
      rd_capabilities =
        \<lparr>protocol_version = 1, worker_id = ''w'', model_id = [109], model_revision = [114], gpu_id = ''g'',
         languages = [[97]], tasks = [[116]], streaming_mode = ROLLING, dispatch_mode = DYNAMIC_MICROBATCH,
         vad_mode = VAD_GATEWAY, result_mode = REPLACEABLE_SEGMENT, preferred_chunk_samples = 4,
         max_input_samples = 4, max_segment_samples = 4, max_batch_items = 2, max_batch_samples = 8,
         max_in_flight = 1, session_capacity = 2, retry_safe = False, warmed = True, sample_rate = 16000,
         sample_format = ''pcm_s16le'', backend_id = ''local''\<rparr>,
      fw_partial_beam_size = 1, fw_final_beam_size = 5\<rparr>"

definition fw_example_batch_key :: BatchKey where
  "fw_example_batch_key =
     \<lparr>bk_worker_id = ''w'', bk_model_revision = [114], bk_language = [97], bk_task = [116], bk_timestamps = False,
      bk_prompt_identity = [], bk_decoding_identity = [], bk_sample_format = ''pcm_s16le'', bk_length_bucket = 0\<rparr>"

text \<open>One sample for session \<open>s\<close>.\<close>

definition fw_example_item :: "string \<Rightarrow> bool \<Rightarrow> InferenceJob" where
  "fw_example_item s final =
     \<lparr>ij_job_id = s, ij_session_id = s, ij_generation = 0, ij_job_sequence = 1, ij_worker_id = ''w'',
      ij_backend_session_id = ''fw-'' @ s, ij_start_sample = 0, ij_end_sample = 1, ij_pcm = [1, 0],
      ij_deadline = 1, ij_batch_key = fw_example_batch_key, ij_final = final, ij_enqueued_at = 0,
      ij_queue_deadline = None\<rparr>"

abbreviation fw_example_items :: "InferenceJob list" where
  "fw_example_items \<equiv> [fw_example_item ''a'' False, fw_example_item ''b'' True]"

lemma fw_example_steady: "steady (\<lambda>w q. \<lparr>dt_text = [length w], dt_language = [101, 110]\<rparr>) fw_example_engine"
  by (simp add: steady_def fw_example_engine_def py_return_def notify_def)

lemma fw_example_table: "table_ok fw_example_sessions"
  by (auto simp: table_ok_def fw_example_sessions_def wf_dict_def keys_def split: if_splits)

lemma fw_example_quiet: "quiet fw_example_engine"
  by (simp add: quiet_def fw_example_engine_def notify_def)

lemma fw_example_cooperative: "cooperative fw_example_engine"
  by (simp add: cooperative_def fw_example_engine_def notify_def)

text \<open>The partial of session \<open>a\<close> is extended by the text of one sample; session \<open>b\<close> is decoded as a whole.\<close>

lemma fw_example_batch: "batch_ok fw_example_engine fw_example_sessions [0, 1] fw_example_items"
  by (simp add: batch_ok_def fw_example_sessions_def fw_example_engine_def fw_example_item_def job_fits_def held_samples_def
      ij_sample_count_def stable_batch_id_def utf8_def utf8_char_def be32_def fw_wave_def pcm_to_float32_def
      assign_def extend_pcm_def)

lemma fw_example_answers:
  "fst (serve_all (\<lambda>w q. \<lparr>dt_text = [length w], dt_language = [101, 110]\<rparr>) (zip [0, 1] fw_example_items) fw_example_sessions) =
     [fw_result (fw_example_item ''a'' False) [7, 32, 1], fw_result (fw_example_item ''b'' True) [3]]"
  by (simp add: fw_example_sessions_def fw_example_item_def fw_item_def fw_wave_def pcm_to_float32_def
      assign_def extend_pcm_def fw_answer_def fw_answer_text_def append_transcript_def lit_def Let_def,
    simp add: numeral_3_eq_3)

abbreviation fw_example_results :: "InferenceResult list" where
  "fw_example_results \<equiv> [fw_result (fw_example_item ''a'' False) [7, 32, 1], fw_result (fw_example_item ''b'' True) [3]]"

lemma fw_example_submitted: "\<exists>b. fw_submit fw_example_engine fw_example_items fw_example_sessions = (Inr fw_example_results, b)"
proof -
  obtain rs b where "serve_all (\<lambda>w q. \<lparr>dt_text = [length w], dt_language = [101, 110]\<rparr>) (zip [0, 1] fw_example_items)
      fw_example_sessions = (rs, b)" by fastforce
  moreover from this have "rs = fw_example_results" using fw_example_answers by simp
  ultimately have "fw_submit fw_example_engine fw_example_items fw_example_sessions = (Inr fw_example_results, b)"
    using fw_submit_steady [OF fw_example_steady fw_example_table] fw_example_batch by blast
  then show ?thesis by blast
qed

theorem fw_results_match_jobs_witness:
  "coerce_all fw_example_items (Inr (map RawResult fw_example_results)) = Inr fw_example_results"
  using fw_example_submitted fw_results_match_jobs by blast

theorem fw_batching_is_transparent_witness:
  "\<exists>b. fw_submit fw_example_engine fw_example_items fw_example_sessions = (Inr fw_example_results, b) \<and>
     fw_submit_each fw_example_engine fw_example_items fw_example_sessions = (Inr fw_example_results, b)"
  using fw_example_submitted fw_batching_is_transparent [OF fw_example_steady fw_example_table] by blast

abbreviation fw_example_calls :: "(fw_env \<times> fw_op) list" where
  "fw_example_calls \<equiv>
     [(fw_example_engine, FwWarmup [0]), (fw_example_engine, FwOpenSession ''a'' None (lit ''transcribe'') False),
      (fw_example_engine, FwSubmit [fw_example_item ''a'' False]), (fw_example_engine, FwFinishSession ''a'')]"

lemma fw_example_created: "isOk (fw_init ''w'' (lit ''m'') (lit ''r'') ''g'' 2 2 1 5 30000)"
  by (simp add: fw_init_def capabilities_post_init_def blank_def py_isspace_def lit_def py_strip_def)

theorem fw_session_audio_bounded_witness:
  "let b = fold (\<lambda>op b. snd (fw_call op b)) fw_example_calls
       (projr (fw_init ''w'' (lit ''m'') (lit ''r'') ''g'' 2 2 1 5 30000)) in
     list_all (\<lambda>(sid, i). i < length (rd_objects b) \<and> even (length (rs_pcm (deref b i))) \<and>
       held_samples (deref b i) \<le> 30000) (rd_sessions b) \<and> table_ok b"
proof -
  have "list_all fw_allowed fw_example_calls"
    by (simp add: fw_example_cooperative job_pcm_ok_def fw_example_item_def ij_sample_count_def)
  moreover obtain a where a: "fw_init ''w'' (lit ''m'') (lit ''r'') ''g'' 2 2 1 5 30000 = Inr a"
    using fw_example_created by (auto simp: isOk_iff)
  ultimately have "?thesis \<longleftrightarrow> True"
    unfolding a sum.sel using fw_session_audio_bounded [OF a, of fw_example_calls] by argo
  then show ?thesis by argo
qed

theorem fw_batch_all_or_nothing_witness:
  "session_audio (snd (fw_submit fw_example_engine fw_example_items fw_example_sessions)) ''a'' = Some [0, 0, 1, 0] \<and>
   session_audio (snd (fw_submit fw_example_engine [fw_example_item ''c'' False] fw_example_sessions)) ''a'' = Some [0, 0]"
proof -
  have "fw_accepts fw_example_sessions fw_example_items" "\<not> fw_accepts fw_example_sessions [fw_example_item ''c'' False]"
    by (simp_all add: fw_accepts_def fw_example_sessions_def fw_example_item_def job_fits_def held_samples_def ij_sample_count_def)
  then show ?thesis
    using fw_batch_all_or_nothing [OF fw_example_quiet fw_example_table surjective_pairing, of fw_example_items "''a''"]
      fw_batch_all_or_nothing [OF fw_example_quiet fw_example_table surjective_pairing, of "[fw_example_item ''c'' False]" "''a''"]
    by (simp add: session_audio_def fw_example_sessions_def fw_example_item_def)
qed

end
