(* ===== verification/SenseVoice.thy ===== *)
theory SenseVoice
  imports RollingSegments
begin

text \<open>
  \<open>app/asr_sensevoice.py\<close>: the batch adapter in front of SenseVoice. Every job, partial or final,
  decodes the whole audio of its session; the model's inline tags become metadata. The model is a
  parameter, and so is the loading of the speech sample used for warming up.
\<close>

section \<open>Tags\<close>

record SenseVoiceDecoded =
  sd_text :: ustr
  sd_metadata :: "(string, string) dict"

definition LANGUAGE_TAGS :: "string list" where
  "LANGUAGE_TAGS = [''zh'', ''yue'', ''en'', ''ja'', ''ko'']"

definition EMOTION_TAGS :: "string list" where
  "EMOTION_TAGS = [''HAPPY'', ''SAD'', ''ANGRY'', ''NEUTRAL'']"

definition EVENT_TAGS :: "string list" where
  "EVENT_TAGS = [''Speech'', ''BGM'', ''Applause'', ''Laughter'', ''Cry'', ''Cough'', ''Sneeze'']"

text \<open>\<open>TAG_PATTERN\<close> at the start of a text: a run of characters other than the bar, which therefore
  extends to the next bar, between \<open><|\<close> and \<open>|>\<close>.\<close>

definition tag_at :: "ustr \<Rightarrow> ustr option" where
  "tag_at s =
     (case s of
        a # b # rest \<Rightarrow>
          let w = takeWhile ((\<noteq>) 124) rest in
          if a = 60 \<and> b = 124 \<and> w \<noteq> [] \<and> take 2 (drop (length w) rest) = [124, 62] then Some w else None
      | _ \<Rightarrow> None)"

text \<open>The text cut into tags and single characters: \<open>findall\<close> keeps the tags, \<open>sub\<close> the characters.\<close>

datatype piece = Tag ustr | Plain nat

function tag_pieces :: "ustr \<Rightarrow> piece list" where
  "tag_pieces s =
     (case tag_at s of
        Some w \<Rightarrow> Tag w # tag_pieces (drop (length w + 4) s)
      | None \<Rightarrow> (case s of [] \<Rightarrow> [] | c # rest \<Rightarrow> Plain c # tag_pieces rest))"
  by pat_completeness auto
termination
  by (relation "measure length") (auto simp: tag_at_def split: list.splits)

declare tag_pieces.simps [simp del]

definition tags_of :: "ustr \<Rightarrow> ustr list" where
  "tags_of raw = concat (map (\<lambda>p. case p of Tag w \<Rightarrow> [w] | Plain _ \<Rightarrow> []) (tag_pieces raw))"

definition without_tags :: "ustr \<Rightarrow> ustr" where
  "without_tags raw = concat (map (\<lambda>p. case p of Tag _ \<Rightarrow> [] | Plain c \<Rightarrow> [c]) (tag_pieces raw))"

text \<open>One round of the loop over the tags. A tag of a table is plain ASCII.\<close>

definition ascii_of :: "ustr \<Rightarrow> string" where
  "ascii_of s = map char_of s"

definition add_tag :: "ustr \<Rightarrow> (string, string) dict \<Rightarrow> (string, string) dict" where
  "add_tag tag d =
     (if tag \<in> set (map lit LANGUAGE_TAGS) \<and> map_of d ''language'' = None then
        AList.update ''language'' (ascii_of tag) d
      else if tag \<in> set (map lit EMOTION_TAGS) \<and> map_of d ''emotion'' = None then
        AList.update ''emotion'' (ascii_lower (ascii_of tag)) d
      else if tag \<in> set (map lit EVENT_TAGS) \<and> map_of d ''audio_event'' = None then
        AList.update ''audio_event'' (ascii_lower (ascii_of tag)) d
      else d)"

definition normalize_sensevoice_output :: "ustr \<Rightarrow> SenseVoiceDecoded" where
  "normalize_sensevoice_output raw =
     \<lparr>sd_text = py_strip (without_tags raw), sd_metadata = fold add_tag (tags_of raw) []\<rparr>"

section \<open>The engine\<close>

text \<open>\<open>SenseVoiceBatchFailure\<close>; its stage and cause only go into the emitted event.\<close>

definition sv_failure :: py_error where
  "sv_failure = OtherError ''SenseVoiceBatchFailure''"

definition caught :: "py_error \<Rightarrow> bool" where
  "caught e \<longleftrightarrow> \<not> base_exception e \<and> error_type_name e \<noteq> ''CancelledError''"

text \<open>What the model returns: a list whose items are dictionaries with a string under \<open>text\<close>, or not.\<close>

datatype generated_item = GeneratedText ustr | GeneratedOther
datatype generated = GeneratedList "generated_item list" | NotAList

fun decode_items :: "generated_item list \<Rightarrow> SenseVoiceDecoded list result" where
  "decode_items [] = Inr []"
| "decode_items (GeneratedText raw # items) =
     bind_result (decode_items items) (\<lambda>ds. Inr (normalize_sensevoice_output raw # ds))"
| "decode_items (GeneratedOther # items) = Inl sv_failure"

definition sv_generate ::
  "(rat list list \<Rightarrow> ustr \<Rightarrow> bool \<Rightarrow> generated result) \<Rightarrow> bool \<Rightarrow> rat list list \<Rightarrow> ustr \<Rightarrow>
   SenseVoiceDecoded list result" where
  "sv_generate model use_itn inputs language =
     (case model inputs language use_itn of
        Inl e \<Rightarrow> Inl (if caught e then sv_failure else e)
      | Inr NotAList \<Rightarrow> Inl sv_failure
      | Inr (GeneratedList raw) \<Rightarrow> if length raw \<noteq> length inputs then Inl sv_failure else decode_items raw)"

definition sv_language :: "ustr option \<Rightarrow> ustr" where
  "sv_language language =
     (case language of None \<Rightarrow> lit ''auto'' | Some l \<Rightarrow> if l = [] then lit ''auto'' else l)"

definition sv_transcribe_batch ::
  "(rat list list \<Rightarrow> ustr \<Rightarrow> bool \<Rightarrow> generated result) \<Rightarrow> bool \<Rightarrow> rat list list \<Rightarrow> ustr option \<Rightarrow>
   SenseVoiceDecoded list result" where
  "sv_transcribe_batch model use_itn audio language =
     (if audio = [] then Inr [] else sv_generate model use_itn audio (sv_language language))"

text \<open>The speech sample as the audio library loads it: its rate, its number of dimensions and its values.\<close>

record loaded_sample =
  ls_rate :: int
  ls_ndim :: nat
  ls_waveform :: "pyfloat list"

definition s16le :: "int \<Rightarrow> pcm" where
  "s16le x = [word_of_int x, word_of_int (x div 256)]"

text \<open>\<open>np.clip(np.rint(waveform * 32768.0), -32768, 32767)\<close> of a finite value.\<close>

definition quantize :: "pyfloat \<Rightarrow> int" where
  "quantize v = (case v of Finite x \<Rightarrow> max (- 32768) (min 32767 (py_round (x * 32768))) | _ \<Rightarrow> 0)"

text \<open>\<open>None\<close>: there is no sample file.\<close>

definition sv_engine_warmup :: "loaded_sample option \<Rightarrow> pcm result" where
  "sv_engine_warmup sample =
     (case sample of
        None \<Rightarrow> Inl (RuntimeError ''SenseVoice warmup speech sample is missing'')
      | Some l \<Rightarrow>
          if ls_rate l \<noteq> 16000 \<or> ls_ndim l \<noteq> 1 \<or> ls_waveform l = [] \<or>
             \<not> list_all (\<lambda>v. case v of Finite _ \<Rightarrow> True | _ \<Rightarrow> False) (ls_waveform l) \<or>
             list_all (\<lambda>v. v = Finite 0) (ls_waveform l)
          then Inl (RuntimeError ''SenseVoice warmup speech sample is invalid'')
          else Inr (concat (map (s16le \<circ> quantize) (ls_waveform l))))"

section \<open>The adapter\<close>

record sv_session = rolling_session +
  sv_cached_final :: "SenseVoiceDecoded option"

type_synonym SenseVoiceAdapter = "sv_session rolling_adapter"
type_synonym sv_env = "(SenseVoiceAdapter, ustr option, SenseVoiceDecoded option) rolling_env"
type_synonym 'a sv_method = "(SenseVoiceAdapter, 'a) py_method"

definition sv_init :: "string \<Rightarrow> ustr \<Rightarrow> ustr \<Rightarrow> string \<Rightarrow> int \<Rightarrow> int \<Rightarrow> int \<Rightarrow> SenseVoiceAdapter result" where
  "sv_init wid model revision gpu capacity batch_size max_segment =
     bind_result (capabilities_post_init
       \<lparr>protocol_version = 1, worker_id = wid, model_id = model, model_revision = revision, gpu_id = gpu,
        languages = map lit [''auto'', ''zh'', ''yue'', ''en'', ''ja'', ''ko''], tasks = [lit ''transcribe''],
        streaming_mode = ROLLING, dispatch_mode = DYNAMIC_MICROBATCH, vad_mode = VAD_GATEWAY,
        result_mode = REPLACEABLE_SEGMENT, preferred_chunk_samples = min 32000 max_segment,
        max_input_samples = max_segment, max_segment_samples = max_segment, max_batch_items = batch_size,
        max_batch_samples = max_segment * batch_size, max_in_flight = 1, session_capacity = capacity,
        retry_safe = False, warmed = False, sample_rate = 16000, sample_format = ''pcm_s16le'',
        backend_id = ''local''\<rparr>) (\<lambda>caps.
     Inr \<lparr>rd_loaded = False, rd_sessions = [], rd_objects = [], rd_ready = False,
          rd_max_segment_samples = max_segment, rd_capabilities = caps\<rparr>)"

definition sv_require_ready :: "unit sv_method" where
  "sv_require_ready = need_ready ''SenseVoice adapter is not ready''"

definition sv_open_session :: "string \<Rightarrow> ustr option \<Rightarrow> ustr \<Rightarrow> bool \<Rightarrow> string sv_method" where
  "sv_open_session sid language task timestamps =
     py_seq sv_require_ready
     (if task \<noteq> lit ''transcribe'' then
        py_raise (ValueError ''SenseVoice streaming only supports transcription'')
      else if timestamps then py_raise (ValueError ''SenseVoice streaming timestamps are disabled'')
      else py_bind (py_read (\<lambda>a. languages (rd_capabilities a))) (\<lambda>supported.
        if sv_language language \<notin> set supported then
          py_raise (ValueError ''SenseVoice streaming language is unsupported'')
        else py_bind (py_read (\<lambda>a. map_of (rd_sessions a) sid)) (\<lambda>old.
          if old \<noteq> None then py_raise (ValueError ''duplicate gateway session'')
          else py_seq (py_modify (bind_session sid
                 \<lparr>rs_backend_session_id = ''sv-'' @ sid,
                  rs_language = (if sv_language language = lit ''auto'' then None
                                 else Some (sv_language language)),
                  rs_pcm = [], sv_cached_final = None\<rparr>))
               (py_return (''sv-'' @ sid)))))"

text \<open>One engine call. The items overwrite their places, even with \<open>None\<close>; whatever goes wrong with
  the engine is a batch failure.\<close>

definition set_items :: "nat list \<Rightarrow> 'i list \<Rightarrow> 'i list \<Rightarrow> 'i list" where
  "set_items ks xs d = fold (\<lambda>(k, x) d. d[k := x]) (zip ks xs) d"

definition sv_call_engine ::
  "sv_env \<Rightarrow> rat list list \<Rightarrow> ustr option \<Rightarrow> nat list \<Rightarrow> SenseVoiceDecoded option list \<Rightarrow>
   (SenseVoiceDecoded option list \<times> seconds) sv_method" where
  "sv_call_engine E waveforms language indices decoded =
     except_exception
       (py_bind (ev_transcribe E waveforms language) (\<lambda>(items, elapsed).
        if length items \<noteq> length indices then py_raise sv_failure
        else if list_ex (\<lambda>k. set_items indices items decoded ! k = None) indices then py_raise sv_failure
        else py_return (set_items indices items decoded, elapsed)))
       (\<lambda>_. py_raise sv_failure)"

definition sv_group ::
  "sv_env \<Rightarrow> (nat \<times> InferenceJob) list \<Rightarrow> nat \<Rightarrow> nat \<Rightarrow> ustr option \<Rightarrow> nat list \<Rightarrow>
   SenseVoiceDecoded option list \<Rightarrow> SenseVoiceDecoded option list sv_method" where
  "sv_group E pairs group_count group_ordinal language indices decoded =
     py_bind (py_read (\<lambda>a. all_results (map (\<lambda>k. pcm_to_float32 (rs_pcm (deref a (fst (pairs ! k))))) indices)))
     (\<lambda>audio. case audio of
       Inl e \<Rightarrow> py_raise e
     | Inr waveforms \<Rightarrow>
         py_bind (sv_call_engine E waveforms language indices decoded) (\<lambda>(decoded, elapsed).
         let texts = map (\<lambda>k. case decoded ! k of None \<Rightarrow> [] | Some item \<Rightarrow> sd_text item) indices in
         py_seq (notify (ev_engine_observer E)
             \<lparr>eo_group_size = length indices, eo_group_ordinal = group_ordinal, eo_group_count = group_count,
              eo_elapsed_seconds = elapsed, eo_final = list_ex (\<lambda>k. ij_final (snd (pairs ! k))) indices,
              eo_accumulated_audio_seconds = sum_list (map audio_seconds waveforms),
              eo_output_characters = sum_list (map length texts),
              eo_maximum_character_run = fold max (map maximum_character_run texts) 0\<rparr>)
           (py_return decoded)))"

fun sv_groups ::
  "sv_env \<Rightarrow> (nat \<times> InferenceJob) list \<Rightarrow> nat \<Rightarrow> nat \<Rightarrow> (ustr option, nat list) dict \<Rightarrow>
   SenseVoiceDecoded option list \<Rightarrow> SenseVoiceDecoded option list sv_method" where
  "sv_groups E pairs group_count group_ordinal [] decoded = py_return decoded"
| "sv_groups E pairs group_count group_ordinal ((language, indices) # groups) decoded =
     py_bind (sv_group E pairs group_count group_ordinal language indices decoded)
       (sv_groups E pairs group_count (group_ordinal + 1) groups)"

definition metadata_or_none :: "SenseVoiceDecoded \<Rightarrow> (string, string) dict option" where
  "metadata_or_none item = (if sd_metadata item = [] then None else Some (sd_metadata item))"

definition sv_answer :: "ustr list \<Rightarrow> InferenceJob \<Rightarrow> SenseVoiceDecoded \<Rightarrow> sv_session \<Rightarrow> sv_session" where
  "sv_answer supported job item s =
     (let s = (case map_of (sd_metadata item) ''language'' of
                 Some l \<Rightarrow> if rs_language s = None \<and> lit l \<in> set supported then s\<lparr>rs_language := Some (lit l)\<rparr> else s
               | None \<Rightarrow> s)
      in if ij_final job then s\<lparr>sv_cached_final := Some item\<rparr> else s)"

definition sv_result :: "InferenceJob \<Rightarrow> SenseVoiceDecoded \<Rightarrow> InferenceResult" where
  "sv_result job item = (from_job job [])
     \<lparr>ir_text := sd_text item, ir_tail_text := sd_text item, ir_segment_id := 1, ir_final := ij_final job,
      ir_error := None, ir_metadata := metadata_or_none item\<rparr>"

fun sv_results ::
  "(nat \<times> InferenceJob) list \<Rightarrow> SenseVoiceDecoded option list \<Rightarrow> InferenceResult list sv_method" where
  "sv_results ((i, job) # pairs) (item # items) =
     (case item of
        None \<Rightarrow> py_raise sv_failure
      | Some x \<Rightarrow>
          py_bind (py_read (\<lambda>a. languages (rd_capabilities a))) (\<lambda>supported.
          py_seq (py_modify (assign i (sv_answer supported job x)))
          (py_bind (sv_results pairs items) (\<lambda>rs. py_return (sv_result job x # rs)))))"
| "sv_results _ _ = py_return []"

definition sv_submit :: "sv_env \<Rightarrow> InferenceJob list \<Rightarrow> InferenceResult list sv_method" where
  "sv_submit E jobs =
     py_seq sv_require_ready
     (py_bind (py_read (\<lambda>a. max_batch_items (rd_capabilities a))) (\<lambda>limit.
      if jobs = [] \<or> int (length jobs) > limit then
        py_raise (ValueError ''SenseVoice batch size is outside adapter limits'')
      else py_bind (check_jobs (ev_capacity_observer E) [] jobs) (\<lambda>states.
        let pairs = zip states jobs in
        py_seq (py_modify (extend_all pairs))
        (py_bind (py_read (\<lambda>a. group_indices (map (\<lambda>i. rs_language (deref a i)) states))) (\<lambda>grouped.
         case stable_batch_id (ev_sha256_hex E) (map ij_job_id jobs) of
           Inl e \<Rightarrow> py_raise e
         | Inr batch_id \<Rightarrow>
             py_seq (ev_engine_lock E)
             (py_bind (sv_groups E pairs (length grouped) 1 grouped (replicate (length jobs) None))
               (sv_results pairs)))))))"

text \<open>\<open>None\<close>: the engine returned no item, which shows when the caller reads its text.\<close>

definition sv_consume_final :: "sv_env \<Rightarrow> nat \<Rightarrow> SenseVoiceDecoded option sv_method" where
  "sv_consume_final E i =
     py_bind (py_read (\<lambda>a. (sv_cached_final (deref a i), rs_pcm (deref a i)))) (\<lambda>(cached, held).
     py_bind
       (case cached of
          Some item \<Rightarrow> py_return (Some item)
        | None \<Rightarrow>
            if held = [] then py_return (Some \<lparr>sd_text = [], sd_metadata = []\<rparr>)
            else py_seq sv_require_ready (py_seq (ev_engine_lock E)
              (py_bind (py_read (\<lambda>a. (pcm_to_float32 (rs_pcm (deref a i)), rs_language (deref a i))))
                (\<lambda>(audio, language). case audio of
                   Inl e \<Rightarrow> py_raise e
                 | Inr waveform \<Rightarrow> py_bind (ev_transcribe E [waveform] language) (\<lambda>(items, _).
                     case items of
                       [item] \<Rightarrow> py_return item
                     | _ \<Rightarrow> py_raise (RuntimeError ''SenseVoice final result count mismatch''))))))
       (\<lambda>item. py_seq (py_modify (assign i (\<lambda>s. s\<lparr>rs_pcm := [], sv_cached_final := None\<rparr>)))
          (py_return item)))"

definition sv_adapter_result :: "string \<Rightarrow> SenseVoiceDecoded option \<Rightarrow> bool \<Rightarrow> AdapterResult sv_method" where
  "sv_adapter_result b item final =
     (case item of
        None \<Rightarrow> py_raise (OtherError ''AttributeError'')
      | Some x \<Rightarrow> py_return
          \<lparr>ar_backend_session_id = b, ar_text = sd_text x, ar_confirmed_text = [], ar_tail_text = sd_text x,
           ar_decoded_samples = 0, ar_is_final = final, ar_error = None, ar_metadata = metadata_or_none x\<rparr>)"

definition sv_finish_segment :: "sv_env \<Rightarrow> string \<Rightarrow> AdapterResult sv_method" where
  "sv_finish_segment E sid =
     py_bind (find_session sid) (\<lambda>i.
     py_bind (sv_consume_final E i) (\<lambda>item.
     py_bind (py_read (\<lambda>a. rs_backend_session_id (deref a i))) (\<lambda>b. sv_adapter_result b item False)))"

definition sv_finish_session :: "sv_env \<Rightarrow> string \<Rightarrow> AdapterResult sv_method" where
  "sv_finish_session E sid =
     py_bind (find_session sid) (\<lambda>i.
     py_bind (sv_consume_final E i) (\<lambda>item.
     py_seq (py_modify (unbind_session sid))
     (py_bind (py_read (\<lambda>a. rs_backend_session_id (deref a i))) (\<lambda>b. sv_adapter_result b item True))))"

definition sv_abort_session :: "string \<Rightarrow> unit sv_method" where
  "sv_abort_session sid = py_modify (unbind_session sid)"

definition sv_drain :: "unit sv_method" where
  "sv_drain = rolling_drain"

definition sv_close :: "sv_env \<Rightarrow> unit sv_method" where
  "sv_close E = rolling_close E"

definition sv_remaining_segment_samples :: "string \<Rightarrow> int sv_method" where
  "sv_remaining_segment_samples sid =
     py_bind (find_session sid) (\<lambda>i.
       py_read (\<lambda>a. max 0 (rd_max_segment_samples a - held_samples (deref a i))))"

section \<open>Warming up\<close>

abbreviation warmup_id :: string where
  "warmup_id \<equiv> ''__sensevoice_warmup__''"

text \<open>The warm-up job; its deadline is infinite, which nothing in the adapter looks at.\<close>

definition warmup_job :: "seconds \<Rightarrow> string \<Rightarrow> pcm \<Rightarrow> BackendCapabilities \<Rightarrow> InferenceJob" where
  "warmup_job never b p caps =
     \<lparr>ij_job_id = ''sensevoice-warmup'', ij_session_id = warmup_id, ij_generation = 0, ij_job_sequence = 1,
      ij_worker_id = worker_id caps, ij_backend_session_id = b, ij_start_sample = 0,
      ij_end_sample = int (length p) div 2, ij_pcm = p, ij_deadline = never,
      ij_batch_key =
        \<lparr>bk_worker_id = worker_id caps, bk_model_revision = model_revision caps, bk_language = lit ''en'',
         bk_task = lit ''transcribe'', bk_timestamps = False, bk_prompt_identity = [],
         bk_decoding_identity = ''final:warmup'', bk_sample_format = ''pcm_s16le'', bk_length_bucket = 0\<rparr>,
      ij_final = True, ij_enqueued_at = 0, ij_queue_deadline = None\<rparr>"

text \<open>The speech test of \<open>warmup\<close>: one session, one final job, and its result must be English text.\<close>

definition sv_probe :: "sv_env \<Rightarrow> seconds \<Rightarrow> pcm \<Rightarrow> unit sv_method" where
  "sv_probe E never p =
     py_bind (sv_open_session warmup_id (Some (lit ''en'')) (lit ''transcribe'') False) (\<lambda>b.
     py_bind (py_read rd_capabilities) (\<lambda>caps.
     py_bind (sv_submit E [warmup_job never b p caps]) (\<lambda>results.
     case results of
       [] \<Rightarrow> py_raise (OtherError ''IndexError'')
     | result # _ \<Rightarrow>
         py_bind (sv_finish_session E warmup_id) (\<lambda>_.
         case ir_metadata result of
           Some m \<Rightarrow>
             if ir_text result = [] \<or> map_of m ''language'' \<noteq> Some ''en'' then
               py_raise (RuntimeError ''SenseVoice warmup speech result is invalid'')
             else py_return ()
         | None \<Rightarrow> py_raise (RuntimeError ''SenseVoice warmup speech result is invalid'')))))"

text \<open>\<open>self._engine_factory()\<close> when there is no engine yet.\<close>

definition sv_load :: "sv_env \<Rightarrow> unit sv_method" where
  "sv_load E = py_bind (py_read rd_loaded) (\<lambda>loaded.
     if loaded then py_return ()
     else case ev_engine_factory E of Inl e \<Rightarrow> py_raise e | Inr _ \<Rightarrow> py_modify (\<lambda>a. a\<lparr>rd_loaded := True\<rparr>))"

text \<open>From the sample on: the checks of the audio, and the speech test with its clean-up.\<close>

definition sv_admit :: "sv_env \<Rightarrow> seconds \<Rightarrow> pcm option \<Rightarrow> unit sv_method" where
  "sv_admit E never value =
     (case value of
        None \<Rightarrow> py_raise (RuntimeError ''SenseVoice warmup PCM is invalid'')
      | Some p \<Rightarrow>
          if p = [] \<or> odd (length p) then py_raise (RuntimeError ''SenseVoice warmup PCM is invalid'')
          else py_bind (py_read (\<lambda>a. take (nat (rd_max_segment_samples a * 2)) p)) (\<lambda>p.
            py_seq (py_modify (\<lambda>a. a\<lparr>rd_ready := True\<rparr>))
            (py_seq (except_exception (sv_probe E never p) (\<lambda>e.
               py_seq (py_modify (\<lambda>a. a\<lparr>rd_ready := False\<rparr>))
               (py_seq (py_modify (unbind_session warmup_id)) (py_raise e))))
             (py_modify (\<lambda>a. a\<lparr>rd_capabilities := (rd_capabilities a)\<lparr>warmed := True\<rparr>\<rparr>)))))"

text \<open>\<open>sample\<close> is the engine's warm-up call on its thread; \<open>None\<close> is a value that is no bytes object.\<close>

definition sv_warmup :: "sv_env \<Rightarrow> pcm option sv_method \<Rightarrow> seconds \<Rightarrow> unit sv_method" where
  "sv_warmup E sample never =
     py_seq (case ev_verify_manifest E of None \<Rightarrow> py_return () | Some verify \<Rightarrow> verify)
     (py_seq (sv_load E) (py_bind sample (sv_admit E never)))"

end
