(* ===== verification/SenseVoiceSafety.thy ===== *)
theory SenseVoiceSafety
  imports SenseVoice
begin

text \<open>
  What the SenseVoice adapter promises: its metadata come from the first tags of each kind and the
  text loses nothing but tags, the warm-up audio is a faithful quantization, a failed warm-up leaves
  the adapter closed, and no session ever holds more audio than a segment may have.
\<close>

section \<open>Tags\<close>

fun piece_text :: "piece \<Rightarrow> ustr" where
  "piece_text (Tag w) = [60, 124] @ w @ [124, 62]"
| "piece_text (Plain c) = [c]"

lemma tag_at_Some:
  assumes "tag_at s = Some w"
  shows "s = piece_text (Tag w) @ drop (length w + 4) s" "w \<noteq> []" "124 \<notin> set w"
proof -
  obtain r where s: "s = 60 # 124 # r" and w: "w = takeWhile ((\<noteq>) 124) r"
    and ne: "w \<noteq> []" and e: "take 2 (drop (length w) r) = [124, 62]"
    using assms by (auto simp: tag_at_def Let_def split: list.splits if_splits)
  show "w \<noteq> []" by (rule ne)
  show "124 \<notin> set w" using w by (auto dest: set_takeWhileD)
  have "r = w @ drop (length w) r" using w by (metis append_take_drop_id takeWhile_eq_take)
  also have "drop (length w) r = [124, 62] @ drop (length w + 2) r"
    using e append_take_drop_id [of 2 "drop (length w) r"] by (simp add: add.commute)
  finally show "s = piece_text (Tag w) @ drop (length w + 4) s"
    by (simp add: s numeral_eq_Suc)
qed

text \<open>Cutting a text into pieces loses nothing, and every tag is a bracketed run without a bar.\<close>

lemma tag_pieces_text: "concat (map piece_text (tag_pieces s)) = s"
proof (induction s rule: tag_pieces.induct)
  case (1 s)
  show ?case
  proof (cases "tag_at s")
    case None
    with 1(1) [OF None] show ?thesis
      by (subst tag_pieces.simps) (auto split: list.split)
  next
    case (Some w)
    with 1(2) [OF Some] tag_at_Some(1) [OF Some] show ?thesis
      by (subst tag_pieces.simps) simp
  qed
qed

lemma tags_wf: "w \<in> set (tags_of s) \<Longrightarrow> w \<noteq> [] \<and> 124 \<notin> set w"
proof (induction s rule: tag_pieces.induct)
  case (1 s)
  show ?case
  proof (cases "tag_at s")
    case None
    with 1 show ?thesis
      unfolding tags_of_def by (subst (asm) (2) tag_pieces.simps) (auto split: list.splits)
  next
    case (Some w')
    with 1 tag_at_Some(2,3) [OF Some] show ?thesis
      unfolding tags_of_def by (subst (asm) (2) tag_pieces.simps) auto
  qed
qed

text \<open>What the tags of one kind put under their key: nothing over an older value, else the first.\<close>

lemma ascii_of_lit [simp]: "ascii_of (lit s) = s"
  by (simp add: ascii_of_def lit_def comp_def)

lemma tag_kinds_disjoint:
  "t \<in> set (map lit LANGUAGE_TAGS) \<Longrightarrow> t \<notin> set (map lit EMOTION_TAGS) \<and> t \<notin> set (map lit EVENT_TAGS)"
  "t \<in> set (map lit EMOTION_TAGS) \<Longrightarrow> t \<notin> set (map lit EVENT_TAGS)"
  by (auto simp: LANGUAGE_TAGS_def EMOTION_TAGS_def EVENT_TAGS_def lit_def)

lemma add_tag_lookup:
  "map_of (add_tag t d) ''language'' =
     (if map_of d ''language'' = None \<and> t \<in> set (map lit LANGUAGE_TAGS) then Some (ascii_of t)
      else map_of d ''language'')"
  "map_of (add_tag t d) ''emotion'' =
     (if map_of d ''emotion'' = None \<and> t \<in> set (map lit EMOTION_TAGS) then Some (ascii_lower (ascii_of t))
      else map_of d ''emotion'')"
  "map_of (add_tag t d) ''audio_event'' =
     (if map_of d ''audio_event'' = None \<and> t \<in> set (map lit EVENT_TAGS) then Some (ascii_lower (ascii_of t))
      else map_of d ''audio_event'')"
  using tag_kinds_disjoint [of t] by (auto simp: add_tag_def)

lemma add_tag_keys:
  "wf_dict d \<Longrightarrow> set (keys d) \<subseteq> K \<Longrightarrow> {''language'', ''emotion'', ''audio_event''} \<subseteq> K \<Longrightarrow>
   wf_dict (add_tag t d) \<and> set (keys (add_tag t d)) \<subseteq> K"
  by (auto simp: add_tag_def keys_def dom_update [unfolded dom_map_of_conv_image_fst])

lemma fold_first:
  assumes "\<And>t d. map_of (g t d) k = (if map_of d k = None \<and> P t then Some (f t) else map_of d k)"
  shows "map_of (fold g ts d) k = (case map_of d k of Some v \<Rightarrow> Some v | None \<Rightarrow> map_option f (find P ts))"
  by (induction ts arbitrary: d) (auto simp: assms split: option.split)

lemma metadata_keys:
  "wf_dict d \<Longrightarrow> set (keys d) \<subseteq> {''language'', ''emotion'', ''audio_event''} \<Longrightarrow>
   wf_dict (fold add_tag ts d) \<and> set (keys (fold add_tag ts d)) \<subseteq> {''language'', ''emotion'', ''audio_event''}"
proof (induction ts arbitrary: d)
  case (Cons t ts)
  have "wf_dict (add_tag t d) \<and> set (keys (add_tag t d)) \<subseteq> {''language'', ''emotion'', ''audio_event''}"
    by (rule add_tag_keys [OF Cons.prems]) simp
  then show ?case using Cons.IH [of "add_tag t d"] by simp
qed simp

text \<open>C37: normalizing an output cuts the text into characters and tags without losing anything, keeps
  the characters between the tags (stripped), and takes each metadata value from the first tag of its
  kind; there are no other metadata.\<close>

theorem normalized_output_follows_tags:
  "concat (map piece_text (tag_pieces raw)) = raw \<and>
   sd_text (normalize_sensevoice_output raw) =
     py_strip (concat (map (\<lambda>p. case p of Plain c \<Rightarrow> [c] | Tag _ \<Rightarrow> []) (tag_pieces raw))) \<and>
   (let m = sd_metadata (normalize_sensevoice_output raw) in
      map_of m ''language'' = map_option ascii_of (find (\<lambda>t. t \<in> set (map lit LANGUAGE_TAGS)) (tags_of raw)) \<and>
      map_of m ''emotion'' = map_option (ascii_lower \<circ> ascii_of) (find (\<lambda>t. t \<in> set (map lit EMOTION_TAGS)) (tags_of raw)) \<and>
      map_of m ''audio_event'' = map_option (ascii_lower \<circ> ascii_of) (find (\<lambda>t. t \<in> set (map lit EVENT_TAGS)) (tags_of raw)) \<and>
      distinct (map fst m) \<and> set (map fst m) \<subseteq> {''language'', ''emotion'', ''audio_event''})"
proof -
  have m: "sd_metadata (normalize_sensevoice_output raw) = fold add_tag (tags_of raw) []"
    by (simp add: normalize_sensevoice_output_def)
  have k: "distinct (map fst (fold add_tag (tags_of raw) []))"
    "set (map fst (fold add_tag (tags_of raw) [])) \<subseteq> {''language'', ''emotion'', ''audio_event''}"
    using metadata_keys [of "[]" "tags_of raw"] by (auto simp: wf_dict_def keys_def)
  show ?thesis
    unfolding m Let_def using k
    by (simp only: fold_first [OF add_tag_lookup(1)] fold_first [OF add_tag_lookup(2)] fold_first [OF add_tag_lookup(3)])
      (simp add: tag_pieces_text normalize_sensevoice_output_def without_tags_def comp_def)
qed

text \<open>A tag inside a tag survives: removing the inner one puts the outer brackets together, and the
  normalized text still starts with a tag.\<close>

theorem nested_tag_survives:
  assumes "v \<noteq> []" "124 \<notin> set v" "w \<noteq> []" "124 \<notin> set w"
  shows "let raw = [60] @ piece_text (Tag v) @ [124] @ w @ [124, 62]
     in tags_of raw = [v] \<and> tag_at (without_tags raw) = Some w"
proof -
  have plain: "tag_pieces (u @ [124, 62]) = map Plain (u @ [124, 62])" if "124 \<notin> set u" for u
    using that
  proof (induction u)
    case Nil
    then show ?case by (simp add: tag_pieces.simps tag_at_def)
  next
    case (Cons c u)
    have "tag_at (c # u @ [124, 62]) = None"
      using Cons.prems by (cases u) (auto simp: tag_at_def)
    with Cons show ?case by (subst tag_pieces.simps) simp
  qed
  have bar: "tag_pieces (124 # w @ [124, 62]) = map Plain (124 # w @ [124, 62])"
    by (subst tag_pieces.simps) (use plain [OF assms(4)] assms(3) in \<open>auto simp: tag_at_def split: list.split\<close>)
  have tw: "takeWhile (\<lambda>y. y \<noteq> 124) (u @ 124 # r) = u" if "124 \<notin> set u" for u r :: ustr
    using that by (induction u) auto
  have skip: "drop (length v + 4) (60 # 124 # v @ 124 # 62 # r) = r" for r :: ustr
  proof -
    have "length v + 4 = Suc (Suc (length v + 2))" by simp
    then show ?thesis by (simp only: drop_Suc_Cons) simp
  qed
  have inner: "tag_at (piece_text (Tag v) @ 124 # w @ [124, 62]) = Some v"
    using assms by (simp add: tag_at_def tw Let_def)
  have "tag_pieces (piece_text (Tag v) @ 124 # w @ [124, 62]) = Tag v # map Plain (124 # w @ [124, 62])"
    by (subst tag_pieces.simps) (use inner bar in \<open>simp add: skip\<close>)
  moreover have "tag_at ([60] @ piece_text (Tag v) @ 124 # w @ [124, 62]) = None"
    by (simp add: tag_at_def)
  ultimately have "tag_pieces ([60] @ piece_text (Tag v) @ 124 # w @ [124, 62]) =
      Plain 60 # Tag v # map Plain (124 # w @ [124, 62])"
    by (subst tag_pieces.simps) simp
  moreover have "concat (map (\<lambda>p. case p of Tag _ \<Rightarrow> [] | Plain c \<Rightarrow> [c]) (map Plain u)) = u" for u
    by (induction u) simp_all
  moreover have "concat (map (\<lambda>p. case p of Tag w \<Rightarrow> [w] | Plain _ \<Rightarrow> []) (map Plain u)) = []" for u
    by (induction u) simp_all
  moreover have "tag_at ([60, 124] @ w @ [124, 62]) = Some w"
    using assms by (simp add: tag_at_def tw Let_def)
  ultimately show ?thesis
    by (simp add: Let_def tags_of_def without_tags_def)
qed

theorem nested_tag_survives_witness:
  "tag_at (without_tags (lit ''<<|a|>|zh|>'')) = Some (lit ''zh'')"
proof -
  have "lit ''<<|a|>|zh|>'' = [60] @ piece_text (Tag (lit ''a'')) @ [124] @ lit ''zh'' @ [124, 62]"
    by (simp add: lit_def)
  then show ?thesis
    using nested_tag_survives [of "lit ''a''" "lit ''zh''"] by (simp add: Let_def lit_def)
qed

section \<open>The warm-up audio\<close>

lemma sample_value_s16le:
  assumes "- 32768 \<le> x" "x \<le> 32767"
  shows "sample_value (word_of_int x) (word_of_int (x div 256)) = x"
proof -
  have u: "uint (word_of_int x :: byte) = x mod 256" "uint (word_of_int (x div 256) :: byte) = x div 256 mod 256"
    by (simp_all add: uint_word_of_int)
  show ?thesis
  proof (cases "0 \<le> x")
    case True
    with assms have "x div 256 mod 256 = x div 256" by (intro mod_pos_pos_trivial) auto
    with u assms show ?thesis by (simp add: sample_value_def Let_def)
  next
    case False
    with assms have "- 128 \<le> x div 256" "x div 256 < 0" by auto
    moreover have "d mod 256 = d + 256" if "- 128 \<le> d" "d < 0" for d :: int
      using that by presburger
    ultimately have "x div 256 mod 256 = x div 256 + 256" by blast
    moreover from this have "x mod 256 + 256 * (x div 256 mod 256) = x + 65536"
      by (simp add: algebra_simps)
    ultimately show ?thesis using u assms False by (simp add: sample_value_def Let_def)
  qed
qed

lemma quantize_range: "- 32768 \<le> quantize v \<and> quantize v \<le> 32767"
  by (auto simp: quantize_def split: pyfloat.split)

lemma pcm_samples_s16le:
  "list_all (\<lambda>x. - 32768 \<le> x \<and> x \<le> 32767) xs \<Longrightarrow> pcm_samples (concat (map s16le xs)) = xs"
  by (induction xs) (simp_all add: s16le_def sample_value_s16le)

text \<open>C38: the audio the engine warms up with passes the adapter's check, and its samples are the loaded
  values scaled to 16 bits, clipped at the ends of the range and off by at most half a step inside.\<close>

theorem warmup_audio_quantized:
  assumes "sv_engine_warmup (Some l) = Inr p"
  shows "p \<noteq> [] \<and> even (length p) \<and> pcm_samples p = map quantize (ls_waveform l) \<and>
     list_all (\<lambda>v. \<exists>x. v = Finite x \<and> (let y = of_int (quantize v) in
       y = - 32768 \<and> x * 32768 \<le> - 32767 - 1 / 2 \<or> y = 32767 \<and> 32767 - 1 / 2 \<le> x * 32768 \<or>
       \<bar>x * 32768 - y\<bar> \<le> 1 / 2)) (ls_waveform l)"
proof -
  have p: "p = concat (map s16le (map quantize (ls_waveform l)))" and ne: "ls_waveform l \<noteq> []"
    and fin: "list_all (\<lambda>v. case v of Finite _ \<Rightarrow> True | _ \<Rightarrow> False) (ls_waveform l)"
    using assms by (auto simp: sv_engine_warmup_def comp_def split: if_splits)
  have len: "length (concat (map s16le xs)) = 2 * length xs" for xs
    by (induction xs) (simp_all add: s16le_def)
  have "length p = 2 * length (ls_waveform l)" unfolding p by (simp only: len length_map)
  moreover have "pcm_samples p = map quantize (ls_waveform l)"
    unfolding p by (rule pcm_samples_s16le) (simp add: list_all_iff quantize_range)
  moreover have "\<exists>x. v = Finite x \<and> (let y = of_int (quantize v) in
       y = - 32768 \<and> x * 32768 \<le> - 32767 - 1 / 2 \<or> y = 32767 \<and> 32767 - 1 / 2 \<le> x * 32768 \<or>
       \<bar>x * 32768 - y\<bar> \<le> 1 / 2)" if member: "v \<in> set (ls_waveform l)" for v
  proof -
    have "case v of Finite _ \<Rightarrow> True | _ \<Rightarrow> False" using member fin by (simp add: list_all_iff)
    then obtain x where v: "v = Finite x" by (cases v) simp_all
    define r where "r = py_round (x * 32768)"
    have close: "\<bar>x * 32768 - of_int r\<bar> \<le> 1 / 2" unfolding r_def by (rule py_round_close)
    consider "r < - 32768" | "- 32768 \<le> r" "r \<le> 32767" | "32767 < r" by linarith
    then show ?thesis
    proof cases
      case 1
      then have "rat_of_int r \<le> of_int (- 32769)" by (subst of_int_le_iff) simp
      then have "x * 32768 \<le> - 32767 - 1 / 2" using abs_le_D1 [OF close] by simp
      with 1 show ?thesis by (simp add: v quantize_def r_def [symmetric])
    next
      case 2
      then show ?thesis using close by (simp add: v quantize_def r_def [symmetric])
    next
      case 3
      then have "rat_of_int 32768 \<le> of_int r" by (subst of_int_le_iff) simp
      then have "32767 - 1 / 2 \<le> x * 32768" using abs_le_D2 [OF close] by simp
      with 3 show ?thesis by (simp add: v quantize_def r_def [symmetric])
    qed
  qed
  moreover from calculation(1) ne have "p \<noteq> []" by auto
  ultimately show ?thesis by (simp add: list_all_iff)
qed

theorem warmup_audio_quantized_witness:
  "pcm_samples (projr (sv_engine_warmup (Some \<lparr>ls_rate = 16000, ls_ndim = 1, ls_waveform = [Finite (1 / 2), Finite (- 2)]\<rparr>))) =
     [16384, - 32768]"
proof -
  let ?l = "\<lparr>ls_rate = 16000, ls_ndim = 1, ls_waveform = [Finite (1 / 2), Finite (- 2)]\<rparr>"
  obtain p where p: "sv_engine_warmup (Some ?l) = Inr p" by (simp add: sv_engine_warmup_def)
  have "quantize (Finite (1 / 2)) = 16384" "quantize (Finite (- 2)) = - 32768"
    by (simp_all add: quantize_def py_round_def Let_def)
  then show ?thesis using warmup_audio_quantized [OF p] p by simp
qed

section \<open>Warming up\<close>

lemma py_bind_Inl:
  "py_bind m f s = (Inl e, u) \<longleftrightarrow> m s = (Inl e, u) \<or> (\<exists>x t. m s = (Inr x, t) \<and> f x t = (Inl e, u))"
  by (auto simp: py_bind_def split: prod.splits sum.splits)

lemma py_seq_Inl:
  "py_seq m n s = (Inl e, u) \<longleftrightarrow> m s = (Inl e, u) \<or> (\<exists>x t. m s = (Inr x, t) \<and> n t = (Inl e, u))"
  by (simp add: py_seq_def py_bind_Inl)

text \<open>The clean-up of the warm-up's \<open>except Exception\<close>.\<close>

lemma warmup_cleanup:
  assumes "except_exception m (\<lambda>e. py_seq (py_modify (\<lambda>a. a\<lparr>rd_ready := False\<rparr>))
      (py_seq (py_modify (unbind_session sid)) (py_raise e))) a = (Inl e, b)" and "caught e"
  shows "\<not> rd_ready b \<and> map_of (rd_sessions b) sid = None"
  using assms by (auto simp: except_exception_def py_except_def caught_def method_defs unbind_session_def
      split: prod.splits sum.splits if_splits)

text \<open>A warm-up that fails leaves the adapter closed and without the warm-up session, provided
  checking the files and loading the sample leave the flag and the table alone.\<close>

theorem failed_warmup_leaves_closed:
  assumes "\<And>verify. ev_verify_manifest E = Some verify \<Longrightarrow> keeps (\<lambda>a. (rd_ready a, rd_sessions a)) verify"
    and "keeps (\<lambda>a. (rd_ready a, rd_sessions a)) sample"
    and "\<not> rd_ready a" and "map_of (rd_sessions a) warmup_id = None"
    and "sv_warmup E sample never a = (Inl e, b)" and "caught e"
  shows "\<not> rd_ready b \<and> map_of (rd_sessions b) warmup_id = None"
proof -
  define closed where "closed = (\<lambda>a :: SenseVoiceAdapter. \<not> rd_ready a \<and> map_of (rd_sessions a) warmup_id = None)"
  have keep: "closed t" if "keeps (\<lambda>a. (rd_ready a, rd_sessions a)) m" "m s = (r, t)" "closed s"
    for m :: "'x sv_method" and s t r
    using keepsD [OF that(1,2)] that(3) by (simp add: closed_def)
  have v: "keeps (\<lambda>a. (rd_ready a, rd_sessions a)) (case ev_verify_manifest E of None \<Rightarrow> py_return () | Some verify \<Rightarrow> verify)"
    using assms(1) by (simp split: option.split)
  have l: "keeps (\<lambda>a. (rd_ready a, rd_sessions a)) (sv_load E)"
    unfolding sv_load_def by (auto intro!: keeps_bind split: sum.split)
  have admit: "closed t" if "sv_admit E never val s = (Inl e, t)" "closed s" for val s t
    using that warmup_cleanup [OF _ assms(6)]
    by (auto simp: sv_admit_def closed_def py_raise_def py_bind_Inl py_seq_Inl py_read_def py_modify_def
        split: option.splits if_splits)
  have "closed a" using assms(3,4) by (simp add: closed_def)
  with assms(5) have "closed b"
    unfolding sv_warmup_def py_seq_Inl py_bind_Inl
    using keep [OF v] keep [OF l] keep [OF assms(2)] admit by blast
  then show ?thesis by (simp add: closed_def)
qed

section \<open>No session holds more than a segment\<close>

datatype sv_op =
    SvWarmup "pcm option sv_method" seconds
  | SvOpenSession string "ustr option" ustr bool
  | SvSubmit "InferenceJob list"
  | SvFinishSegment string
  | SvFinishSession string
  | SvAbortSession string
  | SvDrain
  | SvClose

fun sv_call :: "sv_env \<times> sv_op \<Rightarrow> unit sv_method" where
  "sv_call (E, SvWarmup sample never) = sv_warmup E sample never"
| "sv_call (E, SvOpenSession sid language task timestamps) = discard (sv_open_session sid language task timestamps)"
| "sv_call (E, SvSubmit jobs) = discard (sv_submit E jobs)"
| "sv_call (E, SvFinishSegment sid) = discard (sv_finish_segment E sid)"
| "sv_call (E, SvFinishSession sid) = discard (sv_finish_session E sid)"
| "sv_call (E, SvAbortSession sid) = sv_abort_session sid"
| "sv_call (E, SvDrain) = sv_drain"
| "sv_call (E, SvClose) = sv_close E"

fun sv_allowed :: "sv_env \<times> sv_op \<Rightarrow> bool" where
  "sv_allowed (E, SvSubmit jobs) \<longleftrightarrow> cooperative E \<and> list_all job_pcm_ok jobs"
| "sv_allowed (E, SvWarmup sample never) \<longleftrightarrow> cooperative E \<and> segmentwise sample"
| "sv_allowed (E, _) \<longleftrightarrow> cooperative E"

lemma segw_sv_groups: "cooperative E \<Longrightarrow> segmentwise (sv_groups E pairs n m gs decoded)"
proof (induction E pairs n m gs decoded rule: sv_groups.induct)
  case (2 E pairs n m language indices groups decoded)
  then show ?case
    by (auto simp: sv_group_def sv_call_engine_def Let_def intro!: segw_rules cooperativeD split: sum.split prod.split)
qed simp

lemma segw_sv_results: "segmentwise (sv_results pairs items)"
proof (induction pairs items rule: sv_results.induct)
  case (1 i job pairs item items)
  then show ?case
    by (auto simp: sv_answer_def Let_def intro!: segw_rules segw_assign split: option.split)
qed simp_all

lemma segw_sv_submit: "cooperative E \<Longrightarrow> list_all job_pcm_ok jobs \<Longrightarrow> segmentwise (sv_submit E jobs)"
  unfolding sv_submit_def sv_require_ready_def Let_def
  apply (rule segw_seq [OF segw_queries(2)], rule segw_bind [OF segw_simps(3)])
  apply (simp, intro impI segw_take_batch)
    apply (auto intro!: segw_rules segw_sv_results segw_sv_groups cooperativeD split: sum.split)
  done

lemma segw_sv_consume: "cooperative E \<Longrightarrow> segmentwise (sv_consume_final E i)"
  unfolding sv_consume_final_def sv_require_ready_def
  by (auto intro!: segw_rules segw_queries segw_assign cooperativeD
      split: prod.split option.split sum.split list.split)

lemma segw_sv_finish: "cooperative E \<Longrightarrow> segmentwise (sv_finish_session E sid)"
  by (auto simp: sv_finish_session_def sv_adapter_result_def
      intro!: segw_rules segw_queries segw_sv_consume segw_table split: option.split)

lemma segw_sv_open: "segmentwise (sv_open_session sid language task timestamps)"
  unfolding sv_open_session_def sv_require_ready_def
  by (rule segw_seq [OF segw_queries(2)], rule segw_if [OF segw_simps(2)], rule segw_if [OF segw_simps(2)],
      rule segw_bind [OF segw_simps(3)], rule segw_if [OF segw_simps(2)], rule segw_open) simp_all

text \<open>The warm-up audio is whole samples, so its job brings what it announces.\<close>

lemma segw_sv_warmup: "cooperative E \<Longrightarrow> segmentwise sample \<Longrightarrow> segmentwise (sv_warmup E sample never)"
proof -
  assume E: "cooperative E" and sample: "segmentwise sample"
  have "segmentwise (sv_probe E never p)" if "even (length p)" for p
  proof -
    have "job_pcm_ok (warmup_job never b p caps)" for b caps
      using that by (auto simp: job_pcm_ok_def warmup_job_def ij_sample_count_def elim!: evenE)
    with E show ?thesis
      unfolding sv_probe_def
      by (auto intro!: segw_bind segw_sv_open segw_sv_submit segw_sv_finish split: list.split option.split)
  qed
  moreover have "even (length (take (nat (k * 2)) p))" if "even (length p)" for k and p :: pcm
  proof -
    have "even (nat (k * 2))" by (cases "0 \<le> k") (simp_all add: nat_mult_distrib)
    with that show ?thesis by (simp add: min_def)
  qed
  moreover have "segmentwise (sv_load E)"
    unfolding sv_load_def by (auto intro!: segw_bind segw_flags split: sum.split)
  ultimately have "segmentwise (sv_admit E never val)" for val
    unfolding sv_admit_def
    by (auto intro!: segw_read segw_seq segw_except segw_flags segw_table split: option.split)
  then show ?thesis
    unfolding sv_warmup_def using E sample \<open>segmentwise (sv_load E)\<close>
    by (auto intro!: segw_seq segw_bind intro: cooperative_manifest split: option.split)
qed

lemma sv_call_segmentwise: "sv_allowed op \<Longrightarrow> segmentwise (sv_call op)"
proof (induction op rule: sv_call.induct)
  case (4 E sid)
  then show ?case
    by (auto simp: discard_def sv_finish_segment_def sv_adapter_result_def
        intro!: segw_rules segw_queries segw_sv_consume split: option.split)
qed (simp_all add: discard_def segw_seq segw_sv_warmup segw_sv_open segw_sv_submit segw_sv_finish segw_close
    sv_close_def sv_abort_session_def sv_drain_def rolling_drain_def segw_table segw_flags cooperativeD)

interpretation sv: segmented sv_call sv_allowed
  by unfold_locales (rule sv_call_segmentwise)

text \<open>Whatever calls are made on a new SenseVoice adapter, warm-ups included, and whatever other
  calls run during their suspensions, no session ever holds more audio than a segment may have.\<close>

theorem sv_session_audio_bounded:
  assumes "sv_init wid model revision gpu capacity batch_size max_segment = Inr a"
    and "list_all sv_allowed ops"
  shows "let b = fold (\<lambda>op b. snd (sv_call op b)) ops a in
     list_all (\<lambda>(sid, i). i < length (rd_objects b) \<and> even (length (rs_pcm (deref b i))) \<and>
       held_samples (deref b i) \<le> max_segment) (rd_sessions b) \<and> table_ok b"
proof -
  have "rd_max_segment_samples a = max_segment" "rolling_inv a"
    using assms(1)
    by (auto simp: sv_init_def rolling_inv_def table_ok_def bind_result_eq_Inr capabilities_post_init_def
        split: if_splits)
  then show ?thesis
    using sv.sessions_bounded [OF assms(2), of a] by (simp add: Let_def)
qed

section \<open>A cancelled warm-up\<close>

abbreviation cancelled :: py_error where
  "cancelled \<equiv> OtherError ''CancelledError''"

text \<open>One job of a session with room, when the engine call is cancelled.\<close>

lemma sv_submit_cancelled:
  assumes ready: "rd_ready a" "rd_loaded a" "1 \<le> max_batch_items (rd_capabilities a)"
    and fits: "job_fits a i job" and i: "i < length (rd_objects a)"
    and id: "isOk (stable_batch_id (ev_sha256_hex E) [ij_job_id job])"
    and even: "even (length (rs_pcm (deref a i)))" "even (length (ij_pcm job))"
    and lock: "\<And>b. ev_engine_lock E b = (Inr (), b)"
    and engine: "\<And>ws q b. ev_transcribe E ws q b = (Inl cancelled, b)"
  shows "sv_submit E [job] a = (Inl cancelled, assign i (extend_pcm (ij_pcm job)) a)"
proof -
  let ?b = "assign i (extend_pcm (ij_pcm job)) a"
  have "check_jobs (ev_capacity_observer E) [] [job] a = (Inr [i], a)"
    unfolding check_jobs_Inr using fits by simp
  moreover obtain bid where "stable_batch_id (ev_sha256_hex E) [ij_job_id job] = Inr bid"
    using id by (auto simp: isOk_iff)
  moreover have "pcm_to_float32 (rs_pcm (deref ?b i)) = Inr (map (\<lambda>x. rat_of_int x / 32768) (pcm_samples (rs_pcm (deref ?b i))))"
    using i even by (simp add: pcm_to_float32_def assign_def extend_pcm_def)
  moreover have "group_indices [k] = [(k, [0])]" for k :: "ustr option"
    by (simp add: group_indices_def add_index_def)
  ultimately show ?thesis
    using ready lock engine
    by (simp add: sv_submit_def sv_require_ready_def need_ready_def py_seq_def py_bind_def py_read_def py_modify_def
        Let_def sv_group_def sv_call_engine_def except_exception_def py_except_def py_raise_def base_exception_def
        del: check_jobs.simps)
qed

text \<open>C29: cancelling the engine call of the warm-up test leaves the adapter ready, although nothing was
  verified, and the warm-up session in its table: \<open>except Exception\<close> does not see the cancellation.\<close>

theorem cancelled_warmup_stays_ready:
  assumes "ev_verify_manifest E = None" and "rd_loaded a" and "map_of (rd_sessions a) warmup_id = None"
    and "lit ''en'' \<in> set (languages (rd_capabilities a))" and "1 \<le> max_batch_items (rd_capabilities a)"
    and "0 < rd_max_segment_samples a"
    and "sample a = (Inr (Some p), a)" and "p \<noteq> []" and "even (length p)"
    and "\<And>b. ev_engine_lock E b = (Inr (), b)"
    and "\<And>ws q b. ev_transcribe E ws q b = (Inl cancelled, b)"
  shows "\<exists>b. sv_warmup E sample never a = (Inl cancelled, b) \<and> rd_ready b \<and>
     map_of (rd_sessions b) warmup_id \<noteq> None"
proof -
  define q where "q = take (nat (rd_max_segment_samples a * 2)) p"
  define a1 where "a1 = a\<lparr>rd_ready := True\<rparr>"
  define s where "s = \<lparr>rs_backend_session_id = ''sv-'' @ warmup_id, rs_language = Some (lit ''en''), rs_pcm = [],
    sv_cached_final = None\<rparr>"
  define a2 where "a2 = bind_session warmup_id s a1"
  define job where "job = warmup_job never (''sv-'' @ warmup_id) q (rd_capabilities a2)"
  have simps: "rd_ready a2" "rd_loaded a2" "rd_capabilities a2 = rd_capabilities a"
    "rd_max_segment_samples a2 = rd_max_segment_samples a"
    "map_of (rd_sessions a2) warmup_id = Some (length (rd_objects a))"
    "length (rd_objects a2) = Suc (length (rd_objects a))" "deref a2 (length (rd_objects a)) = s"
    using assms(2) by (simp_all add: a2_def a1_def bind_session_def)
  have "even (nat (rd_max_segment_samples a * 2))" using assms(6) by (simp add: nat_mult_distrib)
  then have q: "even (length q)" "int (length q) div 2 \<le> rd_max_segment_samples a"
    using assms(6,9) by (auto simp: q_def min_def)
  have open_: "sv_open_session warmup_id (Some (lit ''en'')) (lit ''transcribe'') False a1 = (Inr (''sv-'' @ warmup_id), a2)"
    using assms(2,3,4)
    by (simp add: sv_open_session_def sv_require_ready_def need_ready_def sv_language_def a1_def a2_def s_def
        method_defs lit_def)
  have "sv_submit E [job] a2 = (Inl cancelled, assign (length (rd_objects a)) (extend_pcm (ij_pcm job)) a2)"
  proof (rule sv_submit_cancelled)
    show "job_fits a2 (length (rd_objects a)) job"
      using q by (simp add: job_fits_def job_def warmup_job_def simps s_def held_samples_def ij_sample_count_def)
    show "isOk (stable_batch_id (ev_sha256_hex E) [ij_job_id job])"
      by (simp add: job_def warmup_job_def stable_batch_id_def)
  qed (use assms(5,10,11) q in \<open>simp_all add: simps s_def job_def warmup_job_def\<close>)
  then have "sv_probe E never q a1 = (Inl cancelled, assign (length (rd_objects a)) (extend_pcm (ij_pcm job)) a2)"
    using open_ by (simp add: sv_probe_def py_bind_def py_read_def job_def)
  then have "sv_warmup E sample never a = (Inl cancelled, assign (length (rd_objects a)) (extend_pcm (ij_pcm job)) a2)"
    using assms(1,2,7,8,9)
    by (simp add: sv_warmup_def sv_load_def sv_admit_def py_bind_def py_seq_def py_read_def py_modify_def py_return_def
        except_exception_def py_except_def py_raise_def q_def a1_def)
  then show ?thesis by (simp add: simps)
qed

section \<open>Examples\<close>

definition sv_example_engine :: "py_error option \<Rightarrow> sv_env" where
  "sv_example_engine failure =
     \<lparr>ev_sha256_hex = (\<lambda>_. ''00''), ev_verify_manifest = None, ev_engine_factory = Inr (),
      ev_engine_close = py_return (), ev_capacity_observer = None, ev_engine_observer = None,
      ev_engine_lock = py_return (),
      ev_transcribe = (\<lambda>ws q. case failure of
        Some e \<Rightarrow> py_raise e
      | None \<Rightarrow> py_return (map (\<lambda>w. Some (normalize_sensevoice_output (lit ''<|en|>ok''))) ws, 1))\<rparr>"

definition sv_example_adapter :: SenseVoiceAdapter where
  "sv_example_adapter = (projr (sv_init ''w'' (lit ''m'') (lit ''r'') ''g'' 2 2 4))\<lparr>rd_loaded := True\<rparr>"

lemma sv_example_created:
  "sv_init ''w'' (lit ''m'') (lit ''r'') ''g'' 2 2 4 = Inr (projr (sv_init ''w'' (lit ''m'') (lit ''r'') ''g'' 2 2 4))"
  by (simp add: sv_init_def capabilities_post_init_def blank_def py_isspace_def lit_def py_strip_def)

theorem cancelled_warmup_stays_ready_witness:
  "\<exists>b. sv_warmup (sv_example_engine (Some cancelled)) (py_return (Some [1, 0])) 0 sv_example_adapter = (Inl cancelled, b) \<and>
     rd_ready b \<and> map_of (rd_sessions b) warmup_id \<noteq> None"
proof (rule cancelled_warmup_stays_ready [where p = "[1, 0]"])
  have c: "sv_init ''w'' (lit ''m'') (lit ''r'') ''g'' 2 2 4 = Inr a \<Longrightarrow>
      rd_sessions a = [] \<and> lit ''en'' \<in> set (languages (rd_capabilities a)) \<and> max_batch_items (rd_capabilities a) = 2 \<and>
      rd_max_segment_samples a = 4" for a
    by (auto simp: sv_init_def capabilities_post_init_def blank_def py_isspace_def lit_def py_strip_def)
  note c = c [OF sv_example_created]
  show "map_of (rd_sessions sv_example_adapter) warmup_id = None"
    "lit ''en'' \<in> set (languages (rd_capabilities sv_example_adapter))"
    "1 \<le> max_batch_items (rd_capabilities sv_example_adapter)" "0 < rd_max_segment_samples sv_example_adapter"
    using c by (simp_all add: sv_example_adapter_def)
qed (simp_all add: sv_example_engine_def sv_example_adapter_def method_defs)

theorem failed_warmup_leaves_closed_witness:
  "\<not> rd_ready (snd (sv_warmup (sv_example_engine None) (py_return None) 0 sv_example_adapter))"
proof -
  have i: "sv_init ''w'' (lit ''m'') (lit ''r'') ''g'' 2 2 4 = Inr a \<Longrightarrow> rd_sessions a = [] \<and> \<not> rd_ready a" for a
    by (auto simp: sv_init_def bind_result_eq_Inr)
  note i = i [OF sv_example_created]
  let ?b = "snd (sv_warmup (sv_example_engine None) (py_return None) 0 sv_example_adapter)"
  have "sv_warmup (sv_example_engine None) (py_return None) 0 sv_example_adapter =
      (Inl (RuntimeError ''SenseVoice warmup PCM is invalid''), ?b)"
    by (simp add: sv_warmup_def sv_load_def sv_admit_def sv_example_engine_def sv_example_adapter_def method_defs)
  from failed_warmup_leaves_closed [OF _ _ _ _ this] i show ?thesis
    by (auto simp: sv_example_engine_def sv_example_adapter_def caught_def base_exception_def)
qed

theorem sv_session_audio_bounded_witness:
  "let b = fold (\<lambda>op b. snd (sv_call op b))
       [(sv_example_engine None, SvWarmup (py_return (Some [1, 0])) 0),
        (sv_example_engine None, SvOpenSession ''a'' None (lit ''transcribe'') False)]
       (projr (sv_init ''w'' (lit ''m'') (lit ''r'') ''g'' 2 2 4)) in
     list_all (\<lambda>(sid, i). i < length (rd_objects b) \<and> even (length (rs_pcm (deref b i))) \<and>
       held_samples (deref b i) \<le> 4) (rd_sessions b) \<and> table_ok b"
proof (rule sv_session_audio_bounded [OF sv_example_created])
  have "cooperative (sv_example_engine None)"
    by (simp add: cooperative_def sv_example_engine_def notify_def)
  then show "list_all sv_allowed
       [(sv_example_engine None, SvWarmup (py_return (Some [1, 0])) 0),
        (sv_example_engine None, SvOpenSession ''a'' None (lit ''transcribe'') False)]"
    by simp
qed

end
