(* ===== verification/StreamApi.thy ===== *)
theory StreamApi
  imports Vad Protocol LocalAdapter
begin

text \<open>
  \<open>app/asr_api.py\<close>: the single-process speech service. One \<open>StreamingSessionController\<close> serves one web
  socket over the inference coordinator: it validates audio frames, feeds them to the model or to
  the endpoint detector first, turns results into numbered events, watches the session deadline and
  the real-time lag, and ends every failure with one error event. The coordinator is the
  record \<open>stream_coordinator\<close>; what the socket answers, the clock and the temporary files are the
  environment \<open>stream_env\<close>.
\<close>

section \<open>The surroundings of a controller\<close>

record StreamSettings = Settings +
  asr_vad_silence_seconds :: rat
  asr_vad_rms_threshold :: int
  asr_commit_on_punctuation :: bool
  asr_stable_commit_enabled :: bool
  asr_stable_commit_seconds :: rat
  asr_stable_commit_min_chars :: int
  asr_stable_commit_min_updates :: int

text \<open>A temporary file is its name and the audio it holds. The deadline of \<open>asyncio.timeout\<close> firing
  inside a call is the outcome \<open>TimeoutError\<close> of the call.\<close>

record 'c stream_coordinator = "'c coordinator_api" +
  sa_create_chunked_stream :: "ustr option \<Rightarrow> ('c, string) py_method"
  sa_transcribe_stream_chunk :: "string \<Rightarrow> ustr \<times> pcm \<Rightarrow> ustr option \<Rightarrow> rat \<Rightarrow> ('c, TranscriptionResult) py_method"

text \<open>The clock, the sends, the closes and the written files are numbered in the order of the code.
  \<open>se_write_wav\<close> tells whether the file exists afterwards and what the call returned.\<close>

record ('c, 'v) stream_env =
  se_settings :: StreamSettings
  se_db :: chardb
  se_coordinator :: "'c stream_coordinator"
  se_vad_backend :: "'v VADBackend"
  se_create_vad :: "'v StreamingVADEndpointDetector result"
  se_clock :: "nat \<Rightarrow> rat"
  se_send :: "nat \<Rightarrow> unit result"
  se_close :: "nat \<Rightarrow> unit result"
  se_temp_path :: "nat \<Rightarrow> ustr"
  se_write_wav :: "nat \<Rightarrow> bool \<times> unit result"

text \<open>What goes over the socket, and the calls made on the coordinator: the second list is kept for
  the theorems only.\<close>

datatype wire_message =
    WireEvent string int "ustr option"
  | WireError string string int
  | WireClose int

datatype coordinator_call =
    Opened string
  | AudioSent string pcm
  | ChunkSent string pcm
  | SegmentFinished string
  | Released string

text \<open>An undecoded batch: its samples, when it was submitted, and the model work done before it.\<close>

type_synonym undecoded_batch = "int \<times> rat \<times> rat"

record ('c, 'v) StreamingSessionController =
  sc_session_id :: "string option"
  sc_finished :: bool
  sc_accepted_samples :: int
  sc_processing_debt_seconds :: rat
  sc_oldest_undecoded_age_seconds :: rat
  sc_sustained_decoded_lag_seconds :: rat
  sc_model_work_seconds :: rat
  sc_undecoded_batches :: "undecoded_batch list"
  sc_lag_error_sent :: bool
  sc_stateful :: bool
  sc_session_deadline :: rat
  sc_transcript :: StreamingTranscriptState
  sc_silence :: SilenceEndpointDetector
  sc_vad :: "'v StreamingVADEndpointDetector option"
  sc_coordinator :: 'c
  sc_wire :: "wire_message list"
  sc_calls :: "coordinator_call list"
  sc_readings :: nat
  sc_sends :: nat
  sc_closes :: nat
  sc_writes :: nat
  sc_files :: "nat list"

type_synonym ('c, 'v, 'a) st_method = "(('c, 'v) StreamingSessionController, 'a) py_method"

abbreviation StreamClosed :: py_error where
  "StreamClosed \<equiv> OtherError ''_StreamClosed''"

definition silence_detector :: "StreamSettings \<Rightarrow> SilenceEndpointDetector" where
  "silence_detector S =
     \<lparr>sd_silence_seconds = asr_vad_silence_seconds S, sd_rms_threshold = asr_vad_rms_threshold S,
      sd_current_silence_seconds = 0, sd_committed_for_current_silence = False\<rparr>"

definition st_init ::
  "('c, 'v) stream_env \<Rightarrow> 'v StreamingVADEndpointDetector option \<Rightarrow> 'c \<Rightarrow>
   ('c, 'v) StreamingSessionController result" where
  "st_init E vad_detector c =
     (let S = se_settings E; stateful = (asr_stream_mode S = ModeStateful);
          made = (if vad_detector = None \<and> stateful \<and> asr_backend S = BackendQwenVllm
                  then map_sum id Some (se_create_vad E) else Inr vad_detector)
      in bind_result made (\<lambda>vad. Inr
        \<lparr>sc_session_id = None, sc_finished = False, sc_accepted_samples = 0, sc_processing_debt_seconds = 0,
         sc_oldest_undecoded_age_seconds = 0, sc_sustained_decoded_lag_seconds = 0, sc_model_work_seconds = 0,
         sc_undecoded_batches = [], sc_lag_error_sent = False, sc_stateful = stateful,
         sc_session_deadline = se_clock E 0 + asr_max_session_seconds S,
         sc_transcript = ts_init 16000 (asr_stable_commit_enabled S) (asr_stable_commit_seconds S)
           (asr_stable_commit_min_chars S) (asr_stable_commit_min_updates S)
           (asr_commit_on_punctuation S \<and> asr_stream_mode S = ModeChunked) stateful,
         sc_silence = silence_detector S, sc_vad = vad,
         sc_coordinator = c, sc_wire = [], sc_calls = [], sc_readings = 1, sc_sends = 0, sc_closes = 0,
         sc_writes = 0, sc_files = []\<rparr>))"

section \<open>The parts a controller calls\<close>

definition st_now :: "('c, 'v) stream_env \<Rightarrow> ('c, 'v, rat) st_method" where
  "st_now E = (\<lambda>s. (Inr (se_clock E (sc_readings s)), s\<lparr>sc_readings := Suc (sc_readings s)\<rparr>))"

definition st_send_json :: "('c, 'v) stream_env \<Rightarrow> wire_message \<Rightarrow> ('c, 'v, unit) st_method" where
  "st_send_json E m = (\<lambda>s. case se_send E (sc_sends s) of
     Inl e \<Rightarrow> (Inl e, s\<lparr>sc_sends := Suc (sc_sends s)\<rparr>)
   | Inr _ \<Rightarrow> (Inr (), s\<lparr>sc_sends := Suc (sc_sends s), sc_wire := sc_wire s @ [m]\<rparr>))"

definition st_close_socket :: "('c, 'v) stream_env \<Rightarrow> int \<Rightarrow> ('c, 'v, unit) st_method" where
  "st_close_socket E code = (\<lambda>s. case se_close E (sc_closes s) of
     Inl e \<Rightarrow> (Inl e, s\<lparr>sc_closes := Suc (sc_closes s)\<rparr>)
   | Inr _ \<Rightarrow> (Inr (), s\<lparr>sc_closes := Suc (sc_closes s), sc_wire := sc_wire s @ [WireClose code]\<rparr>))"

definition on_transcript :: "(StreamingTranscriptState, 'a) py_method \<Rightarrow> ('c, 'v, 'a) st_method" where
  "on_transcript m = (\<lambda>s. case m (sc_transcript s) of (r, t) \<Rightarrow> (r, s\<lparr>sc_transcript := t\<rparr>))"

text \<open>A call of the coordinator, entered in the list of calls when it is made.\<close>

definition st_call :: "coordinator_call list \<Rightarrow> ('c, 'a) py_method \<Rightarrow> ('c, 'v, 'a) st_method" where
  "st_call entry m = (\<lambda>s. case m (sc_coordinator s) of
     (r, c) \<Rightarrow> (r, s\<lparr>sc_coordinator := c, sc_calls := sc_calls s @ entry\<rparr>))"

text \<open>A session the coordinator opened; a session it finished.\<close>

definition st_log :: "coordinator_call \<Rightarrow> ('c, 'v, unit) st_method" where
  "st_log entry = py_modify (\<lambda>s. s\<lparr>sc_calls := sc_calls s @ [entry]\<rparr>)"

definition st_vad :: "('v StreamingVADEndpointDetector \<Rightarrow>
    (VADDecision result \<times> 'v StreamingVADEndpointDetector) option) \<Rightarrow> ('c, 'v, VADDecision) st_method" where
  "st_vad m = (\<lambda>s. case sc_vad s of
     None \<Rightarrow> (Inl (OtherError ''AttributeError''), s)
   | Some d \<Rightarrow> (case m d of
         None \<Rightarrow> (Inl (OtherError ''EndlessLoop''), s)
       | Some (r, d') \<Rightarrow> (r, s\<lparr>sc_vad := Some d'\<rparr>)))"

definition st_session :: "('c, 'v, string) st_method" where
  "st_session = (\<lambda>s. case sc_session_id s of None \<Rightarrow> (Inl AssertionError, s) | Some i \<Rightarrow> (Inr i, s))"

definition st_when :: "bool \<Rightarrow> ('c, 'v, unit) st_method \<Rightarrow> ('c, 'v, unit) st_method" where
  "st_when b m = (if b then m else py_return ())"

text \<open>\<open>result and result.last_snapshot.segment_finished\<close>: a result object is always true.\<close>

definition segment_done :: "StreamingTranscriptionResult option \<Rightarrow> bool" where
  "segment_done r = (case r of None \<Rightarrow> False | Some x \<Rightarrow> sr_segment_finished (last_snapshot x))"

section \<open>Failing and expiring\<close>

definition st_fail :: "('c, 'v) stream_env \<Rightarrow> string \<Rightarrow> string \<Rightarrow> int \<Rightarrow> ('c, 'v, unit) st_method" where
  "st_fail E code message close_code =
     py_bind (on_transcript (\<lambda>t. apfst Inr (ts_new_event ''error'' [] t))) (\<lambda>event.
     py_seq (st_send_json E (WireError code message (te_sequence event)))
       (st_close_socket E close_code))"

definition st_fail_closed :: "('c, 'v) stream_env \<Rightarrow> string \<times> string \<times> int \<Rightarrow> ('c, 'v, 'a) st_method" where
  "st_fail_closed E f = (case f of (code, message, close_code) \<Rightarrow>
     py_seq (st_fail E code message close_code) (py_raise StreamClosed))"

text \<open>The \<open>except\<close> clauses of a method: \<open>_StreamClosed\<close> passes, the clauses name the failure of an
  exception, and what no clause names is raised on.\<close>

definition failing ::
  "('c, 'v) stream_env \<Rightarrow> (py_error \<Rightarrow> (string \<times> string \<times> int) option) \<Rightarrow> ('c, 'v, 'a) st_method \<Rightarrow>
   ('c, 'v, 'a) st_method" where
  "failing E clauses m = except_exception m (\<lambda>e.
     if e = StreamClosed then py_raise e
     else case clauses e of None \<Rightarrow> py_raise e | Some f \<Rightarrow> st_fail_closed E f)"

definition st_abort_quietly :: "('c, 'v) stream_env \<Rightarrow> string \<Rightarrow> ('c, 'v, unit) st_method" where
  "st_abort_quietly E sid =
     except_exception (st_call [Released sid] (ca_abort_stream (se_coordinator E) sid)) (\<lambda>_. py_return ())"

definition st_take_session :: "('c, 'v, string option) st_method" where
  "st_take_session = py_bind (py_read sc_session_id) (\<lambda>sid.
     py_seq (py_modify (\<lambda>s. s\<lparr>sc_session_id := None\<rparr>)) (py_return sid))"

definition st_abort :: "('c, 'v) stream_env \<Rightarrow> ('c, 'v, unit) st_method" where
  "st_abort E = py_bind st_take_session (\<lambda>sid.
     case sid of None \<Rightarrow> py_return () | Some i \<Rightarrow> st_abort_quietly E i)"

definition st_expire_session :: "('c, 'v) stream_env \<Rightarrow> ('c, 'v, 'a) st_method" where
  "st_expire_session E = py_seq (st_abort E)
     (st_fail_closed E (''session_timeout'', ''Maximum session duration exceeded'', 1008))"

definition st_remaining_session_seconds :: "('c, 'v) stream_env \<Rightarrow> ('c, 'v, rat) st_method" where
  "st_remaining_session_seconds E = py_bind (py_read sc_session_deadline) (\<lambda>deadline.
     py_bind (st_now E) (\<lambda>now. py_return (max 0 (deadline - now))))"

definition st_ensure_session_active :: "('c, 'v) stream_env \<Rightarrow> ('c, 'v, unit) st_method" where
  "st_ensure_session_active E = py_bind (st_remaining_session_seconds E) (\<lambda>remaining.
     if remaining \<le> 0 then st_expire_session E else py_return ())"

text \<open>\<open>async with asyncio.timeout(remaining)\<close>, with the test of the remaining time before it.\<close>

definition st_within_session :: "('c, 'v) stream_env \<Rightarrow> ('c, 'v, 'a) st_method \<Rightarrow> ('c, 'v, 'a) st_method" where
  "st_within_session E m = py_seq (st_ensure_session_active E)
     (py_except m (\<lambda>e. case e of TimeoutError _ \<Rightarrow> st_expire_session E | _ \<Rightarrow> py_raise e))"

definition st_await_model_operation :: "('c, 'v) stream_env \<Rightarrow> ('c, 'v, 'a) st_method \<Rightarrow> ('c, 'v, 'a) st_method" where
  "st_await_model_operation E operation = st_within_session E operation"

section \<open>Events\<close>

definition event_payload :: "TranscriptEvent \<Rightarrow> wire_message" where
  "event_payload e = WireEvent (te_type e) (te_sequence e)
     (if te_type e \<in> {''partial'', ''sentence_final'', ''final''} then Some (te_text e) else None)"

definition st_send_event :: "('c, 'v) stream_env \<Rightarrow> TranscriptEvent \<Rightarrow> ('c, 'v, unit) st_method" where
  "st_send_event E e =
     (if te_type e = ''error'' then st_send_json E (event_payload e)
      else st_within_session E (st_send_json E (event_payload e)))"

definition st_send_events :: "('c, 'v) stream_env \<Rightarrow> TranscriptEvent list \<Rightarrow> ('c, 'v, unit) st_method" where
  "st_send_events E events = py_for events (\<lambda>e. py_seq (st_ensure_session_active E) (st_send_event E e))"

definition st_apply_stream_result ::
  "('c, 'v) stream_env \<Rightarrow> StreamingTranscriptionResult \<Rightarrow> ('c, 'v, unit) st_method" where
  "st_apply_stream_result E r =
     py_bind (py_read sc_stateful) (\<lambda>stateful.
     py_bind (on_transcript
        (if stateful
         then ts_apply_segment_snapshot (sr_segment_id r) (sr_segment_text r) (py_or (sr_decoded_samples_delta r) 0)
         else ts_apply_model_update (se_db E) (sr_segment_text r) (py_or (sr_decoded_samples_delta r) 0)))
     (st_send_events E))"

definition st_commit_finished_segment :: "('c, 'v) stream_env \<Rightarrow> bool \<Rightarrow> ('c, 'v, unit) st_method" where
  "st_commit_finished_segment E reset_endpoint_detector =
     py_bind (on_transcript (\<lambda>t. apfst Inr (ts_commit_pending t))) (\<lambda>events.
     py_seq (st_send_events E events)
     (py_modify (\<lambda>s. s\<lparr>sc_transcript := ts_reset_segment (sc_transcript s), sc_silence := sd_reset (sc_silence s),
        sc_vad := (if reset_endpoint_detector then map_option (vd_reset (se_vad_backend E)) (sc_vad s)
                   else sc_vad s)\<rparr>)))"

section \<open>Keeping up with real time\<close>

text \<open>The loop over the undecoded batches: what was decoded is taken off the oldest ones.\<close>

function take_decoded :: "int \<Rightarrow> undecoded_batch list \<Rightarrow> undecoded_batch list" where
  "take_decoded remaining [] = []"
| "take_decoded remaining ((n, submitted, work) # rest) =
     (if remaining = 0 then (n, submitted, work) # rest
      else let consumed = min remaining n
           in if n - consumed \<le> 0 then take_decoded (remaining - consumed) rest
              else take_decoded (remaining - consumed) ((n - consumed, submitted, work) # rest))"
  by pat_completeness auto

termination
  by (relation "measure (\<lambda>(r, bs). 2 * length bs + (if r = 0 then 0 else 1))") (auto simp: min_def split: if_splits)

definition oldest_age :: "rat \<Rightarrow> rat \<Rightarrow> undecoded_batch list \<Rightarrow> rat" where
  "oldest_age now work batches =
     (case batches of [] \<Rightarrow> 0 | (n, submitted, before) # _ \<Rightarrow> max 0 (max (now - submitted) (work - before)))"

definition st_lag_exceeded :: "StreamSettings \<Rightarrow> rat \<Rightarrow> rat \<Rightarrow> ('c, 'v, bool) st_method" where
  "st_lag_exceeded S processing_seconds audio_seconds = (\<lambda>s.
     let debt = max 0 (sc_processing_debt_seconds s + processing_seconds - audio_seconds)
     in (Inr (asr_max_connection_lag_seconds S < debt), s\<lparr>sc_processing_debt_seconds := debt\<rparr>))"

definition st_observe_stream_progress ::
  "StreamSettings \<Rightarrow> rat \<Rightarrow> StreamingTranscriptionResult \<Rightarrow> int \<Rightarrow> ('c, 'v) StreamingSessionController \<Rightarrow>
   bool \<times> ('c, 'v) StreamingSessionController" where
  "st_observe_stream_progress S now r submitted_samples s =
     (let batches = sc_undecoded_batches s @
            (if submitted_samples \<noteq> 0 then [(submitted_samples, now, sc_model_work_seconds s)] else []);
          processing = max 0 (sr_queue_wait_seconds r) + max 0 (sr_inference_seconds r);
          work = sc_model_work_seconds s + processing;
          decoded = total_decoded_samples_delta r;
          decoded_seconds = (case decoded of None \<Rightarrow> 0 | Some n \<Rightarrow> of_int (max 0 n) / 16000);
          debt = max 0 (sc_processing_debt_seconds s + processing - decoded_seconds);
          sustained = (case decoded of
              Some n \<Rightarrow> if 0 < n then max 0 (sc_sustained_decoded_lag_seconds s + processing - decoded_seconds)
                       else sc_sustained_decoded_lag_seconds s
            | None \<Rightarrow> sc_sustained_decoded_lag_seconds s);
          age_during_call = oldest_age now work batches;
          left = take_decoded (max 0 (py_or decoded 0)) batches;
          age = oldest_age now work left;
          too_old = (asr_max_undecoded_age_seconds S < max age_during_call age);
          sustained_slow = (asr_max_connection_lag_seconds S < sustained);
          exceeded = (asr_max_connection_lag_seconds S < debt \<and> (too_old \<or> sustained_slow));
          report = (exceeded \<and> \<not> sc_lag_error_sent s)
      in (report, s\<lparr>sc_undecoded_batches := left, sc_model_work_seconds := work,
            sc_processing_debt_seconds := debt, sc_sustained_decoded_lag_seconds := sustained,
            sc_oldest_undecoded_age_seconds := age, sc_lag_error_sent := sc_lag_error_sent s \<or> report\<rparr>))"

definition st_observe ::
  "('c, 'v) stream_env \<Rightarrow> StreamingTranscriptionResult \<Rightarrow> int \<Rightarrow> ('c, 'v, bool) st_method" where
  "st_observe E r submitted_samples = py_bind (st_now E) (\<lambda>now s.
     case st_observe_stream_progress (se_settings E) now r submitted_samples s of (report, t) \<Rightarrow> (Inr report, t))"

definition lag_failure :: "string \<times> string \<times> int" where
  "lag_failure = (''realtime_lag_exceeded'', ''ASR can no longer keep up in real time'', 1013)"

definition st_enforce_stream_progress ::
  "('c, 'v) stream_env \<Rightarrow> StreamingTranscriptionResult \<Rightarrow> int \<Rightarrow> ('c, 'v, unit) st_method" where
  "st_enforce_stream_progress E r submitted_samples = py_bind (st_observe E r submitted_samples) (\<lambda>exceeded.
     if exceeded then st_fail_closed E lag_failure else py_return ())"

section \<open>Which failure an exception is\<close>

definition at_capacity :: "py_error \<Rightarrow> bool" where
  "at_capacity e = (case e of ASRQueueFull _ \<Rightarrow> True | ASRQueueTimeout _ \<Rightarrow> True | ASRSessionBusy _ \<Rightarrow> True | _ \<Rightarrow> False)"

definition server_busy :: "string \<times> string \<times> int" where
  "server_busy = (''server_busy'', ''ASR is at capacity'', 1013)"

definition inference_error :: "string \<Rightarrow> string \<times> string \<times> int" where
  "inference_error message = (''inference_error'', message, 1011)"

definition inference_timeout :: "string \<times> string \<times> int" where
  "inference_timeout = (''inference_timeout'', ''ASR inference timed out'', 1011)"

definition start_clauses :: "py_error \<Rightarrow> (string \<times> string \<times> int) option" where
  "start_clauses e =
     (case e of
        ValueError _ \<Rightarrow> Some (''invalid_language'', ''Unsupported language'', 1003)
      | ASRSessionLimit _ \<Rightarrow> Some server_busy
      | ASRBatchConflict _ \<Rightarrow> Some server_busy
      | ASRNotReady _ \<Rightarrow> Some (''not_ready'', ''ASR is not ready'', 1013)
      | _ \<Rightarrow> if at_capacity e then Some server_busy else Some (inference_error ''Unable to create ASR session''))"

definition audio_clauses :: "py_error \<Rightarrow> (string \<times> string \<times> int) option" where
  "audio_clauses e =
     (case e of
        ASRSessionLimit _ \<Rightarrow> Some server_busy
      | ASRBatchConflict _ \<Rightarrow> Some server_busy
      | ASRInferenceTimeout _ \<Rightarrow> Some inference_timeout
      | ASRSessionPoisoned _ \<Rightarrow> Some (''session_poisoned'', ''ASR session can no longer be used'', 1011)
      | _ \<Rightarrow> if at_capacity e then Some server_busy else Some (inference_error ''ASR inference failed''))"

text \<open>The clauses of \<open>transcribe_chunk\<close> and \<open>reset_segment\<close>, up to the message of the last one.\<close>

definition operation_clauses :: "string \<Rightarrow> py_error \<Rightarrow> (string \<times> string \<times> int) option" where
  "operation_clauses message e =
     (case e of
        ASRBatchConflict _ \<Rightarrow> Some server_busy
      | ASRInferenceTimeout _ \<Rightarrow> Some inference_timeout
      | _ \<Rightarrow> if at_capacity e then Some server_busy else Some (inference_error message))"

definition conflict_clauses :: "py_error \<Rightarrow> (string \<times> string \<times> int) option" where
  "conflict_clauses e =
     (case e of
        ConfirmedPrefixConflict _ \<Rightarrow> Some (''transcript_conflict'', ''Model output conflicts with confirmed text'', 1011)
      | _ \<Rightarrow> None)"

definition finish_clauses :: "py_error \<Rightarrow> (string \<times> string \<times> int) option" where
  "finish_clauses e =
     (case e of
        ConfirmedPrefixConflict _ \<Rightarrow> Some (''transcript_conflict'', ''Model output conflicts with confirmed text'', 1011)
      | ASRInferenceTimeout _ \<Rightarrow> Some inference_timeout
      | _ \<Rightarrow> if at_capacity e then Some server_busy else Some (inference_error ''ASR finalization failed''))"

section \<open>The stateful stream\<close>

definition st_start_with ::
  "('c, 'v) stream_env \<Rightarrow> (ustr option \<Rightarrow> ('c, string) py_method) \<Rightarrow> ustr option \<Rightarrow> ('c, 'v, unit) st_method" where
  "st_start_with E create_session language =
     py_seq (py_bind
       (failing E start_clauses (st_await_model_operation E
          (py_bind (st_call [] (create_session language)) (\<lambda>i. py_seq (st_log (Opened i)) (py_return i)))))
       (\<lambda>i. py_modify (\<lambda>s. s\<lparr>sc_session_id := Some i\<rparr>)))
     (py_seq (st_ensure_session_active E)
     (py_bind (on_transcript (\<lambda>t. apfst Inr (ts_new_event ''ready'' [] t))) (st_send_event E)))"

definition st_start :: "('c, 'v) stream_env \<Rightarrow> ustr option \<Rightarrow> ('c, 'v, unit) st_method" where
  "st_start E = st_start_with E (ca_create_stream (se_coordinator E))"

definition st_start_chunked :: "('c, 'v) stream_env \<Rightarrow> ustr option \<Rightarrow> ('c, 'v, unit) st_method" where
  "st_start_chunked E = st_start_with E (sa_create_chunked_stream (se_coordinator E))"

text \<open>The frame is counted only when every check passed.\<close>

definition st_validate_audio_frame :: "('c, 'v) stream_env \<Rightarrow> pcm \<Rightarrow> ('c, 'v, int) st_method" where
  "st_validate_audio_frame E pcm =
     (if pcm = [] \<or> odd (length pcm)
      then st_fail_closed E (''invalid_audio_frame'', ''Audio frames must contain aligned PCM samples'', 1003)
      else if asr_max_frame_bytes (se_settings E) < int (length pcm)
      then st_fail_closed E (''frame_too_large'', ''Audio frame exceeds the configured limit'', 1009)
      else py_bind (py_read sc_accepted_samples) (\<lambda>accepted.
        let sample_count = int (length pcm div 2);
            max_samples = \<lfloor>asr_max_audio_seconds (se_settings E) * 16000\<rfloor>
        in if max_samples < accepted + sample_count
           then st_fail_closed E (''audio_limit_exceeded'', ''Maximum audio duration exceeded'', 1008)
           else py_seq (py_modify (\<lambda>s. s\<lparr>sc_accepted_samples := accepted + sample_count\<rparr>))
             (py_return sample_count)))"

fun st_apply_snapshots ::
  "('c, 'v) stream_env \<Rightarrow> StreamingTranscriptionResult list \<Rightarrow> ('c, 'v, unit) st_method" where
  "st_apply_snapshots E [] = py_return ()"
| "st_apply_snapshots E (x # rest) =
     py_seq (st_when (sr_model_updated x \<or> sr_segment_finished x) (st_apply_stream_result E x))
     (py_seq (st_when (sr_segment_finished x \<and> rest \<noteq> []) (st_commit_finished_segment E False))
       (st_apply_snapshots E rest))"

definition st_add_model_audio ::
  "('c, 'v) stream_env \<Rightarrow> pcm \<Rightarrow> ('c, 'v, StreamingTranscriptionResult) st_method" where
  "st_add_model_audio E pcm =
     py_bind st_session (\<lambda>i.
     py_bind (failing E audio_clauses (st_await_model_operation E
        (st_call [AudioSent i pcm] (ca_add_audio (se_coordinator E) i pcm 16000)))) (\<lambda>r.
     py_seq (st_ensure_session_active E)
     (py_seq (st_enforce_stream_progress E r (int (length pcm div 2)))
     (py_seq (failing E conflict_clauses (st_apply_snapshots E (snapshots r)))
       (py_return r)))))"

text \<open>\<open>range(0, len(pcm), frame_bytes)\<close>; the configured frame is positive.\<close>

function pieces :: "nat \<Rightarrow> pcm \<Rightarrow> pcm list" where
  "pieces n p = (if p = [] \<or> n = 0 then [] else take n p # pieces n (drop n p))"
  by pat_completeness auto

termination
  by (relation "measure (\<lambda>(n, p). length p)") auto

declare pieces.simps [simp del]

fun st_add_pieces ::
  "('c, 'v) stream_env \<Rightarrow> StreamingTranscriptionResult option \<Rightarrow> pcm list \<Rightarrow>
   ('c, 'v, StreamingTranscriptionResult option) st_method" where
  "st_add_pieces E previous [] = py_return previous"
| "st_add_pieces E previous (p # ps) =
     py_bind (st_add_model_audio E p) (\<lambda>r.
     py_seq (st_when (segment_done (Some r)) (st_commit_finished_segment E False))
       (st_add_pieces E (Some r) ps))"

definition st_add_vad_audio ::
  "('c, 'v) stream_env \<Rightarrow> pcm \<Rightarrow> ('c, 'v, StreamingTranscriptionResult option) st_method" where
  "st_add_vad_audio E pcm = st_add_pieces E None (pieces (nat (asr_max_frame_bytes (se_settings E))) pcm)"

definition st_reset_segment :: "('c, 'v) stream_env \<Rightarrow> bool \<Rightarrow> ('c, 'v, unit) st_method" where
  "st_reset_segment E reset_endpoint_detector =
     py_bind st_session (\<lambda>i.
     py_bind (failing E (operation_clauses ''ASR segment reset failed'') (st_await_model_operation E
        (st_call [SegmentFinished i] (ca_finish_segment (se_coordinator E) i)))) (\<lambda>r.
     py_seq (st_ensure_session_active E)
     (py_seq (st_enforce_stream_progress E r 0)
     (py_seq (failing E conflict_clauses (st_apply_stream_result E r))
       (st_commit_finished_segment E reset_endpoint_detector)))))"

definition st_handle_vad_decision :: "('c, 'v) stream_env \<Rightarrow> VADDecision \<Rightarrow> ('c, 'v, unit) st_method" where
  "st_handle_vad_decision E decision =
     py_bind (if audio_to_model decision \<noteq> [] then st_add_vad_audio E (audio_to_model decision) else py_return None)
     (\<lambda>r. st_when (endpoint decision \<and> \<not> segment_done r) (st_reset_segment E False))"

text \<open>The loop of \<open>add_audio\<close>. Every endpoint took at least one frame off the detector's input, so the
  number of rounds is bounded by its length.\<close>

fun st_vad_rounds :: "('c, 'v) stream_env \<Rightarrow> nat \<Rightarrow> VADDecision \<Rightarrow> ('c, 'v, unit) st_method" where
  "st_vad_rounds E 0 decision = py_raise (OtherError ''EndlessLoop'')"
| "st_vad_rounds E (Suc fuel) decision =
     py_seq (st_handle_vad_decision E decision)
       (if \<not> endpoint decision then py_return ()
        else py_bind (st_vad (vd_endpoint_finalized (se_vad_backend E))) (st_vad_rounds E fuel))"

definition vad_rounds :: "('c, 'v) StreamingSessionController \<Rightarrow> nat" where
  "vad_rounds s = (case sc_vad s of None \<Rightarrow> 1 | Some d \<Rightarrow> length (vd_input_buffer d) + 2)"

definition on_silence ::
  "(SilenceEndpointDetector \<Rightarrow> 'a \<times> SilenceEndpointDetector) \<Rightarrow> ('c, 'v, 'a) st_method" where
  "on_silence f = (\<lambda>s. case f (sc_silence s) of (x, d) \<Rightarrow> (Inr x, s\<lparr>sc_silence := d\<rparr>))"

definition st_add_audio :: "('c, 'v) stream_env \<Rightarrow> pcm \<Rightarrow> ('c, 'v, unit) st_method" where
  "st_add_audio E pcm =
     py_seq (st_validate_audio_frame E pcm)
     (py_bind (py_read (\<lambda>s. sc_vad s \<noteq> None)) (\<lambda>with_vad.
      if with_vad then
        py_bind (st_vad (\<lambda>d. vd_add_audio (se_vad_backend E) d pcm)) (\<lambda>decision.
        py_bind (py_read vad_rounds) (\<lambda>fuel. st_vad_rounds E fuel decision))
      else
        py_bind (st_add_model_audio E pcm) (\<lambda>r.
        py_bind (on_silence (\<lambda>d. sd_add_audio d pcm 16000)) (\<lambda>silence_endpoint.
          if segment_done (Some r) then st_commit_finished_segment E False
          else st_when silence_endpoint (st_reset_segment E True)))))"

definition st_explicit_segment :: "('c, 'v) stream_env \<Rightarrow> ('c, 'v, unit) st_method" where
  "st_explicit_segment E =
     py_bind (py_read (\<lambda>s. sc_vad s \<noteq> None)) (\<lambda>with_vad.
     py_bind
       (if \<not> with_vad then py_return False
        else py_bind (st_vad (vd_finish_input (se_vad_backend E))) (\<lambda>pending.
          if audio_to_model pending = [] then py_return False
          else py_bind (st_add_vad_audio E (audio_to_model pending)) (\<lambda>r. py_return (segment_done r))))
     (\<lambda>already_finalized.
       py_seq (st_when (\<not> already_finalized) (st_reset_segment E False))
         (py_modify (\<lambda>s. s\<lparr>sc_vad := map_option (vd_reset (se_vad_backend E)) (sc_vad s)\<rparr>))))"

text \<open>\<open>finish\<close>: the body of its \<open>try\<close>, and the whole. \<open>session_id\<close> only changes on the way to a
  \<open>raise\<close>, so it is read once.\<close>

definition st_finish_steps :: "('c, 'v) stream_env \<Rightarrow> string \<Rightarrow> ('c, 'v, unit) st_method" where
  "st_finish_steps E i =
     py_bind (py_read (\<lambda>s. sc_vad s \<noteq> None)) (\<lambda>with_vad.
     py_seq (st_when with_vad
       (py_bind (st_vad (vd_finish_input (se_vad_backend E))) (\<lambda>pending.
         st_when (audio_to_model pending \<noteq> [])
           (py_bind (st_add_vad_audio E (audio_to_model pending)) (\<lambda>_. py_return ())))))
     (py_bind (st_await_model_operation E
          (py_bind (st_call [] (ca_finish_stream (se_coordinator E) i)) (\<lambda>r.
           py_seq (st_log (Released i)) (py_return r)))) (\<lambda>r.
      py_seq (st_ensure_session_active E)
      (py_seq (st_enforce_stream_progress E r 0)
      (py_seq (st_apply_stream_result E r)
      (py_bind (on_transcript (\<lambda>t. apfst Inr (ts_final_event t))) (st_send_event E)))))))"

definition st_finish :: "('c, 'v) stream_env \<Rightarrow> ('c, 'v, unit) st_method" where
  "st_finish E =
     py_bind st_session (\<lambda>i.
     py_seq (failing E finish_clauses (st_finish_steps E i))
     (py_seq (py_modify (\<lambda>s. s\<lparr>sc_finished := True, sc_session_id := None\<rparr>))
       (st_close_socket E 1000)))"

section \<open>The start message\<close>

record ASRStreamStart =
  ss_api_key :: ustr
  ss_language :: "ustr option"
  ss_sample_rate :: int

definition is_valid_api_key :: "ustr option \<Rightarrow> StreamSettings \<Rightarrow> bool" where
  "is_valid_api_key key S \<longleftrightarrow> (case key of None \<Rightarrow> False | Some k \<Rightarrow> k \<noteq> [] \<and> k = api_key S)"

text \<open>\<open>ASRStreamStart.model_validate\<close> on a decoded object, field by field: literals compare, strings are
  not converted, and a strict integer is neither a boolean nor a float. Unknown keys are ignored.
  \<open>None\<close> is a \<open>ValidationError\<close>. Strings hold Unicode scalar values.\<close>

definition validated_language :: "json \<Rightarrow> ustr option option" where
  "validated_language v = (case v of
     JNull \<Rightarrow> Some None
   | JStr l \<Rightarrow> if length l \<le> 32 then Some (Some l) else None
   | _ \<Rightarrow> None)"

definition model_validate :: "(ustr \<times> json) list \<Rightarrow> ASRStreamStart option" where
  "model_validate payload =
     (case (map_of payload (lit ''type''), map_of payload (lit ''api_key''),
            validated_language (json_get payload ''language'' JNull),
            json_get payload ''sample_rate'' (JInt 16000),
            json_get payload ''format'' (JStr (lit ''pcm_s16le''))) of
        (Some (JStr ty), Some (JStr key), Some language, JInt rate, JStr fmt) \<Rightarrow>
          if ty = lit ''start'' \<and> fmt = lit ''pcm_s16le''
          then Some \<lparr>ss_api_key = key, ss_language = language, ss_sample_rate = rate\<rparr> else None
      | _ \<Rightarrow> None)"

definition json_decode_error :: "py_error \<Rightarrow> bool" where
  "json_decode_error e \<longleftrightarrow> e = OtherError ''JSONDecodeError''"

definition unsupported_sample_rate :: "string \<times> string \<times> int" where
  "unsupported_sample_rate = (''unsupported_sample_rate'', ''Only 16000 Hz audio is supported'', 1003)"

text \<open>\<open>decoded\<close> is what \<open>json.loads\<close> makes of the text. A failure returns \<open>None\<close> after its error event.\<close>

definition st_fail_start ::
  "('c, 'v) stream_env \<Rightarrow> string \<times> string \<times> int \<Rightarrow> ('c, 'v, ASRStreamStart option) st_method" where
  "st_fail_start E f = (case f of (code, message, close_code) \<Rightarrow>
     py_seq (st_fail E code message close_code) (py_return None))"

definition is_string_or_null :: "json \<Rightarrow> bool" where
  "is_string_or_null v = (case v of JNull \<Rightarrow> True | JStr _ \<Rightarrow> True | _ \<Rightarrow> False)"

definition wrong_integer_rate :: "json \<Rightarrow> bool" where
  "wrong_integer_rate v = (case v of JInt n \<Rightarrow> n \<noteq> 16000 | _ \<Rightarrow> False)"

definition parse_stream_start ::
  "('c, 'v) stream_env \<Rightarrow> json result \<Rightarrow> ('c, 'v, ASRStreamStart option) st_method" where
  "parse_stream_start E decoded =
     (case decoded of
        Inl e \<Rightarrow> (case e of
            TypeError _ \<Rightarrow> st_fail_start E (''invalid_start'', ''Expected a JSON start message'', 1003)
          | _ \<Rightarrow> if json_decode_error e
                 then st_fail_start E (''invalid_start'', ''Expected a JSON start message'', 1003)
                 else py_raise e)
      | Inr (JObj payload) \<Rightarrow>
          if \<not> is_string_or_null (json_get payload ''language'' JNull)
          then st_fail_start E (''invalid_language'', ''Language must be a string or null'', 1003)
          else if wrong_integer_rate (json_get payload ''sample_rate'' (JInt 16000))
          then st_fail_start E unsupported_sample_rate
          else (case model_validate payload of
              None \<Rightarrow> st_fail_start E (''invalid_start'', ''Invalid start message'', 1003)
            | Some start \<Rightarrow>
                if ss_sample_rate start \<noteq> 16000 then st_fail_start E unsupported_sample_rate
                else if \<not> is_valid_api_key (Some (ss_api_key start)) (se_settings E)
                then st_fail_start E (''invalid_api_key'', ''Invalid or missing API key'', 1008)
                else py_return (Some start))
      | Inr _ \<Rightarrow> st_fail_start E (''invalid_start'', ''Expected a JSON object'', 1003))"

section \<open>The stateful endpoint\<close>

text \<open>What \<open>websocket.receive()\<close> gives: an exception (\<open>TimeoutError\<close> when the deadline fires), or a
  message; the text of a message comes with what \<open>json.loads\<close> makes of it.\<close>

datatype incoming =
    ReceiveFails py_error
  | Disconnect
  | AudioBytes pcm
  | TextMessage "json result"
  | EmptyMessage

definition session_timeout_failure :: "('c, 'v) stream_env \<Rightarrow> ('c, 'v, unit) st_method" where
  "session_timeout_failure E = st_fail E ''session_timeout'' ''Maximum session duration exceeded'' 1008"

definition receive_timeout_failure :: "('c, 'v) stream_env \<Rightarrow> rat \<Rightarrow> ('c, 'v, unit) st_method" where
  "receive_timeout_failure E remaining =
     (if remaining \<le> asr_idle_timeout_seconds (se_settings E) then session_timeout_failure E
      else st_fail E ''idle_timeout'' ''No audio or command was received in time'' 1008)"

definition invalid_message :: "('c, 'v) stream_env \<Rightarrow> string \<Rightarrow> ('c, 'v, unit) st_method" where
  "invalid_message E message = st_fail E ''invalid_message'' message 1003"

text \<open>A run is a finite list of received messages; when it is used up, the waiting task is cancelled.\<close>

fun st_stateful_loop :: "('c, 'v) stream_env \<Rightarrow> incoming list \<Rightarrow> ('c, 'v, unit) st_method" where
  "st_stateful_loop E [] = py_bind (st_remaining_session_seconds E) (\<lambda>remaining.
     if remaining \<le> 0 then session_timeout_failure E else py_raise (OtherError ''CancelledError''))"
| "st_stateful_loop E (m # rest) = py_bind (st_remaining_session_seconds E) (\<lambda>remaining.
     if remaining \<le> 0 then session_timeout_failure E
     else case m of
       ReceiveFails e \<Rightarrow> (case e of TimeoutError _ \<Rightarrow> receive_timeout_failure E remaining | _ \<Rightarrow> py_raise e)
     | Disconnect \<Rightarrow> py_return ()
     | AudioBytes pcm \<Rightarrow> py_seq (st_add_audio E pcm) (st_stateful_loop E rest)
     | EmptyMessage \<Rightarrow> invalid_message E ''Expected audio or a JSON command''
     | TextMessage (Inl e) \<Rightarrow> (case e of
           TypeError _ \<Rightarrow> invalid_message E ''Expected a JSON command''
         | _ \<Rightarrow> if json_decode_error e then invalid_message E ''Expected a JSON command'' else py_raise e)
     | TextMessage (Inr (JObj payload)) \<Rightarrow>
         if json_get payload ''type'' JNull = JStr (lit ''end'') then st_finish E
         else if json_get payload ''type'' JNull = JStr (lit ''segment'')
         then py_seq (st_explicit_segment E) (st_stateful_loop E rest)
         else invalid_message E ''Unsupported stream command''
     | TextMessage (Inr _) \<Rightarrow> invalid_message E ''Expected a JSON object'')"

section \<open>The chunked stream\<close>

text \<open>\<open>asyncio.to_thread(write_pcm_s16le_wav, ...)\<close> and \<open>remove_file\<close>.\<close>

definition st_write_wav :: "('c, 'v) stream_env \<Rightarrow> ('c, 'v, nat) st_method" where
  "st_write_wav E = (\<lambda>s.
     let n = sc_writes s; (exists, r) = se_write_wav E n;
         t = s\<lparr>sc_writes := Suc n, sc_files := (if exists then sc_files s @ [n] else sc_files s)\<rparr>
     in (map_sum id (\<lambda>_. n) r, t))"

definition st_remove_file :: "nat \<Rightarrow> ('c, 'v, unit) st_method" where
  "st_remove_file n = py_modify (\<lambda>s. s\<lparr>sc_files := removeAll n (sc_files s)\<rparr>)"

definition st_transcribe_chunk ::
  "('c, 'v) stream_env \<Rightarrow> pcm \<Rightarrow> ustr option \<Rightarrow> ('c, 'v, ustr) st_method" where
  "st_transcribe_chunk E pcm language =
     (let audio_seconds = of_nat (length pcm div 2) / 16000 in
     py_bind (st_write_wav E) (\<lambda>n.
     py_bind (st_now E) (\<lambda>started.
     py_bind
       (py_finally
         (failing E (operation_clauses ''ASR inference failed'')
           (py_bind st_session (\<lambda>i. st_await_model_operation E
             (st_call [ChunkSent i pcm]
               (sa_transcribe_stream_chunk (se_coordinator E) i (se_temp_path E n, pcm) language audio_seconds)))))
         (st_remove_file n)) (\<lambda>r.
     py_seq (st_ensure_session_active E)
     (py_bind (st_now E) (\<lambda>now.
      py_bind (st_lag_exceeded (se_settings E) (now - started) audio_seconds) (\<lambda>exceeded. if exceeded then st_fail_closed E lag_failure else py_return (tr_text r))))))))"

text \<open>\<open>_flush_chunked_buffer\<close>: the buffer is empty afterwards; the silence detector is the endpoint's
  own.\<close>

definition st_flush_chunked_buffer ::
  "('c, 'v) stream_env \<Rightarrow> pcm \<Rightarrow> ustr option \<Rightarrow> SilenceEndpointDetector \<Rightarrow> bool \<Rightarrow>
   ('c, 'v, SilenceEndpointDetector) st_method" where
  "st_flush_chunked_buffer E buffer language detector commit_boundary =
     py_seq
       (st_when (buffer \<noteq> [])
         (py_bind (st_transcribe_chunk E buffer language) (\<lambda>segment_text.
            st_when (segment_text \<noteq> [])
              (py_bind (on_transcript (\<lambda>t. apfst Inr (ts_append_independent_segment (se_db E) segment_text t)))
                (st_send_events E)))))
     (py_seq
       (st_when commit_boundary
         (py_seq (st_ensure_session_active E)
           (py_bind (on_transcript (\<lambda>t. apfst Inr (ts_commit_pending t))) (st_send_events E))))
       (if commit_boundary
        then py_seq (py_modify (\<lambda>s. s\<lparr>sc_transcript := ts_reset_segment (sc_transcript s)\<rparr>))
               (py_return (sd_reset detector))
        else py_return detector))"

definition closed_by :: "('c, 'v, unit) st_method \<Rightarrow> ('c, 'v, unit) st_method" where
  "closed_by m = py_seq m (py_raise StreamClosed)"

fun st_chunked_loop ::
  "('c, 'v) stream_env \<Rightarrow> ustr option \<Rightarrow> int \<Rightarrow> pcm \<Rightarrow> SilenceEndpointDetector \<Rightarrow> incoming list \<Rightarrow>
   ('c, 'v, unit) st_method" where
  "st_chunked_loop E language rate buffer detector [] = py_bind (st_remaining_session_seconds E) (\<lambda>remaining.
     if remaining \<le> 0 then closed_by (session_timeout_failure E) else py_raise (OtherError ''CancelledError''))"
| "st_chunked_loop E language rate buffer detector (m # rest) = py_bind (st_remaining_session_seconds E) (\<lambda>remaining.
     if remaining \<le> 0 then closed_by (session_timeout_failure E)
     else case m of
       ReceiveFails e \<Rightarrow> (case e of TimeoutError _ \<Rightarrow> closed_by (receive_timeout_failure E remaining) | _ \<Rightarrow> py_raise e)
     | Disconnect \<Rightarrow> py_return ()
     | AudioBytes pcm \<Rightarrow>
         py_seq (st_validate_audio_frame E pcm)
         (py_bind
           (if max 1 \<lfloor>of_int (rate * 2) * asr_stream_chunk_seconds (se_settings E)\<rfloor> \<le> int (length (buffer @ pcm))
            then py_bind (st_flush_chunked_buffer E (buffer @ pcm) language detector False)
                   (\<lambda>d. py_return ([], d))
            else py_return (buffer @ pcm, detector)) (\<lambda>(held, d).
          case sd_add_audio d pcm rate of (silence_endpoint, d) \<Rightarrow>
            py_seq (st_when silence_endpoint
              (py_bind (on_transcript (\<lambda>t. apfst Inr (ts_commit_pending t))) (st_send_events E)))
            (st_chunked_loop E language rate held d rest)))
     | EmptyMessage \<Rightarrow> st_chunked_loop E language rate buffer detector rest
     | TextMessage (Inl e) \<Rightarrow>
         if json_decode_error e then closed_by (invalid_message E ''Expected a JSON command'') else py_raise e
     | TextMessage (Inr (JObj payload)) \<Rightarrow>
         if json_get payload ''type'' JNull = JStr (lit ''end'') then
           py_bind (st_flush_chunked_buffer E buffer language detector False) (\<lambda>_.
           py_seq (st_ensure_session_active E)
           (py_seq (py_bind (on_transcript (\<lambda>t. apfst Inr (ts_new_event ''final'' (ts_partial t) t))) (st_send_event E))
           (py_seq (st_abort E) (st_close_socket E 1000))))
         else if json_get payload ''type'' JNull = JStr (lit ''segment'') then
           py_bind (st_flush_chunked_buffer E buffer language detector True) (\<lambda>d.
             st_chunked_loop E language rate [] d rest)
         else closed_by (invalid_message E ''Unsupported stream command'')
     | TextMessage (Inr _) \<Rightarrow> closed_by (invalid_message E ''Expected a JSON object''))"

section \<open>The endpoint\<close>

definition st_serve ::
  "('c, 'v) stream_env \<Rightarrow> json result result \<Rightarrow> incoming list \<Rightarrow> ('c, 'v, unit) st_method" where
  "st_serve E raw_start messages =
     (case raw_start of
        Inl e \<Rightarrow> (case e of
            TimeoutError _ \<Rightarrow> st_fail E ''start_timeout'' ''Start message was not received in time'' 1008
          | _ \<Rightarrow> if base_exception e \<or> error_type_name e = ''CancelledError'' then py_raise e
                 else st_fail E ''invalid_start'' ''Expected a JSON start message'' 1003)
      | Inr decoded \<Rightarrow> py_bind (parse_stream_start E decoded) (\<lambda>start. case start of
          None \<Rightarrow> py_return ()
        | Some m \<Rightarrow>
            if asr_stream_mode (se_settings E) \<noteq> ModeStateful then
              py_seq (st_start_chunked E (ss_language m))
                (st_chunked_loop E (ss_language m) (ss_sample_rate m) [] (silence_detector (se_settings E)) messages)
            else py_seq (st_start E (ss_language m)) (st_stateful_loop E messages)))"

definition transcribe_stream ::
  "('c, 'v) stream_env \<Rightarrow> json result result \<Rightarrow> incoming list \<Rightarrow> ('c, 'v, unit) st_method" where
  "transcribe_stream E raw_start messages =
     py_finally
       (py_except (st_serve E raw_start messages)
         (\<lambda>e. if e = StreamClosed \<or> e = OtherError ''WebSocketDisconnect'' then py_return () else py_raise e))
       (st_abort E)"

end
