(* ===== verification/StreamCoordinator.thy ===== *)
theory StreamCoordinator
  imports StreamApi CoordinatorCalls
begin

text \<open>
  The modelled coordinator as the coordinator of the stream service and of the local adapter: each
  call is the round trip of \<open>CoordinatorCalls\<close> at the next reading of a clock. The state is the
  coordinator and the number of calls made on it.
\<close>

type_synonym ('h, 'w) service = "('h, 'w) Coordinator \<times> nat"

text \<open>The clock reading and the duration of the n-th call, and the identifier it would draw.\<close>

record service_clock =
  sk_now :: "nat \<Rightarrow> rat"
  sk_took :: "nat \<Rightarrow> rat"
  sk_uuid :: "nat \<Rightarrow> string"

definition service_call ::
  "('h, 'w) asr_transcriber \<Rightarrow> service_clock \<Rightarrow> (string \<Rightarrow> rat \<Rightarrow> (('h, 'w) Coordinator, ASRJob) py_method) \<Rightarrow>
   (asr_value \<Rightarrow> 'a option) \<Rightarrow> (('h, 'w) service, 'a) py_method" where
  "service_call T K m pick = (\<lambda>(c, n).
     case co_call T (sk_now K n) (sk_took K n) (m (sk_uuid K n) (sk_now K n)) c of (r, d) \<Rightarrow>
       (bind_result r (\<lambda>v. case pick v of Some x \<Rightarrow> Inr x | None \<Rightarrow> Inl (TypeError ''unexpected result'')), (d, Suc n)))"

definition session_of :: "asr_value \<Rightarrow> string option" where
  "session_of v = (case v of ValSession s \<Rightarrow> Some s | _ \<Rightarrow> None)"

definition stream_of :: "asr_value \<Rightarrow> StreamingTranscriptionResult option" where
  "stream_of v = (case v of ValStream r \<Rightarrow> Some r | _ \<Rightarrow> None)"

definition file_of :: "asr_value \<Rightarrow> TranscriptionResult option" where
  "file_of v = (case v of ValFile r \<Rightarrow> Some r | _ \<Rightarrow> None)"

text \<open>\<open>abort_stream\<close>, which may have nothing to submit.\<close>

definition service_abort ::
  "('h, 'w) asr_transcriber \<Rightarrow> service_clock \<Rightarrow> string \<Rightarrow> (('h, 'w) service, unit) py_method" where
  "service_abort T K sid = (\<lambda>(c, n).
     case abort_stream sid (sk_now K n) c of
       (Inl e, d) \<Rightarrow> (Inl e, (d, Suc n))
     | (Inr None, d) \<Rightarrow> (Inr (), (d, Suc n))
     | (Inr (Some job), d) \<Rightarrow>
         (case co_call T (sk_now K n) (sk_took K n) (\<lambda>_. (Inr job, d)) c of
            (r, d') \<Rightarrow> (map_sum id (\<lambda>_. ()) r, (d', Suc n))))"

definition coordinator_service ::
  "('h, 'w) asr_transcriber \<Rightarrow> service_clock \<Rightarrow> ('h, 'w) service stream_coordinator" where
  "coordinator_service T K =
     \<lparr>ca_start = py_modify (apfst co_start),
      ca_snapshot = (\<lambda>(c, n). co_snapshot c),
      ca_create_stream = (\<lambda>l. service_call T K (\<lambda>i now. create_stream i l now) session_of),
      ca_add_audio = (\<lambda>s p rate. service_call T K (\<lambda>i. co_add_audio s p rate) stream_of),
      ca_finish_segment = (\<lambda>s. service_call T K (\<lambda>i. co_finish_segment s) stream_of),
      ca_finish_stream = (\<lambda>s. service_call T K (\<lambda>i. finish_stream s) stream_of),
      ca_abort_stream = service_abort T K,
      ca_stop = (\<lambda>(c, n). case co_stop (sk_now K n) c of (r, d) \<Rightarrow> (r, (d, Suc n))),
      sa_create_chunked_stream = (\<lambda>l. service_call T K (\<lambda>i now. create_chunked_stream i l now) session_of),
      sa_transcribe_stream_chunk = (\<lambda>s f l audio. service_call T K
        (\<lambda>i now. transcribe_stream_chunk s (fst f) l audio now) file_of)\<rparr>"

section \<open>A concrete service\<close>

text \<open>The mock transcriber behind a booted coordinator, a quiet socket, the energy detector and a clock
  that stands still.\<close>

definition example_stream_settings :: StreamSettings where
  "example_stream_settings = Settings.extend example_settings
     \<lparr>asr_vad_silence_seconds = 3 / 2, asr_vad_rms_threshold = 200, asr_commit_on_punctuation = False,
      asr_stable_commit_enabled = True, asr_stable_commit_seconds = 1, asr_stable_commit_min_chars = 8,
      asr_stable_commit_min_updates = 2\<rparr>"

definition example_service_clock :: service_clock where
  "example_service_clock = \<lparr>sk_now = (\<lambda>_. 0), sk_took = (\<lambda>_. 0), sk_uuid = (\<lambda>_. ''a'')\<rparr>"

definition example_stream_env :: "((nat, MockASRStreamingSession list) service, int) stream_env" where
  "example_stream_env =
     \<lparr>se_settings = example_stream_settings, se_db = ascii_db,
      se_coordinator = coordinator_service mock_asr example_service_clock,
      se_vad_backend = EnergyVADBackend, se_create_vad = Inr example_detector, se_clock = (\<lambda>_. 0),
      se_send = (\<lambda>_. Inr ()), se_close = (\<lambda>_. Inr ()), se_temp_path = (\<lambda>_. []),
      se_write_wav = (\<lambda>_. (True, Inr ()))\<rparr>"

definition example_controller :: "((nat, MockASRStreamingSession list) service, int) StreamingSessionController" where
  "example_controller =
     (case st_init example_stream_env None (example_booted, 0) of Inr s \<Rightarrow> s | Inl _ \<Rightarrow> undefined)"

definition example_start :: json where
  "example_start = JObj [(lit ''type'', JStr (lit ''start'')), (lit ''api_key'', JStr (replicate 40 120))]"

definition example_messages :: "incoming list" where
  "example_messages = [AudioBytes [0, 0, 0, 0], TextMessage (Inr (JObj [(lit ''type'', JStr (lit ''end''))]))]"

lemma example_settings_fields:
  "asr_stream_mode example_stream_settings = ModeStateful" "asr_backend example_stream_settings = BackendQwenVllm"
  "asr_max_frame_bytes example_stream_settings = 16000" "asr_max_session_seconds example_stream_settings = 1800"
  "asr_max_audio_seconds example_stream_settings = 1800" "api_key example_stream_settings = replicate 40 120"
  "asr_max_connection_lag_seconds example_stream_settings = 2" "asr_max_undecoded_age_seconds example_stream_settings = 4"
  by (simp_all add: example_stream_settings_def Settings.extend_def example_settings_def)

lemma example_controller_init: "st_init example_stream_env None (example_booted, 0) = Inr example_controller"
  by (simp add: example_controller_def st_init_def example_stream_env_def example_settings_fields Let_def)

end
