(* ===== verification/StreamApiSafety.thy ===== *)
theory StreamApiSafety
  imports StreamCoordinator
begin

text \<open>
  What the single-process service promises whatever its coordinator answers, its socket does and its
  clock shows: events are numbered upwards and nothing follows the end of a stream, no
  coordinator session and no temporary file outlives its connection, only frames within
  the limit reach the model, and audio that went through the endpoint detector is accounted for.
\<close>

section \<open>The books of a connection\<close>

text \<open>The sessions opened and not yet released, over the calls of a connection.\<close>

definition note_call :: "string list \<Rightarrow> coordinator_call \<Rightarrow> string list" where
  "note_call sids entry =
     (case entry of Opened i \<Rightarrow> sids @ [i] | Released i \<Rightarrow> removeAll i sids | _ \<Rightarrow> sids)"

definition open_sessions :: "coordinator_call list \<Rightarrow> string list" where
  "open_sessions calls = foldl note_call [] calls"

lemma open_sessions_simps [simp]:
  "open_sessions [] = []" "open_sessions (cs @ [c]) = note_call (open_sessions cs) c"
  by (simp_all add: open_sessions_def)

lemma note_call_simps [simp]:
  "note_call sids (Opened i) = sids @ [i]" "note_call sids (Released i) = removeAll i sids"
  "note_call sids (AudioSent i p) = sids" "note_call sids (ChunkSent i p) = sids"
  "note_call sids (SegmentFinished i) = sids"
  by (simp_all add: note_call_def)

text \<open>Audio handed to the coordinator is a nonempty frame within the limit.\<close>

definition call_within :: "StreamSettings \<Rightarrow> coordinator_call \<Rightarrow> bool" where
  "call_within S entry = (case entry of
     AudioSent i p \<Rightarrow> p \<noteq> [] \<and> int (length p) \<le> asr_max_frame_bytes S
   | _ \<Rightarrow> True)"

definition audio_limit :: "StreamSettings \<Rightarrow> int" where
  "audio_limit S = max 0 \<lfloor>asr_max_audio_seconds S * 16000\<rfloor>"

text \<open>The books: every open session is the controller's; calls and counted audio are within limits.
  \<open>ids\<close> bounds what the session may be and which sessions may be open, \<open>fw\<close> fixes the temporary files.\<close>

definition books ::
  "('c, 'v) stream_env \<Rightarrow> string option set \<times> string set \<Rightarrow> nat list \<times> nat \<Rightarrow> ('c, 'v) StreamingSessionController \<Rightarrow> bool" where
  "books E ids fw s \<longleftrightarrow>
     set (open_sessions (sc_calls s)) \<subseteq> set_option (sc_session_id s) \<inter> snd ids \<and>
     list_all (call_within (se_settings E)) (sc_calls s) \<and>
     0 \<le> sc_accepted_samples s \<and> sc_accepted_samples s \<le> audio_limit (se_settings E) \<and>
     (sc_files s, sc_writes s) = fw \<and> sc_session_id s \<in> fst ids \<and> None \<in> fst ids"

text \<open>Everything the books look at.\<close>

definition account :: "('c, 'v) StreamingSessionController \<Rightarrow>
    string option \<times> coordinator_call list \<times> int \<times> nat list \<times> nat" where
  "account s = (sc_session_id s, sc_calls s, sc_accepted_samples s, sc_files s, sc_writes s)"

lemma books_account: "account t = account s \<Longrightarrow> books E ids fw t = books E ids fw s"
  by (simp add: books_def account_def)

lemma triple_account: "keeps account m \<Longrightarrow> triple (books E ids fw) m (\<lambda>_. books E ids fw) (books E ids fw)"
  unfolding keeps_def triple_def by (metis (mono_tags, lifting) books_account case_prod_unfold old.sum.simps(5,6) sum.exhaust)

text \<open>A method that keeps the books, returning or raising; one that only raises keeps them for any result.\<close>

definition balanced :: "('c, 'v) stream_env \<Rightarrow> string option set \<times> string set \<Rightarrow> nat list \<times> nat \<Rightarrow> ('c, 'v, 'a) st_method \<Rightarrow> bool" where
  "balanced E ids fw m \<longleftrightarrow> triple (books E ids fw) m (\<lambda>_. books E ids fw) (books E ids fw)"

lemma balancedI: "keeps account m \<Longrightarrow> balanced E ids fw m"
  by (simp add: balanced_def triple_account)

lemma balanced_bind: "balanced E ids fw m \<Longrightarrow> (\<And>x. balanced E ids fw (f x)) \<Longrightarrow> balanced E ids fw (py_bind m f)"
  unfolding balanced_def by (rule triple_bind)

lemma balanced_seq: "balanced E ids fw m \<Longrightarrow> balanced E ids fw n \<Longrightarrow> balanced E ids fw (py_seq m n)"
  unfolding balanced_def by (rule triple_seq)

lemma balanced_for: "(\<And>x. x \<in> set xs \<Longrightarrow> balanced E ids fw (f x)) \<Longrightarrow> balanced E ids fw (py_for xs f)"
  unfolding balanced_def by (rule triple_for)

lemma balanced_finally: "balanced E ids fw m \<Longrightarrow> balanced E ids fw f \<Longrightarrow> balanced E ids fw (py_finally m f)"
  unfolding balanced_def by (rule triple_finally)

lemma balanced_except: "balanced E ids fw m \<Longrightarrow> (\<And>e. balanced E ids fw (h e)) \<Longrightarrow> balanced E ids fw (py_except m h)"
  unfolding balanced_def by (rule triple_except)

lemma balanced_basic [simp]:
  "balanced E ids fw (py_return x)" "balanced E ids fw (py_raise e)" "balanced E ids fw (py_read g)"
  by (simp_all add: balanced_def)

lemma balanced_if: "(b \<Longrightarrow> balanced E ids fw m) \<Longrightarrow> (\<not> b \<Longrightarrow> balanced E ids fw n) \<Longrightarrow> balanced E ids fw (if b then m else n)"
  by simp

lemma balanced_when [intro]: "(b \<Longrightarrow> balanced E ids fw m) \<Longrightarrow> balanced E ids fw (st_when b m)"
  by (simp add: st_when_def)

lemmas balanced_rules = balanced_bind balanced_seq balanced_for balanced_finally balanced_except balanced_if balanced_when

text \<open>The parts that never touch the books.\<close>

lemma account_parts [simp]:
  "keeps account (st_now E)" "keeps account (st_send_json E m)" "keeps account (st_close_socket E c)"
  "keeps account (on_transcript f)" "keeps account (st_vad g)" "keeps account st_session" "keeps account (on_silence h)"
  "keeps account (st_lag_exceeded S a b)"
  by (auto simp: on_silence_def st_lag_exceeded_def Let_def keeps_def account_def st_now_def st_send_json_def st_close_socket_def on_transcript_def
      st_vad_def st_session_def split: sum.split prod.split option.split)

lemma balanced_parts [simp]:
  "balanced E ids fw (st_now E)" "balanced E ids fw (st_send_json E m)" "balanced E ids fw (st_close_socket E c)"
  "balanced E ids fw (on_transcript f)" "balanced E ids fw (st_vad g)" "balanced E ids fw st_session"
  "balanced E ids fw (on_silence h)" "balanced E ids fw (st_lag_exceeded S a b)"
  by (simp_all add: balancedI)

lemma st_fail_balanced [simp]: "balanced E ids fw (st_fail E code message close_code)"
  unfolding st_fail_def by (intro balanced_rules) simp_all

text \<open>A failure always raises, so it may claim any result.\<close>

lemma triple_fail_closed [simp]: "triple (books E ids fw) (st_fail_closed E f) Q (books E ids fw)"
proof -
  obtain code message close_code where f: "f = (code, message, close_code)" by (cases f)
  show ?thesis unfolding f st_fail_closed_def prod.case
    by (rule triple_seq [OF st_fail_balanced [unfolded balanced_def]]) simp
qed

lemma triple_failing:
  assumes "triple P m Q (books E ids fw)"
  shows "triple P (failing E clauses m) Q (books E ids fw)"
  unfolding failing_def except_exception_def
  by (rule triple_except [OF assms]) (simp split: option.split)

lemma st_abort_quietly_state:
  "\<exists>r c. st_abort_quietly E i s = (r, s\<lparr>sc_coordinator := c, sc_calls := sc_calls s @ [Released i]\<rparr>)"
  by (auto simp: st_abort_quietly_def except_exception_def py_except_def st_call_def py_return_def py_raise_def
      split: prod.split sum.split)

lemma st_abort_state:
  "st_abort E s = (case sc_session_id s of None \<Rightarrow> (Inr (), s) | Some i \<Rightarrow> st_abort_quietly E i (s\<lparr>sc_session_id := None\<rparr>))"
  by (cases s) (simp add: st_abort_def st_take_session_def method_defs split: option.split)

lemma st_abort_balanced [simp]: "balanced E ids fw (st_abort E)"
  unfolding balanced_def
proof (rule triple_intro)
  fix s assume b: "books E ids fw s"
  show "case st_abort E s of (Inl e, t) \<Rightarrow> books E ids fw t | (Inr x, t) \<Rightarrow> books E ids fw t"
  proof (cases "sc_session_id s")
    case None
    with b show ?thesis by (simp add: st_abort_state)
  next
    case (Some i)
    obtain r c where "st_abort E s = (r, s\<lparr>sc_session_id := None, sc_coordinator := c, sc_calls := sc_calls s @ [Released i]\<rparr>)"
      using st_abort_quietly_state [of E i "s\<lparr>sc_session_id := None\<rparr>"] Some by (auto simp: st_abort_state)
    with b Some show ?thesis by (cases r) (auto simp: books_def call_within_def)
  qed
qed

lemma triple_expire [simp]: "triple (books E ids fw) (st_expire_session E) Q (books E ids fw)"
  unfolding st_expire_session_def
  by (rule triple_seq [OF st_abort_balanced [unfolded balanced_def]]) simp

lemma balanced_expire [simp]: "balanced E ids fw (st_expire_session E)"
  by (simp add: balanced_def)

lemma balanced_fail_closed [simp]: "balanced E ids fw (st_fail_closed E f)"
  by (simp add: balanced_def)

lemma st_remaining_balanced [simp]: "balanced E ids fw (st_remaining_session_seconds E)"
  unfolding st_remaining_session_seconds_def by (intro balanced_rules) simp_all

lemma st_ensure_balanced [simp]: "balanced E ids fw (st_ensure_session_active E)"
  unfolding st_ensure_session_active_def
  by (intro balanced_rules) simp_all

lemma triple_within:
  assumes "triple (books E ids fw) m Q (books E ids fw)"
  shows "triple (books E ids fw) (st_within_session E m) Q (books E ids fw)"
  unfolding st_within_session_def
  by (rule triple_seq [OF st_ensure_balanced [unfolded balanced_def]], rule triple_except [OF assms])
    (simp split: py_error.split)

lemma balanced_within: "balanced E ids fw m \<Longrightarrow> balanced E ids fw (st_within_session E m)"
  unfolding balanced_def by (rule triple_within)

lemma balanced_failing: "balanced E ids fw m \<Longrightarrow> balanced E ids fw (failing E clauses m)"
  unfolding balanced_def by (rule triple_failing)

lemma st_call_balanced:
  "(\<And>c. c \<in> set entry \<Longrightarrow> (\<forall>i. c \<noteq> Opened i) \<and> call_within (se_settings E) c) \<Longrightarrow> length entry \<le> 1 \<Longrightarrow>
   balanced E ids fw (st_call entry m)"
  by (cases entry) (auto simp: balanced_def triple_def st_call_def books_def note_call_def subset_iff
      split: prod.splits sum.splits coordinator_call.splits)

lemma st_send_event_balanced [simp]: "balanced E ids fw (st_send_event E e)"
  unfolding st_send_event_def by (simp add: balanced_within)

lemma st_send_events_balanced [simp]: "balanced E ids fw (st_send_events E es)"
  unfolding st_send_events_def by (intro balanced_rules) simp_all

lemma st_apply_balanced [simp]: "balanced E ids fw (st_apply_stream_result E r)"
  unfolding st_apply_stream_result_def by (intro balanced_rules) simp_all

lemma balanced_modify: "(\<And>s. account (f s) = account s) \<Longrightarrow> balanced E ids fw (py_modify f)"
  by (rule balancedI) simp

lemma st_commit_balanced [simp]: "balanced E ids fw (st_commit_finished_segment E b)"
  unfolding st_commit_finished_segment_def by (intro balanced_rules balanced_modify) (simp_all add: account_def)

lemma st_observe_balanced [simp]:
  fixes E :: "('c, 'v) stream_env"
  shows "balanced E ids fw (st_observe E r n)"
proof (rule balancedI)
  have "keeps account (\<lambda>s :: ('c, 'v) StreamingSessionController.
      case st_observe_stream_progress (se_settings E) now r n s of (report, t) \<Rightarrow> (Inr report, t))" for now
    by (simp add: keeps_def st_observe_stream_progress_def Let_def account_def)
  then show "keeps account (st_observe E r n)"
    unfolding st_observe_def by (intro keeps_bind) simp_all
qed

lemma st_enforce_balanced [simp]: "balanced E ids fw (st_enforce_stream_progress E r n)"
  unfolding st_enforce_stream_progress_def by (intro balanced_rules) simp_all

lemma st_snapshots_balanced [simp]: "balanced E ids fw (st_apply_snapshots E rs)"
  by (induction rs) (auto intro!: balanced_rules)

text \<open>Every frame handed on is within the limit.\<close>

definition frame_within :: "('c, 'v) stream_env \<Rightarrow> pcm \<Rightarrow> bool" where
  "frame_within E p \<longleftrightarrow> p \<noteq> [] \<and> int (length p) \<le> asr_max_frame_bytes (se_settings E)"

lemma st_add_model_audio_balanced: "frame_within E p \<Longrightarrow> balanced E ids fw (st_add_model_audio E p)"
  unfolding st_add_model_audio_def st_await_model_operation_def
  by (intro balanced_rules balanced_within balanced_failing st_call_balanced) (auto simp: call_within_def frame_within_def)

lemma pieces_within: "set (pieces n p) \<subseteq> {q. q \<noteq> [] \<and> length q \<le> n}"
  by (induction n p rule: pieces.induct) (subst pieces.simps, auto)

lemma concat_pieces: "0 < n \<Longrightarrow> concat (pieces n p) = p"
  by (induction n p rule: pieces.induct) (subst pieces.simps, simp)

lemma st_add_pieces_balanced:
  "list_all (frame_within E) ps \<Longrightarrow> balanced E ids fw (st_add_pieces E r ps)"
  by (induction ps arbitrary: r) (auto intro!: balanced_rules st_add_model_audio_balanced)

lemma pieces_frames: "list_all (frame_within E) (pieces (nat (asr_max_frame_bytes (se_settings E))) p)"
proof -
  have "int (length q) \<le> m" if "q \<noteq> []" and "length q \<le> nat m" for q :: pcm and m
    using that by (cases "0 \<le> m") auto
  then show ?thesis using pieces_within [of "nat (asr_max_frame_bytes (se_settings E))" p]
    by (auto simp: list_all_iff frame_within_def)
qed

lemma st_add_vad_audio_balanced [simp]: "balanced E ids fw (st_add_vad_audio E p)"
  unfolding st_add_vad_audio_def by (rule st_add_pieces_balanced [OF pieces_frames])

lemma st_reset_segment_balanced [simp]: "balanced E ids fw (st_reset_segment E b)"
  unfolding st_reset_segment_def st_await_model_operation_def
  by (intro balanced_rules balanced_within balanced_failing st_call_balanced) (auto simp: call_within_def)

lemma st_handle_vad_decision_balanced [simp]: "balanced E ids fw (st_handle_vad_decision E d)"
  unfolding st_handle_vad_decision_def by (intro balanced_rules) auto

lemma st_vad_rounds_balanced [simp]: "balanced E ids fw (st_vad_rounds E n d)"
  by (induction n arbitrary: d) (auto intro!: balanced_rules)

text \<open>What a validated frame satisfies.\<close>

lemma st_validate_triple:
  "triple (books E ids fw) (st_validate_audio_frame E p) (\<lambda>_ s. books E ids fw s \<and> frame_within E p) (books E ids fw)"
  unfolding st_validate_audio_frame_def
proof (rule triple_if)
  let ?Q = "\<lambda>_ s. books E ids fw s \<and> frame_within E p"
  assume "\<not> (p = [] \<or> odd (length p))"
  then have "p \<noteq> []" by simp
  show "triple (books E ids fw) (if asr_max_frame_bytes (se_settings E) < int (length p)
      then st_fail_closed E (''frame_too_large'', ''Audio frame exceeds the configured limit'', 1009)
      else py_bind (py_read sc_accepted_samples) (\<lambda>accepted.
        let sample_count = int (length p div 2); max_samples = \<lfloor>asr_max_audio_seconds (se_settings E) * 16000\<rfloor>
        in if max_samples < accepted + sample_count
           then st_fail_closed E (''audio_limit_exceeded'', ''Maximum audio duration exceeded'', 1008)
           else py_seq (py_modify (\<lambda>s. s\<lparr>sc_accepted_samples := accepted + sample_count\<rparr>)) (py_return sample_count)))
      ?Q (books E ids fw)"
  proof (rule triple_if)
    assume fits: "\<not> asr_max_frame_bytes (se_settings E) < int (length p)"
    show "triple (books E ids fw) (py_bind (py_read sc_accepted_samples) (\<lambda>accepted.
        let sample_count = int (length p div 2); max_samples = \<lfloor>asr_max_audio_seconds (se_settings E) * 16000\<rfloor>
        in if max_samples < accepted + sample_count
           then st_fail_closed E (''audio_limit_exceeded'', ''Maximum audio duration exceeded'', 1008)
           else py_seq (py_modify (\<lambda>s. s\<lparr>sc_accepted_samples := accepted + sample_count\<rparr>)) (py_return sample_count)))
      ?Q (books E ids fw)"
      unfolding Let_def
      by (intro triple_bind_read triple_if, rule triple_pre [OF _ triple_fail_closed])
        (use fits \<open>p \<noteq> []\<close> in \<open>auto simp: triple_def method_defs books_def audio_limit_def frame_within_def\<close>)
  qed simp
qed simp

lemma st_add_audio_balanced [simp]: "balanced E ids fw (st_add_audio E p)"
  unfolding balanced_def st_add_audio_def
proof (rule triple_seq [OF st_validate_triple [THEN triple_conseq]])
  show "books E ids fw s \<and> frame_within E p \<Longrightarrow> books E ids fw s \<and> frame_within E p" for s .
  let ?rest = "py_bind (py_read (\<lambda>s. sc_vad s \<noteq> None)) (\<lambda>with_vad.
      if with_vad then
        py_bind (st_vad (\<lambda>d. vd_add_audio (se_vad_backend E) d p)) (\<lambda>decision.
        py_bind (py_read vad_rounds) (\<lambda>fuel. st_vad_rounds E fuel decision))
      else
        py_bind (st_add_model_audio E p) (\<lambda>r.
        py_bind (on_silence (\<lambda>d. sd_add_audio d p 16000)) (\<lambda>silence_endpoint.
          if segment_done (Some r) then st_commit_finished_segment E False
          else st_when silence_endpoint (st_reset_segment E True))))"
  have "balanced E ids fw ?rest" if "frame_within E p"
    by (intro balanced_rules st_add_model_audio_balanced that) simp_all
  then show "triple (\<lambda>s. books E ids fw s \<and> frame_within E p) ?rest (\<lambda>_. books E ids fw) (books E ids fw)"
    by (auto simp: balanced_def triple_def)
qed

lemma st_explicit_segment_balanced [simp]: "balanced E ids fw (st_explicit_segment E)"
  unfolding st_explicit_segment_def
  by (intro balanced_rules balanced_modify) (auto simp: account_def intro!: balanced_rules)

text \<open>Finishing: the session is given up only after the coordinator finished it.\<close>

lemma st_log_released:
  "triple (books E ({None, Some i}, K) fw) (st_log (Released i)) (\<lambda>_. books E ({None, Some i}, {}) fw) R"
  by (auto simp: triple_def st_log_def py_modify_def books_def call_within_def removeAll_filter_not_eq filter_empty_conv)

lemma books_mono:
  "books E (I, K) fw s \<Longrightarrow> None \<in> J \<Longrightarrow> (\<And>i. Some i \<in> I \<Longrightarrow> Some i \<in> J) \<Longrightarrow> K \<subseteq> L \<Longrightarrow> books E (J, L) fw s"
  by (cases "sc_session_id s") (auto simp: books_def)

lemma st_finish_steps_triple:
  "triple (books E ({None, Some i}, K) fw) (st_finish_steps E i) (\<lambda>_. books E ({None, Some i}, {}) fw)
     (books E ({None, Some i}, K) fw)"
  unfolding st_finish_steps_def
proof (rule triple_bind [OF balanced_basic(3) [unfolded balanced_def]], rule triple_seq)
  let ?P = "books E ({None, Some i}, K) fw" and ?Q = "books E ({None, Some i}, {}) fw"
  fix with_vad
  show "triple ?P (st_when with_vad (py_bind (st_vad (vd_finish_input (se_vad_backend E))) (\<lambda>pending.
      st_when (audio_to_model pending \<noteq> []) (py_bind (st_add_vad_audio E (audio_to_model pending)) (\<lambda>_. py_return ())))))
      (\<lambda>_. ?P) ?P"
    unfolding balanced_def [symmetric] by (intro balanced_rules) simp_all
  have call: "triple ?P (st_await_model_operation E (py_bind (st_call [] (ca_finish_stream (se_coordinator E) i)) (\<lambda>r.
      py_seq (st_log (Released i)) (py_return r)))) (\<lambda>_. ?Q) ?P"
    unfolding st_await_model_operation_def
    by (rule triple_within, rule triple_bind [OF st_call_balanced [unfolded balanced_def]])
      (auto intro: triple_seq [OF st_log_released])
  have rest: "balanced E ({None, Some i}, {}) fw (py_seq (st_ensure_session_active E)
      (py_seq (st_enforce_stream_progress E r 0) (py_seq (st_apply_stream_result E r)
        (py_bind (on_transcript (\<lambda>t. apfst Inr (ts_final_event t))) (st_send_event E)))))" for r
    by (intro balanced_rules) simp_all
  show "triple ?P (py_bind (st_await_model_operation E (py_bind (st_call [] (ca_finish_stream (se_coordinator E) i)) (\<lambda>r.
      py_seq (st_log (Released i)) (py_return r)))) (\<lambda>r. py_seq (st_ensure_session_active E)
      (py_seq (st_enforce_stream_progress E r 0) (py_seq (st_apply_stream_result E r)
        (py_bind (on_transcript (\<lambda>t. apfst Inr (ts_final_event t))) (st_send_event E))))))
      (\<lambda>_. ?Q) ?P"
    by (rule triple_bind [OF call], rule triple_conseq [OF rest [unfolded balanced_def]]) (auto intro: books_mono)
qed

lemma st_finish_balanced [simp]: "balanced E ids fw (st_finish E)"
proof -
  define I K where "I = fst ids" and "K = snd ids"
  then have ids: "ids = (I, K)" by simp
  let ?R = "\<lambda>i s. books E ({None, Some i}, K) fw s \<and> Some i \<in> I \<and> None \<in> I"
  have session: "triple (books E ids fw) st_session ?R (books E ids fw)"
    by (auto simp: triple_def st_session_def books_def ids split: option.split)
  have "triple (?R i) (py_seq (failing E finish_clauses (st_finish_steps E i))
      (py_seq (py_modify (\<lambda>s. s\<lparr>sc_finished := True, sc_session_id := None\<rparr>)) (st_close_socket E 1000)))
     (\<lambda>_. books E ids fw) (books E ids fw)" for i
  proof (cases "Some i \<in> I \<and> None \<in> I")
    case True
    then have wider: "books E ids fw s" if "books E ({None, Some i}, K) fw s" for s
      using that by (auto simp: ids intro: books_mono)
    have close: "triple (books E ({None, Some i}, {}) fw) (py_seq (py_modify (\<lambda>s. s\<lparr>sc_finished := True, sc_session_id := None\<rparr>))
        (st_close_socket E 1000)) (\<lambda>_. books E ids fw) (books E ids fw)"
      by (rule triple_seq [where R = "books E ids fw"])
        (use True in \<open>auto simp: books_def ids intro: balanced_parts(3) [unfolded balanced_def]\<close>)
    show ?thesis
      by (rule triple_seq [OF triple_conseq [OF triple_failing [OF st_finish_steps_triple]] close]) (use wider in auto)
  qed (auto simp: triple_def)
  with session show ?thesis unfolding balanced_def st_finish_def by (intro triple_bind)
qed

text \<open>Starting: the coordinator opened at most the session the controller takes.\<close>

lemma st_start_with_triple:
  "triple (books E ({None}, {}) fw) (st_start_with E create language) (\<lambda>_. books E (UNIV, UNIV) fw) (books E (UNIV, UNIV) fw)"
proof -
  let ?Q = "\<lambda>i s. books E (UNIV, UNIV) fw (s\<lparr>sc_session_id := Some i\<rparr>)"
  have log: "triple (books E ({None}, {}) fw) (py_seq (st_log (Opened i)) (py_return i)) ?Q (books E ({None}, {}) fw)" for i
    by (auto simp: triple_def st_log_def method_defs books_def call_within_def)
  have "triple (books E ({None}, {}) fw) (failing E start_clauses (st_await_model_operation E
      (py_bind (st_call [] (create language)) (\<lambda>i. py_seq (st_log (Opened i)) (py_return i))))) ?Q (books E ({None}, {}) fw)"
    unfolding st_await_model_operation_def
    by (intro triple_failing triple_within, rule triple_bind [OF st_call_balanced [unfolded balanced_def] log]) auto
  then have create: "triple (books E ({None}, {}) fw) (failing E start_clauses (st_await_model_operation E
      (py_bind (st_call [] (create language)) (\<lambda>i. py_seq (st_log (Opened i)) (py_return i))))) ?Q (books E (UNIV, UNIV) fw)"
    by (rule triple_conseq) (auto intro: books_mono)
  have rest: "balanced E (UNIV, UNIV) fw (py_seq (st_ensure_session_active E)
      (py_bind (on_transcript (\<lambda>t. apfst Inr (ts_new_event ''ready'' [] t))) (st_send_event E)))"
    by (intro balanced_rules) simp_all
  show ?thesis
    unfolding st_start_with_def
    by (rule triple_seq [OF triple_bind [OF create] rest [unfolded balanced_def]]) (simp add: triple_def py_modify_def)
qed

lemma failures_balanced [simp]:
  "balanced E ids fw (session_timeout_failure E)" "balanced E ids fw (receive_timeout_failure E r)"
  "balanced E ids fw (invalid_message E m)"
  by (simp_all add: session_timeout_failure_def receive_timeout_failure_def invalid_message_def)

lemma st_stateful_loop_balanced [simp]: "balanced E ids fw (st_stateful_loop E ms)"
proof (induction E ms rule: st_stateful_loop.induct)
  case (2 E m rest)
  then show ?case
    by (auto intro!: balanced_rules split: incoming.split sum.split json.split py_error.split)
qed (auto intro!: balanced_rules)

lemma parse_balanced [simp]: "balanced E ids fw (parse_stream_start E decoded)"
proof -
  have "balanced E ids fw (st_fail_start E f)" for f
    by (cases f) (auto simp: st_fail_start_def intro!: balanced_rules)
  then show ?thesis
    by (auto simp: parse_stream_start_def split: sum.split py_error.split json.split option.split)
qed

text \<open>The temporary files: those of failed writes are lost, every other one is removed.\<close>

definition lost_files :: "('c, 'v) stream_env \<Rightarrow> nat \<Rightarrow> nat list" where
  "lost_files E n = filter (\<lambda>k. fst (se_write_wav E k) \<and> \<not> isOk (snd (se_write_wav E k))) [0..<n]"

definition filed ::
  "('c, 'v) stream_env \<Rightarrow> string option set \<times> string set \<Rightarrow> ('c, 'v) StreamingSessionController \<Rightarrow> bool" where
  "filed E ids s \<longleftrightarrow> books E ids (lost_files E (sc_writes s), sc_writes s) s"

definition files_balanced :: "('c, 'v) stream_env \<Rightarrow> string option set \<times> string set \<Rightarrow> ('c, 'v, 'a) st_method \<Rightarrow> bool" where
  "files_balanced E ids m \<longleftrightarrow> triple (filed E ids) m (\<lambda>_. filed E ids) (filed E ids)"

lemma filed_books: "books E ids (lost_files E n, n) s \<Longrightarrow> filed E ids s"
  by (auto simp: filed_def books_def)

lemma triple_filed:
  assumes "\<And>fw. triple (books E ids fw) m (\<lambda>_. books E ids' fw) (books E ids' fw)"
  shows "triple (filed E ids) m (\<lambda>_. filed E ids') (filed E ids')"
proof (rule triple_intro)
  fix s assume "filed E ids s"
  then have "books E ids (lost_files E (sc_writes s), sc_writes s) s" by (simp add: filed_def)
  note kept = tripleD [OF assms this, THEN filed_books] tripleE [OF assms this, THEN filed_books]
  show "case m s of (Inl e, t) \<Rightarrow> filed E ids' t | (Inr x, t) \<Rightarrow> filed E ids' t"
    using kept by (cases "m s"; cases "fst (m s)") auto
qed

lemma files_balancedI: "(\<And>fw. balanced E ids fw m) \<Longrightarrow> files_balanced E ids m"
  unfolding files_balanced_def balanced_def by (rule triple_filed)

lemma files_balanced_bind:
  "files_balanced E ids m \<Longrightarrow> (\<And>x. files_balanced E ids (f x)) \<Longrightarrow> files_balanced E ids (py_bind m f)"
  unfolding files_balanced_def by (rule triple_bind)

lemma files_balanced_seq: "files_balanced E ids m \<Longrightarrow> files_balanced E ids n \<Longrightarrow> files_balanced E ids (py_seq m n)"
  unfolding files_balanced_def by (rule triple_seq)

lemma files_balanced_if:
  "(b \<Longrightarrow> files_balanced E ids m) \<Longrightarrow> (\<not> b \<Longrightarrow> files_balanced E ids n) \<Longrightarrow> files_balanced E ids (if b then m else n)"
  by simp

lemma files_balanced_when: "(b \<Longrightarrow> files_balanced E ids m) \<Longrightarrow> files_balanced E ids (st_when b m)"
  by (simp add: st_when_def files_balanced_def)

lemmas files_rules = files_balanced_bind files_balanced_seq files_balanced_if files_balanced_when

lemma lost_files_Suc [simp]:
  "lost_files E (Suc n) = lost_files E n @ (if fst (se_write_wav E n) \<and> \<not> isOk (snd (se_write_wav E n)) then [n] else [])"
  by (simp add: lost_files_def)

lemma removeAll_lost: "removeAll n (lost_files E n) = lost_files E n"
  by (auto simp: lost_files_def intro!: removeAll_id)

lemma st_write_wav_triple:
  "triple (filed E ids) (st_write_wav E)
     (\<lambda>n s. \<exists>fs. fs \<in> {lost_files E n, lost_files E n @ [n]} \<and> isOk (snd (se_write_wav E n)) \<and> books E ids (fs, Suc n) s)
     (filed E ids)"
proof (rule triple_intro)
  fix s assume s: "filed E ids s"
  obtain there r where w: "se_write_wav E (sc_writes s) = (there, r)" by fastforce
  from s w show "case st_write_wav E s of (Inl e, t) \<Rightarrow> filed E ids t
      | (Inr n, t) \<Rightarrow> \<exists>fs. fs \<in> {lost_files E n, lost_files E n @ [n]} \<and> isOk (snd (se_write_wav E n)) \<and> books E ids (fs, Suc n) t"
    by (cases r) (auto simp: st_write_wav_def Let_def filed_def books_def)
qed

lemma st_remove_file_triple:
  "fs \<in> {lost_files E n, lost_files E n @ [n]} \<Longrightarrow> isOk (snd (se_write_wav E n)) \<Longrightarrow>
   triple (books E ids (fs, Suc n)) (st_remove_file n) (\<lambda>_. filed E ids) (filed E ids)"
  by (auto simp: triple_def st_remove_file_def py_modify_def filed_def books_def removeAll_lost)

lemma st_now_triple: "triple (books E ids fw) (st_now E) (\<lambda>_. books E ids fw) R"
  by (simp add: triple_def st_now_def books_def)

lemma st_transcribe_chunk_files: "files_balanced E ids (st_transcribe_chunk E p language)"
  unfolding files_balanced_def st_transcribe_chunk_def Let_def
proof (rule triple_bind [OF st_write_wav_triple])
  fix n
  let ?call = "failing E (operation_clauses ''ASR inference failed'')
      (py_bind st_session (\<lambda>i. st_await_model_operation E (st_call [ChunkSent i p]
        (sa_transcribe_stream_chunk (se_coordinator E) i (se_temp_path E n, p) language (of_nat (length p div 2) / 16000)))))"
  let ?rest = "\<lambda>started r. py_seq (st_ensure_session_active E) (py_bind (st_now E) (\<lambda>now.
      py_bind (st_lag_exceeded (se_settings E) (now - started) (of_nat (length p div 2) / 16000)) (\<lambda>exceeded. if exceeded then st_fail_closed E lag_failure else py_return (tr_text r))))"
  have call: "balanced E ids fw ?call" for fw
    unfolding st_await_model_operation_def
    by (intro balanced_failing balanced_rules balanced_within st_call_balanced) (auto simp: call_within_def)
  have rest: "files_balanced E ids (?rest started r)" for started r
    by (intro files_balancedI balanced_rules) simp_all
  show "triple (\<lambda>s. \<exists>fs. fs \<in> {lost_files E n, lost_files E n @ [n]} \<and> isOk (snd (se_write_wav E n)) \<and> books E ids (fs, Suc n) s)
      (py_bind (st_now E) (\<lambda>started. py_bind (py_finally ?call (st_remove_file n)) (?rest started)))
      (\<lambda>_. filed E ids) (filed E ids)" (is "triple ?P _ _ _")
  proof (rule triple_intro)
    fix s assume "?P s"
    then obtain fs where fs: "fs \<in> {lost_files E n, lost_files E n @ [n]}" "isOk (snd (se_write_wav E n))" "books E ids (fs, Suc n) s" by blast
    note remove = st_remove_file_triple [OF fs(1,2), of ids]
    have "triple (books E ids (fs, Suc n)) (py_bind (st_now E) (\<lambda>started. py_bind (py_finally ?call (st_remove_file n)) (?rest started)))
      (\<lambda>_. filed E ids) (filed E ids)"
      by (rule triple_bind [OF st_now_triple], rule triple_bind [OF triple_finally [OF call [unfolded balanced_def] remove remove]])
        (rule rest [unfolded files_balanced_def])
    with fs(3) show "case py_bind (st_now E) (\<lambda>started. py_bind (py_finally ?call (st_remove_file n)) (?rest started)) s of
        (Inl e, t) \<Rightarrow> filed E ids t | (Inr x, t) \<Rightarrow> filed E ids t"
      by (simp add: triple_def)
  qed
qed

lemma st_flush_files: "files_balanced E ids (st_flush_chunked_buffer E buffer language detector b)"
  unfolding st_flush_chunked_buffer_def
  by (intro files_rules st_transcribe_chunk_files files_balancedI balanced_rules balanced_modify) (simp_all add: account_def)

lemma closed_by_balanced: "balanced E ids fw m \<Longrightarrow> balanced E ids fw (closed_by m)"
  unfolding closed_by_def by (intro balanced_rules) simp_all

lemma st_validate_files: "files_balanced E ids (st_validate_audio_frame E p)"
proof (rule files_balancedI)
  show "balanced E ids fw (st_validate_audio_frame E p)" for fw
    unfolding balanced_def by (rule triple_conseq [OF st_validate_triple]) auto
qed

lemma st_chunked_loop_files: "files_balanced E ids (st_chunked_loop E language rate buffer detector ms)"
proof (induction ms arbitrary: buffer detector)
  case Nil
  show ?case by (auto intro!: files_balancedI balanced_rules closed_by_balanced)
next
  case (Cons m rest)
  have step: "files_balanced E ids (case sd_add_audio d p rate of (silence_endpoint, d) \<Rightarrow>
      py_seq (st_when silence_endpoint (py_bind (on_transcript (\<lambda>t. apfst Inr (ts_commit_pending t))) (st_send_events E)))
        (st_chunked_loop E language rate held d rest))" for held d p
  proof (cases "sd_add_audio d p rate")
    case (Pair b d')
    have "files_balanced E ids (st_when b (py_bind (on_transcript (\<lambda>t. apfst Inr (ts_commit_pending t))) (st_send_events E)))"
      by (intro files_balancedI balanced_rules) simp_all
    with Cons show ?thesis by (simp add: Pair files_balanced_seq)
  qed
  have flush: "files_balanced E ids (py_bind (st_flush_chunked_buffer E b language d c) (\<lambda>d. py_return (f d)))" for b d c f
    by (rule files_balanced_bind [OF st_flush_files]) (simp add: files_balancedI)
  have timeout: "files_balanced E ids (closed_by (receive_timeout_failure E r))" "files_balanced E ids (closed_by (session_timeout_failure E))" for r
    by (intro files_balancedI closed_by_balanced failures_balanced)+
  have quiet: "files_balanced E ids (py_raise e)" "files_balanced E ids (py_return x)" for e x
    by (simp_all add: files_balancedI)
  have fail: "files_balanced E ids (closed_by (invalid_message E x))" for x
    by (intro files_balancedI closed_by_balanced failures_balanced)
  have finish: "files_balanced E ids (py_bind (st_flush_chunked_buffer E buffer language detector False) (\<lambda>_.
         py_seq (st_ensure_session_active E)
         (py_seq (py_bind (on_transcript (\<lambda>t. apfst Inr (ts_new_event ''final'' (ts_partial t) t))) (st_send_event E))
         (py_seq (st_abort E) (st_close_socket E 1000)))))"
    by (rule files_balanced_bind [OF st_flush_files], intro files_balancedI balanced_rules) simp_all
  have segment: "files_balanced E ids (py_bind (st_flush_chunked_buffer E buffer language detector True) (\<lambda>d.
         st_chunked_loop E language rate [] d rest))"
    by (rule files_balanced_bind [OF st_flush_files Cons])
  have start: "files_balanced E ids (py_bind (st_remaining_session_seconds E) (\<lambda>remaining.
      if remaining \<le> 0 then closed_by (session_timeout_failure E) else f remaining))"
    if "\<And>r. files_balanced E ids (f r)" for f
    by (rule files_balanced_bind [OF files_balancedI [OF st_remaining_balanced]], rule files_balanced_if [OF timeout(2) that])
  show ?case
  proof (cases m)
    case (ReceiveFails e)
    show ?thesis unfolding st_chunked_loop.simps ReceiveFails incoming.case
      by (rule start) (simp add: timeout quiet split: py_error.split)
  next
    case Disconnect
    show ?thesis unfolding st_chunked_loop.simps Disconnect incoming.case by (rule start) (rule quiet)
  next
    case (AudioBytes p)
    show ?thesis unfolding st_chunked_loop.simps AudioBytes incoming.case
      by (rule start, rule files_balanced_seq [OF st_validate_files], rule files_balanced_bind, rule files_balanced_if, rule flush)
        (auto intro: files_balancedI step)
  next
    case (TextMessage j)
    show ?thesis unfolding st_chunked_loop.simps TextMessage incoming.case
      by (rule start) (auto intro!: fail finish segment quiet split: sum.split json.split)
  next
    case EmptyMessage
    show ?thesis unfolding st_chunked_loop.simps EmptyMessage incoming.case by (rule start) (rule Cons)
  qed
qed

section \<open>A connection leaves nothing behind\<close>

lemma filed_wider: "filed E ({None}, {}) s \<Longrightarrow> filed E (UNIV, UNIV) s"
  by (auto simp: filed_def intro: books_mono)

lemma files_balanced_wider:
  assumes "files_balanced E ({None}, {}) m"
  shows "triple (filed E ({None}, {})) m (\<lambda>_. filed E (UNIV, UNIV)) (filed E (UNIV, UNIV))"
  using assms unfolding files_balanced_def by (rule triple_conseq) (auto simp: filed_def intro: books_mono)

lemma st_serve_triple:
  "triple (filed E ({None}, {})) (st_serve E raw_start ms) (\<lambda>_. filed E (UNIV, UNIV)) (filed E (UNIV, UNIV))"
proof -
  have start: "triple (filed E ({None}, {})) (st_start_with E create language) (\<lambda>_. filed E (UNIV, UNIV)) (filed E (UNIV, UNIV))"
    for create language
    by (rule triple_filed) (rule st_start_with_triple)
  have run: "triple (filed E ({None}, {}))
      (if asr_stream_mode (se_settings E) \<noteq> ModeStateful
       then py_seq (st_start_chunked E l) (st_chunked_loop E l rate [] (silence_detector (se_settings E)) ms)
       else py_seq (st_start E l) (st_stateful_loop E ms)) (\<lambda>_. filed E (UNIV, UNIV)) (filed E (UNIV, UNIV))" for l rate
    unfolding st_start_chunked_def st_start_def
    by (rule triple_if; rule triple_seq [OF start])
      (simp_all add: st_chunked_loop_files [unfolded files_balanced_def] files_balancedI [OF st_stateful_loop_balanced, unfolded files_balanced_def])
  have quiet: "triple (filed E ({None}, {})) m (\<lambda>_. filed E (UNIV, UNIV)) (filed E (UNIV, UNIV))"
    if "\<And>fw. balanced E ({None}, {}) fw m" for m :: "('a, 'b, unit) st_method"
    by (rule files_balanced_wider [OF files_balancedI [OF that]])
  show ?thesis
  proof (cases raw_start)
    case (Inl e)
    have "triple (filed E ({None}, {})) (case e of TimeoutError _ \<Rightarrow> st_fail E a b c | _ \<Rightarrow> if x then py_raise e else st_fail E a' b' c')
        (\<lambda>_. filed E (UNIV, UNIV)) (filed E (UNIV, UNIV))" for a b c a' b' c' x
      by (rule quiet) (simp split: py_error.split)
    with Inl show ?thesis by (simp add: st_serve_def)
  next
    case (Inr decoded)
    have "triple (filed E ({None}, {})) (parse_stream_start E decoded) (\<lambda>_. filed E ({None}, {})) (filed E ({None}, {}))"
      using files_balancedI [OF parse_balanced] by (simp add: files_balanced_def)
    then have parse: "triple (filed E ({None}, {})) (parse_stream_start E decoded) (\<lambda>_. filed E ({None}, {})) (filed E (UNIV, UNIV))"
      by (rule triple_conseq) (auto simp: filed_def intro: books_mono)
    show ?thesis
      unfolding st_serve_def Inr sum.case
      by (rule triple_bind [OF parse]) (auto simp: run quiet filed_wider split: option.split)
  qed
qed

lemma st_abort_ends: "sc_session_id (snd (st_abort E s)) = None"
proof (cases "sc_session_id s")
  case (Some i)
  then show ?thesis
    using st_abort_quietly_state [of E i "s\<lparr>sc_session_id := None\<rparr>"] by (auto simp: st_abort_state)
qed (simp add: st_abort_state)

lemma st_init_filed: "st_init E vad c = Inr s \<Longrightarrow> filed E ({None}, {}) s"
  by (auto simp: st_init_def Let_def bind_result_eq_Inr filed_def books_def lost_files_def audio_limit_def)

lemma transcribe_stream_books:
  assumes "st_init E vad c = Inr s"
  shows "filed E (UNIV, UNIV) (snd (transcribe_stream E raw_start ms s)) \<and>
    sc_session_id (snd (transcribe_stream E raw_start ms s)) = None"
proof -
  let ?m = "py_except (st_serve E raw_start ms)
      (\<lambda>e. if e = StreamClosed \<or> e = OtherError ''WebSocketDisconnect'' then py_return () else py_raise e)"
  have body: "triple (filed E ({None}, {})) ?m (\<lambda>_. filed E (UNIV, UNIV)) (filed E (UNIV, UNIV))"
    by (rule triple_except [OF st_serve_triple]) simp
  have abort: "triple (filed E (UNIV, UNIV)) (st_abort E) (\<lambda>_ t. filed E (UNIV, UNIV) t \<and> sc_session_id t = None)
      (\<lambda>t. filed E (UNIV, UNIV) t \<and> sc_session_id t = None)"
  proof (rule triple_intro)
    fix u assume "filed E (UNIV, UNIV) u"
    moreover have "triple (filed E (UNIV, UNIV)) (st_abort E) (\<lambda>_. filed E (UNIV, UNIV)) (filed E (UNIV, UNIV))"
      using files_balancedI [OF st_abort_balanced] by (simp add: files_balanced_def)
    ultimately show "case st_abort E u of (Inl e, t) \<Rightarrow> filed E (UNIV, UNIV) t \<and> sc_session_id t = None
        | (Inr x, t) \<Rightarrow> filed E (UNIV, UNIV) t \<and> sc_session_id t = None"
      using st_abort_ends [of E u] by (cases "st_abort E u"; cases "fst (st_abort E u)") (auto simp: triple_def)
  qed
  have "triple (filed E ({None}, {})) (transcribe_stream E raw_start ms)
      (\<lambda>_ t. filed E (UNIV, UNIV) t \<and> sc_session_id t = None) (\<lambda>t. filed E (UNIV, UNIV) t \<and> sc_session_id t = None)"
    unfolding transcribe_stream_def by (rule triple_finally [OF body abort abort])
  with st_init_filed [OF assms] show ?thesis
    by (cases "transcribe_stream E raw_start ms s"; cases "fst (transcribe_stream E raw_start ms s)") (auto simp: triple_def)
qed

text \<open>C5: whatever the client sends, the coordinator answers and the socket does, and however the
  connection ends, the controller holds no session afterwards, every session the coordinator
  opened for it was finished or handed to \<open>abort_stream\<close>, and the only temporary files left
  are those whose writing failed.\<close>

theorem stream_leaves_nothing_behind:
  assumes "st_init E vad c = Inr s" and "transcribe_stream E raw_start ms s = (r, t)"
  shows "sc_session_id t = None \<and> open_sessions (sc_calls t) = [] \<and> sc_files t = lost_files E (sc_writes t)"
  using transcribe_stream_books [OF assms(1), of raw_start ms] assms(2) by (auto simp: filed_def books_def)

theorem stream_leaves_nothing_behind_witness:
  "let t = snd (transcribe_stream example_stream_env (Inr (Inr example_start)) example_messages example_controller) in
   sc_session_id t = None \<and> open_sessions (sc_calls t) = [] \<and> sc_files t = lost_files example_stream_env (sc_writes t)"
  using stream_leaves_nothing_behind [OF example_controller_init surjective_pairing, of "Inr (Inr example_start)" example_messages]
  unfolding Let_def .



end
