(* ===== verification/StreamWire.thy ===== *)
theory StreamWire
  imports StreamCoordinator
begin

text \<open>
  What the client of the single-process service sees: which start messages are accepted, and that the
  messages of a connection are numbered upwards and end with at most one final event or error,
  followed only by the close.
\<close>

section \<open>Orderly traffic\<close>

definition wire_numbers :: "wire_message list \<Rightarrow> int list" where
  "wire_numbers ws = concat (map (\<lambda>m. case m of WireEvent _ n _ \<Rightarrow> [n] | WireError _ _ n \<Rightarrow> [n] | WireClose _ \<Rightarrow> []) ws)"

lemma wire_numbers_simps [simp]:
  "wire_numbers [] = []" "wire_numbers (ws @ vs) = wire_numbers ws @ wire_numbers vs"
  "wire_numbers [WireEvent ty n x] = [n]" "wire_numbers [WireError c m n] = [n]" "wire_numbers [WireClose k] = []"
  by (simp_all add: wire_numbers_def)

definition wire_plain :: "wire_message \<Rightarrow> bool" where
  "wire_plain m = (case m of WireEvent ty _ _ \<Rightarrow> ty \<noteq> ''final'' | _ \<Rightarrow> False)"

definition wire_terminal :: "wire_message \<Rightarrow> bool" where
  "wire_terminal m = (case m of WireEvent ty _ _ \<Rightarrow> ty = ''final'' | WireError _ _ _ \<Rightarrow> True | WireClose _ \<Rightarrow> False)"

text \<open>Events, then at most one final event or error, then at most the close.\<close>

fun wire_shape :: "wire_message list \<Rightarrow> bool" where
  "wire_shape [] = True"
| "wire_shape (m # ws) =
     (if wire_plain m then wire_shape ws
      else wire_terminal m \<and> (case ws of [] \<Rightarrow> True | [WireClose _] \<Rightarrow> True | _ \<Rightarrow> False))"

lemma wire_shape_append: "list_all wire_plain ws \<Longrightarrow> wire_shape (ws @ vs) = wire_shape vs"
  by (induction ws) auto

text \<open>The transcript has numbered everything on the wire.\<close>

definition wire_numbered :: "('c, 'v) StreamingSessionController \<Rightarrow> bool" where
  "wire_numbered s \<longleftrightarrow> ts_inv (sc_transcript s) \<and> sorted_wrt (<) (wire_numbers (sc_wire s)) \<and>
     (\<forall>n \<in> set (wire_numbers (sc_wire s)). n \<le> ts_sequence (sc_transcript s))"

definition wire_open :: "('c, 'v) StreamingSessionController \<Rightarrow> bool" where
  "wire_open s \<longleftrightarrow> wire_numbered s \<and> list_all wire_plain (sc_wire s)"

definition wire_ended :: "('c, 'v) StreamingSessionController \<Rightarrow> bool" where
  "wire_ended s \<longleftrightarrow> wire_numbered s \<and>
     (\<exists>ws m. sc_wire s = ws @ [m] \<and> list_all wire_plain ws \<and> wire_terminal m \<and> \<not> wire_plain m)"

definition wire_fine :: "('c, 'v) StreamingSessionController \<Rightarrow> bool" where
  "wire_fine s \<longleftrightarrow> wire_numbered s \<and> wire_shape (sc_wire s)"

lemma wire_open_fine: "wire_open s \<Longrightarrow> wire_fine s"
  using wire_shape_append [of "sc_wire s" "[]"] by (simp add: wire_open_def wire_fine_def)

lemma wire_ended_fine: "wire_ended s \<Longrightarrow> wire_fine s"
  by (auto simp: wire_ended_def wire_fine_def wire_shape_append)

text \<open>\<open>runs P m Q\<close>: a method that meets \<open>P\<close> returns in \<open>Q\<close>; when it raises, the wire is still open, except
  that \<open>_StreamClosed\<close> may have ended it.\<close>

definition wire_raised :: "py_error \<Rightarrow> ('c, 'v) StreamingSessionController \<Rightarrow> bool" where
  "wire_raised e s \<longleftrightarrow> (if e = StreamClosed then wire_fine s else wire_open s)"

lemma wire_open_raised: "wire_open s \<Longrightarrow> wire_raised e s"
  by (simp add: wire_raised_def wire_open_fine)

definition runs ::
  "(('c, 'v) StreamingSessionController \<Rightarrow> bool) \<Rightarrow> ('c, 'v, 'a) st_method \<Rightarrow>
   ('a \<Rightarrow> ('c, 'v) StreamingSessionController \<Rightarrow> bool) \<Rightarrow> bool" where
  "runs P m Q \<longleftrightarrow> (\<forall>s. P s \<longrightarrow> (case m s of
     (Inr x, t) \<Rightarrow> Q x t | (Inl e, t) \<Rightarrow> wire_raised e t))"

lemma runs_intro:
  "(\<And>s. P s \<Longrightarrow> case m s of (Inr x, t) \<Rightarrow> Q x t | (Inl e, t) \<Rightarrow> wire_raised e t) \<Longrightarrow>
   runs P m Q"
  by (simp add: runs_def)

lemma runsD: "runs P m Q \<Longrightarrow> P s \<Longrightarrow> m s = (Inr x, t) \<Longrightarrow> Q x t"
  and runsE: "runs P m Q \<Longrightarrow> P s \<Longrightarrow> m s = (Inl e, t) \<Longrightarrow> wire_raised e t"
  unfolding runs_def by (metis (mono_tags, lifting) case_prod_conv old.sum.simps(5,6))+

lemma runs_bind:
  assumes m: "runs P m R" and f: "\<And>x. runs (R x) (f x) Q"
  shows "runs P (py_bind m f) Q"
proof (rule runs_intro)
  fix s assume s: "P s"
  obtain r t where mt: "m s = (r, t)" by fastforce
  show "case py_bind m f s of (Inr x, t) \<Rightarrow> Q x t | (Inl e, t) \<Rightarrow> wire_raised e t"
  proof (cases r)
    case (Inl e)
    with runsE [OF m s] mt show ?thesis by (simp add: py_bind_def)
  next
    case (Inr x)
    with runsD [OF m s] mt have t: "R x t" by simp
    obtain r' u where fu: "f x t = (r', u)" by fastforce
    with runsD [OF f t] runsE [OF f t] mt Inr show ?thesis by (cases r') (simp_all add: py_bind_def)
  qed
qed

lemma runs_seq: "runs P m (\<lambda>_. R) \<Longrightarrow> runs R n Q \<Longrightarrow> runs P (py_seq m n) Q"
  unfolding py_seq_def by (rule runs_bind)

lemma runs_conseq:
  assumes m: "runs P' m Q'" and P: "\<And>s. P s \<Longrightarrow> P' s" and Q: "\<And>x s. Q' x s \<Longrightarrow> Q x s"
  shows "runs P m Q"
proof (rule runs_intro)
  fix s assume "P s"
  then have s: "P' s" by (rule P)
  obtain r t where mt: "m s = (r, t)" by fastforce
  with runsD [OF m s] runsE [OF m s] show "case m s of (Inr x, t) \<Rightarrow> Q x t | (Inl e, t) \<Rightarrow> wire_raised e t"
    by (cases r) (simp_all add: Q)
qed

lemma runs_basic [simp]:
  "runs P (py_return x) Q \<longleftrightarrow> (\<forall>s. P s \<longrightarrow> Q x s)"
  "runs P (py_modify f) R \<longleftrightarrow> (\<forall>s. P s \<longrightarrow> R () (f s))"
  by (simp_all add: runs_def method_defs)

lemma runs_read: "(\<And>x. runs P (f x) Q) \<Longrightarrow> runs P (py_bind (py_read g) f) Q"
  by (auto simp: runs_def method_defs)

lemma runs_raise [simp]: "runs wire_open (py_raise e) Q"
  by (auto simp: runs_def method_defs wire_open_raised)

lemma runs_if: "(b \<Longrightarrow> runs P m Q) \<Longrightarrow> (\<not> b \<Longrightarrow> runs P n Q) \<Longrightarrow> runs P (if b then m else n) Q"
  by simp

lemma runs_when: "(b \<Longrightarrow> runs P m (\<lambda>_. P)) \<Longrightarrow> runs P (st_when b m) (\<lambda>_. P)"
  by (simp add: st_when_def)

lemma runs_except:
  "runs P m Q \<Longrightarrow> (\<And>e. runs wire_open (h e) Q) \<Longrightarrow> (\<And>s. h StreamClosed s = (Inl StreamClosed, s)) \<Longrightarrow>
   runs P (py_except m h) Q"
proof (rule runs_intro)
  fix s assume m: "runs P m Q" and h: "\<And>e. runs wire_open (h e) Q" "\<And>s. h StreamClosed s = (Inl StreamClosed, s)" and "P s"
  obtain r t where mt: "m s = (r, t)" by fastforce
  show "case py_except m h s of (Inr x, t) \<Rightarrow> Q x t | (Inl e, t) \<Rightarrow> wire_raised e t"
  proof (cases r)
    case (Inl e)
    with m mt \<open>P s\<close> have t: "wire_raised e t" by (auto simp: runs_def)
    show ?thesis
    proof (cases "e = StreamClosed")
      case True
      with t h(2) mt Inl show ?thesis by (simp add: py_except_def)
    next
      case False
      with t have "wire_open t" by (simp add: wire_raised_def)
      with h(1) [of e] mt Inl show ?thesis by (simp add: py_except_def runs_def)
    qed
  qed (use m mt \<open>P s\<close> in \<open>auto simp: py_except_def runs_def\<close>)
qed

text \<open>What the wire and the transcript hold is all these predicates look at.\<close>

definition traffic :: "('c, 'v) StreamingSessionController \<Rightarrow> wire_message list \<times> StreamingTranscriptState" where
  "traffic s = (sc_wire s, sc_transcript s)"

lemma wire_traffic:
  "traffic t = traffic s \<Longrightarrow> wire_open t = wire_open s" "traffic t = traffic s \<Longrightarrow> wire_ended t = wire_ended s"
  "traffic t = traffic s \<Longrightarrow> wire_fine t = wire_fine s"
  by (simp_all add: traffic_def wire_open_def wire_ended_def wire_fine_def wire_numbered_def)

lemma runs_quiet:
  assumes "keeps traffic m" and "\<And>s. P s \<Longrightarrow> wire_open s" and "\<And>s t. traffic t = traffic s \<Longrightarrow> P t = P s"
  shows "runs P m (\<lambda>_. P)"
proof (rule runs_intro)
  fix s assume s: "P s"
  obtain r t where mt: "m s = (r, t)" by fastforce
  with assms(1) have t: "traffic t = traffic s" by (auto dest: keepsD)
  have "P t" using assms(3) [OF t] s by (rule iffD2)
  moreover from this have "wire_open t" by (rule assms(2))
  ultimately show "case m s of (Inr x, t) \<Rightarrow> P t | (Inl e, t) \<Rightarrow> wire_raised e t"
    using mt by (cases r) (auto intro: wire_open_raised)
qed

lemma runs_open_quiet: "keeps traffic m \<Longrightarrow> runs wire_open m (\<lambda>_. wire_open)"
  by (rule runs_quiet) (assumption, assumption, rule wire_traffic)

lemma traffic_parts [simp]:
  "keeps traffic (st_now E)" "keeps traffic (st_vad g)" "keeps traffic st_session" "keeps traffic (on_silence h)"
  "keeps traffic (st_lag_exceeded S a b)" "keeps traffic (st_call es m)" "keeps traffic (st_log entry)"
  "keeps traffic (st_write_wav E)" "keeps traffic (st_remove_file n)" "keeps traffic st_take_session"
  by (auto simp: keeps_def traffic_def st_now_def st_vad_def st_session_def on_silence_def st_lag_exceeded_def Let_def
      st_call_def st_log_def st_write_wav_def st_remove_file_def st_take_session_def method_defs
      split: sum.split prod.split option.split)

lemma traffic_remaining [simp]: "keeps traffic (st_remaining_session_seconds E)"
  unfolding st_remaining_session_seconds_def by (intro keeps_rules) simp_all

lemma traffic_abort [simp]: "keeps traffic (st_abort E)"
  unfolding st_abort_def st_abort_quietly_def except_exception_def
  by (intro keeps_rules) (auto intro!: keeps_rules split: option.split)

lemma traffic_observe [simp]: "keeps traffic (st_observe E r n)"
  unfolding st_observe_def
  by (intro keeps_bind) (auto simp: keeps_def st_observe_stream_progress_def Let_def traffic_def st_now_def)

section \<open>Ending a stream\<close>

definition closes_quietly :: "('c, 'v) stream_env \<Rightarrow> bool" where
  "closes_quietly E \<longleftrightarrow> (\<forall>n. isOk (se_close E n))"

lemma st_send_json_cases:
  assumes "st_send_json E m s = (r, t)"
  shows "sc_transcript t = sc_transcript s \<and>
     ((\<exists>e. r = Inl e) \<and> sc_wire t = sc_wire s \<or> r = Inr () \<and> sc_wire t = sc_wire s @ [m])"
proof (cases "se_send E (sc_sends s)")
  case (Inl e)
  with assms have "r = Inl e" "t = s\<lparr>sc_sends := Suc (sc_sends s)\<rparr>" by (simp_all add: st_send_json_def)
  then show ?thesis by simp
next
  case (Inr u)
  with assms have "r = Inr ()" "t = s\<lparr>sc_sends := Suc (sc_sends s), sc_wire := sc_wire s @ [m]\<rparr>" by (simp_all add: st_send_json_def)
  then show ?thesis by simp
qed

lemma st_close_runs:
  fixes E :: "('c, 'v) stream_env"
  assumes "closes_quietly E"
  shows "runs wire_ended (st_close_socket E c) (\<lambda>_. wire_fine)"
proof (rule runs_intro)
  fix s :: "('c, 'v) StreamingSessionController" assume s: "wire_ended s"
  from assms have "isOk (se_close E (sc_closes s))" by (simp add: closes_quietly_def)
  then have "st_close_socket E c s = (Inr (), s\<lparr>sc_closes := Suc (sc_closes s), sc_wire := sc_wire s @ [WireClose c]\<rparr>)"
    by (auto simp: st_close_socket_def isOk_iff)
  with s show "case st_close_socket E c s of (Inr x, t) \<Rightarrow> wire_fine t | (Inl e, t) \<Rightarrow> wire_raised e t"
    by (auto simp: wire_ended_def wire_fine_def wire_numbered_def wire_shape_append)
qed

lemma new_event_numbered:
  "ts_new_event ty tx t = (e, u) \<Longrightarrow> te_sequence e = ts_sequence t + 1 \<and> te_type e = ty \<and> te_text e = tx \<and>
     ts_sequence u = ts_sequence t + 1 \<and> ts_inv u = ts_inv t"
  by (auto simp: ts_new_event_def ts_event_def Let_def ts_inv_def)

lemma st_fail_runs:
  fixes E :: "('c, 'v) stream_env"
  assumes "closes_quietly E"
  shows "runs wire_open (st_fail E code message close_code) (\<lambda>_. wire_fine)"
  unfolding st_fail_def
proof (rule runs_bind)
  let ?R = "\<lambda>e (s :: ('c, 'v) StreamingSessionController). wire_open s \<and> te_sequence e = ts_sequence (sc_transcript s) \<and>
      (\<forall>n \<in> set (wire_numbers (sc_wire s)). n < te_sequence e)"
  show "runs wire_open (on_transcript (\<lambda>t. apfst Inr (ts_new_event ''error'' [] t))) ?R"
  proof (rule runs_intro)
    fix s :: "('c, 'v) StreamingSessionController" assume s: "wire_open s"
    obtain e u where eu: "ts_new_event ''error'' [] (sc_transcript s) = (e, u)" by fastforce
    with s new_event_numbered [OF eu]
    show "case on_transcript (\<lambda>t. apfst Inr (ts_new_event ''error'' [] t)) s of (Inr e, t) \<Rightarrow> ?R e t | (Inl e, t) \<Rightarrow> wire_raised e t"
      by (force simp: on_transcript_def wire_open_def wire_numbered_def)
  qed
  fix e
  have "runs (?R e) (st_send_json E (WireError code message (te_sequence e))) (\<lambda>_. wire_ended)"
  proof (rule runs_intro)
    fix s :: "('c, 'v) StreamingSessionController" assume s: "?R e s"
    obtain r t where rt: "st_send_json E (WireError code message (te_sequence e)) s = (r, t)" by fastforce
    from st_send_json_cases [OF this] s
    have "(\<exists>e. r = Inl e) \<and> wire_open t \<or> r = Inr () \<and> wire_ended t"
      by (auto simp: wire_open_def wire_ended_def wire_numbered_def wire_terminal_def wire_plain_def sorted_wrt_append)
    then show "case st_send_json E (WireError code message (te_sequence e)) s of (Inr x, t) \<Rightarrow> wire_ended t | (Inl e, t) \<Rightarrow> wire_raised e t"
      by (auto simp: rt intro: wire_open_raised)
  qed
  then show "runs (?R e) (py_seq (st_send_json E (WireError code message (te_sequence e))) (st_close_socket E close_code)) (\<lambda>_. wire_fine)"
    by (rule runs_seq) (rule st_close_runs [OF assms])
qed

lemma st_fail_closed_runs:
  assumes "closes_quietly E"
  shows "runs wire_open (st_fail_closed E f) Q"
proof -
  obtain code message close_code where f: "f = (code, message, close_code)" by (cases f)
  have "runs wire_fine (py_raise StreamClosed) Q" by (simp add: runs_def py_raise_def wire_raised_def)
  with st_fail_runs [OF assms] show ?thesis unfolding f st_fail_closed_def prod.case by (rule runs_seq)
qed

lemma st_expire_runs:
  assumes "closes_quietly E"
  shows "runs wire_open (st_expire_session E) Q"
  unfolding st_expire_session_def
  by (rule runs_seq [OF runs_open_quiet [OF traffic_abort] st_fail_closed_runs [OF assms]])

lemma failing_runs:
  assumes "closes_quietly E" and "runs P m Q"
  shows "runs P (failing E clauses m) Q"
  unfolding failing_def except_exception_def
proof (rule runs_except [OF assms(2)])
  show "runs wire_open (if base_exception e \<or> error_type_name e = ''CancelledError'' then py_raise e
      else if e = StreamClosed then py_raise e
      else case clauses e of None \<Rightarrow> py_raise e | Some f \<Rightarrow> st_fail_closed E f) Q" for e
    using st_fail_closed_runs [OF assms(1)] by (auto split: option.split)
qed (simp add: py_raise_def)

text \<open>A predicate of the traffic under which the wire is open.\<close>

definition open_traffic :: "(('c, 'v) StreamingSessionController \<Rightarrow> bool) \<Rightarrow> bool" where
  "open_traffic P \<longleftrightarrow> (\<forall>s. P s \<longrightarrow> wire_open s) \<and> (\<forall>s t. traffic t = traffic s \<longrightarrow> P t = P s)"

lemma open_trafficD: "open_traffic P \<Longrightarrow> P s \<Longrightarrow> wire_open s"
  unfolding open_traffic_def by blast

lemma open_traffic_quiet: "open_traffic P \<Longrightarrow> keeps traffic m \<Longrightarrow> runs P m (\<lambda>_. P)"
  unfolding open_traffic_def by (rule runs_quiet) blast+

lemma open_traffic_open [simp]: "open_traffic wire_open"
  unfolding open_traffic_def using wire_traffic(1) by blast

lemma st_ensure_runs:
  assumes "closes_quietly E" and "open_traffic P"
  shows "runs P (st_ensure_session_active E) (\<lambda>_. P)"
  unfolding st_ensure_session_active_def
proof (rule runs_bind)
  show "runs P (st_remaining_session_seconds E) (\<lambda>_. P)"
    by (rule open_traffic_quiet [OF assms(2) traffic_remaining])
  show "runs P (if r \<le> 0 then st_expire_session E else py_return ()) (\<lambda>_. P)" for r
    by (rule runs_if, rule runs_conseq [OF st_expire_runs [OF assms(1)] open_trafficD [OF assms(2)]]) simp_all
qed

lemma st_within_runs:
  assumes "closes_quietly E" and "open_traffic P" and "runs P m Q"
  shows "runs P (st_within_session E m) Q"
  unfolding st_within_session_def
proof (rule runs_seq [OF st_ensure_runs [OF assms(1,2)]], rule runs_except [OF assms(3)])
  show "runs wire_open (case e of TimeoutError _ \<Rightarrow> st_expire_session E | _ \<Rightarrow> py_raise e) Q" for e
    by (simp add: st_expire_runs [OF assms(1)] split: py_error.split)
qed (simp add: py_raise_def)

section \<open>Events\<close>

text \<open>Events numbered but not yet sent.\<close>

definition wire_pending :: "TranscriptEvent list \<Rightarrow> ('c, 'v) StreamingSessionController \<Rightarrow> bool" where
  "wire_pending es s \<longleftrightarrow> ts_inv (sc_transcript s) \<and> list_all wire_plain (sc_wire s) \<and>
     sorted_wrt (<) (wire_numbers (sc_wire s) @ map te_sequence es) \<and>
     (\<forall>n \<in> set (wire_numbers (sc_wire s) @ map te_sequence es). n \<le> ts_sequence (sc_transcript s))"

lemma wire_pending_open: "wire_pending es s \<Longrightarrow> wire_open s"
  by (auto simp: wire_pending_def wire_open_def wire_numbered_def sorted_wrt_append)

lemma wire_pending_raised: "wire_pending es s \<Longrightarrow> wire_raised e s"
  by (rule wire_open_raised [OF wire_pending_open])

lemma wire_pending_Nil: "wire_pending [] s = wire_open s"
  by (auto simp: wire_pending_def wire_open_def wire_numbered_def)

lemma open_traffic_pending [simp]:
  "open_traffic (wire_pending es :: ('c, 'v) StreamingSessionController \<Rightarrow> bool)"
proof -
  have "wire_pending es t = wire_pending es s" if "traffic t = traffic s" for s t :: "('c, 'v) StreamingSessionController"
    using that by (simp add: wire_pending_def traffic_def)
  then show ?thesis unfolding open_traffic_def using wire_pending_open by blast
qed

lemma send_payload_runs:
  fixes E :: "('c, 'v) stream_env"
  shows
  "te_type e \<noteq> ''final'' \<Longrightarrow> runs (wire_pending (e # es)) (st_send_json E (event_payload e)) (\<lambda>_. wire_pending es)"
  "te_type e = ''final'' \<Longrightarrow> runs (wire_pending [e]) (st_send_json E (event_payload e)) (\<lambda>_. wire_ended)"
proof -
  show "runs (wire_pending (e # es)) (st_send_json E (event_payload e)) (\<lambda>_. wire_pending es)" if "te_type e \<noteq> ''final''"
  proof (rule runs_intro)
    fix s :: "('c, 'v) StreamingSessionController" assume s: "wire_pending (e # es) s"
    obtain r t where rt: "st_send_json E (event_payload e) s = (r, t)" by fastforce
    from st_send_json_cases [OF rt] s that
    have "(\<exists>e. r = Inl e) \<and> wire_pending (e # es) t \<or> r = Inr () \<and> wire_pending es t"
      by (auto simp: wire_pending_def event_payload_def wire_plain_def sorted_wrt_append)
    then show "case st_send_json E (event_payload e) s of (Inr x, t) \<Rightarrow> wire_pending es t | (Inl e, t) \<Rightarrow> wire_raised e t"
      by (auto simp: rt intro: wire_pending_raised)
  qed
  show "runs (wire_pending [e]) (st_send_json E (event_payload e)) (\<lambda>_. wire_ended)" if "te_type e = ''final''"
  proof (rule runs_intro)
    fix s :: "('c, 'v) StreamingSessionController" assume s: "wire_pending [e] s"
    obtain r t where rt: "st_send_json E (event_payload e) s = (r, t)" by fastforce
    from st_send_json_cases [OF rt] s that
    have "(\<exists>e. r = Inl e) \<and> wire_pending [e] t \<or> r = Inr () \<and> wire_ended t"
      by (auto simp: wire_pending_def wire_ended_def wire_numbered_def event_payload_def wire_plain_def wire_terminal_def sorted_wrt_append)
    then show "case st_send_json E (event_payload e) s of (Inr x, t) \<Rightarrow> wire_ended t | (Inl e, t) \<Rightarrow> wire_raised e t"
      by (auto simp: rt intro: wire_pending_raised)
  qed
qed

definition stream_event :: "TranscriptEvent \<Rightarrow> bool" where
  "stream_event e \<longleftrightarrow> te_type e \<noteq> ''final'' \<and> te_type e \<noteq> ''error''"

lemma st_send_event_runs:
  assumes "closes_quietly E"
  shows "stream_event e \<Longrightarrow> runs (wire_pending (e # es)) (st_send_event E e) (\<lambda>_. wire_pending es)"
    and "te_type e = ''final'' \<Longrightarrow> runs (wire_pending [e]) (st_send_event E e) (\<lambda>_. wire_ended)"
  unfolding st_send_event_def stream_event_def
  by (auto intro!: st_within_runs [OF assms] send_payload_runs)

lemma st_send_events_runs:
  assumes "closes_quietly E" and "list_all stream_event es"
  shows "runs (wire_pending es) (st_send_events E es) (\<lambda>_. wire_open)"
  unfolding st_send_events_def using assms(2)
proof (induction es)
  case (Cons e es)
  then have "runs (wire_pending (e # es)) (py_seq (st_ensure_session_active E) (st_send_event E e)) (\<lambda>_. wire_pending es)"
    by (intro runs_seq [OF st_ensure_runs [OF assms(1) open_traffic_pending]] st_send_event_runs [OF assms(1)]) simp
  with Cons show ?case by (simp add: runs_seq)
qed (simp add: wire_pending_Nil)

text \<open>A transcript operation whose events may be sent as they come.\<close>

definition emits :: "(StreamingTranscriptState, TranscriptEvent list) py_method \<Rightarrow> bool" where
  "emits f \<longleftrightarrow> (\<forall>t r u. ts_inv t \<longrightarrow> f t = (r, u) \<longrightarrow> ts_inv u \<and>
     (case r of Inl e \<Rightarrow> ts_sequence u = ts_sequence t
      | Inr es \<Rightarrow> consecutive (ts_sequence t) es (ts_sequence u) \<and> list_all stream_event es))"

lemma on_transcript_pending:
  assumes "emits f"
  shows "runs wire_open (on_transcript f) (\<lambda>es (s :: ('c, 'v) StreamingSessionController). wire_pending es s \<and> list_all stream_event es)"
proof (rule runs_intro)
  fix s :: "('c, 'v) StreamingSessionController" assume s: "wire_open s"
  obtain r u where ru: "f (sc_transcript s) = (r, u)" by fastforce
  with assms s have f: "ts_inv u \<and> (case r of Inl e \<Rightarrow> ts_sequence u = ts_sequence (sc_transcript s)
      | Inr es \<Rightarrow> consecutive (ts_sequence (sc_transcript s)) es (ts_sequence u) \<and> list_all stream_event es)"
    by (auto simp: emits_def wire_open_def wire_numbered_def)
  show "case on_transcript f s of (Inr es, t) \<Rightarrow> wire_pending es t \<and> list_all stream_event es | (Inl e, t) \<Rightarrow> wire_raised e t"
  proof (cases r)
    case (Inl e)
    with f s have "wire_open (s\<lparr>sc_transcript := u\<rparr>)" by (simp add: wire_open_def wire_numbered_def)
    then show ?thesis using ru Inl by (simp add: on_transcript_def wire_open_raised)
  next
    case (Inr es)
    with f have c: "consecutive (ts_sequence (sc_transcript s)) es (ts_sequence u)" by simp
    have "wire_pending es (s\<lparr>sc_transcript := u\<rparr>)"
      using f s Inr consecutive_sorted [OF c] consecutive_bounds [OF c]
      by (fastforce simp: wire_open_def wire_numbered_def wire_pending_def sorted_wrt_append)
    then show ?thesis using ru Inr f by (simp add: on_transcript_def)
  qed
qed

lemma emits_runs:
  assumes "closes_quietly E" and "emits f"
  shows "runs wire_open (py_bind (on_transcript f) (st_send_events E)) (\<lambda>_. wire_open)"
proof (rule runs_bind [OF on_transcript_pending [OF assms(2)]])
  show "runs (\<lambda>s. wire_pending es s \<and> list_all stream_event es) (st_send_events E es) (\<lambda>_. wire_open)" for es
  proof (cases "list_all stream_event es")
    case True
    from st_send_events_runs [OF assms(1) True] show ?thesis by (rule runs_conseq) simp_all
  qed (simp add: runs_def)
qed

lemma ts_events_stream:
  "ts_events kvs s = (es, t) \<Longrightarrow> list_all (\<lambda>kv. fst kv \<noteq> ''final'' \<and> fst kv \<noteq> ''error'') kvs \<Longrightarrow> list_all stream_event es"
  using ts_events_result [of kvs s es t] by (auto simp: stream_event_def list_all_iff)

lemma promise_emits:
  "ts_promise t es u \<Longrightarrow> ts_inv t \<Longrightarrow> ts_inv u \<and> consecutive (ts_sequence t) es (ts_sequence u)"
  by (simp add: ts_promise_def ts_inv_def)

lemma commit_prefix_stream: "ts_commit_prefix pre s = (es, t) \<Longrightarrow> list_all stream_event es"
  by (auto simp: ts_commit_prefix_def Let_def simp del: ts_events.simps split: if_splits dest!: ts_events_stream)

lemma commit_all_stream: "ts_commit_all_complete_sentences db s = (es, t) \<Longrightarrow> list_all stream_event es"
  by (auto simp: ts_commit_all_complete_sentences_def Let_def simp del: ts_events.simps split: prod.splits if_splits option.splits
      dest!: ts_events_stream simp: list_all_iff)

lemma emits_snapshot: "emits (ts_apply_segment_snapshot i words n)"
  unfolding emits_def
proof (intro allI impI)
  fix t r u assume t: "ts_inv t" and f: "ts_apply_segment_snapshot i words n t = (r, u)"
  show "ts_inv u \<and> (case r of Inl e \<Rightarrow> ts_sequence u = ts_sequence t
      | Inr es \<Rightarrow> consecutive (ts_sequence t) es (ts_sequence u) \<and> list_all stream_event es)"
  proof (cases r)
    case (Inl e)
    with f ts_segment_snapshot_raise [of i words n t e u] t show ?thesis by (simp add: ts_inv_def)
  next
    case (Inr es)
    with f have "list_all stream_event es"
      by (auto simp: ts_apply_segment_snapshot_def Let_def apfst_def map_prod_def simp del: ts_events.simps split: if_splits prod.splits dest!: ts_events_stream)
    with Inr f promise_emits [OF ts_segment_snapshot_promise t] show ?thesis by simp
  qed
qed

lemma emits_model_update: "emits (ts_apply_model_update db words n)"
  unfolding emits_def
proof (intro allI impI)
  fix t r u assume t: "ts_inv t" and f: "ts_apply_model_update db words n t = (r, u)"
  show "ts_inv u \<and> (case r of Inl e \<Rightarrow> ts_sequence u = ts_sequence t
      | Inr es \<Rightarrow> consecutive (ts_sequence t) es (ts_sequence u) \<and> list_all stream_event es)"
  proof (cases r)
    case (Inl e)
    with f ts_apply_model_update_raise [of db words n t e u] t show ?thesis by (simp add: ts_inv_def)
  next
    case (Inr es)
    with f have "list_all stream_event es"
      by (auto simp: ts_apply_model_update_def Let_def apfst_def map_prod_def simp del: ts_events.simps
          split: if_splits prod.splits sum.splits option.splits list.splits
          dest!: ts_events_stream commit_prefix_stream commit_all_stream)
    with Inr f promise_emits [OF ts_apply_model_update_promise [OF _ t] t] show ?thesis by simp
  qed
qed

lemma emits_pure:
  assumes "\<And>t es u. g t = (es, u) \<Longrightarrow> ts_promise t es u \<and> list_all stream_event es"
  shows "emits (\<lambda>t. apfst Inr (g t))"
  unfolding emits_def
proof (intro allI impI)
  fix t u and r :: "TranscriptEvent list result" assume "ts_inv t" and "apfst Inr (g t) = (r, u)"
  then show "ts_inv u \<and> (case r of Inl e \<Rightarrow> ts_sequence u = ts_sequence t
      | Inr es \<Rightarrow> consecutive (ts_sequence t) es (ts_sequence u) \<and> list_all stream_event es)"
    using assms [of t] promise_emits by (cases "g t") fastforce
qed

lemma emits_commit_pending: "emits (\<lambda>t. apfst Inr (ts_commit_pending t))"
  by (rule emits_pure)
    (auto simp: ts_commit_pending_promise, auto simp: ts_commit_pending_def Let_def simp del: ts_events.simps split: if_splits dest!: ts_events_stream)

lemma emits_append: "emits (\<lambda>t. apfst Inr (ts_append_independent_segment db words t))"
  by (rule emits_pure)
    (auto simp: ts_append_independent_promise, auto simp: ts_append_independent_segment_def Let_def simp del: ts_events.simps
      split: if_splits prod.splits dest!: ts_events_stream commit_all_stream)

text \<open>A single event.\<close>

lemma single_event_runs:
  fixes E :: "('c, 'v) stream_env"
  assumes "closes_quietly E"
  shows "stream_event \<lparr>te_type = ty, te_text = [], te_sequence = 0\<rparr> \<Longrightarrow>
      runs wire_open (py_bind (on_transcript (\<lambda>t. apfst Inr (ts_new_event ty (tx t) t))) (st_send_event E)) (\<lambda>_. wire_open)"
    and "runs wire_open (py_bind (on_transcript (\<lambda>t. apfst Inr (ts_new_event ''final'' (tx t) t))) (st_send_event E)) (\<lambda>_. wire_ended)"
proof -
  have pending: "runs wire_open (on_transcript (\<lambda>t. apfst Inr (ts_new_event ty (tx t) t)))
      (\<lambda>e (s :: ('c, 'v) StreamingSessionController). wire_pending [e] s \<and> te_type e = ty)" for ty
  proof (rule runs_intro)
    fix s :: "('c, 'v) StreamingSessionController" assume s: "wire_open s"
    obtain e u where eu: "ts_new_event ty (tx (sc_transcript s)) (sc_transcript s) = (e, u)" by fastforce
    have "wire_pending [e] (s\<lparr>sc_transcript := u\<rparr>)"
      using s new_event_numbered [OF eu]
      by (fastforce simp: wire_open_def wire_numbered_def wire_pending_def sorted_wrt_append)
    then show "case on_transcript (\<lambda>t. apfst Inr (ts_new_event ty (tx t) t)) s of
        (Inr e, t) \<Rightarrow> wire_pending [e] t \<and> te_type e = ty | (Inl e, t) \<Rightarrow> wire_raised e t"
      using new_event_numbered [OF eu] by (simp add: on_transcript_def eu)
  qed
  have send: "runs (\<lambda>s. wire_pending [e] s \<and> te_type e = ty) m Q" if "te_type e = ty \<Longrightarrow> runs (wire_pending [e]) m Q" for e :: TranscriptEvent and ty m and Q :: "unit \<Rightarrow> ('c, 'v) StreamingSessionController \<Rightarrow> bool"
    using that by (cases "te_type e = ty") (simp_all add: runs_def)
  show "runs wire_open (py_bind (on_transcript (\<lambda>t. apfst Inr (ts_new_event ''final'' (tx t) t))) (st_send_event E)) (\<lambda>_. wire_ended)"
    by (rule runs_bind [OF pending], rule send, rule st_send_event_runs(2) [OF assms])
  show "runs wire_open (py_bind (on_transcript (\<lambda>t. apfst Inr (ts_new_event ty (tx t) t))) (st_send_event E)) (\<lambda>_. wire_open)"
    if "stream_event \<lparr>te_type = ty, te_text = [], te_sequence = 0\<rparr>"
  proof (rule runs_bind [OF pending], rule send)
    fix e :: TranscriptEvent assume "te_type e = ty"
    with that have "stream_event e" by (simp add: stream_event_def)
    from st_send_event_runs(1) [OF assms this, of "[]"] show "runs (wire_pending [e]) (st_send_event E e) (\<lambda>_. wire_open)"
      by (simp add: wire_pending_Nil [abs_def])
  qed
qed

section \<open>The controller's methods\<close>

text \<open>A method that keeps the wire open unless it ends the stream and raises; one after which nothing more is
  sent.\<close>

definition orderly :: "('c, 'v) stream_env \<Rightarrow> ('c, 'v, 'a) st_method \<Rightarrow> bool" where
  "orderly E m \<longleftrightarrow> (closes_quietly E \<longrightarrow> runs wire_open m (\<lambda>_. wire_open))"

definition ending :: "('c, 'v) stream_env \<Rightarrow> ('c, 'v, 'a) st_method \<Rightarrow> bool" where
  "ending E m \<longleftrightarrow> (closes_quietly E \<longrightarrow> (\<forall>s. wire_open s \<longrightarrow> wire_fine (snd (m s))))"

lemma orderly_quiet: "keeps traffic m \<Longrightarrow> orderly E m"
  by (simp add: orderly_def runs_open_quiet)

lemma orderly_bind: "orderly E m \<Longrightarrow> (\<And>x. orderly E (f x)) \<Longrightarrow> orderly E (py_bind m f)"
  unfolding orderly_def by (blast intro: runs_bind)

lemma orderly_seq: "orderly E m \<Longrightarrow> orderly E n \<Longrightarrow> orderly E (py_seq m n)"
  unfolding orderly_def by (blast intro: runs_seq)

lemma orderly_if: "(b \<Longrightarrow> orderly E m) \<Longrightarrow> (\<not> b \<Longrightarrow> orderly E n) \<Longrightarrow> orderly E (if b then m else n)"
  by simp

lemma orderly_when: "(b \<Longrightarrow> orderly E m) \<Longrightarrow> orderly E (st_when b m)"
  by (simp add: st_when_def orderly_def)

lemma orderly_failing: "orderly E m \<Longrightarrow> orderly E (failing E clauses m)"
  unfolding orderly_def by (blast intro: failing_runs)

lemma orderly_within: "orderly E m \<Longrightarrow> orderly E (st_within_session E m)"
  unfolding orderly_def by (blast intro: st_within_runs open_traffic_open)

lemmas orderly_rules = orderly_bind orderly_seq orderly_if orderly_when orderly_failing orderly_within

lemma orderly_basic [simp]:
  "orderly E (py_return x)" "orderly E (py_raise e)" "orderly E (py_read g)" "orderly E (st_fail_closed E f)"
  "orderly E (st_ensure_session_active E)"
  by (simp_all add: orderly_def st_fail_closed_runs st_ensure_runs runs_open_quiet)

lemma orderly_parts [simp]:
  "orderly E (st_now E)" "orderly E (st_vad g)" "orderly E st_session" "orderly E (on_silence h)"
  "orderly E (st_lag_exceeded S a b)" "orderly E (st_call es m)" "orderly E (st_log entry)"
  "orderly E (st_write_wav E)" "orderly E (st_remove_file n)" "orderly E (st_remaining_session_seconds E)"
  "orderly E (st_abort E)" "orderly E (st_observe E r k)"
  by (simp_all add: orderly_quiet)

lemma orderly_modify: "(\<And>s. wire_open s \<Longrightarrow> wire_open (f s)) \<Longrightarrow> orderly E (py_modify f)"
  by (simp add: orderly_def)

lemma wire_open_reset [simp]:
  "wire_open (s\<lparr>sc_transcript := ts_reset_segment (sc_transcript s), sc_silence := d, sc_vad := v\<rparr>) = wire_open s"
  "wire_open (s\<lparr>sc_transcript := ts_reset_segment (sc_transcript s), sc_silence := d\<rparr>) = wire_open s"
  "wire_open (s\<lparr>sc_transcript := ts_reset_segment (sc_transcript s)\<rparr>) = wire_open s"
  "wire_open (s\<lparr>sc_session_id := i\<rparr>) = wire_open s" "wire_open (s\<lparr>sc_vad := v\<rparr>) = wire_open s"
  "wire_open (s\<lparr>sc_accepted_samples := a\<rparr>) = wire_open s"
  by (simp_all add: wire_open_def wire_numbered_def ts_reset_segment_def ts_inv_def)

lemma orderly_emit:
  "emits f \<Longrightarrow> orderly E (py_bind (on_transcript f) (st_send_events E))"
  by (simp add: orderly_def emits_runs)

lemma orderly_apply [simp]: "orderly E (st_apply_stream_result E r)"
  unfolding st_apply_stream_result_def
  by (rule orderly_bind, simp, rule orderly_emit) (simp add: emits_snapshot emits_model_update)

lemma orderly_commit [simp]: "orderly E (st_commit_finished_segment E b)"
  unfolding st_commit_finished_segment_def orderly_def
proof (rule impI, rule runs_bind [OF on_transcript_pending [OF emits_commit_pending]])
  fix es assume c: "closes_quietly E"
  let ?m = "py_seq (st_send_events E es) (py_modify (\<lambda>s. s\<lparr>sc_transcript := ts_reset_segment (sc_transcript s),
      sc_silence := sd_reset (sc_silence s),
      sc_vad := (if b then map_option (vd_reset (se_vad_backend E)) (sc_vad s) else sc_vad s)\<rparr>))"
  show "runs (\<lambda>s. wire_pending es s \<and> list_all stream_event es) ?m (\<lambda>_. wire_open)"
  proof (cases "list_all stream_event es")
    case True
    have "runs (wire_pending es) ?m (\<lambda>_. wire_open)" by (rule runs_seq [OF st_send_events_runs [OF c True]]) simp
    then show ?thesis by (rule runs_conseq) simp_all
  qed (simp add: runs_def)
qed

lemma orderly_enforce [simp]: "orderly E (st_enforce_stream_progress E r n)"
  unfolding st_enforce_stream_progress_def by (intro orderly_rules) simp_all

lemma orderly_snapshots [simp]: "orderly E (st_apply_snapshots E rs)"
  by (induction rs) (auto intro!: orderly_rules)

lemma orderly_validate [simp]: "orderly E (st_validate_audio_frame E p)"
  unfolding st_validate_audio_frame_def Let_def by (intro orderly_rules orderly_modify) simp_all

lemma orderly_add_model_audio [simp]: "orderly E (st_add_model_audio E p)"
  unfolding st_add_model_audio_def st_await_model_operation_def by (intro orderly_rules) simp_all

lemma orderly_add_pieces [simp]: "orderly E (st_add_pieces E r ps)"
  by (induction ps arbitrary: r) (auto intro!: orderly_rules)

lemma orderly_add_vad_audio [simp]: "orderly E (st_add_vad_audio E p)"
  by (simp add: st_add_vad_audio_def)

lemma orderly_reset_segment [simp]: "orderly E (st_reset_segment E b)"
  unfolding st_reset_segment_def st_await_model_operation_def by (intro orderly_rules) simp_all

lemma orderly_vad_rounds [simp]: "orderly E (st_vad_rounds E n d)"
  by (induction n arbitrary: d) (auto simp: st_handle_vad_decision_def intro!: orderly_rules)

lemma orderly_add_audio [simp]: "orderly E (st_add_audio E p)"
  unfolding st_add_audio_def by (intro orderly_rules) simp_all

lemma orderly_explicit_segment [simp]: "orderly E (st_explicit_segment E)"
  unfolding st_explicit_segment_def by (intro orderly_rules orderly_modify) simp_all

lemma orderly_start [simp]: "orderly E (st_start_with E create language)"
proof -
  have "orderly E (py_bind (on_transcript (\<lambda>t. apfst Inr (ts_new_event ''ready'' [] t))) (st_send_event E))"
    by (simp add: orderly_def single_event_runs(1) stream_event_def)
  then show ?thesis
    unfolding st_start_with_def st_await_model_operation_def
    by (intro orderly_seq [OF _ orderly_seq]) (auto intro!: orderly_rules orderly_modify)
qed

section \<open>The ends of a stream\<close>

lemma wire_raised_fine: "wire_raised e s \<Longrightarrow> wire_fine s"
  by (auto simp: wire_raised_def wire_open_fine split: if_splits)

lemma runs_fine:
  assumes "runs P m (\<lambda>_. wire_fine)" and "P s"
  shows "wire_fine (snd (m s))"
proof -
  obtain r t where mt: "m s = (r, t)" by fastforce
  with runsD [OF assms] runsE [OF assms] show ?thesis by (cases r) (auto intro: wire_raised_fine)
qed

lemma ending_runs: "(closes_quietly E \<Longrightarrow> runs wire_open m (\<lambda>_. wire_fine)) \<Longrightarrow> ending E m"
  unfolding ending_def by (blast intro: runs_fine)

lemma ending_fail [simp]:
  "ending E (st_fail E a b c)" "ending E (session_timeout_failure E)" "ending E (receive_timeout_failure E r)"
  "ending E (invalid_message E m)"
  unfolding session_timeout_failure_def receive_timeout_failure_def invalid_message_def
  by (auto intro: ending_runs st_fail_runs)

lemma ending_orderly: "orderly E m \<Longrightarrow> ending E m"
  unfolding orderly_def by (blast intro: ending_runs runs_conseq wire_open_fine)

lemma ending_bind:
  fixes E :: "('c, 'v) stream_env"
  assumes "orderly E m" and "\<And>x. ending E (f x)"
  shows "ending E (py_bind m f)"
  unfolding ending_def
proof (intro impI allI)
  fix s :: "('c, 'v) StreamingSessionController" assume c: "closes_quietly E" and s: "wire_open s"
  with assms(1) have m: "runs wire_open m (\<lambda>_. wire_open)" by (simp add: orderly_def)
  obtain r t where mt: "m s = (r, t)" by fastforce
  show "wire_fine (snd (py_bind m f s))"
  proof (cases r)
    case (Inl e)
    with runsE [OF m s] mt show ?thesis by (auto simp: py_bind_def intro: wire_raised_fine)
  next
    case (Inr x)
    with runsD [OF m s] mt have "wire_open t" by simp
    with assms(2) c mt Inr show ?thesis by (simp add: py_bind_def ending_def)
  qed
qed

lemma ending_seq: "orderly E m \<Longrightarrow> ending E n \<Longrightarrow> ending E (py_seq m n)"
  unfolding py_seq_def by (rule ending_bind)

lemma ending_if: "(b \<Longrightarrow> ending E m) \<Longrightarrow> (\<not> b \<Longrightarrow> ending E n) \<Longrightarrow> ending E (if b then m else n)"
  by simp

lemma ending_basic [simp]: "ending E (py_return x)" "ending E (py_raise e)"
  by (simp_all add: ending_orderly)

lemma closed_by_ending: "ending E m \<Longrightarrow> ending E (closed_by m)"
  by (auto simp: ending_def closed_by_def method_defs split: prod.split sum.split)

lemma final_event_new: "ts_final_event t = ts_new_event ''final'' (ts_partial t) t"
  by (simp add: ts_final_event_def ts_new_event_def)

lemma st_finish_steps_runs:
  fixes E :: "('c, 'v) stream_env"
  assumes c: "closes_quietly E"
  shows "runs wire_open (st_finish_steps E i) (\<lambda>_. wire_ended)"
  unfolding st_finish_steps_def final_event_new st_await_model_operation_def
proof (rule runs_read)
  have o: "runs wire_open m (\<lambda>_. wire_open)" if "orderly E m" for m :: "('c, 'v, 'd) st_method"
    using that c by (simp add: orderly_def)
  fix with_vad
  have vad: "orderly E (st_when with_vad (py_bind (st_vad (vd_finish_input (se_vad_backend E))) (\<lambda>pending.
      st_when (audio_to_model pending \<noteq> []) (py_bind (st_add_vad_audio E (audio_to_model pending)) (\<lambda>_. py_return ())))))"
    by (intro orderly_rules) simp_all
  have call: "orderly E (st_within_session E (py_bind (st_call [] (ca_finish_stream (se_coordinator E) i)) (\<lambda>r.
      py_seq (st_log (Released i)) (py_return r))))"
    by (intro orderly_rules) simp_all
  have rest: "runs wire_open (py_seq (st_ensure_session_active E) (py_seq (st_enforce_stream_progress E r 0)
      (py_seq (st_apply_stream_result E r)
        (py_bind (on_transcript (\<lambda>t. apfst Inr (ts_new_event ''final'' (ts_partial t) t))) (st_send_event E))))) (\<lambda>_. wire_ended)" for r
    by (rule runs_seq [OF o], simp, rule runs_seq [OF o], simp, rule runs_seq [OF o], simp, rule single_event_runs(2) [OF c])
  show "runs wire_open (py_seq (st_when with_vad (py_bind (st_vad (vd_finish_input (se_vad_backend E))) (\<lambda>pending.
      st_when (audio_to_model pending \<noteq> []) (py_bind (st_add_vad_audio E (audio_to_model pending)) (\<lambda>_. py_return ())))))
      (py_bind (st_within_session E (py_bind (st_call [] (ca_finish_stream (se_coordinator E) i)) (\<lambda>r.
      py_seq (st_log (Released i)) (py_return r)))) (\<lambda>r. py_seq (st_ensure_session_active E) (py_seq (st_enforce_stream_progress E r 0)
      (py_seq (st_apply_stream_result E r)
        (py_bind (on_transcript (\<lambda>t. apfst Inr (ts_new_event ''final'' (ts_partial t) t))) (st_send_event E))))))) (\<lambda>_. wire_ended)"
    by (rule runs_seq [OF o [OF vad]], rule runs_bind [OF o [OF call] rest])
qed

lemma st_finish_ending [simp]: "ending E (st_finish E)"
proof (rule ending_runs)
  assume c: "closes_quietly E"
  have close: "runs wire_ended (py_seq (py_modify (\<lambda>s. s\<lparr>sc_finished := True, sc_session_id := None\<rparr>)) (st_close_socket E 1000)) (\<lambda>_. wire_fine)"
    by (rule runs_seq [OF _ st_close_runs [OF c]]) (simp add: wire_ended_def wire_numbered_def)
  show "runs wire_open (st_finish E) (\<lambda>_. wire_fine)"
    unfolding st_finish_def
    by (rule runs_bind [OF runs_open_quiet [OF traffic_parts(3)]], rule runs_seq [OF failing_runs [OF c st_finish_steps_runs [OF c]] close])
qed

lemma st_stateful_loop_ending [simp]: "ending E (st_stateful_loop E ms)"
proof (induction ms)
  case Nil
  show ?case by (auto intro!: ending_bind)
next
  case (Cons m ms)
  have "ending E (py_seq (st_add_audio E p) (st_stateful_loop E ms))" "ending E (py_seq (st_explicit_segment E) (st_stateful_loop E ms))" for p
    by (rule ending_seq [OF _ Cons]; simp)+
  then show ?case
    by (auto intro!: ending_bind ending_if split: incoming.split sum.split json.split py_error.split)
qed

lemma py_finally_remove:
  fixes E :: "('c, 'v) stream_env"
  shows "orderly E m \<Longrightarrow> orderly E (py_finally m (st_remove_file n))"
  unfolding orderly_def
proof
  assume o: "closes_quietly E \<longrightarrow> runs wire_open m (\<lambda>_. wire_open)" and c: "closes_quietly E"
  have same: "wire_open (s\<lparr>sc_files := f\<rparr>) = wire_open s" "wire_raised e (s\<lparr>sc_files := f\<rparr>) = wire_raised e s"
    for s :: "('c, 'v) StreamingSessionController" and f e
    by (simp_all add: wire_raised_def wire_fine_def wire_open_def wire_numbered_def)
  from o c have m: "runs wire_open m (\<lambda>_. wire_open)" by simp
  show "runs wire_open (py_finally m (st_remove_file n)) (\<lambda>_. wire_open)"
  proof (rule runs_intro)
    fix s :: "('c, 'v) StreamingSessionController" assume s: "wire_open s"
    obtain r t where mt: "m s = (r, t)" by fastforce
    with runsD [OF m s] runsE [OF m s]
    show "case py_finally m (st_remove_file n) s of (Inr x, t) \<Rightarrow> wire_open t | (Inl e, t) \<Rightarrow> wire_raised e t"
      by (cases r) (simp_all add: py_finally_def st_remove_file_def py_modify_def same)
  qed
qed

lemma orderly_transcribe_chunk [simp]: "orderly E (st_transcribe_chunk E p language)"
  unfolding st_transcribe_chunk_def st_await_model_operation_def Let_def
  by (intro orderly_rules py_finally_remove) simp_all

lemma orderly_flush [simp]: "orderly E (st_flush_chunked_buffer E buffer language detector b)"
  unfolding st_flush_chunked_buffer_def
  by (intro orderly_seq orderly_if orderly_when orderly_bind [OF orderly_transcribe_chunk] orderly_modify
      orderly_emit [OF emits_append] orderly_emit [OF emits_commit_pending]) simp_all

lemma final_then_close: "ending E (py_seq (py_bind (on_transcript (\<lambda>t. apfst Inr (ts_new_event ''final'' (ts_partial t) t)))
    (st_send_event E)) (py_seq (st_abort E) (st_close_socket E 1000)))"
  unfolding ending_def
proof (intro impI allI)
  fix s :: "('a, 'b) StreamingSessionController" assume c: "closes_quietly E" and s: "wire_open s"
  let ?final = "py_bind (on_transcript (\<lambda>t. apfst Inr (ts_new_event ''final'' (ts_partial t) t))) (st_send_event E)"
  note final = single_event_runs(2) [OF c, of ts_partial]
  obtain r t where rt: "?final s = (r, t)" by fastforce
  obtain r' u where ru: "st_abort E t = (r', u)" by fastforce
  show "wire_fine (snd (py_seq ?final (py_seq (st_abort E) (st_close_socket E 1000)) s))"
  proof (cases r)
    case (Inl e)
    with runsE [OF final s] rt show ?thesis by (auto simp: py_seq_def py_bind_def [of ?final] intro: wire_raised_fine)
  next
    case (Inr x)
    with runsD [OF final s] rt have t: "wire_ended t" by simp
    have "traffic u = traffic t" by (rule keepsD [OF traffic_abort ru])
    from wire_traffic(2) [OF this] t have u: "wire_ended u" by (rule iffD2)
    with runs_fine [OF st_close_runs [OF c] u] show ?thesis
      by (cases r') (auto simp: py_seq_def py_bind_def [of ?final] py_bind_def [of "st_abort E"] rt ru Inr intro: wire_ended_fine)
  qed
qed

lemma st_chunked_loop_ending [simp]: "ending E (st_chunked_loop E language rate buffer detector ms)"
proof (induction ms arbitrary: buffer detector)
  case Nil
  show ?case by (auto intro!: ending_bind ending_if closed_by_ending)
next
  case (Cons m ms)
  have step: "ending E (case sd_add_audio d p rate of (silence_endpoint, d) \<Rightarrow>
      py_seq (st_when silence_endpoint (py_bind (on_transcript (\<lambda>t. apfst Inr (ts_commit_pending t))) (st_send_events E)))
        (st_chunked_loop E language rate held d ms))" for held d p
    by (cases "sd_add_audio d p rate")
      (auto intro!: ending_seq [OF _ Cons] orderly_when orderly_emit emits_commit_pending)
  have flush: "orderly E (if c then py_bind (st_flush_chunked_buffer E b language d f) (\<lambda>d. py_return ([], d)) else py_return (b', d'))"
    for c b d f b' d' by (intro orderly_rules) simp_all
  have finish: "ending E (py_bind (st_flush_chunked_buffer E buffer language detector False) (\<lambda>_.
      py_seq (st_ensure_session_active E)
      (py_seq (py_bind (on_transcript (\<lambda>t. apfst Inr (ts_new_event ''final'' (ts_partial t) t))) (st_send_event E))
      (py_seq (st_abort E) (st_close_socket E 1000)))))"
    by (intro ending_bind ending_seq [OF orderly_basic(5)] final_then_close) simp
  have segment: "ending E (py_bind (st_flush_chunked_buffer E buffer language detector True) (\<lambda>d.
      st_chunked_loop E language rate [] d ms))"
    by (rule ending_bind [OF orderly_flush Cons])
  have audio: "ending E (py_seq (st_validate_audio_frame E p) (py_bind
      (if max 1 \<lfloor>of_int (rate * 2) * asr_stream_chunk_seconds (se_settings E)\<rfloor> \<le> int (length (buffer @ p))
       then py_bind (st_flush_chunked_buffer E (buffer @ p) language detector False) (\<lambda>d. py_return ([], d))
       else py_return (buffer @ p, detector)) (\<lambda>(held, d). case sd_add_audio d p rate of (silence_endpoint, d) \<Rightarrow>
        py_seq (st_when silence_endpoint (py_bind (on_transcript (\<lambda>t. apfst Inr (ts_commit_pending t))) (st_send_events E)))
        (st_chunked_loop E language rate held d ms))))" for p
    by (rule ending_seq [OF orderly_validate], rule ending_bind [OF flush]) (auto intro: step)
  have start: "ending E (py_bind (st_remaining_session_seconds E) (\<lambda>remaining.
      if remaining \<le> 0 then closed_by (session_timeout_failure E) else f remaining))" if "\<And>r. ending E (f r)" for f
    by (rule ending_bind, simp, rule ending_if, rule closed_by_ending, simp, rule that)
  show ?case
  proof (cases m)
    case (ReceiveFails e)
    show ?thesis unfolding st_chunked_loop.simps ReceiveFails incoming.case
      by (rule start) (simp add: closed_by_ending split: py_error.split)
  next
    case Disconnect
    show ?thesis unfolding st_chunked_loop.simps Disconnect incoming.case by (rule start) simp
  next
    case (AudioBytes p)
    show ?thesis unfolding st_chunked_loop.simps AudioBytes incoming.case by (rule start) (rule audio)
  next
    case (TextMessage j)
    show ?thesis unfolding st_chunked_loop.simps TextMessage incoming.case
      by (rule start) (auto intro!: closed_by_ending finish segment split: sum.split json.split)
  next
    case EmptyMessage
    show ?thesis unfolding st_chunked_loop.simps EmptyMessage incoming.case by (rule start) (rule Cons)
  qed
qed

text \<open>The start message: either it is accepted and nothing was sent, or it was answered by an error.\<close>

definition answered :: "ASRStreamStart option \<Rightarrow> ('c, 'v) StreamingSessionController \<Rightarrow> bool" where
  "answered start s \<longleftrightarrow> (if start = None then wire_fine s else wire_open s)"

lemma parse_runs:
  assumes "closes_quietly E"
  shows "runs wire_open (parse_stream_start E decoded) answered"
proof -
  have fail: "runs wire_open (st_fail_start E f) answered" for f
    unfolding st_fail_start_def
    by (cases f) (auto simp: answered_def intro!: runs_seq [OF st_fail_runs [OF assms]])
  have accept: "answered (Some m) s = wire_open s" for m s by (simp add: answered_def)
  show ?thesis
    unfolding parse_stream_start_def
    by (simp add: fail accept split: sum.split py_error.split json.split option.split)
qed

lemma st_serve_ending: "ending E (st_serve E raw_start ms)"
proof (cases raw_start)
  case (Inl e)
  then show ?thesis by (auto simp: st_serve_def split: py_error.split)
next
  case (Inr decoded)
  have run: "ending E (if asr_stream_mode (se_settings E) \<noteq> ModeStateful
       then py_seq (st_start_chunked E l) (st_chunked_loop E l rate [] (silence_detector (se_settings E)) ms)
       else py_seq (st_start E l) (st_stateful_loop E ms))" for l rate
    unfolding st_start_chunked_def st_start_def by (rule ending_if; rule ending_seq) simp_all
  show ?thesis
    unfolding st_serve_def Inr sum.case ending_def
  proof (intro impI allI)
    fix s :: "('a, 'b) StreamingSessionController" assume c: "closes_quietly E" and s: "wire_open s"
    note parse = parse_runs [OF c, of decoded]
    obtain r t where rt: "parse_stream_start E decoded s = (r, t)" by fastforce
    show "wire_fine (snd (py_bind (parse_stream_start E decoded) (\<lambda>start. case start of None \<Rightarrow> py_return ()
        | Some m \<Rightarrow> if asr_stream_mode (se_settings E) \<noteq> ModeStateful
          then py_seq (st_start_chunked E (ss_language m))
            (st_chunked_loop E (ss_language m) (ss_sample_rate m) [] (silence_detector (se_settings E)) ms)
          else py_seq (st_start E (ss_language m)) (st_stateful_loop E ms)) s))"
    proof (cases r)
      case (Inl e)
      with runsE [OF parse s] rt show ?thesis by (auto simp: py_bind_def intro: wire_raised_fine)
    next
      case (Inr start)
      with runsD [OF parse s] rt have t: "if start = None then wire_fine t else wire_open t" by (simp add: answered_def)
      show ?thesis
      proof (cases start)
        case None
        with t rt Inr show ?thesis by (simp add: py_bind_def py_return_def)
      next
        case (Some m)
        with t have "wire_open t" by simp
        with run [of "ss_language m" "ss_sample_rate m"] c have "wire_fine (snd ((if asr_stream_mode (se_settings E) \<noteq> ModeStateful
          then py_seq (st_start_chunked E (ss_language m))
            (st_chunked_loop E (ss_language m) (ss_sample_rate m) [] (silence_detector (se_settings E)) ms)
          else py_seq (st_start E (ss_language m)) (st_stateful_loop E ms)) t))" by (simp only: ending_def)
        with rt Inr Some show ?thesis by (simp add: py_bind_def)
      qed
    qed
  qed
qed

lemma st_init_open: "st_init E vad c = Inr s \<Longrightarrow> wire_open s"
  by (auto simp: st_init_def Let_def bind_result_eq_Inr wire_open_def wire_numbered_def ts_init_def ts_inv_def)

lemma transcribe_stream_fine:
  assumes "closes_quietly E" and "wire_open s"
  shows "wire_fine (snd (transcribe_stream E raw_start ms s))"
proof -
  let ?m = "py_except (st_serve E raw_start ms)
      (\<lambda>e. if e = StreamClosed \<or> e = OtherError ''WebSocketDisconnect'' then py_return () else py_raise e)"
  obtain r t where rt: "?m s = (r, t)" by fastforce
  have "wire_fine (snd (st_serve E raw_start ms s))" using assms st_serve_ending [of E raw_start ms, unfolded ending_def] by blast
  with rt have t: "wire_fine t" by (auto simp: py_except_def py_return_def py_raise_def split: prod.splits sum.splits if_splits)
  obtain r' u where ru: "st_abort E t = (r', u)" by fastforce
  have "traffic u = traffic t" by (rule keepsD [OF traffic_abort ru])
  from wire_traffic(3) [OF this] t have "wire_fine u" by (rule iffD2)
  with rt ru show ?thesis by (cases r') (simp_all add: transcribe_stream_def py_finally_def)
qed

section \<open>Properties\<close>

text \<open>C6: what a client receives over a whole connection: the messages are numbered strictly upwards,
  a final event or an error is the last message, and at most the close follows it. This holds
  whatever the client sends, the coordinator answers, and whichever sends fail, as long as
  closing the socket does not raise.\<close>

theorem stream_messages_orderly:
  assumes "st_init E vad c = Inr s" and "closes_quietly E" and "transcribe_stream E raw_start ms s = (r, t)"
  shows "sorted_wrt (<) (wire_numbers (sc_wire t)) \<and> wire_shape (sc_wire t)"
  using transcribe_stream_fine [OF assms(2) st_init_open [OF assms(1)], of raw_start ms] assms(3)
  by (simp add: wire_fine_def wire_numbered_def)

theorem stream_messages_orderly_witness:
  "let t = snd (transcribe_stream example_stream_env (Inr (Inr example_start)) example_messages example_controller) in
   sorted_wrt (<) (wire_numbers (sc_wire t)) \<and> wire_shape (sc_wire t)"
proof -
  have "closes_quietly example_stream_env" by (simp add: closes_quietly_def example_stream_env_def)
  from stream_messages_orderly [OF example_controller_init this surjective_pairing, of "Inr (Inr example_start)" example_messages]
  show ?thesis unfolding Let_def .
qed

lemma st_fail_answer:
  "st_fail E code message c s = (Inr x, t) \<Longrightarrow>
   sc_wire t = sc_wire s @ [WireError code message (ts_sequence (sc_transcript s) + 1), WireClose c]"
  by (auto simp: st_fail_def on_transcript_def ts_new_event_def ts_event_def Let_def st_send_json_def st_close_socket_def
      method_defs split: sum.splits prod.splits)

lemma st_fail_start_answer:
  assumes "st_fail_start E f s = (Inr start, t)"
  shows "start = None \<and> (\<exists>code message c. sc_wire t = sc_wire s @ [WireError code message (ts_sequence (sc_transcript s) + 1), WireClose c])"
proof -
  obtain code message c where f: "f = (code, message, c)" by (cases f)
  from assms obtain x where "st_fail E code message c s = (Inr x, t)" and "start = None"
    by (auto simp: f st_fail_start_def method_defs split: sum.splits prod.splits)
  with st_fail_answer show ?thesis by blast
qed

text \<open>C31: a start message is accepted only if it is an object of type \<open>start\<close> with the configured nonempty
  key, the rate 16000 and a language of at most 32 characters, and accepting it changes nothing; a
  rejected one is answered by exactly one error and the close.\<close>

theorem start_message_checked:
  assumes "parse_stream_start E decoded s = (Inr start, t)"
  shows "case start of
      Some m \<Rightarrow> t = s \<and> ss_sample_rate m = 16000 \<and> ss_api_key m = api_key (se_settings E) \<and> ss_api_key m \<noteq> [] \<and>
        (case ss_language m of None \<Rightarrow> True | Some l \<Rightarrow> length l \<le> 32) \<and>
        (\<exists>p. decoded = Inr (JObj p) \<and> map_of p (lit ''type'') = Some (JStr (lit ''start'')) \<and>
           map_of p (lit ''api_key'') = Some (JStr (ss_api_key m)))
    | None \<Rightarrow> \<exists>code message c.
        sc_wire t = sc_wire s @ [WireError code message (ts_sequence (sc_transcript s) + 1), WireClose c]"
proof (cases start)
  case None
  with assms show ?thesis
    by (auto simp: parse_stream_start_def py_return_def py_raise_def
        split: sum.splits py_error.splits json.splits option.splits if_splits dest: st_fail_start_answer)
next
  case (Some m)
  from assms obtain p where p: "decoded = Inr (JObj p)" "model_validate p = Some m" "t = s" "ss_sample_rate m = 16000"
    "is_valid_api_key (Some (ss_api_key m)) (se_settings E)"
    by (auto simp: Some parse_stream_start_def py_return_def py_raise_def
        split: sum.splits py_error.splits json.splits option.splits if_splits dest: st_fail_start_answer)
  from p(2) have "map_of p (lit ''type'') = Some (JStr (lit ''start'')) \<and>
      map_of p (lit ''api_key'') = Some (JStr (ss_api_key m)) \<and>
      (case ss_language m of None \<Rightarrow> True | Some l \<Rightarrow> length l \<le> 32)"
    by (auto simp: model_validate_def validated_language_def split: option.splits json.splits if_splits)
  with p Some show ?thesis by (auto simp: is_valid_api_key_def)
qed

theorem start_message_checked_witness:
  "fst (parse_stream_start example_stream_env (Inr example_start) example_controller) =
     Inr (Some \<lparr>ss_api_key = replicate 40 120, ss_language = None, ss_sample_rate = 16000\<rparr>) \<and>
   snd (parse_stream_start example_stream_env (Inr example_start) example_controller) = example_controller"
proof -
  have keys: "lit ''type'' \<noteq> lit ''api_key''" "lit ''language'' \<noteq> lit ''type''" "lit ''language'' \<noteq> lit ''api_key''"
    "lit ''sample_rate'' \<noteq> lit ''type''" "lit ''sample_rate'' \<noteq> lit ''api_key''" "lit ''format'' \<noteq> lit ''type''"
    "lit ''format'' \<noteq> lit ''api_key''"
    by (simp_all add: lit_def)
  have "se_settings example_stream_env = example_stream_settings" by (simp add: example_stream_env_def)
  then have "parse_stream_start example_stream_env (Inr example_start) example_controller =
      (Inr (Some \<lparr>ss_api_key = replicate 40 120, ss_language = None, ss_sample_rate = 16000\<rparr>), example_controller)"
    using keys keys [symmetric]
    by (simp add: parse_stream_start_def example_start_def model_validate_def validated_language_def json_get_def
        is_string_or_null_def wrong_integer_rate_def is_valid_api_key_def example_settings_fields py_return_def)
  from start_message_checked [OF this] this show ?thesis by simp
qed

end
