(* ===== verification/StreamAudio.thy ===== *)
theory StreamAudio
  imports StreamCoordinator
begin

text \<open>
  Audio and time in the single-process service: what goes through the endpoint detector reaches the
  model or is discarded, in order; undecoded samples are accounted for; and the real-time error
  means a backlog beyond the limit.
\<close>

section \<open>Undecoded samples\<close>

definition undecoded_samples :: "undecoded_batch list \<Rightarrow> int" where
  "undecoded_samples batches = sum_list (map fst batches)"

definition batches_ok :: "undecoded_batch list \<Rightarrow> bool" where
  "batches_ok batches \<longleftrightarrow> list_all (\<lambda>b. 0 < fst b) batches"

lemma batches_nonneg: "batches_ok batches \<Longrightarrow> 0 \<le> undecoded_samples batches"
  by (induction batches) (auto simp: batches_ok_def undecoded_samples_def)

lemma take_decoded_zero [simp]: "take_decoded 0 bs = bs"
  by (cases bs) auto

lemma take_decoded_accounts:
  "batches_ok bs \<Longrightarrow> 0 \<le> r \<Longrightarrow>
   undecoded_samples (take_decoded r bs) = max 0 (undecoded_samples bs - r) \<and> batches_ok (take_decoded r bs)"
proof (induction r bs rule: take_decoded.induct)
  case (2 r n submitted work rest)
  have rest: "batches_ok rest" "0 < n" using 2(3) by (simp_all add: batches_ok_def)
  have sum: "undecoded_samples ((n, submitted, work) # rest) = n + undecoded_samples rest" by (simp add: undecoded_samples_def)
  consider "r = 0" | "0 < r" "r < n" | "0 < r" "n \<le> r" using 2(4) by linarith
  then show ?case
  proof cases
    case 1
    with 2(3) batches_nonneg [OF 2(3)] show ?thesis by simp
  next
    case 2
    then show ?thesis
      using rest batches_nonneg [OF rest(1)] by (simp add: min_def batches_ok_def undecoded_samples_def)
  next
    case 3
    then have "undecoded_samples (take_decoded (r - n) rest) = max 0 (undecoded_samples rest - (r - n)) \<and>
        batches_ok (take_decoded (r - n) rest)"
      using "2.IH"(1) [of n] rest by simp
    with 3 rest batches_nonneg [OF rest(1)] show ?thesis by (simp add: min_def sum algebra_simps)
  qed
qed (simp add: undecoded_samples_def batches_ok_def)

section \<open>Real-time lag\<close>

text \<open>One observation: the clock, the result and the samples submitted for it.\<close>

type_synonym observation = "rat \<times> StreamingTranscriptionResult \<times> int"

definition processing_seconds :: "StreamingTranscriptionResult \<Rightarrow> rat" where
  "processing_seconds r = max 0 (sr_queue_wait_seconds r) + max 0 (sr_inference_seconds r)"

definition decoded_seconds :: "StreamingTranscriptionResult \<Rightarrow> rat" where
  "decoded_seconds r = (case total_decoded_samples_delta r of None \<Rightarrow> 0 | Some n \<Rightarrow> of_int (max 0 n) / 16000)"

text \<open>How much longer the calls took than the audio they decoded.\<close>

definition backlog :: "observation list \<Rightarrow> rat" where
  "backlog obs = sum_list (map (\<lambda>(now, r, n). processing_seconds r - decoded_seconds r) obs)"

fun st_observe_all :: "StreamSettings \<Rightarrow> observation list \<Rightarrow> ('c, 'v) StreamingSessionController \<Rightarrow>
    bool list \<times> ('c, 'v) StreamingSessionController" where
  "st_observe_all S [] s = ([], s)"
| "st_observe_all S ((now, r, n) # obs) s =
     (let (report, t) = st_observe_stream_progress S now r n s; (reports, u) = st_observe_all S obs t
      in (report # reports, u))"

lemma observe_debt:
  assumes "st_observe_stream_progress S now r n s = (report, t)"
  shows "sc_processing_debt_seconds t = max 0 (sc_processing_debt_seconds s + processing_seconds r - decoded_seconds r)"
    and "sc_lag_error_sent t = (sc_lag_error_sent s \<or> report)"
    and "report \<Longrightarrow> \<not> sc_lag_error_sent s \<and> asr_max_connection_lag_seconds S < sc_processing_debt_seconds t"
proof -
  have r: "report = fst (st_observe_stream_progress S now r n s)" and t: "t = snd (st_observe_stream_progress S now r n s)"
    using assms by simp_all
  show debt: "sc_processing_debt_seconds t = max 0 (sc_processing_debt_seconds s + processing_seconds r - decoded_seconds r)"
    unfolding t st_observe_stream_progress_def Let_def processing_seconds_def decoded_seconds_def by simp
  show "sc_lag_error_sent t = (sc_lag_error_sent s \<or> report)"
    unfolding t r st_observe_stream_progress_def Let_def by simp
  show "report \<Longrightarrow> \<not> sc_lag_error_sent s \<and> asr_max_connection_lag_seconds S < sc_processing_debt_seconds t"
    unfolding debt unfolding r st_observe_stream_progress_def Let_def fst_conv processing_seconds_def decoded_seconds_def by blast
qed

lemma observe_undecoded:
  assumes "batches_ok (sc_undecoded_batches s)" and "0 \<le> n" and "st_observe_stream_progress S now r n s = (report, t)"
  shows "undecoded_samples (sc_undecoded_batches t) =
      max 0 (undecoded_samples (sc_undecoded_batches s) + n - max 0 (py_or (total_decoded_samples_delta r) 0)) \<and>
    batches_ok (sc_undecoded_batches t)"
proof -
  let ?bs = "sc_undecoded_batches s @ (if n \<noteq> 0 then [(n, now, sc_model_work_seconds s)] else [])"
  have "batches_ok ?bs" using assms(1,2) by (auto simp: batches_ok_def)
  moreover have "undecoded_samples ?bs = undecoded_samples (sc_undecoded_batches s) + n" by (simp add: undecoded_samples_def)
  moreover have "sc_undecoded_batches t = take_decoded (max 0 (py_or (total_decoded_samples_delta r) 0)) ?bs"
  proof -
    have t: "t = snd (st_observe_stream_progress S now r n s)" using assms(3) by simp
    show ?thesis unfolding t st_observe_stream_progress_def Let_def by simp
  qed
  ultimately show ?thesis using take_decoded_accounts [of ?bs "max 0 (py_or (total_decoded_samples_delta r) 0)"] by simp
qed

text \<open>The debt is the backlog over some last calls.\<close>

lemma observe_all_backlog:
  assumes "st_observe_all S obs s = (reports, t)" and "sc_processing_debt_seconds s = backlog before"
  shows "length (filter (\<lambda>b. b) reports) \<le> (if sc_lag_error_sent s then 0 else 1) \<and>
    (True \<in> set reports \<longrightarrow> (\<exists>calls. sublist calls (before @ obs) \<and> asr_max_connection_lag_seconds S < backlog calls))"
  using assms
proof (induction obs arbitrary: s before reports t)
  case Nil
  then show ?case by simp
next
  case (Cons x obs)
  obtain now r n where x: "x = (now, r, n)" by (cases x)
  obtain report u where ru: "st_observe_stream_progress S now r n s = (report, u)"
    by (cases "st_observe_stream_progress S now r n s")
  obtain rest v where rv: "st_observe_all S obs u = (rest, v)" by (cases "st_observe_all S obs u")
  have reports: "reports = report # rest" using Cons.prems(1) x ru rv by simp
  note one = observe_debt [OF ru]
  have step: "backlog (before @ [x]) = backlog before + (processing_seconds r - decoded_seconds r)" by (simp add: backlog_def x)
  have same: "before @ x # obs = (before @ [x]) @ obs" by simp
  show ?case
  proof (cases "0 \<le> backlog (before @ [x])")
    case True
    then have debt: "sc_processing_debt_seconds u = backlog (before @ [x])" using one step Cons.prems(2) by simp
    note IH = Cons.IH [OF rv debt]
    have first: "sublist (before @ [x]) (before @ x # obs)" unfolding same by (rule sublist_append_rightI)
    show ?thesis
    proof (cases report)
      case True
      with one debt have "asr_max_connection_lag_seconds S < backlog (before @ [x])" by simp
      moreover from True IH one reports have "length (filter (\<lambda>b. b) reports) \<le> (if sc_lag_error_sent s then 0 else 1)" by simp
      ultimately show ?thesis using first by blast
    next
      case False
      then have flags: "filter (\<lambda>b. b) reports = filter (\<lambda>b. b) rest" "True \<in> set reports \<longleftrightarrow> True \<in> set rest" "sc_lag_error_sent u = sc_lag_error_sent s"
        using one reports by simp_all
      show ?thesis unfolding same flags(1,2) using IH [unfolded flags(3)] .
    qed
  next
    case False
    then have debt: "sc_processing_debt_seconds u = backlog []" using one step Cons.prems(2) by (simp add: backlog_def)
    note IH = Cons.IH [OF rv debt]
    have wider: "sublist calls (before @ x # obs)" if "sublist calls obs" for calls
      unfolding same by (rule sublist_order.order.trans [OF that sublist_append_leftI])
    show ?thesis
    proof (cases report)
      case True
      with one debt have "asr_max_connection_lag_seconds S < backlog []" by simp
      moreover from True IH one reports have "length (filter (\<lambda>b. b) reports) \<le> (if sc_lag_error_sent s then 0 else 1)" by simp
      ultimately show ?thesis using sublist_Nil_left by blast
    next
      case False
      then have flags: "filter (\<lambda>b. b) reports = filter (\<lambda>b. b) rest" "True \<in> set reports \<longleftrightarrow> True \<in> set rest" "sc_lag_error_sent u = sc_lag_error_sent s"
        using one reports by simp_all
      from IH have "True \<in> set rest \<longrightarrow> (\<exists>calls. sublist calls (before @ x # obs) \<and> asr_max_connection_lag_seconds S < backlog calls)"
        using wider by (simp only: append_Nil) blast
      with IH show ?thesis unfolding flags by blast
    qed
  qed
qed

text \<open>The undecoded samples by the numbers alone.\<close>

fun expected_undecoded :: "observation list \<Rightarrow> int \<Rightarrow> int" where
  "expected_undecoded [] u = u"
| "expected_undecoded ((now, r, n) # obs) u =
     expected_undecoded obs (max 0 (u + n - max 0 (py_or (total_decoded_samples_delta r) 0)))"

lemma observe_all_undecoded:
  assumes "st_observe_all S obs s = (reports, t)" and "batches_ok (sc_undecoded_batches s)"
    and "list_all (\<lambda>x. 0 \<le> snd (snd x)) obs"
  shows "undecoded_samples (sc_undecoded_batches t) = expected_undecoded obs (undecoded_samples (sc_undecoded_batches s)) \<and>
    batches_ok (sc_undecoded_batches t)"
  using assms
proof (induction obs arbitrary: s reports)
  case (Cons x obs)
  obtain now r n where x: "x = (now, r, n)" by (cases x)
  obtain report u where ru: "st_observe_stream_progress S now r n s = (report, u)"
    by (cases "st_observe_stream_progress S now r n s")
  obtain rest v where rv: "st_observe_all S obs u = (rest, v)" by (cases "st_observe_all S obs u")
  have "0 \<le> n" and rest: "list_all (\<lambda>x. 0 \<le> snd (snd x)) obs" using Cons.prems(3) x by simp_all
  note one = observe_undecoded [OF Cons.prems(2) \<open>0 \<le> n\<close> ru]
  have "v = t" using Cons.prems(1) x ru rv by simp
  with Cons.IH [OF _ _ rest, of u rest] rv one show ?case by (simp add: x)
qed simp

section \<open>Audio through the endpoint detector\<close>

text \<open>The audio of the calls on the coordinator.\<close>

definition sent_audio :: "coordinator_call list \<Rightarrow> pcm" where
  "sent_audio calls = concat (map (\<lambda>c. case c of AudioSent i p \<Rightarrow> p | _ \<Rightarrow> []) calls)"

lemma sent_audio_simps [simp]:
  "sent_audio [] = []" "sent_audio (cs @ ds) = sent_audio cs @ sent_audio ds"
  "sent_audio [AudioSent i p] = p" "sent_audio [SegmentFinished i] = []" "sent_audio [Released i] = []"
  by (simp_all add: sent_audio_def)

text \<open>What a method that returns adds to the audio, the detector left as it is.\<close>

definition sends :: "('c, 'v, 'a) st_method \<Rightarrow> pcm \<Rightarrow> bool" where
  "sends m p \<longleftrightarrow> (\<forall>s x t. m s = (Inr x, t) \<longrightarrow> sent_audio (sc_calls t) = sent_audio (sc_calls s) @ p \<and> sc_vad t = sc_vad s)"

lemma sends_bind: "sends m p \<Longrightarrow> (\<And>x. sends (f x) q) \<Longrightarrow> sends (py_bind m f) (p @ q)"
  unfolding sends_def py_bind_Inr by (metis append.assoc)

lemma sends_seq: "sends m p \<Longrightarrow> sends n q \<Longrightarrow> sends (py_seq m n) (p @ q)"
  unfolding py_seq_def by (rule sends_bind)

lemma sends_bind_none: "sends m p \<Longrightarrow> (\<And>x. sends (f x) []) \<Longrightarrow> sends (py_bind m f) p"
  using sends_bind [of m p f "[]"] by simp

lemma sends_seq_none: "sends m p \<Longrightarrow> sends n [] \<Longrightarrow> sends (py_seq m n) p"
  using sends_seq [of m p n "[]"] by simp

lemma sends_then: "sends m [] \<Longrightarrow> (\<And>x. sends (f x) p) \<Longrightarrow> sends (py_bind m f) p"
  using sends_bind [of m "[]" f p] by simp

lemma sends_next: "sends m [] \<Longrightarrow> sends n p \<Longrightarrow> sends (py_seq m n) p"
  using sends_seq [of m "[]" n p] by simp

definition never_returns :: "('c, 'v, 'a) st_method \<Rightarrow> bool" where
  "never_returns m \<longleftrightarrow> (\<forall>s. \<not> isOk (fst (m s)))"

lemma never_returns_sends: "never_returns m \<Longrightarrow> sends m p"
  unfolding never_returns_def sends_def by (metis fst_conv isOk_simps(1))

lemma never_returns_bind: "(\<And>x. never_returns (f x)) \<Longrightarrow> never_returns (py_bind m f)"
  by (auto simp: never_returns_def py_bind_def split: prod.split sum.split)

lemma never_returns_raise [simp]: "never_returns (py_raise e)"
  by (simp add: never_returns_def py_raise_def)

lemma never_returns_fail_closed [simp]: "never_returns (st_fail_closed E f)" "never_returns (st_expire_session E)"
proof -
  show c: "never_returns (st_fail_closed E f)" for f :: "string \<times> string \<times> int"
    by (cases f) (simp add: st_fail_closed_def py_seq_def never_returns_bind)
  show "never_returns (st_expire_session E)"
    unfolding st_expire_session_def py_seq_def by (rule never_returns_bind) (rule c)
qed

lemma sends_raise [simp]: "sends (py_raise e) p"
  by (simp add: never_returns_sends)

lemma sends_fail [simp]: "sends (st_fail_closed E f) p" "sends (st_expire_session E) p"
  by (simp_all add: never_returns_sends)

lemma sends_quiet: "keeps (\<lambda>s. (sent_audio (sc_calls s), sc_vad s)) m \<Longrightarrow> sends m []"
  unfolding sends_def by (auto dest: keepsD)

lemma sends_except:
  "sends m p \<Longrightarrow> (\<And>e. never_returns (h e)) \<Longrightarrow> sends (py_except m h) p"
  unfolding sends_def never_returns_def py_except_def
  by (auto split: prod.splits sum.splits) (metis fst_conv isOk_simps(1))+

lemma sends_basic [simp]:
  "sends (py_return x) []" "sends (py_read g) []" "sends (st_now E) []" "sends st_session []"
  "sends (st_send_json E m) []" "sends (on_transcript f) []" "sends (st_observe E r k) []"
  "sends (on_silence h) []" "sends (st_remaining_session_seconds E) []"
  by (rule sends_quiet, auto simp: keeps_def method_defs st_now_def st_session_def st_send_json_def on_transcript_def
      st_observe_def st_observe_stream_progress_def Let_def on_silence_def st_remaining_session_seconds_def
      split: option.split sum.split prod.split)+

lemma sends_ensure [simp]: "sends (st_ensure_session_active E) []"
  unfolding st_ensure_session_active_def by (rule sends_then) simp_all

lemma sends_within: "sends m p \<Longrightarrow> sends (st_within_session E m) p"
  unfolding st_within_session_def
proof (rule sends_next)
  assume "sends m p"
  then show "sends (py_except m (\<lambda>e. case e of TimeoutError _ \<Rightarrow> st_expire_session E | _ \<Rightarrow> py_raise e)) p"
    by (rule sends_except) (simp split: py_error.split)
qed simp

lemma sends_failing: "sends m p \<Longrightarrow> sends (failing E clauses m) p"
  unfolding failing_def except_exception_def
  by (rule sends_except) (simp_all split: option.split)

lemma sends_call [simp]: "sends (st_call entry m) (sent_audio entry)"
  unfolding sends_def st_call_def by (auto split: prod.splits)

lemma sends_send_event [simp]: "sends (st_send_event E e) []"
  by (simp add: st_send_event_def sends_within)

lemma sends_for: "(\<And>x. sends (f x) []) \<Longrightarrow> sends (py_for xs f) []"
  by (induction xs) (simp_all add: sends_next)

lemma sends_send_events [simp]: "sends (st_send_events E es) []"
  unfolding st_send_events_def by (intro sends_for sends_next) simp_all

lemma sends_apply [simp]: "sends (st_apply_stream_result E r) []"
  unfolding st_apply_stream_result_def by (intro sends_then) simp_all

lemma sends_commit [simp]: "sends (st_commit_finished_segment E False) []"
  unfolding st_commit_finished_segment_def
  by (intro sends_then sends_next, simp, simp) (auto simp: sends_def py_modify_def)

lemma sends_when: "sends m [] \<Longrightarrow> sends (st_when b m) []"
  by (simp add: st_when_def)

lemma sends_enforce [simp]: "sends (st_enforce_stream_progress E r k) []"
  unfolding st_enforce_stream_progress_def by (rule sends_then) simp_all

lemma sends_snapshots [simp]: "sends (st_apply_snapshots E rs) []"
  by (induction rs) (simp_all add: sends_next sends_when)

lemma sends_add_model_audio [simp]: "sends (st_add_model_audio E p) p"
  unfolding st_add_model_audio_def st_await_model_operation_def
proof (rule sends_then, simp, rule sends_bind_none)
  fix i
  have "sends (st_call [AudioSent i p] (ca_add_audio (se_coordinator E) i p 16000)) p"
    using sends_call [of "[AudioSent i p]"] by simp
  then show "sends (failing E audio_clauses (st_within_session E (st_call [AudioSent i p] (ca_add_audio (se_coordinator E) i p 16000)))) p"
    by (intro sends_failing sends_within)
  show "sends (py_seq (st_ensure_session_active E) (py_seq (st_enforce_stream_progress E r (int (length p div 2)))
      (py_seq (failing E conflict_clauses (st_apply_snapshots E (snapshots r))) (py_return r)))) []" for r
    by (intro sends_next sends_failing) simp_all
qed

lemma sends_pieces: "sends (st_add_pieces E r ps) (concat ps)"
proof (induction ps arbitrary: r)
  case (Cons p ps)
  then show ?case by (simp add: sends_bind sends_next sends_when)
qed simp

text \<open>Cutting into frames loses nothing.\<close>

lemma pieces_concat: "0 < n \<Longrightarrow> concat (pieces n p) = p"
  by (induction n p rule: pieces.induct) (subst pieces.simps, simp)

lemma sends_vad_audio: "0 < asr_max_frame_bytes (se_settings E) \<Longrightarrow> sends (st_add_vad_audio E p) p"
  using sends_pieces [of E None "pieces (nat (asr_max_frame_bytes (se_settings E))) p"]
  by (simp add: st_add_vad_audio_def pieces_concat)

lemma sends_reset_segment [simp]: "sends (st_reset_segment E False) []"
  unfolding st_reset_segment_def st_await_model_operation_def
proof (rule sends_then, simp, rule sends_then)
  fix i
  have "sends (st_call [SegmentFinished i] (ca_finish_segment (se_coordinator E) i)) []"
    using sends_call [of "[SegmentFinished i]"] by simp
  then show "sends (failing E (operation_clauses ''ASR segment reset failed'') (st_within_session E
      (st_call [SegmentFinished i] (ca_finish_segment (se_coordinator E) i)))) []"
    by (intro sends_failing sends_within)
  show "sends (py_seq (st_ensure_session_active E) (py_seq (st_enforce_stream_progress E r 0)
      (py_seq (failing E conflict_clauses (st_apply_stream_result E r)) (st_commit_finished_segment E False)))) []" for r
    by (intro sends_next sends_failing) simp_all
qed

lemma sends_decision:
  assumes "0 < asr_max_frame_bytes (se_settings E)"
  shows "sends (st_handle_vad_decision E d) (audio_to_model d)"
  unfolding st_handle_vad_decision_def
  by (rule sends_bind_none) (simp_all add: sends_vad_audio [OF assms] sends_when)

text \<open>The rounds of one call: what the detector held goes to the model, is discarded, or is still held.\<close>

lemma sends_rounds:
  assumes "0 < asr_max_frame_bytes (se_settings E)" and "st_vad_rounds E fuel dec s = (Inr x, t)"
    and "sc_vad s = Some d" and "vd_inv d" and "0 < vd_frame_samples d"
  shows "\<exists>d' a m. sc_vad t = Some d' \<and> vd_inv d' \<and> same_limits d d' \<and>
    sent_audio (sc_calls t) = sent_audio (sc_calls s) @ audio_to_model dec @ a \<and> moved a m (vd_held d) (vd_held d')"
  using assms(2-)
proof (induction fuel arbitrary: dec s d)
  case 0
  then show ?case by (simp add: py_raise_def)
next
  case (Suc fuel)
  from Suc.prems(1) obtain u s1 where u: "st_handle_vad_decision E dec s = (Inr u, s1)"
    and rest: "(if \<not> endpoint dec then py_return ()
        else py_bind (st_vad (vd_endpoint_finalized (se_vad_backend E))) (st_vad_rounds E fuel)) s1 = (Inr x, t)"
    by (auto simp: py_seq_Inr)
  from sends_decision [OF assms(1)] u have s1: "sent_audio (sc_calls s1) = sent_audio (sc_calls s) @ audio_to_model dec"
    "sc_vad s1 = Some d" using Suc.prems(2) by (auto simp: sends_def)
  show ?case
  proof (cases "endpoint dec")
    case False
    with rest have "t = s1" by (simp add: py_return_def)
    with s1 Suc.prems show ?thesis by (auto intro!: exI [of _ "[]"] exI [of _ 0])
  next
    case True
    with rest obtain dec2 s2 where e: "st_vad (vd_endpoint_finalized (se_vad_backend E)) s1 = (Inr dec2, s2)"
      and r: "st_vad_rounds E fuel dec2 s2 = (Inr x, t)" by (auto simp: py_bind_Inr)
    from endpoint_finalized_outcome [OF Suc.prems(3,4), of "se_vad_backend E"] obtain d2 where
      f: "vd_endpoint_finalized (se_vad_backend E) d = Some (Inr dec2, d2)" "s2 = s1\<lparr>sc_vad := Some d2\<rparr>"
      and o: "vd_inv d2" "same_limits d d2" "moved (audio_to_model dec2) (discarded_samples dec2) (vd_held d) (vd_held d2)"
      using e s1(2) by (auto simp: st_vad_def vd_outcome_def)
    have "0 < vd_frame_samples d2" using o(2) Suc.prems(4) by (simp add: same_limits_def)
    from Suc.IH [OF r _ o(1) this] f(2) obtain d' a m where
      "sc_vad t = Some d'" "vd_inv d'" "same_limits d2 d'" "moved a m (vd_held d2) (vd_held d')"
      "sent_audio (sc_calls t) = sent_audio (sc_calls s2) @ audio_to_model dec2 @ a" by auto
    with f(2) s1(1) o show ?thesis
      by (intro exI [of _ d'] exI [of _ "audio_to_model dec2 @ a"] exI [of _ "discarded_samples dec2 + m"])
        (auto intro: same_limits_trans moved_trans)
  qed
qed

lemma sends_accept [simp]: "sends (py_modify (\<lambda>s. s\<lparr>sc_accepted_samples := a\<rparr>)) []"
  by (simp add: sends_def py_modify_def)

lemma sends_if: "sends m p \<Longrightarrow> sends n p \<Longrightarrow> sends (if b then m else n) p"
  by simp

lemma sends_validate [simp]: "sends (st_validate_audio_frame E p) []"
  unfolding st_validate_audio_frame_def Let_def
  by (intro sends_if sends_then sends_next) simp_all

section \<open>The rounds end\<close>

text \<open>An endpoint consumed at least one frame of the detector's input.\<close>

lemma drain_endpoint_shrinks:
  assumes "vd_inv d" and "0 < vd_frame_samples d" and "vd_drain_loop B d audio n ts = Some (Inr dec, d')" and "endpoint dec"
  shows "length (vd_input_buffer d') < length (vd_input_buffer d)"
  using assms
proof (induction "length (vd_input_buffer d)" arbitrary: d audio n ts rule: less_induct)
  case less
  note unfold = vd_drain_loop.simps [of B d audio n ts]
  show ?case
  proof (cases "vd_state d = FINALIZING \<or> length (vd_input_buffer d) < vd_frame_bytes d")
    case True
    with less.prems(3,4) show ?thesis by (subst (asm) unfold) auto
  next
    case False
    define frame where "frame = take (vd_frame_bytes d) (vd_input_buffer d)"
    define d1 where "d1 = d\<lparr>vd_input_buffer := drop (vd_frame_bytes d) (vd_input_buffer d)\<rparr>"
    obtain res v where pr: "speech_probability B (vd_backend d1) frame = (res, v)"
      by (cases "speech_probability B (vd_backend d1) frame")
    define d2 where "d2 = d1\<lparr>vd_backend := v\<rparr>"
    from False pr less.prems(3) obtain q where q: "res = Inr q"
      by (cases res) (subst (asm) unfold, simp add: Let_def d1_def frame_def)+
    obtain a ep m us d3 where pf: "vd_process_frame d2 frame q = ((a, ep, m, us), d3)"
      by (metis prod_cases5 prod.exhaust)
    have inv2: "vd_inv d2" "vd_state d2 \<noteq> FINALIZING" "length frame = vd_frame_bytes d2"
      using less.prems(1) False by (simp_all add: vd_inv_def d2_def d1_def frame_def vd_frame_bytes_def)
    from process_frame_ok [OF inv2, of q] pf have ok: "vd_inv d3" "vd_frame_samples d3 = vd_frame_samples d"
      "length (vd_input_buffer d3) < length (vd_input_buffer d)"
      using less.prems(2) False by (auto simp: frame_ok_def same_limits_def d2_def d1_def vd_frame_bytes_def)
    have step: "vd_drain_loop B d audio n ts = (if ep then Some (Inr \<lparr>audio_to_model = audio @ a, endpoint = True,
        discarded_samples = n + m, transitions = ts @ us\<rparr>, d3)
      else vd_drain_loop B d3 (audio @ a) (n + m) (ts @ us))"
      using False pr q pf by (subst unfold) (simp add: Let_def d1_def [symmetric] d2_def frame_def)
    note loop = less.prems(3) [unfolded step]
    show ?thesis
    proof (cases ep)
      case True
      with loop ok(3) show ?thesis by simp
    next
      case ne: False
      with loop have "vd_drain_loop B d3 (audio @ a) (n + m) (ts @ us) = Some (Inr dec, d')" by simp
      from less.hyps [OF ok(3,1) _ this less.prems(4)] ok(2,3) less.prems(2) show ?thesis by simp
    qed
  qed
qed

lemma finalized_endpoint_shrinks:
  assumes "vd_inv d" and "0 < vd_frame_samples d" and "vd_endpoint_finalized B d = Some (Inr dec, d')" and "endpoint dec"
  shows "length (vd_input_buffer d') < length (vd_input_buffer d)"
proof -
  let ?d1 = "d\<lparr>vd_state := WAITING_FOR_SPEECH, vd_backend := backend_reset B (vd_backend d)\<rparr>"
  from assms(3,4) have st: "vd_state d = FINALIZING"
    by (auto simp: vd_endpoint_finalized_def vad_decision_default_def split: if_splits)
  with assms(1) have "vd_inv ?d1" by (simp add: vd_inv_def)
  moreover have "vd_drain_loop B ?d1 [] 0 [(FINALIZING, WAITING_FOR_SPEECH)] = Some (Inr dec, d')"
    using assms(3) st by (simp add: vd_endpoint_finalized_def vd_drain_complete_frames_def vd_transition_def)
  ultimately show ?thesis using drain_endpoint_shrinks [of ?d1] assms(2,4) by simp
qed

definition rounds_needed :: "VADDecision \<Rightarrow> 'v StreamingVADEndpointDetector \<Rightarrow> nat" where
  "rounds_needed dec d = (if endpoint dec then length (vd_input_buffer d) + 2 else 1)"

lemma enough_rounds:
  assumes frames: "0 < asr_max_frame_bytes (se_settings E)" and "sc_vad s = Some d" and "vd_inv d"
    and "0 < vd_frame_samples d" and "rounds_needed dec d \<le> fuel"
  shows "st_vad_rounds E (fuel + k) dec s = st_vad_rounds E fuel dec s"
  using assms(2-)
proof (induction fuel arbitrary: dec s d)
  case 0
  then show ?case by (simp add: rounds_needed_def split: if_splits)
next
  case (Suc fuel)
  obtain r s1 where u: "st_handle_vad_decision E dec s = (r, s1)" by fastforce
  show ?case
  proof (cases "\<exists>x. r = Inr x \<and> endpoint dec")
    case False
    with u show ?thesis by (cases r) (auto simp: py_seq_def py_bind_def)
  next
    case True
    then obtain x where r: "r = Inr x" "endpoint dec" by blast
    with sends_decision [OF frames] u have s1: "sc_vad s1 = Some d" using Suc.prems(1) by (auto simp: sends_def)
    obtain res d2 where f: "vd_endpoint_finalized (se_vad_backend E) d = Some (res, d2)"
      and o: "vd_inv d2" "same_limits d d2"
      using endpoint_finalized_outcome [OF Suc.prems(2,3), of "se_vad_backend E"] by (auto simp: vd_outcome_def)
    have "st_vad_rounds E (fuel + k) dec2 (s1\<lparr>sc_vad := Some d2\<rparr>) = st_vad_rounds E fuel dec2 (s1\<lparr>sc_vad := Some d2\<rparr>)"
      if "res = Inr dec2" for dec2
    proof (rule Suc.IH [OF _ o(1)])
      show "0 < vd_frame_samples d2" using o(2) Suc.prems(3) by (simp add: same_limits_def)
      show "rounds_needed dec2 d2 \<le> fuel"
        using finalized_endpoint_shrinks [OF Suc.prems(2,3) f [unfolded that]] Suc.prems(4) r(2)
        by (auto simp: rounds_needed_def)
    qed simp
    with u r s1 f show ?thesis by (cases res) (auto simp: py_seq_def py_bind_def st_vad_def)
  qed
qed

section \<open>Properties\<close>


lemma example_vad_ok:
  "sc_vad example_controller = Some example_detector" "vd_inv example_detector" "0 < vd_frame_samples example_detector"
  "0 < asr_max_frame_bytes (se_settings example_stream_env)"
  by (simp_all add: example_controller_def st_init_def example_stream_env_def example_settings_fields Let_def
      example_detector_def vd_init_def vd_inv_def milliseconds_to_samples_def py_round_def)

lemma example_frame:
  "st_add_audio example_stream_env [0, 0] example_controller =
     (Inr (), example_controller\<lparr>sc_accepted_samples := 1, sc_vad := Some (example_detector\<lparr>vd_input_buffer := [0, 0]\<rparr>)\<rparr>)"
proof -
  have d: "vd_input_buffer example_detector = []" "vd_state example_detector \<noteq> FINALIZING" "2 < vd_frame_bytes example_detector"
    by (simp_all add: example_detector_def vd_init_def vd_frame_bytes_def)
  then have add: "vd_add_audio B example_detector [0, 0] = Some (Inr vad_decision_default, example_detector\<lparr>vd_input_buffer := [0, 0]\<rparr>)" for B
    by (simp add: vd_add_audio_def vd_drain_complete_frames_def vd_drain_loop.simps [of B "example_detector\<lparr>vd_input_buffer := [0, 0]\<rparr>"]
        vad_decision_default_def vd_frame_bytes_def)
  have s: "sc_accepted_samples example_controller = 0" "se_settings example_stream_env = example_stream_settings"
    by (simp_all add: example_controller_def st_init_def example_stream_env_def example_settings_fields Let_def)
  show ?thesis
    using example_vad_ok(1) s add
    by (simp add: st_add_audio_def st_validate_audio_frame_def example_settings_fields method_defs st_vad_def vad_rounds_def
        st_handle_vad_decision_def vad_decision_default_def st_when_def Let_def numeral_2_eq_2)
qed


text \<open>C32: the rounds of one call end: the number of rounds the call allows itself is enough, and a larger
  one gives the same outcome, whatever the backend, the coordinator and the socket do.\<close>

theorem stream_rounds_suffice:
  assumes "0 < asr_max_frame_bytes (se_settings E)" and "sc_vad s = Some d" and "vd_inv d" and "0 < vd_frame_samples d"
    and "vad_rounds s \<le> fuel"
  shows "st_vad_rounds E fuel decision s = st_vad_rounds E (vad_rounds s) decision s"
proof -
  have "rounds_needed decision d \<le> vad_rounds s" using assms(2) by (simp add: rounds_needed_def vad_rounds_def)
  from enough_rounds [OF assms(1-4) this, of "fuel - vad_rounds s"] assms(5) show ?thesis by simp
qed

theorem stream_rounds_suffice_witness:
  "st_vad_rounds example_stream_env (vad_rounds example_controller + 1) vad_decision_default example_controller =
   st_vad_rounds example_stream_env (vad_rounds example_controller) vad_decision_default example_controller"
  by (rule stream_rounds_suffice [OF example_vad_ok(4,1-3)]) simp

text \<open>C16: the real-time error means a backlog: over any calls observed from no debt on, it is reported at
  most once, and only when some consecutive calls took longer than the audio they decoded by more
  than the allowed lag; and the undecoded samples are exactly the submitted ones less the decoded.\<close>

theorem lag_error_means_backlog:
  assumes "st_observe_all S obs s = (reports, t)" and "sc_processing_debt_seconds s = 0"
    and "batches_ok (sc_undecoded_batches s)" and "list_all (\<lambda>x. 0 \<le> snd (snd x)) obs"
  shows "length (filter (\<lambda>b. b) reports) \<le> 1 \<and>
    (True \<in> set reports \<longrightarrow> (\<exists>calls. sublist calls obs \<and> asr_max_connection_lag_seconds S < backlog calls)) \<and>
    undecoded_samples (sc_undecoded_batches t) = expected_undecoded obs (undecoded_samples (sc_undecoded_batches s))"
  using observe_all_backlog [OF assms(1), of "[]"] observe_all_undecoded [OF assms(1,3,4)] assms(2)
  by (auto simp: backlog_def split: if_splits)

text \<open>Two slow calls: one second of audio each, decoded in three.\<close>

definition example_slow :: "observation list" where
  "example_slow = [(1, StreamingResult 0 [] None (Some 16000) True False 0 3 None, 16000),
     (2, StreamingResult 0 [] None (Some 16000) True False 0 3 None, 16000)]"

theorem lag_error_means_backlog_witness:
  "let (reports, t) = st_observe_all example_stream_settings example_slow example_controller in
   reports = [False, True] \<and> length (filter (\<lambda>b. b) reports) \<le> 1 \<and>
   (\<exists>calls. sublist calls example_slow \<and> asr_max_connection_lag_seconds example_stream_settings < backlog calls) \<and>
   undecoded_samples (sc_undecoded_batches t) = 0"
proof -
  obtain reports t where rt: "st_observe_all example_stream_settings example_slow example_controller = (reports, t)" by fastforce
  have start: "sc_processing_debt_seconds example_controller = 0" "sc_undecoded_batches example_controller = []"
    "sc_lag_error_sent example_controller = False" "sc_model_work_seconds example_controller = 0"
    "sc_sustained_decoded_lag_seconds example_controller = 0"
    by (simp_all add: example_controller_def st_init_def example_stream_env_def example_settings_fields Let_def)
  then have reports: "reports = [False, True]"
    using rt by (auto simp: example_slow_def st_observe_stream_progress_def Let_def total_decoded_samples_delta_def py_or_def
        example_settings_fields oldest_age_def)
  have "length (filter (\<lambda>b. b) reports) \<le> 1 \<and>
    (True \<in> set reports \<longrightarrow> (\<exists>calls. sublist calls example_slow \<and> asr_max_connection_lag_seconds example_stream_settings < backlog calls)) \<and>
    undecoded_samples (sc_undecoded_batches t) = expected_undecoded example_slow (undecoded_samples (sc_undecoded_batches example_controller))"
    by (rule lag_error_means_backlog [OF rt]) (simp_all add: start batches_ok_def example_slow_def)
  moreover have "expected_undecoded example_slow (undecoded_samples (sc_undecoded_batches example_controller)) = 0"
    by (simp add: start undecoded_samples_def example_slow_def total_decoded_samples_delta_def py_or_def)
  ultimately show ?thesis using reports by (simp add: rt)
qed

end
